(* ===== verification/Prelude.thy ===== *)
theory Prelude
  imports Main "HOL-Library.Word"
begin

text \<open>
  Shared vocabulary of the SaturnOS development: the machine integer types of the C code, the
  loop shapes that recur in the kernel (first free slot of a fixed table, a counted loop over an
  address range, copying bytes into a buffer), and the generic lemmas about them.
\<close>

unbundle bit_operations_syntax

section \<open>Machine types\<close>

type_synonym u8 = "8 word"
type_synonym u16 = "16 word"
type_synonym u32 = "32 word"
type_synonym u64 = "64 word"

text \<open>A C cast of an unsigned long to int keeps the low 32 bits, read as two's complement.\<close>

definition c_int :: "u64 \<Rightarrow> int" where
  "c_int x = sint (ucast x :: u32)"

text \<open>A C cast of an int or long to unsigned long.\<close>

definition c_ulong :: "int \<Rightarrow> u64" where
  "c_ulong x = word_of_int x"

text \<open>
  Collections: \<open>layout_simps\<close> holds the constants and selectors a component unfolds by default,
  \<open>inv_intros\<close> the preservation lemmas of the components' invariants.
\<close>

named_theorems layout_simps \<open>constants and derived selectors of the modelled components\<close>
named_theorems inv_intros \<open>preservation lemmas of component invariants\<close>

section \<open>First matching slot\<close>

text \<open>
  The loop \<^verbatim>\<open>for (i = 0; i < N; i++) if (P(table[i])) return i;\<close> over a fixed table.
\<close>

fun find_slot :: "('a \<Rightarrow> bool) \<Rightarrow> 'a list \<Rightarrow> nat option" where
  "find_slot P [] = None"
| "find_slot P (x # xs) = (if P x then Some 0 else map_option Suc (find_slot P xs))"

lemma find_slot_Some_iff:
  "find_slot P xs = Some i \<longleftrightarrow> i < length xs \<and> P (xs ! i) \<and> (\<forall>j<i. \<not> P (xs ! j))"
proof (induction xs arbitrary: i)
  case Nil
  then show ?case by simp
next
  case (Cons x xs)
  then show ?case
    by (cases i) (auto simp: All_less_Suc2)
qed

lemma find_slot_None_iff: "find_slot P xs = None \<longleftrightarrow> (\<forall>x\<in>set xs. \<not> P x)"
  by (induction xs) auto

lemma find_slot_SomeD:
  assumes "find_slot P xs = Some i"
  shows "i < length xs" and "P (xs ! i)"
  using assms by (simp_all add: find_slot_Some_iff)

lemma find_slot_cong:
  "(\<And>x. x \<in> set xs \<Longrightarrow> P x = Q x) \<Longrightarrow> find_slot P xs = find_slot Q xs"
  by (induction xs) auto

text \<open>Counting the slots of a table that satisfy a predicate, across an update of one slot.\<close>

lemma length_filter_update:
  assumes "i < length xs"
  shows "length (filter P (xs[i := x])) + (if P (xs ! i) then 1 else 0)
    = length (filter P xs) + (if P x then 1 else 0)"
  using assms
proof (induction xs arbitrary: i)
  case (Cons y ys)
  show ?case
  proof (cases i)
    case (Suc j)
    with Cons.IH [of j] Cons.prems show ?thesis by simp
  qed simp
qed simp

section \<open>Counted loops over an address range\<close>

text \<open>
  The values the loop variable of \<^verbatim>\<open>for (cur = lower; cur < upper; cur += step)\<close> takes, for a
  range that does not run up to the end of the address space (so that the increment does not wrap
  before the comparison fails).
\<close>

definition for_range :: "u64 \<Rightarrow> u64 \<Rightarrow> u64 \<Rightarrow> u64 list" where
  "for_range lower upper step =
     map (\<lambda>k. lower + of_nat k * step)
       [0..<(unat upper - unat lower + (unat step - 1)) div unat step]"

lemma ceil_div_step:
  fixes a s :: nat
  assumes "0 < a" "0 < s"
  shows "(a + (s - 1)) div s = Suc ((a - s + (s - 1)) div s)"
proof -
  obtain b where a: "a = Suc b" using assms by (cases a) auto
  have "a + (s - 1) = b + s" using assms a by simp
  then have "(a + (s - 1)) div s = Suc (b div s)" using assms by (simp only: div_add_self2)
  moreover have "(a - s + (s - 1)) div s = b div s"
  proof (cases "s \<le> a")
    case True
    then have "a - s + (s - 1) = b" using assms a by simp
    then show ?thesis by simp
  next
    case False
    then show ?thesis using assms a by simp
  qed
  ultimately show ?thesis by simp
qed

lemma for_range_empty: "upper \<le> lower \<Longrightarrow> 0 < step \<Longrightarrow> for_range lower upper step = []"
proof -
  assume "upper \<le> lower" "0 < step"
  then have "unat upper - unat lower = 0" "0 < unat step"
    by (simp_all add: word_le_nat_alt unat_gt_0)
  then show ?thesis by (simp add: for_range_def)
qed

lemma for_range_unfold:
  assumes "lower < upper" "0 < step" "unat lower + unat step < 2 ^ 64"
  shows "for_range lower upper step = lower # for_range (lower + step) upper step"
proof -
  have u: "unat (lower + step) = unat lower + unat step"
    using assms(3) by (simp add: unat_word_ariths)
  have "0 < unat upper - unat lower" "0 < unat step"
    using assms by (simp_all add: word_less_nat_alt unat_gt_0)
  from ceil_div_step [OF this]
  have n: "(unat upper - unat lower + (unat step - 1)) div unat step
      = Suc ((unat upper - unat (lower + step) + (unat step - 1)) div unat step)"
    by (simp only: u diff_diff_left)
  show ?thesis
    unfolding for_range_def n
    by (simp add: upt_conv_Cons map_Suc_upt [symmetric] algebra_simps del: upt_Suc)
qed

section \<open>Byte buffers\<close>

text \<open>Copying bytes into a buffer at an offset, the loop \<^verbatim>\<open>buf[off + i] = src[i]\<close>.\<close>

definition splice :: "'a list \<Rightarrow> nat \<Rightarrow> 'a list \<Rightarrow> 'a list" where
  "splice buf off src = take off buf @ src @ drop (off + length src) buf"

text \<open>Reading a run of bytes, the loop \<^verbatim>\<open>dst[i] = buf[off + i]\<close>.\<close>

definition slice :: "nat \<Rightarrow> nat \<Rightarrow> 'a list \<Rightarrow> 'a list" where
  "slice off n buf = take n (drop off buf)"

lemma length_splice [simp]:
  "off + length src \<le> length buf \<Longrightarrow> length (splice buf off src) = length buf"
  by (simp add: splice_def)

lemma nth_splice:
  assumes "off + length src \<le> length buf" "i < length buf"
  shows "splice buf off src ! i =
    (if off \<le> i \<and> i < off + length src then src ! (i - off) else buf ! i)"
  using assms by (auto simp: splice_def nth_append min_def)

lemma slice_splice_same [simp]:
  "off + length src \<le> length buf \<Longrightarrow> slice off (length src) (splice buf off src) = src"
  by (simp add: splice_def slice_def)

lemma length_slice [simp]: "off + n \<le> length buf \<Longrightarrow> length (slice off n buf) = n"
  by (simp add: slice_def)

lemma nth_slice: "i < n \<Longrightarrow> off + n \<le> length buf \<Longrightarrow> slice off n buf ! i = buf ! (off + i)"
  by (simp add: slice_def)

lemma splice_empty [simp]: "splice buf off [] = buf"
  by (simp add: splice_def)

lemma take_splice_le: "n \<le> off \<Longrightarrow> off \<le> length buf \<Longrightarrow> take n (splice buf off src) = take n buf"
  by (simp add: splice_def)

lemma slice_splice_other:
  assumes "off + length src \<le> length buf" "c + n \<le> off \<or> off + length src \<le> c"
  shows "slice c n (splice buf off src) = slice c n buf"
proof (rule nth_equalityI)
  show "length (slice c n (splice buf off src)) = length (slice c n buf)"
    using assms(1) by (simp add: slice_def)
  fix i assume "i < length (slice c n (splice buf off src))"
  then have "i < n" "c + i < length buf" using assms(1) by (auto simp: slice_def)
  then show "slice c n (splice buf off src) ! i = slice c n buf ! i"
    using assms by (auto simp: slice_def nth_splice)
qed

lemma splice_restore:
  assumes "off + n \<le> length buf" "length src = n"
  shows "splice (splice buf off src) off (slice off n buf) = buf"
proof (rule nth_equalityI)
  have l: "length (splice buf off src) = length buf" "length (slice off n buf) = n"
    using assms by simp_all
  then show len: "length (splice (splice buf off src) off (slice off n buf)) = length buf"
    using assms by (subst length_splice) simp_all
  fix i assume "i < length (splice (splice buf off src) off (slice off n buf))"
  then have "i < length buf" using len by simp
  with assms l show "splice (splice buf off src) off (slice off n buf) ! i = buf ! i"
    by (auto simp: nth_splice nth_slice)
qed

section \<open>C strings and little-endian integers\<close>

text \<open>
  A C string argument is the list of its bytes before the terminator. A character array holds a
  string up to its first zero byte; storing a string writes its bytes and the terminator over the
  start of the array and leaves the rest.
\<close>

type_synonym cstring = "u8 list"

definition cstr_ok :: "cstring \<Rightarrow> bool" where
  "cstr_ok s \<longleftrightarrow> 0 \<notin> set s"

definition cstr :: "u8 list \<Rightarrow> cstring" where
  "cstr bs = takeWhile (\<lambda>b. b \<noteq> 0) bs"

definition set_cstr :: "u8 list \<Rightarrow> cstring \<Rightarrow> u8 list" where
  "set_cstr arr s = splice arr 0 (s @ [0])"

definition bytes_of :: "string \<Rightarrow> u8 list" where
  "bytes_of s = map of_char s"

lemma cstr_set_cstr: "cstr_ok s \<Longrightarrow> cstr (set_cstr arr s) = s"
  by (auto simp: cstr_def set_cstr_def splice_def cstr_ok_def takeWhile_append)

lemma length_set_cstr: "length s < length arr \<Longrightarrow> length (set_cstr arr s) = length arr"
  by (simp add: set_cstr_def)

lemma cstr_ok_cstr: "cstr_ok (cstr bs)"
  by (auto simp: cstr_def cstr_ok_def dest: set_takeWhileD)

text \<open>The string comparison loop shared by the file systems.\<close>

fun cstr_equals :: "cstring \<Rightarrow> cstring \<Rightarrow> bool" where
  "cstr_equals (x # xs) (y # ys) = (x = y \<and> cstr_equals xs ys)"
| "cstr_equals [] [] = True"
| "cstr_equals _ _ = False"

lemma cstr_equals_iff [simp]: "cstr_equals xs ys \<longleftrightarrow> xs = ys"
  by (induction xs ys rule: cstr_equals.induct) auto

definition le32 :: "u32 \<Rightarrow> u8 list" where
  "le32 x = [ucast x, ucast (drop_bit 8 x), ucast (drop_bit 16 x), ucast (drop_bit 24 x)]"

definition un_le32 :: "u8 list \<Rightarrow> u32" where
  "un_le32 bs = ucast (bs ! 0) OR push_bit 8 (ucast (bs ! 1)) OR push_bit 16 (ucast (bs ! 2))
     OR push_bit 24 (ucast (bs ! 3))"

lemma length_le32 [simp]: "length (le32 x) = 4"
  by (simp add: le32_def)

lemma un_le32_le32 [simp]: "un_le32 (le32 x) = x"
proof (rule bit_word_eqI)
  fix n assume "n < LENGTH(32)"
  then consider "n < 8" | "8 \<le> n" "n < 16" | "16 \<le> n" "n < 24" | "24 \<le> n" "n < 32" by fastforce
  then show "bit (un_le32 (le32 x)) n = bit x n"
    by cases (auto simp: un_le32_def le32_def bit_simps)
qed

section \<open>Words\<close>

lemma unat_add_no_wrap: "unat (a :: 'a::len word) + unat b < 2 ^ LENGTH('a) \<Longrightarrow> unat (a + b) = unat a + unat b"
  by (simp add: unat_word_ariths)

lemma unat_diff_le: "(b :: 'a::len word) \<le> a \<Longrightarrow> unat (a - b) = unat a - unat b"
  by (simp add: unat_sub)

text \<open>One bit of a byte, and the byte and bit position of a bitmap index.\<close>

lemma bit_u8_exp [simp]: "bit (2 ^ n :: u8) k \<longleftrightarrow> k = n \<and> n < 8"
  by (auto simp: bit_exp_iff)

lemma div_mod_eqI:
  fixes i j :: nat
  assumes "i div m = j div m" "i mod m = j mod m"
  shows "i = j"
  using assms by (metis div_mult_mod_eq)

text \<open>Clearing and keeping the low bits of a word, on the unsigned values.\<close>

lemma and_not_mask_eq: "(v :: 'a::len word) AND NOT (mask n) = push_bit n (drop_bit n v)"
  by (rule bit_word_eqI) (auto simp: bit_simps)

lemma unat_and_not_mask: "unat (v AND NOT (mask n) :: 'a::len word) = unat v div 2^n * 2^n"
proof -
  have "unat v div 2 ^ n * 2 ^ n \<le> unat v" by simp
  also have "\<dots> < 2 ^ LENGTH('a)" by simp
  finally show ?thesis
    by (simp only: and_not_mask_eq unat_drop_bit_eq unsigned_push_bit_eq)
      (simp add: drop_bit_eq_div push_bit_eq_mult take_bit_nat_eq_self)
qed
lemma unat_page_down: "unat ((v::u64) AND - 4096) = unat v div 4096 * 4096"
  using unat_and_not_mask [of v 12] by (simp add: mask_eq_exp_minus_1)

lemma unat_and_mask: "unat (v AND mask n :: 'a::len word) = unat v mod 2^n"
  by (simp only: take_bit_eq_mask [symmetric] unsigned_take_bit_eq) (simp add: take_bit_eq_mod)
lemma unat_page_off: "unat ((v::u64) AND 4095) = unat v mod 4096"
  using unat_and_mask [of v 12] by (simp add: mask_eq_exp_minus_1)
lemma page_aligned_iff: "(v::u64) AND 4095 = 0 \<longleftrightarrow> 4096 dvd unat v"
  by (simp add: unat_eq_zero [symmetric] unat_page_off dvd_eq_mod_eq_0)

end
