(* ===== verification/Pmm.thy ===== *)
theory Pmm
  imports Prelude
begin

text \<open>
  The physical memory manager, kernel/memory/pmm.c and pmm.h: a bitmap with one bit per 4 KiB
  page of RAM and a counter of used pages. The linker symbol \<^verbatim>\<open>_kernel_end\<close> is an argument of
  \<open>pmm_init\<close>. The lemmas relate the bitmap to the set of used page numbers, show that the
  counter is its cardinality, and discharge the interface \<open>page_allocator\<close> that the kernel heap
  relies on.
\<close>

section \<open>Constants and state\<close>

abbreviation PMM_PAGE_SIZE :: u64 where "PMM_PAGE_SIZE \<equiv> 4096"
abbreviation PMM_RAM_BASE :: u64 where "PMM_RAM_BASE \<equiv> 0x40000000"
abbreviation PMM_RAM_SIZE :: u64 where "PMM_RAM_SIZE \<equiv> 0x08000000"
abbreviation PMM_RAM_END :: u64 where "PMM_RAM_END \<equiv> PMM_RAM_BASE + PMM_RAM_SIZE"
abbreviation PMM_TOTAL_PAGES :: u64 where "PMM_TOTAL_PAGES \<equiv> PMM_RAM_SIZE div PMM_PAGE_SIZE"
abbreviation RAMFB_RESERVED_BASE :: u64 where "RAMFB_RESERVED_BASE \<equiv> 0x46ffe000"
abbreviation RAMFB_RESERVED_END :: u64 where "RAMFB_RESERVED_END \<equiv> 0x47200000"

record pmm =
  page_bitmap :: "u8 list"
  used_pages :: u64

section \<open>Operations\<close>

definition pmm_align_down :: "u64 \<Rightarrow> u64" where
  "pmm_align_down v = v AND NOT (PMM_PAGE_SIZE - 1)"

definition pmm_align_up :: "u64 \<Rightarrow> u64" where
  "pmm_align_up v = (v + PMM_PAGE_SIZE - 1) AND NOT (PMM_PAGE_SIZE - 1)"

definition page_index :: "u64 \<Rightarrow> u64" where
  "page_index address = (address - PMM_RAM_BASE) div PMM_PAGE_SIZE"

definition page_is_used :: "pmm \<Rightarrow> u64 \<Rightarrow> bool" where
  "page_is_used p index \<longleftrightarrow>
     page_bitmap p ! unat (index div 8) AND push_bit (unat (index mod 8)) 1 \<noteq> 0"

definition mark_page_used :: "u64 \<Rightarrow> pmm \<Rightarrow> pmm" where
  "mark_page_used index p =
     (if \<not> page_is_used p index
      then p\<lparr>page_bitmap := (page_bitmap p)[unat (index div 8) :=
                 page_bitmap p ! unat (index div 8) OR push_bit (unat (index mod 8)) 1],
             used_pages := used_pages p + 1\<rparr>
      else p)"

definition mark_page_free :: "u64 \<Rightarrow> pmm \<Rightarrow> pmm" where
  "mark_page_free index p =
     (if page_is_used p index
      then p\<lparr>page_bitmap := (page_bitmap p)[unat (index div 8) :=
                 page_bitmap p ! unat (index div 8) AND NOT (push_bit (unat (index mod 8)) 1)],
             used_pages := used_pages p - 1\<rparr>
      else p)"

definition reserve_range :: "u64 \<Rightarrow> u64 \<Rightarrow> pmm \<Rightarrow> pmm" where
  "reserve_range start end p =
     (if end \<le> PMM_RAM_BASE \<or> start \<ge> PMM_RAM_END then p
      else
        let start = (if start < PMM_RAM_BASE then PMM_RAM_BASE else start);
            end = (if end > PMM_RAM_END then PMM_RAM_END else end);
            start = pmm_align_down start;
            end = pmm_align_up end
        in fold (\<lambda>current. mark_page_used (page_index current))
             (for_range start end PMM_PAGE_SIZE) p)"

definition pmm_init :: "u64 \<Rightarrow> pmm" where
  "pmm_init kernel_end =
     reserve_range RAMFB_RESERVED_BASE RAMFB_RESERVED_END
       (reserve_range PMM_RAM_BASE kernel_end
          \<lparr>page_bitmap = replicate (unat (PMM_TOTAL_PAGES div 8)) 0, used_pages = 0\<rparr>)"

definition pmm_alloc_page :: "pmm \<Rightarrow> u64 \<times> pmm" where
  "pmm_alloc_page p =
     (case find (\<lambda>i. \<not> page_is_used p (of_nat i)) [0..<unat PMM_TOTAL_PAGES] of
        Some i \<Rightarrow> (PMM_RAM_BASE + of_nat i * PMM_PAGE_SIZE, mark_page_used (of_nat i) p)
      | None \<Rightarrow> (0, p))"

definition pmm_free_page :: "u64 \<Rightarrow> pmm \<Rightarrow> pmm" where
  "pmm_free_page address p =
     (if address < PMM_RAM_BASE \<or> address \<ge> PMM_RAM_END then p
      else if address AND (PMM_PAGE_SIZE - 1) \<noteq> 0 then p
      else mark_page_free (page_index address) p)"

definition pmm_total_pages :: u64 where
  "pmm_total_pages = PMM_TOTAL_PAGES"

definition pmm_used_pages :: "pmm \<Rightarrow> u64" where
  "pmm_used_pages p = used_pages p"

definition pmm_free_pages :: "pmm \<Rightarrow> u64" where
  "pmm_free_pages p = PMM_TOTAL_PAGES - used_pages p"

section \<open>The set of used pages and the invariant\<close>

definition used_set :: "pmm \<Rightarrow> nat set" where
  "used_set p = {i. i < 32768 \<and> bit (page_bitmap p ! (i div 8)) (i mod 8)}"

definition pmm_inv :: "pmm \<Rightarrow> bool" where
  "pmm_inv p \<longleftrightarrow> length (page_bitmap p) = 4096 \<and> used_pages p = of_nat (card (used_set p))"

lemma finite_used_set [simp]: "finite (used_set p)"
  by (simp add: used_set_def)

lemma used_set_bound: "used_set p \<subseteq> {..<32768}"
  by (auto simp: used_set_def)

lemma card_used_set_le: "card (used_set p) \<le> 32768"
  using card_mono [OF _ used_set_bound] by simp

lemma page_is_used_bit:
  "page_is_used p index = bit (page_bitmap p ! (unat index div 8)) (unat index mod 8)"
  by (simp add: page_is_used_def bit_iff_and_push_bit_not_eq_0 unat_div unat_mod)

lemma page_is_used_iff:
  "unat index < 32768 \<Longrightarrow> page_is_used p index \<longleftrightarrow> unat index \<in> used_set p"
  by (simp add: page_is_used_bit used_set_def)

lemma used_set_mark_used:
  assumes "length (page_bitmap p) = 4096" "unat index < 32768"
  shows "used_set (mark_page_used index p) = insert (unat index) (used_set p)"
  using assms div_mod_eqI [of _ 8 "unat index"]
  by (auto simp: mark_page_used_def page_is_used_bit used_set_def nth_list_update bit_or_iff
      unat_div unat_mod split: if_splits)

lemma used_set_mark_free:
  assumes "length (page_bitmap p) = 4096" "unat index < 32768"
  shows "used_set (mark_page_free index p) = used_set p - {unat index}"
  using assms div_mod_eqI [of _ 8 "unat index"]
  by (auto simp: mark_page_free_def page_is_used_bit used_set_def nth_list_update bit_and_iff
      bit_not_iff unat_div unat_mod split: if_splits)

lemma mark_page_used_inv [inv_intros]:
  assumes "pmm_inv p" "unat index < 32768"
  shows "pmm_inv (mark_page_used index p)"
proof (cases "unat index \<in> used_set p")
  case True
  with assms show ?thesis by (simp add: mark_page_used_def page_is_used_iff)
next
  case False
  have "length (page_bitmap p) = 4096" using assms by (simp add: pmm_inv_def)
  from used_set_mark_used [OF this assms(2)] False assms show ?thesis
    by (simp add: pmm_inv_def) (simp add: mark_page_used_def page_is_used_iff)
qed

lemma mark_page_free_inv [inv_intros]:
  assumes "pmm_inv p" "unat index < 32768"
  shows "pmm_inv (mark_page_free index p)"
proof (cases "unat index \<in> used_set p")
  case False
  with assms show ?thesis by (simp add: mark_page_free_def page_is_used_iff)
next
  case True
  then have "0 < card (used_set p)" by (auto simp: card_gt_0_iff)
  then have "of_nat (card (used_set p) - 1) = (of_nat (card (used_set p)) - 1 :: u64)"
    by (simp add: of_nat_diff)
  moreover have "length (page_bitmap p) = 4096" using assms by (simp add: pmm_inv_def)
  ultimately show ?thesis
    using used_set_mark_free [OF _ assms(2), of p] True assms
    by (simp add: pmm_inv_def) (simp add: mark_page_free_def page_is_used_iff)
qed

section \<open>Reserving ranges\<close>

text \<open>The pages whose bytes meet the address range \<open>[start, end)\<close>.\<close>

definition pages_overlapping :: "nat \<Rightarrow> nat \<Rightarrow> nat set" where
  "pages_overlapping lo hi =
     {i. i < 32768 \<and> 0x40000000 + i * 4096 < hi \<and> lo < 0x40000000 + Suc i * 4096}"

lemma fold_mark_used:
  assumes "pmm_inv p" "\<And>c. c \<in> set cs \<Longrightarrow> unat (f c) < 32768"
  shows "pmm_inv (fold (\<lambda>c. mark_page_used (f c)) cs p) \<and>
    used_set (fold (\<lambda>c. mark_page_used (f c)) cs p) = used_set p \<union> (\<lambda>c. unat (f c)) ` set cs"
  using assms
proof (induction cs arbitrary: p)
  case Nil
  then show ?case by simp
next
  case (Cons c cs)
  have len: "length (page_bitmap p) = 4096" using Cons.prems by (simp add: pmm_inv_def)
  have "pmm_inv (mark_page_used (f c) p)" using Cons.prems by (simp add: mark_page_used_inv)
  from Cons.IH [OF this] Cons.prems used_set_mark_used [OF len, of "f c"] show ?case
    by auto
qed

lemma page_index_nat:
  "0x40000000 \<le> unat a \<Longrightarrow> unat (page_index a) = (unat a - 0x40000000) div 4096"
  by (simp add: page_index_def unat_div unat_sub word_le_nat_alt)

lemma for_range_pages:
  assumes "4096 dvd unat lo" "4096 dvd unat hi" "unat lo \<le> unat hi" "0x40000000 \<le> unat lo"
  shows "(\<lambda>c. unat (page_index c)) ` set (for_range lo hi 4096)
    = {unat lo div 4096 - 0x40000 ..< unat hi div 4096 - 0x40000}"
proof -
  obtain l h where l: "unat lo = 4096 * l" and h: "unat hi = 4096 * h"
    using assms by (auto simp: dvd_def)
  have n: "(unat hi - unat lo + (unat (4096 :: u64) - 1)) div unat (4096 :: u64) = h - l"
    using l h assms by simp
  have idx: "unat (page_index (lo + of_nat k * 4096)) = l - 0x40000 + k" if "k < h - l" for k
  proof -
    have "unat hi < 2 ^ 64" by (rule order_less_le_trans [OF unsigned_less]) simp
    then have "k * 4096 + unat lo < 2 ^ 64" using that h l by simp
    then have "unat (lo + of_nat k * 4096) = unat lo + k * 4096"
      by (simp add: unat_word_ariths unat_of_nat take_bit_nat_eq_self)
    then show ?thesis using l assms by (simp add: page_index_nat)
  qed
  have "(\<lambda>c. unat (page_index c)) ` set (for_range lo hi 4096)
      = (\<lambda>k. unat (page_index (lo + of_nat k * 4096))) ` {0..<h - l}"
    unfolding for_range_def n by (simp add: image_image)
  also have "\<dots> = (\<lambda>k. l - 0x40000 + k) ` {0..<h - l}"
    by (rule image_cong) (simp_all add: idx)
  also have "\<dots> = {l - 0x40000 ..< h - 0x40000}"
  proof -
    have "h - l + (l - 0x40000) = h - 0x40000" using assms l h by simp
    then show ?thesis using image_add_atLeastLessThan [of "l - 0x40000" 0 "h - l"] by simp
  qed
  finally show ?thesis using l h by simp
qed

lemma page_range_iff:
  fixes s e :: nat
  assumes "s < 0x48000000" "0x40000000 < e"
  shows "max 0x40000000 s div 4096 - 0x40000 \<le> i \<and>
      i < (min 0x48000000 e + 4095) div 4096 - 0x40000
    \<longleftrightarrow> i < 32768 \<and> 0x40000000 + i * 4096 < e \<and> s < 0x40000000 + Suc i * 4096"
proof -
  have "max 0x40000000 s div 4096 - 0x40000 \<le> i \<longleftrightarrow> max 0x40000000 s div 4096 < i + 0x40001"
    by arith
  also have "\<dots> \<longleftrightarrow> max 0x40000000 s < (i + 0x40001) * 4096"
    by (rule div_less_iff_less_mult) simp
  finally have l: "max 0x40000000 s div 4096 - 0x40000 \<le> i \<longleftrightarrow> max 0x40000000 s < (i + 0x40001) * 4096" .
  have "i < (min 0x48000000 e + 4095) div 4096 - 0x40000
      \<longleftrightarrow> i + 0x40001 \<le> (min 0x48000000 e + 4095) div 4096"
    by arith
  also have "\<dots> \<longleftrightarrow> (i + 0x40001) * 4096 \<le> min 0x48000000 e + 4095"
    by (rule less_eq_div_iff_mult_less_eq) simp
  also have "\<dots> \<longleftrightarrow> (i + 0x40001) * 4096 \<le> 0x48000000 + 4095 \<and> (i + 0x40001) * 4096 \<le> e + 4095"
    by (simp only: min_add_distrib_left min.bounded_iff)
  finally have u: "i < (min 0x48000000 e + 4095) div 4096 - 0x40000
      \<longleftrightarrow> (i + 0x40001) * 4096 \<le> 0x48000000 + 4095 \<and> (i + 0x40001) * 4096 \<le> e + 4095" .
  show ?thesis
    unfolding l u max_less_iff_conj by auto
qed

lemma reserve_range_spec:
  assumes inv: "pmm_inv p" and le: "start \<le> end"
  shows "pmm_inv (reserve_range start end p) \<and>
    used_set (reserve_range start end p) = used_set p \<union> pages_overlapping (unat start) (unat end)"
proof (cases "end \<le> PMM_RAM_BASE \<or> start \<ge> PMM_RAM_END")
  case True
  then have "pages_overlapping (unat start) (unat end) = {}"
    by (auto simp: pages_overlapping_def word_le_nat_alt)
  with True inv show ?thesis by (simp add: reserve_range_def)
next
  case False
  define lo where "lo = pmm_align_down (if start < PMM_RAM_BASE then PMM_RAM_BASE else start)"
  define hi where "hi = pmm_align_up (if end > PMM_RAM_END then PMM_RAM_END else end)"
  have lo: "unat lo = max 0x40000000 (unat start) div 4096 * 4096"
    by (simp add: lo_def pmm_align_down_def unat_page_down word_less_nat_alt max_def)
  have "unat (if end > PMM_RAM_END then PMM_RAM_END else end) = min 0x48000000 (unat end)"
    by (simp add: word_less_nat_alt min_def)
  then have hi: "unat hi = (min 0x48000000 (unat end) + 4095) div 4096 * 4096"
    by (simp add: hi_def pmm_align_up_def unat_page_down unat_word_ariths)
  have b: "unat start < 0x48000000" "0x40000000 < unat end" "unat start \<le> unat end"
    using False le by (simp_all add: word_le_nat_alt)
  have ord: "unat lo \<le> unat hi" "0x40000000 \<le> unat lo"
    using b by (auto simp: lo hi max_def min_def)
  have img: "(\<lambda>c. unat (page_index c)) ` set (for_range lo hi 4096)
      = {unat lo div 4096 - 0x40000 ..< unat hi div 4096 - 0x40000}"
    by (rule for_range_pages [OF _ _ ord]) (simp_all add: lo hi)
  also have "\<dots> = pages_overlapping (unat start) (unat end)"
    using b by (intro set_eqI) (auto simp: pages_overlapping_def page_range_iff lo hi)
  finally have pages: "(\<lambda>c. unat (page_index c)) ` set (for_range lo hi 4096)
      = pages_overlapping (unat start) (unat end)" .
  then have "unat (page_index c) < 32768" if "c \<in> set (for_range lo hi 4096)" for c
    using that by (auto simp: pages_overlapping_def)
  from fold_mark_used [OF inv, of "for_range lo hi 4096" page_index, OF this] pages
  show ?thesis
    using False by (simp add: reserve_range_def Let_def lo_def hi_def)
qed

section \<open>Page addresses\<close>

definition page_addr :: "nat \<Rightarrow> u64" where
  "page_addr i = PMM_RAM_BASE + of_nat i * PMM_PAGE_SIZE"

definition pmm_frames :: "u64 set" where
  "pmm_frames = {a. PMM_RAM_BASE \<le> a \<and> a < PMM_RAM_END \<and> a AND (PMM_PAGE_SIZE - 1) = 0}"

definition pmm_live :: "pmm \<Rightarrow> u64 set" where
  "pmm_live p = page_addr ` used_set p"

lemma unat_page_addr: "i < 32768 \<Longrightarrow> unat (page_addr i) = 0x40000000 + i * 4096"
  by (simp add: page_addr_def unat_word_ariths unat_of_nat take_bit_nat_eq_self)

lemma page_addr_inject: "i < 32768 \<Longrightarrow> j < 32768 \<Longrightarrow> page_addr i = page_addr j \<longleftrightarrow> i = j"
  by (auto dest: arg_cong [where f = unat] simp: unat_page_addr)

lemma page_addr_nonzero: "i < 32768 \<Longrightarrow> page_addr i \<noteq> 0"
  by (auto dest: arg_cong [where f = unat] simp: unat_page_addr)

lemma page_index_page_addr: "i < 32768 \<Longrightarrow> page_index (page_addr i) = of_nat i"
  by (rule word_unat_eq_iff [THEN iffD2])
    (simp add: page_index_nat unat_page_addr unat_of_nat take_bit_nat_eq_self)

lemma frames_eq: "pmm_frames = page_addr ` {..<32768}"
proof (intro set_eqI iffI)
  fix a assume "a \<in> pmm_frames"
  then have a: "0x40000000 \<le> unat a" "unat a < 0x48000000" "4096 dvd unat a"
    by (simp_all add: pmm_frames_def word_le_nat_alt word_less_nat_alt page_aligned_iff)
  then obtain k where k: "unat a = 4096 * k" by (auto simp: dvd_def)
  with a have "unat a = unat (page_addr (k - 0x40000))" "k - 0x40000 < 32768"
    by (simp_all add: unat_page_addr)
  then show "a \<in> page_addr ` {..<32768}" by (auto simp: word_unat_eq_iff)
next
  fix a assume "a \<in> page_addr ` {..<32768}"
  then show "a \<in> pmm_frames"
    by (auto simp: pmm_frames_def word_le_nat_alt word_less_nat_alt page_aligned_iff unat_page_addr)
qed

lemma pmm_live_frames: "pmm_live p \<subseteq> pmm_frames"
  using used_set_bound by (auto simp: pmm_live_def frames_eq)

section \<open>Allocation and release\<close>

lemma pmm_alloc_cases:
  assumes inv: "pmm_inv p" and alloc: "pmm_alloc_page p = (a, p')"
  obtains (full) "a = 0" "p' = p" "used_set p = {..<32768}"
    | (page) i where "i < 32768" "i \<notin> used_set p" "\<forall>j<i. j \<in> used_set p" "a = page_addr i"
        "p' = mark_page_used (of_nat i) p" "used_set p' = insert i (used_set p)" "pmm_inv p'"
proof (cases "find (\<lambda>i. \<not> page_is_used p (of_nat i)) [0..<32768]")
  case None
  then have "\<forall>i<32768. page_is_used p (of_nat i)" by (auto simp: find_None_iff)
  then have "{..<32768} \<subseteq> used_set p"
    by (auto simp: page_is_used_iff unat_of_nat take_bit_nat_eq_self)
  with None alloc used_set_bound [of p] show ?thesis
    by (intro full) (auto simp: pmm_alloc_page_def)
next
  case (Some i)
  then have i: "i < 32768" "\<not> page_is_used p (of_nat i)" "\<forall>j<i. page_is_used p (of_nat j)"
    by (auto simp: find_Some_iff)
  then have n: "unat (of_nat i :: u64) = i" "\<And>j. j < i \<Longrightarrow> unat (of_nat j :: u64) = j"
    by (simp_all add: unat_of_nat take_bit_nat_eq_self)
  have "length (page_bitmap p) = 4096" using inv by (simp add: pmm_inv_def)
  from used_set_mark_used [OF this, of "of_nat i"] mark_page_used_inv [OF inv, of "of_nat i"] i n
  show ?thesis
    using Some alloc by (intro page [of i]) (auto simp: pmm_alloc_page_def page_addr_def page_is_used_iff)
qed

lemma pmm_free_frame:
  assumes "pmm_inv p" "a \<in> pmm_frames"
  shows "pmm_inv (pmm_free_page a p)" and "pmm_live (pmm_free_page a p) = pmm_live p - {a}"
proof -
  obtain i where i: "i < 32768" "a = page_addr i" using assms(2) by (auto simp: frames_eq)
  have free: "pmm_free_page a p = mark_page_free (of_nat i) p"
    using assms(2) i by (auto simp: pmm_free_page_def pmm_frames_def page_index_page_addr)
  have n: "unat (of_nat i :: u64) = i" using i by (simp add: unat_of_nat take_bit_nat_eq_self)
  have len: "length (page_bitmap p) = 4096" using assms by (simp add: pmm_inv_def)
  show "pmm_inv (pmm_free_page a p)"
    unfolding free using assms i n by (simp add: mark_page_free_inv)
  have "used_set (pmm_free_page a p) = used_set p - {i}"
    unfolding free using used_set_mark_free [OF len, of "of_nat i"] n i by simp
  moreover have "page_addr ` (used_set p - {i}) = page_addr ` used_set p - {page_addr i}"
    using used_set_bound [of p] i by (auto simp: page_addr_inject)
  ultimately show "pmm_live (pmm_free_page a p) = pmm_live p - {a}"
    by (simp add: pmm_live_def i)
qed

section \<open>The interface the heap relies on\<close>

locale page_allocator =
  fixes alloc :: "'s \<Rightarrow> u64 \<times> 's"
    and release :: "u64 \<Rightarrow> 's \<Rightarrow> 's"
    and live :: "'s \<Rightarrow> u64 set"
    and frames :: "u64 set"
    and inv :: "'s \<Rightarrow> bool"
  assumes alloc_some: "inv s \<Longrightarrow> alloc s = (a, s') \<Longrightarrow> a \<noteq> 0 \<Longrightarrow>
        a \<in> frames \<and> a \<notin> live s \<and> live s' = insert a (live s) \<and> inv s'"
    and alloc_none: "inv s \<Longrightarrow> alloc s = (0, s') \<Longrightarrow> s' = s \<and> frames \<subseteq> live s"
    and release_live: "inv s \<Longrightarrow> a \<in> frames \<Longrightarrow> live (release a s) = live s - {a}"
    and release_inv: "inv s \<Longrightarrow> a \<in> frames \<Longrightarrow> inv (release a s)"
    and null_no_frame: "0 \<notin> frames"
begin

lemma alloc_succeeds_iff:
  assumes "inv s"
  shows "fst (alloc s) \<noteq> 0 \<longleftrightarrow> \<not> frames \<subseteq> live s"
proof (cases "alloc s")
  case (Pair a s')
  with assms alloc_some [of s a s'] alloc_none [of s s'] show ?thesis
    by (cases "a = 0") auto
qed

lemma alloc_after_release:
  assumes "inv s" "a \<in> frames"
  shows "fst (alloc (release a s)) \<noteq> 0"
  using assms alloc_succeeds_iff [OF release_inv [OF assms]] by (auto simp: release_live)

lemma alloc_release_live:
  assumes "inv s" "alloc s = (a, s')" "a \<noteq> 0"
  shows "live (release a s') = live s"
  using alloc_some [OF assms] release_live [of s' a] by auto

lemma consecutive_allocs_distinct:
  assumes "inv s" "alloc s = (a, s')" "alloc s' = (b, s'')" "a \<noteq> 0" "b \<noteq> 0"
  shows "a \<noteq> b"
  using alloc_some [OF assms(1,2,4)] alloc_some [of s' b s''] assms by auto

end

interpretation pmm_pages: page_allocator pmm_alloc_page pmm_free_page pmm_live pmm_frames pmm_inv
proof unfold_locales
  fix s a s'
  assume "pmm_inv s" "pmm_alloc_page s = (a, s')" "a \<noteq> 0"
  then show "a \<in> pmm_frames \<and> a \<notin> pmm_live s \<and> pmm_live s' = insert a (pmm_live s) \<and> pmm_inv s'"
  proof (cases rule: pmm_alloc_cases)
    case full
    with \<open>a \<noteq> 0\<close> show ?thesis by simp
  next
    case (page i)
    then have "page_addr i \<notin> page_addr ` used_set s"
      using used_set_bound [of s] page_addr_inject [of i] by (auto simp: subset_iff)
    with page show ?thesis by (simp add: pmm_live_def frames_eq)
  qed
next
  fix s s'
  assume "pmm_inv s" "pmm_alloc_page s = (0, s')"
  then show "s' = s \<and> pmm_frames \<subseteq> pmm_live s"
  proof (cases rule: pmm_alloc_cases)
    case full
    then show ?thesis by (simp only: pmm_live_def frames_eq) simp
  next
    case (page i)
    then show ?thesis using page_addr_nonzero [of i] by simp
  qed
qed (auto simp: pmm_free_frame, simp add: pmm_frames_def)

section \<open>Runs of the allocator\<close>

text \<open>
  The states a boot can reach when clients release only pages they were given: the second
  component of the relation is the set of pages handed out and not yet returned.
\<close>

inductive pmm_run :: "u64 \<Rightarrow> pmm \<Rightarrow> u64 set \<Rightarrow> bool" for kernel_end where
  boot: "pmm_run kernel_end (pmm_init kernel_end) {}"
| alloc: "pmm_run kernel_end p held \<Longrightarrow> pmm_alloc_page p = (a, p') \<Longrightarrow> a \<noteq> 0 \<Longrightarrow>
     pmm_run kernel_end p' (insert a held)"
| release: "pmm_run kernel_end p held \<Longrightarrow> a \<in> held \<Longrightarrow>
     pmm_run kernel_end (pmm_free_page a p) (held - {a})"

definition reserved_pages :: "u64 \<Rightarrow> u64 set" where
  "reserved_pages kernel_end = page_addr ` (pages_overlapping 0x40000000 (unat kernel_end)
      \<union> pages_overlapping 0x46ffe000 0x47200000)"

lemma pmm_init_spec:
  assumes "PMM_RAM_BASE \<le> kernel_end"
  shows "pmm_inv (pmm_init kernel_end)" and "pmm_live (pmm_init kernel_end) = reserved_pages kernel_end"
proof -
  define p0 where "p0 = \<lparr>page_bitmap = replicate 4096 0, used_pages = 0\<rparr>"
  have "used_set p0 = {}" by (auto simp: used_set_def p0_def)
  then have inv0: "pmm_inv p0" by (simp add: pmm_inv_def) (simp add: p0_def)
  note r1 = reserve_range_spec [OF inv0 assms]
  note r2 = reserve_range_spec [OF conjunct1 [OF r1], of RAMFB_RESERVED_BASE RAMFB_RESERVED_END]
  have init: "pmm_init kernel_end = reserve_range RAMFB_RESERVED_BASE RAMFB_RESERVED_END
      (reserve_range PMM_RAM_BASE kernel_end p0)"
    by (simp add: pmm_init_def p0_def)
  show "pmm_inv (pmm_init kernel_end)" using r2 by (simp add: init)
  show "pmm_live (pmm_init kernel_end) = reserved_pages kernel_end"
    using r1 r2 \<open>used_set p0 = {}\<close> by (simp add: init pmm_live_def reserved_pages_def)
qed

lemma pmm_run_inv:
  assumes "pmm_run kernel_end p held" "PMM_RAM_BASE \<le> kernel_end"
  shows "pmm_inv p \<and> held \<subseteq> pmm_frames \<and> held \<inter> reserved_pages kernel_end = {}
    \<and> pmm_live p = reserved_pages kernel_end \<union> held"
  using assms
proof (induction rule: pmm_run.induct)
  case boot
  then show ?case by (simp add: pmm_init_spec)
next
  case (alloc p held a p')
  then show ?case using pmm_pages.alloc_some [of p a p'] by auto
next
  case (release p held a)
  then show ?case using pmm_free_frame [of p a] by auto
qed

section \<open>Properties\<close>

lemma mark_free_mark_used:
  assumes "pmm_inv p" "unat index < 32768" "unat index \<notin> used_set p"
  shows "mark_page_free index (mark_page_used index p) = p"
proof -
  let ?b = "unat index div 8" and ?k = "unat index mod 8"
  have len: "?b < length (page_bitmap p)" using assms by (simp add: pmm_inv_def)
  have "\<not> bit (page_bitmap p ! ?b) ?k" using assms by (simp add: used_set_def)
  then have "(page_bitmap p ! ?b OR 2 ^ ?k) AND NOT (2 ^ ?k) = page_bitmap p ! ?b"
    by (intro bit_word_eqI) (auto simp: bit_simps)
  with assms len show ?thesis
    by (simp add: mark_page_free_def mark_page_used_def page_is_used_bit used_set_def bit_or_iff
        unat_div unat_mod)
qed

lemma pmm_init_not_full:
  assumes "PMM_RAM_BASE \<le> kernel_end" "unat kernel_end < 0x46000000"
  shows "fst (pmm_alloc_page (pmm_init kernel_end)) \<noteq> 0"
proof -
  have "page_addr 24576 \<in> pmm_frames - reserved_pages kernel_end"
    using assms by (auto simp: frames_eq reserved_pages_def pages_overlapping_def page_addr_inject)
  then show ?thesis
    using pmm_pages.alloc_succeeds_iff [OF pmm_init_spec(1) [OF assms(1)]] assms
    by (auto simp: pmm_init_spec)
qed

text \<open>
  Allocation returns the lowest free page of RAM and marks exactly that page as used; it
  returns null, changing nothing, only when all 32768 pages are used; the counter stays exact.
\<close>

theorem pmm_alloc_page_lowest_free:
  assumes "pmm_inv p"
  shows "case pmm_alloc_page p of (a, p') \<Rightarrow>
    pmm_inv p' \<and>
    (if used_set p = {..<32768} then a = 0 \<and> p' = p
     else (\<exists>i. i < 32768 \<and> i \<notin> used_set p \<and> {..<i} \<subseteq> used_set p \<and>
            unat a = 0x40000000 + i * 4096 \<and> used_set p' = insert i (used_set p) \<and>
            used_pages p' = used_pages p + 1))"
proof (cases "pmm_alloc_page p")
  case (Pair a p')
  from assms Pair show ?thesis
  proof (cases rule: pmm_alloc_cases)
    case full
    with assms Pair show ?thesis by simp
  next
    case (page i)
    then have "used_pages p' = used_pages p + 1"
      using assms by (simp add: pmm_inv_def)
    moreover have "used_set p \<noteq> {..<32768}" using page by blast
    ultimately show ?thesis using page Pair by (auto simp: unat_page_addr)
  qed
qed

theorem pmm_alloc_page_lowest_free_witness:
  "pmm_inv (pmm_init 0x40100000) \<and>
   (case pmm_alloc_page (pmm_init 0x40100000) of (a, p') \<Rightarrow> pmm_inv p' \<and> a \<noteq> 0)"
proof -
  have "pmm_inv (pmm_init 0x40100000)" by (rule pmm_init_spec) simp
  with pmm_alloc_page_lowest_free [OF this] pmm_init_not_full [of "0x40100000"] show ?thesis
    by (auto split: prod.splits)
qed

text \<open>
  C30: from boot on, as long as clients return only pages they were given, a page that is handed
  out never meets the kernel image, the framebuffer region or a page another client holds.
\<close>

theorem pmm_alloc_page_exclusive:
  assumes "pmm_run kernel_end p held" "PMM_RAM_BASE \<le> kernel_end"
    and "pmm_alloc_page p = (a, p')" "a \<noteq> 0"
    and "unat a \<le> x" "x < unat a + 4096"
  shows "\<not> (0x40000000 \<le> x \<and> x < unat kernel_end) \<and>
    \<not> (0x46ffe000 \<le> x \<and> x < 0x47200000) \<and>
    a \<notin> held \<and> (\<forall>b\<in>held. \<not> (unat b \<le> x \<and> x < unat b + 4096))"
proof -
  note inv = pmm_run_inv [OF assms(1,2)]
  with assms pmm_pages.alloc_some [of p a p']
  have a: "a \<in> pmm_frames" "a \<notin> reserved_pages kernel_end" "a \<notin> held" by auto
  then obtain i where i: "i < 32768" "a = page_addr i" by (auto simp: frames_eq)
  then have "i \<notin> pages_overlapping 0x40000000 (unat kernel_end)"
      "i \<notin> pages_overlapping 0x46ffe000 0x47200000"
    using a by (auto simp: reserved_pages_def)
  then have "\<not> (0x40000000 \<le> x \<and> x < unat kernel_end)" "\<not> (0x46ffe000 \<le> x \<and> x < 0x47200000)"
    using i assms(5,6) by (auto simp: pages_overlapping_def unat_page_addr)
  moreover have "\<not> (unat b \<le> x \<and> x < unat b + 4096)" if b: "b \<in> held" for b
  proof -
    obtain j where j: "j < 32768" "b = page_addr j" using inv b by (auto simp: frames_eq)
    with a b i have "i \<noteq> j" by auto
    then show ?thesis using i j assms(5,6) by (auto simp: unat_page_addr)
  qed
  ultimately show ?thesis using a by blast
qed

theorem pmm_alloc_page_exclusive_witness:
  "\<exists>a p'. pmm_alloc_page (pmm_init 0x40100000) = (a, p') \<and> a \<noteq> 0 \<and>
     \<not> (0x40000000 \<le> unat a \<and> unat a < unat (0x40100000 :: u64))"
proof -
  obtain a p' where ap: "pmm_alloc_page (pmm_init 0x40100000) = (a, p')" by fastforce
  then have "a \<noteq> 0" using pmm_init_not_full [of "0x40100000"] by simp
  with ap pmm_alloc_page_exclusive [OF pmm_run.boot _ ap, of "unat a"] show ?thesis by simp
qed

text \<open>
  Releasing the page just allocated restores the allocator exactly, bitmap and counter.
\<close>

theorem pmm_free_alloc_roundtrip:
  assumes "pmm_inv p" "pmm_alloc_page p = (a, p')" "a \<noteq> 0"
  shows "pmm_free_page a p' = p"
  using assms(1,2)
proof (cases rule: pmm_alloc_cases)
  case full
  with assms show ?thesis by simp
next
  case (page i)
  then have n: "unat (of_nat i :: u64) = i" by (simp add: unat_of_nat take_bit_nat_eq_self)
  have "a \<in> pmm_frames" using page by (simp add: frames_eq)
  then have "pmm_free_page a p' = mark_page_free (of_nat i) p'"
    using page by (auto simp: pmm_free_page_def pmm_frames_def page_index_page_addr)
  with page n assms show ?thesis by (simp add: mark_free_mark_used)
qed

theorem pmm_free_alloc_roundtrip_witness:
  "\<exists>a p'. pmm_alloc_page (pmm_init 0x40100000) = (a, p') \<and> a \<noteq> 0 \<and>
     pmm_free_page a p' = pmm_init 0x40100000"
proof -
  obtain a p' where ap: "pmm_alloc_page (pmm_init 0x40100000) = (a, p')" by fastforce
  then have "a \<noteq> 0" using pmm_init_not_full [of "0x40100000"] by simp
  moreover have "pmm_inv (pmm_init 0x40100000)" by (rule pmm_init_spec) simp
  ultimately show ?thesis using ap pmm_free_alloc_roundtrip [of "pmm_init 0x40100000" a p'] by blast
qed

end
