(* ===== verification/Heap.thy ===== *)
theory Heap
  imports Pmm
begin

text \<open>
  The kernel heap, kernel/memory/heap.c: a singly linked list of block headers inside pages taken
  from the physical memory manager. Headers live in an explicit store from addresses to headers and
  the list is followed through its pointers, as the code does; loops over the list are partial
  functions whose value \<open>None\<close> is divergence, and every theorem about them shows that they return.
  The abstraction is the list of (address, size, free) triples; the lemmas show that each pointer
  operation refines an operation on that list.
\<close>

section \<open>State\<close>

abbreviation HEAP_ALIGN :: u64 where "HEAP_ALIGN \<equiv> 16"
abbreviation HEAP_MIN_SPLIT :: u64 where "HEAP_MIN_SPLIT \<equiv> 32"

text \<open>\<^verbatim>\<open>sizeof(struct heap_block)\<close> on the LP64 target: 8 + 4 + 4 of padding + 8.\<close>

abbreviation HEAP_HEADER :: u64 where "HEAP_HEADER \<equiv> 24"

record heap_block =
  hb_size :: u64
  hb_free :: bool
  hb_next :: u64

type_synonym header_store = "u64 \<Rightarrow> heap_block"

record heap =
  hmem :: header_store
  hdata :: "u64 \<Rightarrow> u8"
  heap_head :: u64
  heap_tail :: u64
  heap_pages :: u64
  heap_used :: u64
  heap_start :: u64
  heap_end :: u64

text \<open>The heap's static variables as the C runtime leaves them, zero.\<close>

definition heap_bss :: heap where
  "heap_bss = \<lparr>hmem = (\<lambda>_. \<lparr>hb_size = 0, hb_free = False, hb_next = 0\<rparr>), hdata = (\<lambda>_. 0),
     heap_head = 0, heap_tail = 0, heap_pages = 0, heap_used = 0, heap_start = 0, heap_end = 0\<rparr>"

section \<open>Operations\<close>

definition heap_align_up :: "u64 \<Rightarrow> u64" where
  "heap_align_up v = (v + HEAP_ALIGN - 1) AND NOT (HEAP_ALIGN - 1)"

definition heap_block_capacity :: u64 where
  "heap_block_capacity = PMM_PAGE_SIZE - HEAP_HEADER"

definition split_block :: "u64 \<Rightarrow> u64 \<Rightarrow> heap \<Rightarrow> heap" where
  "split_block block sz h =
     (let b = hmem h block in
      if hb_size b < sz + HEAP_HEADER + HEAP_MIN_SPLIT then h
      else
        let remaining = hb_size b - sz - HEAP_HEADER;
            next = block + HEAP_HEADER + sz;
            m = (hmem h)(next := \<lparr>hb_size = remaining, hb_free = True, hb_next = hb_next b\<rparr>);
            m = m(block := (m block)\<lparr>hb_size := sz, hb_next := next\<rparr>)
        in h\<lparr>hmem := m, heap_tail := (if heap_tail h = block then next else heap_tail h)\<rparr>)"

partial_function (option) coalesce_from ::
    "header_store \<Rightarrow> u64 \<Rightarrow> u64 \<Rightarrow> (header_store \<times> u64) option" where
  "coalesce_from m tail block =
     (if block = 0 \<or> hb_next (m block) = 0 then Some (m, tail)
      else if hb_free (m block) \<and> hb_free (m (hb_next (m block))) \<and>
              block + HEAP_HEADER + hb_size (m block) = hb_next (m block)
      then
        coalesce_from
          (m(block := (m block)\<lparr>
               hb_size := hb_size (m block) + (HEAP_HEADER + hb_size (m (hb_next (m block)))),
               hb_next := hb_next (m (hb_next (m block)))\<rparr>))
          (if hb_next (m (hb_next (m block))) = 0 then block else tail) block
      else coalesce_from m tail (hb_next (m block)))"

definition coalesce_blocks :: "heap \<Rightarrow> heap option" where
  "coalesce_blocks h =
     map_option (\<lambda>(m, tail). h\<lparr>hmem := m, heap_tail := tail\<rparr>)
       (coalesce_from (hmem h) (heap_tail h) (heap_head h))"

partial_function (option) find_free_block :: "header_store \<Rightarrow> u64 \<Rightarrow> u64 \<Rightarrow> u64 option" where
  "find_free_block m sz block =
     (if block = 0 then Some 0
      else if hb_free (m block) \<and> hb_size (m block) \<ge> sz then Some block
      else find_free_block m sz (hb_next (m block)))"

definition grow_heap :: "heap \<Rightarrow> pmm \<Rightarrow> u64 \<times> heap \<times> pmm" where
  "grow_heap h p =
     (case pmm_alloc_page p of (block, p') \<Rightarrow>
        if block = 0 then (0, h, p')
        else
          let m = (hmem h)(block := \<lparr>hb_size = heap_block_capacity, hb_free = True, hb_next = 0\<rparr>);
              h = (if heap_head h = 0
                   then h\<lparr>hmem := m, heap_head := block, heap_tail := block\<rparr>
                   else h\<lparr>hmem := m(heap_tail h := (m (heap_tail h))\<lparr>hb_next := block\<rparr>),
                          heap_tail := block\<rparr>);
              h = h\<lparr>heap_pages := heap_pages h + 1\<rparr>;
              h = (if heap_start h = 0 \<or> block < heap_start h then h\<lparr>heap_start := block\<rparr> else h);
              h = (if block + PMM_PAGE_SIZE > heap_end h
                   then h\<lparr>heap_end := block + PMM_PAGE_SIZE\<rparr> else h)
          in (block, h, p'))"

definition heap_init :: "heap \<Rightarrow> heap" where
  "heap_init h = h\<lparr>heap_head := 0, heap_tail := 0, heap_pages := 0, heap_used := 0,
                   heap_start := 0, heap_end := 0\<rparr>"

definition kmalloc :: "u64 \<Rightarrow> heap \<Rightarrow> pmm \<Rightarrow> (u64 \<times> heap \<times> pmm) option" where
  "kmalloc sz h p =
     (if sz = 0 then Some (0, h, p)
      else
        let sz = heap_align_up sz in
        if sz > heap_block_capacity then Some (0, h, p)
        else
          (case find_free_block (hmem h) sz (heap_head h) of
             None \<Rightarrow> None
           | Some found \<Rightarrow>
               (case (if found = 0 then grow_heap h p else (found, h, p)) of
                  (block, h, p) \<Rightarrow>
                    if block = 0 then Some (0, h, p)
                    else
                      let h = split_block block sz h;
                          h = h\<lparr>hmem := (hmem h)(block := (hmem h block)\<lparr>hb_free := False\<rparr>)\<rparr>;
                          h = h\<lparr>heap_used := heap_used h + hb_size (hmem h block)\<rparr>
                      in Some (block + HEAP_HEADER, h, p))))"

definition kzalloc :: "u64 \<Rightarrow> heap \<Rightarrow> pmm \<Rightarrow> (u64 \<times> heap \<times> pmm) option" where
  "kzalloc sz h p =
     (case kmalloc sz h p of
        None \<Rightarrow> None
      | Some (ptr, h, p) \<Rightarrow>
          if ptr = 0 then Some (0, h, p)
          else Some (ptr, h\<lparr>hdata := (\<lambda>a. if a - ptr < sz then 0 else hdata h a)\<rparr>, p))"

definition kfree :: "u64 \<Rightarrow> heap \<Rightarrow> heap option" where
  "kfree ptr h =
     (if ptr = 0 then Some h
      else
        let block = ptr - HEAP_HEADER in
        if hb_free (hmem h block) then Some h
        else
          coalesce_blocks
            (h\<lparr>hmem := (hmem h)(block := (hmem h block)\<lparr>hb_free := True\<rparr>),
               heap_used := heap_used h - hb_size (hmem h block)\<rparr>))"

definition heap_total_bytes :: "heap \<Rightarrow> u64" where
  "heap_total_bytes h = heap_pages h * heap_block_capacity"

definition heap_used_bytes :: "heap \<Rightarrow> u64" where
  "heap_used_bytes h = heap_used h"

partial_function (option) heap_free_from :: "header_store \<Rightarrow> u64 \<Rightarrow> u64 \<Rightarrow> u64 option" where
  "heap_free_from m acc block =
     (if block = 0 then Some acc
      else heap_free_from m (if hb_free (m block) then acc + hb_size (m block) else acc)
             (hb_next (m block)))"

definition heap_free_bytes :: "heap \<Rightarrow> u64 option" where
  "heap_free_bytes h = heap_free_from (hmem h) 0 (heap_head h)"

definition heap_overhead_bytes :: "heap \<Rightarrow> u64 option" where
  "heap_overhead_bytes h =
     (case heap_free_bytes h of
        None \<Rightarrow> None
      | Some free \<Rightarrow>
          let total = heap_total_bytes h; used = heap_used_bytes h in
          Some (if total < used + free then 0 else total - used - free))"

section \<open>The block list\<close>

type_synonym block = "u64 \<times> u64 \<times> bool"

fun lseg :: "header_store \<Rightarrow> u64 \<Rightarrow> u64 list \<Rightarrow> u64 \<Rightarrow> bool" where
  "lseg m p [] q \<longleftrightarrow> p = q"
| "lseg m p (a # as) q \<longleftrightarrow> p = a \<and> a \<noteq> 0 \<and> lseg m (hb_next (m a)) as q"

definition blk :: "header_store \<Rightarrow> u64 \<Rightarrow> block" where
  "blk m a = (a, hb_size (m a), hb_free (m a))"

definition list_of :: "header_store \<Rightarrow> u64 \<Rightarrow> block list \<Rightarrow> u64 \<Rightarrow> bool" where
  "list_of m p bs q \<longleftrightarrow> lseg m p (map fst bs) q \<and> map (blk m) (map fst bs) = bs"

fun span :: "block \<Rightarrow> nat set" where
  "span (a, s, f) = {unat a ..< unat a + 24 + unat s}"

lemma lseg_append: "lseg m p (as @ bs) q \<longleftrightarrow> (\<exists>r. lseg m p as r \<and> lseg m r bs q)"
  by (induction as arbitrary: p) auto

lemma lseg_cong:
  "(\<And>a. a \<in> set as \<Longrightarrow> hb_next (m a) = hb_next (m' a)) \<Longrightarrow> lseg m p as q = lseg m' p as q"
  by (induction as arbitrary: p) auto

lemma list_of_Nil [simp]: "list_of m p [] q \<longleftrightarrow> p = q"
  by (simp add: list_of_def)

lemma list_of_Cons [simp]:
  "list_of m p ((a, s, f) # bs) q \<longleftrightarrow>
     p = a \<and> a \<noteq> 0 \<and> hb_size (m a) = s \<and> hb_free (m a) = f \<and> list_of m (hb_next (m a)) bs q"
  by (auto simp: list_of_def blk_def)

lemma list_of_append:
  "list_of m p (as @ bs) q \<longleftrightarrow> (\<exists>r. list_of m p as r \<and> list_of m r bs q)"
  by (auto simp: list_of_def lseg_append append_eq_append_conv)

lemma list_of_cong:
  assumes "\<And>a. a \<in> fst ` set bs \<Longrightarrow> m a = m' a"
  shows "list_of m p bs q = list_of m' p bs q"
proof -
  have "map (blk m) (map fst bs) = map (blk m') (map fst bs)" using assms by (auto simp: blk_def)
  moreover have "lseg m p (map fst bs) q = lseg m' p (map fst bs) q"
    by (rule lseg_cong) (use assms in auto)
  ultimately show ?thesis unfolding list_of_def by (simp only:)
qed

lemma list_of_upd_other:
  "a \<notin> fst ` set bs \<Longrightarrow> list_of (m(a := b)) p bs q = list_of m p bs q"
  by (rule list_of_cong) auto

lemma list_of_last_upd:
  assumes "list_of m p (bs @ [(a, s, f)]) q" "a \<notin> fst ` set bs"
  shows "list_of (m(a := (m a)\<lparr>hb_next := r\<rparr>)) p (bs @ [(a, s, f)]) r"
  using assms by (auto simp: list_of_append list_of_upd_other)

subsection \<open>Searching and summing\<close>

lemma find_free_block_returns:
  "list_of m p bs 0 \<Longrightarrow>
     find_free_block m sz p =
       Some (case find (\<lambda>(a, s, f). f \<and> sz \<le> s) bs of Some b \<Rightarrow> fst b | None \<Rightarrow> 0)"
proof (induction bs arbitrary: p)
  case Nil
  then show ?case by (simp add: find_free_block.simps)
next
  case (Cons b bs)
  then show ?case by (cases b) (simp add: find_free_block.simps [of m sz p])
qed

lemma heap_free_from_returns:
  "list_of m p bs 0 \<Longrightarrow>
     heap_free_from m acc p = Some (acc + sum_list (map (\<lambda>(a, s, f). if f then s else 0) bs))"
proof (induction bs arbitrary: p acc)
  case Nil
  then show ?case by (simp add: heap_free_from.simps)
next
  case (Cons b bs)
  then show ?case by (cases b) (simp add: heap_free_from.simps [of m acc p] algebra_simps)
qed

subsection \<open>Coalescing\<close>

fun merge_adj :: "block list \<Rightarrow> block list" where
  "merge_adj [] = []"
| "merge_adj [b] = [b]"
| "merge_adj ((a, s, f) # (a', s', f') # bs) =
     (if f \<and> f' \<and> a + HEAP_HEADER + s = a'
      then merge_adj ((a, s + (HEAP_HEADER + s'), f) # bs)
      else (a, s, f) # merge_adj ((a', s', f') # bs))"

lemma fst_merge_adj: "fst ` set (merge_adj bs) \<subseteq> fst ` set bs"
  by (induction bs rule: merge_adj.induct) auto

lemma merge_adj_Nil [simp]: "merge_adj bs = [] \<longleftrightarrow> bs = []"
  by (induction bs rule: merge_adj.induct) auto

lemma coalesce_from_returns:
  assumes "list_of m p bs 0" "distinct (map fst bs)" "bs \<noteq> [] \<Longrightarrow> tail = fst (last bs)"
  shows "\<exists>m' tail'. coalesce_from m tail p = Some (m', tail') \<and> list_of m' p (merge_adj bs) 0
    \<and> tail' = (if bs = [] then tail else fst (last (merge_adj bs)))
    \<and> (\<forall>a. a \<notin> fst ` set bs \<longrightarrow> m' a = m a)"
  using assms
proof (induction bs arbitrary: m p tail rule: merge_adj.induct)
  case 1
  then show ?case by (simp add: coalesce_from.simps)
next
  case (2 b)
  then show ?case by (cases b) (simp add: coalesce_from.simps)
next
  case (3 a s f a' s' f' bs)
  have pa: "p = a" "a \<noteq> 0" "a' \<noteq> 0" "hb_next (m a) = a'" "a \<noteq> a'" using "3.prems" by auto
  show ?case
  proof (cases "f \<and> f' \<and> a + HEAP_HEADER + s = a'")
    case True
    let ?m = "m(a := (m a)\<lparr>hb_size := s + (HEAP_HEADER + s'), hb_next := hb_next (m a')\<rparr>)"
    let ?tail = "if hb_next (m a') = 0 then a else tail"
    have l: "list_of ?m a ((a, s + (HEAP_HEADER + s'), f) # bs) 0"
      using "3.prems" by (auto simp: list_of_upd_other)
    have t: "?tail = fst (last ((a, s + (HEAP_HEADER + s'), f) # bs))"
      using "3.prems" by (cases bs) auto
    have step: "coalesce_from m tail p = coalesce_from ?m ?tail a"
      using True pa "3.prems" by (subst coalesce_from.simps) auto
    have d: "distinct (map fst ((a, s + (HEAP_HEADER + s'), f) # bs))" using "3.prems" by simp
    have "\<exists>m' tail'. coalesce_from ?m ?tail a = Some (m', tail')
        \<and> list_of m' a (merge_adj ((a, s + (HEAP_HEADER + s'), f) # bs)) 0
        \<and> tail' = fst (last (merge_adj ((a, s + (HEAP_HEADER + s'), f) # bs)))
        \<and> (\<forall>x. x \<notin> fst ` set ((a, s + (HEAP_HEADER + s'), f) # bs) \<longrightarrow> m' x = ?m x)"
      using "3.IH"(1) [OF True l d t] by (simp only: list.distinct if_False)
    then obtain m' tail' where
      m': "coalesce_from ?m ?tail a = Some (m', tail')"
        "list_of m' a (merge_adj ((a, s + (HEAP_HEADER + s'), f) # bs)) 0"
        "tail' = fst (last (merge_adj ((a, s + (HEAP_HEADER + s'), f) # bs)))"
        "\<forall>x. x \<notin> fst ` set ((a, s + (HEAP_HEADER + s'), f) # bs) \<longrightarrow> m' x = ?m x"
      by blast
    have merge: "merge_adj ((a, s, f) # (a', s', f') # bs) = merge_adj ((a, s + (HEAP_HEADER + s'), f) # bs)"
      using True by simp
    have "\<forall>x. x \<notin> fst ` set ((a, s, f) # (a', s', f') # bs) \<longrightarrow> m' x = m x"
      using m'(4) by simp
    with m'(1-3) pa show ?thesis unfolding step merge by simp
  next
    case False
    have step: "coalesce_from m tail p = coalesce_from m tail a'"
      using False pa "3.prems" by (subst coalesce_from.simps) auto
    have "list_of m a' ((a', s', f') # bs) 0" "distinct (map fst ((a', s', f') # bs))"
        "tail = fst (last ((a', s', f') # bs))"
      using "3.prems" by auto
    from "3.IH"(2) [OF False this] obtain m' tail' where
      m': "coalesce_from m tail a' = Some (m', tail')" "list_of m' a' (merge_adj ((a', s', f') # bs)) 0"
        "tail' = fst (last (merge_adj ((a', s', f') # bs)))"
        "\<forall>x. x \<notin> fst ` set ((a', s', f') # bs) \<longrightarrow> m' x = m x"
      by auto
    have "m' a = m a" using m'(4) "3.prems" by auto
    with m' pa "3.prems" False show ?thesis
      unfolding step by auto
  qed
qed


section \<open>Well-formed heaps\<close>

text \<open>
  The blocks of the list tile the pages the heap owns: no two blocks overlap and together they cover
  the pages exactly. The pages are frames the physical memory manager has handed out.
\<close>

definition page_bytes :: "u64 \<Rightarrow> nat set" where
  "page_bytes a = {unat a ..< unat a + 4096}"

definition tiled :: "block list \<Rightarrow> u64 set \<Rightarrow> bool" where
  "tiled bs P \<longleftrightarrow> sorted_wrt (\<lambda>b c. span b \<inter> span c = {}) bs \<and>
     \<Union> (span ` set bs) = \<Union> (page_bytes ` P)"

definition used_sum :: "block list \<Rightarrow> u64" where
  "used_sum bs = sum_list (map (\<lambda>(a, s, f). if f then 0 else s) bs)"

definition free_sum :: "block list \<Rightarrow> u64" where
  "free_sum bs = sum_list (map (\<lambda>(a, s, f). if f then s else 0) bs)"

definition heap_repr :: "heap \<Rightarrow> block list \<Rightarrow> u64 set \<Rightarrow> bool" where
  "heap_repr h bs P \<longleftrightarrow> list_of (hmem h) (heap_head h) bs 0 \<and>
     (bs \<noteq> [] \<longrightarrow> heap_tail h = fst (last bs)) \<and>
     tiled bs P \<and> P \<subseteq> pmm_frames \<and>
     heap_pages h = of_nat (card P) \<and> heap_used h = used_sum bs \<and>
     (\<forall>a\<in>P. heap_start h \<noteq> 0 \<and> heap_start h \<le> a \<and> unat a + 4096 \<le> unat (heap_end h))"

definition live_blocks :: "block list \<Rightarrow> (u64 \<times> u64) set" where
  "live_blocks bs = {(a, s). (a, s, False) \<in> set bs}"

definition heap_inv :: "heap \<Rightarrow> pmm \<Rightarrow> bool" where
  "heap_inv h p \<longleftrightarrow> pmm_inv p \<and> (\<exists>bs P. heap_repr h bs P \<and> P \<subseteq> pmm_live p)"

lemma used_sum_simps [simp]:
  "used_sum [] = 0" "used_sum ((a, s, f) # bs) = (if f then 0 else s) + used_sum bs"
  "used_sum (as @ bs) = used_sum as + used_sum bs"
  by (simp_all add: used_sum_def)

lemma free_sum_simps [simp]:
  "free_sum [] = 0" "free_sum ((a, s, f) # bs) = (if f then s else 0) + free_sum bs"
  "free_sum (as @ bs) = free_sum as + free_sum bs"
  by (simp_all add: free_sum_def)

lemma live_blocks_simps [simp]:
  "live_blocks [] = {}"
  "live_blocks ((a, s, f) # bs) = (if f then {} else {(a, s)}) \<union> live_blocks bs"
  "live_blocks (as @ bs) = live_blocks as \<union> live_blocks bs"
  by (auto simp: live_blocks_def)

lemma span_nonempty [simp]: "span b \<noteq> {}" "unat (fst b) \<in> span b"
  by (cases b; simp)+

lemma frame_bytes_bound: "P \<subseteq> pmm_frames \<Longrightarrow> \<Union> (page_bytes ` P) \<subseteq> {0x40000000 ..< 0x48000000}"
  using unat_page_addr by (fastforce simp: frames_eq page_bytes_def)

lemma page_bytes_frame: "i < 32768 \<Longrightarrow> page_bytes (page_addr i) = {0x40000000 + i * 4096 ..< 0x40000000 + Suc i * 4096}"
  by (simp add: page_bytes_def unat_page_addr)

lemma page_bytes_disjoint:
  assumes "a \<in> pmm_frames" "b \<in> pmm_frames" "a \<noteq> b"
  shows "page_bytes a \<inter> page_bytes b = {}"
proof -
  obtain i j where ij: "i < 32768" "j < 32768" "a = page_addr i" "b = page_addr j" "i \<noteq> j"
    using assms by (auto simp: frames_eq)
  have "Suc i \<le> j \<or> Suc j \<le> i" using \<open>i \<noteq> j\<close> by linarith
  then have "Suc i * 4096 \<le> j * 4096 \<or> Suc j * 4096 \<le> i * 4096" by (metis mult_le_mono1)
  with ij show ?thesis by (auto simp: page_bytes_frame simp del: mult_Suc)
qed

lemma tiled_bound:
  assumes "tiled bs P" "P \<subseteq> pmm_frames" "(a, s, f) \<in> set bs"
  shows "0x40000000 \<le> unat a" "unat a + 24 + unat s \<le> 0x48000000"
proof -
  have "span (a, s, f) \<subseteq> {0x40000000 ..< 0x48000000}"
    using assms frame_bytes_bound [of P] unfolding tiled_def by blast
  then show "0x40000000 \<le> unat a" "unat a + 24 + unat s \<le> 0x48000000"
    by (auto simp: atLeastLessThan_subset_iff)
qed

lemma tiled_distinct: "tiled bs P \<Longrightarrow> distinct (map fst bs)"
proof -
  have "sorted_wrt (\<lambda>b c. span b \<inter> span c = {}) bs \<Longrightarrow> distinct (map fst bs)"
  proof (induction bs)
    case (Cons b bs)
    have "fst b \<noteq> fst c" if "c \<in> set bs" for c
    proof -
      have "span b \<inter> span c = {}" using Cons.prems that by simp
      with span_nonempty(2) [of b] span_nonempty(2) [of c] show ?thesis by (metis IntI emptyE)
    qed
    with Cons show ?case by auto
  qed simp
  then show "tiled bs P \<Longrightarrow> distinct (map fst bs)" by (simp add: tiled_def)
qed

lemma tiled_append:
  "tiled (xs @ cs @ ys) P \<longleftrightarrow>
     sorted_wrt (\<lambda>b c. span b \<inter> span c = {}) xs \<and> sorted_wrt (\<lambda>b c. span b \<inter> span c = {}) cs \<and>
     sorted_wrt (\<lambda>b c. span b \<inter> span c = {}) ys \<and>
     \<Union> (span ` set xs) \<inter> \<Union> (span ` set cs) = {} \<and> \<Union> (span ` set xs) \<inter> \<Union> (span ` set ys) = {} \<and>
     \<Union> (span ` set cs) \<inter> \<Union> (span ` set ys) = {} \<and>
     \<Union> (span ` set xs) \<union> \<Union> (span ` set cs) \<union> \<Union> (span ` set ys) = \<Union> (page_bytes ` P)"
proof -
  have pairwise: "(\<forall>x\<in>A. \<forall>y\<in>B. span x \<inter> span y = {}) \<longleftrightarrow> \<Union> (span ` A) \<inter> \<Union> (span ` B) = {}" for A B
    by blast
  show ?thesis
    unfolding tiled_def sorted_wrt_append set_append pairwise image_Un Union_Un_distrib
    by (simp only: Int_Un_distrib Un_empty Un_assoc conj_assoc conj_commute conj_left_commute)
qed

lemma tiled_replace:
  assumes "tiled (xs @ cs @ ys) P" "sorted_wrt (\<lambda>b c. span b \<inter> span c = {}) cs'"
    and "\<Union> (span ` set cs') = \<Union> (span ` set cs)"
  shows "tiled (xs @ cs' @ ys) P"
  using assms by (simp only: tiled_append)

lemma tiled_snoc_page:
  assumes "tiled bs P" "P \<subseteq> pmm_frames" "a \<in> pmm_frames" "a \<notin> P"
  shows "tiled (bs @ [(a, 4072, f)]) (insert a P)"
proof -
  have page: "span (a, 4072, f) = page_bytes a" by (simp add: page_bytes_def) (simp add: add.commute)
  have "page_bytes b \<inter> page_bytes a = {}" if "b \<in> P" for b
    using page_bytes_disjoint [of b a] assms that by blast
  then have "\<Union> (page_bytes ` P) \<inter> page_bytes a = {}" by blast
  then have "\<Union> (span ` set bs) \<inter> page_bytes a = {}" using assms(1) by (simp only: tiled_def)
  then have "\<forall>b\<in>set bs. span b \<inter> page_bytes a = {}" by blast
  with assms(1) page show ?thesis
    by (simp only: tiled_def sorted_wrt_append) (simp add: Un_commute del: span.simps)
qed

lemma span_merge:
  assumes "unat a + 24 + unat s \<le> 0x48000000" "unat a' + 24 + unat s' \<le> 0x48000000"
    and "a + HEAP_HEADER + s = a'"
  shows "unat a' = unat a + 24 + unat s" "unat (s + (HEAP_HEADER + s')) = unat s + 24 + unat s'"
    "span (a, s + (HEAP_HEADER + s'), f) = span (a, s, f) \<union> span (a', s', f)"
proof -
  have n: "unat (a + HEAP_HEADER) = unat a + 24" using assms by (subst unat_add_no_wrap) auto
  show a': "unat a' = unat a + 24 + unat s"
    unfolding assms(3) [symmetric] using assms n by (subst unat_add_no_wrap) auto
  have "unat (HEAP_HEADER + s') = 24 + unat s'" using assms by (subst unat_add_no_wrap) auto
  then show s: "unat (s + (HEAP_HEADER + s')) = unat s + 24 + unat s'"
    using assms a' by (subst unat_add_no_wrap) auto
  show "span (a, s + (HEAP_HEADER + s'), f) = span (a, s, f) \<union> span (a', s', f)"
    using a' s by (auto simp del: unat_add_no_wrap)
qed

lemma tiled_merge_adj:
  assumes "tiled (xs @ bs) P" "P \<subseteq> pmm_frames"
  shows "tiled (xs @ merge_adj bs) P"
  using assms
proof (induction bs arbitrary: xs rule: merge_adj.induct)
  case (3 a s f a' s' f' bs)
  show ?case
  proof (cases "f \<and> f' \<and> a + HEAP_HEADER + s = a'")
    case True
    note bound = tiled_bound [OF "3.prems", of a s f] tiled_bound [OF "3.prems", of a' s' f']
    have sp: "span (a, s + (HEAP_HEADER + s'), f) = span (a, s, f) \<union> span (a', s', f')"
      using span_merge(3) [of a s a' s' f] bound True by simp
    have "tiled (xs @ [(a, s, f), (a', s', f')] @ bs) P" using "3.prems" by simp
    then have "tiled (xs @ [(a, s + (HEAP_HEADER + s'), f)] @ bs) P"
      by (rule tiled_replace) (simp_all add: sp del: span.simps)
    then show ?thesis using "3.IH"(1) [OF True, of xs] True "3.prems" by simp
  next
    case False
    then show ?thesis using "3.IH"(2) [OF False, of "xs @ [(a, s, f)]"] "3.prems" by auto
  qed
qed simp_all

lemma used_sum_merge_adj [simp]: "used_sum (merge_adj bs) = used_sum bs"
  by (induction bs rule: merge_adj.induct) auto

lemma live_blocks_merge_adj [simp]: "live_blocks (merge_adj bs) = live_blocks bs"
  by (induction bs rule: merge_adj.induct) auto

definition mergeable :: "block \<Rightarrow> block \<Rightarrow> bool" where
  "mergeable b c \<longleftrightarrow> snd (snd b) \<and> snd (snd c) \<and> fst b + HEAP_HEADER + fst (snd b) = fst c"

lemma merge_adj_head:
  "bs \<noteq> [] \<Longrightarrow> fst (hd (merge_adj bs)) = fst (hd bs) \<and> snd (snd (hd (merge_adj bs))) = snd (snd (hd bs))"
  by (induction bs rule: merge_adj.induct) auto

lemma merge_adj_coalesced: "successively (\<lambda>b c. \<not> mergeable b c) (merge_adj bs)"
proof (induction bs rule: merge_adj.induct)
  case (3 a s f a' s' f' bs)
  show ?case
  proof (cases "f \<and> f' \<and> a + HEAP_HEADER + s = a'")
    case True
    then show ?thesis using "3.IH"(1) by simp
  next
    case False
    let ?r = "merge_adj ((a', s', f') # bs)"
    have "fst (hd ?r) = a' \<and> snd (snd (hd ?r)) = f'"
      using merge_adj_head [of "(a', s', f') # bs"] by simp
    with False have "\<not> mergeable (a, s, f) (hd ?r)" by (auto simp: mergeable_def)
    moreover have "merge_adj ((a, s, f) # (a', s', f') # bs) = (a, s, f) # ?r"
      using False by (simp only: merge_adj.simps if_False)
    ultimately show ?thesis using "3.IH"(2) [OF False] by (simp only: successively_Cons) blast
  qed
qed simp_all

section \<open>Carving a block\<close>

text \<open>What kmalloc does to the block it found or obtained: split it, take it, count it.\<close>

definition carve :: "u64 \<Rightarrow> u64 \<Rightarrow> heap \<Rightarrow> heap" where
  "carve block sz h =
     (let h = split_block block sz h;
          h = h\<lparr>hmem := (hmem h)(block := (hmem h block)\<lparr>hb_free := False\<rparr>)\<rparr>
      in h\<lparr>heap_used := heap_used h + hb_size (hmem h block)\<rparr>)"

lemma kmalloc_eq_carve:
  "kmalloc sz h p =
     (if sz = 0 then Some (0, h, p)
      else if heap_align_up sz > heap_block_capacity then Some (0, h, p)
      else (case find_free_block (hmem h) (heap_align_up sz) (heap_head h) of
         None \<Rightarrow> None
       | Some found \<Rightarrow>
           (case (if found = 0 then grow_heap h p else (found, h, p)) of
              (block, h, p) \<Rightarrow>
                if block = 0 then Some (0, h, p)
                else Some (block + HEAP_HEADER, carve block (heap_align_up sz) h, p))))"
  by (simp add: kmalloc_def carve_def Let_def split: option.splits prod.splits)

definition carved :: "u64 \<Rightarrow> u64 \<Rightarrow> u64 \<Rightarrow> block list" where
  "carved a s sz =
     (if unat s < unat sz + 56 then [(a, s, False)]
      else [(a, sz, False), (a + HEAP_HEADER + sz, s - sz - HEAP_HEADER, True)])"

lemma carved_simps [simp]:
  "carved a s sz \<noteq> []"
  "used_sum (carved a s sz) = (if unat s < unat sz + 56 then s else sz)"
  "live_blocks (carved a s sz) = {(a, if unat s < unat sz + 56 then s else sz)}"
  by (simp_all add: carved_def)

lemma carved_unat:
  assumes "unat a + 24 + unat s \<le> 0x48000000" "\<not> unat s < unat sz + 56"
  shows "unat (a + HEAP_HEADER + sz) = unat a + 24 + unat sz"
    "unat (s - sz - HEAP_HEADER) = unat s - unat sz - 24"
proof -
  have "unat (a + HEAP_HEADER) = unat a + 24" using assms by (subst unat_add_no_wrap) auto
  then show "unat (a + HEAP_HEADER + sz) = unat a + 24 + unat sz"
    using assms by (subst unat_add_no_wrap) auto
  have "unat (s - sz) = unat s - unat sz" using assms by (subst unat_diff_le) (auto simp: word_le_nat_alt)
  then show "unat (s - sz - HEAP_HEADER) = unat s - unat sz - 24"
    using assms by (subst unat_diff_le) (auto simp: word_le_nat_alt)
qed

lemma tiled_carved:
  assumes "tiled (xs @ (a, s, True) # ys) P" "P \<subseteq> pmm_frames"
  shows "tiled (xs @ carved a s sz @ ys) P"
proof -
  have b: "unat a + 24 + unat s \<le> 0x48000000" using tiled_bound(2) [OF assms, of a s True] by simp
  have t: "tiled (xs @ [(a, s, True)] @ ys) P" using assms by simp
  show ?thesis
  proof (cases "unat s < unat sz + 56")
    case True
    then show ?thesis by (intro tiled_replace [OF t]) (auto simp: carved_def)
  next
    case False
    note u = carved_unat [OF b False]
    have "span (a, s, True) = span (a, sz, False) \<union> span (a + HEAP_HEADER + sz, s - sz - HEAP_HEADER, True)"
      "span (a, sz, False) \<inter> span (a + HEAP_HEADER + sz, s - sz - HEAP_HEADER, True) = {}"
      using False by (auto simp: u)
    then show ?thesis using False by (intro tiled_replace [OF t]) (simp_all add: carved_def del: span.simps)
  qed
qed

lemma split_block_below:
  assumes "unat (sz :: u64) \<le> 4072"
  shows "s < 56 + sz \<longleftrightarrow> unat s < unat sz + 56"
proof -
  have "unat (56 + sz) = 56 + unat sz" using assms by (subst unat_add_no_wrap) auto
  then show ?thesis by (simp add: word_less_nat_alt add.commute)
qed

lemma list_of_carve:
  assumes "heap_repr h (xs @ (a, s, True) # ys) P" "unat sz \<le> 4072" "unat sz \<le> unat s"
  shows "list_of (hmem (carve a sz h)) (heap_head h) (xs @ carved a s sz @ ys) 0"
    and "heap_tail (carve a sz h) = fst (last (xs @ carved a s sz @ ys))"
proof -
  let ?next = "a + HEAP_HEADER + sz"
  have repr: "list_of (hmem h) (heap_head h) (xs @ (a, s, True) # ys) 0" "tiled (xs @ (a, s, True) # ys) P"
    "P \<subseteq> pmm_frames" "heap_tail h = fst (last (xs @ (a, s, True) # ys))"
    using assms(1) by (auto simp: heap_repr_def)
  have b: "0x40000000 \<le> unat a" "unat a + 24 + unat s \<le> 0x48000000"
    using tiled_bound [OF repr(2,3), of a s True] by auto
  have a: "a \<notin> fst ` set xs" "a \<notin> fst ` set ys" using tiled_distinct [OF repr(2)] by auto
  have tail: "heap_tail h = a \<longleftrightarrow> ys = []"
    using repr(4) a by (cases ys rule: rev_cases) auto
  have next_fresh: "?next \<notin> fst ` set xs" "?next \<notin> fst ` set ys" "?next \<noteq> a" "?next \<noteq> 0"
    if "\<not> unat s < unat sz + 56"
  proof -
    have "distinct (map fst (xs @ carved a s sz @ ys))"
      by (rule tiled_distinct) (rule tiled_carved [OF repr(2,3)])
    then show "?next \<notin> fst ` set xs" "?next \<notin> fst ` set ys" "?next \<noteq> a"
      using that by (auto simp: carved_def)
    show "?next \<noteq> 0" using carved_unat(1) [OF b(2) that] by (auto dest: arg_cong [where f = unat])
  qed
  have size_a: "hb_size (hmem h a) = s" using repr(1) by (auto simp: list_of_append)
  show "list_of (hmem (carve a sz h)) (heap_head h) (xs @ carved a s sz @ ys) 0"
    using repr(1) next_fresh a size_a
    by (auto simp: carve_def split_block_def Let_def split_block_below [OF assms(2)] carved_def
        list_of_append list_of_upd_other)
  show "heap_tail (carve a sz h) = fst (last (xs @ carved a s sz @ ys))"
    using repr(4) tail size_a
    by (auto simp: carve_def split_block_def Let_def split_block_below [OF assms(2)] carved_def)
qed

lemma carve_repr:
  assumes "heap_repr h (xs @ (a, s, True) # ys) P" "unat sz \<le> 4072" "unat sz \<le> unat s"
  shows "heap_repr (carve a sz h) (xs @ carved a s sz @ ys) P"
proof -
  have size_a: "hb_size (hmem h a) = s" using assms(1) by (auto simp: heap_repr_def list_of_append)
  have "heap_used (carve a sz h) = heap_used h + (if unat s < unat sz + 56 then s else sz)"
    "heap_head (carve a sz h) = heap_head h" "heap_pages (carve a sz h) = heap_pages h"
    "heap_start (carve a sz h) = heap_start h" "heap_end (carve a sz h) = heap_end h"
    using size_a by (simp_all add: carve_def split_block_def Let_def split_block_below [OF assms(2)])
  with assms list_of_carve [OF assms] tiled_carved [of xs a s ys P sz] show ?thesis
    unfolding heap_repr_def by simp
qed

section \<open>Growing the heap\<close>

lemma finite_pmm_frames [simp]: "finite pmm_frames"
  by (simp add: frames_eq)

lemma list_of_head_0: "list_of m p bs 0 \<Longrightarrow> p = 0 \<longleftrightarrow> bs = []"
  by (cases bs) auto

lemma grow_heap_sel:
  assumes "pmm_alloc_page p = (b, p')" "b \<noteq> 0" "grow_heap h p = (b', h', p'')"
  defines "m \<equiv> (hmem h)(b := \<lparr>hb_size = 4072, hb_free = True, hb_next = 0\<rparr>)"
  shows "b' = b" "p'' = p'" "heap_tail h' = b"
    "hmem h' = (if heap_head h = 0 then m else m(heap_tail h := (m (heap_tail h))\<lparr>hb_next := b\<rparr>))"
    "heap_head h' = (if heap_head h = 0 then b else heap_head h)"
    "heap_pages h' = heap_pages h + 1" "heap_used h' = heap_used h"
    "heap_start h' = (if heap_start h = 0 \<or> b < heap_start h then b else heap_start h)"
    "heap_end h' = (if b + 4096 > heap_end h then b + 4096 else heap_end h)"
  using assms(1-3) by (auto simp: grow_heap_def Let_def heap_block_capacity_def m_def)

lemma grow_heap_list:
  assumes "heap_repr h bs P" "b \<noteq> 0" "b \<notin> fst ` set bs"
    and "pmm_alloc_page p = (b, p')" "grow_heap h p = (b', h', p'')"
  shows "list_of (hmem h') (heap_head h') (bs @ [(b, 4072, True)]) 0 \<and> heap_tail h' = b"
proof (cases bs rule: rev_cases)
  case Nil
  with assms(1,2) grow_heap_sel [OF assms(4,2,5)] show ?thesis
    by (simp add: heap_repr_def)
next
  case (snoc cs c)
  obtain a s f where c: "c = (a, s, f)" by (cases c)
  let ?m = "(hmem h)(b := \<lparr>hb_size = 4072, hb_free = True, hb_next = 0\<rparr>)"
  have tail: "heap_tail h = a" and l: "list_of (hmem h) (heap_head h) bs 0" and t: "tiled bs P"
    using assms snoc c by (auto simp: heap_repr_def)
  have head: "heap_head h \<noteq> 0" using list_of_head_0 [OF l] snoc by simp
  have "list_of ?m (heap_head h) (cs @ [(a, s, f)]) 0"
    using l assms(3) snoc c by (simp add: list_of_upd_other)
  moreover have "a \<notin> fst ` set cs" using tiled_distinct [OF t] snoc c by auto
  ultimately have "list_of (?m(a := (?m a)\<lparr>hb_next := b\<rparr>)) (heap_head h) (cs @ [(a, s, f)]) b"
    by (rule list_of_last_upd)
  moreover have "a \<noteq> b" using assms(3) snoc c by auto
  ultimately show ?thesis
    using assms(2) snoc c head tail grow_heap_sel [OF assms(4,2,5)]
    by (auto simp: list_of_append)
qed

lemma grow_heap_cases:
  assumes repr: "heap_repr h bs P" and "P \<subseteq> pmm_live p" "pmm_inv p" and grow: "grow_heap h p = (b, h', p')"
  obtains (full) "b = 0" "h' = h" "p' = p" "pmm_frames \<subseteq> pmm_live p"
    | (page) "b \<noteq> 0" "heap_repr h' (bs @ [(b, 4072, True)]) (insert b P)" "insert b P \<subseteq> pmm_live p'" "pmm_inv p'"
proof (cases "fst (pmm_alloc_page p) = 0")
  case True
  then obtain p0 where alloc: "pmm_alloc_page p = (0, p0)" by (cases "pmm_alloc_page p") auto
  show ?thesis
    using pmm_pages.alloc_none [OF assms(3) alloc] alloc grow by (intro full) (auto simp: grow_heap_def)
next
  case False
  then obtain p0 where alloc: "pmm_alloc_page p = (b, p0)" and b: "b \<noteq> 0" and p': "p0 = p'"
    using grow by (cases "pmm_alloc_page p") (auto simp: grow_heap_def Let_def)
  note new = pmm_pages.alloc_some [OF assms(3) alloc b]
  have P: "P \<subseteq> pmm_frames" "tiled bs P" using repr by (auto simp: heap_repr_def)
  have bP: "b \<notin> P" using new assms(2) by blast
  then have t: "tiled (bs @ [(b, 4072, True)]) (insert b P)" using new tiled_snoc_page [OF P(2,1)] by simp
  have b_bs: "b \<notin> fst ` set bs" using tiled_distinct [OF t] by auto
  have card: "card (insert b P) = Suc (card P)" using bP finite_subset [OF P(1)] by simp
  obtain i where "i < 32768" "b = page_addr i" using new by (auto simp: frames_eq)
  then have "unat (b + 4096) = unat b + 4096"
    by (subst unat_add_no_wrap) (simp_all add: unat_page_addr)
  moreover note grow_heap_sel(6-9) [OF alloc b grow]
  moreover note grow_heap_list [OF repr b b_bs alloc grow]
  ultimately have "heap_repr h' (bs @ [(b, 4072, True)]) (insert b P)"
    using repr t new card b unfolding heap_repr_def
    by (auto simp: word_le_nat_alt word_less_nat_alt)
  with b new p' assms(2) show ?thesis by (intro page) auto
qed

section \<open>Allocation\<close>

lemma heap_align_up_nat:
  assumes "unat sz \<le> 2 ^ 64 - 16"
  shows "unat (heap_align_up sz) = (unat sz + 15) div 16 * 16"
proof -
  have "unat (sz + 15) = unat sz + 15" using assms by (subst unat_add_no_wrap) auto
  then show ?thesis
    using unat_and_not_mask [of "sz + 15" 4]
    by (simp add: heap_align_up_def mask_eq_exp_minus_1 add.commute)
qed

lemma kmalloc_cases:
  assumes repr: "heap_repr h bs P" and P: "P \<subseteq> pmm_live p" "pmm_inv p" and "sz \<noteq> 0"
  obtains (fail) "kmalloc sz h p = Some (0, h, p)"
      "unat (heap_align_up sz) > 4072 \<or>
       (pmm_frames \<subseteq> pmm_live p \<and> (\<forall>(a, s, f)\<in>set bs. f \<longrightarrow> unat s < unat (heap_align_up sz)))"
    | (carve) xs a s ys h0 P' p' where
        "kmalloc sz h p = Some (a + HEAP_HEADER, carve a (heap_align_up sz) h0, p')"
        "heap_repr h0 (xs @ (a, s, True) # ys) P'" "P' \<subseteq> pmm_live p'" "pmm_inv p'"
        "unat (heap_align_up sz) \<le> unat s" "unat (heap_align_up sz) \<le> 4072"
        "live_blocks (xs @ ys) = live_blocks bs"
proof -
  let ?sz = "heap_align_up sz"
  have l: "list_of (hmem h) (heap_head h) bs 0" using repr by (simp add: heap_repr_def)
  note found = find_free_block_returns [OF l, of ?sz]
  show ?thesis
  proof (cases "?sz > heap_block_capacity")
    case True
    with \<open>sz \<noteq> 0\<close> show ?thesis
      by (intro fail) (auto simp: kmalloc_eq_carve heap_block_capacity_def word_less_nat_alt)
  next
    case small: False
    then have sz: "unat ?sz \<le> 4072" by (simp add: heap_block_capacity_def word_less_nat_alt)
    show ?thesis
    proof (cases "find (\<lambda>(a, s, f). f \<and> ?sz \<le> s) bs")
      case (Some b)
      then obtain i where i: "i < length bs" "b = bs ! i" by (auto simp: find_Some_iff)
      obtain a s f where b: "b = (a, s, f)" by (cases b)
      have s: "f" "?sz \<le> s" using Some b by (auto simp: find_Some_iff)
      have split: "bs = take i bs @ (a, s, True) # drop (Suc i) bs"
        using i b s by (metis id_take_nth_drop)
      have "a \<noteq> 0" using l split by (metis list_of_append list_of_Cons)
      then have "kmalloc sz h p = Some (a + HEAP_HEADER, carve a ?sz h, p)"
        using found Some small \<open>sz \<noteq> 0\<close> b by (simp add: kmalloc_eq_carve)
      moreover have "live_blocks bs = live_blocks (take i bs @ drop (Suc i) bs)"
        by (subst split) simp
      ultimately show ?thesis
        using repr split P sz s by (intro carve) (auto simp: word_le_nat_alt)
    next
      case None
      obtain b h' p' where grow: "grow_heap h p = (b, h', p')" by (metis prod_cases3)
      have step: "kmalloc sz h p = (if b = 0 then Some (0, h', p') else Some (b + HEAP_HEADER, carve b ?sz h', p'))"
        using found None small \<open>sz \<noteq> 0\<close> grow by (simp add: kmalloc_eq_carve)
      from repr P grow show ?thesis
      proof (cases rule: grow_heap_cases)
        case full
        then show ?thesis using step None by (intro fail) (auto simp: find_None_iff word_less_nat_alt not_le)
      next
        case page
        then show ?thesis using step sz
          by (intro carve [of b h' p' bs 4072 "[]" "insert b P"]) (auto simp: word_le_nat_alt)
      qed
    qed
  qed
qed

section \<open>Release\<close>

lemma coalesce_blocks_repr:
  assumes "heap_repr h bs P"
  shows "\<exists>h'. coalesce_blocks h = Some h' \<and> heap_repr h' (merge_adj bs) P"
proof -
  have r: "list_of (hmem h) (heap_head h) bs 0" "tiled bs P" "P \<subseteq> pmm_frames"
    "bs \<noteq> [] \<Longrightarrow> heap_tail h = fst (last bs)"
    using assms by (auto simp: heap_repr_def)
  from coalesce_from_returns [OF r(1) tiled_distinct [OF r(2)] r(4)] obtain m' tail' where
    m': "coalesce_from (hmem h) (heap_tail h) (heap_head h) = Some (m', tail')"
      "list_of m' (heap_head h) (merge_adj bs) 0"
      "tail' = (if bs = [] then heap_tail h else fst (last (merge_adj bs)))"
    by auto
  have "tiled (merge_adj bs) P" using tiled_merge_adj [of "[]" bs P] r by simp
  with m' assms show ?thesis by (auto simp: coalesce_blocks_def heap_repr_def)
qed

lemma free_one_repr:
  assumes "heap_repr h (xs @ (a, s, False) # ys) P"
  shows "heap_repr (h\<lparr>hmem := (hmem h)(a := (hmem h a)\<lparr>hb_free := True\<rparr>),
      heap_used := heap_used h - hb_size (hmem h a)\<rparr>) (xs @ (a, s, True) # ys) P"
proof -
  have r: "list_of (hmem h) (heap_head h) (xs @ (a, s, False) # ys) 0" "tiled (xs @ (a, s, False) # ys) P"
    using assms by (auto simp: heap_repr_def)
  have a: "a \<notin> fst ` set xs" "a \<notin> fst ` set ys" using tiled_distinct [OF r(2)] by auto
  have t: "tiled (xs @ [(a, s, True)] @ ys) P"
    by (rule tiled_replace [where cs = "[(a, s, False)]"]) (use r in simp_all)
  have l: "list_of ((hmem h)(a := (hmem h a)\<lparr>hb_free := True\<rparr>)) (heap_head h) (xs @ (a, s, True) # ys) 0"
    and "hb_size (hmem h a) = s"
    using r(1) a by (auto simp: list_of_append list_of_upd_other)
  then show ?thesis using assms t by (auto simp: heap_repr_def last_append)
qed

lemma kfree_repr:
  assumes "heap_repr h (xs @ (a, s, False) # ys) P"
  shows "\<exists>h'. kfree (a + HEAP_HEADER) h = Some h' \<and> heap_repr h' (merge_adj (xs @ (a, s, True) # ys)) P"
proof -
  have r: "list_of (hmem h) (heap_head h) (xs @ (a, s, False) # ys) 0" "tiled (xs @ (a, s, False) # ys) P"
    "P \<subseteq> pmm_frames" using assms by (auto simp: heap_repr_def)
  have b: "unat a + 24 + unat s \<le> 0x48000000" using tiled_bound(2) [OF r(2,3), of a s False] by simp
  have "unat (a + HEAP_HEADER) = unat a + 24" using b by (subst unat_add_no_wrap) auto
  then have "a + HEAP_HEADER \<noteq> 0" by (auto dest: arg_cong [where f = unat])
  moreover have "\<not> hb_free (hmem h a)" using r(1) by (auto simp: list_of_append)
  ultimately show ?thesis
    using coalesce_blocks_repr [OF free_one_repr [OF assms]] by (simp add: kfree_def Let_def)
qed

section \<open>Accounting\<close>

lemma card_span: "card (span (a, s, f)) = 24 + unat s"
  by simp

lemma card_tiles:
  "sorted_wrt (\<lambda>b c. span b \<inter> span c = {}) bs \<Longrightarrow>
     card (\<Union> (span ` set bs)) = 24 * length bs + sum_list (map (\<lambda>(a, s, f). unat s) bs)"
proof (induction bs)
  case (Cons b bs)
  obtain a s f where b: "b = (a, s, f)" by (cases b)
  have fin: "finite (span c)" for c by (cases c) simp
  have "span b \<inter> \<Union> (span ` set bs) = {}" using Cons.prems by (auto simp del: span.simps)
  then have "card (\<Union> (span ` set (b # bs))) = card (span b) + card (\<Union> (span ` set bs))"
    using fin by (simp add: card_Un_disjoint)
  with Cons b show ?case by (simp add: card_span del: span.simps)
qed simp

lemma card_pages:
  assumes "P \<subseteq> pmm_frames"
  shows "card (\<Union> (page_bytes ` P)) = 4096 * card P"
proof -
  have "finite P" using assms finite_pmm_frames by (rule finite_subset)
  moreover have "page_bytes a \<inter> page_bytes b = {}" if "a \<in> P" "b \<in> P" "a \<noteq> b" for a b
    using page_bytes_disjoint [of a b] assms that by blast
  moreover have "finite (page_bytes a)" for a by (simp add: page_bytes_def)
  ultimately have "card (\<Union> (page_bytes ` P)) = (\<Sum>a\<in>P. card (page_bytes a))"
    by (intro card_UN_disjoint) blast+
  then show ?thesis by (simp add: page_bytes_def)
qed

lemma unat_sum_list:
  "sum_list (map unat xs) < 2 ^ LENGTH('a) \<Longrightarrow> unat (sum_list (xs :: 'a::len word list)) = sum_list (map unat xs)"
  by (induction xs) (simp_all add: unat_add_no_wrap)

lemma used_free_sum:
  "unat (used_sum bs) + unat (free_sum bs) = sum_list (map (\<lambda>(a, s, f). unat s) bs)"
  if "sum_list (map (\<lambda>(a, s, f). unat s) bs) < 2 ^ 64"
proof -
  let ?u = "map (\<lambda>(a, s, f). if f then 0 else s) bs" and ?f = "map (\<lambda>(a, s, f). if f then s else 0) bs"
  have sum: "sum_list (map unat ?u) + sum_list (map unat ?f) = sum_list (map (\<lambda>(a, s, f). unat s) bs)"
    by (induction bs) auto
  have "unat (used_sum bs) = sum_list (map unat ?u)" "unat (free_sum bs) = sum_list (map unat ?f)"
    unfolding used_sum_def free_sum_def using that sum
    by (auto intro!: unat_sum_list simp del: map_map)
  with sum show ?thesis by simp
qed

lemma heap_repr_bytes:
  assumes "heap_repr h bs P"
  shows "unat (used_sum bs) + unat (free_sum bs) + 24 * length bs = 4096 * card P" "card P \<le> 32768"
proof -
  have r: "tiled bs P" "P \<subseteq> pmm_frames" using assms by (auto simp: heap_repr_def)
  show P: "card P \<le> 32768"
    using card_mono [OF finite_pmm_frames r(2)] card_image_le [of "{..<32768}" page_addr]
    by (simp add: frames_eq)
  have "24 * length bs + sum_list (map (\<lambda>(a, s, f). unat s) bs) = 4096 * card P"
    using card_tiles [of bs] card_pages [OF r(2)] r(1) by (simp add: tiled_def)
  then show "unat (used_sum bs) + unat (free_sum bs) + 24 * length bs = 4096 * card P"
    using used_free_sum [of bs] P by simp
qed

section \<open>Properties\<close>

lemma heap_init_repr: "heap_repr (heap_init h) [] {}"
  by (simp add: heap_repr_def heap_init_def tiled_def)

lemma carved_live_disjoint:
  assumes "tiled (xs @ carved a s sz @ ys) P" "(b, t) \<in> live_blocks (xs @ ys)"
  shows "span (b, t, False) \<inter> span (a, if unat s < unat sz + 56 then s else sz, False) = {}"
proof -
  have mem: "(b, t, False) \<in> set xs \<union> set ys" using assms(2) by (auto simp: live_blocks_def)
  have mem': "(a, if unat s < unat sz + 56 then s else sz, False) \<in> set (carved a s sz)"
    by (auto simp: carved_def)
  have "\<Union> (span ` set xs) \<inter> \<Union> (span ` set (carved a s sz)) = {}"
    "\<Union> (span ` set (carved a s sz)) \<inter> \<Union> (span ` set ys) = {}"
    using assms(1) by (simp_all only: tiled_append)
  moreover have "span (a, if unat s < unat sz + 56 then s else sz, False) \<subseteq> \<Union> (span ` set (carved a s sz))"
    using mem' by (rule UN_upper)
  moreover have "span (b, t, False) \<subseteq> \<Union> (span ` set xs) \<or> span (b, t, False) \<subseteq> \<Union> (span ` set ys)"
    using mem UN_upper [of "(b, t, False)" _ span] by (elim UnE) simp_all
  ultimately show ?thesis by (metis Int_commute Int_mono subset_empty)
qed

text \<open>
  C8: on a well-formed heap kmalloc always returns and leaves the heap well formed. Either it returns null and
  changes nothing, and then the request is 0 or larger than 4064 bytes, or no free block fits and no page is
  left; or it returns the payload of a block which becomes live, overlaps no block that was live, and
  leaves every live block as it was. The block is at least as large as the request, unless the request is
  one of the 15 largest sizes, for which the rounding of the size wraps to 0.
\<close>

theorem kmalloc_allocates_disjoint:
  assumes "heap_repr h bs P" "P \<subseteq> pmm_live p" "pmm_inv p"
  shows "\<exists>ptr h' p' bs' P'. kmalloc sz h p = Some (ptr, h', p') \<and>
    heap_repr h' bs' P' \<and> P' \<subseteq> pmm_live p' \<and> pmm_inv p' \<and>
    (if ptr = 0
     then h' = h \<and> p' = p \<and> (sz = 0 \<or> unat sz > 4064 \<or>
       (pmm_frames \<subseteq> pmm_live p \<and> (\<forall>(a, s, f)\<in>set bs. f \<longrightarrow> unat s < (unat sz + 15) div 16 * 16)))
     else \<exists>s. live_blocks bs' = insert (ptr - HEAP_HEADER, s) (live_blocks bs) \<and>
       (unat sz \<le> 2 ^ 64 - 16 \<longrightarrow> unat sz \<le> unat s) \<and>
       (\<forall>(b, t)\<in>live_blocks bs. span (b, t, False) \<inter> span (ptr - HEAP_HEADER, s, False) = {}))"
proof (cases "sz = 0")
  case True
  then show ?thesis using assms
    by (intro exI [of _ 0] exI [of _ h] exI [of _ p] exI [of _ bs] exI [of _ P]) (simp add: kmalloc_def)
next
  case nonzero: False
  from assms nonzero show ?thesis
  proof (cases rule: kmalloc_cases)
    case fail
    have "unat sz > 4064" if "unat (heap_align_up sz) > 4072" "unat sz \<le> 2 ^ 64 - 16"
      using that(1) heap_align_up_nat [OF that(2)] div_le_mono [of "unat sz + 15" 4079 16]
      by (cases "unat sz \<le> 4064") simp_all
    with fail assms heap_align_up_nat [of sz] show ?thesis
      by (intro exI [of _ 0] exI [of _ h] exI [of _ p] exI [of _ bs] exI [of _ P]) (cases "unat sz \<le> 2 ^ 64 - 16"; auto)
  next
    case (carve xs a s ys h0 P' p')
    let ?sz = "heap_align_up sz"
    let ?s = "if unat s < unat ?sz + 56 then s else ?sz"
    have repr: "heap_repr (carve a ?sz h0) (xs @ carved a s ?sz @ ys) P'"
      by (rule carve_repr) (use carve in auto)
    then have t: "tiled (xs @ carved a s ?sz @ ys) P'" by (simp add: heap_repr_def)
    have "tiled (xs @ (a, s, True) # ys) P'" "P' \<subseteq> pmm_frames" using carve(2) by (auto simp: heap_repr_def)
    then have "unat a + 24 + unat s \<le> 0x48000000" by (rule tiled_bound(2) [where f = True]) simp
    then have "unat (a + HEAP_HEADER) = unat a + 24" by (subst unat_add_no_wrap) auto
    then have ptr: "a + HEAP_HEADER \<noteq> 0" by (auto dest: arg_cong [where f = unat])
    have "unat sz \<le> unat ?s" if "unat sz \<le> 2 ^ 64 - 16" using heap_align_up_nat [OF that] carve(5) by auto
    moreover have "live_blocks (xs @ carved a s ?sz @ ys) = insert (a, ?s) (live_blocks bs)"
      using carve(7) by auto
    moreover have "\<forall>(b, t)\<in>live_blocks bs. span (b, t, False) \<inter> span (a, ?s, False) = {}"
      using carved_live_disjoint [OF t] carve(7) by blast
    ultimately have "\<exists>s'. live_blocks (xs @ carved a s ?sz @ ys) = insert (a + HEAP_HEADER - HEAP_HEADER, s') (live_blocks bs) \<and>
        (unat sz \<le> 2 ^ 64 - 16 \<longrightarrow> unat sz \<le> unat s') \<and>
        (\<forall>(b, t)\<in>live_blocks bs. span (b, t, False) \<inter> span (a + HEAP_HEADER - HEAP_HEADER, s', False) = {})"
      unfolding add_diff_cancel_right' by (intro exI [of _ ?s] conjI impI) assumption+
    then show ?thesis
      using carve(1,3,4) repr ptr
      by (intro exI [of _ "a + HEAP_HEADER"] exI [of _ "carve a ?sz h0"] exI [of _ p']
          exI [of _ "xs @ carved a s ?sz @ ys"] exI [of _ P']) (simp only: if_False simp_thms)
  qed
qed

lemma boot_frames_left: "\<not> pmm_frames \<subseteq> pmm_live (pmm_init 0x40100000)"
  using pmm_init_not_full [of "0x40100000"] pmm_pages.alloc_succeeds_iff [OF pmm_init_spec(1) [of "0x40100000"]]
  by simp

lemma boot_pmm_inv: "pmm_inv (pmm_init 0x40100000)"
  by (rule pmm_init_spec) simp

theorem kmalloc_allocates_disjoint_witness:
  "\<exists>ptr h' p'. kmalloc 100 (heap_init heap_bss) (pmm_init 0x40100000) = Some (ptr, h', p') \<and> ptr \<noteq> 0"
proof -
  from kmalloc_allocates_disjoint [OF heap_init_repr [of heap_bss] _ boot_pmm_inv, of 100] boot_frames_left
  show ?thesis by (auto split: if_splits)
qed

text \<open>
  C29: kfree of a live block returns, makes exactly that block free, keeps every other live block,
  subtracts its size from the used count, and leaves no two neighbouring free blocks unmerged.
\<close>

theorem kfree_releases_one:
  assumes "heap_repr h bs P" "(a, s) \<in> live_blocks bs"
  shows "\<exists>h' bs'. kfree (a + HEAP_HEADER) h = Some h' \<and> heap_repr h' bs' P \<and>
    live_blocks bs' = live_blocks bs - {(a, s)} \<and> heap_used h' = heap_used h - s \<and>
    successively (\<lambda>b c. \<not> mergeable b c) bs'"
proof -
  have "(a, s, False) \<in> set bs" using assms(2) by (simp add: live_blocks_def)
  then obtain xs ys where bs: "bs = xs @ (a, s, False) # ys" by (meson split_list)
  from assms(1) have t: "tiled bs P" and used: "heap_used h = used_sum bs" by (auto simp: heap_repr_def)
  have "a \<notin> fst ` set xs" "a \<notin> fst ` set ys" using tiled_distinct [OF t] bs by auto
  then have "(a, s) \<notin> live_blocks xs" "(a, s) \<notin> live_blocks ys"
    by (auto simp: live_blocks_def rev_image_eqI)
  then have live: "live_blocks (xs @ (a, s, True) # ys) = live_blocks bs - {(a, s)}"
    using bs by auto
  from kfree_repr [OF assms(1) [unfolded bs]] obtain h' where
    h': "kfree (a + HEAP_HEADER) h = Some h'" "heap_repr h' (merge_adj (xs @ (a, s, True) # ys)) P"
    by blast
  then have "heap_used h' = heap_used h - s" using used bs by (simp add: heap_repr_def)
  with h' live merge_adj_coalesced show ?thesis
    by (metis live_blocks_merge_adj)
qed

theorem kfree_releases_one_witness:
  "\<exists>ptr h' p' h''. kmalloc 100 (heap_init heap_bss) (pmm_init 0x40100000) = Some (ptr, h', p') \<and>
     ptr \<noteq> 0 \<and> kfree ptr h' = Some h''"
proof -
  have "{} \<subseteq> pmm_live (pmm_init 0x40100000)" "(100 :: u64) \<noteq> 0" by simp_all
  from heap_init_repr [of heap_bss] this(1) boot_pmm_inv this(2) show ?thesis
  proof (cases rule: kmalloc_cases)
    case fail
    with boot_frames_left heap_align_up_nat [of 100] show ?thesis by simp
  next
    case (carve xs a s ys h0 P' p')
    let ?sz = "heap_align_up 100"
    have repr: "heap_repr (carve a ?sz h0) (xs @ carved a s ?sz @ ys) P'"
      by (rule carve_repr) (use carve in auto)
    have "(a, if unat s < unat ?sz + 56 then s else ?sz) \<in> live_blocks (xs @ carved a s ?sz @ ys)" by simp
    from kfree_releases_one [OF repr this] obtain h'' where free: "kfree (a + HEAP_HEADER) (carve a ?sz h0) = Some h''"
      by blast
    have "a + HEAP_HEADER \<noteq> 0"
      using repr free tiled_bound [of "xs @ (a, s, True) # ys" P' a s True] carve(2)
        span_merge(1) [of a 0 "a + HEAP_HEADER" 0]
      by (auto simp: heap_repr_def)
    with free carve(1) show ?thesis by blast
  qed
qed

text \<open>
  The byte counts the heap reports: the used, free and header bytes together are exactly the
  pages the heap owns, and the reported overhead is 24 bytes for each block beyond one per page,
  zero when blocks have merged across pages.
\<close>

theorem heap_bytes_accounted:
  assumes "heap_repr h bs P"
  shows "\<exists>free over. heap_free_bytes h = Some free \<and> heap_overhead_bytes h = Some over \<and>
    unat (heap_used_bytes h) + unat free + 24 * length bs = 4096 * card P \<and>
    unat (heap_total_bytes h) = 4072 * card P \<and> unat over = 24 * (length bs - card P)"
proof -
  note bytes = heap_repr_bytes [OF assms]
  have r: "list_of (hmem h) (heap_head h) bs 0" "heap_used h = used_sum bs" "heap_pages h = of_nat (card P)"
    using assms by (auto simp: heap_repr_def)
  have free: "heap_free_bytes h = Some (free_sum bs)"
    using heap_free_from_returns [OF r(1), of 0] by (simp add: heap_free_bytes_def free_sum_def)
  have total: "unat (heap_total_bytes h) = 4072 * card P"
    using r(3) bytes(2) by (simp add: heap_total_bytes_def heap_block_capacity_def unat_word_ariths unat_of_nat take_bit_nat_eq_self)
  have sum: "unat (used_sum bs + free_sum bs) = unat (used_sum bs) + unat (free_sum bs)"
    by (rule unat_add_no_wrap) (use bytes in simp)
  define over where "over = (if heap_total_bytes h < used_sum bs + free_sum bs then 0
      else heap_total_bytes h - used_sum bs - free_sum bs)"
  have "unat over = 24 * (length bs - card P)"
  proof (cases "heap_total_bytes h < used_sum bs + free_sum bs")
    case True
    then have "card P > length bs" using total sum bytes by (simp add: word_less_nat_alt)
    with True show ?thesis by (simp add: over_def)
  next
    case False
    then have "unat (heap_total_bytes h - used_sum bs - free_sum bs) = unat (heap_total_bytes h) - unat (used_sum bs + free_sum bs)"
      by (simp only: diff_diff_eq not_less unat_diff_le)
    with False total sum bytes show ?thesis by (simp add: over_def)
  qed
  moreover have "heap_overhead_bytes h = Some over"
    using free r(2) by (simp add: heap_overhead_bytes_def heap_used_bytes_def over_def Let_def)
  ultimately show ?thesis using free total bytes(1) r(2) by (simp add: heap_used_bytes_def)
qed

theorem heap_bytes_accounted_witness:
  "heap_free_bytes (heap_init heap_bss) = Some 0 \<and> heap_overhead_bytes (heap_init heap_bss) = Some 0"
  using heap_bytes_accounted [OF heap_init_repr [of heap_bss]] by (auto simp: unat_eq_zero)

text \<open>
  C28: The rounding in align_up wraps for the 15 largest sizes, so a request of almost the whole
  address space does not fail: as long as a page is left it returns a block of fewer than 56 bytes.
\<close>

theorem kmalloc_huge_request_wraps:
  assumes "heap_repr h bs P" "P \<subseteq> pmm_live p" "pmm_inv p" "unat sz > 2 ^ 64 - 16"
    and "\<not> pmm_frames \<subseteq> pmm_live p"
  shows "\<exists>a h' p' bs' P' s. kmalloc sz h p = Some (a + HEAP_HEADER, h', p') \<and> heap_repr h' bs' P' \<and>
    (a, s) \<in> live_blocks bs' \<and> unat s < 56"
proof -
  have u64: "unat sz < 2 ^ 64" by (rule order_less_le_trans [OF unsigned_less]) simp
  have "unat (sz + 15) = (unat sz + 15) mod 2 ^ 64" by (simp add: unat_word_ariths)
  also have "\<dots> = (unat sz + 15 - 2 ^ 64) mod 2 ^ 64"
    by (rule le_mod_geq) (use assms(4) in simp)
  also have "\<dots> = unat sz + 15 - 2 ^ 64"
    by (rule mod_less) (use u64 in simp)
  finally have wrap: "unat (sz + 15) = unat sz + 15 - 2 ^ 64" .
  have "unat (heap_align_up sz) = unat (sz + 15) div 16 * 16"
    using unat_and_not_mask [of "sz + 15" 4] by (simp add: heap_align_up_def mask_eq_exp_minus_1 add.commute)
  then have zero: "heap_align_up sz = 0"
    using wrap u64 by (simp add: unat_eq_zero [symmetric])
  have "sz \<noteq> 0" using assms(4) by auto
  with assms(1-3) show ?thesis
  proof (cases rule: kmalloc_cases)
    case fail
    with zero assms(5) show ?thesis by simp
  next
    case (carve xs a s ys h0 P' p')
    have "heap_repr (carve a (heap_align_up sz) h0) (xs @ carved a s (heap_align_up sz) @ ys) P'"
      by (rule carve_repr) (use carve in auto)
    moreover have "(a, if unat s < 56 then s else 0) \<in> live_blocks (xs @ carved a s (heap_align_up sz) @ ys)"
      by (simp add: zero)
    moreover have "unat (if unat s < 56 then s else 0) < 56" by simp
    ultimately show ?thesis using carve(1) by blast
  qed
qed

theorem kmalloc_huge_request_wraps_witness:
  "\<exists>ptr h' p'. kmalloc 0xffffffffffffffff (heap_init heap_bss) (pmm_init 0x40100000) = Some (ptr, h', p')"
  using kmalloc_huge_request_wraps
    [OF heap_init_repr [of heap_bss] _ boot_pmm_inv _ boot_frames_left, of "0xffffffffffffffff"]
  by auto

end
