(* ===== verification/Mmu.thy ===== *)
theory Mmu
  imports Prelude
begin

text \<open>
  Translation-table descriptors and the MMU registers, arch/arm64/mmu.c and mmu.h: index extraction,
  descriptor construction and tests as bit operations on 64-bit words, and the system registers the
  enable and switch primitives write.
\<close>

section \<open>Constants\<close>

abbreviation ARM64_PAGE_SIZE :: u64 where "ARM64_PAGE_SIZE \<equiv> 0x1000"
abbreviation ARM64_TABLE_ENTRIES :: nat where "ARM64_TABLE_ENTRIES \<equiv> 512"
abbreviation ARM64_L2_BLOCK_SIZE :: u64 where "ARM64_L2_BLOCK_SIZE \<equiv> 0x200000"
abbreviation ARM64_DESC_AP_MASK :: u64 where "ARM64_DESC_AP_MASK \<equiv> 0xc0"
abbreviation ARM64_DESC_PXN :: u64 where "ARM64_DESC_PXN \<equiv> 0x20000000000000"
abbreviation ARM64_DESC_UXN :: u64 where "ARM64_DESC_UXN \<equiv> 0x40000000000000"
abbreviation ARM64_DESC_ADDR_MASK :: u64 where "ARM64_DESC_ADDR_MASK \<equiv> 0x0000fffffffff000"
abbreviation ARM64_DESC_L2_BLOCK_ADDR_MASK :: u64 where "ARM64_DESC_L2_BLOCK_ADDR_MASK \<equiv> 0x0000ffffffe00000"

text \<open>Attribute index 0, AP 00 (EL1 read-write), inner shareable, access flag.\<close>

definition ARM64_NORMAL_MEMORY_ATTR :: u64 where
  "ARM64_NORMAL_MEMORY_ATTR = push_bit 2 0 OR push_bit 6 0 OR push_bit 8 3 OR push_bit 10 1"

definition ARM64_DEVICE_MEMORY_ATTR :: u64 where
  "ARM64_DEVICE_MEMORY_ATTR =
     push_bit 2 1 OR push_bit 6 0 OR push_bit 10 1 OR push_bit 53 1 OR push_bit 54 1"

definition ARM64_MAIR_EL1_VALUE :: u64 where
  "ARM64_MAIR_EL1_VALUE = push_bit (0 * 8) 0xff OR push_bit (1 * 8) 0x00"

definition ARM64_TCR_EL1_VALUE :: u64 where
  "ARM64_TCR_EL1_VALUE = 32 OR push_bit 8 1 OR push_bit 10 1 OR push_bit 12 3 OR push_bit 14 0 OR
     push_bit 23 1 OR push_bit 32 0"

section \<open>Descriptors\<close>

definition arm64_mmu_l1_index :: "u64 \<Rightarrow> u64" where
  "arm64_mmu_l1_index address = drop_bit 30 address AND (512 - 1)"

definition arm64_mmu_l2_index :: "u64 \<Rightarrow> u64" where
  "arm64_mmu_l2_index address = drop_bit 21 address AND (512 - 1)"

definition arm64_mmu_l3_index :: "u64 \<Rightarrow> u64" where
  "arm64_mmu_l3_index address = drop_bit 12 address AND (512 - 1)"

definition arm64_mmu_table_desc :: "u64 \<Rightarrow> u64" where
  "arm64_mmu_table_desc physical = (physical AND NOT (ARM64_PAGE_SIZE - 1)) OR 1 OR 2"

definition arm64_mmu_desc_is_valid :: "u64 \<Rightarrow> bool" where
  "arm64_mmu_desc_is_valid d \<longleftrightarrow> d AND 1 \<noteq> 0"

definition arm64_mmu_desc_is_table :: "u64 \<Rightarrow> bool" where
  "arm64_mmu_desc_is_table d \<longleftrightarrow> d AND (1 OR 2) = (1 OR 2)"

definition arm64_mmu_desc_is_l2_block :: "u64 \<Rightarrow> bool" where
  "arm64_mmu_desc_is_l2_block d \<longleftrightarrow> d AND (1 OR 2) = 1"

definition arm64_mmu_desc_is_l3_page :: "u64 \<Rightarrow> bool" where
  "arm64_mmu_desc_is_l3_page d \<longleftrightarrow> d AND (1 OR 2) = (1 OR 2)"

definition arm64_mmu_desc_address :: "u64 \<Rightarrow> u64" where
  "arm64_mmu_desc_address d = d AND ARM64_DESC_ADDR_MASK"

definition arm64_mmu_l2_block_address :: "u64 \<Rightarrow> u64" where
  "arm64_mmu_l2_block_address d = d AND ARM64_DESC_L2_BLOCK_ADDR_MASK"

definition arm64_mmu_l3_page_address :: "u64 \<Rightarrow> u64" where
  "arm64_mmu_l3_page_address d = d AND ARM64_DESC_ADDR_MASK"

definition arm64_mmu_desc_is_execute_never :: "u64 \<Rightarrow> bool" where
  "arm64_mmu_desc_is_execute_never d \<longleftrightarrow> d AND (ARM64_DESC_PXN OR ARM64_DESC_UXN) \<noteq> 0"

definition arm64_mmu_desc_execute_state :: "u64 \<Rightarrow> string" where
  "arm64_mmu_desc_execute_state d = (if arm64_mmu_desc_is_execute_never d then ''xn'' else ''exec'')"

definition arm64_mmu_desc_is_read_only :: "u64 \<Rightarrow> bool" where
  "arm64_mmu_desc_is_read_only d \<longleftrightarrow> d AND ARM64_DESC_AP_MASK = push_bit 6 2"

definition arm64_mmu_desc_write_state :: "u64 \<Rightarrow> string" where
  "arm64_mmu_desc_write_state d = (if arm64_mmu_desc_is_read_only d then ''ro'' else ''rw'')"

definition arm64_mmu_desc_has_user_access :: "u64 \<Rightarrow> bool" where
  "arm64_mmu_desc_has_user_access d \<longleftrightarrow>
     (let access = d AND ARM64_DESC_AP_MASK in access = push_bit 6 1 \<or> access = push_bit 6 3)"

definition arm64_mmu_desc_user_access_state :: "u64 \<Rightarrow> string" where
  "arm64_mmu_desc_user_access_state d = (if arm64_mmu_desc_has_user_access d then ''el0'' else ''el1'')"

definition arm64_mmu_l2_block_desc :: "u64 \<Rightarrow> u64 \<Rightarrow> u64" where
  "arm64_mmu_l2_block_desc physical attributes =
     (physical AND NOT (ARM64_L2_BLOCK_SIZE - 1)) OR attributes OR 1"

definition arm64_mmu_l3_page_desc :: "u64 \<Rightarrow> u64 \<Rightarrow> u64" where
  "arm64_mmu_l3_page_desc physical attributes =
     (physical AND NOT (ARM64_PAGE_SIZE - 1)) OR attributes OR (1 OR 2)"

section \<open>Registers\<close>

record mmu_regs =
  sctlr_el1 :: u64
  mair_el1 :: u64
  tcr_el1 :: u64
  ttbr0_el1 :: u64

definition arm64_mmu_is_enabled :: "mmu_regs \<Rightarrow> bool" where
  "arm64_mmu_is_enabled r \<longleftrightarrow> sctlr_el1 r AND 1 \<noteq> 0"

definition arm64_mmu_state :: "mmu_regs \<Rightarrow> string" where
  "arm64_mmu_state r = (if arm64_mmu_is_enabled r then ''enabled'' else ''disabled'')"

definition arm64_mmu_enable :: "u64 \<Rightarrow> mmu_regs \<Rightarrow> mmu_regs" where
  "arm64_mmu_enable root_table r =
     (if arm64_mmu_is_enabled r then r
      else r\<lparr>mair_el1 := ARM64_MAIR_EL1_VALUE, tcr_el1 := ARM64_TCR_EL1_VALUE,
             ttbr0_el1 := root_table, sctlr_el1 := sctlr_el1 r OR 1\<rparr>)"

definition arm64_mmu_switch_ttbr0 :: "u64 \<Rightarrow> mmu_regs \<Rightarrow> mmu_regs" where
  "arm64_mmu_switch_ttbr0 root_table r = r\<lparr>ttbr0_el1 := root_table\<rparr>"

section \<open>The table walk\<close>

text \<open>
  What the hardware does with the tables, from the architecture: a three-level walk from TTBR0 with
  4 KB granule. \<open>rd\<close> reads a 64-bit entry at a physical address. The result is the physical address and the
  leaf descriptor. Two rules of the hardware are left out: a valid block descriptor of the first level, which no
  function of the source makes, ends the walk here instead of mapping 1 GB, and the index of the first level is not
  cut to the 32-bit input range that TCR_EL1 sets, beyond which the tables of the source map nothing.
\<close>

definition mmu_walk :: "(u64 \<Rightarrow> u64) \<Rightarrow> u64 \<Rightarrow> u64 \<Rightarrow> (u64 \<times> u64) option" where
  "mmu_walk rd root va =
     (let d1 = rd (root + 8 * arm64_mmu_l1_index va) in
      if \<not> arm64_mmu_desc_is_table d1 then None
      else
        let d2 = rd (arm64_mmu_desc_address d1 + 8 * arm64_mmu_l2_index va) in
        if arm64_mmu_desc_is_l2_block d2
        then Some (arm64_mmu_l2_block_address d2 OR (va AND (ARM64_L2_BLOCK_SIZE - 1)), d2)
        else if \<not> arm64_mmu_desc_is_table d2 then None
        else
          let d3 = rd (arm64_mmu_desc_address d2 + 8 * arm64_mmu_l3_index va) in
          if arm64_mmu_desc_is_l3_page d3
          then Some (arm64_mmu_l3_page_address d3 OR (va AND (ARM64_PAGE_SIZE - 1)), d3)
          else None)"

section \<open>Lemmas on descriptors\<close>

text \<open>
  The attributes the kernel uses lie outside the address field and the two type bits.
\<close>

definition attr_ok :: "u64 \<Rightarrow> bool" where
  "attr_ok a \<longleftrightarrow> a AND (ARM64_DESC_ADDR_MASK OR 3) = 0"

definition frame_ok :: "u64 \<Rightarrow> bool" where
  "frame_ok p \<longleftrightarrow> p AND NOT ARM64_DESC_ADDR_MASK = 0"

lemma low12_mask: "(ARM64_PAGE_SIZE - 1 :: u64) = mask 12" "(ARM64_L2_BLOCK_SIZE - 1 :: u64) = mask 21"
  by (simp_all add: mask_eq_exp_minus_1)

lemma addr_mask_eq: "ARM64_DESC_ADDR_MASK = push_bit 12 (mask 36)" "ARM64_DESC_L2_BLOCK_ADDR_MASK = push_bit 21 (mask 27)"
  by (simp_all add: mask_eq_exp_minus_1 push_bit_eq_mult)

lemma bit_addr_mask: "bit ARM64_DESC_ADDR_MASK n \<longleftrightarrow> 12 \<le> n \<and> n < 48"
  unfolding addr_mask_eq by (auto simp: bit_simps)

lemma bit_PXN: "bit ARM64_DESC_PXN n \<longleftrightarrow> n = 53" and bit_UXN: "bit ARM64_DESC_UXN n \<longleftrightarrow> n = 54"
proof -
  have "ARM64_DESC_PXN = 2 ^ 53" "ARM64_DESC_UXN = 2 ^ 54" by simp_all
  then show "bit ARM64_DESC_PXN n \<longleftrightarrow> n = 53" "bit ARM64_DESC_UXN n \<longleftrightarrow> n = 54"
    by (simp_all only: bit_exp_iff) auto
qed

lemma and_mask_cong: "(\<And>n. bit m n \<Longrightarrow> bit d n = bit a n) \<Longrightarrow> d AND m = a AND (m :: u64)"
  by (rule bit_word_eqI) (auto simp: bit_and_iff)

lemma bit_and_0: "x AND y = 0 \<Longrightarrow> bit x n \<Longrightarrow> \<not> bit (y :: u64) n"
  by (metis bit_0_eq bit_and_iff bot_apply bot_bool_def)

lemma attr_ok_bit: "attr_ok a \<Longrightarrow> bit a n \<Longrightarrow> \<not> (12 \<le> n \<and> n < 48) \<and> n \<noteq> 0 \<and> n \<noteq> 1"
proof -
  have m: "(ARM64_DESC_ADDR_MASK OR 3 :: u64) = push_bit 12 (mask 36) OR mask 2"
    by (simp add: mask_eq_exp_minus_1 push_bit_eq_mult)
  assume "attr_ok a" "bit a n"
  then have "\<not> bit (push_bit 12 (mask 36) OR mask 2 :: u64) n" unfolding attr_ok_def m by (rule bit_and_0)
  then show ?thesis by (auto simp: bit_simps)
qed

lemma frame_ok_bit: "frame_ok p \<Longrightarrow> bit p n \<Longrightarrow> 12 \<le> n \<and> n < 48"
proof -
  assume f: "frame_ok p" and b: "bit p n"
  then have "n < 64" using bit_imp_le_length [of p n] by simp
  have "\<not> bit (NOT (push_bit 12 (mask 36)) :: u64) n"
    using f b unfolding frame_ok_def addr_mask_eq by (rule bit_and_0)
  with \<open>n < 64\<close> show ?thesis by (auto simp: bit_simps)
qed

lemma frame_okI:
  assumes "4096 dvd unat p" "unat p < 2 ^ 48"
  shows "frame_ok p"
proof -
  have hi: "take_bit 48 p = p"
    using assms(2) by (simp add: word_unat_eq_iff unsigned_take_bit_eq take_bit_nat_eq_self)
  have "unat (p AND NOT (mask 12)) = unat p" using assms(1) by (simp only: unat_and_not_mask) simp
  then have lo: "p AND NOT (mask 12) = p" by (simp only: word_unat_eq_iff)
  have "12 \<le> n \<and> n < 48" if "bit p n" for n
  proof -
    have "bit (take_bit 48 p) n" "bit (p AND NOT (mask 12)) n" using that hi lo by simp_all
    then show ?thesis by (auto simp: bit_simps not_less)
  qed
  moreover have "bit (push_bit 12 (mask 36) :: u64) n \<longleftrightarrow> 12 \<le> n \<and> n < 48" for n by (auto simp: bit_simps)
  ultimately have "p AND NOT (push_bit 12 (mask 36)) = 0"
    by (intro bit_word_eqI) (auto simp: bit_and_iff bit_not_iff)
  then show ?thesis unfolding frame_ok_def addr_mask_eq .
qed

lemma l3_page_roundtrip:
  assumes "frame_ok p" "attr_ok a"
  shows "arm64_mmu_l3_page_address (arm64_mmu_l3_page_desc p a) = p"
    "arm64_mmu_desc_is_l3_page (arm64_mmu_l3_page_desc p a)"
    "arm64_mmu_desc_has_user_access (arm64_mmu_l3_page_desc p a) = arm64_mmu_desc_has_user_access a"
    "arm64_mmu_desc_is_read_only (arm64_mmu_l3_page_desc p a) = arm64_mmu_desc_is_read_only a"
    "arm64_mmu_l3_page_desc p a AND ARM64_DESC_PXN = a AND ARM64_DESC_PXN"
    "arm64_mmu_l3_page_desc p a AND ARM64_DESC_UXN = a AND ARM64_DESC_UXN"
    "arm64_mmu_l3_page_desc p a AND ARM64_DESC_AP_MASK = a AND ARM64_DESC_AP_MASK"
proof -
  let ?d = "arm64_mmu_l3_page_desc p a"
  have three: "(1 OR 2 :: u64) = mask 2" by (simp add: mask_eq_exp_minus_1)
  have bits: "bit ?d n \<longleftrightarrow> bit p n \<or> bit a n \<or> n < 2" for n
    using frame_ok_bit [OF assms(1), of n]
    unfolding arm64_mmu_l3_page_desc_def low12_mask three by (auto simp: bit_simps dest: bit_imp_le_length)
  show "arm64_mmu_l3_page_address ?d = p"
    unfolding arm64_mmu_l3_page_address_def addr_mask_eq
  proof (rule bit_word_eqI)
    fix n
    have "bit (push_bit 12 (mask 36) :: u64) n \<longleftrightarrow> 12 \<le> n \<and> n < 48" by (auto simp: bit_simps)
    then show "bit (?d AND push_bit 12 (mask 36)) n = bit p n"
      using frame_ok_bit [OF assms(1), of n] attr_ok_bit [OF assms(2), of n] by (auto simp: bit_and_iff bits)
  qed
  show "arm64_mmu_desc_is_l3_page ?d"
    unfolding arm64_mmu_desc_is_l3_page_def three by (rule bit_word_eqI) (auto simp: bit_simps bits)
  show ap: "?d AND ARM64_DESC_AP_MASK = a AND ARM64_DESC_AP_MASK"
  proof -
    have m: "(ARM64_DESC_AP_MASK :: u64) = push_bit 6 (mask 2)" by (simp add: mask_eq_exp_minus_1 push_bit_eq_mult)
    show ?thesis unfolding m
    proof (rule bit_word_eqI)
      fix n
      have "bit (push_bit 6 (mask 2) :: u64) n \<longleftrightarrow> n = 6 \<or> n = 7" by (auto simp: bit_simps)
      then show "bit (?d AND push_bit 6 (mask 2)) n = bit (a AND push_bit 6 (mask 2)) n"
        using frame_ok_bit [OF assms(1), of n] by (auto simp: bit_and_iff bits)
    qed
  qed
  then show "arm64_mmu_desc_has_user_access ?d = arm64_mmu_desc_has_user_access a"
    "arm64_mmu_desc_is_read_only ?d = arm64_mmu_desc_is_read_only a"
    by (simp_all only: arm64_mmu_desc_has_user_access_def arm64_mmu_desc_is_read_only_def)
  show "?d AND ARM64_DESC_PXN = a AND ARM64_DESC_PXN" "?d AND ARM64_DESC_UXN = a AND ARM64_DESC_UXN"
    using frame_ok_bit [OF assms(1), of 53] frame_ok_bit [OF assms(1), of 54] bits [of 53] bits [of 54]
    by (auto intro!: and_mask_cong dest!: bit_PXN [THEN iffD1] bit_UXN [THEN iffD1])
qed

lemma table_desc_roundtrip:
  assumes "frame_ok p"
  shows "arm64_mmu_desc_address (arm64_mmu_table_desc p) = p" "arm64_mmu_desc_is_table (arm64_mmu_table_desc p)"
proof -
  have "arm64_mmu_table_desc p = arm64_mmu_l3_page_desc p 0"
    by (simp add: arm64_mmu_table_desc_def arm64_mmu_l3_page_desc_def or.assoc)
  moreover have "attr_ok 0" by (simp add: attr_ok_def)
  ultimately show "arm64_mmu_desc_address (arm64_mmu_table_desc p) = p" "arm64_mmu_desc_is_table (arm64_mmu_table_desc p)"
    using l3_page_roundtrip(1,2) [OF assms, of 0]
    by (simp_all only: arm64_mmu_desc_address_def arm64_mmu_l3_page_address_def arm64_mmu_desc_is_table_def
        arm64_mmu_desc_is_l3_page_def)
qed

text \<open>
  Building a level-3 page descriptor and taking it apart again: for a page-aligned physical
  address below 2^48 and attributes outside the address field, the descriptor is a valid page, its
  address is the physical address, and its access and execute permissions are those of the attributes.
\<close>

theorem l3_page_desc_roundtrip:
  assumes "4096 dvd unat physical" "unat physical < 2 ^ 48" "attributes AND (ARM64_DESC_ADDR_MASK OR 3) = 0"
  shows "arm64_mmu_desc_is_l3_page (arm64_mmu_l3_page_desc physical attributes) \<and>
    arm64_mmu_l3_page_address (arm64_mmu_l3_page_desc physical attributes) = physical \<and>
    arm64_mmu_desc_has_user_access (arm64_mmu_l3_page_desc physical attributes) = arm64_mmu_desc_has_user_access attributes \<and>
    arm64_mmu_desc_is_read_only (arm64_mmu_l3_page_desc physical attributes) = arm64_mmu_desc_is_read_only attributes \<and>
    arm64_mmu_desc_is_execute_never (arm64_mmu_l3_page_desc physical attributes) = arm64_mmu_desc_is_execute_never attributes"
proof -
  have a: "attr_ok attributes" using assms(3) by (simp only: attr_ok_def)
  have p: "frame_ok physical" by (rule frame_okI) (use assms in simp_all)
  have "arm64_mmu_desc_is_execute_never x \<longleftrightarrow> x AND ARM64_DESC_PXN \<noteq> 0 \<or> x AND ARM64_DESC_UXN \<noteq> 0" for x
    unfolding arm64_mmu_desc_is_execute_never_def by (simp only: bit.conj_disj_distrib or_eq_0_iff) blast
  then show ?thesis using l3_page_roundtrip [OF p a] by simp
qed

theorem l3_page_desc_roundtrip_witness:
  "arm64_mmu_l3_page_address (arm64_mmu_l3_page_desc 0x40000000 0x60000000000740) = 0x40000000"
  using l3_page_desc_roundtrip [of "0x40000000" "0x60000000000740"] by simp

end
