(* ===== verification/AddressSpace.thy ===== *)
theory AddressSpace
  imports Mmu
begin

text \<open>
  User address spaces, kernel/memory/address_space.c: four slots of static translation tables and
  region pages, the set-up of a user space over a copy of the kernel map, image loading, the range
  checks system calls rely on, and validation. The addresses the linker gives the static arrays and
  the kernel's own tables are parameters, collected in \<open>as_env\<close>.
\<close>

section \<open>State\<close>

abbreviation ADDRESS_SPACE_USER_REGION_COUNT :: nat where "ADDRESS_SPACE_USER_REGION_COUNT \<equiv> 3"
abbreviation ADDRESS_SPACE_USER_TABLE_SLOTS :: nat where "ADDRESS_SPACE_USER_TABLE_SLOTS \<equiv> 4"
abbreviation ADDRESS_SPACE_USER_START :: u64 where "ADDRESS_SPACE_USER_START \<equiv> 0x00010000"
abbreviation ADDRESS_SPACE_USER_END :: u64 where "ADDRESS_SPACE_USER_END \<equiv> 0x40000000"
abbreviation ADDRESS_SPACE_USER_CODE_START :: u64 where "ADDRESS_SPACE_USER_CODE_START \<equiv> 0x00100000"
abbreviation ADDRESS_SPACE_USER_CODE_END :: u64 where "ADDRESS_SPACE_USER_CODE_END \<equiv> 0x00200000"
abbreviation ADDRESS_SPACE_USER_DATA_START :: u64 where "ADDRESS_SPACE_USER_DATA_START \<equiv> 0x00200000"
abbreviation ADDRESS_SPACE_USER_DATA_END :: u64 where "ADDRESS_SPACE_USER_DATA_END \<equiv> 0x00300000"
abbreviation ADDRESS_SPACE_USER_STACK_START :: u64 where "ADDRESS_SPACE_USER_STACK_START \<equiv> 0x3fff0000"
abbreviation ADDRESS_SPACE_USER_STACK_END :: u64 where "ADDRESS_SPACE_USER_STACK_END \<equiv> 0x40000000"

definition ADDRESS_SPACE_USER_CODE_ATTR :: u64 where
  "ADDRESS_SPACE_USER_CODE_ATTR =
     (ARM64_NORMAL_MEMORY_ATTR AND NOT ARM64_DESC_AP_MASK) OR push_bit 6 3 OR ARM64_DESC_PXN"

definition ADDRESS_SPACE_USER_DATA_ATTR :: u64 where
  "ADDRESS_SPACE_USER_DATA_ATTR =
     (ARM64_NORMAL_MEMORY_ATTR AND NOT ARM64_DESC_AP_MASK) OR push_bit 6 1 OR ARM64_DESC_PXN OR ARM64_DESC_UXN"

datatype address_space_kind = ADDRESS_SPACE_KERNEL | ADDRESS_SPACE_USER

datatype address_space_switch_status =
  ADDRESS_SPACE_SWITCH_ACTIVE | ADDRESS_SPACE_SWITCH_READY | ADDRESS_SPACE_SWITCH_BLOCKED

datatype address_space_switch_stub_status =
  ADDRESS_SPACE_SWITCH_STUB_ACTIVE | ADDRESS_SPACE_SWITCH_STUB_READY | ADDRESS_SPACE_SWITCH_STUB_BLOCKED

record user_region =
  ur_name :: "string option"
  ur_start :: u64
  ur_end :: u64
  ur_attributes :: u64
  ur_user_access :: bool
  ur_writable :: bool
  ur_executable :: bool

record address_space =
  as_name :: string
  as_kind :: address_space_kind
  as_root_table :: u64
  as_kernel_root_table :: u64
  as_user_root_table :: u64
  as_active_root_table :: u64
  as_target_root_table :: u64
  as_user_table_slot :: nat
  as_user_table_count :: nat
  as_user_start :: u64
  as_user_end :: u64
  as_user_code_start :: u64
  as_user_code_end :: u64
  as_user_data_start :: u64
  as_user_data_end :: u64
  as_user_stack_start :: u64
  as_user_stack_end :: u64
  as_user_image_entry :: u64
  as_user_image_size :: u64
  as_user_image_checksum :: u64
  as_user_mapping_count :: nat
  as_user_descriptor_count :: nat
  as_user_installed_descriptor_count :: nat
  as_user_regions :: "user_region list"
  as_shared_kernel_map :: bool
  as_permission_split_ready :: bool
  as_kernel_el0_access :: bool
  as_user_el0_access :: bool
  as_user_tables_ready :: bool
  as_user_descriptors_ready :: bool
  as_user_mappings_ready :: bool
  as_user_image_ready :: bool
  as_user_execute_ready :: bool
  as_validation_ready :: bool
  as_switch_ready :: bool
  as_switch_status :: address_space_switch_status
  as_switch_stub_status :: address_space_switch_stub_status
  as_validation_errors :: nat

text \<open>
  The static tables and pages, one per slot; the level-3 tables and the region pages of slot \<open>s\<close> and
  region \<open>i\<close> are at position \<open>3 * s + i\<close>, as the arrays lie in memory.
\<close>

record user_tables =
  ut_l1 :: "u64 list list"
  ut_l2 :: "u64 list list"
  ut_l3 :: "u64 list list"
  ut_pages :: "u8 list list"
  ut_used :: "bool list"

record as_env =
  l1_base :: u64
  l2_base :: u64
  l3_base :: u64
  page_base :: u64
  kernel_read :: "u64 \<Rightarrow> u64"

definition l1_addr :: "as_env \<Rightarrow> nat \<Rightarrow> u64" where
  "l1_addr env slot = l1_base env + of_nat (slot * 4096)"

definition l2_addr :: "as_env \<Rightarrow> nat \<Rightarrow> u64" where
  "l2_addr env slot = l2_base env + of_nat (slot * 4096)"

definition l3_addr :: "as_env \<Rightarrow> nat \<Rightarrow> nat \<Rightarrow> u64" where
  "l3_addr env slot i = l3_base env + of_nat ((3 * slot + i) * 4096)"

definition region_page_addr :: "as_env \<Rightarrow> nat \<Rightarrow> nat \<Rightarrow> u64" where
  "region_page_addr env slot i = page_base env + of_nat ((3 * slot + i) * 4096)"

section \<open>Tables and slots\<close>

definition address_space_clear_table :: "u64 list" where
  "address_space_clear_table = replicate 512 0"

definition address_space_clear_page :: "u8 list" where
  "address_space_clear_page = replicate 4096 0"

definition address_space_checksum_bytes :: "u8 list \<Rightarrow> nat \<Rightarrow> u64" where
  "address_space_checksum_bytes bytes sz =
     fold (\<lambda>b sum. (push_bit 5 sum XOR drop_bit 2 sum) XOR ucast b) (take sz bytes) 0"

definition clear_slot :: "nat \<Rightarrow> user_tables \<Rightarrow> user_tables" where
  "clear_slot slot t =
     t\<lparr>ut_l1 := (ut_l1 t)[slot := address_space_clear_table],
       ut_l2 := (ut_l2 t)[slot := address_space_clear_table],
       ut_l3 := fold (\<lambda>i l. l[3 * slot + i := address_space_clear_table]) [0..<ADDRESS_SPACE_USER_REGION_COUNT] (ut_l3 t),
       ut_pages := fold (\<lambda>i l. l[3 * slot + i := address_space_clear_page]) [0..<ADDRESS_SPACE_USER_REGION_COUNT] (ut_pages t)\<rparr>"

definition address_space_alloc_user_table_slot :: "user_tables \<Rightarrow> nat option \<times> user_tables" where
  "address_space_alloc_user_table_slot t =
     (case find_slot (\<lambda>used. \<not> used) (ut_used t) of
        None \<Rightarrow> (None, t)
      | Some slot \<Rightarrow> (Some slot, clear_slot slot (t\<lparr>ut_used := (ut_used t)[slot := True]\<rparr>)))"

text \<open>
  Copying the kernel's level-2 table and level-1 entries 1 to 511. The result is the flag returned
  and the two new tables.
\<close>

definition address_space_install_shared_kernel_map ::
    "as_env \<Rightarrow> address_space \<Rightarrow> u64 \<Rightarrow> u64 list \<times> u64 list \<Rightarrow> bool \<times> u64 list \<times> u64 list" where
  "address_space_install_shared_kernel_map env space l2_address tables =
     (if as_kernel_root_table space = 0 then (False, tables)
      else
        let root = as_kernel_root_table space;
            desc = kernel_read env root
        in
        if \<not> arm64_mmu_desc_is_table desc then (False, tables)
        else
          let l2 = map (\<lambda>i. kernel_read env (arm64_mmu_desc_address desc + 8 * of_nat i)) [0..<512];
              l1 = arm64_mmu_table_desc l2_address #
                   map (\<lambda>i. kernel_read env (root + 8 * of_nat i)) [1..<512]
          in (True, l1, l2))"

text \<open>The loop over the user regions that installs one page each.\<close>

definition install_region ::
    "as_env \<Rightarrow> nat \<Rightarrow> address_space \<Rightarrow> nat \<Rightarrow> nat \<times> u64 list \<times> u64 list list \<Rightarrow> nat \<times> u64 list \<times> u64 list list" where
  "install_region env slot space i st =
     (case st of (installed, l2, l3s) \<Rightarrow>
        if i \<ge> ADDRESS_SPACE_USER_REGION_COUNT \<or> ur_name (as_user_regions space ! i) = None then st
        else
          let region = as_user_regions space ! i;
              l2_index = unat (arm64_mmu_l2_index (ur_start region));
              l3_index = unat (arm64_mmu_l3_index (ur_start region))
          in (installed + 1,
              l2[l2_index := arm64_mmu_table_desc (l3_addr env slot i)],
              l3s[3 * slot + i := address_space_clear_table[l3_index :=
                    arm64_mmu_l3_page_desc (region_page_addr env slot i) (ur_attributes region)]]))"

definition address_space_install_user_descriptors ::
    "as_env \<Rightarrow> address_space \<Rightarrow> user_tables \<Rightarrow> nat \<times> address_space \<times> user_tables" where
  "address_space_install_user_descriptors env space t =
     (let slot = as_user_table_slot space in
      if slot \<ge> ADDRESS_SPACE_USER_TABLE_SLOTS then (0, space, t)
      else
        let (shared, l1, l2) = address_space_install_shared_kernel_map env space (l2_addr env slot)
                                 (address_space_clear_table, address_space_clear_table);
            space = space\<lparr>as_shared_kernel_map := shared\<rparr>;
            l1 = (if shared then l1 else l1[0 := arm64_mmu_table_desc (l2_addr env slot)]);
            (installed, l2, l3s) =
              fold (install_region env slot space) [0..<as_user_descriptor_count space] (0, l2, ut_l3 t)
        in (installed, space,
            t\<lparr>ut_l1 := (ut_l1 t)[slot := l1], ut_l2 := (ut_l2 t)[slot := l2], ut_l3 := l3s\<rparr>))"

definition empty_region :: user_region where
  "empty_region = \<lparr>ur_name = None, ur_start = 0, ur_end = 0, ur_attributes = 0, ur_user_access = False,
     ur_writable = False, ur_executable = False\<rparr>"

definition address_space_clear_user_regions :: "address_space \<Rightarrow> address_space" where
  "address_space_clear_user_regions space =
     space\<lparr>as_user_regions := replicate ADDRESS_SPACE_USER_REGION_COUNT empty_region\<rparr>"

definition address_space_set_user_region ::
    "nat \<Rightarrow> string \<Rightarrow> u64 \<Rightarrow> u64 \<Rightarrow> u64 \<Rightarrow> bool \<Rightarrow> bool \<Rightarrow> address_space \<Rightarrow> address_space" where
  "address_space_set_user_region index name start end attributes writable executable space =
     (if index \<ge> ADDRESS_SPACE_USER_REGION_COUNT then space
      else space\<lparr>as_user_regions := (as_user_regions space)[index :=
             \<lparr>ur_name = Some name, ur_start = start, ur_end = end, ur_attributes = attributes,
              ur_user_access = True, ur_writable = writable, ur_executable = executable\<rparr>]\<rparr>)"

section \<open>Validation and range checks\<close>

definition address_space_region_is_valid :: "user_region \<Rightarrow> bool \<Rightarrow> bool \<Rightarrow> bool" where
  "address_space_region_is_valid region want_writable want_executable \<longleftrightarrow>
     ur_name region \<noteq> None \<and> ur_user_access region \<and> ur_start region < ur_end region \<and>
     ur_writable region = want_writable \<and> ur_executable region = want_executable"

definition address_space_user_range_valid :: "address_space \<Rightarrow> u64 \<Rightarrow> u64 \<Rightarrow> bool" where
  "address_space_user_range_valid space address sz =
     (if as_kind space \<noteq> ADDRESS_SPACE_USER then False
      else if sz = 0 then True
      else if address + sz < address then False
      else \<exists>region\<in>set (as_user_regions space).
             ur_name region \<noteq> None \<and> ur_user_access region \<and>
             address \<ge> ur_start region \<and> address + sz \<le> ur_end region)"

definition address_space_user_writable_range_valid :: "address_space \<Rightarrow> u64 \<Rightarrow> u64 \<Rightarrow> bool" where
  "address_space_user_writable_range_valid space address sz =
     (if as_kind space \<noteq> ADDRESS_SPACE_USER \<or> sz = 0 then sz = 0 \<and> as_kind space = ADDRESS_SPACE_USER
      else if address + sz < address then False
      else \<exists>region\<in>set (as_user_regions space).
             ur_name region \<noteq> None \<and> ur_user_access region \<and> ur_writable region \<and>
             address \<ge> ur_start region \<and> address + sz \<le> ur_end region)"

definition address_space_validate_user :: "address_space \<Rightarrow> nat" where
  "address_space_validate_user space =
     of_bool (\<not> as_permission_split_ready space \<or> as_kernel_el0_access space \<or> \<not> as_user_el0_access space) +
     of_bool (\<not> as_user_tables_ready space \<or> \<not> as_user_descriptors_ready space \<or> \<not> as_user_mappings_ready space) +
     of_bool (as_user_root_table space = 0 \<or> as_user_table_slot space \<ge> ADDRESS_SPACE_USER_TABLE_SLOTS \<or>
        as_user_table_count space \<noteq> 5) +
     of_bool (as_user_descriptor_count space \<noteq> ADDRESS_SPACE_USER_REGION_COUNT \<or>
        as_user_installed_descriptor_count space \<noteq> as_user_descriptor_count space \<or>
        as_user_mapping_count space \<noteq> ADDRESS_SPACE_USER_REGION_COUNT) +
     of_bool (\<not> address_space_region_is_valid (as_user_regions space ! 0) False True \<or>
        \<not> address_space_region_is_valid (as_user_regions space ! 1) True False \<or>
        \<not> address_space_region_is_valid (as_user_regions space ! 2) True False) +
     of_bool (as_user_code_start space < as_user_start space \<or> as_user_stack_end space > as_user_end space \<or>
        as_user_code_start space \<ge> as_user_code_end space \<or> as_user_data_start space \<ge> as_user_data_end space \<or>
        as_user_stack_start space \<ge> as_user_stack_end space) +
     of_bool (\<not> as_user_execute_ready space)"

section \<open>Life cycle\<close>

definition address_space_init :: "u64 \<Rightarrow> user_tables \<Rightarrow> address_space \<times> user_tables" where
  "address_space_init kernel_root_table t =
     (\<lparr>as_name = ''kernel'', as_kind = ADDRESS_SPACE_KERNEL, as_root_table = kernel_root_table,
       as_kernel_root_table = kernel_root_table, as_user_root_table = 0,
       as_active_root_table = kernel_root_table, as_target_root_table = kernel_root_table,
       as_user_table_slot = ADDRESS_SPACE_USER_TABLE_SLOTS, as_user_table_count = 0,
       as_user_start = 0, as_user_end = 0, as_user_code_start = 0, as_user_code_end = 0,
       as_user_data_start = 0, as_user_data_end = 0, as_user_stack_start = 0, as_user_stack_end = 0,
       as_user_image_entry = 0, as_user_image_size = 0, as_user_image_checksum = 0,
       as_user_mapping_count = 0, as_user_descriptor_count = 0, as_user_installed_descriptor_count = 0,
       as_user_regions = replicate ADDRESS_SPACE_USER_REGION_COUNT empty_region,
       as_shared_kernel_map = True, as_permission_split_ready = True, as_kernel_el0_access = False,
       as_user_el0_access = False, as_user_tables_ready = False, as_user_descriptors_ready = False,
       as_user_mappings_ready = False, as_user_image_ready = False, as_user_execute_ready = False,
       as_validation_ready = True, as_switch_ready = True,
       as_switch_status = ADDRESS_SPACE_SWITCH_ACTIVE,
       as_switch_stub_status = ADDRESS_SPACE_SWITCH_STUB_ACTIVE, as_validation_errors = 0\<rparr>,
      t\<lparr>ut_used := replicate ADDRESS_SPACE_USER_TABLE_SLOTS False\<rparr>)"

definition address_space_destroy_user :: "address_space \<Rightarrow> user_tables \<Rightarrow> address_space \<times> user_tables" where
  "address_space_destroy_user space t =
     (if as_kind space \<noteq> ADDRESS_SPACE_USER \<or> as_user_table_slot space \<ge> ADDRESS_SPACE_USER_TABLE_SLOTS
      then (space, t)
      else
        let slot = as_user_table_slot space in
        (space\<lparr>as_user_table_slot := ADDRESS_SPACE_USER_TABLE_SLOTS, as_user_tables_ready := False,
               as_user_descriptors_ready := False, as_user_mappings_ready := False,
               as_user_image_ready := False, as_user_execute_ready := False,
               as_validation_ready := False, as_switch_ready := False,
               as_switch_status := ADDRESS_SPACE_SWITCH_BLOCKED,
               as_switch_stub_status := ADDRESS_SPACE_SWITCH_STUB_BLOCKED\<rparr>,
         (clear_slot slot t)\<lparr>ut_used := (ut_used t)[slot := False]\<rparr>))"

text \<open>
  The set-up assigns every field of the structure, so its previous contents do not matter. It is cut
  in two at the call that installs the descriptors.
\<close>

definition user_space_base :: "as_env \<Rightarrow> string option \<Rightarrow> u64 \<Rightarrow> nat option \<Rightarrow> address_space" where
  "user_space_base env name kernel_root_table allocated =
     (let space =
        \<lparr>as_name = (case name of Some n \<Rightarrow> n | None \<Rightarrow> ''user''), as_kind = ADDRESS_SPACE_USER,
         as_root_table = kernel_root_table, as_kernel_root_table = kernel_root_table,
         as_user_root_table = (case allocated of Some s \<Rightarrow> l1_addr env s | None \<Rightarrow> 0),
         as_active_root_table = kernel_root_table,
         as_target_root_table = (case allocated of Some s \<Rightarrow> l1_addr env s | None \<Rightarrow> kernel_root_table),
         as_user_table_slot = (case allocated of Some s \<Rightarrow> s | None \<Rightarrow> ADDRESS_SPACE_USER_TABLE_SLOTS),
         as_user_table_count = (if allocated \<noteq> None then 5 else 0),
         as_user_start = ADDRESS_SPACE_USER_START, as_user_end = ADDRESS_SPACE_USER_END,
         as_user_code_start = ADDRESS_SPACE_USER_CODE_START, as_user_code_end = ADDRESS_SPACE_USER_CODE_END,
         as_user_data_start = ADDRESS_SPACE_USER_DATA_START, as_user_data_end = ADDRESS_SPACE_USER_DATA_END,
         as_user_stack_start = ADDRESS_SPACE_USER_STACK_START, as_user_stack_end = ADDRESS_SPACE_USER_STACK_END,
         as_user_image_entry = 0, as_user_image_size = 0, as_user_image_checksum = 0,
         as_user_mapping_count = 3, as_user_descriptor_count = ADDRESS_SPACE_USER_REGION_COUNT,
         as_user_installed_descriptor_count = 0, as_user_regions = [],
         as_shared_kernel_map = False, as_permission_split_ready = True, as_kernel_el0_access = False,
         as_user_el0_access = True, as_user_tables_ready = (allocated \<noteq> None),
         as_user_descriptors_ready = (allocated \<noteq> None), as_user_mappings_ready = False,
         as_user_image_ready = False, as_user_execute_ready = False, as_validation_ready = False,
         as_switch_ready = False, as_switch_status = ADDRESS_SPACE_SWITCH_BLOCKED,
         as_switch_stub_status = ADDRESS_SPACE_SWITCH_STUB_BLOCKED, as_validation_errors = 0\<rparr>
      in address_space_set_user_region 2 ''stack'' (as_user_stack_start space) (as_user_stack_end space)
           ADDRESS_SPACE_USER_DATA_ATTR True False
        (address_space_set_user_region 1 ''data'' (as_user_data_start space) (as_user_data_end space)
           ADDRESS_SPACE_USER_DATA_ATTR True False
        (address_space_set_user_region 0 ''code'' (as_user_code_start space) (as_user_code_end space)
           ADDRESS_SPACE_USER_CODE_ATTR False True
        (address_space_clear_user_regions space))))"

definition user_space_finish :: "nat \<Rightarrow> address_space \<Rightarrow> address_space" where
  "user_space_finish installed space =
     (let ready = (installed = as_user_descriptor_count space);
          space = space\<lparr>as_user_installed_descriptor_count := installed, as_user_mappings_ready := ready,
                        as_user_execute_ready := ready\<rparr>;
          errors = address_space_validate_user space;
          switch = (errors = 0 \<and> as_target_root_table space \<noteq> 0 \<and>
                    as_target_root_table space \<noteq> as_active_root_table space)
      in space\<lparr>as_validation_errors := errors, as_validation_ready := (errors = 0), as_switch_ready := switch,
               as_switch_status := (if switch then ADDRESS_SPACE_SWITCH_READY else ADDRESS_SPACE_SWITCH_BLOCKED),
               as_switch_stub_status :=
                 (if switch then ADDRESS_SPACE_SWITCH_STUB_READY else ADDRESS_SPACE_SWITCH_STUB_BLOCKED)\<rparr>)"

definition address_space_init_user ::
    "as_env \<Rightarrow> string option \<Rightarrow> u64 \<Rightarrow> user_tables \<Rightarrow> address_space \<times> user_tables" where
  "address_space_init_user env name kernel_root_table t =
     (let (allocated, t) = address_space_alloc_user_table_slot t;
          (installed, space, t) =
            address_space_install_user_descriptors env (user_space_base env name kernel_root_table allocated) t
      in (user_space_finish installed space, t))"

definition address_space_load_user_image ::
    "u8 list \<Rightarrow> u64 \<Rightarrow> u8 list \<Rightarrow> u64 \<Rightarrow> u64 \<Rightarrow> address_space \<Rightarrow> user_tables \<Rightarrow> bool \<times> address_space \<times> user_tables" where
  "address_space_load_user_image code code_size data data_size entry_offset space t =
     (if as_kind space \<noteq> ADDRESS_SPACE_USER \<or> as_user_table_slot space \<ge> ADDRESS_SPACE_USER_TABLE_SLOTS \<or>
         \<not> as_user_mappings_ready space \<or> code_size = 0 \<or> code_size > ARM64_PAGE_SIZE \<or>
         data_size > ARM64_PAGE_SIZE \<or> entry_offset \<ge> code_size \<or> entry_offset AND (4 - 1) \<noteq> 0
      then (False, space, t)
      else
        let slot = as_user_table_slot space;
            code_page = splice address_space_clear_page 0 (take (unat code_size) code);
            data_page = splice address_space_clear_page 0 (take (unat data_size) data)
        in (True,
            space\<lparr>as_user_image_entry := as_user_code_start space + entry_offset,
                  as_user_image_size := code_size,
                  as_user_image_checksum := address_space_checksum_bytes code_page (unat code_size),
                  as_user_image_ready := True\<rparr>,
            t\<lparr>ut_pages := (ut_pages t)[3 * slot := code_page, 3 * slot + 1 := data_page]\<rparr>))"

definition address_space_write_user_data ::
    "u64 \<Rightarrow> u8 list \<Rightarrow> u64 \<Rightarrow> address_space \<Rightarrow> user_tables \<Rightarrow> bool \<times> user_tables" where
  "address_space_write_user_data offset data sz space t =
     (if as_kind space \<noteq> ADDRESS_SPACE_USER \<or> as_user_table_slot space \<ge> ADDRESS_SPACE_USER_TABLE_SLOTS \<or>
         offset > ARM64_PAGE_SIZE \<or> sz > ARM64_PAGE_SIZE - offset
      then (False, t)
      else
        let k = 3 * as_user_table_slot space + 1 in
        (True, t\<lparr>ut_pages := (ut_pages t)[k := splice (ut_pages t ! k) (unat offset) (take (unat sz) data)]\<rparr>))"

section \<open>Names and the switch check\<close>

definition address_space_kind_name :: "address_space_kind \<Rightarrow> string" where
  "address_space_kind_name kind =
     (case kind of ADDRESS_SPACE_KERNEL \<Rightarrow> ''kernel'' | ADDRESS_SPACE_USER \<Rightarrow> ''user'')"

definition address_space_validation_state :: "address_space option \<Rightarrow> string" where
  "address_space_validation_state space =
     (case space of None \<Rightarrow> ''errors''
      | Some s \<Rightarrow> if \<not> as_validation_ready s \<or> as_validation_errors s \<noteq> 0 then ''errors'' else ''ok'')"

definition address_space_switch_state :: "address_space option \<Rightarrow> string" where
  "address_space_switch_state space =
     (case space of None \<Rightarrow> ''blocked''
      | Some s \<Rightarrow> (case as_switch_status s of
           ADDRESS_SPACE_SWITCH_ACTIVE \<Rightarrow> ''active'' | ADDRESS_SPACE_SWITCH_READY \<Rightarrow> ''ready''
         | ADDRESS_SPACE_SWITCH_BLOCKED \<Rightarrow> ''blocked''))"

definition address_space_switch_stub_state :: "address_space option \<Rightarrow> string" where
  "address_space_switch_stub_state space =
     (case space of None \<Rightarrow> ''blocked''
      | Some s \<Rightarrow> (case as_switch_stub_status s of
           ADDRESS_SPACE_SWITCH_STUB_ACTIVE \<Rightarrow> ''active'' | ADDRESS_SPACE_SWITCH_STUB_READY \<Rightarrow> ''ready''
         | ADDRESS_SPACE_SWITCH_STUB_BLOCKED \<Rightarrow> ''blocked''))"

definition address_space_switch_stub ::
    "address_space \<Rightarrow> address_space_switch_stub_status \<times> address_space" where
  "address_space_switch_stub space =
     (let status =
        (if as_switch_status space = ADDRESS_SPACE_SWITCH_ACTIVE then ADDRESS_SPACE_SWITCH_STUB_ACTIVE
         else if \<not> as_switch_ready space \<or> as_target_root_table space = 0 \<or> \<not> as_validation_ready space \<or>
                 as_validation_errors space \<noteq> 0
         then ADDRESS_SPACE_SWITCH_STUB_BLOCKED
         else ADDRESS_SPACE_SWITCH_STUB_READY)
      in (status, space\<lparr>as_switch_stub_status := status\<rparr>))"

section \<open>Physical layout\<close>

text \<open>
  The tables in physical memory: an address inside one of the static arrays reads the array's entry,
  any other address reads the kernel's own tables.
\<close>

definition in_array :: "u64 \<Rightarrow> nat \<Rightarrow> u64 \<Rightarrow> bool" where
  "in_array base n addr \<longleftrightarrow> unat base \<le> unat addr \<and> unat addr < unat base + n * 4096"

definition array_read :: "u64 list list \<Rightarrow> u64 \<Rightarrow> u64 \<Rightarrow> u64" where
  "array_read tables base addr =
     tables ! ((unat addr - unat base) div 4096) ! ((unat addr - unat base) mod 4096 div 8)"

definition as_read :: "as_env \<Rightarrow> user_tables \<Rightarrow> u64 \<Rightarrow> u64" where
  "as_read env t addr =
     (if in_array (l1_base env) 4 addr then array_read (ut_l1 t) (l1_base env) addr
      else if in_array (l2_base env) 4 addr then array_read (ut_l2 t) (l2_base env) addr
      else if in_array (l3_base env) 12 addr then array_read (ut_l3 t) (l3_base env) addr
      else kernel_read env addr)"

definition user_array :: "as_env \<Rightarrow> u64 \<Rightarrow> bool" where
  "user_array env addr \<longleftrightarrow>
     in_array (l1_base env) 4 addr \<or> in_array (l2_base env) 4 addr \<or> in_array (l3_base env) 12 addr"

definition array_ok :: "u64 \<Rightarrow> nat \<Rightarrow> bool" where
  "array_ok base n \<longleftrightarrow> 4096 dvd unat base \<and> 0 < unat base \<and> unat base + n * 4096 \<le> 2 ^ 48"

definition arrays_apart :: "u64 \<Rightarrow> nat \<Rightarrow> u64 \<Rightarrow> nat \<Rightarrow> bool" where
  "arrays_apart a n b k \<longleftrightarrow> unat a + n * 4096 \<le> unat b \<or> unat b + k * 4096 \<le> unat a"

text \<open>The linker places the four arrays page aligned, apart from each other and below 2^48.\<close>

definition env_ok :: "as_env \<Rightarrow> bool" where
  "env_ok env \<longleftrightarrow>
     array_ok (l1_base env) 4 \<and> array_ok (l2_base env) 4 \<and> array_ok (l3_base env) 12 \<and> array_ok (page_base env) 12 \<and>
     arrays_apart (l1_base env) 4 (l2_base env) 4 \<and> arrays_apart (l1_base env) 4 (l3_base env) 12 \<and>
     arrays_apart (l2_base env) 4 (l3_base env) 12"

definition user_tables_ok :: "user_tables \<Rightarrow> bool" where
  "user_tables_ok t \<longleftrightarrow>
     length (ut_l1 t) = 4 \<and> length (ut_l2 t) = 4 \<and> length (ut_l3 t) = 12 \<and> length (ut_pages t) = 12 \<and>
     length (ut_used t) = 4 \<and>
     (\<forall>l\<in>set (ut_l1 t). length l = 512) \<and> (\<forall>l\<in>set (ut_l2 t). length l = 512) \<and>
     (\<forall>l\<in>set (ut_l3 t). length l = 512) \<and> (\<forall>p\<in>set (ut_pages t). length p = 4096)"

lemma array_elem:
  assumes "array_ok base n" "k < n"
  shows "unat (base + of_nat (k * 4096)) = unat base + k * 4096" "frame_ok (base + of_nat (k * 4096))"
    "base + of_nat (k * 4096) \<noteq> 0"
proof -
  have small: "k * 4096 < 2 ^ 48" "unat base + k * 4096 < 2 ^ 48" "unat base > 0"
    using assms by (auto simp: array_ok_def)
  have k: "unat (of_nat (k * 4096) :: u64) = k * 4096" using small(1) unfolding unat_of_nat by (simp add: take_bit_nat_eq_self)
  show u: "unat (base + of_nat (k * 4096)) = unat base + k * 4096"
    by (subst unat_add_no_wrap) (use small k in simp_all)
  show "frame_ok (base + of_nat (k * 4096))"
    by (rule frame_okI) (use u small assms in \<open>simp_all add: array_ok_def\<close>)
  show "base + of_nat (k * 4096) \<noteq> 0" using u small(3) by (metis add_gr_0 less_irrefl unat_0)
qed

lemma array_entry:
  assumes "array_ok base n" "k < n" "unat i < 512"
  shows "in_array base n (base + of_nat (k * 4096) + 8 * i)"
    "unat (base + of_nat (k * 4096) + 8 * i) = unat base + k * 4096 + 8 * unat i"
    "array_read tables base (base + of_nat (k * 4096) + 8 * i) = tables ! k ! unat i"
proof -
  note e = array_elem [OF assms(1,2)]
  have b: "unat base + n * 4096 \<le> 2 ^ 48" using assms(1) by (simp add: array_ok_def)
  have i: "unat (8 * i) = 8 * unat i" using assms(3) by (simp add: unat_word_ariths)
  have lim: "unat base + k * 4096 + 8 * unat i < unat base + n * 4096"
  proof -
    have "k * 4096 + 4096 \<le> n * 4096" using assms(2) by simp
    then show ?thesis using assms(3) by linarith
  qed
  show u: "unat (base + of_nat (k * 4096) + 8 * i) = unat base + k * 4096 + 8 * unat i"
    by (subst unat_add_no_wrap) (use e(1) i lim b in simp_all)
  show "in_array base n (base + of_nat (k * 4096) + 8 * i)" using lim by (simp only: in_array_def u) simp
  have "8 * unat i < 4096" using assms(3) by simp
  then show "array_read tables base (base + of_nat (k * 4096) + 8 * i) = tables ! k ! unat i"
    unfolding array_read_def u by simp
qed

lemma in_array_apart: "arrays_apart a n b k \<Longrightarrow> in_array b k addr \<Longrightarrow> \<not> in_array a n addr"
  by (auto simp: arrays_apart_def in_array_def)

lemma as_read_tables:
  assumes "env_ok env" "s < 4" "unat i < 512"
  shows "as_read env t (l1_addr env s + 8 * i) = ut_l1 t ! s ! unat i"
    "as_read env t (l2_addr env s + 8 * i) = ut_l2 t ! s ! unat i"
    "r < 3 \<Longrightarrow> as_read env t (l3_addr env s r + 8 * i) = ut_l3 t ! (3 * s + r) ! unat i"
proof -
  have e: "array_ok (l1_base env) 4" "array_ok (l2_base env) 4" "array_ok (l3_base env) 12"
    and apart: "arrays_apart (l1_base env) 4 (l2_base env) 4" "arrays_apart (l1_base env) 4 (l3_base env) 12"
      "arrays_apart (l2_base env) 4 (l3_base env) 12"
    using assms(1) by (simp_all add: env_ok_def)
  show "as_read env t (l1_addr env s + 8 * i) = ut_l1 t ! s ! unat i"
    using array_entry [OF e(1) assms(2,3)] by (simp only: as_read_def l1_addr_def if_True)
  show "as_read env t (l2_addr env s + 8 * i) = ut_l2 t ! s ! unat i"
    using array_entry [OF e(2) assms(2,3)] in_array_apart [OF apart(1)]
    by (simp only: as_read_def l2_addr_def if_True if_False)
  assume "r < 3"
  then have "3 * s + r < 12" using assms(2) by simp
  from array_entry [OF e(3) this assms(3)] in_array_apart [OF apart(2)] in_array_apart [OF apart(3)]
  show "as_read env t (l3_addr env s r + 8 * i) = ut_l3 t ! (3 * s + r) ! unat i"
    by (simp only: as_read_def l3_addr_def if_True if_False)
qed

lemma table_frames:
  assumes "env_ok env" "s < 4"
  shows "frame_ok (l1_addr env s)" "l1_addr env s \<noteq> 0" "frame_ok (l2_addr env s)"
    "r < 3 \<Longrightarrow> frame_ok (l3_addr env s r)" "r < 3 \<Longrightarrow> frame_ok (region_page_addr env s r)"
  using assms array_elem [of _ 4 s] array_elem [of _ 12 "3 * s + r"]
  by (auto simp: env_ok_def l1_addr_def l2_addr_def l3_addr_def region_page_addr_def)

section \<open>Setting up a user space\<close>

lemmas region_indices [simp] =
  arm64_mmu_l2_index_def [of "0x100000"] arm64_mmu_l2_index_def [of "0x200000"] arm64_mmu_l2_index_def [of "0x3fff0000"]
  arm64_mmu_l3_index_def [of "0x100000"] arm64_mmu_l3_index_def [of "0x200000"] arm64_mmu_l3_index_def [of "0x3fff0000"]

text \<open>The attributes, level-2 and level-3 indices of the three regions.\<close>

definition region_attr :: "nat \<Rightarrow> u64" where
  "region_attr r = (if r = 0 then ADDRESS_SPACE_USER_CODE_ATTR else ADDRESS_SPACE_USER_DATA_ATTR)"

definition kernel_map_ok :: "as_env \<Rightarrow> u64 \<Rightarrow> bool" where
  "kernel_map_ok env root \<longleftrightarrow>
     root \<noteq> 0 \<and> arm64_mmu_desc_is_table (kernel_read env root) \<and> \<not> user_array env root"

definition user_l1 :: "as_env \<Rightarrow> nat \<Rightarrow> u64 \<Rightarrow> u64 list" where
  "user_l1 env s root =
     arm64_mmu_table_desc (l2_addr env s) # map (\<lambda>i. kernel_read env (root + 8 * of_nat i)) [1..<512]"

definition user_l2 :: "as_env \<Rightarrow> nat \<Rightarrow> u64 \<Rightarrow> u64 list" where
  "user_l2 env s root =
     (map (\<lambda>i. kernel_read env (arm64_mmu_desc_address (kernel_read env root) + 8 * of_nat i)) [0..<512])
       [0 := arm64_mmu_table_desc (l3_addr env s 0), 1 := arm64_mmu_table_desc (l3_addr env s 1),
        511 := arm64_mmu_table_desc (l3_addr env s 2)]"

definition user_l3 :: "as_env \<Rightarrow> nat \<Rightarrow> nat \<Rightarrow> nat \<Rightarrow> u64 list" where
  "user_l3 env s r i =
     address_space_clear_table[i := arm64_mmu_l3_page_desc (region_page_addr env s r) (region_attr r)]"

lemma upt_three: "[0..<3] = [0, 1, 2::nat]"
  by (simp add: upt_rec numeral_2_eq_2 numeral_3_eq_3)

text \<open>The space as it is when the descriptors are installed, and after the set-up.\<close>

definition user_space_fields :: "as_env \<Rightarrow> nat \<Rightarrow> u64 \<Rightarrow> address_space \<Rightarrow> bool" where
  "user_space_fields env s root space \<longleftrightarrow>
     as_kind space = ADDRESS_SPACE_USER \<and> as_user_table_slot space = s \<and> as_kernel_root_table space = root \<and>
     as_user_root_table space = l1_addr env s \<and> as_user_descriptor_count space = 3 \<and>
     as_user_code_start space = ADDRESS_SPACE_USER_CODE_START \<and>
     as_user_regions space =
       [\<lparr>ur_name = Some ''code'', ur_start = ADDRESS_SPACE_USER_CODE_START, ur_end = ADDRESS_SPACE_USER_CODE_END,
         ur_attributes = ADDRESS_SPACE_USER_CODE_ATTR, ur_user_access = True, ur_writable = False, ur_executable = True\<rparr>,
        \<lparr>ur_name = Some ''data'', ur_start = ADDRESS_SPACE_USER_DATA_START, ur_end = ADDRESS_SPACE_USER_DATA_END,
         ur_attributes = ADDRESS_SPACE_USER_DATA_ATTR, ur_user_access = True, ur_writable = True, ur_executable = False\<rparr>,
        \<lparr>ur_name = Some ''stack'', ur_start = ADDRESS_SPACE_USER_STACK_START, ur_end = ADDRESS_SPACE_USER_STACK_END,
         ur_attributes = ADDRESS_SPACE_USER_DATA_ATTR, ur_user_access = True, ur_writable = True, ur_executable = False\<rparr>]"

lemma install_user_descriptors_eq:
  assumes "user_space_fields env s root space" "s < 4" "kernel_map_ok env root"
  shows "address_space_install_user_descriptors env space t =
    (3, space\<lparr>as_shared_kernel_map := True\<rparr>,
     t\<lparr>ut_l1 := (ut_l1 t)[s := user_l1 env s root], ut_l2 := (ut_l2 t)[s := user_l2 env s root],
       ut_l3 := (ut_l3 t)[3 * s := user_l3 env s 0 256, 3 * s + 1 := user_l3 env s 1 0, 3 * s + 2 := user_l3 env s 2 496]\<rparr>)"
  using assms
  by (simp add: address_space_install_user_descriptors_def user_space_fields_def
      address_space_install_shared_kernel_map_def install_region_def kernel_map_ok_def Let_def
      user_l1_def user_l2_def user_l3_def region_attr_def upt_three del: upt_rec_numeral)

lemma clear_slot_eq:
  "clear_slot s t =
    t\<lparr>ut_l1 := (ut_l1 t)[s := address_space_clear_table], ut_l2 := (ut_l2 t)[s := address_space_clear_table],
      ut_l3 := (ut_l3 t)[3 * s := address_space_clear_table, 3 * s + 1 := address_space_clear_table,
        3 * s + 2 := address_space_clear_table],
      ut_pages := (ut_pages t)[3 * s := address_space_clear_page, 3 * s + 1 := address_space_clear_page,
        3 * s + 2 := address_space_clear_page]\<rparr>"
  by (simp add: clear_slot_def upt_three del: upt_rec_numeral)

lemma init_user_eq:
  assumes "find_slot (\<lambda>used. \<not> used) (ut_used t) = Some s" "s < 4" "kernel_map_ok env root" "env_ok env"
  obtains space where "address_space_init_user env name root t =
    (space, t\<lparr>ut_l1 := (ut_l1 t)[s := user_l1 env s root], ut_l2 := (ut_l2 t)[s := user_l2 env s root],
      ut_l3 := (ut_l3 t)[3 * s := user_l3 env s 0 256, 3 * s + 1 := user_l3 env s 1 0, 3 * s + 2 := user_l3 env s 2 496],
      ut_pages := (ut_pages t)[3 * s := address_space_clear_page, 3 * s + 1 := address_space_clear_page,
        3 * s + 2 := address_space_clear_page],
      ut_used := (ut_used t)[s := True]\<rparr>)"
    "user_space_fields env s root space" "as_validation_errors space = 0" "as_validation_ready space"
    "as_switch_ready space" "as_user_mappings_ready space" "as_target_root_table space = l1_addr env s"
    "as_user_execute_ready space" "as_shared_kernel_map space" "\<not> as_user_image_ready space"
proof -
  have ne: "l1_addr env s \<noteq> 0" "l1_addr env s \<noteq> root"
  proof -
    show "l1_addr env s \<noteq> 0" by (rule table_frames(2) [OF assms(4,2)])
    have "in_array (l1_base env) 4 (l1_addr env s + 8 * 0)"
      unfolding l1_addr_def by (rule array_entry) (use assms(2,4) in \<open>simp_all add: env_ok_def\<close>)
    then show "l1_addr env s \<noteq> root" using assms(3) by (auto simp: kernel_map_ok_def user_array_def)
  qed
  have swap: "xs[a := u, b := v, c := w, a := x, b := y, c := z] = xs[a := x, b := y, c := z]"
    if "a \<noteq> b" "a \<noteq> c" "b \<noteq> c" for xs :: "u64 list list" and a b c u v w x y z
    using that by (simp add: list_update_swap [of c a] list_update_swap [of b a] list_update_swap [of c b])
  let ?b = "user_space_base env name root (Some s)"
  have base: "user_space_fields env s root ?b"
    by (simp add: user_space_base_def Let_def user_space_fields_def address_space_set_user_region_def
        address_space_clear_user_regions_def numeral_3_eq_3)
  have rest: "as_target_root_table ?b = l1_addr env s" "as_active_root_table ?b = root"
    "as_permission_split_ready ?b" "\<not> as_kernel_el0_access ?b" "as_user_el0_access ?b" "as_user_tables_ready ?b"
    "as_user_descriptors_ready ?b" "as_user_table_count ?b = 5" "as_user_mapping_count ?b = 3"
    "\<not> as_user_image_ready ?b" "as_user_start ?b = ADDRESS_SPACE_USER_START"
    "as_user_end ?b = ADDRESS_SPACE_USER_END" "as_user_code_end ?b = ADDRESS_SPACE_USER_CODE_END"
    "as_user_data_start ?b = ADDRESS_SPACE_USER_DATA_START" "as_user_data_end ?b = ADDRESS_SPACE_USER_DATA_END"
    "as_user_stack_start ?b = ADDRESS_SPACE_USER_STACK_START" "as_user_stack_end ?b = ADDRESS_SPACE_USER_STACK_END"
    by (simp_all add: user_space_base_def Let_def address_space_set_user_region_def address_space_clear_user_regions_def)
  let ?f = "user_space_finish 3 (?b\<lparr>as_shared_kernel_map := True\<rparr>)"
  have valid: "address_space_validate_user (?b\<lparr>as_shared_kernel_map := True, as_user_installed_descriptor_count := 3,
      as_user_mappings_ready := True, as_user_execute_ready := True\<rparr>) = 0"
    using base rest assms(2) ne
    by (simp add: address_space_validate_user_def address_space_region_is_valid_def user_space_fields_def)
  have eq: "address_space_init_user env name root t =
    (?f, t\<lparr>ut_l1 := (ut_l1 t)[s := user_l1 env s root], ut_l2 := (ut_l2 t)[s := user_l2 env s root],
      ut_l3 := (ut_l3 t)[3 * s := user_l3 env s 0 256, 3 * s + 1 := user_l3 env s 1 0, 3 * s + 2 := user_l3 env s 2 496],
      ut_pages := (ut_pages t)[3 * s := address_space_clear_page, 3 * s + 1 := address_space_clear_page,
        3 * s + 2 := address_space_clear_page],
      ut_used := (ut_used t)[s := True]\<rparr>)"
    unfolding address_space_init_user_def address_space_alloc_user_table_slot_def assms(1) option.case prod.case Let_def
      install_user_descriptors_eq [OF base assms(2,3)]
    by (simp add: clear_slot_eq swap)
  show thesis
    by (rule that [OF eq]) (use base rest ne valid in \<open>simp_all add: user_space_finish_def user_space_fields_def Let_def\<close>)
qed

section \<open>The walk through a user space\<close>

text \<open>The user page a virtual address falls in: the first page of each region.\<close>

definition user_page_index :: "u64 \<Rightarrow> nat option" where
  "user_page_index va =
     (if ADDRESS_SPACE_USER_CODE_START \<le> va \<and> va < ADDRESS_SPACE_USER_CODE_START + 0x1000 then Some 0
      else if ADDRESS_SPACE_USER_DATA_START \<le> va \<and> va < ADDRESS_SPACE_USER_DATA_START + 0x1000 then Some 1
      else if ADDRESS_SPACE_USER_STACK_START \<le> va \<and> va < ADDRESS_SPACE_USER_STACK_START + 0x1000 then Some 2
      else None)"

lemma unat_and_511: "unat (x AND (512 - 1) :: u64) = unat x mod 512"
proof -
  have "(512 - 1 :: u64) = mask 9" by (simp add: mask_eq_exp_minus_1)
  then show ?thesis
    by (simp only: take_bit_eq_mask [symmetric] unsigned_take_bit_eq) (simp add: take_bit_eq_mod)
qed

lemma unat_index:
  "unat (arm64_mmu_l1_index va) = unat va div 2 ^ 30 mod 512"
  "unat (arm64_mmu_l2_index va) = unat va div 2 ^ 21 mod 512"
  "unat (arm64_mmu_l3_index va) = unat va div 2 ^ 12 mod 512"
  unfolding arm64_mmu_l1_index_def arm64_mmu_l2_index_def arm64_mmu_l3_index_def unat_and_511 unat_drop_bit_eq
  by (simp_all add: drop_bit_eq_div)

lemma unat_index_less:
  "unat (arm64_mmu_l1_index va) < 512" "unat (arm64_mmu_l2_index va) < 512" "unat (arm64_mmu_l3_index va) < 512"
  by (simp_all add: unat_index)

lemma l1_index_low: "unat va < 2 ^ 30 \<Longrightarrow> arm64_mmu_l1_index va = 0"
  by (simp add: word_unat_eq_iff unat_index)

definition l2_slot :: "nat \<Rightarrow> nat" where "l2_slot r = (if r = 0 then 0 else if r = 1 then 1 else 511)"
definition l3_slot :: "nat \<Rightarrow> nat" where "l3_slot r = (if r = 0 then 256 else if r = 1 then 0 else 496)"

lemma user_page_index_iff:
  assumes "unat va < 2 ^ 30" "r < 3"
  shows "user_page_index va = Some r \<longleftrightarrow>
    unat (arm64_mmu_l2_index va) = l2_slot r \<and> unat (arm64_mmu_l3_index va) = l3_slot r"
proof -
  define n where "n = unat va div 4096"
  have range: "(a \<le> va \<and> va < a + 0x1000) \<longleftrightarrow> n = k" if "unat a = k * 4096" "unat (a + 0x1000) = k * 4096 + 4096" for a k
    using that unfolding word_le_nat_alt word_less_nat_alt n_def by (auto simp: div_nat_eqI)
  have l: "unat (arm64_mmu_l2_index va) = n div 512" "unat (arm64_mmu_l3_index va) = n mod 512" "n < 2 ^ 18"
    using assms(1) by (simp_all add: unat_index n_def div_mult2_eq [symmetric])
  have "user_page_index va = (if n = 256 then Some 0 else if n = 512 then Some 1 else if n = 262128 then Some 2 else None)"
    unfolding user_page_index_def
    using range [of ADDRESS_SPACE_USER_CODE_START 256] range [of ADDRESS_SPACE_USER_DATA_START 512]
      range [of ADDRESS_SPACE_USER_STACK_START 262128] by simp
  moreover have "r = 0 \<or> r = 1 \<or> r = 2" using assms(2) by auto
  moreover have "n = n div 512 * 512 + n mod 512" by (simp only: div_mult_mod_eq)
  then have "n = 256 \<longleftrightarrow> n div 512 = 0 \<and> n mod 512 = 256" "n = 512 \<longleftrightarrow> n div 512 = 1 \<and> n mod 512 = 0"
    "n = 262128 \<longleftrightarrow> n div 512 = 511 \<and> n mod 512 = 496" by (auto; linarith)+
  ultimately show ?thesis
    unfolding l l2_slot_def l3_slot_def by (elim disjE) simp_all
qed

text \<open>
  The kernel's tables lie outside the arrays of the user tables, so a walk through the kernel map
  never reads one of them.
\<close>

definition kernel_tables_outside :: "as_env \<Rightarrow> u64 \<Rightarrow> bool" where
  "kernel_tables_outside env root \<longleftrightarrow>
     (\<forall>va. let d1 = kernel_read env (root + 8 * arm64_mmu_l1_index va);
               d2 = kernel_read env (arm64_mmu_desc_address d1 + 8 * arm64_mmu_l2_index va)
           in arm64_mmu_desc_is_table d1 \<longrightarrow>
              \<not> user_array env (arm64_mmu_desc_address d1 + 8 * arm64_mmu_l2_index va) \<and>
              (arm64_mmu_desc_is_table d2 \<longrightarrow>
               \<not> user_array env (arm64_mmu_desc_address d2 + 8 * arm64_mmu_l3_index va)))"

lemma as_read_kernel: "\<not> user_array env a \<Longrightarrow> as_read env t a = kernel_read env a"
  by (simp add: as_read_def user_array_def)

lemma region_attr_ok: "attr_ok (region_attr r)"
  by (simp add: attr_ok_def region_attr_def ADDRESS_SPACE_USER_CODE_ATTR_def ADDRESS_SPACE_USER_DATA_ATTR_def
      ARM64_NORMAL_MEMORY_ATTR_def push_bit_eq_mult)

lemma zero_desc: "\<not> arm64_mmu_desc_is_l3_page 0"
  by (simp add: arm64_mmu_desc_is_l3_page_def)

lemma user_l2_nth:
  assumes "i < 512"
  shows "user_l2 env s root ! i =
    (if i = 0 then arm64_mmu_table_desc (l3_addr env s 0) else if i = 1 then arm64_mmu_table_desc (l3_addr env s 1)
     else if i = 511 then arm64_mmu_table_desc (l3_addr env s 2)
     else kernel_read env (arm64_mmu_desc_address (kernel_read env root) + 8 * of_nat i))"
  using assms by (simp add: user_l2_def nth_list_update del: upt_rec_numeral)

lemma user_l1_nth:
  assumes "0 < unat i" "unat i < 512"
  shows "user_l1 env s root ! unat i = kernel_read env (root + 8 * i)"
proof -
  obtain k where k: "unat i = Suc k" using assms(1) by (cases "unat i") simp_all
  have "of_nat (Suc k) = i" by (subst k [symmetric]) simp
  then show ?thesis using assms(2) k by (simp add: user_l1_def del: upt_rec_numeral of_nat_Suc)
qed

lemma user_l3_nth:
  "i < 512 \<Longrightarrow> user_l3 env s r k ! i =
     (if i = k then arm64_mmu_l3_page_desc (region_page_addr env s r) (region_attr r) else 0)"
  by (simp add: user_l3_def address_space_clear_table_def nth_list_update)

text \<open>The tables of a slot as the set-up leaves them.\<close>

definition slot_mapped :: "as_env \<Rightarrow> nat \<Rightarrow> u64 \<Rightarrow> user_tables \<Rightarrow> bool" where
  "slot_mapped env s root t \<longleftrightarrow>
     ut_l1 t ! s = user_l1 env s root \<and> ut_l2 t ! s = user_l2 env s root \<and>
     (\<forall>r<3. ut_l3 t ! (3 * s + r) = user_l3 env s r (l3_slot r))"

lemma slot_l2_desc:
  assumes "env_ok env" "s < 4" "slot_mapped env s root t" "unat va < 2 ^ 30"
  shows "arm64_mmu_desc_is_table (as_read env t (l1_addr env s + 8 * arm64_mmu_l1_index va))"
    "as_read env t (arm64_mmu_desc_address (as_read env t (l1_addr env s + 8 * arm64_mmu_l1_index va)) +
       8 * arm64_mmu_l2_index va) = user_l2 env s root ! unat (arm64_mmu_l2_index va)"
proof -
  note td = table_desc_roundtrip [OF table_frames(3) [OF assms(1,2)]]
  have d: "as_read env t (l1_addr env s + 8 * arm64_mmu_l1_index va) = arm64_mmu_table_desc (l2_addr env s)"
    using as_read_tables(1) [OF assms(1,2) unat_index_less(1), of t va] assms(3)
    by (simp add: l1_index_low [OF assms(4)] slot_mapped_def user_l1_def del: upt_rec_numeral)
  show "arm64_mmu_desc_is_table (as_read env t (l1_addr env s + 8 * arm64_mmu_l1_index va))"
    unfolding d by (rule td(2))
  show "as_read env t (arm64_mmu_desc_address (as_read env t (l1_addr env s + 8 * arm64_mmu_l1_index va)) +
       8 * arm64_mmu_l2_index va) = user_l2 env s root ! unat (arm64_mmu_l2_index va)"
    unfolding d td(1) as_read_tables(2) [OF assms(1,2) unat_index_less(2)]
    using assms(3) by (simp add: slot_mapped_def)
qed

lemma table_not_block: "arm64_mmu_desc_is_table d \<Longrightarrow> \<not> arm64_mmu_desc_is_l2_block d"
  by (auto simp: arm64_mmu_desc_is_table_def arm64_mmu_desc_is_l2_block_def)

lemma walk_region:
  assumes "env_ok env" "s < 4" "slot_mapped env s root t" "unat va < 2 ^ 30" "r < 3"
    and slot: "unat (arm64_mmu_l2_index va) = l2_slot r"
  shows "mmu_walk (as_read env t) (l1_addr env s) va =
    (if unat (arm64_mmu_l3_index va) = l3_slot r
     then Some (region_page_addr env s r OR (va AND (ARM64_PAGE_SIZE - 1)),
                arm64_mmu_l3_page_desc (region_page_addr env s r) (region_attr r))
     else None)"
proof -
  note l2 = slot_l2_desc [OF assms(1-4)]
  note td = table_desc_roundtrip [OF table_frames(4) [OF assms(1,2,5)]]
  note pd = l3_page_roundtrip [OF table_frames(5) [OF assms(1,2,5)] region_attr_ok [of r]]
  have "r = 0 \<or> r = 1 \<or> r = 2" using assms(5) by auto
  then have d2: "user_l2 env s root ! unat (arm64_mmu_l2_index va) = arm64_mmu_table_desc (l3_addr env s r)"
    unfolding slot using user_l2_nth [of "l2_slot r" env s root] by (auto simp: l2_slot_def)
  have d3: "as_read env t (l3_addr env s r + 8 * arm64_mmu_l3_index va) =
      user_l3 env s r (l3_slot r) ! unat (arm64_mmu_l3_index va)"
    unfolding as_read_tables(3) [OF assms(1,2) unat_index_less(3) assms(5)]
    using assms(3,5) by (simp add: slot_mapped_def)
  show ?thesis
    unfolding mmu_walk_def Let_def l2(2) d2 td(1) d3 user_l3_nth [OF unat_index_less(3)]
    using l2(1) td(2) table_not_block [OF td(2)] pd zero_desc by simp
qed

lemma walk_other:
  assumes "env_ok env" "s < 4" "slot_mapped env s root t" "unat va < 2 ^ 32"
    and "kernel_map_ok env root" "kernel_tables_outside env root"
    and slot: "\<not> (unat va < 2 ^ 30 \<and> unat (arm64_mmu_l2_index va) \<in> {0, 1, 511})"
  shows "mmu_walk (as_read env t) (l1_addr env s) va = mmu_walk (kernel_read env) root va"
proof -
  let ?e = "kernel_read env (root + 8 * arm64_mmu_l1_index va)"
  let ?d = "kernel_read env (arm64_mmu_desc_address ?e + 8 * arm64_mmu_l2_index va)"
  have out: "as_read env t (arm64_mmu_desc_address ?e + 8 * arm64_mmu_l2_index va) = ?d"
    if "arm64_mmu_desc_is_table ?e"
    by (rule as_read_kernel) (use assms(6) that in \<open>simp add: kernel_tables_outside_def Let_def\<close>)
  have d3: "as_read env t (arm64_mmu_desc_address ?d + 8 * arm64_mmu_l3_index va) =
      kernel_read env (arm64_mmu_desc_address ?d + 8 * arm64_mmu_l3_index va)"
    if "arm64_mmu_desc_is_table ?e" "arm64_mmu_desc_is_table ?d"
    by (rule as_read_kernel) (use assms(6) that in \<open>simp add: kernel_tables_outside_def Let_def\<close>)
  show ?thesis
  proof (cases "unat va < 2 ^ 30")
    case True
    note l2 = slot_l2_desc [OF assms(1-3) True]
    have e: "?e = kernel_read env root" by (simp add: l1_index_low [OF True])
    have d2: "user_l2 env s root ! unat (arm64_mmu_l2_index va) = ?d"
      unfolding user_l2_nth [OF unat_index_less(2)] e using slot True by simp
    have k: "arm64_mmu_desc_is_table ?e" using assms(5) by (simp add: kernel_map_ok_def e)
    show ?thesis
      unfolding mmu_walk_def Let_def l2(2) d2 using l2(1) d3 k by (simp cong: if_cong)
  next
    case False
    have "unat va div 2 ^ 30 < 512" "0 < unat va div 2 ^ 30"
      using assms(4) False by (simp_all add: div_greater_zero_iff less_mult_imp_div_less)
    then have i: "0 < unat (arm64_mmu_l1_index va)" unfolding unat_index by (simp only: mod_less)
    have e: "as_read env t (l1_addr env s + 8 * arm64_mmu_l1_index va) = ?e"
      unfolding as_read_tables(1) [OF assms(1,2) unat_index_less(1)]
      using assms(3) user_l1_nth [OF i unat_index_less(1)] by (simp add: slot_mapped_def)
    show ?thesis
      unfolding mmu_walk_def Let_def e using out d3 by (simp cong: if_cong)
  qed
qed

lemma init_user_mapped:
  assumes "env_ok env" "user_tables_ok t" "find_slot (\<lambda>used. \<not> used) (ut_used t) = Some s"
    and "kernel_map_ok env root" "address_space_init_user env name root t = (space, t')"
  shows "s < 4" "slot_mapped env s root t'" "user_space_fields env s root space" "user_tables_ok t'"
proof -
  show s: "s < 4" using find_slot_SomeD [OF assms(3)] assms(2) by (simp add: user_tables_ok_def)
  obtain sp where e: "address_space_init_user env name root t =
    (sp, t\<lparr>ut_l1 := (ut_l1 t)[s := user_l1 env s root], ut_l2 := (ut_l2 t)[s := user_l2 env s root],
      ut_l3 := (ut_l3 t)[3 * s := user_l3 env s 0 256, 3 * s + 1 := user_l3 env s 1 0, 3 * s + 2 := user_l3 env s 2 496],
      ut_pages := (ut_pages t)[3 * s := address_space_clear_page, 3 * s + 1 := address_space_clear_page,
        3 * s + 2 := address_space_clear_page],
      ut_used := (ut_used t)[s := True]\<rparr>)" "user_space_fields env s root sp"
    by (rule init_user_eq [OF assms(3) s assms(4,1)])
  then show "user_space_fields env s root space" using assms(5) by simp
  have eq: "t' = t\<lparr>ut_l1 := (ut_l1 t)[s := user_l1 env s root], ut_l2 := (ut_l2 t)[s := user_l2 env s root],
      ut_l3 := (ut_l3 t)[3 * s := user_l3 env s 0 256, 3 * s + 1 := user_l3 env s 1 0, 3 * s + 2 := user_l3 env s 2 496],
      ut_pages := (ut_pages t)[3 * s := address_space_clear_page, 3 * s + 1 := address_space_clear_page,
        3 * s + 2 := address_space_clear_page],
      ut_used := (ut_used t)[s := True]\<rparr>" using e(1) assms(5) by simp
  have three: "r = 0 \<or> r = 1 \<or> r = 2" if "r < 3" for r :: nat using that by auto
  show "slot_mapped env s root t'"
    using assms(2) s unfolding slot_mapped_def eq user_tables_ok_def
    by (auto dest!: three simp: l3_slot_def nth_list_update)
  show "user_tables_ok t'"
    using assms(2) unfolding eq user_tables_ok_def
    by (auto dest!: set_update_subset_insert [THEN subsetD]
        simp: user_l1_def user_l2_def user_l3_def address_space_clear_table_def address_space_clear_page_def
        simp del: upt_rec_numeral)
qed

section \<open>Operations leave other slots alone\<close>

text \<open>Everything that belongs to one slot: its tables, its pages, its flag.\<close>

definition slot_view :: "nat \<Rightarrow> user_tables \<Rightarrow> u64 list \<times> u64 list \<times> u64 list list \<times> u8 list list \<times> bool" where
  "slot_view s t = (ut_l1 t ! s, ut_l2 t ! s, map (\<lambda>r. ut_l3 t ! (3 * s + r)) [0..<3],
     map (\<lambda>r. ut_pages t ! (3 * s + r)) [0..<3], ut_used t ! s)"

lemma other_slot: "s \<noteq> s' \<Longrightarrow> r < 3 \<Longrightarrow> i < 3 \<Longrightarrow> 3 * s + r \<noteq> 3 * s' + (i :: nat)"
  by linarith

lemma slot_view_mapped: "slot_view s t = slot_view s t' \<Longrightarrow> slot_mapped env s root t = slot_mapped env s root t'"
  by (auto simp: slot_view_def slot_mapped_def)

lemma install_regions_other:
  assumes "fold (install_region env slot space) is (a, l2, l3s) = (a', l2', l3s')" "s \<noteq> slot" "r < 3"
  shows "l3s' ! (3 * s + r) = l3s ! (3 * s + r)"
  using assms(1)
proof (induction "is" arbitrary: a l2 l3s)
  case (Cons i "is")
  obtain b m n where st: "install_region env slot space i (a, l2, l3s) = (b, m, n)" by (cases "install_region env slot space i (a, l2, l3s)")
  have "n ! (3 * s + r) = l3s ! (3 * s + r)"
    using st other_slot [OF assms(2) [symmetric] _ assms(3)] by (auto simp: install_region_def Let_def not_le split: if_splits)
  with Cons st show ?case by simp
qed simp

lemma alloc_slot_other:
  assumes "ut_used t ! s"
  shows "slot_view s (snd (address_space_alloc_user_table_slot t)) = slot_view s t"
    "fst (address_space_alloc_user_table_slot t) \<noteq> Some s"
proof -
  have "find_slot (\<lambda>used. \<not> used) (ut_used t) \<noteq> Some s" using assms by (auto simp: find_slot_Some_iff)
  then show "fst (address_space_alloc_user_table_slot t) \<noteq> Some s"
    "slot_view s (snd (address_space_alloc_user_table_slot t)) = slot_view s t"
    using other_slot [of _ s]
    by (auto simp: address_space_alloc_user_table_slot_def clear_slot_eq slot_view_def nth_list_update split: option.splits)
qed

lemma install_descriptors_other:
  assumes "as_user_table_slot space \<noteq> s"
  shows "slot_view s (snd (snd (address_space_install_user_descriptors env space t))) = slot_view s t"
  using assms install_regions_other [of env "as_user_table_slot space" _ _ _ _ _ _ _ _ s]
  by (auto simp: address_space_install_user_descriptors_def slot_view_def Let_def split: prod.splits)

lemma init_user_other:
  assumes "s < 4" "ut_used t ! s"
  shows "slot_view s (snd (address_space_init_user env name root t)) = slot_view s t"
    "as_user_table_slot (fst (address_space_init_user env name root t)) \<noteq> s"
proof -
  obtain al u where u: "address_space_alloc_user_table_slot t = (al, u)" by fastforce
  let ?b = "user_space_base env name root al"
  have "as_user_table_slot ?b \<noteq> s"
    using alloc_slot_other(2) [OF assms(2)] assms(1) u
    by (auto simp: user_space_base_def Let_def address_space_set_user_region_def address_space_clear_user_regions_def
        split: option.splits)
  moreover have "as_user_table_slot (fst (snd (address_space_install_user_descriptors env space t))) = as_user_table_slot space" for space t
    by (simp add: address_space_install_user_descriptors_def Let_def split: prod.splits)
  moreover have "as_user_table_slot (user_space_finish n space) = as_user_table_slot space" for n space
    by (simp add: user_space_finish_def Let_def)
  ultimately show "slot_view s (snd (address_space_init_user env name root t)) = slot_view s t"
    "as_user_table_slot (fst (address_space_init_user env name root t)) \<noteq> s"
    using install_descriptors_other [of ?b s env u] alloc_slot_other(1) [OF assms(2)] u
    by (simp_all add: address_space_init_user_def split: prod.splits) (metis fst_conv snd_conv)+
qed

lemma destroy_user_other:
  "as_user_table_slot other \<noteq> s \<Longrightarrow> slot_view s (snd (address_space_destroy_user other t)) = slot_view s t"
  using other_slot [of "as_user_table_slot other" s]
  by (auto simp: address_space_destroy_user_def Let_def clear_slot_eq slot_view_def)

lemma load_user_image_other:
  "as_user_table_slot other \<noteq> s \<Longrightarrow>
   slot_view s (snd (snd (address_space_load_user_image code csz data dsz entry other t))) = slot_view s t"
  using other_slot [of "as_user_table_slot other" s]
  by (auto simp: address_space_load_user_image_def Let_def slot_view_def)

lemma write_user_data_other:
  "as_user_table_slot other \<noteq> s \<Longrightarrow>
   slot_view s (snd (address_space_write_user_data off data sz other t)) = slot_view s t"
  using other_slot [of "as_user_table_slot other" s]
  by (auto simp: address_space_write_user_data_def Let_def slot_view_def)

lemma frame_or_offset:
  assumes "frame_ok p"
  shows "unat (p OR (va AND (ARM64_PAGE_SIZE - 1))) = unat p + unat va mod 4096"
proof -
  have m: "(ARM64_PAGE_SIZE - 1 :: u64) = mask 12" by (rule low12_mask(1))
  have dis: "\<not> bit p n \<or> \<not> bit (va AND mask 12) n" for n
    using frame_ok_bit [OF assms, of n] by (auto simp: bit_simps)
  have off: "unat (va AND mask 12) = unat va mod 4096"
    by (simp only: take_bit_eq_mask [symmetric] unsigned_take_bit_eq) (simp add: take_bit_eq_mod)
  have "p AND NOT (mask 12) = p"
  proof (rule bit_word_eqI)
    fix n assume "n < LENGTH(64)"
    then show "bit (p AND NOT (mask 12)) n = bit p n"
      using frame_ok_bit [OF assms, of n] by (auto simp: bit_simps)
  qed
  then have eq: "unat p = unat p div 2 ^ 12 * 2 ^ 12" using unat_and_not_mask [of p 12] by metis
  have al: "unat p mod 4096 = 0" by (subst eq) simp
  have "unat p \<le> 2 ^ 64 - 4096"
  proof -
    have "unat p < 2 ^ 64" using unsigned_less [of p, where 'a=nat] by simp
    moreover have "4096 dvd unat p" using al by (simp add: dvd_eq_mod_eq_0)
    ultimately obtain k where "unat p = 4096 * k" "4096 * k < 2 ^ 64" by auto
    then show ?thesis by simp
  qed
  then have "unat (p + (va AND mask 12)) = unat p + unat va mod 4096"
    using mod_less_divisor [of 4096 "unat va"] by (subst unat_add_no_wrap) (simp_all only: off, simp)
  then show ?thesis unfolding m disjunctive_add [OF dis, symmetric] .
qed

lemma page_addr_unat:
  "env_ok env \<Longrightarrow> s < 4 \<Longrightarrow> r < 3 \<Longrightarrow> unat (region_page_addr env s r) = unat (page_base env) + (3 * s + r) * 4096"
  unfolding region_page_addr_def by (rule array_elem(1)) (auto simp: env_ok_def)

text \<open>
  What the architecture lets each level do with a page, by its leaf descriptor. Fetching instructions at EL0
  depends on UXN alone, also where the access bits deny EL0 data accesses.
\<close>

definition el0_writable :: "u64 \<Rightarrow> bool" where "el0_writable d \<longleftrightarrow> d AND ARM64_DESC_AP_MASK = push_bit 6 1"
definition el0_executable :: "u64 \<Rightarrow> bool" where "el0_executable d \<longleftrightarrow> d AND ARM64_DESC_UXN = 0"
definition el1_writable :: "u64 \<Rightarrow> bool" where
  "el1_writable d \<longleftrightarrow> d AND ARM64_DESC_AP_MASK = 0 \<or> d AND ARM64_DESC_AP_MASK = push_bit 6 1"
definition el1_executable :: "u64 \<Rightarrow> bool" where "el1_executable d \<longleftrightarrow> d AND ARM64_DESC_PXN = 0"

lemma l2_slot_inj: "q < 3 \<Longrightarrow> r < 3 \<Longrightarrow> l2_slot q = l2_slot r \<Longrightarrow> q = r"
proof -
  have three: "n = 0 \<or> n = 1 \<or> n = 2" if "n < 3" for n :: nat using that by auto
  assume "q < 3" "r < 3" "l2_slot q = l2_slot r"
  then show ?thesis using three [OF \<open>q < 3\<close>] three [OF \<open>r < 3\<close>] by (elim disjE) (simp_all add: l2_slot_def)
qed

lemma walk_user_pages:
  assumes "env_ok env" "s < 4" "slot_mapped env s root t" "unat va < 2 ^ 32"
    and "kernel_map_ok env root" "kernel_tables_outside env root"
  shows "mmu_walk (as_read env t) (l1_addr env s) va =
    (case user_page_index va of
       Some r \<Rightarrow> Some (region_page_addr env s r OR (va AND (ARM64_PAGE_SIZE - 1)),
                       arm64_mmu_l3_page_desc (region_page_addr env s r) (region_attr r))
     | None \<Rightarrow> if unat va < 2 ^ 30 \<and> unat (arm64_mmu_l2_index va) \<in> {0, 1, 511} then None
               else mmu_walk (kernel_read env) root va)"
proof (cases "unat va < 2 ^ 30 \<and> unat (arm64_mmu_l2_index va) \<in> {0, 1, 511}")
  case True
  then obtain r where r: "r < 3" "unat (arm64_mmu_l2_index va) = l2_slot r"
    using that [of 0] that [of 1] that [of 2] by (auto simp: l2_slot_def)
  have inj: "q = r" if "q < 3" "l2_slot q = l2_slot r" for q
    using l2_slot_inj [OF that(1) r(1) that(2)] .
  have lt: "q < 3" if "user_page_index va = Some q" for q
    using that by (auto simp: user_page_index_def split: if_splits)
  have "user_page_index va = (if unat (arm64_mmu_l3_index va) = l3_slot r then Some r else None)"
  proof (cases "user_page_index va")
    case None
    then show ?thesis using user_page_index_iff [OF conjunct1 [OF True] r(1)] r(2) by simp
  next
    case (Some q)
    have q: "unat (arm64_mmu_l2_index va) = l2_slot q" "unat (arm64_mmu_l3_index va) = l3_slot q"
      using user_page_index_iff [OF conjunct1 [OF True] lt [OF Some]] Some by simp_all
    have "q = r" by (rule inj [OF lt [OF Some] trans [OF q(1) [symmetric] r(2)]])
    then show ?thesis using Some q by simp
  qed
  then show ?thesis
    unfolding walk_region [OF assms(1-3) conjunct1 [OF True] r] by (simp only: True if_True option.case split: if_split) simp
next
  case False
  have "user_page_index va = None"
  proof (rule ccontr)
    assume "user_page_index va \<noteq> None"
    then obtain q where q: "user_page_index va = Some q" by auto
    then have lt: "q < 3" "unat va < 2 ^ 30"
      by (auto simp: user_page_index_def word_less_nat_alt split: if_splits)
    with user_page_index_iff [OF lt(2,1)] q False show False by (auto simp: l2_slot_def split: if_splits)
  qed
  then show ?thesis
    by (simp only: walk_other [OF assms False] False option.case if_False)
qed

lemma region_permissions:
  "arm64_mmu_desc_has_user_access (region_attr r)"
  "el0_writable (region_attr r) \<longleftrightarrow> r \<noteq> 0" "el0_executable (region_attr r) \<longleftrightarrow> r = 0" "\<not> el1_executable (region_attr r)"
  by (simp_all add: region_attr_def ADDRESS_SPACE_USER_CODE_ATTR_def ADDRESS_SPACE_USER_DATA_ATTR_def
      ARM64_NORMAL_MEMORY_ATTR_def arm64_mmu_desc_has_user_access_def el0_writable_def el0_executable_def el1_executable_def push_bit_eq_mult)

section \<open>A concrete layout\<close>

definition sample_env :: as_env where
  "sample_env = \<lparr>l1_base = 0x41000000, l2_base = 0x41010000, l3_base = 0x41020000, page_base = 0x41030000,
     kernel_read = (\<lambda>a. if a = 0x40000000 then 0x40001003 else 0)\<rparr>"

definition user_tables_boot :: user_tables where
  "user_tables_boot =
     \<lparr>ut_l1 = replicate 4 address_space_clear_table, ut_l2 = replicate 4 address_space_clear_table,
      ut_l3 = replicate 12 address_space_clear_table, ut_pages = replicate 12 address_space_clear_page,
      ut_used = replicate 4 False\<rparr>"

lemma sample_l2_entry:
  "unat (0x40001000 + 8 * arm64_mmu_l2_index va) = 0x40001000 + 8 * unat (arm64_mmu_l2_index va)"
  "0x40001000 + 8 * arm64_mmu_l2_index va \<noteq> 0x40000000"
proof -
  have "unat (8 * arm64_mmu_l2_index va) = 8 * unat (arm64_mmu_l2_index va)"
    using unat_index_less(2) [of va] by (simp add: unat_word_ariths)
  then show addr: "unat (0x40001000 + 8 * arm64_mmu_l2_index va) = 0x40001000 + 8 * unat (arm64_mmu_l2_index va)"
    using unat_index_less(2) [of va] by (subst unat_add_no_wrap) simp_all
  show "0x40001000 + 8 * arm64_mmu_l2_index va \<noteq> 0x40000000"
  proof
    assume "0x40001000 + 8 * arm64_mmu_l2_index va = 0x40000000"
    then have "unat (0x40001000 + 8 * arm64_mmu_l2_index va) = unat (0x40000000 :: u64)" by (rule arg_cong)
    then show False unfolding addr by simp
  qed
qed

lemma sample_env_ok: "env_ok sample_env" "kernel_map_ok sample_env 0x40000000"
  "kernel_tables_outside sample_env 0x40000000" "user_tables_ok user_tables_boot"
  "find_slot (\<lambda>used. \<not> used) (ut_used user_tables_boot) = Some 0"
proof -
  show "env_ok sample_env" by (simp add: env_ok_def sample_env_def array_ok_def arrays_apart_def)
  show "kernel_map_ok sample_env 0x40000000"
    by (simp add: kernel_map_ok_def sample_env_def user_array_def in_array_def arm64_mmu_desc_is_table_def)
  show "user_tables_ok user_tables_boot"
    by (simp add: user_tables_ok_def user_tables_boot_def address_space_clear_table_def address_space_clear_page_def)
  show "find_slot (\<lambda>used. \<not> used) (ut_used user_tables_boot) = Some 0"
    by (simp add: user_tables_boot_def numeral_eq_Suc)
  have big: "\<not> c \<le> unat (arm64_mmu_l2_index va)" if "512 \<le> c" for c va
    using unat_index_less(2) [of va] that by linarith
  show "kernel_tables_outside sample_env 0x40000000"
    unfolding kernel_tables_outside_def sample_env_def Let_def
    using sample_l2_entry big
    by (auto simp: arm64_mmu_desc_is_table_def arm64_mmu_desc_address_def user_array_def in_array_def)
qed

section \<open>Properties\<close>

text \<open>
  C21: address_space_init_user builds tables that map exactly three user pages. With a free slot and
  the kernel map in place, the hardware walk from the new root translates the first page of the code,
  data and stack regions to the slot's own page with that region's descriptor; every other address in
  the 2 MB areas of the regions is unmapped, and every address elsewhere translates as in the kernel map.
\<close>

theorem user_space_translation:
  assumes "env_ok env" "user_tables_ok t" "find_slot (\<lambda>used. \<not> used) (ut_used t) = Some s"
    and "kernel_map_ok env root" "kernel_tables_outside env root" "unat va < 2 ^ 32"
    and "address_space_init_user env name root t = (space, t')"
  shows "mmu_walk (as_read env t') (as_user_root_table space) va =
    (case user_page_index va of
       Some r \<Rightarrow> Some (region_page_addr env s r OR (va AND (ARM64_PAGE_SIZE - 1)),
                       arm64_mmu_l3_page_desc (region_page_addr env s r) (region_attr r))
     | None \<Rightarrow> if unat va < 2 ^ 30 \<and> unat (arm64_mmu_l2_index va) \<in> {0, 1, 511} then None
               else mmu_walk (kernel_read env) root va)"
proof -
  note i = init_user_mapped [OF assms(1-4,7)]
  have "as_user_root_table space = l1_addr env s" using i(3) by (simp add: user_space_fields_def)
  then show ?thesis using walk_user_pages [OF assms(1) i(1,2) assms(6,4,5)] by simp
qed

theorem user_space_translation_witness:
  "mmu_walk (as_read sample_env (snd (address_space_init_user sample_env None 0x40000000 user_tables_boot)))
     (as_user_root_table (fst (address_space_init_user sample_env None 0x40000000 user_tables_boot))) 0x100010 =
   Some (region_page_addr sample_env 0 0 OR 0x10, arm64_mmu_l3_page_desc (region_page_addr sample_env 0 0) (region_attr 0))"
proof -
  have "user_page_index 0x100010 = Some 0" by (simp add: user_page_index_def)
  then show ?thesis
    using user_space_translation [OF sample_env_ok(1,4,5,2,3), where va = "0x100010" and name = None and
        space = "fst (address_space_init_user sample_env None 0x40000000 user_tables_boot)" and
        t' = "snd (address_space_init_user sample_env None 0x40000000 user_tables_boot)"] by simp
qed

text \<open>What is reached through the tables of a new user space.\<close>

lemma user_space_reach:
  assumes "env_ok env" "user_tables_ok t" "find_slot (\<lambda>used. \<not> used) (ut_used t) = Some s"
    and "kernel_map_ok env root" "kernel_tables_outside env root" "unat va < 2 ^ 32"
    and "address_space_init_user env name root t = (space, t')"
    and walk: "mmu_walk (as_read env t') (as_user_root_table space) va = Some (pa, d)"
  shows "case user_page_index va of
      Some r \<Rightarrow> r < 3 \<and> unat pa = unat (page_base env) + (3 * s + r) * 4096 + unat va mod 4096 \<and>
        arm64_mmu_desc_has_user_access d \<and> (el0_writable d \<longleftrightarrow> r \<noteq> 0) \<and> (el0_executable d \<longleftrightarrow> r = 0) \<and> \<not> el1_executable d
    | None \<Rightarrow> mmu_walk (kernel_read env) root va = Some (pa, d)"
proof -
  note i = init_user_mapped [OF assms(1-4,7)]
  have root: "as_user_root_table space = l1_addr env s" using i(3) by (simp add: user_space_fields_def)
  note w = walk_user_pages [OF assms(1) i(1,2) assms(6,4,5)]
  show ?thesis
  proof (cases "user_page_index va")
    case None
    then show ?thesis using walk by (simp add: w root split: if_splits)
  next
    case (Some r)
    then have r: "r < 3" by (auto simp: user_page_index_def split: if_splits)
    note f = table_frames(5) [OF assms(1) i(1) r]
    have pa: "pa = region_page_addr env s r OR (va AND (ARM64_PAGE_SIZE - 1))"
      and d: "d = arm64_mmu_l3_page_desc (region_page_addr env s r) (region_attr r)"
      using walk Some by (simp_all add: w root)
    have "el0_writable d \<longleftrightarrow> el0_writable (region_attr r)" "el0_executable d \<longleftrightarrow> el0_executable (region_attr r)"
      "el1_executable d \<longleftrightarrow> el1_executable (region_attr r)"
      using l3_page_roundtrip(5,6,7) [OF f region_attr_ok] d by (simp_all only: el0_writable_def el0_executable_def el1_executable_def)
    moreover have "arm64_mmu_desc_has_user_access d" using l3_page_roundtrip(3) [OF f region_attr_ok] region_permissions(1) d by simp
    ultimately show ?thesis
      using Some r pa frame_or_offset [OF f, of va] page_addr_unat [OF assms(1) i(1) r] region_permissions [of r] by auto
  qed
qed

abbreviation sample_space :: address_space where
  "sample_space \<equiv> fst (address_space_init_user sample_env None 0x40000000 user_tables_boot)"

abbreviation sample_tables :: user_tables where
  "sample_tables \<equiv> snd (address_space_init_user sample_env None 0x40000000 user_tables_boot)"

lemma sample_space_ok:
  "slot_mapped sample_env 0 0x40000000 sample_tables" "user_space_fields sample_env 0 0x40000000 sample_space"
  "user_tables_ok sample_tables" "ut_used sample_tables ! 0" "as_user_mappings_ready sample_space"
proof -
  note i = init_user_mapped [OF sample_env_ok(1,4,5,2) prod.collapse [symmetric]]
  show "slot_mapped sample_env 0 0x40000000 sample_tables" "user_space_fields sample_env 0 0x40000000 sample_space"
    "user_tables_ok sample_tables" by (fact i)+
  obtain sp where e: "address_space_init_user sample_env None 0x40000000 user_tables_boot =
    (sp, user_tables_boot\<lparr>ut_l1 := (ut_l1 user_tables_boot)[0 := user_l1 sample_env 0 0x40000000],
      ut_l2 := (ut_l2 user_tables_boot)[0 := user_l2 sample_env 0 0x40000000],
      ut_l3 := (ut_l3 user_tables_boot)[3 * 0 := user_l3 sample_env 0 0 256, 3 * 0 + 1 := user_l3 sample_env 0 1 0,
        3 * 0 + 2 := user_l3 sample_env 0 2 496],
      ut_pages := (ut_pages user_tables_boot)[3 * 0 := address_space_clear_page, 3 * 0 + 1 := address_space_clear_page,
        3 * 0 + 2 := address_space_clear_page],
      ut_used := (ut_used user_tables_boot)[0 := True]\<rparr>)" "as_user_mappings_ready sp"
    by (rule init_user_eq [OF sample_env_ok(5) i(1) sample_env_ok(2,1), of None])
  then show "ut_used sample_tables ! 0" "as_user_mappings_ready sample_space"
    by (simp_all add: user_tables_boot_def)
qed

text \<open>Operations on other spaces: every set-up, and destruction, loading and writing of spaces in other slots.\<close>

inductive other_space_op :: "as_env \<Rightarrow> nat \<Rightarrow> user_tables \<Rightarrow> user_tables \<Rightarrow> bool" for env s where
  op_init: "other_space_op env s t (snd (address_space_init_user env name root t))"
| op_destroy: "as_user_table_slot other \<noteq> s \<Longrightarrow> other_space_op env s t (snd (address_space_destroy_user other t))"
| op_load: "as_user_table_slot other \<noteq> s \<Longrightarrow>
    other_space_op env s t (snd (snd (address_space_load_user_image code csz data dsz entry other t)))"
| op_poke: "as_user_table_slot other \<noteq> s \<Longrightarrow> other_space_op env s t (snd (address_space_write_user_data off data sz other t))"

lemma other_space_op_view:
  assumes "other_space_op env s t t'" "s < 4" "ut_used t ! s"
  shows "slot_view s t' = slot_view s t"
  using assms
  by cases (auto simp: init_user_other destroy_user_other load_user_image_other write_user_data_other)

lemma slot_view_used: "slot_view s t = slot_view s t' \<Longrightarrow> ut_used t ! s = ut_used t' ! s"
  by (simp add: slot_view_def)

text \<open>
  C18: user spaces do not interfere. While a slot is in use, any sequence of set-ups of new spaces and
  of destruction, image loading and data writes of spaces in other slots leaves its tables, its pages
  and its translation unchanged, and no new space is given that slot.
\<close>

theorem user_spaces_isolated:
  assumes "env_ok env" "s < 4" "ut_used t ! s" "slot_mapped env s root t"
    and "kernel_map_ok env root" "kernel_tables_outside env root"
    and "(other_space_op env s)\<^sup>*\<^sup>* t t'" "unat va < 2 ^ 32"
  shows "slot_view s t' = slot_view s t \<and>
    mmu_walk (as_read env t') (l1_addr env s) va = mmu_walk (as_read env t) (l1_addr env s) va \<and>
    as_user_table_slot (fst (address_space_init_user env name kernel_root_table t')) \<noteq> s"
proof -
  have view: "slot_view s t' = slot_view s t" using assms(7)
  proof (induction rule: rtranclp_induct)
    case (step u v)
    then have "ut_used u ! s" using slot_view_used [of s u t] assms(3) by simp
    then show ?case using other_space_op_view [OF step(2) assms(2)] step(3) by simp
  qed simp
  have mapped: "slot_mapped env s root t'" using slot_view_mapped [OF view] assms(4) by simp
  have used: "ut_used t' ! s" using slot_view_used [OF view] assms(3) by simp
  show ?thesis
    using view init_user_other(2) [OF assms(2) used]
      walk_user_pages [OF assms(1,2,4,8,5,6)] walk_user_pages [OF assms(1,2) mapped assms(8,5,6)] by simp
qed

theorem user_spaces_isolated_witness:
  "slot_view 0 (snd (address_space_init_user sample_env (Some ''second'') 0x40000000 sample_tables)) = slot_view 0 sample_tables"
proof -
  have "(other_space_op sample_env 0)\<^sup>*\<^sup>* sample_tables
      (snd (address_space_init_user sample_env (Some ''second'') 0x40000000 sample_tables))"
    by (rule r_into_rtranclp, rule op_init)
  from user_spaces_isolated [OF sample_env_ok(1) _ sample_space_ok(4,1) sample_env_ok(2,3) this, of 0]
  show ?thesis by simp
qed

lemma surjective_pairing3: "x = (fst x, fst (snd x), snd (snd x))"
  by simp

lemma load_page: "length xs \<le> 4096 \<Longrightarrow> splice address_space_clear_page 0 xs = xs @ replicate (4096 - length xs) 0"
  by (simp add: splice_def address_space_clear_page_def)

text \<open>
  Loading a program image. For a user space that was set up, address_space_load_user_image
  succeeds exactly when the code is non-empty and fits a page, the data fits a page and the entry is
  a 4-byte aligned offset inside the code; then the code and data pages hold the image followed by
  zeros, tables and stack page are unchanged, and the entry address lies in the mapped code page.
\<close>

theorem load_user_image_places_program:
  assumes "user_space_fields env s root space" "as_user_mappings_ready space" "s < 4" "user_tables_ok t"
    and "unat code_size \<le> length code" "unat data_size \<le> length data"
    and "address_space_load_user_image code code_size data data_size entry_offset space t = (ok, space', t')"
  shows "(ok \<longleftrightarrow> 0 < unat code_size \<and> unat code_size \<le> 4096 \<and> unat data_size \<le> 4096 \<and>
      unat entry_offset < unat code_size \<and> unat entry_offset mod 4 = 0) \<and>
    (\<not> ok \<longrightarrow> space' = space \<and> t' = t) \<and>
    (ok \<longrightarrow> ut_pages t' ! (3 * s) = take (unat code_size) code @ replicate (4096 - unat code_size) 0 \<and>
      ut_pages t' ! (3 * s + 1) = take (unat data_size) data @ replicate (4096 - unat data_size) 0 \<and>
      ut_pages t' ! (3 * s + 2) = ut_pages t ! (3 * s + 2) \<and> slot_mapped env s root t' = slot_mapped env s root t \<and>
      unat (as_user_image_entry space') = 0x100000 + unat entry_offset \<and>
      user_page_index (as_user_image_entry space') = Some 0 \<and> as_user_image_ready space')"
proof -
  have f: "as_kind space = ADDRESS_SPACE_USER" "as_user_table_slot space = s"
    "as_user_code_start space = ADDRESS_SPACE_USER_CODE_START" and len: "length (ut_pages t) = 12"
    using assms(1,4) by (simp_all add: user_space_fields_def user_tables_ok_def)
  have low: "entry_offset AND (4 - 1) = 0 \<longleftrightarrow> unat entry_offset mod 4 = 0"
  proof -
    have m: "(4 - 1 :: u64) = mask 2" by (simp add: mask_eq_exp_minus_1)
    show ?thesis unfolding m take_bit_eq_mask [symmetric]
      by (simp only: word_unat_eq_iff unsigned_take_bit_eq) (simp add: take_bit_eq_mod)
  qed
  have good: "ok \<longleftrightarrow> 0 < unat code_size \<and> unat code_size \<le> 4096 \<and> unat data_size \<le> 4096 \<and>
      unat entry_offset < unat code_size \<and> unat entry_offset mod 4 = 0"
    using assms(2,3,7) f low
    by (auto simp: address_space_load_user_image_def Let_def word_le_nat_alt word_less_nat_alt unat_gt_0 split: if_splits)
  show ?thesis
  proof (cases ok)
    case False
    then show ?thesis using good assms(7)
      by (auto simp: address_space_load_user_image_def Let_def split: if_splits)
  next
    case True
    then have e: "t' = t\<lparr>ut_pages := (ut_pages t)[3 * s := splice address_space_clear_page 0 (take (unat code_size) code),
        3 * s + 1 := splice address_space_clear_page 0 (take (unat data_size) data)]\<rparr>"
      "as_user_image_entry space' = ADDRESS_SPACE_USER_CODE_START + entry_offset" "as_user_image_ready space'"
      using assms(7) f by (auto simp: address_space_load_user_image_def Let_def split: if_splits)
    have lt: "unat entry_offset < 4096" using good True by simp
    have u: "unat (ADDRESS_SPACE_USER_CODE_START + entry_offset) = 0x100000 + unat entry_offset"
      using lt by (subst unat_add_no_wrap) simp_all
    have "user_page_index (ADDRESS_SPACE_USER_CODE_START + entry_offset) = Some 0"
      using lt u by (simp add: user_page_index_def word_le_nat_alt word_less_nat_alt)
    then show ?thesis
      using good True assms(3,5,6) len e u load_page [of "take (unat code_size) code"] load_page [of "take (unat data_size) data"]
      by (simp add: slot_mapped_def)
  qed
qed

theorem load_user_image_places_program_witness:
  "fst (address_space_load_user_image [1, 2, 3, 4, 5, 6, 7, 8] 8 [9] 1 4 sample_space sample_tables) \<and>
   unat (as_user_image_entry (fst (snd (address_space_load_user_image [1, 2, 3, 4, 5, 6, 7, 8] 8 [9] 1 4 sample_space sample_tables)))) = 0x100004"
  using load_user_image_places_program [OF sample_space_ok(2,5) _ sample_space_ok(3) _ _
      surjective_pairing3 [of "address_space_load_user_image [1, 2, 3, 4, 5, 6, 7, 8] 8 [9] 1 4 sample_space sample_tables"]]
  by simp

lemma range_checks_iff:
  assumes "user_space_fields env s root space"
  shows "(address_space_user_range_valid space address n \<longleftrightarrow> n = 0 \<or>
      (\<exists>(lo, hi) \<in> {(0x100000, 0x200000), (0x200000, 0x300000), (0x3fff0000, 0x40000000)}.
         lo \<le> unat address \<and> unat address + unat n \<le> hi)) \<and>
    (address_space_user_writable_range_valid space address n \<longleftrightarrow> n = 0 \<or>
      (\<exists>(lo, hi) \<in> {(0x200000, 0x300000), (0x3fff0000, 0x40000000)}.
         lo \<le> unat address \<and> unat address + unat n \<le> hi))"
proof (cases "unat address + unat n < 2 ^ 64")
  case True
  then have u: "unat (address + n) = unat address + unat n" by (subst unat_add_no_wrap) simp_all
  have "\<not> address + n < address" by (simp add: word_less_nat_alt u)
  then show ?thesis
    using assms
    by (simp add: user_space_fields_def address_space_user_range_valid_def address_space_user_writable_range_valid_def
        word_le_nat_alt u)
next
  case False
  have "unat (address + n) = unat address + unat n - 2 ^ 64"
  proof -
    have "unat address < 2 ^ 64" "unat n < 2 ^ 64" using unsigned_less [of _, where 'a=nat and 'b=64] by simp_all
    then have "(unat address + unat n) mod 2 ^ 64 = unat address + unat n - 2 ^ 64"
      using False by (subst le_mod_geq) simp_all
    then show ?thesis by (simp add: unat_word_ariths)
  qed
  moreover have "unat n < 2 ^ 64" using unsigned_less [of n, where 'a=nat] by simp
  ultimately have wrap: "address + n < address" using False by (simp add: word_less_nat_alt)
  have "n \<noteq> 0" using wrap by auto
  then show ?thesis
    using assms wrap False
    by (simp add: user_space_fields_def address_space_user_range_valid_def address_space_user_writable_range_valid_def)
qed

text \<open>
  The range checks system calls use, for a space that was set up: a range passes exactly when it
  is empty or lies, without wrap-around, inside one of the three regions, and the check for writing
  admits only the data and stack regions.
\<close>

theorem user_range_checks_exact:
  assumes "user_space_fields env s root space"
  shows "(address_space_user_range_valid space address n \<longleftrightarrow> n = 0 \<or>
      (\<exists>(lo, hi) \<in> {(0x100000, 0x200000), (0x200000, 0x300000), (0x3fff0000, 0x40000000)}.
         lo \<le> unat address \<and> unat address + unat n \<le> hi)) \<and>
    (address_space_user_writable_range_valid space address n \<longleftrightarrow> n = 0 \<or>
      (\<exists>(lo, hi) \<in> {(0x200000, 0x300000), (0x3fff0000, 0x40000000)}.
         lo \<le> unat address \<and> unat address + unat n \<le> hi))"
  by (rule range_checks_iff [OF assms])

theorem user_range_checks_exact_witness:
  "address_space_user_range_valid sample_space 0x100000 16 \<and> \<not> address_space_user_writable_range_valid sample_space 0x100000 16"
  using user_range_checks_exact [OF sample_space_ok(2), of "0x100000" 16] by simp

text \<open>
  The range checks admit addresses that are not mapped. Each region is 64 KB or 1 MB long, and one
  page of it is mapped: in every space that was set up, the byte after the first code page and the
  eight bytes below the top of the stack region, where the initial stack pointer points, pass the
  check but have no translation, so the kernel faults when it follows such a pointer.
\<close>

theorem valid_ranges_may_be_unmapped:
  assumes "env_ok env" "s < 4" "slot_mapped env s root t" "user_space_fields env s root space"
  shows "address_space_user_range_valid space 0x101000 1 \<and>
    mmu_walk (as_read env t) (as_user_root_table space) 0x101000 = None \<and>
    address_space_user_writable_range_valid space (ADDRESS_SPACE_USER_STACK_END - 8) 8 \<and>
    mmu_walk (as_read env t) (as_user_root_table space) (ADDRESS_SPACE_USER_STACK_END - 8) = None"
proof -
  have root: "as_user_root_table space = l1_addr env s" using assms(4) by (simp add: user_space_fields_def)
  have "mmu_walk (as_read env t) (l1_addr env s) 0x101000 = None"
    by (subst walk_region [OF assms(1-3), of _ 0]) (simp_all add: unat_index l2_slot_def l3_slot_def)
  moreover have "mmu_walk (as_read env t) (l1_addr env s) (ADDRESS_SPACE_USER_STACK_END - 8) = None"
    by (subst walk_region [OF assms(1-3), of _ 2]) (simp_all add: unat_index l2_slot_def l3_slot_def)
  ultimately show ?thesis
    using assms(4) unfolding root
    by (simp add: user_space_fields_def address_space_user_range_valid_def address_space_user_writable_range_valid_def)
qed

theorem valid_ranges_may_be_unmapped_witness:
  "address_space_user_range_valid sample_space 0x101000 1 \<and>
   mmu_walk (as_read sample_env sample_tables) (as_user_root_table sample_space) 0x101000 = None"
  using valid_ranges_may_be_unmapped [OF sample_env_ok(1) _ sample_space_ok(1,2)] by simp

lemma validate_user_not_ready: "\<not> as_user_tables_ready space \<Longrightarrow> 0 < address_space_validate_user space"
  by (simp only: address_space_validate_user_def of_bool_def) simp

lemma init_user_full:
  assumes "find_slot (\<lambda>used. \<not> used) (ut_used t) = None"
  obtains sp where "address_space_init_user env name root t = (sp, t)" "as_validation_errors sp > 0" "as_user_table_slot sp = 4"
    "\<not> as_switch_ready sp" "as_switch_status sp = ADDRESS_SPACE_SWITCH_BLOCKED"
proof -
  let ?b = "user_space_base env name root None"
  have b: "as_user_table_slot ?b = 4" "as_user_descriptor_count ?b = 3" "\<not> as_user_tables_ready ?b"
    by (simp_all add: user_space_base_def Let_def address_space_set_user_region_def address_space_clear_user_regions_def)
  then have eq: "address_space_init_user env name root t = (user_space_finish 0 ?b, t)"
    by (simp add: address_space_init_user_def address_space_alloc_user_table_slot_def assms
        address_space_install_user_descriptors_def)
  show thesis
    by (rule that [OF eq])
      (use b validate_user_not_ready [of "?b\<lparr>as_user_installed_descriptor_count := 0, as_user_mappings_ready := False,
        as_user_execute_ready := False\<rparr>"] in \<open>simp_all add: user_space_finish_def Let_def\<close>)
qed

text \<open>
  C33: running out of slots. With all four slots in use a further set-up changes no table, reports
  validation errors, leaves the switch blocked, and image loading fails; destroying any space with a
  slot makes a slot available again.
\<close>

theorem user_slots_exhausted:
  assumes "\<forall>used\<in>set (ut_used t). used" "length (ut_used t) = 4"
    and "as_kind old = ADDRESS_SPACE_USER" "as_user_table_slot old < 4"
  shows "snd (address_space_init_user env name root t) = t \<and>
    as_validation_errors (fst (address_space_init_user env name root t)) > 0 \<and>
    fst (address_space_switch_stub (fst (address_space_init_user env name root t))) = ADDRESS_SPACE_SWITCH_STUB_BLOCKED \<and>
    \<not> fst (address_space_load_user_image code code_size data data_size entry_offset
        (fst (address_space_init_user env name root t)) t) \<and>
    fst (address_space_alloc_user_table_slot (snd (address_space_destroy_user old t))) = Some (as_user_table_slot old)"
proof -
  have none: "find_slot (\<lambda>used. \<not> used) (ut_used t) = None" using assms(1) by (simp add: find_slot_None_iff)
  obtain sp where sp: "address_space_init_user env name root t = (sp, t)" "as_validation_errors sp > 0" "as_user_table_slot sp = 4"
    "\<not> as_switch_ready sp" "as_switch_status sp = ADDRESS_SPACE_SWITCH_BLOCKED"
    by (rule init_user_full [OF none, of env name root])
  have slot: "find_slot (\<lambda>used. \<not> used) ((ut_used t)[as_user_table_slot old := False]) = Some (as_user_table_slot old)"
    unfolding find_slot_Some_iff using assms by (auto simp: nth_list_update)
  then have "fst (address_space_alloc_user_table_slot (snd (address_space_destroy_user old t))) = Some (as_user_table_slot old)"
    using assms(3,4) by (simp add: address_space_destroy_user_def Let_def address_space_alloc_user_table_slot_def)
  then show ?thesis
    using sp by (simp add: address_space_switch_stub_def Let_def address_space_load_user_image_def)
qed

theorem user_slots_exhausted_witness:
  "as_validation_errors (fst (address_space_init_user sample_env None 0x40000000
     (user_tables_boot\<lparr>ut_used := replicate 4 True\<rparr>))) > 0"
  using user_slots_exhausted [of "user_tables_boot\<lparr>ut_used := replicate 4 True\<rparr>" sample_space] sample_space_ok(2)
  by (simp add: user_space_fields_def)

end
