(* ===== verification/Task.thy ===== *)
theory Task
  imports AddressSpace
begin

text \<open>
  The task table and the machine state the scheduler and the EL0 sessions share, kernel/sched/scheduler.h
  and the static data of scheduler.c and arch/arm64/user.c: tasks, CPU contexts, per-task EL0 sessions,
  the layout of kernel stacks and guard pages, and the context switch of context.S.
\<close>

section \<open>Tasks\<close>

abbreviation SCHED_MAX_TASKS :: nat where "SCHED_MAX_TASKS \<equiv> 8"
abbreviation TASK_MAX_FILES :: nat where "TASK_MAX_FILES \<equiv> 4"

datatype task_state =
  TASK_UNUSED | TASK_READY | TASK_RUNNING | TASK_BLOCKED | TASK_SLEEPING | TASK_ELIGIBLE | TASK_ZOMBIE

text \<open>Code addresses the kernel stores in contexts and task entries.\<close>

datatype code_label = idle_task | scheduler_user_task_entry | thread_trampoline | arm64_el0_task_return | thread_entry nat

text \<open>
  \<open>memory.address_space\<close> is null, the kernel's space, or the space embedded in the same task.
\<close>

datatype space_ref = NoSpace | KernelSpace | OwnSpace

record cpu_context =
  cx_x19 :: u64
  cx_x20 :: u64
  cx_x21 :: u64
  cx_x22 :: u64
  cx_x23 :: u64
  cx_x24 :: u64
  cx_x25 :: u64
  cx_x26 :: u64
  cx_x27 :: u64
  cx_x28 :: u64
  cx_fp :: u64
  cx_lr :: u64
  cx_sp :: u64

record task_memory =
  tm_space :: space_ref
  tm_stack_start :: u64
  tm_stack_end :: u64
  tm_guard_low_start :: u64
  tm_guard_low_end :: u64
  tm_guard_high_start :: u64
  tm_guard_high_end :: u64

record task_el0_state =
  el_pc :: u64
  el_sp :: u64
  el_spsr :: u64
  el_ready :: bool

record task_user_status =
  us_program_completed :: bool
  us_program_succeeded :: bool
  us_admissions :: u64
  us_el0_entries :: u64
  us_traps :: u64
  us_recoveries :: u64
  us_rejects :: u64
  us_exits :: u64
  us_last_exit_code :: u64
  us_completions :: u64
  us_failures :: u64

record task_accounting =
  ac_switches :: u64
  ac_run_ticks :: u64
  ac_yields :: u64
  ac_preemptions :: u64
  ac_sleep_wakeups :: u64

record task_file =
  tf_used :: bool
  tf_path :: "u8 list"
  tf_offset :: u64

record task_wait_status =
  ws_pid :: u64
  ws_exit_code :: u64
  ws_succeeded :: u64

record task =
  t_pid :: int
  t_parent_pid :: int
  t_name :: string
  t_state :: task_state
  t_entry :: "code_label option"
  t_context :: cpu_context
  t_sleep_until_tick :: u64
  t_sleep_requested_ms :: u64
  t_accounting :: task_accounting
  t_memory :: task_memory
  t_user_address_space :: address_space
  t_el0 :: task_el0_state
  t_user_status :: task_user_status
  t_files :: "task_file list"
  t_user_argc :: u64
  t_user_argv_address :: u64
  t_user_arg_lengths_address :: u64

section \<open>Sessions and the machine\<close>

datatype user_session_reject_reason =
  USER_SESSION_REJECT_NONE | USER_SESSION_REJECT_BAD_ROOTS | USER_SESSION_REJECT_BAD_RETURN |
  USER_SESSION_REJECT_UNEXPECTED_MODE

text \<open>\<open>ss_task\<close> is the index of the task the pointer names.\<close>

record user_session_state =
  ss_active :: bool
  ss_completed :: bool
  ss_faulted :: bool
  ss_last_reject_reason :: user_session_reject_reason
  ss_reject_count :: u64
  ss_task :: "nat option"
  ss_return_pc :: u64
  ss_kernel_root :: u64
  ss_user_root :: u64

text \<open>
  The static variables of scheduler.c, address_space.c and user.c, with the registers they touch:
  the callee-saved registers (\<open>cpu\<close>), the translation registers and the exception return registers.
\<close>

record kernel =
  tasks :: "task list"
  current_task :: nat
  task_count :: nat
  threads_started :: bool
  scheduler_ticks :: u64
  bootstrap_context :: cpu_context
  kernel_address_space :: address_space
  user_tables_of :: user_tables
  user_sessions :: "user_session_state list"
  cpu :: cpu_context
  mmu :: mmu_regs
  elr_el1 :: u64
  spsr_el1 :: u64

text \<open>What the linker fixes: the arrays, the stack region and the addresses of functions.\<close>

record kernel_env =
  arrays :: as_env
  stack_region :: u64
  code_address :: "code_label \<Rightarrow> u64"

abbreviation ARM64_SPSR_EL0T :: u64 where "ARM64_SPSR_EL0T \<equiv> 0"
abbreviation ARM64_SPSR_EL1H :: u64 where "ARM64_SPSR_EL1H \<equiv> 5"

section \<open>Stacks\<close>

definition scheduler_stack_region_bytes :: u64 where
  "scheduler_stack_region_bytes = 8 * (4096 + 4096) + 4096"

definition scheduler_stack_region_start :: "kernel_env \<Rightarrow> u64" where
  "scheduler_stack_region_start env = stack_region env"

definition scheduler_stack_region_end :: "kernel_env \<Rightarrow> u64" where
  "scheduler_stack_region_end env = scheduler_stack_region_start env + scheduler_stack_region_bytes"

definition scheduler_stack_count :: u64 where
  "scheduler_stack_count = of_nat SCHED_MAX_TASKS"

definition scheduler_stack_guard_start :: "kernel_env \<Rightarrow> u64 \<Rightarrow> u64" where
  "scheduler_stack_guard_start env index =
     (let index = (if index > of_nat SCHED_MAX_TASKS then of_nat SCHED_MAX_TASKS else index)
      in scheduler_stack_region_start env + index * (4096 + 4096))"

definition scheduler_stack_guard_end :: "kernel_env \<Rightarrow> u64 \<Rightarrow> u64" where
  "scheduler_stack_guard_end env index = scheduler_stack_guard_start env index + 4096"

definition scheduler_stack_start :: "kernel_env \<Rightarrow> u64 \<Rightarrow> u64" where
  "scheduler_stack_start env index =
     (let index = (if index \<ge> of_nat SCHED_MAX_TASKS then of_nat SCHED_MAX_TASKS - 1 else index)
      in scheduler_stack_guard_end env index)"

definition scheduler_stack_end :: "kernel_env \<Rightarrow> u64 \<Rightarrow> u64" where
  "scheduler_stack_end env index = scheduler_stack_start env index + 4096"

definition scheduler_address_is_stack :: "kernel_env \<Rightarrow> u64 \<Rightarrow> bool" where
  "scheduler_address_is_stack env address \<longleftrightarrow>
     (\<exists>i\<in>set [0..<SCHED_MAX_TASKS].
        address \<ge> scheduler_stack_start env (of_nat i) \<and> address < scheduler_stack_end env (of_nat i))"

definition scheduler_address_is_stack_guard :: "kernel_env \<Rightarrow> u64 \<Rightarrow> bool" where
  "scheduler_address_is_stack_guard env address \<longleftrightarrow>
     (\<exists>i\<in>set [0..<SCHED_MAX_TASKS + 1].
        address \<ge> scheduler_stack_guard_start env (of_nat i) \<and> address < scheduler_stack_guard_end env (of_nat i))"

section \<open>Clearing and initialising parts of a task\<close>

definition scheduler_clear_context :: cpu_context where
  "scheduler_clear_context =
     \<lparr>cx_x19 = 0, cx_x20 = 0, cx_x21 = 0, cx_x22 = 0, cx_x23 = 0, cx_x24 = 0, cx_x25 = 0, cx_x26 = 0,
      cx_x27 = 0, cx_x28 = 0, cx_fp = 0, cx_lr = 0, cx_sp = 0\<rparr>"

definition scheduler_clear_memory :: task_memory where
  "scheduler_clear_memory =
     \<lparr>tm_space = NoSpace, tm_stack_start = 0, tm_stack_end = 0, tm_guard_low_start = 0, tm_guard_low_end = 0,
      tm_guard_high_start = 0, tm_guard_high_end = 0\<rparr>"

definition scheduler_clear_el0 :: task_el0_state where
  "scheduler_clear_el0 = \<lparr>el_pc = 0, el_sp = 0, el_spsr = 0, el_ready = False\<rparr>"

definition scheduler_clear_user_status :: task_user_status where
  "scheduler_clear_user_status =
     \<lparr>us_program_completed = False, us_program_succeeded = False, us_admissions = 0, us_el0_entries = 0,
      us_traps = 0, us_recoveries = 0, us_rejects = 0, us_exits = 0, us_last_exit_code = 0,
      us_completions = 0, us_failures = 0\<rparr>"

definition scheduler_clear_accounting :: task_accounting where
  "scheduler_clear_accounting =
     \<lparr>ac_switches = 0, ac_run_ticks = 0, ac_yields = 0, ac_preemptions = 0, ac_sleep_wakeups = 0\<rparr>"

definition clear_file :: "task_file \<Rightarrow> task_file" where
  "clear_file f = f\<lparr>tf_used := False, tf_path := (tf_path f)[0 := 0], tf_offset := 0\<rparr>"

definition scheduler_clear_files :: "task \<Rightarrow> task" where
  "scheduler_clear_files t = t\<lparr>t_files := map clear_file (t_files t)\<rparr>"

definition scheduler_init_task_memory :: "kernel_env \<Rightarrow> nat \<Rightarrow> task \<Rightarrow> task" where
  "scheduler_init_task_memory env pid t =
     t\<lparr>t_memory :=
        \<lparr>tm_space = KernelSpace, tm_stack_start = scheduler_stack_start env (of_nat pid),
         tm_stack_end = scheduler_stack_end env (of_nat pid),
         tm_guard_low_start = scheduler_stack_guard_start env (of_nat pid),
         tm_guard_low_end = scheduler_stack_guard_end env (of_nat pid),
         tm_guard_high_start = scheduler_stack_guard_start env (of_nat pid + 1),
         tm_guard_high_end = scheduler_stack_guard_end env (of_nat pid + 1)\<rparr>\<rparr>"

text \<open>The address space a task's pointer leads to.\<close>

definition task_space :: "kernel \<Rightarrow> task \<Rightarrow> address_space option" where
  "task_space k t =
     (case tm_space (t_memory t) of
        NoSpace \<Rightarrow> None | KernelSpace \<Rightarrow> Some (kernel_address_space k) | OwnSpace \<Rightarrow> Some (t_user_address_space t))"

definition scheduler_init_task_el0 :: "kernel \<Rightarrow> task \<Rightarrow> task" where
  "scheduler_init_task_el0 k t =
     (let t = t\<lparr>t_el0 := scheduler_clear_el0\<rparr> in
      case task_space k t of
        None \<Rightarrow> t
      | Some space \<Rightarrow>
          if as_kind space \<noteq> ADDRESS_SPACE_USER then t
          else if \<not> as_user_mappings_ready space \<or> \<not> as_user_execute_ready space then t
          else t\<lparr>t_el0 := \<lparr>el_pc = (if as_user_image_ready space then as_user_image_entry space
                                     else as_user_code_start space),
                           el_sp = as_user_stack_end space AND NOT 0xf,
                           el_spsr = ARM64_SPSR_EL0T, el_ready = True\<rparr>\<rparr>)"

section \<open>Updating the task table\<close>

definition upd_task :: "nat \<Rightarrow> (task \<Rightarrow> task) \<Rightarrow> kernel \<Rightarrow> kernel" where
  "upd_task i f k = k\<lparr>tasks := (tasks k)[i := f (tasks k ! i)]\<rparr>"

definition set_state :: "task_state \<Rightarrow> task \<Rightarrow> task" where
  "set_state st t = t\<lparr>t_state := st\<rparr>"

definition upd_accounting :: "(task_accounting \<Rightarrow> task_accounting) \<Rightarrow> task \<Rightarrow> task" where
  "upd_accounting f t = t\<lparr>t_accounting := f (t_accounting t)\<rparr>"

definition upd_user_status :: "(task_user_status \<Rightarrow> task_user_status) \<Rightarrow> task \<Rightarrow> task" where
  "upd_user_status f t = t\<lparr>t_user_status := f (t_user_status t)\<rparr>"

text \<open>Calls on the address space a task points to, written back to where the space lives.\<close>

definition set_task_space :: "nat \<Rightarrow> address_space \<Rightarrow> kernel \<Rightarrow> kernel" where
  "set_task_space i space k =
     (case tm_space (t_memory (tasks k ! i)) of
        NoSpace \<Rightarrow> k
      | KernelSpace \<Rightarrow> k\<lparr>kernel_address_space := space\<rparr>
      | OwnSpace \<Rightarrow> upd_task i (\<lambda>t. t\<lparr>t_user_address_space := space\<rparr>) k)"

definition destroy_task_space :: "nat \<Rightarrow> kernel \<Rightarrow> kernel" where
  "destroy_task_space i k =
     (case task_space k (tasks k ! i) of
        None \<Rightarrow> k
      | Some space \<Rightarrow>
          let (space, tables) = address_space_destroy_user space (user_tables_of k)
          in set_task_space i space (k\<lparr>user_tables_of := tables\<rparr>))"

section \<open>The context switch\<close>

text \<open>
  \<open>cpu_switch_to\<close> stores the callee-saved registers in the first context and loads them from the
  second; the call returns in the other task.
\<close>

definition cpu_switch_to :: "nat \<Rightarrow> nat \<Rightarrow> kernel \<Rightarrow> kernel" where
  "cpu_switch_to previous next k =
     (let k = upd_task previous (\<lambda>t. t\<lparr>t_context := cpu k\<rparr>) k
      in k\<lparr>cpu := t_context (tasks k ! next)\<rparr>)"

end
