(* ===== verification/UserMode.thy ===== *)
theory UserMode
  imports Task
begin

text \<open>
  Entering and leaving EL0, arch/arm64/user.c: the per-task session that records how an excursion to
  EL0 ends, the entry checks, the handlers for exceptions and for the exit system call, and the
  translation root a task resumes with. The excursion itself (user_entry.S and the user's program) is
  a parameter.
\<close>

datatype user_mode_status =
  USER_MODE_READY | USER_MODE_NO_TASK | USER_MODE_NO_ADDRESS_SPACE | USER_MODE_NOT_USER_ADDRESS_SPACE |
  USER_MODE_ADDRESS_SPACE_INVALID | USER_MODE_NO_IMAGE | USER_MODE_EL0_NOT_READY | USER_MODE_BAD_ENTRY_STATE |
  USER_MODE_NOT_ELIGIBLE | USER_MODE_SWITCH_NOT_READY | USER_MODE_TASK_FAILED

section \<open>Sessions\<close>

definition user_session_current :: "kernel \<Rightarrow> nat" where
  "user_session_current k =
     (let pid = t_pid (tasks k ! current_task k) in
      if pid < 0 \<or> pid \<ge> int SCHED_MAX_TASKS then 0 else nat pid)"

abbreviation user_session :: "kernel \<Rightarrow> user_session_state" where
  "user_session k \<equiv> user_sessions k ! user_session_current k"

definition upd_session :: "(user_session_state \<Rightarrow> user_session_state) \<Rightarrow> kernel \<Rightarrow> kernel" where
  "upd_session f k = k\<lparr>user_sessions := (user_sessions k)[user_session_current k := f (user_session k)]\<rparr>"

definition switch_root :: "u64 \<Rightarrow> kernel \<Rightarrow> kernel" where
  "switch_root root k = k\<lparr>mmu := arm64_mmu_switch_ttbr0 root (mmu k)\<rparr>"

text \<open>An update of the task the session points to, if any.\<close>

definition upd_session_task :: "(task_user_status \<Rightarrow> task_user_status) \<Rightarrow> kernel \<Rightarrow> kernel" where
  "upd_session_task f k =
     (case ss_task (user_session k) of None \<Rightarrow> k | Some i \<Rightarrow> upd_task i (upd_user_status f) k)"

definition exception_class_value :: "u64 \<Rightarrow> u64" where
  "exception_class_value esr = drop_bit 26 esr AND 0x3f"

definition exception_iss_value :: "u64 \<Rightarrow> u64" where
  "exception_iss_value esr = esr AND 0x01ffffff"

definition user_session_reject_reason_name :: "user_session_reject_reason \<Rightarrow> string" where
  "user_session_reject_reason_name reason =
     (case reason of USER_SESSION_REJECT_NONE \<Rightarrow> ''none'' | USER_SESSION_REJECT_BAD_ROOTS \<Rightarrow> ''bad-roots''
      | USER_SESSION_REJECT_BAD_RETURN \<Rightarrow> ''bad-return'' | USER_SESSION_REJECT_UNEXPECTED_MODE \<Rightarrow> ''unexpected-mode'')"

definition user_session_reject :: "user_session_reject_reason \<Rightarrow> kernel \<Rightarrow> bool \<times> kernel" where
  "user_session_reject reason k =
     (let k = (if ss_kernel_root (user_session k) \<noteq> 0 then switch_root (ss_kernel_root (user_session k)) k else k);
          k = upd_session (\<lambda>s. s\<lparr>ss_last_reject_reason := reason, ss_reject_count := ss_reject_count s + 1\<rparr>) k;
          k = upd_session_task (\<lambda>u. u\<lparr>us_rejects := us_rejects u + 1\<rparr>) k
      in (False, upd_session (\<lambda>s. s\<lparr>ss_active := False\<rparr>) k))"

section \<open>Entry\<close>

definition user_mode_can_enter :: "kernel \<Rightarrow> task option \<Rightarrow> user_mode_status" where
  "user_mode_can_enter k task =
     (case task of None \<Rightarrow> USER_MODE_NO_TASK
      | Some t \<Rightarrow>
          (case task_space k t of None \<Rightarrow> USER_MODE_NO_ADDRESS_SPACE
           | Some space \<Rightarrow>
               if as_kind space \<noteq> ADDRESS_SPACE_USER then USER_MODE_NOT_USER_ADDRESS_SPACE
               else if \<not> as_validation_ready space \<or> as_validation_errors space \<noteq> 0 then USER_MODE_ADDRESS_SPACE_INVALID
               else if \<not> as_user_image_ready space then USER_MODE_NO_IMAGE
               else if \<not> el_ready (t_el0 t) then USER_MODE_EL0_NOT_READY
               else if el_pc (t_el0 t) = 0 \<or> el_sp (t_el0 t) = 0 \<or> el_sp (t_el0 t) AND 0xf \<noteq> 0 \<or>
                       el_spsr (t_el0 t) \<noteq> ARM64_SPSR_EL0T
               then USER_MODE_BAD_ENTRY_STATE
               else USER_MODE_READY))"

definition user_mode_prepare :: "kernel \<Rightarrow> task option \<Rightarrow> user_mode_status" where
  "user_mode_prepare k task = user_mode_can_enter k task"

definition user_mode_enter_stub ::
    "(task_el0_state \<Rightarrow> kernel \<Rightarrow> kernel) \<Rightarrow> kernel \<Rightarrow> task option \<Rightarrow> user_mode_status \<times> kernel" where
  "user_mode_enter_stub arm64_enter_el0 k task =
     (let status = user_mode_prepare k task in
      if status \<noteq> USER_MODE_READY then (status, k)
      else (USER_MODE_READY, case task of Some t \<Rightarrow> arm64_enter_el0 (t_el0 t) k | None \<Rightarrow> k))"

text \<open>
  \<open>user_mode_run_task\<close> in two parts, before and after the excursion: up to the exception return to EL0
  (None), or a refusal with its status; and from \<open>arm64_el0_task_return\<close> on.
\<close>

definition user_mode_begin :: "kernel_env \<Rightarrow> nat \<Rightarrow> kernel \<Rightarrow> user_mode_status option \<times> kernel" where
  "user_mode_begin env i k =
     (let status = user_mode_prepare k (Some (tasks k ! i)) in
      if status \<noteq> USER_MODE_READY then (Some status, k)
      else if t_state (tasks k ! i) \<noteq> TASK_ELIGIBLE \<and> t_state (tasks k ! i) \<noteq> TASK_RUNNING
      then (Some USER_MODE_NOT_ELIGIBLE, k)
      else
        case task_space k (tasks k ! i) of
          None \<Rightarrow> (Some USER_MODE_SWITCH_NOT_READY, k)
        | Some space \<Rightarrow>
            (case address_space_switch_stub space of (stub, space) \<Rightarrow>
               let k = set_task_space i space k in
               if stub \<noteq> ADDRESS_SPACE_SWITCH_STUB_READY then (Some USER_MODE_SWITCH_NOT_READY, k)
               else
                 let k = upd_session (\<lambda>s. s\<lparr>ss_active := True, ss_completed := False, ss_faulted := False,
                           ss_last_reject_reason := USER_SESSION_REJECT_NONE, ss_task := Some i,
                           ss_return_pc := code_address env arm64_el0_task_return,
                           ss_kernel_root := as_kernel_root_table space,
                           ss_user_root := as_target_root_table space\<rparr>) k;
                     k = switch_root (ss_user_root (user_session k)) k
                 in (None, upd_task i (upd_user_status (\<lambda>u. u\<lparr>us_el0_entries := us_el0_entries u + 1\<rparr>)) k)))"

definition user_mode_finish :: "nat \<Rightarrow> kernel \<Rightarrow> user_mode_status \<times> kernel" where
  "user_mode_finish i k =
     (if ss_completed (user_session k)
      then let k = upd_task i (upd_user_status (\<lambda>u. u\<lparr>us_recoveries := us_recoveries u + 1\<rparr>)) k;
               k = upd_session (\<lambda>s. s\<lparr>ss_task := None\<rparr>) k
           in (if ss_faulted (user_session k) then USER_MODE_TASK_FAILED else USER_MODE_READY, k)
      else let k = upd_session (\<lambda>s. s\<lparr>ss_active := False, ss_task := None\<rparr>) k
           in (USER_MODE_TASK_FAILED, switch_root (ss_kernel_root (user_session k)) k))"

text \<open>
  \<open>enter_el0 i\<close> is the excursion of task \<open>i\<close>: from the exception return to EL0 until control is back
  at \<open>arm64_el0_task_return\<close>. That the processor then goes on behind the call of \<open>arm64_enter_el0_task\<close> with
  the callee-saved registers it had there is taken for granted: user_entry.S returns through x30 and saves
  none of them, and the model has no general registers inside a kernel function.
\<close>

definition user_mode_run_task ::
    "kernel_env \<Rightarrow> (nat \<Rightarrow> kernel \<Rightarrow> kernel) \<Rightarrow> nat \<Rightarrow> kernel \<Rightarrow> user_mode_status \<times> kernel" where
  "user_mode_run_task env enter_el0 i k =
     (case user_mode_begin env i k of
        (Some status, k) \<Rightarrow> (status, k)
      | (None, k) \<Rightarrow> user_mode_finish i (enter_el0 i k))"

section \<open>Exceptions and exit\<close>

definition user_mode_handle_exception :: "u64 \<Rightarrow> u64 \<Rightarrow> u64 \<Rightarrow> u64 \<Rightarrow> kernel \<Rightarrow> bool \<times> kernel" where
  "user_mode_handle_exception esr elr far spsr k =
     (if \<not> ss_active (user_session k) then (False, k)
      else if ss_kernel_root (user_session k) = 0 \<or> ss_user_root (user_session k) = 0
      then user_session_reject USER_SESSION_REJECT_BAD_ROOTS k
      else if ss_return_pc (user_session k) = 0 then user_session_reject USER_SESSION_REJECT_BAD_RETURN k
      else if spsr AND 0xf \<noteq> 0 then user_session_reject USER_SESSION_REJECT_UNEXPECTED_MODE k
      else
        let k = switch_root (ss_kernel_root (user_session k)) k;
            k = upd_session_task (\<lambda>u. u\<lparr>us_traps := us_traps u + 1, us_rejects := us_rejects u + 1\<rparr>) k;
            k = upd_session (\<lambda>s. s\<lparr>ss_reject_count := ss_reject_count s + 1,
                  ss_last_reject_reason := USER_SESSION_REJECT_NONE, ss_completed := True, ss_faulted := True,
                  ss_active := False\<rparr>) k
        in (True, k\<lparr>elr_el1 := ss_return_pc (user_session k), spsr_el1 := ARM64_SPSR_EL1H\<rparr>))"

definition user_mode_handle_exit_syscall :: "u64 \<Rightarrow> kernel \<Rightarrow> bool \<times> kernel" where
  "user_mode_handle_exit_syscall code k =
     (if \<not> ss_active (user_session k) \<or> ss_return_pc (user_session k) = 0 then (False, k)
      else
        let k = (if ss_kernel_root (user_session k) \<noteq> 0 then switch_root (ss_kernel_root (user_session k)) k else k);
            k = upd_session_task (\<lambda>u. u\<lparr>us_traps := us_traps u + 1, us_exits := us_exits u + 1,
                  us_last_exit_code := code\<rparr>) k;
            k = upd_session (\<lambda>s. s\<lparr>ss_completed := True, ss_faulted := False, ss_active := False\<rparr>) k
        in (True, k\<lparr>elr_el1 := ss_return_pc (user_session k), spsr_el1 := ARM64_SPSR_EL1H\<rparr>))"

definition user_mode_active_address_space :: "kernel \<Rightarrow> address_space option" where
  "user_mode_active_address_space k =
     (if ss_active (user_session k)
      then (case ss_task (user_session k) of Some i \<Rightarrow> task_space k (tasks k ! i) | None \<Rightarrow> None)
      else None)"

definition user_mode_task_resume_root :: "kernel \<Rightarrow> task \<Rightarrow> u64" where
  "user_mode_task_resume_root k t =
     (if t_pid t < 0 \<or> t_pid t \<ge> int SCHED_MAX_TASKS then 0
      else
        case task_space k t of None \<Rightarrow> 0
        | Some space \<Rightarrow>
            if ss_active (user_sessions k ! nat (t_pid t)) then ss_user_root (user_sessions k ! nat (t_pid t))
            else as_kernel_root_table space)"

definition user_mode_status_name :: "user_mode_status \<Rightarrow> string" where
  "user_mode_status_name status =
     (case status of USER_MODE_READY \<Rightarrow> ''ready'' | USER_MODE_NO_TASK \<Rightarrow> ''no-task''
      | USER_MODE_NO_ADDRESS_SPACE \<Rightarrow> ''no-aspace'' | USER_MODE_NOT_USER_ADDRESS_SPACE \<Rightarrow> ''kernel-task''
      | USER_MODE_ADDRESS_SPACE_INVALID \<Rightarrow> ''bad-aspace'' | USER_MODE_NO_IMAGE \<Rightarrow> ''no-image''
      | USER_MODE_EL0_NOT_READY \<Rightarrow> ''no-el0'' | USER_MODE_BAD_ENTRY_STATE \<Rightarrow> ''bad-entry''
      | USER_MODE_NOT_ELIGIBLE \<Rightarrow> ''not-eligible'' | USER_MODE_SWITCH_NOT_READY \<Rightarrow> ''switch-not-ready''
      | USER_MODE_TASK_FAILED \<Rightarrow> ''task-failed'')"

definition user_mode_entry_state :: "kernel \<Rightarrow> task option \<Rightarrow> string" where
  "user_mode_entry_state k task = (if user_mode_can_enter k task = USER_MODE_READY then ''ready'' else ''blocked'')"

end
