(* ===== verification/Executable.thy ===== *)
theory Executable
  imports Mmu
begin

text \<open>
  The executable format of user programs, kernel/user/executable.c: a 24-byte little-endian header
  (magic, version, header size, code and data sizes, entry offset, checksum) followed by code and
  data. Pointers into the file are offsets from its start.
\<close>

abbreviation SATURN_EXEC_MAGIC :: u32 where "SATURN_EXEC_MAGIC \<equiv> 0x53415458"
abbreviation SATURN_EXEC_VERSION :: u16 where "SATURN_EXEC_VERSION \<equiv> 1"
abbreviation exec_header_bytes :: nat where "exec_header_bytes \<equiv> 24"

record saturn_exec_header =
  eh_magic :: u32
  eh_version :: u16
  eh_header_size :: u16
  eh_code_size :: u32
  eh_data_size :: u32
  eh_entry_offset :: u32
  eh_payload_checksum :: u32

record saturn_exec_image =
  ei_code :: nat
  ei_data :: nat
  ei_code_size :: u64
  ei_data_size :: u64
  ei_entry_offset :: u64

definition le16 :: "u16 \<Rightarrow> u8 list" where
  "le16 x = [ucast x, ucast (drop_bit 8 x)]"

definition un_le16 :: "u8 list \<Rightarrow> u16" where
  "un_le16 bs = ucast (bs ! 0) OR push_bit 8 (ucast (bs ! 1))"

text \<open>The cast of the file's first bytes to a header, and the bytes of a header.\<close>

definition exec_header_of :: "u8 list \<Rightarrow> saturn_exec_header" where
  "exec_header_of bs =
     \<lparr>eh_magic = un_le32 (slice 0 4 bs), eh_version = un_le16 (slice 4 2 bs), eh_header_size = un_le16 (slice 6 2 bs),
      eh_code_size = un_le32 (slice 8 4 bs), eh_data_size = un_le32 (slice 12 4 bs),
      eh_entry_offset = un_le32 (slice 16 4 bs), eh_payload_checksum = un_le32 (slice 20 4 bs)\<rparr>"

definition exec_header_to :: "saturn_exec_header \<Rightarrow> u8 list" where
  "exec_header_to h = le32 (eh_magic h) @ le16 (eh_version h) @ le16 (eh_header_size h) @ le32 (eh_code_size h) @
     le32 (eh_data_size h) @ le32 (eh_entry_offset h) @ le32 (eh_payload_checksum h)"

definition saturn_exec_checksum :: "u8 list \<Rightarrow> nat \<Rightarrow> u32" where
  "saturn_exec_checksum bytes sz =
     fold (\<lambda>b sum. (push_bit 5 sum XOR drop_bit 2 sum) XOR ucast b) (take sz bytes) 0"

text \<open>
  The comparison \<open>header->header_size + payload_size != file_size\<close> is on unsigned long, as is the
  subtraction before it.
\<close>

definition saturn_exec_parse :: "u8 list \<Rightarrow> u64 \<Rightarrow> saturn_exec_image option" where
  "saturn_exec_parse file file_size =
     (if file_size < of_nat exec_header_bytes then None
      else
        let header = exec_header_of file in
        if eh_magic header \<noteq> SATURN_EXEC_MAGIC \<or> eh_version header \<noteq> SATURN_EXEC_VERSION \<or>
           eh_header_size header \<noteq> of_nat exec_header_bytes \<or> eh_code_size header = 0 \<or>
           ucast (eh_code_size header) > ARM64_PAGE_SIZE \<or> ucast (eh_data_size header) > ARM64_PAGE_SIZE \<or>
           eh_entry_offset header \<ge> eh_code_size header \<or> eh_entry_offset header AND 3 \<noteq> 0
        then None
        else
          let payload_size = ucast (eh_code_size header) + ucast (eh_data_size header) :: u64 in
          if payload_size > file_size - ucast (eh_header_size header) \<or>
             ucast (eh_header_size header) + payload_size \<noteq> file_size
          then None
          else
            let payload = unat (eh_header_size header) in
            if saturn_exec_checksum (drop payload file) (unat payload_size) \<noteq> eh_payload_checksum header then None
            else Some \<lparr>ei_code = payload, ei_data = payload + unat (eh_code_size header),
                       ei_code_size = ucast (eh_code_size header), ei_data_size = ucast (eh_data_size header),
                       ei_entry_offset = ucast (eh_entry_offset header)\<rparr>)"

section \<open>Encoding\<close>

definition exec_encode :: "u8 list \<Rightarrow> u8 list \<Rightarrow> u32 \<Rightarrow> u8 list" where
  "exec_encode code data entry =
     exec_header_to \<lparr>eh_magic = SATURN_EXEC_MAGIC, eh_version = SATURN_EXEC_VERSION, eh_header_size = 24,
       eh_code_size = of_nat (length code), eh_data_size = of_nat (length data), eh_entry_offset = entry,
       eh_payload_checksum = saturn_exec_checksum (code @ data) (length (code @ data))\<rparr> @ code @ data"

definition exec_fits :: "u8 list \<Rightarrow> u8 list \<Rightarrow> u32 \<Rightarrow> bool" where
  "exec_fits code data entry \<longleftrightarrow>
     0 < length code \<and> length code \<le> 4096 \<and> length data \<le> 4096 \<and> unat entry < length code \<and> unat entry mod 4 = 0"

lemma length_le16 [simp]: "length (le16 x) = 2"
  by (simp add: le16_def)

lemma un_le16_le16 [simp]: "un_le16 (le16 x) = x"
proof (rule bit_word_eqI)
  fix n assume "n < LENGTH(16)"
  then consider "n < 8" | "8 \<le> n" "n < 16" by fastforce
  then show "bit (un_le16 (le16 x)) n = bit x n"
    by cases (auto simp: un_le16_def le16_def bit_simps)
qed

lemma le16_un_le16:
  assumes "length bs = 2"
  shows "le16 (un_le16 bs) = bs"
proof -
  obtain a b where bs: "bs = [a, b]" using assms by (auto simp: length_Suc_conv numeral_2_eq_2)
  have "ucast (un_le16 bs) = a" "ucast (drop_bit 8 (un_le16 bs)) = b"
    unfolding bs un_le16_def by (rule bit_word_eqI; auto simp: bit_simps dest: bit_imp_le_length)+
  then show ?thesis by (simp add: le16_def bs)
qed

lemma le32_un_le32:
  assumes "length bs = 4"
  shows "le32 (un_le32 bs) = bs"
proof -
  obtain a b c d where bs: "bs = [a, b, c, d]" using assms by (auto simp: length_Suc_conv eval_nat_numeral)
  have "ucast (un_le32 bs) = a" "ucast (drop_bit 8 (un_le32 bs)) = b"
    "ucast (drop_bit 16 (un_le32 bs)) = c" "ucast (drop_bit 24 (un_le32 bs)) = d"
    unfolding bs un_le32_def by (rule bit_word_eqI; auto simp: bit_simps dest: bit_imp_le_length)+
  then show ?thesis by (simp add: le32_def bs)
qed

lemma slice_append_left: "off + n \<le> length xs \<Longrightarrow> slice off n (xs @ ys) = slice off n xs"
  by (simp add: slice_def)

lemma length_exec_header_to [simp]: "length (exec_header_to h) = 24"
  by (simp add: exec_header_to_def)

lemma exec_header_of_to: "exec_header_of (exec_header_to h @ rest) = h"
  by (simp add: exec_header_of_def exec_header_to_def slice_def)

lemma slice_join: "slice a n bs @ slice (a + n) k bs = slice a (n + k) bs"
  by (simp add: slice_def take_add add.commute [of n a])

lemma exec_header_to_of:
  assumes "24 \<le> length bs"
  shows "exec_header_to (exec_header_of bs) = take 24 bs"
proof -
  have "slice 0 4 bs @ slice 4 2 bs @ slice 6 2 bs @ slice 8 4 bs @ slice 12 4 bs @ slice 16 4 bs @ slice 20 4 bs =
      slice 0 24 bs"
    using slice_join [of 16 4 bs 4] slice_join [of 12 4 bs 8] slice_join [of 8 4 bs 12] slice_join [of 6 2 bs 16]
      slice_join [of 4 2 bs 18] slice_join [of 0 4 bs 20] by simp
  then show ?thesis
    using assms by (simp add: exec_header_to_def exec_header_of_def le32_un_le32 le16_un_le16) (simp add: slice_def)
qed

lemma exec_checksum_take: "saturn_exec_checksum bytes n = saturn_exec_checksum (take n bytes) (length (take n bytes))"
  by (simp add: saturn_exec_checksum_def min_def)

lemma and_3_mod_4: "(x :: u32) AND 3 = 0 \<longleftrightarrow> unat x mod 4 = 0"
proof -
  have m: "(3 :: u32) = mask 2" by (simp add: mask_eq_exp_minus_1)
  show ?thesis unfolding m take_bit_eq_mask [symmetric]
    by (simp only: word_unat_eq_iff unsigned_take_bit_eq) (simp add: take_bit_eq_mod)
qed

lemma unat_ucast_32_64 [simp]: "unat (ucast (x :: u32) :: u64) = unat x"
  by (simp add: unsigned_ucast_eq) (simp add: take_bit_nat_eq_self less_trans [OF unsigned_less])

text \<open>The conditions of the parser in terms of natural numbers.\<close>

lemma parse_conditions:
  assumes "length file < 2 ^ 64"
  defines "h \<equiv> exec_header_of file"
  shows "saturn_exec_parse file (of_nat (length file)) = Some img \<longleftrightarrow>
    24 \<le> length file \<and> eh_magic h = SATURN_EXEC_MAGIC \<and> eh_version h = SATURN_EXEC_VERSION \<and> eh_header_size h = 24 \<and>
    0 < unat (eh_code_size h) \<and> unat (eh_code_size h) \<le> 4096 \<and> unat (eh_data_size h) \<le> 4096 \<and>
    unat (eh_entry_offset h) < unat (eh_code_size h) \<and> unat (eh_entry_offset h) mod 4 = 0 \<and>
    24 + unat (eh_code_size h) + unat (eh_data_size h) = length file \<and>
    saturn_exec_checksum (drop 24 file) (unat (eh_code_size h) + unat (eh_data_size h)) = eh_payload_checksum h \<and>
    img = \<lparr>ei_code = 24, ei_data = 24 + unat (eh_code_size h), ei_code_size = ucast (eh_code_size h),
      ei_data_size = ucast (eh_data_size h), ei_entry_offset = ucast (eh_entry_offset h)\<rparr>"
proof -
  let ?c = "ucast (eh_code_size h) :: u64" and ?d = "ucast (eh_data_size h) :: u64"
  have len: "unat (of_nat (length file) :: u64) = length file"
    using assms(1) unfolding unat_of_nat by (simp add: take_bit_nat_eq_self)
  have small: "of_nat (length file) < (24 :: u64) \<longleftrightarrow> length file < 24"
    by (simp add: word_less_nat_alt len)
  have sum: "unat (?c + ?d) = unat (eh_code_size h) + unat (eh_data_size h)"
    and all: "unat (24 + (?c + ?d)) = 24 + unat (eh_code_size h) + unat (eh_data_size h)"
    if "unat (eh_code_size h) \<le> 4096" "unat (eh_data_size h) \<le> 4096"
  proof -
    show s: "unat (?c + ?d) = unat (eh_code_size h) + unat (eh_data_size h)"
      using that by (subst unat_add_no_wrap) simp_all
    show "unat (24 + (?c + ?d)) = 24 + unat (eh_code_size h) + unat (eh_data_size h)"
      using that s by (subst unat_add_no_wrap) simp_all
  qed
  have size: "\<not> (?c + ?d > of_nat (length file) - 24 \<or> 24 + (?c + ?d) \<noteq> of_nat (length file)) \<longleftrightarrow>
      24 + unat (eh_code_size h) + unat (eh_data_size h) = length file"
    if "24 \<le> length file" "unat (eh_code_size h) \<le> 4096" "unat (eh_data_size h) \<le> 4096"
  proof -
    have "unat (of_nat (length file) - 24 :: u64) = length file - 24"
      using that(1) small by (subst unat_diff_le) (simp_all add: len not_less)
    then show ?thesis
      using sum [OF that(2,3)] all [OF that(2,3)]
      by (auto simp: word_less_nat_alt word_unat_eq_iff len)
  qed
  let ?head = "eh_magic h \<noteq> SATURN_EXEC_MAGIC \<or> eh_version h \<noteq> SATURN_EXEC_VERSION \<or> eh_header_size h \<noteq> of_nat 24 \<or>
     eh_code_size h = 0 \<or> ?c > ARM64_PAGE_SIZE \<or> ?d > ARM64_PAGE_SIZE \<or> eh_entry_offset h \<ge> eh_code_size h \<or>
     eh_entry_offset h AND 3 \<noteq> 0"
  have head: "\<not> ?head \<longleftrightarrow> eh_magic h = SATURN_EXEC_MAGIC \<and> eh_version h = SATURN_EXEC_VERSION \<and> eh_header_size h = 24 \<and>
    0 < unat (eh_code_size h) \<and> unat (eh_code_size h) \<le> 4096 \<and> unat (eh_data_size h) \<le> 4096 \<and>
    unat (eh_entry_offset h) < unat (eh_code_size h) \<and> unat (eh_entry_offset h) mod 4 = 0"
    by (simp add: word_less_nat_alt word_le_nat_alt and_3_mod_4 unat_gt_0 not_less not_le) blast
  show ?thesis
  proof (cases "24 \<le> length file \<and> \<not> ?head")
    case False
    then have "saturn_exec_parse file (of_nat (length file)) = None"
      using small unfolding saturn_exec_parse_def Let_def h_def [symmetric] by (auto simp: not_le)
    with False show ?thesis unfolding head by auto
  next
    case True
    then have hs: "eh_header_size h = 24" "unat (eh_code_size h) \<le> 4096" "unat (eh_data_size h) \<le> 4096"
      and ok: "\<not> ?head" "\<not> of_nat (length file) < (of_nat 24 :: u64)"
      unfolding head using small by simp_all
    have "saturn_exec_parse file (of_nat (length file)) = Some img \<longleftrightarrow>
      24 + unat (eh_code_size h) + unat (eh_data_size h) = length file \<and>
      saturn_exec_checksum (drop 24 file) (unat (eh_code_size h) + unat (eh_data_size h)) = eh_payload_checksum h \<and>
      img = \<lparr>ei_code = 24, ei_data = 24 + unat (eh_code_size h), ei_code_size = ucast (eh_code_size h),
        ei_data_size = ucast (eh_data_size h), ei_entry_offset = ucast (eh_entry_offset h)\<rparr>"
      unfolding saturn_exec_parse_def Let_def h_def [symmetric] if_not_P [OF ok(2)] if_not_P [OF ok(1)]
      using size [OF conjunct1 [OF True] hs(2,3)] sum [OF hs(2,3)] by (auto simp: hs(1))
    with True show ?thesis unfolding head by blast
  qed
qed

lemma length_exec_encode [simp]: "length (exec_encode code data entry) = 24 + length code + length data"
  by (simp add: exec_encode_def)

text \<open>An encoded program is parsed.\<close>

lemma exec_parse_encode:
  assumes "exec_fits code data entry"
  shows "saturn_exec_parse (exec_encode code data entry) (of_nat (length (exec_encode code data entry))) =
    Some \<lparr>ei_code = 24, ei_data = 24 + length code, ei_code_size = of_nat (length code),
        ei_data_size = of_nat (length data), ei_entry_offset = ucast entry\<rparr>"
proof -
  let ?file = "exec_encode code data entry"
  have h: "exec_header_of ?file = \<lparr>eh_magic = SATURN_EXEC_MAGIC, eh_version = SATURN_EXEC_VERSION, eh_header_size = 24,
       eh_code_size = of_nat (length code), eh_data_size = of_nat (length data), eh_entry_offset = entry,
       eh_payload_checksum = saturn_exec_checksum (code @ data) (length (code @ data))\<rparr>"
    unfolding exec_encode_def by (rule exec_header_of_to)
  have u: "unat (of_nat n :: u32) = n" "unat (of_nat n :: u64) = n" if "n \<le> 4096" for n
    using that unfolding unat_of_nat by (simp_all add: take_bit_nat_eq_self)
  have d: "drop 24 ?file = code @ data" unfolding exec_encode_def by simp
  have w: "(ucast (of_nat n :: u32) :: u64) = of_nat n" if "n \<le> 4096" for n
    using u [OF that] by (simp add: word_unat_eq_iff)
  have "length ?file < 2 ^ 64" using assms by (simp add: exec_fits_def)
  then show ?thesis
    unfolding parse_conditions [OF \<open>length ?file < 2 ^ 64\<close>] h d
    using assms u w by (simp add: exec_fits_def)
qed

text \<open>
  C22: the parser accepts exactly the files that encode a program. With the length of the file as its
  size, saturn_exec_parse returns an image if and only if the file is the header of some code and data
  that fit a page each, with an aligned entry inside the code, followed by that code and data; the
  image describes them.
\<close>

theorem saturn_exec_parse_exact:
  assumes "length file < 2 ^ 64"
  shows "saturn_exec_parse file (of_nat (length file)) = Some img \<longleftrightarrow>
    (\<exists>code data entry. exec_fits code data entry \<and> file = exec_encode code data entry \<and>
      img = \<lparr>ei_code = 24, ei_data = 24 + length code, ei_code_size = of_nat (length code),
        ei_data_size = of_nat (length data), ei_entry_offset = ucast entry\<rparr>)"
proof
  let ?h = "exec_header_of file"
  assume "saturn_exec_parse file (of_nat (length file)) = Some img"
  note p = this [unfolded parse_conditions [OF assms]]
  let ?code = "slice 24 (unat (eh_code_size ?h)) file"
  let ?data = "slice (24 + unat (eh_code_size ?h)) (unat (eh_data_size ?h)) file"
  have len: "length ?code = unat (eh_code_size ?h)" "length ?data = unat (eh_data_size ?h)"
    using p by (simp_all add: length_slice)
  have "length file - 24 \<le> unat (eh_code_size ?h) + unat (eh_data_size ?h)" using p by linarith
  then have cd: "?code @ ?data = drop 24 file" unfolding slice_join by (simp add: slice_def)
  have "exec_header_of file =
    \<lparr>eh_magic = SATURN_EXEC_MAGIC, eh_version = SATURN_EXEC_VERSION, eh_header_size = 24,
       eh_code_size = of_nat (length ?code), eh_data_size = of_nat (length ?data), eh_entry_offset = eh_entry_offset ?h,
       eh_payload_checksum = saturn_exec_checksum (?code @ ?data) (length (?code @ ?data))\<rparr>"
  proof -
    have "length (drop 24 file) = unat (eh_code_size ?h) + unat (eh_data_size ?h)" using p by (simp only: length_drop) linarith
    then show ?thesis using p unfolding cd len by (intro saturn_exec_header.equality) simp_all
  qed
  then have "exec_encode ?code ?data (eh_entry_offset ?h) = exec_header_to ?h @ ?code @ ?data"
    by (simp only: exec_encode_def)
  also have "\<dots> = file" unfolding cd using exec_header_to_of [of "file"] p by simp
  finally have "file = exec_encode ?code ?data (eh_entry_offset ?h)" ..
  moreover have "exec_fits ?code ?data (eh_entry_offset ?h)" using p unfolding exec_fits_def len by simp
  moreover have "img = \<lparr>ei_code = 24, ei_data = 24 + length ?code, ei_code_size = of_nat (length ?code),
      ei_data_size = of_nat (length ?data), ei_entry_offset = ucast (eh_entry_offset ?h)\<rparr>"
    using p unfolding len by (simp add: word_unat_eq_iff)
  ultimately show "\<exists>code data entry. exec_fits code data entry \<and> file = exec_encode code data entry \<and>
      img = \<lparr>ei_code = 24, ei_data = 24 + length code, ei_code_size = of_nat (length code),
        ei_data_size = of_nat (length data), ei_entry_offset = ucast entry\<rparr>" by blast
next
  assume "\<exists>code data entry. exec_fits code data entry \<and> file = exec_encode code data entry \<and>
      img = \<lparr>ei_code = 24, ei_data = 24 + length code, ei_code_size = of_nat (length code),
        ei_data_size = of_nat (length data), ei_entry_offset = ucast entry\<rparr>"
  then show "saturn_exec_parse file (of_nat (length file)) = Some img" using exec_parse_encode by blast
qed

theorem saturn_exec_parse_exact_witness:
  "saturn_exec_parse (exec_encode [0, 0, 0x20, 0xd4] [1, 2] 0) (of_nat (length (exec_encode [0, 0, 0x20, 0xd4] [1, 2] 0))) =
   Some \<lparr>ei_code = 24, ei_data = 24 + length [0 :: u8, 0, 0x20, 0xd4], ei_code_size = of_nat (length [0 :: u8, 0, 0x20, 0xd4]),
     ei_data_size = of_nat (length [1 :: u8, 2]), ei_entry_offset = ucast (0 :: u32)\<rparr>"
proof -
  have "length (exec_encode [0, 0, 0x20, 0xd4] [1, 2] 0) < 2 ^ 64" "exec_fits [0, 0, 0x20, 0xd4] [1, 2] 0"
    by (simp_all add: exec_fits_def)
  then show ?thesis using saturn_exec_parse_exact by blast
qed

end
