(* ===== verification/Virtio.thy ===== *)
theory Virtio
  imports Prelude
begin

text \<open>
  The virtio-mmio block driver, drivers/storage/virtio_blk.c: probing the transports, setting up
  the request queue and transferring sectors. The device is hardware, so it is a parameter: a record
  of its register file, its reaction to a queue notification, the passage of time between two polls
  of the used ring, and the contents of its medium. \<open>virtio_lawful\<close> states what the virtio
  specification documents of a healthy device.
\<close>

section \<open>Device and driver state\<close>

abbreviation VIRTIO_MMIO_BASE :: u64 where "VIRTIO_MMIO_BASE \<equiv> 0x0a000000"
abbreviation VIRTIO_MMIO_STRIDE :: u64 where "VIRTIO_MMIO_STRIDE \<equiv> 0x200"
abbreviation VIRTIO_MMIO_TRANSPORTS :: nat where "VIRTIO_MMIO_TRANSPORTS \<equiv> 32"
abbreviation VIRTIO_MMIO_VERSION :: u64 where "VIRTIO_MMIO_VERSION \<equiv> 0x004"
abbreviation VIRTIO_MMIO_DEVICE_ID :: u64 where "VIRTIO_MMIO_DEVICE_ID \<equiv> 0x008"
abbreviation VIRTIO_MMIO_DEVICE_FEATURES :: u64 where "VIRTIO_MMIO_DEVICE_FEATURES \<equiv> 0x010"
abbreviation VIRTIO_MMIO_DEVICE_FEATURES_SEL :: u64 where "VIRTIO_MMIO_DEVICE_FEATURES_SEL \<equiv> 0x014"
abbreviation VIRTIO_MMIO_DRIVER_FEATURES :: u64 where "VIRTIO_MMIO_DRIVER_FEATURES \<equiv> 0x020"
abbreviation VIRTIO_MMIO_DRIVER_FEATURES_SEL :: u64 where "VIRTIO_MMIO_DRIVER_FEATURES_SEL \<equiv> 0x024"
abbreviation VIRTIO_MMIO_GUEST_PAGE_SIZE :: u64 where "VIRTIO_MMIO_GUEST_PAGE_SIZE \<equiv> 0x028"
abbreviation VIRTIO_MMIO_QUEUE_SEL :: u64 where "VIRTIO_MMIO_QUEUE_SEL \<equiv> 0x030"
abbreviation VIRTIO_MMIO_QUEUE_NUM_MAX :: u64 where "VIRTIO_MMIO_QUEUE_NUM_MAX \<equiv> 0x034"
abbreviation VIRTIO_MMIO_QUEUE_NUM :: u64 where "VIRTIO_MMIO_QUEUE_NUM \<equiv> 0x038"
abbreviation VIRTIO_MMIO_QUEUE_ALIGN :: u64 where "VIRTIO_MMIO_QUEUE_ALIGN \<equiv> 0x03c"
abbreviation VIRTIO_MMIO_QUEUE_PFN :: u64 where "VIRTIO_MMIO_QUEUE_PFN \<equiv> 0x040"
abbreviation VIRTIO_MMIO_QUEUE_READY :: u64 where "VIRTIO_MMIO_QUEUE_READY \<equiv> 0x044"
abbreviation VIRTIO_MMIO_STATUS :: u64 where "VIRTIO_MMIO_STATUS \<equiv> 0x070"
abbreviation VIRTIO_MMIO_QUEUE_DESC_LOW :: u64 where "VIRTIO_MMIO_QUEUE_DESC_LOW \<equiv> 0x080"
abbreviation VIRTIO_MMIO_QUEUE_DESC_HIGH :: u64 where "VIRTIO_MMIO_QUEUE_DESC_HIGH \<equiv> 0x084"
abbreviation VIRTIO_MMIO_QUEUE_DRIVER_LOW :: u64 where "VIRTIO_MMIO_QUEUE_DRIVER_LOW \<equiv> 0x090"
abbreviation VIRTIO_MMIO_QUEUE_DRIVER_HIGH :: u64 where "VIRTIO_MMIO_QUEUE_DRIVER_HIGH \<equiv> 0x094"
abbreviation VIRTIO_MMIO_QUEUE_DEVICE_LOW :: u64 where "VIRTIO_MMIO_QUEUE_DEVICE_LOW \<equiv> 0x0a0"
abbreviation VIRTIO_MMIO_QUEUE_DEVICE_HIGH :: u64 where "VIRTIO_MMIO_QUEUE_DEVICE_HIGH \<equiv> 0x0a4"
abbreviation VIRTIO_MMIO_CONFIG :: u64 where "VIRTIO_MMIO_CONFIG \<equiv> 0x100"
abbreviation VIRTIO_BLK_QUEUE_ALIGN :: u32 where "VIRTIO_BLK_QUEUE_ALIGN \<equiv> 4096"
abbreviation VIRTIO_BLK_QUEUE_SIZE :: u32 where "VIRTIO_BLK_QUEUE_SIZE \<equiv> 8"
abbreviation VIRTIO_BLK_TIMEOUT :: nat where "VIRTIO_BLK_TIMEOUT \<equiv> 10000000"

text \<open>The three objects a request's descriptors point at.\<close>

datatype desc_target = DescRequest | DescBuffer | DescStatus

record virtq_desc =
  vd_addr :: desc_target
  vd_len :: u32
  vd_flags :: u16
  vd_next :: u16

record virtio_blk_request =
  vr_type :: u32
  vr_reserved :: u32
  vr_sector :: u64

text \<open>What the device finds in memory when it is notified.\<close>

record submission =
  sub_request :: virtio_blk_request
  sub_chain :: "virtq_desc list"
  sub_buffer :: "u8 list"

text \<open>
  The device. \<open>hw_notify\<close> is the write to QUEUE_NOTIFY with the queue as it stands, \<open>hw_poll\<close> the
  time that passes until the next poll; the other selectors are what the driver can then see of
  used->idx, of the status byte and of the data buffer. \<open>hw_medium\<close> is the medium itself and
  \<open>hw_queue_memory\<close> the address of the queue.
\<close>

record 'd virtio_hw =
  hw_read32 :: "u64 \<Rightarrow> 'd \<Rightarrow> u32"
  hw_write32 :: "u64 \<Rightarrow> u32 \<Rightarrow> 'd \<Rightarrow> 'd"
  hw_notify :: "submission \<Rightarrow> 'd \<Rightarrow> 'd"
  hw_poll :: "'d \<Rightarrow> 'd"
  hw_used_idx :: "'d \<Rightarrow> u16"
  hw_status_byte :: "'d \<Rightarrow> u8"
  hw_buffer :: "'d \<Rightarrow> u8 list"
  hw_medium :: "'d \<Rightarrow> u8 list"
  hw_queue_memory :: u64

record 'd virtio =
  vdev :: 'd
  device_base :: u64
  device_sectors :: u64
  last_used :: u16
  avail_idx :: u16
  device_ready :: bool

section \<open>Probing\<close>

definition virtio_blk_probe :: "'d virtio_hw \<Rightarrow> u64 \<Rightarrow> 'd virtio \<Rightarrow> bool \<times> 'd virtio" where
  "virtio_blk_probe hw base v =
     (let rd = (\<lambda>off d. hw_read32 hw (base + off) d);
          wr = (\<lambda>off x d. hw_write32 hw (base + off) x d);
          d = vdev v
      in
      if rd 0x000 d \<noteq> 0x74726976 \<or> rd VIRTIO_MMIO_DEVICE_ID d \<noteq> 2 then (False, v)
      else
        let version = rd VIRTIO_MMIO_VERSION d in
        if version \<noteq> 2 \<and> version \<noteq> 1 then (False, v)
        else
          let d = wr VIRTIO_MMIO_STATUS 0 d;
              status = (1 OR 2 :: u32);
              d = wr VIRTIO_MMIO_STATUS status d;
              (ok, status, d) =
                (if version = 2 then
                   let d = wr VIRTIO_MMIO_DEVICE_FEATURES_SEL 1 d in
                   if rd VIRTIO_MMIO_DEVICE_FEATURES d AND 1 = 0
                   then (False, status, wr VIRTIO_MMIO_STATUS 0 d)
                   else
                     let d = wr VIRTIO_MMIO_DRIVER_FEATURES_SEL 0 d;
                         d = wr VIRTIO_MMIO_DRIVER_FEATURES 0 d;
                         d = wr VIRTIO_MMIO_DRIVER_FEATURES_SEL 1 d;
                         d = wr VIRTIO_MMIO_DRIVER_FEATURES 1 d;
                         status = status OR 8;
                         d = wr VIRTIO_MMIO_STATUS status d
                     in if rd VIRTIO_MMIO_STATUS d AND 8 = 0
                        then (False, status, wr VIRTIO_MMIO_STATUS 0 d)
                        else (True, status, d)
                 else
                   let d = wr VIRTIO_MMIO_DRIVER_FEATURES 0 d;
                       d = wr VIRTIO_MMIO_GUEST_PAGE_SIZE VIRTIO_BLK_QUEUE_ALIGN d
                   in (True, status, d))
          in
          if \<not> ok then (False, v\<lparr>vdev := d\<rparr>)
          else
            let d = wr VIRTIO_MMIO_QUEUE_SEL 0 d in
            if rd VIRTIO_MMIO_QUEUE_NUM_MAX d < VIRTIO_BLK_QUEUE_SIZE
            then (False, v\<lparr>vdev := wr VIRTIO_MMIO_STATUS 0 d\<rparr>)
            else
              let queue = hw_queue_memory hw;
                  available = queue + 16 * 8;
                  used = queue + 4096;
                  d = wr VIRTIO_MMIO_QUEUE_NUM VIRTIO_BLK_QUEUE_SIZE d;
                  d = (if version = 2 then
                         let d = wr VIRTIO_MMIO_QUEUE_READY 0 d;
                             d = wr VIRTIO_MMIO_QUEUE_DESC_LOW (ucast queue) d;
                             d = wr VIRTIO_MMIO_QUEUE_DESC_HIGH (ucast (drop_bit 32 queue)) d;
                             d = wr VIRTIO_MMIO_QUEUE_DRIVER_LOW (ucast available) d;
                             d = wr VIRTIO_MMIO_QUEUE_DRIVER_HIGH (ucast (drop_bit 32 available)) d;
                             d = wr VIRTIO_MMIO_QUEUE_DEVICE_LOW (ucast used) d;
                             d = wr VIRTIO_MMIO_QUEUE_DEVICE_HIGH (ucast (drop_bit 32 used)) d
                         in wr VIRTIO_MMIO_QUEUE_READY 1 d
                       else
                         let d = wr VIRTIO_MMIO_QUEUE_ALIGN VIRTIO_BLK_QUEUE_ALIGN d
                         in wr VIRTIO_MMIO_QUEUE_PFN (ucast (drop_bit 12 queue)) d);
                  sectors = ucast (rd VIRTIO_MMIO_CONFIG d) OR
                            push_bit 32 (ucast (rd (VIRTIO_MMIO_CONFIG + 4) d));
                  d = wr VIRTIO_MMIO_STATUS (status OR 4) d
              in (sectors > 0,
                  v\<lparr>vdev := d, device_base := base, device_sectors := sectors, last_used := 0,
                    avail_idx := 0, device_ready := sectors > 0\<rparr>))"

fun virtio_probe_from :: "'d virtio_hw \<Rightarrow> nat \<Rightarrow> nat \<Rightarrow> 'd virtio \<Rightarrow> bool \<times> 'd virtio" where
  "virtio_probe_from hw i 0 v = (False, v)"
| "virtio_probe_from hw i (Suc n) v =
     (case virtio_blk_probe hw (VIRTIO_MMIO_BASE + of_nat i * VIRTIO_MMIO_STRIDE) v of
        (True, v) \<Rightarrow> (True, v)
      | (False, v) \<Rightarrow> virtio_probe_from hw (Suc i) n v)"

definition virtio_blk_init :: "'d virtio_hw \<Rightarrow> 'd virtio \<Rightarrow> bool \<times> 'd virtio" where
  "virtio_blk_init hw v =
     virtio_probe_from hw 0 VIRTIO_MMIO_TRANSPORTS (v\<lparr>device_ready := False\<rparr>)"

section \<open>Transfers\<close>

text \<open>The bounded wait for used->idx to reach the expected value.\<close>

fun virtio_wait :: "'d virtio_hw \<Rightarrow> nat \<Rightarrow> u16 \<Rightarrow> 'd \<Rightarrow> bool \<times> 'd" where
  "virtio_wait hw 0 expected d = (False, d)"
| "virtio_wait hw (Suc n) expected d =
     (let d = hw_poll hw d in
      if hw_used_idx hw d = expected then (True, d) else virtio_wait hw n expected d)"

definition virtio_chain :: "u64 \<Rightarrow> bool \<Rightarrow> virtq_desc list" where
  "virtio_chain count write =
     [\<lparr>vd_addr = DescRequest, vd_len = 16, vd_flags = 1, vd_next = 1\<rparr>,
      \<lparr>vd_addr = DescBuffer, vd_len = ucast (count * 512), vd_flags = 1 OR (if write then 0 else 2),
       vd_next = 2\<rparr>,
      \<lparr>vd_addr = DescStatus, vd_len = 1, vd_flags = 2, vd_next = 0\<rparr>]"

text \<open>The result is the buffer after the transfer, \<open>None\<close> for the return value 0.\<close>

definition virtio_blk_transfer ::
    "'d virtio_hw \<Rightarrow> u64 \<Rightarrow> u8 list \<Rightarrow> u64 \<Rightarrow> bool \<Rightarrow> 'd virtio \<Rightarrow> u8 list option \<times> 'd virtio" where
  "virtio_blk_transfer hw sector buffer count write v =
     (if \<not> device_ready v \<or> count = 0 \<or> sector \<ge> device_sectors v \<or>
         count > device_sectors v - sector \<or> count > 0xffffffff div 512
      then (None, v)
      else
        let request = \<lparr>vr_type = (if write then 1 else 0), vr_reserved = 0, vr_sector = sector\<rparr>;
            expected = last_used v + 1;
            d = hw_notify hw \<lparr>sub_request = request, sub_chain = virtio_chain count write,
                              sub_buffer = buffer\<rparr> (vdev v)
        in case virtio_wait hw VIRTIO_BLK_TIMEOUT expected d of
             (True, d) \<Rightarrow>
               (if hw_status_byte hw d = 0 then Some (hw_buffer hw d) else None,
                v\<lparr>vdev := d, avail_idx := avail_idx v + 1, last_used := expected\<rparr>)
           | (False, d) \<Rightarrow> (None, v\<lparr>vdev := d, avail_idx := avail_idx v + 1\<rparr>))"

definition virtio_blk_read ::
    "'d virtio_hw \<Rightarrow> u64 \<Rightarrow> u64 \<Rightarrow> u8 list \<Rightarrow> 'd virtio \<Rightarrow> u8 list option \<times> 'd virtio" where
  "virtio_blk_read hw sector count buffer v = virtio_blk_transfer hw sector buffer count False v"

definition virtio_blk_write ::
    "'d virtio_hw \<Rightarrow> u64 \<Rightarrow> u8 list \<Rightarrow> u64 \<Rightarrow> 'd virtio \<Rightarrow> bool \<times> 'd virtio" where
  "virtio_blk_write hw sector buffer count v =
     (case virtio_blk_transfer hw sector buffer count True v of (r, v) \<Rightarrow> (r \<noteq> None, v))"

definition virtio_blk_sector_count :: "'d virtio \<Rightarrow> u64" where
  "virtio_blk_sector_count v = device_sectors v"

definition virtio_blk_ready :: "'d virtio \<Rightarrow> bool" where
  "virtio_blk_ready v = device_ready v"

section \<open>A healthy device\<close>

text \<open>
  What the virtio specification promises for a request inside the medium: within the driver's
  timeout used->idx advances by one, not before the request is done, with status OK, and the medium
  or the buffer has the data. \<open>good\<close> is the set of device states the promise covers.
\<close>

definition virtio_request :: "u64 \<Rightarrow> u8 list \<Rightarrow> u64 \<Rightarrow> bool \<Rightarrow> submission" where
  "virtio_request sector buffer count write =
     \<lparr>sub_request = \<lparr>vr_type = (if write then 1 else 0), vr_reserved = 0, vr_sector = sector\<rparr>,
      sub_chain = virtio_chain count write, sub_buffer = buffer\<rparr>"

definition virtio_lawful :: "'d virtio_hw \<Rightarrow> ('d \<Rightarrow> bool) \<Rightarrow> bool" where
  "virtio_lawful hw good \<longleftrightarrow>
     (\<forall>d sector buffer count write.
        good d \<and> (unat sector + unat count) * 512 \<le> length (hw_medium hw d) \<and>
        length buffer = unat count * 512 \<longrightarrow>
        (\<exists>n<VIRTIO_BLK_TIMEOUT.
           let d0 = hw_notify hw (virtio_request sector buffer count write) d;
               d' = (hw_poll hw ^^ Suc n) d0
           in (\<forall>k<n. hw_used_idx hw ((hw_poll hw ^^ Suc k) d0) = hw_used_idx hw d) \<and>
              hw_used_idx hw d' = hw_used_idx hw d + 1 \<and> hw_status_byte hw d' = 0 \<and> good d' \<and>
              (if write then hw_medium hw d' = splice (hw_medium hw d) (unat sector * 512) buffer \<and>
                             hw_buffer hw d' = buffer
               else hw_medium hw d' = hw_medium hw d \<and>
                    hw_buffer hw d' = slice (unat sector * 512) (unat count * 512) (hw_medium hw d))))"

definition virtio_ok :: "'d virtio_hw \<Rightarrow> ('d \<Rightarrow> bool) \<Rightarrow> 'd virtio \<Rightarrow> bool" where
  "virtio_ok hw good v \<longleftrightarrow> virtio_lawful hw good \<and> good (vdev v) \<and> device_ready v \<and>
     last_used v = hw_used_idx hw (vdev v) \<and> unat (device_sectors v) < 2 ^ 22 \<and>
     length (hw_medium hw (vdev v)) = unat (device_sectors v) * 512"

lemma virtio_wait_first:
  assumes "n < N" "hw_used_idx hw ((hw_poll hw ^^ Suc n) d) = e"
    and "\<forall>k<n. hw_used_idx hw ((hw_poll hw ^^ Suc k) d) \<noteq> e"
  shows "virtio_wait hw N e d = (True, (hw_poll hw ^^ Suc n) d)"
  using assms
proof (induction N arbitrary: n d)
  case (Suc N)
  show ?case
  proof (cases n)
    case 0
    with Suc.prems show ?thesis by simp
  next
    case (Suc m)
    have "virtio_wait hw N e (hw_poll hw d) = (True, (hw_poll hw ^^ Suc m) (hw_poll hw d))"
    proof (rule Suc.IH)
      show "\<forall>k<m. hw_used_idx hw ((hw_poll hw ^^ Suc k) (hw_poll hw d)) \<noteq> e"
        using Suc.prems(3) Suc by (auto simp: funpow_swap1 dest: spec [where x = "Suc _"])
    qed (use Suc.prems Suc in \<open>auto simp: funpow_swap1\<close>)
    moreover have "hw_used_idx hw (hw_poll hw d) \<noteq> e" using Suc.prems(3) Suc by (auto dest: spec [where x = 0])
    ultimately show ?thesis using Suc by (simp add: funpow_swap1)
  qed
qed simp

lemma virtio_transfer_ok:
  assumes ok: "virtio_ok hw good v" and "0 < unat count" "unat sector + unat count \<le> unat (device_sectors v)"
    and "length buffer = unat count * 512"
  shows "\<exists>v'. virtio_ok hw good v' \<and> device_sectors v' = device_sectors v \<and>
    (if write then virtio_blk_transfer hw sector buffer count write v = (Some buffer, v') \<and>
        hw_medium hw (vdev v') = splice (hw_medium hw (vdev v)) (unat sector * 512) buffer
     else virtio_blk_transfer hw sector buffer count write v =
            (Some (slice (unat sector * 512) (unat count * 512) (hw_medium hw (vdev v))), v') \<and>
        hw_medium hw (vdev v') = hw_medium hw (vdev v))"
proof -
  let ?d = "vdev v"
  let ?start = "hw_notify hw (virtio_request sector buffer count write) ?d"
  from ok have law: "virtio_lawful hw good" and good: "good ?d" and ready: "device_ready v"
    and used: "last_used v = hw_used_idx hw ?d" and small: "unat (device_sectors v) < 2 ^ 22"
    and len: "length (hw_medium hw ?d) = unat (device_sectors v) * 512"
    by (auto simp: virtio_ok_def)
  have range: "(unat sector + unat count) * 512 \<le> length (hw_medium hw ?d)" using assms(3) len by simp
  from law good range assms(4) obtain n where n: "n < VIRTIO_BLK_TIMEOUT"
    "\<forall>k<n. hw_used_idx hw ((hw_poll hw ^^ Suc k) ?start) = hw_used_idx hw ?d"
    "hw_used_idx hw ((hw_poll hw ^^ Suc n) ?start) = hw_used_idx hw ?d + 1"
    "hw_status_byte hw ((hw_poll hw ^^ Suc n) ?start) = 0" "good ((hw_poll hw ^^ Suc n) ?start)"
    "if write then hw_medium hw ((hw_poll hw ^^ Suc n) ?start) = splice (hw_medium hw ?d) (unat sector * 512) buffer \<and>
          hw_buffer hw ((hw_poll hw ^^ Suc n) ?start) = buffer
     else hw_medium hw ((hw_poll hw ^^ Suc n) ?start) = hw_medium hw ?d \<and>
          hw_buffer hw ((hw_poll hw ^^ Suc n) ?start) = slice (unat sector * 512) (unat count * 512) (hw_medium hw ?d)"
    unfolding virtio_lawful_def Let_def by blast
  define d' where "d' = (hw_poll hw ^^ Suc n) ?start"
  have wait: "virtio_wait hw VIRTIO_BLK_TIMEOUT (last_used v + 1) ?start = (True, d')"
    unfolding d'_def by (rule virtio_wait_first [OF n(1)]) (use n(2,3) used in simp_all)
  have "sector < device_sectors v" "\<not> count > device_sectors v - sector" "count \<noteq> 0" "\<not> count > 0xffffffff div 512"
    using assms(2,3) small
    by (auto simp: word_less_nat_alt unat_sub word_le_nat_alt unat_div)
  then have step: "virtio_blk_transfer hw sector buffer count write v =
      (Some (hw_buffer hw d'), v\<lparr>vdev := d', avail_idx := avail_idx v + 1, last_used := last_used v + 1\<rparr>)"
    using ready wait n(4) unfolding virtio_blk_transfer_def Let_def virtio_request_def [symmetric] d'_def [symmetric]
    by (simp add: not_le del: virtio_wait.simps)
  have "length (hw_medium hw d') = length (hw_medium hw ?d)"
    using n(6) range assms(4) by (auto simp: d'_def split: if_splits)
  then have "virtio_ok hw good (v\<lparr>vdev := d', avail_idx := avail_idx v + 1, last_used := last_used v + 1\<rparr>)"
    using ok n(3,5) used by (simp add: virtio_ok_def d'_def)
  with step n(6) show ?thesis by (auto simp: d'_def split: if_splits)
qed

section \<open>A concrete device\<close>

text \<open>A device that serves each request at once shows that the promise can be kept.\<close>

record instant_dev =
  id_idx :: u16
  id_status :: u8
  id_buffer :: "u8 list"
  id_medium :: "u8 list"

definition instant_hw :: "instant_dev virtio_hw" where
  "instant_hw =
     \<lparr>hw_read32 = (\<lambda>a d. if a AND 0x1ff = 0 then 0x74726976 else if a AND 0x1ff = 0x008 then 2
         else if a AND 0x1ff = 0x004 then 1 else if a AND 0x1ff = 0x034 then 8
         else if a AND 0x1ff = 0x100 then of_nat (length (id_medium d) div 512) else 0),
      hw_write32 = (\<lambda>a x d. d),
      hw_notify = (\<lambda>sub d.
        let off = unat (vr_sector (sub_request sub)) * 512 in
        if vr_type (sub_request sub) = 1
        then d\<lparr>id_idx := id_idx d + 1, id_status := 0, id_buffer := sub_buffer sub,
               id_medium := splice (id_medium d) off (sub_buffer sub)\<rparr>
        else d\<lparr>id_idx := id_idx d + 1, id_status := 0,
               id_buffer := slice off (length (sub_buffer sub)) (id_medium d)\<rparr>),
      hw_poll = id, hw_used_idx = id_idx, hw_status_byte = id_status, hw_buffer = id_buffer,
      hw_medium = id_medium, hw_queue_memory = 0x40200000\<rparr>"

lemma instant_lawful: "virtio_lawful instant_hw (\<lambda>_. True)"
  by (auto simp: virtio_lawful_def instant_hw_def virtio_request_def Let_def intro!: exI [of _ 0])

end
