(* ===== verification/Block.thy ===== *)
theory Block
  imports Virtio
begin

text \<open>
  The block layer, kernel/storage/block.c: a RAM disk of 128 sectors, or the virtio block device when
  one is found, behind range-checked sector reads and writes with statistics. The locale
  \<open>block_store\<close> is the contract its client, the SaturnFS file system, relies on; it is interpreted
  for the RAM disk and for a healthy virtio device.
\<close>

section \<open>State and operations\<close>

abbreviation BLOCK_SECTOR_SIZE :: nat where "BLOCK_SECTOR_SIZE \<equiv> 512"
abbreviation BLOCK_RAM_SECTORS :: u64 where "BLOCK_RAM_SECTORS \<equiv> 128"

record block_stats =
  reads :: u64
  writes :: u64
  read_sectors :: u64
  written_sectors :: u64
  rejected :: u64
  self_test_passed :: bool

text \<open>The two-dimensional array \<^verbatim>\<open>ram_disk\<close> is its 128 * 512 bytes in order.\<close>

record 'd block_layer =
  ram_disk :: "u8 list"
  stats :: block_stats
  use_virtio :: bool
  virtio_blk :: "'d virtio"

definition block_init :: "'d virtio_hw \<Rightarrow> 'd block_layer \<Rightarrow> 'd block_layer" where
  "block_init hw b =
     (case virtio_blk_init hw (virtio_blk b) of (found, v) \<Rightarrow>
        b\<lparr>stats := \<lparr>reads = 0, writes = 0, read_sectors = 0, written_sectors = 0, rejected = 0,
                     self_test_passed = False\<rparr>,
          use_virtio := found, virtio_blk := v,
          ram_disk := (if found then ram_disk b
                       else replicate (unat BLOCK_RAM_SECTORS * BLOCK_SECTOR_SIZE) 0)\<rparr>)"

definition block_sector_count :: "'d block_layer \<Rightarrow> u64" where
  "block_sector_count b =
     (if use_virtio b then virtio_blk_sector_count (virtio_blk b) else BLOCK_RAM_SECTORS)"

definition block_reject :: "'d block_layer \<Rightarrow> 'd block_layer" where
  "block_reject b = b\<lparr>stats := (stats b)\<lparr>rejected := rejected (stats b) + 1\<rparr>\<rparr>"

definition block_range_bad :: "'d block_layer \<Rightarrow> u64 \<Rightarrow> u64 \<Rightarrow> bool" where
  "block_range_bad b sector count \<longleftrightarrow>
     count = 0 \<or> sector \<ge> block_sector_count b \<or> count > block_sector_count b - sector"

text \<open>A read returns the bytes it put into the caller's buffer, \<open>None\<close> for the return value 0.\<close>

definition block_read ::
    "'d virtio_hw \<Rightarrow> u64 \<Rightarrow> u64 \<Rightarrow> 'd block_layer \<Rightarrow> u8 list option \<times> 'd block_layer" where
  "block_read hw sector count b =
     (if block_range_bad b sector count then (None, block_reject b)
      else
        let (result, b) =
          (if use_virtio b
           then case virtio_blk_read hw sector count (replicate (unat count * BLOCK_SECTOR_SIZE) 0) (virtio_blk b) of
                  (r, v) \<Rightarrow> (r, b\<lparr>virtio_blk := v\<rparr>)
           else (Some (slice (unat sector * BLOCK_SECTOR_SIZE) (unat count * BLOCK_SECTOR_SIZE) (ram_disk b)), b))
        in case result of
             None \<Rightarrow> (None, block_reject b)
           | Some data \<Rightarrow>
               (Some data,
                b\<lparr>stats := (stats b)\<lparr>reads := reads (stats b) + 1,
                                     read_sectors := read_sectors (stats b) + count\<rparr>\<rparr>))"

definition block_write ::
    "'d virtio_hw \<Rightarrow> u64 \<Rightarrow> u8 list \<Rightarrow> u64 \<Rightarrow> 'd block_layer \<Rightarrow> bool \<times> 'd block_layer" where
  "block_write hw sector buffer count b =
     (if block_range_bad b sector count then (False, block_reject b)
      else
        let data = take (unat count * BLOCK_SECTOR_SIZE) buffer;
            (done, b) =
          (if use_virtio b
           then case virtio_blk_write hw sector data count (virtio_blk b) of
                  (r, v) \<Rightarrow> (r, b\<lparr>virtio_blk := v\<rparr>)
           else (True, b\<lparr>ram_disk := splice (ram_disk b) (unat sector * BLOCK_SECTOR_SIZE) data\<rparr>))
        in if \<not> done then (False, block_reject b)
           else
             (True,
              b\<lparr>stats := (stats b)\<lparr>writes := writes (stats b) + 1,
                                   written_sectors := written_sectors (stats b) + count\<rparr>\<rparr>))"

definition self_test_pattern :: "u8 list" where
  "self_test_pattern = map (\<lambda>i. ucast (of_nat i XOR 0xA5 :: u64)) [0..<BLOCK_SECTOR_SIZE]"

definition block_self_test :: "'d virtio_hw \<Rightarrow> 'd block_layer \<Rightarrow> bool \<times> 'd block_layer" where
  "block_self_test hw b =
     (let sector = block_sector_count b - 1 in
      case block_read hw sector 1 b of
        (None, b) \<Rightarrow> (False, b)
      | (Some saved, b) \<Rightarrow>
          let (passed, b) =
                (case block_write hw sector self_test_pattern 1 b of
                   (False, b) \<Rightarrow> (False, b)
                 | (True, b) \<Rightarrow>
                     (case block_read hw sector 1 b of
                        (None, b) \<Rightarrow> (False, b)
                      | (Some result, b) \<Rightarrow> (result = self_test_pattern, b)))
          in case block_write hw sector saved 1 b of
               (restored, b) \<Rightarrow>
                 (passed \<and> restored,
                  b\<lparr>stats := (stats b)\<lparr>self_test_passed := passed \<and> restored\<rparr>\<rparr>))"

definition block_device_name :: "'d block_layer \<Rightarrow> string" where
  "block_device_name b = (if use_virtio b then ''virtio-blk'' else ''ramdisk'')"

section \<open>The contract of a block device\<close>

locale block_store =
  fixes rd :: "u64 \<Rightarrow> u64 \<Rightarrow> 's \<Rightarrow> u8 list option \<times> 's"
    and wr :: "u64 \<Rightarrow> u8 list \<Rightarrow> u64 \<Rightarrow> 's \<Rightarrow> bool \<times> 's"
    and sectors :: "'s \<Rightarrow> u64"
    and bytes :: "'s \<Rightarrow> u8 list"
    and ok :: "'s \<Rightarrow> bool"
  assumes ok_size: "ok s \<Longrightarrow> length (bytes s) = unat (sectors s) * 512 \<and> unat (sectors s) < 2 ^ 22"
    and rd_in_range: "ok s \<Longrightarrow> 0 < unat n \<Longrightarrow> unat a + unat n \<le> unat (sectors s) \<Longrightarrow>
      \<exists>s'. rd a n s = (Some (slice (unat a * 512) (unat n * 512) (bytes s)), s') \<and>
        ok s' \<and> bytes s' = bytes s \<and> sectors s' = sectors s"
    and wr_in_range: "ok s \<Longrightarrow> 0 < unat n \<Longrightarrow> unat a + unat n \<le> unat (sectors s) \<Longrightarrow>
      length data = unat n * 512 \<Longrightarrow>
      \<exists>s'. wr a data n s = (True, s') \<and>
        ok s' \<and> bytes s' = splice (bytes s) (unat a * 512) data \<and> sectors s' = sectors s"
    and rd_out_of_range: "ok s \<Longrightarrow> \<not> (0 < unat n \<and> unat a + unat n \<le> unat (sectors s)) \<Longrightarrow>
      \<exists>s'. rd a n s = (None, s') \<and> ok s' \<and> bytes s' = bytes s \<and> sectors s' = sectors s"
    and wr_out_of_range: "ok s \<Longrightarrow> \<not> (0 < unat n \<and> unat a + unat n \<le> unat (sectors s)) \<Longrightarrow>
      \<exists>s'. wr a data n s = (False, s') \<and> ok s' \<and> bytes s' = bytes s \<and> sectors s' = sectors s"
begin

lemma read_after_write:
  assumes "ok s" "0 < unat n" "unat a + unat n \<le> unat (sectors s)" "length data = unat n * 512"
    and "wr a data n s = (r, s')"
  shows "fst (rd a n s') = Some data"
proof -
  from wr_in_range [OF assms(1-4)] assms(5) have s': "ok s'" "sectors s' = sectors s"
    "bytes s' = splice (bytes s) (unat a * 512) data" by auto
  have "unat a * 512 + length data \<le> length (bytes s)"
    using ok_size [OF assms(1)] assms(3,4) by simp
  then have "slice (unat a * 512) (unat n * 512) (bytes s') = data"
    using s'(3) assms(4) by (metis slice_splice_same)
  with rd_in_range [OF s'(1), of n a] s'(2) assms(2,3) show ?thesis by force
qed

lemma read_other_after_write:
  assumes "ok s" "0 < unat n" "unat a + unat n \<le> unat (sectors s)" "length data = unat n * 512"
    and "wr a data n s = (r, s')" "0 < unat m" "unat c + unat m \<le> unat (sectors s)"
    and "unat c + unat m \<le> unat a \<or> unat a + unat n \<le> unat c"
  shows "fst (rd c m s') = fst (rd c m s)"
proof -
  from wr_in_range [OF assms(1-4)] assms(5) have s': "ok s'" "sectors s' = sectors s"
    "bytes s' = splice (bytes s) (unat a * 512) data" by auto
  have "unat a * 512 + length data \<le> length (bytes s)"
    using ok_size [OF assms(1)] assms(3,4) by simp
  then have "slice (unat c * 512) (unat m * 512) (bytes s') = slice (unat c * 512) (unat m * 512) (bytes s)"
    unfolding s'(3) using assms(4,8) by (intro slice_splice_other) auto
  moreover from rd_in_range [OF assms(1,6,7)] rd_in_range [OF s'(1) assms(6), of c] s'(2) assms(7)
  have "fst (rd c m s') = Some (slice (unat c * 512) (unat m * 512) (bytes s'))"
    "fst (rd c m s) = Some (slice (unat c * 512) (unat m * 512) (bytes s))" by auto
  ultimately show ?thesis by simp
qed

end

section \<open>The block layer keeps the contract\<close>

definition block_bytes :: "'d virtio_hw \<Rightarrow> 'd block_layer \<Rightarrow> u8 list" where
  "block_bytes hw b = (if use_virtio b then hw_medium hw (vdev (virtio_blk b)) else ram_disk b)"

definition block_ok :: "'d virtio_hw \<Rightarrow> ('d \<Rightarrow> bool) \<Rightarrow> 'd block_layer \<Rightarrow> bool" where
  "block_ok hw good b \<longleftrightarrow>
     (if use_virtio b then virtio_ok hw good (virtio_blk b) else length (ram_disk b) = 65536)"

lemma block_range_bad_iff:
  "block_range_bad b a n \<longleftrightarrow> \<not> (0 < unat n \<and> unat a + unat n \<le> unat (block_sector_count b))"
proof (cases "a < block_sector_count b")
  case True
  then have "unat (block_sector_count b - a) = unat (block_sector_count b) - unat a"
    by (simp add: unat_sub)
  with True show ?thesis
    by (auto simp: block_range_bad_def word_less_nat_alt word_le_nat_alt unat_gt_0)
next
  case False
  then have "block_range_bad b a n" "unat (block_sector_count b) \<le> unat a"
    by (simp_all add: block_range_bad_def not_less word_le_nat_alt [symmetric])
  then show ?thesis by auto
qed

lemma block_reject_simps [simp]:
  "ram_disk (block_reject b) = ram_disk b" "use_virtio (block_reject b) = use_virtio b"
  "virtio_blk (block_reject b) = virtio_blk b" "block_ok hw good (block_reject b) = block_ok hw good b"
  "block_bytes hw (block_reject b) = block_bytes hw b"
  "block_sector_count (block_reject b) = block_sector_count b"
  by (simp_all add: block_reject_def block_ok_def block_bytes_def block_sector_count_def)

lemma block_stats_simps [simp]:
  "block_ok hw good (b\<lparr>stats := st\<rparr>) = block_ok hw good b"
  "block_bytes hw (b\<lparr>stats := st\<rparr>) = block_bytes hw b"
  "block_sector_count (b\<lparr>stats := st\<rparr>) = block_sector_count b"
  by (simp_all add: block_ok_def block_bytes_def block_sector_count_def)

lemma block_read_in_range:
  assumes "block_ok hw good b" "0 < unat n" "unat a + unat n \<le> unat (block_sector_count b)"
  shows "\<exists>b'. block_read hw a n b = (Some (slice (unat a * 512) (unat n * 512) (block_bytes hw b)), b') \<and>
    block_ok hw good b' \<and> block_bytes hw b' = block_bytes hw b \<and>
    block_sector_count b' = block_sector_count b"
proof -
  have r: "\<not> block_range_bad b a n" using assms by (simp add: block_range_bad_iff)
  show ?thesis
  proof (cases "use_virtio b")
    case True
    with assms have "virtio_ok hw good (virtio_blk b)" "unat a + unat n \<le> unat (device_sectors (virtio_blk b))"
      by (simp_all add: block_ok_def block_sector_count_def virtio_blk_sector_count_def)
    from virtio_transfer_ok [OF this(1) assms(2) this(2), of "replicate (unat n * 512) 0" False]
    obtain v' where "virtio_ok hw good v'" "device_sectors v' = device_sectors (virtio_blk b)"
      "virtio_blk_transfer hw a (replicate (unat n * 512) 0) n False (virtio_blk b) =
         (Some (slice (unat a * 512) (unat n * 512) (hw_medium hw (vdev (virtio_blk b)))), v')"
      "hw_medium hw (vdev v') = hw_medium hw (vdev (virtio_blk b))" by auto
    with True r show ?thesis
      by (auto simp: block_read_def virtio_blk_read_def block_bytes_def block_ok_def
          block_sector_count_def virtio_blk_sector_count_def)
  next
    case False
    with r assms(1) show ?thesis
      by (auto simp: block_read_def block_bytes_def)
  qed
qed

lemma block_write_in_range:
  assumes "block_ok hw good b" "0 < unat n" "unat a + unat n \<le> unat (block_sector_count b)"
    and "length data = unat n * 512"
  shows "\<exists>b'. block_write hw a data n b = (True, b') \<and> block_ok hw good b' \<and>
    block_bytes hw b' = splice (block_bytes hw b) (unat a * 512) data \<and>
    block_sector_count b' = block_sector_count b"
proof -
  have r: "\<not> block_range_bad b a n" using assms by (simp add: block_range_bad_iff)
  show ?thesis
  proof (cases "use_virtio b")
    case True
    with assms have "virtio_ok hw good (virtio_blk b)" "unat a + unat n \<le> unat (device_sectors (virtio_blk b))"
      by (simp_all add: block_ok_def block_sector_count_def virtio_blk_sector_count_def)
    from virtio_transfer_ok [OF this(1) assms(2) this(2) assms(4), of True]
    obtain v' where "virtio_ok hw good v'" "device_sectors v' = device_sectors (virtio_blk b)"
      "virtio_blk_transfer hw a data n True (virtio_blk b) = (Some data, v')"
      "hw_medium hw (vdev v') = splice (hw_medium hw (vdev (virtio_blk b))) (unat a * 512) data" by auto
    with True r assms(4) show ?thesis
      by (auto simp: block_write_def virtio_blk_write_def block_bytes_def block_ok_def
          block_sector_count_def virtio_blk_sector_count_def)
  next
    case False
    with r assms show ?thesis
      by (auto simp: block_write_def block_bytes_def block_ok_def block_sector_count_def)
  qed
qed

lemma block_out_of_range:
  assumes "\<not> (0 < unat n \<and> unat a + unat n \<le> unat (block_sector_count b))"
  shows "block_read hw a n b = (None, block_reject b)" "block_write hw a data n b = (False, block_reject b)"
  using assms block_range_bad_iff [of b a n] by (auto simp: block_read_def block_write_def)

interpretation blk: block_store "block_read hw" "block_write hw" block_sector_count "block_bytes hw"
    "block_ok hw good" for hw :: "'d virtio_hw" and good
proof (unfold_locales, goal_cases)
  case (1 s)
  then show ?case
    by (auto simp: block_ok_def block_bytes_def block_sector_count_def virtio_blk_sector_count_def
        virtio_ok_def)
next
  case (2 s n a)
  then show ?case by (rule block_read_in_range)
next
  case (3 s n a data)
  then show ?case by (rule block_write_in_range)
next
  case (4 s n a)
  then show ?case using block_out_of_range(1) [of n a s hw] by simp
next
  case (5 s n a data)
  then show ?case using block_out_of_range(2) [of n a s hw data] by simp
qed

section \<open>Properties\<close>

text \<open>The RAM disk right after block_init found no device.\<close>

definition ramdisk_boot :: "instant_dev block_layer" where
  "ramdisk_boot =
     \<lparr>ram_disk = replicate 65536 0,
      stats = \<lparr>reads = 0, writes = 0, read_sectors = 0, written_sectors = 0, rejected = 0,
               self_test_passed = False\<rparr>,
      use_virtio = False,
      virtio_blk = \<lparr>vdev = \<lparr>id_idx = 0, id_status = 0, id_buffer = [], id_medium = []\<rparr>,
        device_base = 0, device_sectors = 0, last_used = 0, avail_idx = 0, device_ready = False\<rparr>\<rparr>"

definition virtio_boot :: "instant_dev block_layer" where
  "virtio_boot = ramdisk_boot\<lparr>use_virtio := True,
     virtio_blk := \<lparr>vdev = \<lparr>id_idx = 0, id_status = 0, id_buffer = [], id_medium = replicate (256 * 512) 0\<rparr>,
        device_base = VIRTIO_MMIO_BASE, device_sectors = 256, last_used = 0, avail_idx = 0, device_ready = True\<rparr>\<rparr>"

lemma ramdisk_boot_ok: "block_ok instant_hw (\<lambda>_. True) ramdisk_boot"
  by (simp add: block_ok_def ramdisk_boot_def)

lemma virtio_boot_ok: "block_ok instant_hw (\<lambda>_. True) virtio_boot"
  using instant_lawful
  by (simp add: block_ok_def virtio_boot_def virtio_ok_def) (simp add: instant_hw_def)

text \<open>
  C31: on the RAM disk and on a healthy virtio device, a write of sectors inside the device succeeds;
  reading the same sectors returns the data written, reading any disjoint sectors returns what they
  held before, and the capacity does not change.
\<close>

theorem block_write_read:
  assumes "block_ok hw good b" "0 < unat n" "unat a + unat n \<le> unat (block_sector_count b)"
    and "length data = unat n * 512"
  shows "\<exists>b'. block_write hw a data n b = (True, b') \<and> block_ok hw good b' \<and>
    block_sector_count b' = block_sector_count b \<and> fst (block_read hw a n b') = Some data \<and>
    (\<forall>c m. 0 < unat m \<longrightarrow> unat c + unat m \<le> unat (block_sector_count b) \<longrightarrow>
       unat c + unat m \<le> unat a \<or> unat a + unat n \<le> unat c \<longrightarrow>
       fst (block_read hw c m b') = fst (block_read hw c m b))"
proof -
  from blk.wr_in_range [OF assms] obtain b' where b': "block_write hw a data n b = (True, b')"
    "block_ok hw good b'" "block_sector_count b' = block_sector_count b" by blast
  moreover note blk.read_after_write [OF assms b'(1)] blk.read_other_after_write [OF assms b'(1)]
  ultimately show ?thesis by blast
qed

theorem block_write_read_witness:
  "(\<exists>b'. block_write instant_hw 5 (replicate 1024 7) 2 ramdisk_boot = (True, b') \<and>
      fst (block_read instant_hw 5 2 b') = Some (replicate 1024 7)) \<and>
   (\<exists>b'. block_write instant_hw 200 (replicate 1024 7) 2 virtio_boot = (True, b') \<and>
      fst (block_read instant_hw 200 2 b') = Some (replicate 1024 7))"
  using block_write_read [OF ramdisk_boot_ok, of 2 5 "replicate 1024 7"]
    block_write_read [OF virtio_boot_ok, of 2 200 "replicate 1024 7"]
  by (auto simp: block_sector_count_def ramdisk_boot_def virtio_boot_def virtio_blk_sector_count_def)

text \<open>
  The boot-time self test passes on a working device and leaves every byte of the device as it
  found it.
\<close>

theorem block_self_test_passes:
  assumes "block_ok hw good b" "0 < unat (block_sector_count b)"
  shows "\<exists>b'. block_self_test hw b = (True, b') \<and> block_ok hw good b' \<and>
    block_bytes hw b' = block_bytes hw b \<and> self_test_passed (stats b')"
proof -
  let ?s = "block_sector_count b - 1"
  note size = blk.ok_size [OF assms(1)]
  have s: "unat ?s + unat (1 :: u64) = unat (block_sector_count b)" "0 < unat (1 :: u64)"
    using assms(2) by (simp_all add: unat_sub word_le_nat_alt)
  have pat: "length self_test_pattern = unat (1 :: u64) * 512" by (simp add: self_test_pattern_def)
  define saved where "saved = slice (unat ?s * 512) 512 (block_bytes hw b)"
  have len: "length saved = 512" "unat ?s * 512 + 512 \<le> length (block_bytes hw b)"
    using s size by (simp_all add: saved_def)
  from blk.rd_in_range [OF assms(1) s(2), of ?s] s obtain b1 where
    b1: "block_read hw ?s 1 b = (Some saved, b1)" "block_ok hw good b1" "block_bytes hw b1 = block_bytes hw b"
      "block_sector_count b1 = block_sector_count b" by (auto simp: saved_def)
  from blk.wr_in_range [OF b1(2) s(2) _ pat, of ?s] s b1 obtain b2 where
    b2: "block_write hw ?s self_test_pattern 1 b1 = (True, b2)" "block_ok hw good b2"
      "block_bytes hw b2 = splice (block_bytes hw b) (unat ?s * 512) self_test_pattern"
      "block_sector_count b2 = block_sector_count b" by auto
  have sl: "slice (unat ?s * 512) 512 (block_bytes hw b2) = self_test_pattern"
    unfolding b2(3) using slice_splice_same [of "unat ?s * 512" self_test_pattern "block_bytes hw b"] len pat
    by simp
  from blk.rd_in_range [OF b2(2) s(2), of ?s] s b2 sl obtain b3 where
    b3: "block_read hw ?s 1 b2 = (Some self_test_pattern, b3)" "block_ok hw good b3"
      "block_bytes hw b3 = block_bytes hw b2" "block_sector_count b3 = block_sector_count b" by auto
  from blk.wr_in_range [OF b3(2) s(2), of ?s saved] s b3 len obtain b4 where
    b4: "block_write hw ?s saved 1 b3 = (True, b4)" "block_ok hw good b4"
      "block_bytes hw b4 = splice (block_bytes hw b2) (unat ?s * 512) saved" by auto
  have "block_bytes hw b4 = block_bytes hw b"
    unfolding b4(3) b2(3) using len pat by (simp add: splice_restore saved_def)
  with b1 b2 b3 b4 show ?thesis by (simp add: block_self_test_def)
qed

theorem block_self_test_passes_witness:
  "(\<exists>b'. block_self_test instant_hw ramdisk_boot = (True, b')) \<and>
   (\<exists>b'. block_self_test instant_hw virtio_boot = (True, b'))"
  using block_self_test_passes [OF ramdisk_boot_ok] block_self_test_passes [OF virtio_boot_ok]
  by (auto simp: block_sector_count_def ramdisk_boot_def virtio_boot_def virtio_blk_sector_count_def)

end
