(* ===== verification/FileStore.thy ===== *)
theory FileStore
  imports Prelude
begin

text \<open>
  The contract of a store of whole files, which SaturnFS and the RAM file system both offer to the
  virtual file system: storing an acceptable file changes exactly that file, refusing one changes
  nothing, and fetching returns the current contents.
\<close>

locale file_store =
  fixes store :: "cstring \<Rightarrow> u8 list \<Rightarrow> 's \<Rightarrow> bool \<times> 's"
    and fetch :: "cstring \<Rightarrow> 's \<Rightarrow> u8 list option \<times> 's"
    and files :: "'s \<Rightarrow> cstring \<Rightarrow> u8 list option"
    and accepts :: "cstring \<Rightarrow> u8 list \<Rightarrow> 's \<Rightarrow> bool"
    and named :: "cstring \<Rightarrow> u8 list \<Rightarrow> bool"
    and ok :: "'s \<Rightarrow> bool"
  assumes store_accepted: "ok s \<Longrightarrow> named p d \<Longrightarrow> accepts p d s \<Longrightarrow>
      \<exists>s'. store p d s = (True, s') \<and> ok s' \<and> files s' = (files s)(p \<mapsto> d)"
    and store_refused: "ok s \<Longrightarrow> named p d \<Longrightarrow> \<not> accepts p d s \<Longrightarrow>
      \<exists>s'. store p d s = (False, s') \<and> ok s' \<and> files s' = files s"
    and fetch_current: "ok s \<Longrightarrow> named p [] \<Longrightarrow> \<exists>s'. fetch p s = (files s p, s') \<and> ok s' \<and> files s' = files s"
    and named_empty: "named p d \<Longrightarrow> named p []"
begin

lemma store_result: "ok s \<Longrightarrow> named p d \<Longrightarrow> fst (store p d s) = accepts p d s"
  using store_accepted [of s p d] store_refused [of s p d] by (cases "accepts p d s") auto

lemma store_files:
  "ok s \<Longrightarrow> named p d \<Longrightarrow>
     files (snd (store p d s)) = (if fst (store p d s) then (files s)(p \<mapsto> d) else files s)"
  using store_accepted [of s p d] store_refused [of s p d] by (cases "accepts p d s") auto

lemma store_ok: "ok s \<Longrightarrow> named p d \<Longrightarrow> ok (snd (store p d s))"
  using store_accepted [of s p d] store_refused [of s p d] by (cases "accepts p d s") auto

lemma fetch_after_store:
  assumes "ok s" "named p d" "fst (store p d s)"
  shows "fst (fetch p (snd (store p d s))) = Some d"
  using fetch_current [OF store_ok [OF assms(1,2)] named_empty [OF assms(2)]] store_files [OF assms(1,2)] assms(3)
  by auto

lemma fetch_other_after_store:
  assumes "ok s" "named p d" "named q []" "q \<noteq> p"
  shows "fst (fetch q (snd (store p d s))) = fst (fetch q s)"
  using fetch_current [OF store_ok [OF assms(1,2)] assms(3)] fetch_current [OF assms(1,3)]
    store_files [OF assms(1,2)] assms(4) by auto

text \<open>Any sequence of stores and fetches is one of updates to a map of files.\<close>

definition put :: "cstring \<times> u8 list \<Rightarrow> 's \<Rightarrow> 's" where
  "put pd s = snd (store (fst pd) (snd pd) s)"

lemma puts_ok:
  "ok s \<Longrightarrow> \<forall>(p, d)\<in>set pds. named p d \<Longrightarrow> ok (fold put pds s)"
  by (induction pds arbitrary: s) (auto simp: put_def store_ok)

lemma puts_keep:
  assumes "ok s" "\<forall>(p, d)\<in>set pds. named p d" "q \<notin> fst ` set pds"
  shows "files (fold put pds s) q = files s q"
  using assms by (induction pds arbitrary: s) (auto simp: put_def store_ok store_files)

end

end
