(* ===== verification/Sfs.thy ===== *)
theory Sfs
  imports Block FileStore
begin

text \<open>
  SaturnFS, kernel/fs/sfs.c: a superblock in sector 0, a directory of eight entries in sector 1 and
  eight fixed extents of eight sectors, on the block layer. The structures are encoded to and decoded
  from their 512-byte sectors as the packed little-endian layout has them, so that mounting a disk
  again is the decoding of what was written.
\<close>

section \<open>On-disk structures\<close>

abbreviation SFS_MAGIC :: u32 where "SFS_MAGIC \<equiv> 0x53465331"
abbreviation SFS_MAX_FILES :: nat where "SFS_MAX_FILES \<equiv> 8"
abbreviation SFS_MAX_PATH :: nat where "SFS_MAX_PATH \<equiv> 44"
abbreviation SFS_FILE_SECTORS :: u64 where "SFS_FILE_SECTORS \<equiv> 8"
abbreviation SFS_MAX_FILE_SIZE :: u64 where "SFS_MAX_FILE_SIZE \<equiv> 4096"

record sfs_superblock =
  sb_magic :: u32
  sb_version :: u32
  sb_sector_size :: u32
  sb_total_sectors :: u32
  sb_max_files :: u32
  sb_data_start :: u32
  sb_reserved :: "u8 list"

record sfs_entry =
  se_path :: "u8 list"
  se_start_sector :: u32
  se_size :: u32
  se_checksum :: u32
  se_flags :: u32

record sfs_directory =
  sd_entries :: "sfs_entry list"
  sd_reserved :: "u8 list"

record 'd sfs =
  superblock :: sfs_superblock
  directory :: sfs_directory
  mounted :: bool
  sfs_disk :: "'d block_layer"

definition encode_super :: "sfs_superblock \<Rightarrow> u8 list" where
  "encode_super sb = le32 (sb_magic sb) @ le32 (sb_version sb) @ le32 (sb_sector_size sb) @
     le32 (sb_total_sectors sb) @ le32 (sb_max_files sb) @ le32 (sb_data_start sb) @ sb_reserved sb"

definition decode_super :: "u8 list \<Rightarrow> sfs_superblock" where
  "decode_super bs = \<lparr>sb_magic = un_le32 (slice 0 4 bs), sb_version = un_le32 (slice 4 4 bs),
     sb_sector_size = un_le32 (slice 8 4 bs), sb_total_sectors = un_le32 (slice 12 4 bs),
     sb_max_files = un_le32 (slice 16 4 bs), sb_data_start = un_le32 (slice 20 4 bs),
     sb_reserved = drop 24 bs\<rparr>"

definition encode_entry :: "sfs_entry \<Rightarrow> u8 list" where
  "encode_entry e = se_path e @ le32 (se_start_sector e) @ le32 (se_size e) @
     le32 (se_checksum e) @ le32 (se_flags e)"

definition decode_entry :: "u8 list \<Rightarrow> sfs_entry" where
  "decode_entry bs = \<lparr>se_path = take 44 bs, se_start_sector = un_le32 (slice 44 4 bs),
     se_size = un_le32 (slice 48 4 bs), se_checksum = un_le32 (slice 52 4 bs),
     se_flags = un_le32 (slice 56 4 bs)\<rparr>"

definition encode_directory :: "sfs_directory \<Rightarrow> u8 list" where
  "encode_directory d = concat (map encode_entry (sd_entries d)) @ sd_reserved d"

definition decode_directory :: "u8 list \<Rightarrow> sfs_directory" where
  "decode_directory bs = \<lparr>sd_entries = map (\<lambda>i. decode_entry (slice (60 * i) 60 bs)) [0..<SFS_MAX_FILES],
     sd_reserved = drop 480 bs\<rparr>"

section \<open>Operations\<close>

definition path_valid :: "cstring \<Rightarrow> bool" where
  "path_valid path \<longleftrightarrow>
     path \<noteq> [] \<and> hd path = 0x2f \<and> length path < SFS_MAX_PATH \<and> length path > 1"

definition checksum :: "u8 list \<Rightarrow> nat \<Rightarrow> u32" where
  "checksum data sz =
     fold (\<lambda>byte value. (push_bit 5 value XOR drop_bit 2 value) XOR ucast byte) (take sz data) 0"

definition entry_used :: "sfs_entry \<Rightarrow> bool" where
  "entry_used e \<longleftrightarrow> se_flags e AND 1 \<noteq> 0"

definition find_entry :: "cstring \<Rightarrow> sfs_directory \<Rightarrow> nat option" where
  "find_entry path d = find_slot (\<lambda>e. entry_used e \<and> cstr_equals (cstr (se_path e)) path) (sd_entries d)"

definition write_directory :: "'d virtio_hw \<Rightarrow> 'd sfs \<Rightarrow> bool \<times> 'd sfs" where
  "write_directory hw s =
     (case block_write hw 1 (encode_directory (directory s)) 1 (sfs_disk s) of
        (r, b) \<Rightarrow> (r, s\<lparr>sfs_disk := b\<rparr>))"

definition format_entry :: "nat \<Rightarrow> sfs_entry \<Rightarrow> sfs_entry" where
  "format_entry i e = e\<lparr>se_path := (se_path e)[0 := 0], se_start_sector := of_nat (2 + i * 8),
     se_size := 0, se_checksum := 0, se_flags := 0\<rparr>"

definition sfs_format :: "'d virtio_hw \<Rightarrow> 'd sfs \<Rightarrow> bool \<times> 'd sfs" where
  "sfs_format hw s =
     (if block_sector_count (sfs_disk s) < 2 + of_nat SFS_MAX_FILES * SFS_FILE_SECTORS
      then (False, s\<lparr>mounted := False\<rparr>)
      else
        let sb = \<lparr>sb_magic = SFS_MAGIC, sb_version = 1, sb_sector_size = 512,
                  sb_total_sectors = ucast (block_sector_count (sfs_disk s)),
                  sb_max_files = of_nat SFS_MAX_FILES, sb_data_start = 2,
                  sb_reserved = replicate 488 0\<rparr>;
            dir = \<lparr>sd_entries = map (\<lambda>i. format_entry i (sd_entries (directory s) ! i)) [0..<SFS_MAX_FILES],
                   sd_reserved = replicate 32 0\<rparr>;
            s = s\<lparr>superblock := sb, directory := dir\<rparr>
        in case block_write hw 0 (encode_super sb) 1 (sfs_disk s) of
             (False, b) \<Rightarrow> (False, s\<lparr>sfs_disk := b, mounted := False\<rparr>)
           | (True, b) \<Rightarrow>
               (case write_directory hw (s\<lparr>sfs_disk := b\<rparr>) of (r, s) \<Rightarrow> (r, s\<lparr>mounted := r\<rparr>)))"

definition sfs_init :: "'d virtio_hw \<Rightarrow> 'd sfs \<Rightarrow> 'd sfs" where
  "sfs_init hw s =
     (let s = s\<lparr>mounted := False\<rparr> in
      case block_read hw 0 1 (sfs_disk s) of
        (None, b) \<Rightarrow> s\<lparr>sfs_disk := b\<rparr>
      | (Some sector, b) \<Rightarrow>
          let s = s\<lparr>sfs_disk := b\<rparr>; super = decode_super sector in
          if sb_magic super = 0 \<and> sb_version super = 0 then snd (sfs_format hw s)
          else if sb_magic super \<noteq> SFS_MAGIC \<or> sb_version super \<noteq> 1 \<or> sb_sector_size super \<noteq> 512 \<or>
                  sb_max_files super \<noteq> of_nat SFS_MAX_FILES \<or> sb_data_start super \<noteq> 2 \<or>
                  ucast (sb_total_sectors super) > block_sector_count (sfs_disk s)
          then s
          else (case block_read hw 1 1 (sfs_disk s) of
                  (None, b) \<Rightarrow> s\<lparr>sfs_disk := b\<rparr>
                | (Some sector, b) \<Rightarrow>
                    s\<lparr>sfs_disk := b, directory := decode_directory sector, superblock := super,
                      mounted := True\<rparr>))"

definition sfs_write_file ::
    "'d virtio_hw \<Rightarrow> cstring \<Rightarrow> u8 list \<Rightarrow> u64 \<Rightarrow> 'd sfs \<Rightarrow> bool \<times> 'd sfs" where
  "sfs_write_file hw path data sz s =
     (if \<not> mounted s \<or> \<not> path_valid path \<or> sz > SFS_MAX_FILE_SIZE then (False, s)
      else
        case (case find_entry path (directory s) of
                Some i \<Rightarrow> Some i
              | None \<Rightarrow> find_slot (\<lambda>e. \<not> entry_used e) (sd_entries (directory s))) of
          None \<Rightarrow> (False, s)
        | Some i \<Rightarrow>
            let entry = sd_entries (directory s) ! i;
                io_buffer = map (\<lambda>j. if j < unat sz then data ! j else 0) [0..<unat SFS_MAX_FILE_SIZE]
            in case block_write hw (ucast (se_start_sector entry)) io_buffer SFS_FILE_SECTORS (sfs_disk s) of
                 (False, b) \<Rightarrow> (False, s\<lparr>sfs_disk := b\<rparr>)
               | (True, b) \<Rightarrow>
                   let entry = entry\<lparr>se_path := set_cstr (se_path entry) path, se_size := ucast sz,
                                     se_checksum := checksum data (unat sz), se_flags := 1\<rparr>
                   in write_directory hw
                        (s\<lparr>sfs_disk := b,
                           directory := (directory s)\<lparr>sd_entries := (sd_entries (directory s))[i := entry]\<rparr>\<rparr>))"

text \<open>A read returns the bytes it copies into the caller's buffer, \<open>None\<close> for the return value -1.\<close>

definition sfs_read_file ::
    "'d virtio_hw \<Rightarrow> cstring \<Rightarrow> u64 \<Rightarrow> 'd sfs \<Rightarrow> u8 list option \<times> 'd sfs" where
  "sfs_read_file hw path capacity s =
     (if \<not> mounted s then (None, s)
      else
        case find_entry path (directory s) of
          None \<Rightarrow> (None, s)
        | Some i \<Rightarrow>
            let entry = sd_entries (directory s) ! i in
            if ucast (se_size entry) > capacity \<or> ucast (se_size entry) > SFS_MAX_FILE_SIZE then (None, s)
            else
              (case block_read hw (ucast (se_start_sector entry)) SFS_FILE_SECTORS (sfs_disk s) of
                 (None, b) \<Rightarrow> (None, s\<lparr>sfs_disk := b\<rparr>)
               | (Some io_buffer, b) \<Rightarrow>
                   if checksum io_buffer (unat (se_size entry)) \<noteq> se_checksum entry
                   then (None, s\<lparr>sfs_disk := b\<rparr>)
                   else (Some (take (unat (se_size entry)) io_buffer), s\<lparr>sfs_disk := b\<rparr>)))"

definition sfs_ready :: "'d sfs \<Rightarrow> bool" where
  "sfs_ready s = mounted s"

section \<open>Encoding and decoding\<close>

definition wf_entry :: "sfs_entry \<Rightarrow> bool" where
  "wf_entry e \<longleftrightarrow> length (se_path e) = 44"

definition wf_directory :: "sfs_directory \<Rightarrow> bool" where
  "wf_directory d \<longleftrightarrow> length (sd_entries d) = 8 \<and> list_all wf_entry (sd_entries d) \<and> length (sd_reserved d) = 32"

lemma length_encode_entry: "wf_entry e \<Longrightarrow> length (encode_entry e) = 60"
  by (simp add: encode_entry_def wf_entry_def)

lemma decode_encode_entry: "wf_entry e \<Longrightarrow> decode_entry (encode_entry e) = e"
  by (simp add: wf_entry_def decode_entry_def encode_entry_def slice_def)

lemma decode_encode_super: "decode_super (encode_super sb) = sb"
  by (simp add: decode_super_def encode_super_def slice_def)

lemma slice_concat_blocks:
  assumes "list_all (\<lambda>x. length x = n) xss" "i < length xss"
  shows "slice (n * i) n (concat xss @ ys) = xss ! i"
  using assms
proof (induction xss arbitrary: i)
  case (Cons xs xss)
  show ?case
  proof (cases i)
    case 0
    with Cons show ?thesis by (simp add: slice_def)
  next
    case (Suc j)
    with Cons have "slice (n * j) n (concat xss @ ys) = xss ! j" by simp
    with Cons Suc show ?thesis by (simp add: slice_def)
  qed
qed simp

lemma length_encode_entries:
  "list_all wf_entry es \<Longrightarrow> length (concat (map encode_entry es)) = 60 * length es"
  by (induction es) (simp_all add: length_encode_entry)

lemma length_encode_directory: "wf_directory d \<Longrightarrow> length (encode_directory d) = 512"
  by (simp add: wf_directory_def encode_directory_def length_encode_entries del: length_concat)

lemma decode_encode_directory:
  assumes "wf_directory d"
  shows "decode_directory (encode_directory d) = d"
proof -
  let ?es = "sd_entries d"
  have es: "length ?es = 8" "list_all wf_entry ?es" "length (sd_reserved d) = 32"
    using assms by (auto simp: wf_directory_def)
  have "decode_entry (slice (60 * i) 60 (encode_directory d)) = ?es ! i" if "i < 8" for i
  proof -
    have "slice (60 * i) 60 (concat (map encode_entry ?es) @ sd_reserved d) = map encode_entry ?es ! i"
      by (rule slice_concat_blocks) (use es that in \<open>auto simp: list_all_iff length_encode_entry\<close>)
    moreover have "wf_entry (?es ! i)" using es that by (simp add: list_all_length)
    ultimately show ?thesis using es that by (simp add: encode_directory_def decode_encode_entry)
  qed
  then have "map (\<lambda>i. decode_entry (slice (60 * i) 60 (encode_directory d))) [0..<8] = ?es"
    using es(1) by (intro nth_equalityI) auto
  moreover have "drop 480 (encode_directory d) = sd_reserved d"
    using length_encode_entries [OF es(2)] es(1) by (simp add: encode_directory_def del: length_concat)
  ultimately show ?thesis by (simp add: decode_directory_def)
qed

section \<open>Invariant and contents\<close>

definition file_bytes :: "'d virtio_hw \<Rightarrow> 'd sfs \<Rightarrow> nat \<Rightarrow> u8 list" where
  "file_bytes hw s i = slice ((2 + i * 8) * 512) 4096 (block_bytes hw (sfs_disk s))"

definition sfs_files :: "'d virtio_hw \<Rightarrow> 'd sfs \<Rightarrow> cstring \<Rightarrow> u8 list option" where
  "sfs_files hw s path =
     map_option (\<lambda>i. take (unat (se_size (sd_entries (directory s) ! i))) (file_bytes hw s i))
       (find_entry path (directory s))"

definition entry_named :: "sfs_entry list \<Rightarrow> cstring \<Rightarrow> nat \<Rightarrow> bool" where
  "entry_named es path i \<longleftrightarrow> i < length es \<and> entry_used (es ! i) \<and> cstr (se_path (es ! i)) = path"

definition unique_names :: "sfs_entry list \<Rightarrow> bool" where
  "unique_names es \<longleftrightarrow> (\<forall>path i j. entry_named es path i \<and> entry_named es path j \<longrightarrow> i = j)"

definition entry_ok :: "'d virtio_hw \<Rightarrow> 'd sfs \<Rightarrow> nat \<Rightarrow> bool" where
  "entry_ok hw s i \<longleftrightarrow>
     (let e = sd_entries (directory s) ! i in
      se_start_sector e = of_nat (2 + i * 8) \<and> unat (se_size e) \<le> 4096 \<and>
      (entry_used e \<longrightarrow> checksum (file_bytes hw s i) (unat (se_size e)) = se_checksum e))"

definition super_ok :: "'d sfs \<Rightarrow> bool" where
  "super_ok s \<longleftrightarrow>
     (let sb = superblock s in
      sb_magic sb = SFS_MAGIC \<and> sb_version sb = 1 \<and> sb_sector_size sb = 512 \<and> sb_max_files sb = 8 \<and>
      sb_data_start sb = 2 \<and> length (sb_reserved sb) = 488 \<and>
      ucast (sb_total_sectors sb) \<le> block_sector_count (sfs_disk s))"

definition sfs_inv :: "'d virtio_hw \<Rightarrow> ('d \<Rightarrow> bool) \<Rightarrow> 'd sfs \<Rightarrow> bool" where
  "sfs_inv hw good s \<longleftrightarrow>
     block_ok hw good (sfs_disk s) \<and> 66 \<le> unat (block_sector_count (sfs_disk s)) \<and> mounted s \<and>
     wf_directory (directory s) \<and> unique_names (sd_entries (directory s)) \<and> super_ok s \<and>
     (\<forall>i<8. entry_ok hw s i) \<and>
     slice 0 512 (block_bytes hw (sfs_disk s)) = encode_super (superblock s) \<and>
     slice 512 512 (block_bytes hw (sfs_disk s)) = encode_directory (directory s)"

lemma find_entry_named:
  assumes "unique_names (sd_entries d)"
  shows "find_entry path d = Some i \<longleftrightarrow> entry_named (sd_entries d) path i"
proof
  assume "find_entry path d = Some i"
  then show "entry_named (sd_entries d) path i"
    by (auto simp: find_entry_def entry_named_def find_slot_Some_iff)
next
  assume named: "entry_named (sd_entries d) path i"
  then have "find_entry path d \<noteq> None"
    by (auto simp: find_entry_def find_slot_None_iff entry_named_def)
  then obtain j where j: "find_entry path d = Some j" by blast
  then have "entry_named (sd_entries d) path j"
    by (auto simp: find_entry_def entry_named_def find_slot_Some_iff)
  with named assms have "i = j" unfolding unique_names_def by blast
  with j show "find_entry path d = Some i" by simp
qed

lemma find_entry_None: "find_entry path d = None \<longleftrightarrow> (\<forall>i. \<not> entry_named (sd_entries d) path i)"
  by (force simp: find_entry_def find_slot_None_iff entry_named_def in_set_conv_nth)

lemma sfs_disk_swap:
  assumes "block_bytes hw b = block_bytes hw (sfs_disk s)" "block_ok hw good b"
    and "block_sector_count b = block_sector_count (sfs_disk s)"
  shows "sfs_inv hw good s \<Longrightarrow> sfs_inv hw good (s\<lparr>sfs_disk := b\<rparr>)"
    and "sfs_files hw (s\<lparr>sfs_disk := b\<rparr>) = sfs_files hw s"
  using assms by (auto simp: sfs_inv_def sfs_files_def file_bytes_def entry_ok_def super_ok_def)

lemma unat_ucast_u32 [simp]: "unat (ucast (x :: u32) :: u64) = unat x"
proof -
  have "unat x < 2 ^ 64" using unsigned_less [of x, where ?'a = nat] by simp
  then show ?thesis by (simp add: unsigned_ucast_eq take_bit_nat_eq_self)
qed

lemma entry_start:
  assumes "sfs_inv hw good s" "i < 8"
  shows "unat (ucast (se_start_sector (sd_entries (directory s) ! i)) :: u64) = 2 + i * 8"
    and "unat (ucast (se_start_sector (sd_entries (directory s) ! i)) :: u64) + unat SFS_FILE_SECTORS
      \<le> unat (block_sector_count (sfs_disk s))"
proof -
  have "se_start_sector (sd_entries (directory s) ! i) = of_nat (2 + i * 8)"
    using assms by (auto simp: sfs_inv_def entry_ok_def Let_def)
  then have "unat (se_start_sector (sd_entries (directory s) ! i)) = 2 + i * 8"
    using assms(2) by (simp only: unat_of_nat) (simp add: take_bit_nat_eq_self)
  then show "unat (ucast (se_start_sector (sd_entries (directory s) ! i)) :: u64) = 2 + i * 8"
    by simp
  then show "unat (ucast (se_start_sector (sd_entries (directory s) ! i)) :: u64) + unat SFS_FILE_SECTORS
      \<le> unat (block_sector_count (sfs_disk s))"
    using assms by (simp add: sfs_inv_def)
qed

lemma sfs_read_ok:
  assumes inv: "sfs_inv hw good s"
  shows "\<exists>s'. sfs_read_file hw path capacity s =
      (case sfs_files hw s path of None \<Rightarrow> None
       | Some data \<Rightarrow> if length data \<le> unat capacity then Some data else None, s') \<and>
    sfs_inv hw good s' \<and> sfs_files hw s' = sfs_files hw s \<and> directory s' = directory s"
proof (cases "find_entry path (directory s)")
  case None
  with inv show ?thesis by (auto simp: sfs_read_file_def sfs_files_def sfs_inv_def)
next
  case (Some i)
  let ?e = "sd_entries (directory s) ! i"
  have r: "block_ok hw good (sfs_disk s)" "mounted s" "unique_names (sd_entries (directory s))"
    "wf_directory (directory s)" using inv by (auto simp: sfs_inv_def)
  have named: "entry_named (sd_entries (directory s)) path i" using Some find_entry_named [OF r(3)] by blast
  then have i: "i < 8" and used: "entry_used ?e" using r(4) by (auto simp: entry_named_def wf_directory_def)
  have e: "unat (se_size ?e) \<le> 4096" "checksum (file_bytes hw s i) (unat (se_size ?e)) = se_checksum ?e"
    using inv i used by (auto simp: sfs_inv_def entry_ok_def Let_def)
  from blk.rd_in_range [OF r(1) _ entry_start(2) [OF inv i]] entry_start(1) [OF inv i] obtain b where
    b: "block_read hw (ucast (se_start_sector ?e)) SFS_FILE_SECTORS (sfs_disk s) = (Some (file_bytes hw s i), b)"
      "block_ok hw good b" "block_bytes hw b = block_bytes hw (sfs_disk s)"
      "block_sector_count b = block_sector_count (sfs_disk s)"
    by (auto simp: file_bytes_def)
  have "length (block_bytes hw (sfs_disk s)) \<ge> 66 * 512" using blk.ok_size [OF r(1)] inv by (simp add: sfs_inv_def)
  then have "length (file_bytes hw s i) = 4096" using i by (simp add: file_bytes_def)
  then have len: "length (take (unat (se_size ?e)) (file_bytes hw s i)) = unat (se_size ?e)" using e by simp
  note swap = sfs_disk_swap [OF b(3,2,4)]
  show ?thesis
  proof (cases "unat (se_size ?e) \<le> unat capacity")
    case True
    then have "sfs_read_file hw path capacity s =
        (Some (take (unat (se_size ?e)) (file_bytes hw s i)), s\<lparr>sfs_disk := b\<rparr>)"
      using Some b e r by (simp add: sfs_read_file_def Let_def word_less_nat_alt)
    with Some True len swap inv show ?thesis by (simp add: sfs_files_def)
  next
    case False
    then have "sfs_read_file hw path capacity s = (None, s)"
      using Some r by (simp add: sfs_read_file_def Let_def word_less_nat_alt)
    with Some False len inv show ?thesis by (simp add: sfs_files_def)
  qed
qed

lemma sfs_files_length:
  assumes "sfs_inv hw good s"
  shows "sfs_files hw s path = Some data \<Longrightarrow> length data \<le> 4096"
  by (auto simp: sfs_files_def file_bytes_def slice_def)

lemma total_sectors_le: "ucast (ucast (n :: u64) :: u32) \<le> n"
  by (simp only: word_le_nat_alt unat_ucast_u32) (simp add: unsigned_ucast_eq unsigned_take_bit_eq)

section \<open>Writing a file\<close>

definition sfs_slot :: "cstring \<Rightarrow> sfs_directory \<Rightarrow> nat option" where
  "sfs_slot path d =
     (case find_entry path d of Some i \<Rightarrow> Some i
      | None \<Rightarrow> find_slot (\<lambda>e. \<not> entry_used e) (sd_entries d))"

lemma sfs_slot_SomeD:
  assumes "unique_names (sd_entries d)" "sfs_slot path d = Some i"
  shows "i < length (sd_entries d)" "entry_named (sd_entries d) q i \<Longrightarrow> q = path"
    "entry_named (sd_entries d) path j \<Longrightarrow> j = i"
proof (atomize (full), cases "find_entry path d")
  case None
  with assms show "i < length (sd_entries d) \<and> (entry_named (sd_entries d) q i \<longrightarrow> q = path) \<and>
      (entry_named (sd_entries d) path j \<longrightarrow> j = i)"
    by (auto simp: sfs_slot_def find_slot_Some_iff find_entry_None entry_named_def)
next
  case (Some k)
  then have "entry_named (sd_entries d) path k" using find_entry_named [OF assms(1)] by blast
  with Some assms show "i < length (sd_entries d) \<and> (entry_named (sd_entries d) q i \<longrightarrow> q = path) \<and>
      (entry_named (sd_entries d) path j \<longrightarrow> j = i)"
    unfolding unique_names_def by (auto simp: sfs_slot_def entry_named_def)
qed

lemma entry_named_update:
  assumes "i < length es" "entry_used e" "cstr (se_path e) = path"
  shows "entry_named (es[i := e]) q j \<longleftrightarrow> (if j = i then q = path else entry_named es q j)"
  using assms by (auto simp: entry_named_def)

lemma unique_names_update:
  assumes "unique_names es" "i < length es" "entry_used e" "cstr (se_path e) = path"
    and "\<And>j. entry_named es path j \<Longrightarrow> j = i"
  shows "unique_names (es[i := e])"
  using assms(1,5) unfolding unique_names_def entry_named_update [OF assms(2-4)] by metis

lemma checksum_cong: "take n xs = take n ys \<Longrightarrow> checksum xs n = checksum ys n"
  by (simp add: checksum_def)

lemma write_directory_ok:
  assumes "block_ok hw good (sfs_disk s)" "2 \<le> unat (block_sector_count (sfs_disk s))" "wf_directory (directory s)"
  shows "\<exists>b. write_directory hw s = (True, s\<lparr>sfs_disk := b\<rparr>) \<and> block_ok hw good b \<and>
    block_bytes hw b = splice (block_bytes hw (sfs_disk s)) 512 (encode_directory (directory s)) \<and>
    block_sector_count b = block_sector_count (sfs_disk s)"
  using blk.wr_in_range [OF assms(1), of 1 1 "encode_directory (directory s)"] assms(2,3)
  by (auto simp: write_directory_def length_encode_directory)

lemma sfs_write_step:
  fixes data :: "u8 list"
  assumes inv: "sfs_inv hw good s" and path: "cstr_ok path" "path_valid path" and sz: "unat sz \<le> 4096"
    and slot: "sfs_slot path (directory s) = Some i"
  defines "io \<equiv> map (\<lambda>j. if j < unat sz then data ! j else 0) [0..<4096]"
    and "e \<equiv> (sd_entries (directory s) ! i)\<lparr>se_path := set_cstr (se_path (sd_entries (directory s) ! i)) path,
        se_size := ucast sz, se_checksum := checksum data (unat sz), se_flags := 1\<rparr>"
  defines "dir \<equiv> (directory s)\<lparr>sd_entries := (sd_entries (directory s))[i := e]\<rparr>"
  shows "\<exists>b. sfs_write_file hw path data sz s = (True, s\<lparr>sfs_disk := b, directory := dir\<rparr>) \<and>
    block_ok hw good b \<and> block_sector_count b = block_sector_count (sfs_disk s) \<and> wf_directory dir \<and>
    block_bytes hw b = splice (splice (block_bytes hw (sfs_disk s)) ((2 + i * 8) * 512) io) 512 (encode_directory dir)"
proof -
  have r: "block_ok hw good (sfs_disk s)" "mounted s" "unique_names (sd_entries (directory s))"
    "wf_directory (directory s)" "66 \<le> unat (block_sector_count (sfs_disk s))"
    using inv by (auto simp: sfs_inv_def)
  have i: "i < 8" using sfs_slot_SomeD(1) [OF r(3) slot] r(4) by (simp add: wf_directory_def)
  have io: "length io = unat SFS_FILE_SECTORS * 512" by (simp add: io_def)
  from blk.wr_in_range [OF r(1) _ entry_start(2) [OF inv i] io] entry_start(1) [OF inv i] obtain b where
    b: "block_write hw (ucast (se_start_sector (sd_entries (directory s) ! i))) io SFS_FILE_SECTORS (sfs_disk s) = (True, b)"
      "block_ok hw good b" "block_bytes hw b = splice (block_bytes hw (sfs_disk s)) ((2 + i * 8) * 512) io"
      "block_sector_count b = block_sector_count (sfs_disk s)"
    by auto
  have wfe: "wf_entry (sd_entries (directory s) ! i)" using r(4) i by (simp add: wf_directory_def list_all_length)
  then have "wf_entry e" using path(2) by (simp add: e_def wf_entry_def path_valid_def length_set_cstr)
  then have dir: "wf_directory dir"
    using r(4) i by (auto simp: dir_def wf_directory_def list_all_length nth_list_update)
  let ?s = "s\<lparr>sfs_disk := b, directory := dir\<rparr>"
  from write_directory_ok [of hw good ?s] b r dir obtain b' where
    b': "write_directory hw ?s = (True, ?s\<lparr>sfs_disk := b'\<rparr>)" "block_ok hw good b'"
      "block_bytes hw b' = splice (block_bytes hw b) 512 (encode_directory dir)"
      "block_sector_count b' = block_sector_count b" by auto
  have "sfs_write_file hw path data sz s = write_directory hw ?s"
    using r(2) path(2) sz slot b(1)
    by (auto simp: sfs_write_file_def sfs_slot_def [symmetric] io_def dir_def e_def word_less_nat_alt Let_def)
  with b' b dir show ?thesis by (intro exI [of _ b']) simp
qed

text \<open>Where the extent and the directory of a write end up on the disk.\<close>

lemma extent_and_directory_slices:
  fixes disk io enc :: "u8 list"
  assumes "i < 8" "66 * 512 \<le> length disk" "length io = 4096" "length enc = 512"
  defines "disk' \<equiv> splice (splice disk ((2 + i * 8) * 512) io) 512 enc"
  shows "slice 0 512 disk' = slice 0 512 disk" "slice 512 512 disk' = enc"
    "slice ((2 + i * 8) * 512) 4096 disk' = io"
    "j < 8 \<Longrightarrow> j \<noteq> i \<Longrightarrow> slice ((2 + j * 8) * 512) 4096 disk' = slice ((2 + j * 8) * 512) 4096 disk"
proof -
  let ?d1 = "splice disk ((2 + i * 8) * 512) io"
  have d1: "length ?d1 = length disk" using assms by simp
  have outer: "slice c n disk' = slice c n ?d1" if "c + n \<le> 512 \<or> 1024 \<le> c" for c n
    unfolding disk'_def by (rule slice_splice_other) (use d1 assms that in auto)
  have inner: "slice c n ?d1 = slice c n disk"
    if "c + n \<le> (2 + i * 8) * 512 \<or> (2 + i * 8) * 512 + 4096 \<le> c" for c n
    by (rule slice_splice_other) (use assms that in auto)
  show "slice 0 512 disk' = slice 0 512 disk" using outer [of 0 512] inner [of 0 512] by simp
  show "slice 512 512 disk' = enc"
    unfolding disk'_def using slice_splice_same [of 512 enc ?d1] assms d1 by simp
  have "slice ((2 + i * 8) * 512) 4096 ?d1 = io"
    using slice_splice_same [of "(2 + i * 8) * 512" io disk] assms by simp
  then show "slice ((2 + i * 8) * 512) 4096 disk' = io" by (subst outer) simp_all
  assume "j < 8" "j \<noteq> i"
  then have "j * 8 + 8 \<le> i * 8 \<or> i * 8 + 8 \<le> j * 8" by linarith
  then have "(2 + j * 8) * 512 + 4096 \<le> (2 + i * 8) * 512 \<or> (2 + i * 8) * 512 + 4096 \<le> (2 + j * 8) * 512"
    by auto
  then show "slice ((2 + j * 8) * 512) 4096 disk' = slice ((2 + j * 8) * 512) 4096 disk"
    using outer [of "(2 + j * 8) * 512" 4096] inner [of "(2 + j * 8) * 512" 4096] by simp
qed

text \<open>Looking a name up after one entry was rewritten.\<close>

lemma find_entry_update:
  assumes uniq: "unique_names (sd_entries d)" and slot: "sfs_slot path d = Some i"
    and e: "entry_used e" "cstr (se_path e) = path"
  shows "unique_names ((sd_entries d)[i := e])"
    "find_entry q (d\<lparr>sd_entries := (sd_entries d)[i := e]\<rparr>) = (if q = path then Some i else find_entry q d)"
    "q \<noteq> path \<Longrightarrow> find_entry q d \<noteq> Some i"
proof -
  note slotD = sfs_slot_SomeD [OF uniq slot]
  have named: "entry_named ((sd_entries d)[i := e]) q j \<longleftrightarrow>
      (if j = i then q = path else entry_named (sd_entries d) q j)" for j
    using entry_named_update [OF slotD(1) e] .
  show u: "unique_names ((sd_entries d)[i := e])"
    by (rule unique_names_update [OF uniq slotD(1) e slotD(3)])
  show "q \<noteq> path \<Longrightarrow> find_entry q d \<noteq> Some i"
    using find_entry_named [OF uniq] slotD(2) by blast
  let ?d = "d\<lparr>sd_entries := (sd_entries d)[i := e]\<rparr>"
  show "find_entry q ?d = (if q = path then Some i else find_entry q d)"
  proof (cases "q = path")
    case True
    then show ?thesis using named find_entry_named [of ?d] u by simp
  next
    case False
    then have same: "entry_named (sd_entries ?d) q j \<longleftrightarrow> entry_named (sd_entries d) q j" for j
      using named slotD(2) [of q] by auto
    then show ?thesis
      using False find_entry_named [of ?d q] find_entry_named [OF uniq, of q] u
        find_entry_None [of q ?d] find_entry_None [of q d]
      by (cases "find_entry q d") auto
  qed
qed

lemma sfs_write_ok:
  fixes data :: "u8 list"
  assumes inv: "sfs_inv hw good s" and path: "cstr_ok path" "path_valid path"
    and sz: "unat sz \<le> 4096" "unat sz \<le> length data"
    and slot: "sfs_slot path (directory s) = Some i"
  shows "\<exists>s'. sfs_write_file hw path data sz s = (True, s') \<and> sfs_inv hw good s' \<and>
    sfs_files hw s' = (sfs_files hw s)(path \<mapsto> take (unat sz) data)"
proof -
  let ?es = "sd_entries (directory s)"
  define io where "io = map (\<lambda>j. if j < unat sz then data ! j else 0) [0..<4096]"
  define e where "e = (?es ! i)\<lparr>se_path := set_cstr (se_path (?es ! i)) path, se_size := ucast sz,
      se_checksum := checksum data (unat sz), se_flags := 1\<rparr>"
  define dir where "dir = (directory s)\<lparr>sd_entries := ?es[i := e]\<rparr>"
  from sfs_write_step [OF inv path sz(1) slot, of data] obtain b where
    b: "sfs_write_file hw path data sz s = (True, s\<lparr>sfs_disk := b, directory := dir\<rparr>)"
      "block_ok hw good b" "block_sector_count b = block_sector_count (sfs_disk s)" "wf_directory dir"
      "block_bytes hw b = splice (splice (block_bytes hw (sfs_disk s)) ((2 + i * 8) * 512) io) 512 (encode_directory dir)"
    by (auto simp: io_def e_def dir_def)
  let ?s = "s\<lparr>sfs_disk := b, directory := dir\<rparr>"
  have r: "block_ok hw good (sfs_disk s)" "unique_names ?es" "length ?es = 8"
    "66 \<le> unat (block_sector_count (sfs_disk s))"
    using inv by (auto simp: sfs_inv_def wf_directory_def)
  have i: "i < 8" using sfs_slot_SomeD(1) [OF r(2) slot] r(3) by simp
  have io: "length io = 4096" "take (unat sz) io = take (unat sz) data"
    using sz by (auto simp: io_def intro!: nth_equalityI)
  have disk: "66 * 512 \<le> length (block_bytes hw (sfs_disk s))" using blk.ok_size [OF r(1)] r(4) by simp
  note sl = extent_and_directory_slices [OF i disk io(1) length_encode_directory [OF b(4)], folded b(5)]
  have fb: "j < 8 \<Longrightarrow> file_bytes hw ?s j = (if j = i then io else file_bytes hw s j)" for j
    using sl(3) sl(4) [of j] by (simp add: file_bytes_def)
  have e: "entry_used e" "cstr (se_path e) = path" "se_size e = ucast sz" "se_checksum e = checksum data (unat sz)"
    "se_start_sector e = se_start_sector (?es ! i)"
    using path by (simp_all add: e_def entry_used_def cstr_set_cstr)
  have size_e: "unat (ucast sz :: u32) = unat sz" using sz by (simp add: unsigned_ucast_eq take_bit_nat_eq_self)
  have sum: "checksum io (unat sz) = checksum data (unat sz)" by (rule checksum_cong) (rule io)
  note look = find_entry_update [OF r(2) slot e(1,2), folded dir_def]
  have nth: "sd_entries dir ! j = (if j = i then e else ?es ! j)" for j
    using i r(3) by (auto simp: dir_def)
  have ok: "entry_ok hw ?s j" if "j < 8" for j
    using inv that e size_e sz(1) r(3) sum i
    by (cases "j = i") (auto simp: entry_ok_def sfs_inv_def nth fb Let_def)
  have "unique_names (sd_entries dir)" using look(1) by (simp add: dir_def)
  with inv b ok sl(1,2) have inv': "sfs_inv hw good ?s" by (simp add: sfs_inv_def super_ok_def)
  have "sfs_files hw ?s q = ((sfs_files hw s)(path \<mapsto> take (unat sz) data)) q" for q
  proof (cases "q = path \<or> find_entry q (directory s) = None")
    case True
    then show ?thesis using look(2) [of q] fb [OF i] i e size_e io r(3)
      by (auto simp: sfs_files_def nth)
  next
    case False
    then obtain j where j: "find_entry q (directory s) = Some j" "j \<noteq> i" "q \<noteq> path" using look(3) by auto
    then have "j < 8" using find_entry_named [OF r(2)] r(3) by (auto simp: entry_named_def)
    with j look(2) [of q] fb [of j] show ?thesis by (simp add: sfs_files_def nth)
  qed
  with b(1) inv' show ?thesis by blast
qed

section \<open>SaturnFS as a file store\<close>

definition sfs_accepts :: "cstring \<Rightarrow> u8 list \<Rightarrow> 'd sfs \<Rightarrow> bool" where
  "sfs_accepts path data s \<longleftrightarrow>
     path_valid path \<and> length data \<le> 4096 \<and> sfs_slot path (directory s) \<noteq> None"

definition sfs_named :: "cstring \<Rightarrow> u8 list \<Rightarrow> bool" where
  "sfs_named path data \<longleftrightarrow> cstr_ok path \<and> length data < 2 ^ 64"

lemma sfs_slot_None_iff:
  "sfs_slot path d = None \<longleftrightarrow> find_entry path d = None \<and> (\<forall>e\<in>set (sd_entries d). entry_used e)"
  by (auto simp: sfs_slot_def find_slot_None_iff split: option.splits)

lemma sfs_write_refused:
  assumes "\<not> path_valid path \<or> unat sz > 4096 \<or> sfs_slot path (directory s) = None \<or> \<not> mounted s"
  shows "sfs_write_file hw path data sz s = (False, s)"
  using assms by (auto simp: sfs_write_file_def sfs_slot_def [symmetric] word_less_nat_alt)

interpretation sfs_store: file_store
    "\<lambda>p d s. sfs_write_file hw p d (of_nat (length d)) s" "\<lambda>p s. sfs_read_file hw p 4096 s"
    "sfs_files hw" sfs_accepts sfs_named "sfs_inv hw good"
  for hw :: "'d virtio_hw" and good
proof (unfold_locales, goal_cases)
  case (1 s p d)
  then have "unat (of_nat (length d) :: u64) = length d"
    by (simp add: unat_of_nat take_bit_nat_eq_self sfs_named_def)
  with 1 sfs_write_ok [of hw good s p "of_nat (length d)" d] show ?case
    by (auto simp: sfs_accepts_def sfs_named_def)
next
  case (2 s p d)
  then have "unat (of_nat (length d) :: u64) = length d"
    by (simp add: unat_of_nat take_bit_nat_eq_self sfs_named_def)
  with 2 have "sfs_write_file hw p d (of_nat (length d)) s = (False, s)"
    by (intro sfs_write_refused) (auto simp: sfs_accepts_def)
  with 2 show ?case by simp
next
  case (3 s p)
  from sfs_read_ok [OF this(1), of p 4096] sfs_files_length [OF this(1), of p] show ?case
    by (auto split: option.splits)
next
  case (4 p d)
  then show ?case by (simp add: sfs_named_def)
qed

section \<open>Formatting and mounting\<close>

lemma entry_used_format [simp]: "\<not> entry_used (format_entry i e)"
  by (simp add: entry_used_def format_entry_def)

lemma sfs_format_ok:
  assumes "block_ok hw good (sfs_disk s)" "66 \<le> unat (block_sector_count (sfs_disk s))"
    and "wf_directory (directory s)"
  shows "\<exists>s'. sfs_format hw s = (True, s') \<and> sfs_inv hw good s' \<and> sfs_files hw s' = Map.empty"
proof -
  define sb where "sb = \<lparr>sb_magic = SFS_MAGIC, sb_version = 1, sb_sector_size = 512,
      sb_total_sectors = ucast (block_sector_count (sfs_disk s)), sb_max_files = of_nat SFS_MAX_FILES,
      sb_data_start = 2, sb_reserved = replicate 488 (0 :: u8)\<rparr>"
  define dir where "dir = \<lparr>sd_entries = map (\<lambda>i. format_entry i (sd_entries (directory s) ! i)) [0..<8],
      sd_reserved = replicate 32 (0 :: u8)\<rparr>"
  have "length (encode_super sb) = unat (1 :: u64) * 512" by (simp add: encode_super_def sb_def)
  from blk.wr_in_range [OF assms(1) _ _ this, of 0] assms(2) obtain b where
    b: "block_write hw 0 (encode_super sb) 1 (sfs_disk s) = (True, b)" "block_ok hw good b"
      "block_bytes hw b = splice (block_bytes hw (sfs_disk s)) 0 (encode_super sb)"
      "block_sector_count b = block_sector_count (sfs_disk s)" by auto
  have wf: "wf_directory dir"
    using assms(3) by (auto simp: dir_def wf_directory_def list_all_length wf_entry_def format_entry_def)
  let ?s = "s\<lparr>superblock := sb, directory := dir, sfs_disk := b\<rparr>"
  from write_directory_ok [of hw good ?s] b assms(2) wf obtain b' where
    b': "write_directory hw ?s = (True, ?s\<lparr>sfs_disk := b'\<rparr>)" "block_ok hw good b'"
      "block_bytes hw b' = splice (block_bytes hw b) 512 (encode_directory dir)"
      "block_sector_count b' = block_sector_count b" by auto
  let ?s' = "?s\<lparr>sfs_disk := b', mounted := True\<rparr>"
  have fmt: "sfs_format hw s = (True, ?s')"
    using assms(2) b(1) b'(1) by (simp add: sfs_format_def Let_def sb_def dir_def word_less_nat_alt)
  have none: "\<not> entry_named (sd_entries dir) q i" for q i by (auto simp: dir_def entry_named_def)
  have len: "66 * 512 \<le> length (block_bytes hw (sfs_disk s))" using blk.ok_size [OF assms(1)] assms(2) by simp
  have sup: "length (encode_super sb) = 512" by (simp add: encode_super_def sb_def)
  have enc: "length (encode_directory dir) = 512" using wf by (rule length_encode_directory)
  have lb: "length (block_bytes hw b) = length (block_bytes hw (sfs_disk s))"
    unfolding b(3) using sup len by simp
  have "slice 0 512 (block_bytes hw b') = slice 0 512 (block_bytes hw b)"
    unfolding b'(3) by (rule slice_splice_other) (use lb len enc in auto)
  moreover have "slice 0 512 (block_bytes hw b) = encode_super sb"
    unfolding b(3) using slice_splice_same [of 0 "encode_super sb" "block_bytes hw (sfs_disk s)"] sup len by simp
  moreover have "slice 512 512 (block_bytes hw b') = encode_directory dir"
    unfolding b'(3) using slice_splice_same [of 512 "encode_directory dir" "block_bytes hw b"] enc lb len by simp
  moreover have "super_ok ?s'"
    using b(4) b'(4) total_sectors_le by (simp add: super_ok_def sb_def)
  moreover have "entry_ok hw ?s' i" if "i < 8" for i
    using that by (simp add: entry_ok_def dir_def Let_def) (simp add: format_entry_def)
  ultimately have "sfs_inv hw good ?s'"
    using b b' wf none assms(2) by (simp add: sfs_inv_def unique_names_def)
  moreover have "sfs_files hw ?s' = Map.empty"
    using none by (auto simp: sfs_files_def find_entry_None)
  ultimately show ?thesis using fmt by blast
qed

lemma sfs_init_mounts:
  assumes inv: "sfs_inv hw good s"
  shows "\<exists>b. sfs_init hw (s\<lparr>superblock := sbx, directory := dirx, mounted := mx\<rparr>) = s\<lparr>sfs_disk := b\<rparr> \<and>
    block_ok hw good b \<and> block_bytes hw b = block_bytes hw (sfs_disk s) \<and>
    block_sector_count b = block_sector_count (sfs_disk s)"
proof -
  have r: "block_ok hw good (sfs_disk s)" "66 \<le> unat (block_sector_count (sfs_disk s))" "mounted s"
    "wf_directory (directory s)" "super_ok s"
    "slice 0 512 (block_bytes hw (sfs_disk s)) = encode_super (superblock s)"
    "slice 512 512 (block_bytes hw (sfs_disk s)) = encode_directory (directory s)"
    using inv by (auto simp: sfs_inv_def)
  from blk.rd_in_range [OF r(1), of 1 0] r obtain b where
    b: "block_read hw 0 1 (sfs_disk s) = (Some (encode_super (superblock s)), b)" "block_ok hw good b"
      "block_bytes hw b = block_bytes hw (sfs_disk s)" "block_sector_count b = block_sector_count (sfs_disk s)"
    by auto
  from blk.rd_in_range [OF b(2), of 1 1] r b obtain b' where
    b': "block_read hw 1 1 b = (Some (encode_directory (directory s)), b')" "block_ok hw good b'"
      "block_bytes hw b' = block_bytes hw b" "block_sector_count b' = block_sector_count b"
    by auto
  have "sfs_init hw (s\<lparr>superblock := sbx, directory := dirx, mounted := mx\<rparr>) =
      s\<lparr>superblock := superblock s, directory := directory s, mounted := True, sfs_disk := b'\<rparr>"
    using b b' r(5) by (auto simp: sfs_init_def Let_def decode_encode_super decode_encode_directory [OF r(4)]
        super_ok_def)
  also have "\<dots> = s\<lparr>sfs_disk := b'\<rparr>" using r(3) by simp
  finally show ?thesis using b b' by auto
qed

section \<open>Properties\<close>

text \<open>A freshly booted file system on a blank RAM disk or virtio device.\<close>

definition sfs_boot :: "instant_dev block_layer \<Rightarrow> instant_dev sfs" where
  "sfs_boot b =
     \<lparr>superblock = \<lparr>sb_magic = 0, sb_version = 0, sb_sector_size = 0, sb_total_sectors = 0,
        sb_max_files = 0, sb_data_start = 0, sb_reserved = replicate 488 0\<rparr>,
      directory = \<lparr>sd_entries = replicate 8 \<lparr>se_path = replicate 44 0, se_start_sector = 0, se_size = 0,
          se_checksum = 0, se_flags = 0\<rparr>, sd_reserved = replicate 32 0\<rparr>,
      mounted = False, sfs_disk = b\<rparr>"

lemma sfs_boot_formatted:
  assumes "block_ok instant_hw (\<lambda>_. True) b" "66 \<le> unat (block_sector_count b)"
  shows "\<exists>s. sfs_format instant_hw (sfs_boot b) = (True, s) \<and> sfs_inv instant_hw (\<lambda>_. True) s \<and>
    sfs_files instant_hw s = Map.empty"
  by (rule sfs_format_ok)
    (use assms in \<open>simp_all add: sfs_boot_def wf_directory_def wf_entry_def list_all_length\<close>)

lemma sfs_empty_free:
  assumes "sfs_inv hw good s" "sfs_files hw s = Map.empty"
  shows "\<exists>e\<in>set (sd_entries (directory s)). \<not> entry_used e"
proof -
  let ?es = "sd_entries (directory s)"
  have len: "length ?es = 8" and uniq: "unique_names ?es"
    using assms(1) by (auto simp: sfs_inv_def wf_directory_def)
  have "find_entry (cstr (se_path (?es ! 0))) (directory s) = None"
    using fun_cong [OF assms(2), of "cstr (se_path (?es ! 0))"] by (simp add: sfs_files_def)
  then have "\<not> entry_used (?es ! 0)" using len by (auto simp: find_entry_None entry_named_def)
  then show ?thesis using len by (intro bexI [of _ "?es ! 0"]) simp_all
qed

lemma boot_sectors: "66 \<le> unat (block_sector_count ramdisk_boot)"
  by (simp add: block_sector_count_def ramdisk_boot_def)

text \<open>
  C9: on a mounted, well-formed SaturnFS, writing a file succeeds exactly when the path is valid, the
  size is at most 4096 bytes and the file exists or a directory entry is free. A successful write
  changes that file and no other, a refused one changes no file, and reading back returns the bytes
  written.
\<close>

theorem sfs_write_read_back:
  assumes "sfs_inv hw good s" "cstr_ok path" "length data < 2 ^ 64"
    and "sfs_write_file hw path data (of_nat (length data)) s = (done, s')"
  shows "done = (path_valid path \<and> length data \<le> 4096 \<and>
      (find_entry path (directory s) \<noteq> None \<or> (\<exists>e\<in>set (sd_entries (directory s)). \<not> entry_used e))) \<and>
    sfs_inv hw good s' \<and>
    sfs_files hw s' = (if done then (sfs_files hw s)(path \<mapsto> data) else sfs_files hw s) \<and>
    (done \<longrightarrow> fst (sfs_read_file hw path 4096 s') = Some data)"
proof -
  have named: "sfs_named path data" using assms(2,3) by (simp add: sfs_named_def)
  note facts = sfs_store.store_result [OF assms(1) named] sfs_store.store_files [OF assms(1) named]
    sfs_store.store_ok [OF assms(1) named] sfs_store.fetch_after_store [OF assms(1) named]
  then show ?thesis
    using assms(4) sfs_slot_None_iff [of path "directory s"] by (auto simp: sfs_accepts_def)
qed

theorem sfs_write_read_back_witness:
  "\<exists>s s'. sfs_format instant_hw (sfs_boot ramdisk_boot) = (True, s) \<and>
     sfs_write_file instant_hw [0x2f, 0x61] [1, 2, 3] (of_nat (length [1, 2, 3 :: u8])) s = (True, s') \<and>
     fst (sfs_read_file instant_hw [0x2f, 0x61] 4096 s') = Some [1, 2, 3]"
proof -
  obtain s where s: "sfs_format instant_hw (sfs_boot ramdisk_boot) = (True, s)"
    "sfs_inv instant_hw (\<lambda>_. True) s" "sfs_files instant_hw s = Map.empty"
    using sfs_boot_formatted [OF ramdisk_boot_ok boot_sectors] by blast
  obtain r s' where w: "sfs_write_file instant_hw [0x2f, 0x61] [1, 2, 3] (of_nat (length [1, 2, 3 :: u8])) s = (r, s')"
    by (metis surj_pair)
  have free: "\<exists>e\<in>set (sd_entries (directory s)). \<not> entry_used e"
    by (rule sfs_empty_free [OF s(2,3)])
  have "cstr_ok [0x2f, 0x61]" "path_valid [0x2f, 0x61]" by (simp_all add: cstr_ok_def path_valid_def)
  with sfs_write_read_back [OF s(2) _ _ w] free s(1) w show ?thesis by auto
qed

text \<open>
  C27: files survive a reboot: mounting the disk again with sfs_init, whatever the superblock, the
  directory and the mount flag in memory were, gives back a well-formed file system with the same files.
\<close>

theorem sfs_remount_keeps_files:
  assumes "sfs_inv hw good s"
  shows "sfs_inv hw good (sfs_init hw (s\<lparr>superblock := sbx, directory := dirx, mounted := mx\<rparr>)) \<and>
    sfs_files hw (sfs_init hw (s\<lparr>superblock := sbx, directory := dirx, mounted := mx\<rparr>)) = sfs_files hw s"
proof -
  from sfs_init_mounts [OF assms, where sbx = sbx and dirx = dirx and mx = mx] obtain b where
    b: "sfs_init hw (s\<lparr>superblock := sbx, directory := dirx, mounted := mx\<rparr>) = s\<lparr>sfs_disk := b\<rparr>"
      "block_ok hw good b" "block_bytes hw b = block_bytes hw (sfs_disk s)"
      "block_sector_count b = block_sector_count (sfs_disk s)" by blast
  show ?thesis unfolding b(1) using sfs_disk_swap [OF b(3,2,4)] assms by blast
qed

theorem sfs_remount_keeps_files_witness:
  "\<exists>s. sfs_format instant_hw (sfs_boot ramdisk_boot) = (True, s) \<and>
     sfs_files instant_hw (sfs_init instant_hw (s\<lparr>superblock := superblock s,
       directory := directory (sfs_boot ramdisk_boot), mounted := False\<rparr>)) = Map.empty"
  using sfs_boot_formatted [OF ramdisk_boot_ok boot_sectors] sfs_remount_keeps_files by metis

text \<open>
  Formatting a working device of at least 66 sectors succeeds and gives a mounted, well-formed
  file system with no files; a smaller device is refused and left unmounted.
\<close>

theorem sfs_format_gives_empty:
  assumes "block_ok hw good (sfs_disk s)" "wf_directory (directory s)"
  shows "if 66 \<le> unat (block_sector_count (sfs_disk s))
    then \<exists>s'. sfs_format hw s = (True, s') \<and> sfs_inv hw good s' \<and> sfs_files hw s' = Map.empty
    else sfs_format hw s = (False, s\<lparr>mounted := False\<rparr>)"
  using sfs_format_ok [OF assms(1) _ assms(2)] by (simp add: sfs_format_def word_less_nat_alt)

theorem sfs_format_gives_empty_witness:
  "\<exists>s'. sfs_format instant_hw (sfs_boot virtio_boot) = (True, s') \<and> sfs_files instant_hw s' = Map.empty"
proof -
  have "wf_directory (directory (sfs_boot virtio_boot))" "block_ok instant_hw (\<lambda>_. True) (sfs_disk (sfs_boot virtio_boot))"
    "66 \<le> unat (block_sector_count (sfs_disk (sfs_boot virtio_boot)))"
    using virtio_boot_ok
    by (simp_all add: sfs_boot_def wf_directory_def wf_entry_def list_all_length block_sector_count_def
        virtio_boot_def virtio_blk_sector_count_def)
  with sfs_format_gives_empty [of instant_hw "\<lambda>_. True" "sfs_boot virtio_boot"] show ?thesis by auto
qed

end
