(* ===== verification/Vfs.thy ===== *)
theory Vfs
  imports Sfs
begin

text \<open>
  The virtual file system, kernel/fs/vfs.c: a RAM file system of sixteen nodes whose tree structure
  is carried by the full path of each node, with SaturnFS mounted under /disk. Paths are C strings;
  a path whose first component is disk, with something after it, is served by SaturnFS through the
  static buffer \<open>disk_file_buffer\<close>.
\<close>

section \<open>State\<close>

abbreviation VFS_MAX_FILES :: u64 where "VFS_MAX_FILES \<equiv> 8"
abbreviation VFS_MAX_DIRS :: u64 where "VFS_MAX_DIRS \<equiv> 8"
abbreviation VFS_MAX_NODES :: nat where "VFS_MAX_NODES \<equiv> 16"
abbreviation VFS_MAX_PATH :: nat where "VFS_MAX_PATH \<equiv> 48"
abbreviation VFS_MAX_FILE_SIZE :: u64 where "VFS_MAX_FILE_SIZE \<equiv> 4096"
abbreviation slash :: u8 where "slash \<equiv> 0x2f"

datatype ramfs_node_kind = RAMFS_FILE | RAMFS_DIRECTORY

record ramfs_node =
  rn_path :: cstring
  rn_size :: u64
  rn_data :: "u8 list"
  rn_kind :: ramfs_node_kind
  rn_used :: bool

datatype vfs_entry_kind = VFS_ENTRY_FILE | VFS_ENTRY_DIRECTORY

record vfs_entry =
  ve_path :: "u8 list"
  ve_size :: u64
  ve_kind :: vfs_entry_kind

record 'd vfs =
  nodes :: "ramfs_node list"
  file_count :: u64
  dir_count :: u64
  disk_file_buffer :: "u8 list"
  vfs_sfs :: "'d sfs"

section \<open>Paths\<close>

definition vfs_disk_path :: "cstring \<Rightarrow> cstring option" where
  "vfs_disk_path path =
     (if take 5 path = [0x2f, 0x64, 0x69, 0x73, 0x6b] \<and> length path > 6 \<and> path ! 5 = slash
      then Some (drop 5 path) else None)"

definition vfs_path_valid :: "cstring \<Rightarrow> bool" where
  "vfs_path_valid path \<longleftrightarrow>
     path \<noteq> [] \<and> hd path = slash \<and> length path < VFS_MAX_PATH \<and> length path > 1"

definition vfs_find :: "cstring \<Rightarrow> 'd vfs \<Rightarrow> nat option" where
  "vfs_find path v = find_slot (\<lambda>n. rn_used n \<and> cstr_equals (rn_path n) path) (nodes v)"

definition last_slash :: "cstring \<Rightarrow> nat" where
  "last_slash path = fold (\<lambda>i acc. if path ! i = slash then i else acc) [0..<length path] 0"

definition vfs_parent_exists :: "cstring \<Rightarrow> 'd vfs \<Rightarrow> bool" where
  "vfs_parent_exists path v \<longleftrightarrow>
     (if last_slash path = 0 then True
      else case vfs_find (take (last_slash path) path) v of
             None \<Rightarrow> False
           | Some i \<Rightarrow> rn_kind (nodes v ! i) = RAMFS_DIRECTORY)"

definition vfs_alloc_node :: "'d vfs \<Rightarrow> nat option" where
  "vfs_alloc_node v = find_slot (\<lambda>n. \<not> rn_used n) (nodes v)"

text \<open>The prefix test of vfs_remove and vfs_rename: the path lies below the directory.\<close>

definition path_below :: "cstring \<Rightarrow> cstring \<Rightarrow> bool" where
  "path_below dir path \<longleftrightarrow>
     take (length dir) path = dir \<and> length dir < length path \<and> path ! length dir = slash"

section \<open>Operations on the tree\<close>

definition vfs_init :: "'d vfs \<Rightarrow> 'd vfs" where
  "vfs_init v = v\<lparr>file_count := 0, dir_count := 0,
     nodes := map (\<lambda>n. n\<lparr>rn_used := False, rn_size := 0, rn_path := []\<rparr>) (nodes v)\<rparr>"

definition vfs_mkdir :: "cstring \<Rightarrow> 'd vfs \<Rightarrow> bool \<times> 'd vfs" where
  "vfs_mkdir path v =
     (if \<not> vfs_path_valid path \<or> vfs_find path v \<noteq> None \<or> \<not> vfs_parent_exists path v \<or>
         dir_count v \<ge> VFS_MAX_DIRS
      then (False, v)
      else case vfs_alloc_node v of
             None \<Rightarrow> (False, v)
           | Some i \<Rightarrow>
               (True, v\<lparr>nodes := (nodes v)[i := (nodes v ! i)\<lparr>rn_path := path, rn_size := 0,
                           rn_kind := RAMFS_DIRECTORY, rn_used := True\<rparr>],
                        dir_count := dir_count v + 1\<rparr>))"

definition vfs_remove :: "cstring \<Rightarrow> 'd vfs \<Rightarrow> bool \<times> 'd vfs" where
  "vfs_remove path v =
     (case vfs_find path v of
        None \<Rightarrow> (False, v)
      | Some i \<Rightarrow>
          let cleared = (nodes v ! i)\<lparr>rn_used := False, rn_size := 0, rn_path := []\<rparr> in
          if rn_kind (nodes v ! i) = RAMFS_DIRECTORY then
            if \<exists>j<length (nodes v). j \<noteq> i \<and> rn_used (nodes v ! j) \<and> path_below path (rn_path (nodes v ! j))
            then (False, v)
            else (True, v\<lparr>dir_count := dir_count v - 1, nodes := (nodes v)[i := cleared]\<rparr>)
          else (True, v\<lparr>file_count := file_count v - 1, nodes := (nodes v)[i := cleared]\<rparr>))"

definition rename_node :: "cstring \<Rightarrow> cstring \<Rightarrow> ramfs_node \<Rightarrow> ramfs_node" where
  "rename_node old new n =
     (if rn_used n \<and> path_below old (rn_path n)
      then n\<lparr>rn_path := new @ drop (length old) (rn_path n)\<rparr> else n)"

definition vfs_rename :: "cstring \<Rightarrow> cstring \<Rightarrow> 'd vfs \<Rightarrow> bool \<times> 'd vfs" where
  "vfs_rename old_path new_path v =
     (case vfs_find old_path v of
        None \<Rightarrow> (False, v)
      | Some i \<Rightarrow>
          if \<not> vfs_path_valid new_path \<or> vfs_find new_path v \<noteq> None \<or> \<not> vfs_parent_exists new_path v
          then (False, v)
          else if rn_kind (nodes v ! i) = RAMFS_DIRECTORY \<and> path_below old_path new_path
          then (False, v)
          else if \<exists>j<length (nodes v). j \<noteq> i \<and> rn_used (nodes v ! j) \<and>
                    path_below old_path (rn_path (nodes v ! j)) \<and>
                    length new_path + (length (rn_path (nodes v ! j)) - length old_path) \<ge> VFS_MAX_PATH
          then (False, v)
          else (True, v\<lparr>nodes := (map (rename_node old_path new_path) (nodes v))
                                    [i := (nodes v ! i)\<lparr>rn_path := new_path\<rparr>]\<rparr>))"

section \<open>Operations on file contents\<close>

definition sfs_into_buffer :: "'d virtio_hw \<Rightarrow> cstring \<Rightarrow> 'd vfs \<Rightarrow> nat option \<times> 'd vfs" where
  "sfs_into_buffer hw disk_path v =
     (case sfs_read_file hw disk_path SFS_MAX_FILE_SIZE (vfs_sfs v) of
        (None, s) \<Rightarrow> (None, v\<lparr>vfs_sfs := s\<rparr>)
      | (Some data, s) \<Rightarrow>
          (Some (length data),
           v\<lparr>vfs_sfs := s, disk_file_buffer := splice (disk_file_buffer v) 0 data\<rparr>))"

definition vfs_file_data :: "'d virtio_hw \<Rightarrow> cstring \<Rightarrow> 'd vfs \<Rightarrow> (u8 list \<times> u64) option \<times> 'd vfs" where
  "vfs_file_data hw path v =
     (case vfs_disk_path path of
        Some disk_path \<Rightarrow>
          (case sfs_into_buffer hw disk_path v of
             (None, v) \<Rightarrow> (None, v)
           | (Some n, v) \<Rightarrow> (Some (disk_file_buffer v, of_nat n), v))
      | None \<Rightarrow>
          (case vfs_find path v of
             None \<Rightarrow> (None, v)
           | Some i \<Rightarrow>
               if rn_kind (nodes v ! i) \<noteq> RAMFS_FILE then (None, v)
               else (Some (rn_data (nodes v ! i), rn_size (nodes v ! i)), v)))"

definition entry_path :: "cstring \<Rightarrow> u8 list" where
  "entry_path path = take 47 path @ replicate (48 - length (take 47 path)) 0"

definition vfs_stat :: "'d virtio_hw \<Rightarrow> cstring \<Rightarrow> 'd vfs \<Rightarrow> vfs_entry option \<times> 'd vfs" where
  "vfs_stat hw path v =
     (case vfs_disk_path path of
        Some _ \<Rightarrow>
          (case vfs_file_data hw path v of
             (None, v) \<Rightarrow> (None, v)
           | (Some (_, sz), v) \<Rightarrow>
               (Some \<lparr>ve_path = entry_path path, ve_size = sz, ve_kind = VFS_ENTRY_FILE\<rparr>, v))
      | None \<Rightarrow>
          (case vfs_find path v of
             None \<Rightarrow> (None, v)
           | Some i \<Rightarrow>
               (Some \<lparr>ve_path = entry_path path, ve_size = rn_size (nodes v ! i),
                      ve_kind = (if rn_kind (nodes v ! i) = RAMFS_DIRECTORY
                                 then VFS_ENTRY_DIRECTORY else VFS_ENTRY_FILE)\<rparr>, v)))"

definition vfs_create :: "'d virtio_hw \<Rightarrow> cstring \<Rightarrow> u8 list \<Rightarrow> u64 \<Rightarrow> 'd vfs \<Rightarrow> bool \<times> 'd vfs" where
  "vfs_create hw path data sz v =
     (case vfs_disk_path path of
        Some disk_path \<Rightarrow>
          (case sfs_write_file hw disk_path data sz (vfs_sfs v) of (r, s) \<Rightarrow> (r, v\<lparr>vfs_sfs := s\<rparr>))
      | None \<Rightarrow>
          if \<not> vfs_path_valid path \<or> sz > VFS_MAX_FILE_SIZE \<or> vfs_find path v \<noteq> None \<or>
             \<not> vfs_parent_exists path v \<or> file_count v \<ge> VFS_MAX_FILES
          then (False, v)
          else case vfs_alloc_node v of
                 None \<Rightarrow> (False, v)
               | Some i \<Rightarrow>
                   (True, v\<lparr>nodes := (nodes v)[i := (nodes v ! i)\<lparr>rn_path := path,
                               rn_data := splice (rn_data (nodes v ! i)) 0 (take (unat sz) data),
                               rn_size := sz, rn_kind := RAMFS_FILE, rn_used := True\<rparr>],
                            file_count := file_count v + 1\<rparr>))"

definition vfs_write ::
    "'d virtio_hw \<Rightarrow> cstring \<Rightarrow> u64 \<Rightarrow> u8 list \<Rightarrow> u64 \<Rightarrow> 'd vfs \<Rightarrow> int \<times> 'd vfs" where
  "vfs_write hw path offset buffer sz v =
     (case vfs_disk_path path of
        Some disk_path \<Rightarrow>
          if sz = 0 \<or> offset > SFS_MAX_FILE_SIZE \<or> sz > SFS_MAX_FILE_SIZE - offset then (-1, v)
          else (case sfs_into_buffer hw disk_path v of
                  (None, v) \<Rightarrow> (-1, v)
                | (Some current, v) \<Rightarrow>
                    let v = v\<lparr>disk_file_buffer :=
                              splice (disk_file_buffer v) (unat offset) (take (unat sz) buffer)\<rparr>;
                        final_size = (if offset + sz > of_nat current then offset + sz else of_nat current)
                    in case sfs_write_file hw disk_path (disk_file_buffer v) final_size (vfs_sfs v) of
                         (r, s) \<Rightarrow> (if r then uint sz else -1, v\<lparr>vfs_sfs := s\<rparr>))
      | None \<Rightarrow>
          (case vfs_find path v of
             None \<Rightarrow> (-1, v)
           | Some i \<Rightarrow>
               let n = nodes v ! i in
               if rn_kind n \<noteq> RAMFS_FILE \<or> offset > VFS_MAX_FILE_SIZE \<or> sz > VFS_MAX_FILE_SIZE - offset
               then (-1, v)
               else (uint sz,
                     v\<lparr>nodes := (nodes v)[i := n\<lparr>
                         rn_data := splice (rn_data n) (unat offset) (take (unat sz) buffer),
                         rn_size := (if offset + sz > rn_size n then offset + sz else rn_size n)\<rparr>]\<rparr>)))"

definition zero_fill :: "u8 list \<Rightarrow> nat \<Rightarrow> nat \<Rightarrow> u8 list" where
  "zero_fill data lo hi = splice data lo (replicate (hi - lo) 0)"

definition vfs_truncate :: "'d virtio_hw \<Rightarrow> cstring \<Rightarrow> u64 \<Rightarrow> 'd vfs \<Rightarrow> bool \<times> 'd vfs" where
  "vfs_truncate hw path sz v =
     (case vfs_disk_path path of
        Some disk_path \<Rightarrow>
          if sz > SFS_MAX_FILE_SIZE then (False, v)
          else (case sfs_into_buffer hw disk_path v of
                  (None, v) \<Rightarrow> (False, v)
                | (Some current, v) \<Rightarrow>
                    let v = v\<lparr>disk_file_buffer := zero_fill (disk_file_buffer v) current (unat sz)\<rparr>
                    in case sfs_write_file hw disk_path (disk_file_buffer v) sz (vfs_sfs v) of
                         (r, s) \<Rightarrow> (r, v\<lparr>vfs_sfs := s\<rparr>))
      | None \<Rightarrow>
          (case vfs_find path v of
             None \<Rightarrow> (False, v)
           | Some i \<Rightarrow>
               let n = nodes v ! i in
               if rn_kind n \<noteq> RAMFS_FILE \<or> sz > VFS_MAX_FILE_SIZE then (False, v)
               else (True,
                     v\<lparr>nodes := (nodes v)[i := n\<lparr>
                         rn_data := (if sz > rn_size n then zero_fill (rn_data n) (unat (rn_size n)) (unat sz)
                                     else rn_data n),
                         rn_size := sz\<rparr>]\<rparr>)))"

text \<open>A read returns the bytes copied to the caller, \<open>None\<close> for the return value -1.\<close>

definition vfs_read ::
    "'d virtio_hw \<Rightarrow> cstring \<Rightarrow> u64 \<Rightarrow> u64 \<Rightarrow> 'd vfs \<Rightarrow> u8 list option \<times> 'd vfs" where
  "vfs_read hw path offset sz v =
     (case vfs_disk_path path of
        Some disk_path \<Rightarrow>
          (case sfs_into_buffer hw disk_path v of
             (None, v) \<Rightarrow> (None, v)
           | (Some file_size, v) \<Rightarrow>
               if offset > of_nat file_size then (None, v)
               else
                 let sz = (if sz > of_nat file_size - offset then of_nat file_size - offset else sz)
                 in (Some (slice (unat offset) (unat sz) (disk_file_buffer v)), v))
      | None \<Rightarrow>
          (case vfs_find path v of
             None \<Rightarrow> (None, v)
           | Some i \<Rightarrow>
               let n = nodes v ! i in
               if rn_kind n \<noteq> RAMFS_FILE \<or> offset > rn_size n then (None, v)
               else
                 let sz = (if sz > rn_size n - offset then rn_size n - offset else sz)
                 in (Some (slice (unat offset) (unat sz) (rn_data n)), v)))"

definition vfs_dir_count :: "'d vfs \<Rightarrow> u64" where
  "vfs_dir_count v = dir_count v"

definition vfs_file_count :: "'d vfs \<Rightarrow> u64" where
  "vfs_file_count v = file_count v"

definition vfs_list :: "u64 \<Rightarrow> 'd vfs \<Rightarrow> vfs_entry option" where
  "vfs_list index v =
     (let used = filter rn_used (nodes v) in
      if unat index < length used
      then let n = used ! unat index in
           Some \<lparr>ve_path = entry_path (rn_path n), ve_size = rn_size n,
                 ve_kind = (if rn_kind n = RAMFS_DIRECTORY then VFS_ENTRY_DIRECTORY else VFS_ENTRY_FILE)\<rparr>
      else None)"

section \<open>Parents and ancestors of a path\<close>

lemma last_slash_snoc: "last_slash (p @ [c]) = (if c = slash then length p else last_slash p)"
proof -
  have "fold (\<lambda>i acc. if (p @ [c]) ! i = slash then i else acc) [0..<length p] 0
      = fold (\<lambda>i acc. if p ! i = slash then i else acc) [0..<length p] (0 :: nat)"
    by (rule fold_cong) (auto simp: nth_append)
  then show ?thesis by (simp add: last_slash_def)
qed

lemma last_slash_Nil [simp]: "last_slash [] = 0"
  by (simp add: last_slash_def)

lemma last_slash_append:
  "last_slash (p @ q) = (if slash \<in> set q then length p + last_slash q else last_slash p)"
proof (induction q rule: rev_induct)
  case (snoc c q)
  have "slash \<in> set q \<or> slash \<notin> set q" by blast
  with snoc show ?case by (auto simp: last_slash_snoc append_assoc [symmetric] simp del: append_assoc)
qed simp

lemma last_slash_no_slash: "slash \<notin> set p \<Longrightarrow> last_slash p = 0"
  by (induction p rule: rev_induct) (auto simp: last_slash_snoc)

lemma last_slash_pos:
  assumes "0 < last_slash p"
  shows "last_slash p < length p" "p ! last_slash p = slash"
  using assms
  by (induction p rule: rev_induct) (auto simp: last_slash_snoc nth_append less_Suc_eq split: if_splits)

lemma last_slash_ge: "i < length p \<Longrightarrow> p ! i = slash \<Longrightarrow> i \<le> last_slash p"
  by (induction p rule: rev_induct) (auto simp: last_slash_snoc nth_append less_Suc_eq split: if_splits)

definition parent_path :: "cstring \<Rightarrow> cstring" where
  "parent_path p = take (last_slash p) p"

lemma path_below_iff: "path_below d p \<longleftrightarrow> (\<exists>q. p = d @ slash # q)"
proof
  assume b: "path_below d p"
  then have "length d < length p" by (simp add: path_below_def)
  then have "p = take (length d) p @ p ! length d # drop (Suc (length d)) p" by (rule id_take_nth_drop)
  with b show "\<exists>q. p = d @ slash # q" unfolding path_below_def by metis
qed (auto simp: path_below_def)

lemma path_below_parent: "0 < last_slash p \<Longrightarrow> path_below (parent_path p) p"
  using last_slash_pos [of p] by (auto simp: path_below_def parent_path_def min_def)

text \<open>A proper ancestor of a path is its parent or an ancestor of its parent.\<close>

lemma path_below_cases:
  assumes "path_below d p" "d \<noteq> []"
  shows "0 < last_slash p" "d = parent_path p \<or> path_below d (parent_path p)"
proof -
  obtain q where p: "p = d @ slash # q" using assms(1) by (auto simp: path_below_iff)
  then have ls: "last_slash p = (if slash \<in> set q then length d + 1 + last_slash q else length d)"
    using last_slash_append [of "d @ [slash]" q] last_slash_append [of d "[slash]"]
    by (simp add: last_slash_def [of "[slash]"])
  show "0 < last_slash p" using ls assms(2) by auto
  show "d = parent_path p \<or> path_below d (parent_path p)"
    using ls p by (auto simp: parent_path_def path_below_iff)
qed

lemma path_below_trans: "path_below a b \<Longrightarrow> path_below b c \<Longrightarrow> path_below a c"
  by (auto simp: path_below_iff)

lemma path_below_irrefl [simp]: "\<not> path_below p p"
  by (simp add: path_below_def)

lemma parent_path_shorter: "0 < last_slash p \<Longrightarrow> length (parent_path p) < length p"
  using last_slash_pos [of p] by (simp add: parent_path_def min_def)

text \<open>Moving a path from one directory to another.\<close>

definition move_path :: "cstring \<Rightarrow> cstring \<Rightarrow> cstring \<Rightarrow> cstring" where
  "move_path old new p = (if p = old then new else if path_below old p then new @ drop (length old) p else p)"

lemma move_path_below: "path_below old p \<Longrightarrow> path_below new (move_path old new p)"
  by (auto simp: move_path_def path_below_iff)

lemma parent_move_path:
  assumes "path_below old p" "old \<noteq> []"
  shows "last_slash (move_path old new p) > 0 \<or> new = []"
    "parent_path (move_path old new p) = move_path old new (parent_path p)"
proof -
  obtain q where p: "p = old @ slash # q" using assms(1) by (auto simp: path_below_iff)
  have m: "move_path old new p = new @ slash # q" using p by (simp add: move_path_def path_below_iff)
  have ls: "last_slash (x @ slash # q) = (if slash \<in> set q then length x + 1 + last_slash q else length x)" for x
    using last_slash_append [of "x @ [slash]" q] last_slash_append [of x "[slash]"]
    by (simp add: last_slash_def [of "[slash]"])
  show "last_slash (move_path old new p) > 0 \<or> new = []" using m ls [of new] by auto
  show "parent_path (move_path old new p) = move_path old new (parent_path p)"
    unfolding m parent_path_def ls using p ls [of old]
    by (auto simp: move_path_def path_below_iff)
qed

section \<open>The tree invariant\<close>

definition node_named :: "ramfs_node list \<Rightarrow> cstring \<Rightarrow> nat \<Rightarrow> bool" where
  "node_named ns p i \<longleftrightarrow> i < length ns \<and> rn_used (ns ! i) \<and> rn_path (ns ! i) = p"

definition unique_paths :: "ramfs_node list \<Rightarrow> bool" where
  "unique_paths ns \<longleftrightarrow> (\<forall>p i j. node_named ns p i \<and> node_named ns p j \<longrightarrow> i = j)"

definition has_dir :: "ramfs_node list \<Rightarrow> cstring \<Rightarrow> bool" where
  "has_dir ns p \<longleftrightarrow> (\<exists>n\<in>set ns. rn_used n \<and> rn_path n = p \<and> rn_kind n = RAMFS_DIRECTORY)"

definition parent_ok :: "ramfs_node list \<Rightarrow> cstring \<Rightarrow> bool" where
  "parent_ok ns p \<longleftrightarrow> last_slash p = 0 \<or> has_dir ns (parent_path p)"

definition node_ok :: "ramfs_node \<Rightarrow> bool" where
  "node_ok n \<longleftrightarrow> length (rn_data n) = 4096 \<and> unat (rn_size n) \<le> 4096 \<and>
     (rn_used n \<longrightarrow> vfs_path_valid (rn_path n) \<and> cstr_ok (rn_path n))"

definition count_kind :: "ramfs_node_kind \<Rightarrow> ramfs_node list \<Rightarrow> nat" where
  "count_kind k ns = length (filter (\<lambda>n. rn_used n \<and> rn_kind n = k) ns)"

definition tree_ok :: "ramfs_node list \<Rightarrow> bool" where
  "tree_ok ns \<longleftrightarrow> length ns = 16 \<and> list_all node_ok ns \<and> unique_paths ns \<and>
     (\<forall>n\<in>set ns. rn_used n \<longrightarrow> parent_ok ns (rn_path n))"

definition vfs_inv :: "'d vfs \<Rightarrow> bool" where
  "vfs_inv v \<longleftrightarrow> tree_ok (nodes v) \<and> length (disk_file_buffer v) = 4096 \<and>
     file_count v = of_nat (count_kind RAMFS_FILE (nodes v)) \<and> count_kind RAMFS_FILE (nodes v) \<le> 8 \<and>
     dir_count v = of_nat (count_kind RAMFS_DIRECTORY (nodes v)) \<and> count_kind RAMFS_DIRECTORY (nodes v) \<le> 8"

lemma vfs_find_named:
  assumes "unique_paths (nodes v)"
  shows "vfs_find p v = Some i \<longleftrightarrow> node_named (nodes v) p i"
proof
  assume "vfs_find p v = Some i"
  then show "node_named (nodes v) p i" by (auto simp: vfs_find_def node_named_def find_slot_Some_iff)
next
  assume named: "node_named (nodes v) p i"
  then have "vfs_find p v \<noteq> None" by (auto simp: vfs_find_def find_slot_None_iff node_named_def)
  then obtain j where j: "vfs_find p v = Some j" by blast
  then have "node_named (nodes v) p j" by (auto simp: vfs_find_def node_named_def find_slot_Some_iff)
  with named assms have "i = j" unfolding unique_paths_def by blast
  with j show "vfs_find p v = Some i" by simp
qed

lemma vfs_find_None: "vfs_find p v = None \<longleftrightarrow> (\<forall>i. \<not> node_named (nodes v) p i)"
  by (force simp: vfs_find_def find_slot_None_iff node_named_def in_set_conv_nth)

lemma has_dir_iff: "has_dir ns p \<longleftrightarrow> (\<exists>i. node_named ns p i \<and> rn_kind (ns ! i) = RAMFS_DIRECTORY)"
  unfolding has_dir_def node_named_def by (metis in_set_conv_nth)

lemma vfs_parent_exists_iff:
  assumes "unique_paths (nodes v)"
  shows "vfs_parent_exists p v \<longleftrightarrow> parent_ok (nodes v) p"
proof (cases "vfs_find (parent_path p) v")
  case None
  with vfs_find_None [of "parent_path p" v] show ?thesis
    by (simp add: vfs_parent_exists_def parent_ok_def has_dir_iff parent_path_def [symmetric])
next
  case (Some i)
  then have "node_named (nodes v) (parent_path p) i" using vfs_find_named [OF assms] by blast
  with Some assms show ?thesis
    unfolding vfs_parent_exists_def parent_ok_def has_dir_iff parent_path_def [symmetric] unique_paths_def
    by auto
qed

lemma count_kind_update:
  assumes "i < length ns"
  shows "count_kind k (ns[i := n]) + (if rn_used (ns ! i) \<and> rn_kind (ns ! i) = k then 1 else 0)
    = count_kind k ns + (if rn_used n \<and> rn_kind n = k then 1 else 0)"
  unfolding count_kind_def
  using length_filter_update [OF assms, of "\<lambda>n. rn_used n \<and> rn_kind n = k" n] by simp

text \<open>Every ancestor of a used path is a used directory.\<close>

lemma ancestor_is_dir:
  assumes tree: "tree_ok ns"
  shows "n \<in> set ns \<Longrightarrow> rn_used n \<Longrightarrow> path_below d (rn_path n) \<Longrightarrow> d \<noteq> [] \<Longrightarrow> has_dir ns d"
proof (induction "length (rn_path n)" arbitrary: n rule: less_induct)
  case less
  note cases = path_below_cases [OF less.prems(3,4)]
  have dir: "has_dir ns (parent_path (rn_path n))"
    using tree less.prems cases(1) by (auto simp: tree_ok_def parent_ok_def)
  from cases(2) show ?case
  proof
    assume "d = parent_path (rn_path n)"
    with dir show ?thesis by simp
  next
    assume below: "path_below d (parent_path (rn_path n))"
    obtain m where "m \<in> set ns" "rn_used m" "rn_path m = parent_path (rn_path n)"
      using dir by (auto simp: has_dir_def)
    with less.hyps [of m] below less.prems(4) parent_path_shorter [OF cases(1)] show ?thesis by simp
  qed
qed

lemma node_pathD: "tree_ok ns \<Longrightarrow> n \<in> set ns \<Longrightarrow> rn_used n \<Longrightarrow> rn_path n \<noteq> []"
  by (auto simp: tree_ok_def list_all_iff node_ok_def vfs_path_valid_def)

section \<open>Adding a node\<close>

lemma tree_add:
  assumes tree: "tree_ok ns" and i: "i < length ns" "\<not> rn_used (ns ! i)"
    and n: "node_ok n" "rn_used n" "\<And>j. \<not> node_named ns (rn_path n) j" "parent_ok ns (rn_path n)"
  shows "tree_ok (ns[i := n])"
proof -
  have named: "node_named (ns[i := n]) p j \<longleftrightarrow> (if j = i then p = rn_path n else node_named ns p j)" for p j
    using i n(2) by (auto simp: node_named_def)
  have "unique_paths (ns[i := n])"
    using tree n(3) unfolding unique_paths_def named tree_ok_def by metis
  moreover have dir: "has_dir (ns[i := n]) p" if "has_dir ns p" for p
    using that i(2) unfolding has_dir_iff named
    by (auto simp: node_named_def nth_list_update split: if_splits)
  then have mono: "parent_ok ns p \<Longrightarrow> parent_ok (ns[i := n]) p" for p by (auto simp: parent_ok_def)
  have "parent_ok (ns[i := n]) (rn_path m)" if "m \<in> set (ns[i := n])" "rn_used m" for m
  proof (cases "m = n")
    case True
    with mono n(4) show ?thesis by simp
  next
    case False
    then have "m \<in> set ns" using that(1) set_update_subset_insert by fastforce
    with tree that(2) mono show ?thesis by (auto simp: tree_ok_def)
  qed
  moreover have "list_all node_ok (ns[i := n])"
    using tree n(1) i(1) by (auto simp: tree_ok_def list_all_length nth_list_update)
  ultimately show ?thesis using tree by (simp add: tree_ok_def)
qed

lemma vfs_alloc_nodeD:
  assumes "vfs_alloc_node v = Some i"
  shows "i < length (nodes v)" "\<not> rn_used (nodes v ! i)"
  using assms by (auto simp: vfs_alloc_node_def find_slot_Some_iff)

lemma vfs_inv_uniq: "vfs_inv v \<Longrightarrow> unique_paths (nodes v)" "vfs_inv v \<Longrightarrow> tree_ok (nodes v)"
  by (simp_all add: vfs_inv_def tree_ok_def)

lemma vfs_add_inv:
  assumes inv: "vfs_inv v" and slot: "vfs_alloc_node v = Some i" and new: "vfs_find (rn_path n) v = None"
    and n: "node_ok n" "rn_used n" "vfs_parent_exists (rn_path n) v"
    and room: "if rn_kind n = RAMFS_FILE then file_count v < VFS_MAX_FILES else dir_count v < VFS_MAX_DIRS"
  shows "vfs_inv (v\<lparr>nodes := (nodes v)[i := n],
      file_count := file_count v + (if rn_kind n = RAMFS_FILE then 1 else 0),
      dir_count := dir_count v + (if rn_kind n = RAMFS_FILE then 0 else 1)\<rparr>)"
proof -
  note i = vfs_alloc_nodeD [OF slot]
  have tree: "tree_ok ((nodes v)[i := n])"
    using new n vfs_inv_uniq [OF inv]
    by (intro tree_add i) (auto simp: vfs_find_None vfs_parent_exists_iff)
  have count: "count_kind k ((nodes v)[i := n]) = count_kind k (nodes v) + (if rn_kind n = k then 1 else 0)" for k
    using count_kind_update [OF i(1), of k n] i(2) n(2) by simp
  have "count_kind k (nodes v) < 8" if "rn_kind n = k" for k
  proof -
    have "(of_nat (count_kind k (nodes v)) :: u64) < 8"
      using room inv that by (cases k) (auto simp: vfs_inv_def)
    moreover have "count_kind k (nodes v) \<le> 8" using inv by (cases k) (auto simp: vfs_inv_def)
    ultimately show ?thesis by (simp add: word_less_nat_alt unat_of_nat take_bit_nat_eq_self)
  qed
  with inv tree count show ?thesis
    by (cases "rn_kind n") (auto simp: vfs_inv_def Suc_le_eq)
qed

lemma vfs_mkdir_inv [inv_intros]:
  assumes "vfs_inv v" "cstr_ok path"
  shows "vfs_inv (snd (vfs_mkdir path v))"
proof (cases "vfs_mkdir path v = (False, v)")
  case False
  then obtain i where g: "vfs_path_valid path" "vfs_find path v = None" "vfs_parent_exists path v"
    "dir_count v < VFS_MAX_DIRS" "vfs_alloc_node v = Some i"
    by (auto simp: vfs_mkdir_def not_le split: if_splits option.splits)
  let ?n = "(nodes v ! i)\<lparr>rn_path := path, rn_size := 0, rn_kind := RAMFS_DIRECTORY, rn_used := True\<rparr>"
  have "node_ok (nodes v ! i)"
    using assms(1) vfs_alloc_nodeD(1) [OF g(5)] by (auto simp: vfs_inv_def tree_ok_def list_all_length)
  then have "node_ok ?n" using g(1) assms(2) by (simp add: node_ok_def)
  with vfs_add_inv [OF assms(1) g(5), of ?n] g assms(1) show ?thesis by (auto simp: vfs_mkdir_def)
qed (use assms in simp)

lemma vfs_create_ram_inv:
  assumes "vfs_inv v" "cstr_ok path" "vfs_disk_path path = None" "unat sz \<le> length data"
  shows "vfs_inv (snd (vfs_create hw path data sz v))"
proof (cases "vfs_create hw path data sz v = (False, v)")
  case False
  then obtain i where g: "vfs_path_valid path" "vfs_find path v = None" "vfs_parent_exists path v"
    "file_count v < VFS_MAX_FILES" "vfs_alloc_node v = Some i" "sz \<le> VFS_MAX_FILE_SIZE"
    using assms(3) by (auto simp: vfs_create_def not_le split: if_splits option.splits)
  let ?n = "(nodes v ! i)\<lparr>rn_path := path, rn_data := splice (rn_data (nodes v ! i)) 0 (take (unat sz) data),
      rn_size := sz, rn_kind := RAMFS_FILE, rn_used := True\<rparr>"
  have "node_ok (nodes v ! i)"
    using assms(1) vfs_alloc_nodeD(1) [OF g(5)] by (auto simp: vfs_inv_def tree_ok_def list_all_length)
  then have "node_ok ?n" using g(1,6) assms(2,4) by (simp add: node_ok_def word_le_nat_alt)
  with vfs_add_inv [OF assms(1) g(5), of ?n] g assms(1,3) show ?thesis by (auto simp: vfs_create_def)
qed (use assms in simp)

section \<open>Changing a file's contents\<close>

lemma tree_same_shape:
  assumes tree: "tree_ok ns" and i: "i < length ns" and n: "node_ok n"
    and same: "rn_path n = rn_path (ns ! i)" "rn_kind n = rn_kind (ns ! i)" "rn_used n = rn_used (ns ! i)"
  shows "tree_ok (ns[i := n])" "count_kind k (ns[i := n]) = count_kind k ns"
proof -
  have named: "node_named (ns[i := n]) p j \<longleftrightarrow> node_named ns p j" for p j
    using same i by (auto simp: node_named_def nth_list_update)
  have dir: "has_dir (ns[i := n]) p \<longleftrightarrow> has_dir ns p" for p
    unfolding has_dir_iff named using same i by (auto simp: nth_list_update node_named_def)
  have "parent_ok (ns[i := n]) (rn_path m)" if m: "m \<in> set (ns[i := n])" "rn_used m" for m
  proof -
    obtain j where j: "j < length ns" "m = (ns[i := n]) ! j"
      using m(1) unfolding in_set_conv_nth by auto
    then have "rn_path m = rn_path (ns ! j)" "rn_used (ns ! j)"
      using same i m(2) by (auto simp: nth_list_update split: if_splits)
    with tree j show ?thesis by (auto simp: tree_ok_def parent_ok_def dir)
  qed
  moreover have "list_all node_ok (ns[i := n])"
    using tree n i by (auto simp: tree_ok_def list_all_length nth_list_update)
  ultimately show "tree_ok (ns[i := n])"
    using tree by (simp add: tree_ok_def unique_paths_def named)
  show "count_kind k (ns[i := n]) = count_kind k ns"
    using count_kind_update [OF i, of k n] same by (auto split: if_splits)
qed

lemma vfs_update_inv:
  assumes "vfs_inv v" "vfs_find path v = Some i" "node_ok n"
    and "rn_path n = rn_path (nodes v ! i)" "rn_kind n = rn_kind (nodes v ! i)" "rn_used n = rn_used (nodes v ! i)"
  shows "vfs_inv (v\<lparr>nodes := (nodes v)[i := n]\<rparr>)"
proof -
  have i: "i < length (nodes v)"
    using assms(2) vfs_find_named [OF vfs_inv_uniq(1) [OF assms(1)]] by (simp add: node_named_def)
  show ?thesis
    using assms(1) tree_same_shape [OF vfs_inv_uniq(2) [OF assms(1)] i assms(3-6)] by (simp add: vfs_inv_def)
qed

lemma vfs_found_ok:
  assumes "vfs_inv v" "vfs_find path v = Some i"
  shows "node_ok (nodes v ! i)" "i < length (nodes v)" "rn_used (nodes v ! i)" "rn_path (nodes v ! i) = path"
  using assms vfs_find_named [OF vfs_inv_uniq(1) [OF assms(1)], of path i]
  by (auto simp: node_named_def vfs_inv_def tree_ok_def list_all_length)

lemma unat_end_offset:
  assumes "(offset :: u64) \<le> 4096" "sz \<le> 4096 - offset"
  shows "unat offset + unat sz \<le> 4096" "unat (offset + sz) = unat offset + unat sz"
proof -
  show le: "unat offset + unat sz \<le> 4096"
    using assms by (simp add: word_le_nat_alt unat_sub)
  then show "unat (offset + sz) = unat offset + unat sz" by (intro unat_add_no_wrap) simp
qed

lemma vfs_write_ram_inv:
  assumes "vfs_inv v" "vfs_disk_path path = None" "unat sz \<le> length buffer"
  shows "vfs_inv (snd (vfs_write hw path offset buffer sz v))"
proof (cases "vfs_write hw path offset buffer sz v = (-1, v)")
  case False
  then obtain i where g: "vfs_find path v = Some i" "offset \<le> 4096" "sz \<le> 4096 - offset"
    "rn_kind (nodes v ! i) = RAMFS_FILE"
    using assms(2) by (auto simp: vfs_write_def Let_def not_less split: if_splits option.splits)
  note ok = vfs_found_ok [OF assms(1) g(1)] and bound = unat_end_offset [OF g(2,3)]
  show ?thesis
    using g assms ok bound
    by (auto simp: vfs_write_def Let_def node_ok_def min_def intro!: vfs_update_inv [OF assms(1) g(1)])
qed (use assms in simp)

lemma vfs_truncate_ram_inv:
  assumes "vfs_inv v" "vfs_disk_path path = None"
  shows "vfs_inv (snd (vfs_truncate hw path sz v))"
proof (cases "vfs_truncate hw path sz v = (False, v)")
  case False
  then obtain i where g: "vfs_find path v = Some i" "sz \<le> 4096" "rn_kind (nodes v ! i) = RAMFS_FILE"
    using assms(2) by (auto simp: vfs_truncate_def Let_def not_less split: if_splits option.splits)
  note ok = vfs_found_ok [OF assms(1) g(1)]
  show ?thesis
    using g assms ok
    by (auto simp: vfs_truncate_def Let_def node_ok_def zero_fill_def word_le_nat_alt word_less_nat_alt
        intro!: vfs_update_inv [OF assms(1) g(1)])
qed (use assms in simp)

section \<open>Removing a node\<close>

lemma tree_remove:
  assumes tree: "tree_ok ns" and i: "node_named ns p i"
    and leaf: "rn_kind (ns ! i) = RAMFS_DIRECTORY \<Longrightarrow>
      \<forall>j<length ns. j \<noteq> i \<longrightarrow> rn_used (ns ! j) \<longrightarrow> \<not> path_below p (rn_path (ns ! j))"
    and n: "node_ok n" "\<not> rn_used n"
  shows "tree_ok (ns[i := n])"
proof -
  have il: "i < length ns" and uniq: "unique_paths ns" using i tree by (auto simp: node_named_def tree_ok_def)
  have named: "node_named (ns[i := n]) q j \<longleftrightarrow> j \<noteq> i \<and> node_named ns q j" for q j
    using il n(2) by (auto simp: node_named_def nth_list_update)
  have "parent_ok (ns[i := n]) (rn_path m)" if m: "m \<in> set (ns[i := n])" "rn_used m" for m
  proof -
    obtain j where "j < length ns" "m = (ns[i := n]) ! j" using m(1) unfolding in_set_conv_nth by auto
    with m(2) n(2) il have j: "j < length ns" "j \<noteq> i" "m = ns ! j" by (auto simp: nth_list_update split: if_splits)
    have "has_dir (ns[i := n]) (parent_path (rn_path m))" if ls: "0 < last_slash (rn_path m)"
    proof -
      have "has_dir ns (parent_path (rn_path m))"
        using tree j m(2) ls by (auto simp: tree_ok_def parent_ok_def)
      then obtain k where k: "node_named ns (parent_path (rn_path m)) k" "rn_kind (ns ! k) = RAMFS_DIRECTORY"
        by (auto simp: has_dir_iff)
      have "k \<noteq> i"
      proof
        assume "k = i"
        then have "parent_path (rn_path m) = p" using k i by (auto simp: node_named_def)
        then have "path_below p (rn_path (ns ! j))" using path_below_parent [OF ls] j(3) by simp
        with leaf k(2) \<open>k = i\<close> j m(2) show False by blast
      qed
      with k named show ?thesis by (auto simp: has_dir_iff)
    qed
    then show ?thesis by (auto simp: parent_ok_def)
  qed
  moreover have "list_all node_ok (ns[i := n])"
    using tree n(1) il by (auto simp: tree_ok_def list_all_length nth_list_update)
  ultimately show ?thesis
    using tree uniq by (auto simp: tree_ok_def unique_paths_def named)
qed

lemma vfs_remove_inv [inv_intros]:
  assumes inv: "vfs_inv v"
  shows "vfs_inv (snd (vfs_remove path v))"
proof (cases "fst (vfs_remove path v)")
  case True
  then obtain i where f: "vfs_find path v = Some i"
    and leaf: "rn_kind (nodes v ! i) = RAMFS_DIRECTORY \<Longrightarrow>
      \<forall>j<length (nodes v). j \<noteq> i \<longrightarrow> rn_used (nodes v ! j) \<longrightarrow> \<not> path_below path (rn_path (nodes v ! j))"
    by (auto simp: vfs_remove_def Let_def split: option.splits if_splits)
  note ok = vfs_found_ok [OF inv f] and tree = vfs_inv_uniq(2) [OF inv]
  let ?n = "(nodes v ! i)\<lparr>rn_used := False, rn_size := 0, rn_path := []\<rparr>"
  have named: "node_named (nodes v) path i" using ok by (simp add: node_named_def)
  have "node_ok ?n" using ok(1) by (simp add: node_ok_def)
  then have t: "tree_ok ((nodes v)[i := ?n])" by (intro tree_remove [OF tree named leaf]) simp_all
  have count: "count_kind k ((nodes v)[i := ?n]) + (if rn_kind (nodes v ! i) = k then 1 else 0) = count_kind k (nodes v)" for k
    using count_kind_update [OF ok(2), of k ?n] ok(3) by simp
  have "of_nat (count_kind k (nodes v)) - 1 = (of_nat (count_kind k ((nodes v)[i := ?n])) :: u64)"
    if "rn_kind (nodes v ! i) = k" for k
    using arg_cong [OF count [of k], of "of_nat :: nat \<Rightarrow> u64"] that by (simp add: algebra_simps)
  then show ?thesis
    using f t inv leaf count [of RAMFS_FILE] count [of RAMFS_DIRECTORY]
    by (cases "rn_kind (nodes v ! i)") (auto simp: vfs_remove_def Let_def vfs_inv_def)
next
  case False
  then have "snd (vfs_remove path v) = v" by (auto simp: vfs_remove_def Let_def split: option.splits if_splits)
  with inv show ?thesis by simp
qed

section \<open>Renaming a subtree\<close>

definition move_node :: "cstring \<Rightarrow> cstring \<Rightarrow> ramfs_node \<Rightarrow> ramfs_node" where
  "move_node old new n = (if rn_used n then n\<lparr>rn_path := move_path old new (rn_path n)\<rparr> else n)"

lemma rename_nodes_eq:
  assumes "unique_paths ns" "node_named ns old i"
  shows "(map (rename_node old new) ns)[i := (ns ! i)\<lparr>rn_path := new\<rparr>] = map (move_node old new) ns"
proof (rule nth_equalityI)
  fix j assume "j < length ((map (rename_node old new) ns)[i := (ns ! i)\<lparr>rn_path := new\<rparr>])"
  then have j: "j < length ns" by simp
  show "(map (rename_node old new) ns)[i := (ns ! i)\<lparr>rn_path := new\<rparr>] ! j = map (move_node old new) ns ! j"
  proof (cases "j = i")
    case True
    then show ?thesis using j assms(2) by (simp add: move_node_def node_named_def move_path_def)
  next
    case False
    then have "\<not> (rn_used (ns ! j) \<and> rn_path (ns ! j) = old)"
      using assms j unfolding unique_paths_def by (auto simp: node_named_def)
    with False j show ?thesis by (auto simp: move_node_def rename_node_def move_path_def)
  qed
qed simp

lemma move_node_simps [simp]:
  "rn_used (move_node old new n) = rn_used n" "rn_kind (move_node old new n) = rn_kind n"
  "rn_data (move_node old new n) = rn_data n" "rn_size (move_node old new n) = rn_size n"
  "rn_used n \<Longrightarrow> rn_path (move_node old new n) = move_path old new (rn_path n)"
  by (simp_all add: move_node_def)

lemma count_kind_move [simp]: "count_kind k (map (move_node old new) ns) = count_kind k ns"
  by (simp add: count_kind_def filter_map comp_def)

text \<open>The guards of vfs_rename, on the node list.\<close>

definition rename_ok :: "ramfs_node list \<Rightarrow> cstring \<Rightarrow> cstring \<Rightarrow> nat \<Rightarrow> bool" where
  "rename_ok ns old new i \<longleftrightarrow> node_named ns old i \<and> vfs_path_valid new \<and> (\<forall>j. \<not> node_named ns new j) \<and>
     parent_ok ns new \<and> \<not> (rn_kind (ns ! i) = RAMFS_DIRECTORY \<and> path_below old new) \<and>
     (\<forall>n\<in>set ns. rn_used n \<and> path_below old (rn_path n) \<longrightarrow>
        length new + (length (rn_path n) - length old) < VFS_MAX_PATH)"

lemma vfs_rename_eq:
  assumes uniq: "unique_paths (nodes v)"
  shows "vfs_rename old new v =
    (if \<exists>i. rename_ok (nodes v) old new i
     then (True, v\<lparr>nodes := map (move_node old new) (nodes v)\<rparr>) else (False, v))"
proof (cases "vfs_find old v")
  case None
  with vfs_find_None [of old v] show ?thesis by (simp add: vfs_rename_def rename_ok_def)
next
  case (Some i)
  then have i: "node_named (nodes v) old i" using vfs_find_named [OF uniq] by blast
  have "k = i" if "rename_ok (nodes v) old new k" for k
    using uniq i that unfolding unique_paths_def rename_ok_def by blast
  then have ex: "(\<exists>k. rename_ok (nodes v) old new k) \<longleftrightarrow> rename_ok (nodes v) old new i" by blast
  have long: "(\<exists>j<length (nodes v). j \<noteq> i \<and> rn_used (nodes v ! j) \<and> path_below old (rn_path (nodes v ! j)) \<and>
        length new + (length (rn_path (nodes v ! j)) - length old) \<ge> VFS_MAX_PATH) \<longleftrightarrow>
      \<not> (\<forall>n\<in>set (nodes v). rn_used n \<and> path_below old (rn_path n) \<longrightarrow>
        length new + (length (rn_path n) - length old) < VFS_MAX_PATH)"
    unfolding all_set_conv_all_nth using i path_below_irrefl by (auto simp: node_named_def not_less)
  show ?thesis
    unfolding ex unfolding vfs_rename_def Some option.case long rename_ok_def vfs_find_None vfs_parent_exists_iff [OF uniq]
      rename_nodes_eq [OF uniq i] using i by auto
qed

lemma rename_dirD:
  assumes "tree_ok ns" "node_named ns old i" "has_dir ns old"
  shows "rn_kind (ns ! i) = RAMFS_DIRECTORY"
  using assms unfolding has_dir_iff tree_ok_def unique_paths_def by metis

lemma rename_below:
  assumes tree: "tree_ok ns" and ok: "rename_ok ns old new i"
  shows "old \<noteq> []" "n \<in> set ns \<Longrightarrow> rn_used n \<Longrightarrow> \<not> path_below new (rn_path n)"
    "n \<in> set ns \<Longrightarrow> rn_used n \<Longrightarrow> path_below old (rn_path n) \<Longrightarrow> rn_kind (ns ! i) = RAMFS_DIRECTORY"
proof -
  have i: "node_named ns old i" and new: "new \<noteq> []" "\<And>j. \<not> node_named ns new j"
    using ok by (auto simp: rename_ok_def vfs_path_valid_def)
  show old: "old \<noteq> []" using node_pathD [OF tree, of "ns ! i"] i by (auto simp: node_named_def)
  show "n \<in> set ns \<Longrightarrow> rn_used n \<Longrightarrow> \<not> path_below new (rn_path n)"
    using ancestor_is_dir [OF tree, of n new] new by (auto simp: has_dir_iff)
  show "n \<in> set ns \<Longrightarrow> rn_used n \<Longrightarrow> path_below old (rn_path n) \<Longrightarrow> rn_kind (ns ! i) = RAMFS_DIRECTORY"
    using ancestor_is_dir [OF tree, of n old] old rename_dirD [OF tree i] by auto
qed

lemma move_path_inj:
  assumes tree: "tree_ok ns" and ok: "rename_ok ns old new i"
    and n: "n \<in> set ns" "rn_used n" and m: "m \<in> set ns" "rn_used m"
    and eq: "move_path old new (rn_path n) = move_path old new (rn_path m)"
  shows "rn_path n = rn_path m"
proof -
  have fresh: "rn_path x \<noteq> new" if "x \<in> set ns" "rn_used x" for x
    using ok that unfolding rename_ok_def node_named_def by (metis in_set_conv_nth)
  note below = rename_below(2) [OF tree ok]
  have moved: "move_path old new (rn_path x) = new \<or> path_below new (move_path old new (rn_path x))"
    if "rn_path x = old \<or> path_below old (rn_path x)" for x
    using that move_path_below [of old "rn_path x" new] by (cases "rn_path x = old") (simp_all add: move_path_def [of old new old])
  have kept: "move_path old new (rn_path x) \<noteq> new \<and> \<not> path_below new (move_path old new (rn_path x))"
    if "x \<in> set ns" "rn_used x" "\<not> (rn_path x = old \<or> path_below old (rn_path x))" for x
    using that below [of x] fresh [of x] by (simp add: move_path_def)
  show ?thesis
  proof (cases "rn_path n = old \<or> path_below old (rn_path n)")
    case True
    then have m': "rn_path m = old \<or> path_below old (rn_path m)" using moved [of n] kept [OF m] eq by metis
    have new_below: "move_path old new p \<noteq> new" if "path_below old p" for p
      using move_path_below [OF that, of new] by auto
    show ?thesis
      using True m'
    proof (elim disjE)
      assume "path_below old (rn_path n)" "path_below old (rn_path m)"
      then show ?thesis using eq by (auto simp: move_path_def path_below_iff)
    next
      assume a: "rn_path n = old" "path_below old (rn_path m)"
      then show ?thesis using eq new_below [OF a(2)] by (simp add: move_path_def [of old new old])
    next
      assume a: "path_below old (rn_path n)" "rn_path m = old"
      then show ?thesis using eq new_below [OF a(1)] by (simp add: move_path_def [of old new old])
    qed simp
  next
    case False
    then have "\<not> (rn_path m = old \<or> path_below old (rn_path m))" using moved [of m] kept [OF n] eq by metis
    with False eq show ?thesis by (simp add: move_path_def)
  qed
qed

lemma move_path_other: "p \<noteq> old \<Longrightarrow> \<not> path_below old p \<Longrightarrow> move_path old new p = p"
  by (simp add: move_path_def)

lemma has_dir_move: "has_dir ns p \<Longrightarrow> has_dir (map (move_node old new) ns) (move_path old new p)"
  unfolding has_dir_def by (force intro: move_node_simps)

lemma parent_ok_move:
  assumes tree: "tree_ok ns" and ok: "rename_ok ns old new i" and n: "n \<in> set ns" "rn_used n"
  shows "parent_ok (map (move_node old new) ns) (move_path old new (rn_path n))"
proof -
  let ?ns = "map (move_node old new) ns" and ?p = "rn_path n"
  have i: "node_named ns old i" using ok by (simp add: rename_ok_def)
  have pn: "last_slash ?p = 0 \<or> has_dir ns (parent_path ?p)" using tree n by (auto simp: tree_ok_def parent_ok_def)
  consider (self) "?p = old" | (below) "path_below old ?p" | (other) "?p \<noteq> old" "\<not> path_below old ?p" by blast
  then show ?thesis
  proof cases
    case self
    have "has_dir ?ns (parent_path new)" if ls: "0 < last_slash new"
    proof -
      have d: "has_dir ns (parent_path new)" using ok ls by (auto simp: rename_ok_def parent_ok_def)
      have bn: "path_below (parent_path new) new" using ls by (rule path_below_parent)
      have "parent_path new \<noteq> old"
        using rename_dirD [OF tree i] d bn ok by (auto simp: rename_ok_def)
      moreover have "\<not> path_below old (parent_path new)"
        using d rename_below(3) [OF tree ok] path_below_trans [OF _ bn] ok
        unfolding has_dir_def rename_ok_def by metis
      ultimately show ?thesis using has_dir_move [OF d, of old new] by (simp add: move_path_other)
    qed
    with self show ?thesis by (auto simp: parent_ok_def move_path_def)
  next
    case below
    note old = rename_below(1) [OF tree ok]
    have "has_dir ns (parent_path ?p)" using pn path_below_cases(1) [OF below old] by simp
    from has_dir_move [OF this, of old new] parent_move_path(2) [OF below old, of new]
    show ?thesis by (simp add: parent_ok_def)
  next
    case other
    have "has_dir ?ns (parent_path ?p)" if ls: "0 < last_slash ?p"
    proof -
      have "parent_path ?p \<noteq> old" "\<not> path_below old (parent_path ?p)"
        using other path_below_parent [OF ls] path_below_trans by auto
      then show ?thesis using pn ls has_dir_move [of ns "parent_path ?p" old new] by (simp add: move_path_other)
    qed
    with other show ?thesis by (auto simp: parent_ok_def move_path_other)
  qed
qed

lemma tree_move:
  assumes tree: "tree_ok ns" and ok: "rename_ok ns old new i" and cstr: "cstr_ok new"
  shows "tree_ok (map (move_node old new) ns)"
proof -
  let ?ns = "map (move_node old new) ns"
  have "unique_paths ?ns"
    unfolding unique_paths_def
  proof (intro allI impI, elim conjE)
    fix p j k assume "node_named ?ns p j" "node_named ?ns p k"
    then have jk: "j < length ns" "rn_used (ns ! j)" "k < length ns" "rn_used (ns ! k)"
      "move_path old new (rn_path (ns ! j)) = move_path old new (rn_path (ns ! k))"
      by (auto simp: node_named_def)
    then have "rn_path (ns ! j) = rn_path (ns ! k)" by (intro move_path_inj [OF tree ok]) simp_all
    with jk tree show "j = k" by (auto simp: tree_ok_def unique_paths_def node_named_def)
  qed
  moreover have "node_ok (move_node old new n)" if n: "n \<in> set ns" for n
  proof (cases "rn_used n \<and> (rn_path n = old \<or> path_below old (rn_path n))")
    case True
    have nn: "node_ok n" using tree n by (auto simp: tree_ok_def list_all_iff)
    have new: "vfs_path_valid new" and len: "path_below old (rn_path n) \<Longrightarrow>
        length new + (length (rn_path n) - length old) < VFS_MAX_PATH"
      using ok n True by (auto simp: rename_ok_def)
    from True nn new len cstr show ?thesis
      by (auto simp: node_ok_def move_path_def vfs_path_valid_def cstr_ok_def dest: in_set_dropD)
  next
    case False
    then have "move_node old new n = n" by (auto simp: move_node_def move_path_def)
    with tree n show ?thesis by (auto simp: tree_ok_def list_all_iff)
  qed
  moreover have "parent_ok ?ns (rn_path (move_node old new n))" if "n \<in> set ns" "rn_used n" for n
    using parent_ok_move [OF tree ok that] that by simp
  ultimately show ?thesis using tree by (auto simp: tree_ok_def list_all_iff)
qed

lemma vfs_rename_inv [inv_intros]:
  assumes inv: "vfs_inv v" and "cstr_ok new"
  shows "vfs_inv (snd (vfs_rename old new v))"
proof (cases "\<exists>i. rename_ok (nodes v) old new i")
  case True
  then obtain i where i: "rename_ok (nodes v) old new i" by blast
  have "tree_ok (map (move_node old new) (nodes v))"
    by (rule tree_move [OF vfs_inv_uniq(2) [OF inv] i assms(2)])
  with inv True show ?thesis by (simp add: vfs_rename_eq [OF vfs_inv_uniq(1) [OF inv]] vfs_inv_def)
next
  case False
  with inv show ?thesis by (simp add: vfs_rename_eq [OF vfs_inv_uniq(1) [OF inv]])
qed

section \<open>The mounted SaturnFS\<close>

lemma vfs_sfs_upd_inv [simp]: "vfs_inv (v\<lparr>vfs_sfs := s\<rparr>) = vfs_inv v"
  by (simp add: vfs_inv_def)

lemma sfs_into_buffer_inv:
  assumes "vfs_inv v" "sfs_into_buffer hw disk_path v = (r, v')"
  shows "vfs_inv v' \<and> nodes v' = nodes v \<and> (\<forall>n. r = Some n \<longrightarrow> n \<le> 4096)"
proof -
  have len: "length data \<le> 4096" if "sfs_read_file hw disk_path SFS_MAX_FILE_SIZE s = (Some data, s')" for data s s'
    using that by (auto simp: sfs_read_file_def Let_def word_less_nat_alt not_less
        split: if_splits option.splits prod.splits)
  show ?thesis
    using assms len
    by (auto simp: sfs_into_buffer_def vfs_inv_def split: prod.splits option.splits)
qed

lemma vfs_buffer_upd_inv:
  "vfs_inv v \<Longrightarrow> length b = 4096 \<Longrightarrow> vfs_inv (v\<lparr>disk_file_buffer := b\<rparr>)"
  by (simp add: vfs_inv_def)

lemma vfs_create_inv [inv_intros]:
  assumes "vfs_inv v" "cstr_ok path" "unat sz \<le> length data"
  shows "vfs_inv (snd (vfs_create hw path data sz v))"
  using vfs_create_ram_inv [OF assms(1,2) _ assms(3), of hw] assms(1)
  by (cases "vfs_disk_path path") (auto simp: vfs_create_def split: prod.splits)

lemma vfs_write_inv [inv_intros]:
  assumes "vfs_inv v" "unat sz \<le> length buffer"
  shows "vfs_inv (snd (vfs_write hw path offset buffer sz v))"
proof (cases "vfs_disk_path path")
  case None
  then show ?thesis using vfs_write_ram_inv [OF assms(1) _ assms(2)] by blast
next
  case (Some disk_path)
  show ?thesis
  proof (cases "sz = 0 \<or> offset > 4096 \<or> sz > 4096 - offset")
    case True
    with Some assms(1) show ?thesis by (auto simp: vfs_write_def)
  next
    case False
    then have b: "unat offset + unat sz \<le> 4096" using unat_end_offset(1) [of offset sz] by (simp add: not_less)
    obtain r v' where rv: "sfs_into_buffer hw disk_path v = (r, v')" by fastforce
    note v' = sfs_into_buffer_inv [OF assms(1) rv]
    then have "length (disk_file_buffer v') = 4096" by (simp add: vfs_inv_def)
    with b assms(2) have "vfs_inv (v'\<lparr>disk_file_buffer := splice (disk_file_buffer v') (unat offset) (take (unat sz) buffer)\<rparr>)"
      using v' by (intro vfs_buffer_upd_inv) (simp_all add: min_def)
    with False Some rv v' show ?thesis
      by (auto simp: vfs_write_def Let_def split: option.splits prod.splits)
  qed
qed

lemma vfs_truncate_inv [inv_intros]:
  assumes "vfs_inv v"
  shows "vfs_inv (snd (vfs_truncate hw path sz v))"
proof (cases "vfs_disk_path path")
  case None
  then show ?thesis using vfs_truncate_ram_inv [OF assms] by blast
next
  case (Some disk_path)
  obtain r v' where rv: "sfs_into_buffer hw disk_path v = (r, v')" by fastforce
  note v' = sfs_into_buffer_inv [OF assms rv]
  have "vfs_inv (v'\<lparr>disk_file_buffer := zero_fill (disk_file_buffer v') n (unat sz)\<rparr>)"
    if "unat sz \<le> 4096" "r = Some n" for n
    using v' that by (intro vfs_buffer_upd_inv) (auto simp: zero_fill_def vfs_inv_def)
  with assms Some rv v' show ?thesis
    by (auto simp: vfs_truncate_def Let_def word_less_nat_alt not_less split: option.splits prod.splits)
qed

lemma vfs_read_inv [inv_intros]:
  assumes "vfs_inv v"
  shows "vfs_inv (snd (vfs_read hw path offset sz v))" "vfs_inv (snd (vfs_file_data hw path v))"
    "vfs_inv (snd (vfs_stat hw path v))"
  using assms sfs_into_buffer_inv [OF assms]
  by (auto simp: vfs_read_def vfs_file_data_def vfs_stat_def Let_def split: option.splits prod.splits)

section \<open>The RAM file system as a file store\<close>

definition ram_files :: "'d vfs \<Rightarrow> cstring \<Rightarrow> u8 list option" where
  "ram_files v p =
     (case vfs_find p v of
        None \<Rightarrow> None
      | Some i \<Rightarrow> if rn_kind (nodes v ! i) = RAMFS_FILE
                  then Some (take (unat (rn_size (nodes v ! i))) (rn_data (nodes v ! i))) else None)"

lemma vfs_find_cong: "nodes v = nodes v' \<Longrightarrow> vfs_find p v = vfs_find p v'"
  by (simp add: vfs_find_def)

lemma ram_files_cong: "nodes v = nodes v' \<Longrightarrow> ram_files v = ram_files v'"
  using vfs_find_cong [of v v'] by (intro ext) (simp add: ram_files_def split: option.split)

definition ram_named :: "cstring \<Rightarrow> u8 list \<Rightarrow> bool" where
  "ram_named p d \<longleftrightarrow> cstr_ok p \<and> vfs_disk_path p = None \<and> length d < 2 ^ 64"

definition ram_accepts :: "cstring \<Rightarrow> u8 list \<Rightarrow> 'd vfs \<Rightarrow> bool" where
  "ram_accepts p d v \<longleftrightarrow> vfs_path_valid p \<and> length d \<le> 4096 \<and> vfs_find p v = None \<and>
     vfs_parent_exists p v \<and> vfs_file_count v < VFS_MAX_FILES"

lemma vfs_find_update:
  assumes "vfs_inv v" "i < length (nodes v)" "rn_used n" "\<And>j. node_named (nodes v) (rn_path n) j \<Longrightarrow> j = i"
    and "\<And>p. node_named (nodes v) p i \<Longrightarrow> p = rn_path n"
  shows "vfs_find p (v\<lparr>nodes := (nodes v)[i := n]\<rparr>) = (if p = rn_path n then Some i else vfs_find p v)"
proof -
  let ?v = "v\<lparr>nodes := (nodes v)[i := n]\<rparr>"
  have named: "node_named (nodes ?v) p j \<longleftrightarrow> (if j = i then p = rn_path n else node_named (nodes v) p j)" for p j
    using assms(2,3) by (auto simp: node_named_def)
  have uniq: "unique_paths (nodes ?v)"
    using vfs_inv_uniq(1) [OF assms(1)] assms(4) unfolding unique_paths_def named by metis
  note find = vfs_find_named [OF uniq, of p] vfs_find_named [OF vfs_inv_uniq(1) [OF assms(1)], of p]
  show ?thesis
  proof (cases "p = rn_path n")
    case True
    then have "node_named (nodes ?v) p i" by (subst named) simp
    then show ?thesis using True find(1) [of i] by simp
  next
    case False
    then have same: "node_named (nodes ?v) p j \<longleftrightarrow> node_named (nodes v) p j" for j
      unfolding named using False assms(5) by auto
    then show ?thesis using False find vfs_find_None [of p ?v] vfs_find_None [of p v]
      by (cases "vfs_find p v") (simp, metis)
  qed
qed

lemma vfs_slot_free:
  assumes "vfs_inv v" "file_count v < VFS_MAX_FILES"
  shows "vfs_alloc_node v \<noteq> None"
proof
  assume "vfs_alloc_node v = None"
  then have "\<forall>n\<in>set (nodes v). rn_used n" by (simp add: vfs_alloc_node_def find_slot_None_iff)
  then have "filter rn_used (nodes v) = nodes v" by simp
  then have "length (filter rn_used (nodes v)) = 16" using assms(1) by (simp add: vfs_inv_def tree_ok_def)
  moreover have "length (filter rn_used ns) = count_kind RAMFS_FILE ns + count_kind RAMFS_DIRECTORY ns" for ns
    by (induction ns) (auto simp: count_kind_def, metis ramfs_node_kind.exhaust)
  moreover have "count_kind RAMFS_FILE (nodes v) < 8"
    using assms by (auto simp: vfs_inv_def word_less_nat_alt unat_of_nat take_bit_nat_eq_self)
  ultimately show False using assms(1) by (simp add: vfs_inv_def)
qed

lemma ram_create_ok:
  assumes inv: "vfs_inv v" and p: "ram_named p d" and acc: "ram_accepts p d v"
  shows "\<exists>v'. vfs_create hw p d (of_nat (length d)) v = (True, v') \<and> vfs_inv v' \<and>
    ram_files v' = (ram_files v)(p \<mapsto> d) \<and> (\<forall>q. q \<noteq> p \<longrightarrow> vfs_find q v' = vfs_find q v)"
proof -
  have len: "unat (of_nat (length d) :: u64) = length d" "length d \<le> 4096"
    using p acc by (simp_all add: unat_of_nat take_bit_nat_eq_self ram_named_def ram_accepts_def)
  obtain i where slot: "vfs_alloc_node v = Some i"
    using vfs_slot_free [OF inv] acc by (auto simp: ram_accepts_def vfs_file_count_def)
  note i = vfs_alloc_nodeD [OF slot]
  let ?n = "(nodes v ! i)\<lparr>rn_path := p, rn_data := splice (rn_data (nodes v ! i)) 0 (take (unat (of_nat (length d) :: u64)) d),
      rn_size := of_nat (length d), rn_kind := RAMFS_FILE, rn_used := True\<rparr>"
  let ?v = "v\<lparr>nodes := (nodes v)[i := ?n]\<rparr>"
  have "\<not> of_nat (length d) > (4096 :: u64)" using len by (simp add: word_less_nat_alt)
  then have step: "vfs_create hw p d (of_nat (length d)) v = (True, ?v\<lparr>file_count := file_count v + 1\<rparr>)"
    using acc p slot by (auto simp: vfs_create_def ram_accepts_def ram_named_def vfs_file_count_def)
  then have inv': "vfs_inv (?v\<lparr>file_count := file_count v + 1\<rparr>)"
    using vfs_create_ram_inv [OF inv, of p "of_nat (length d)" d hw] p len by (simp add: ram_named_def)
  have find: "vfs_find q ?v = (if q = p then Some i else vfs_find q v)" for q
  proof -
    have "\<not> node_named (nodes v) p j" for j using acc vfs_find_None [of p v] by (simp add: ram_accepts_def)
    moreover have "\<not> node_named (nodes v) r i" for r using i(2) by (simp add: node_named_def)
    ultimately show ?thesis using vfs_find_update [OF inv i(1), of ?n q] by simp
  qed
  have "ram_files ?v q = ((ram_files v)(p \<mapsto> d)) q" for q
  proof (cases "q = p")
    case True
    then show ?thesis using find [of q] i len by (simp add: ram_files_def splice_def)
  next
    case False
    have "vfs_find q v \<noteq> Some i"
      using vfs_found_ok(3) [OF inv] i(2) by blast
    with False find [of q] show ?thesis by (auto simp: ram_files_def split: option.splits)
  qed
  moreover have "ram_files (?v\<lparr>file_count := file_count v + 1\<rparr>) = ram_files ?v" by (rule ram_files_cong) simp
  ultimately have "ram_files (?v\<lparr>file_count := file_count v + 1\<rparr>) = (ram_files v)(p \<mapsto> d)" by presburger
  moreover have "vfs_find q (?v\<lparr>file_count := file_count v + 1\<rparr>) = vfs_find q ?v" for q by (rule vfs_find_cong) simp
  ultimately show ?thesis using step inv' find by auto
qed

lemma ram_create_refused:
  assumes "ram_named p d" "\<not> ram_accepts p d v"
  shows "vfs_create hw p d (of_nat (length d)) v = (False, v)"
proof -
  have len: "unat (of_nat (length d) :: u64) = length d"
    using assms(1) by (simp add: unat_of_nat take_bit_nat_eq_self ram_named_def)
  show ?thesis
    using assms len by (auto simp: vfs_create_def ram_accepts_def ram_named_def vfs_file_count_def
        word_less_nat_alt not_less not_le split: option.splits)
qed

definition ram_fetch :: "'d virtio_hw \<Rightarrow> cstring \<Rightarrow> 'd vfs \<Rightarrow> u8 list option \<times> 'd vfs" where
  "ram_fetch hw p v =
     (case vfs_file_data hw p v of (r, v') \<Rightarrow> (map_option (\<lambda>(data, sz). take (unat sz) data) r, v'))"

interpretation ram_store: file_store
    "\<lambda>p d v. vfs_create hw p d (of_nat (length d)) v" "ram_fetch hw" ram_files ram_accepts ram_named vfs_inv
  for hw :: "'d virtio_hw"
proof (unfold_locales, goal_cases)
  case (1 s p d)
  from ram_create_ok [OF this, of hw] show ?case by blast
next
  case (2 s p d)
  then show ?case using ram_create_refused [of p d s hw] by simp
next
  case (3 s p)
  then show ?case
    by (auto simp: ram_fetch_def vfs_file_data_def ram_named_def ram_files_def split: option.splits)
next
  case (4 p d)
  then show ?case by (simp add: ram_named_def)
qed

section \<open>Reads and writes of a RAM file\<close>

lemma ram_update_files:
  assumes inv: "vfs_inv v" and f: "vfs_find path v = Some i" and kind: "rn_kind (nodes v ! i) = RAMFS_FILE"
    and n: "n = (nodes v ! i)\<lparr>rn_data := data, rn_size := sz\<rparr>"
  shows "vfs_find path (v\<lparr>nodes := (nodes v)[i := n]\<rparr>) = Some i"
    "ram_files (v\<lparr>nodes := (nodes v)[i := n]\<rparr>) = (ram_files v)(path \<mapsto> take (unat sz) data)"
proof -
  let ?v = "v\<lparr>nodes := (nodes v)[i := n]\<rparr>"
  note ok = vfs_found_ok [OF inv f]
  have np: "rn_path n = path" "rn_used n" "rn_kind n = RAMFS_FILE" using n ok kind by simp_all
  have named: "node_named (nodes v) path i" using ok by (simp add: node_named_def)
  have find: "vfs_find q ?v = (if q = path then Some i else vfs_find q v)" for q
    using vfs_find_update [OF inv ok(2) np(2), of q] named vfs_inv_uniq(1) [OF inv] np(1)
    unfolding unique_paths_def by (auto simp: node_named_def)
  then show "vfs_find path ?v = Some i" by simp
  have "ram_files ?v q = ((ram_files v)(path \<mapsto> take (unat sz) data)) q" for q
  proof (cases "q = path")
    case True
    then show ?thesis using find [of q] np(3) n ok(2) by (simp add: ram_files_def)
  next
    case False
    have "vfs_find q v \<noteq> Some i" using vfs_found_ok(4) [OF inv, of q i] ok(4) False by auto
    with False find [of q] show ?thesis by (auto simp: ram_files_def split: option.splits)
  qed
  then show "ram_files ?v = (ram_files v)(path \<mapsto> take (unat sz) data)" by blast
qed

lemma vfs_write_ram_step:
  fixes buffer :: "u8 list"
  assumes inv: "vfs_inv v" and disk: "vfs_disk_path path = None" and f: "vfs_find path v = Some i"
    and kind: "rn_kind (nodes v ! i) = RAMFS_FILE" and range: "offset \<le> 4096" "sz \<le> 4096 - offset"
  defines "n \<equiv> (nodes v ! i)\<lparr>rn_data := splice (rn_data (nodes v ! i)) (unat offset) (take (unat sz) buffer),
      rn_size := (if offset + sz > rn_size (nodes v ! i) then offset + sz else rn_size (nodes v ! i))\<rparr>"
  shows "vfs_write hw path offset buffer sz v = (uint sz, v\<lparr>nodes := (nodes v)[i := n]\<rparr>)"
  using assms by (auto simp: vfs_write_def Let_def)

section \<open>Properties\<close>

text \<open>The static variables of the file system before vfs_init.\<close>

definition vfs_bss :: "'d sfs \<Rightarrow> 'd vfs" where
  "vfs_bss s = \<lparr>nodes = replicate 16 \<lparr>rn_path = [], rn_size = 0, rn_data = replicate 4096 0,
       rn_kind = RAMFS_FILE, rn_used = False\<rparr>,
     file_count = 0, dir_count = 0, disk_file_buffer = replicate 4096 0, vfs_sfs = s\<rparr>"

inductive vfs_run :: "'d virtio_hw \<Rightarrow> 'd vfs \<Rightarrow> bool" for hw where
  run_init: "vfs_run hw (vfs_init (vfs_bss s))"
| run_mkdir: "vfs_run hw v \<Longrightarrow> cstr_ok path \<Longrightarrow> vfs_run hw (snd (vfs_mkdir path v))"
| run_create: "vfs_run hw v \<Longrightarrow> cstr_ok path \<Longrightarrow> unat sz \<le> length data \<Longrightarrow>
    vfs_run hw (snd (vfs_create hw path data sz v))"
| run_remove: "vfs_run hw v \<Longrightarrow> vfs_run hw (snd (vfs_remove path v))"
| run_rename: "vfs_run hw v \<Longrightarrow> cstr_ok new \<Longrightarrow> vfs_run hw (snd (vfs_rename old new v))"
| run_write: "vfs_run hw v \<Longrightarrow> unat sz \<le> length buffer \<Longrightarrow>
    vfs_run hw (snd (vfs_write hw path offset buffer sz v))"
| run_truncate: "vfs_run hw v \<Longrightarrow> vfs_run hw (snd (vfs_truncate hw path sz v))"
| run_read: "vfs_run hw v \<Longrightarrow> vfs_run hw (snd (vfs_read hw path offset sz v))"
| run_stat: "vfs_run hw v \<Longrightarrow> vfs_run hw (snd (vfs_stat hw path v))"
| run_file_data: "vfs_run hw v \<Longrightarrow> vfs_run hw (snd (vfs_file_data hw path v))"

lemma vfs_bss_inv: "vfs_inv (vfs_init (vfs_bss s))"
proof -
  let ?n = "\<lparr>rn_path = [], rn_size = 0, rn_data = replicate 4096 0, rn_kind = RAMFS_FILE, rn_used = False\<rparr>"
  have ns: "nodes (vfs_init (vfs_bss s)) = replicate 16 ?n" by (simp add: vfs_init_def vfs_bss_def)
  have "node_ok ?n" by (simp add: node_ok_def)
  then have "tree_ok (replicate 16 ?n)"
    by (auto simp: tree_ok_def list_all_length unique_paths_def node_named_def)
  moreover have "count_kind k (replicate 16 ?n) = 0" for k by (simp add: count_kind_def)
  ultimately show ?thesis unfolding vfs_inv_def ns by (simp add: vfs_init_def vfs_bss_def)
qed

lemma vfs_run_inv: "vfs_run hw v \<Longrightarrow> vfs_inv v"
  by (induction rule: vfs_run.induct) (auto intro: inv_intros vfs_bss_inv)

text \<open>A booted system with the file /a holding the bytes 1, 2, 3.\<close>

definition vfs_demo :: "instant_dev vfs" where
  "vfs_demo = snd (vfs_create instant_hw [slash, 0x61] [1, 2, 3] (of_nat (length [1, 2, 3 :: u8]))
     (vfs_init (vfs_bss (sfs_boot ramdisk_boot))))"

lemma vfs_boot_find: "vfs_find p (vfs_init (vfs_bss s)) = None"
  by (auto simp: vfs_find_None node_named_def vfs_init_def vfs_bss_def)

lemma last_slash_a [simp]: "last_slash [slash, x] = (if x = slash then 1 else 0)"
  by (simp add: last_slash_def)

lemma vfs_demo_facts:
  "vfs_inv vfs_demo" "ram_files vfs_demo [slash, 0x61] = Some [1, 2, 3]" "vfs_run instant_hw vfs_demo"
  "vfs_find [slash, 0x62] vfs_demo = None"
proof -
  let ?v = "vfs_init (vfs_bss (sfs_boot ramdisk_boot))" and ?p = "[slash, 0x61]"
  have named: "ram_named ?p [1, 2, 3 :: u8]" by (simp add: ram_named_def cstr_ok_def vfs_disk_path_def)
  have "ram_accepts ?p [1, 2, 3] ?v"
    by (simp add: ram_accepts_def vfs_path_valid_def vfs_boot_find vfs_parent_exists_def vfs_file_count_def)
      (simp add: vfs_init_def)
  from ram_create_ok [OF vfs_bss_inv named this, of instant_hw] show "vfs_inv vfs_demo"
    "ram_files vfs_demo ?p = Some [1, 2, 3]" "vfs_find [slash, 0x62] vfs_demo = None"
    using vfs_boot_find [of "[slash, 0x62]"] by (auto simp: vfs_demo_def)
  show "vfs_run instant_hw vfs_demo"
    unfolding vfs_demo_def by (intro vfs_run.intros) (simp_all add: cstr_ok_def)
qed

text \<open>
  C1: whatever sequence of file system calls has been made since vfs_init, no two nodes have the same
  path, every node that is not at the top level has a parent which is a directory, the directory and
  file counters are the numbers of such nodes, and no file is larger than its buffer.
\<close>

theorem vfs_tree_well_formed:
  assumes "vfs_run hw v"
  shows "(\<forall>i<length (nodes v). \<forall>j<length (nodes v). rn_used (nodes v ! i) \<and> rn_used (nodes v ! j) \<and>
        rn_path (nodes v ! i) = rn_path (nodes v ! j) \<longrightarrow> i = j) \<and>
    (\<forall>n\<in>set (nodes v). rn_used n \<and> 0 < last_slash (rn_path n) \<longrightarrow>
       (\<exists>d\<in>set (nodes v). rn_used d \<and> rn_kind d = RAMFS_DIRECTORY \<and>
          rn_path d = take (last_slash (rn_path n)) (rn_path n))) \<and>
    unat (vfs_dir_count v) = length (filter (\<lambda>n. rn_used n \<and> rn_kind n = RAMFS_DIRECTORY) (nodes v)) \<and>
    unat (vfs_file_count v) = length (filter (\<lambda>n. rn_used n \<and> rn_kind n = RAMFS_FILE) (nodes v)) \<and>
    (\<forall>n\<in>set (nodes v). unat (rn_size n) \<le> length (rn_data n))"
proof -
  have inv: "vfs_inv v" using assms by (rule vfs_run_inv)
  note tree = vfs_inv_uniq(2) [OF inv]
  have uniq: "\<forall>i<length (nodes v). \<forall>j<length (nodes v). rn_used (nodes v ! i) \<and> rn_used (nodes v ! j) \<and>
      rn_path (nodes v ! i) = rn_path (nodes v ! j) \<longrightarrow> i = j"
    using vfs_inv_uniq(1) [OF inv] unfolding unique_paths_def node_named_def by blast
  have par: "\<forall>n\<in>set (nodes v). rn_used n \<and> 0 < last_slash (rn_path n) \<longrightarrow>
      (\<exists>d\<in>set (nodes v). rn_used d \<and> rn_kind d = RAMFS_DIRECTORY \<and> rn_path d = take (last_slash (rn_path n)) (rn_path n))"
    using tree unfolding tree_ok_def parent_ok_def has_dir_def parent_path_def by fastforce
  have counts: "unat (vfs_dir_count v) = count_kind RAMFS_DIRECTORY (nodes v)"
    "unat (vfs_file_count v) = count_kind RAMFS_FILE (nodes v)"
    using inv by (auto simp: vfs_inv_def vfs_dir_count_def vfs_file_count_def unat_of_nat take_bit_nat_eq_self)
  have size: "\<forall>n\<in>set (nodes v). unat (rn_size n) \<le> length (rn_data n)"
    using tree by (auto simp: tree_ok_def list_all_iff node_ok_def)
  show ?thesis using uniq par counts size by (simp only: count_kind_def simp_thms)
qed

theorem vfs_tree_well_formed_witness:
  "unat (vfs_dir_count (snd (vfs_mkdir [slash, 0x61] (vfs_init (vfs_bss (sfs_boot ramdisk_boot)))))) =
     length (filter (\<lambda>n. rn_used n \<and> rn_kind n = RAMFS_DIRECTORY)
       (nodes (snd (vfs_mkdir [slash, 0x61] (vfs_init (vfs_bss (sfs_boot ramdisk_boot)))))))"
proof -
  have "cstr_ok [slash, 0x61]" by (simp add: cstr_ok_def)
  from vfs_tree_well_formed [OF vfs_run.run_mkdir [OF vfs_run.run_init this]] show ?thesis by blast
qed

definition vfs_tree :: "'d vfs \<Rightarrow> cstring \<Rightarrow> (ramfs_node_kind \<times> u8 list) option" where
  "vfs_tree v p = map_option (\<lambda>i. (rn_kind (nodes v ! i), take (unat (rn_size (nodes v ! i))) (rn_data (nodes v ! i))))
     (vfs_find p v)"

lemma vfs_tree_iff:
  assumes "vfs_inv v"
  shows "vfs_tree v p = Some t \<longleftrightarrow> (\<exists>n\<in>set (nodes v). rn_used n \<and> rn_path n = p \<and>
    t = (rn_kind n, take (unat (rn_size n)) (rn_data n)))"
proof
  assume "vfs_tree v p = Some t"
  then obtain i where i: "vfs_find p v = Some i"
    "t = (rn_kind (nodes v ! i), take (unat (rn_size (nodes v ! i))) (rn_data (nodes v ! i)))"
    by (auto simp: vfs_tree_def)
  note ok = vfs_found_ok [OF assms i(1)]
  show "\<exists>n\<in>set (nodes v). rn_used n \<and> rn_path n = p \<and> t = (rn_kind n, take (unat (rn_size n)) (rn_data n))"
    by (rule bexI [of _ "nodes v ! i"]) (use ok i in simp_all)
next
  assume "\<exists>n\<in>set (nodes v). rn_used n \<and> rn_path n = p \<and> t = (rn_kind n, take (unat (rn_size n)) (rn_data n))"
  then obtain i where i: "i < length (nodes v)" "rn_used (nodes v ! i)" "rn_path (nodes v ! i) = p"
    "t = (rn_kind (nodes v ! i), take (unat (rn_size (nodes v ! i))) (rn_data (nodes v ! i)))"
    by (auto simp: in_set_conv_nth)
  then have "vfs_find p v = Some i" by (simp add: vfs_find_named [OF vfs_inv_uniq(1) [OF assms]] node_named_def)
  with i show "vfs_tree v p = Some t" by (simp add: vfs_tree_def)
qed

text \<open>
  C13: a successful rename moves the node and everything below it and nothing else: each node's kind
  and contents are found under its moved path, every node found afterwards was moved from a node
  found before, and the old path no longer exists.
\<close>

theorem vfs_rename_moves_subtree:
  assumes "vfs_inv v" "cstr_ok new" "vfs_rename old new v = (True, v')"
  shows "vfs_inv v' \<and> (\<forall>p t. vfs_tree v p = Some t \<longrightarrow> vfs_tree v' (move_path old new p) = Some t) \<and>
    (\<forall>q t. vfs_tree v' q = Some t \<longrightarrow> (\<exists>p. q = move_path old new p \<and> vfs_tree v p = Some t)) \<and>
    vfs_tree v' old = None"
proof -
  note tree = vfs_inv_uniq(2) [OF assms(1)]
  from assms(3) obtain i where ok: "rename_ok (nodes v) old new i"
    and v': "v' = v\<lparr>nodes := map (move_node old new) (nodes v)\<rparr>"
    by (auto simp: vfs_rename_eq [OF vfs_inv_uniq(1) [OF assms(1)]] split: if_splits)
  have inv': "vfs_inv v'" using vfs_rename_inv [OF assms(1,2), of old] assms(3) by simp
  note iff = vfs_tree_iff [OF assms(1)]
  have iff': "vfs_tree v' q = Some t \<longleftrightarrow> (\<exists>n\<in>set (nodes v). rn_used n \<and> move_path old new (rn_path n) = q \<and>
      t = (rn_kind n, take (unat (rn_size n)) (rn_data n)))" for q t
    unfolding vfs_tree_iff [OF inv'] by (auto simp: v')
  have fwd: "vfs_tree v' (move_path old new p) = Some t" if "vfs_tree v p = Some t" for p t
    using that unfolding iff iff' by blast
  have bwd: "\<exists>p. q = move_path old new p \<and> vfs_tree v p = Some t" if "vfs_tree v' q = Some t" for q t
    using that unfolding iff iff' by blast
  have "vfs_tree v' old \<noteq> Some t" for t
  proof
    assume "vfs_tree v' old = Some t"
    then obtain n where n: "n \<in> set (nodes v)" "rn_used n" "move_path old new (rn_path n) = old"
      using iff' by blast
    obtain m where m: "m \<in> set (nodes v)" "rn_used m" "rn_path m = old"
      using ok unfolding rename_ok_def node_named_def by (metis nth_mem)
    have "new \<noteq> old" using ok by (auto simp: rename_ok_def)
    moreover have "\<not> path_below new old" using rename_below(2) [OF tree ok m(1,2)] m(3) by simp
    ultimately show False using n(3) move_path_below [of old "rn_path n" new]
      by (auto simp: move_path_def split: if_splits)
  qed
  then have "vfs_tree v' old = None" by (cases "vfs_tree v' old") auto
  with inv' fwd bwd show ?thesis by blast
qed

theorem vfs_rename_moves_subtree_witness:
  "\<exists>v'. vfs_rename [slash, 0x61] [slash, 0x62] vfs_demo = (True, v') \<and> vfs_tree v' [slash, 0x61] = None"
proof -
  let ?a = "[slash, 0x61]" and ?b = "[slash, 0x62]"
  obtain i where i: "vfs_find ?a vfs_demo = Some i" "rn_kind (nodes vfs_demo ! i) = RAMFS_FILE"
    using vfs_demo_facts(2) by (auto simp: ram_files_def split: option.splits if_splits)
  have len: "length (rn_path n) < 48" if "n \<in> set (nodes vfs_demo)" "rn_used n" for n
    using vfs_inv_uniq(2) [OF vfs_demo_facts(1)] that
    by (auto simp: tree_ok_def list_all_iff node_ok_def vfs_path_valid_def)
  have "\<forall>n\<in>set (nodes vfs_demo). rn_used n \<and> path_below ?a (rn_path n) \<longrightarrow>
      length ?b + (length (rn_path n) - length ?a) < VFS_MAX_PATH"
  proof (intro ballI impI)
    fix n assume "n \<in> set (nodes vfs_demo)" "rn_used n \<and> path_below ?a (rn_path n)"
    then have "length (rn_path n) < 48" "2 < length (rn_path n)" using len by (auto simp: path_below_def)
    then show "length ?b + (length (rn_path n) - length ?a) < VFS_MAX_PATH" by simp
  qed
  moreover have "\<not> node_named (nodes vfs_demo) ?b j" for j
    using vfs_demo_facts(4) vfs_find_None [of ?b vfs_demo] by blast
  moreover have "node_named (nodes vfs_demo) ?a i"
    using i(1) vfs_find_named [OF vfs_inv_uniq(1) [OF vfs_demo_facts(1)]] by blast
  ultimately have "rename_ok (nodes vfs_demo) ?a ?b i"
    using i(2) by (simp add: rename_ok_def vfs_path_valid_def parent_ok_def)
  then have r: "vfs_rename ?a ?b vfs_demo = (True, vfs_demo\<lparr>nodes := map (move_node ?a ?b) (nodes vfs_demo)\<rparr>)"
    using vfs_rename_eq [OF vfs_inv_uniq(1) [OF vfs_demo_facts(1)]] by auto
  have "cstr_ok ?b" by (simp add: cstr_ok_def)
  from vfs_rename_moves_subtree [OF vfs_demo_facts(1) this r] r show ?thesis by blast
qed

lemma ram_write_read:
  assumes inv: "vfs_inv v" and path: "vfs_disk_path path = None" "ram_files v path = Some old"
    and buf: "length buffer = unat sz" and range: "unat offset \<le> length old" "unat offset + unat sz \<le> 4096"
    and w: "vfs_write hw path offset buffer sz v = (r, v')"
  shows "r = uint sz \<and> vfs_inv v' \<and>
    ram_files v' = (ram_files v)(path \<mapsto> take (unat offset) old @ buffer @ drop (unat offset + unat sz) old) \<and>
    fst (vfs_read hw path offset sz v') = Some buffer"
proof -
  from path(2) obtain i where f: "vfs_find path v = Some i" and kind: "rn_kind (nodes v ! i) = RAMFS_FILE"
    and old: "old = take (unat (rn_size (nodes v ! i))) (rn_data (nodes v ! i))"
    by (auto simp: ram_files_def split: option.splits if_splits)
  let ?n = "nodes v ! i"
  note ok = vfs_found_ok [OF inv f]
  have len: "length (rn_data ?n) = 4096" "unat (rn_size ?n) \<le> 4096" using ok(1) by (auto simp: node_ok_def)
  then have lold: "length old = unat (rn_size ?n)" using old by simp
  have rng: "offset \<le> 4096" "sz \<le> 4096 - offset"
    using range by (simp_all add: word_le_nat_alt unat_sub)
  note end_off = unat_end_offset [OF rng]
  define data where "data = splice (rn_data ?n) (unat offset) buffer"
  define fin where "fin = (if offset + sz > rn_size ?n then offset + sz else rn_size ?n)"
  have fin: "unat fin = max (unat offset + unat sz) (length old)"
    using end_off lold by (auto simp: fin_def word_less_nat_alt)
  define n where "n = ?n\<lparr>rn_data := data, rn_size := fin\<rparr>"
  from vfs_write_ram_step [OF inv path(1) f kind rng, of hw buffer] w
  have r: "r = uint sz" and v': "v' = v\<lparr>nodes := (nodes v)[i := n]\<rparr>"
    using buf by (simp_all add: n_def data_def fin_def)
  note upd = ram_update_files [OF inv f kind n_def, folded v']
  have ld: "length data = 4096" using len range buf by (simp add: data_def)
  have contents: "take (unat fin) data = take (unat offset) old @ buffer @ drop (unat offset + unat sz) old"
  proof (rule nth_equalityI)
    show "length (take (unat fin) data) = length (take (unat offset) old @ buffer @ drop (unat offset + unat sz) old)"
      using ld fin range buf lold len by simp
    fix k assume "k < length (take (unat fin) data)"
    then show "take (unat fin) data ! k = (take (unat offset) old @ buffer @ drop (unat offset + unat sz) old) ! k"
      using fin range buf lold len
      by (auto simp: data_def nth_splice nth_append old)
  qed
  have nth: "nodes v' ! i = n" using ok(2) by (simp add: v')
  have "\<not> offset > fin" "\<not> sz > fin - offset"
    using fin range end_off by (simp_all add: word_less_nat_alt unat_sub word_le_nat_alt)
  then have "fst (vfs_read hw path offset sz v') = Some (slice (unat offset) (unat sz) data)"
    using path(1) upd(1) nth kind by (simp add: vfs_read_def Let_def n_def)
  also have "\<dots> = Some buffer"
    using slice_splice_same [of "unat offset" buffer "rn_data ?n"] len range buf by (simp add: data_def)
  finally have "fst (vfs_read hw path offset sz v') = Some buffer" .
  moreover have "vfs_inv v'" using vfs_write_inv [OF inv, of sz buffer hw path offset] w buf by simp
  ultimately show ?thesis using r upd(2) contents by simp
qed

text \<open>
  Writing inside or at the end of a RAM file returns the number of bytes written, replaces exactly
  those bytes, extends the file when the write runs past its end, and leaves every other file alone;
  reading the range back returns the bytes written.
\<close>

theorem vfs_write_then_read:
  assumes inv: "vfs_inv v" and path: "vfs_disk_path path = None" "ram_files v path = Some old"
    and buf: "length buffer = unat sz" and range: "unat offset \<le> length old" "unat offset + unat sz \<le> 4096"
    and w: "vfs_write hw path offset buffer sz v = (r, v')"
  shows "r = uint sz \<and> vfs_inv v' \<and>
    ram_files v' = (ram_files v)(path \<mapsto> take (unat offset) old @ buffer @ drop (unat offset + unat sz) old) \<and>
    fst (vfs_read hw path offset sz v') = Some buffer"
  by (rule ram_write_read [OF assms])

theorem vfs_write_then_read_witness:
  "\<exists>v'. vfs_write instant_hw [slash, 0x61] 1 [9, 9, 9] 3 vfs_demo = (3, v') \<and>
     ram_files v' [slash, 0x61] = Some [1, 9, 9, 9]"
proof -
  obtain r v' where w: "vfs_write instant_hw [slash, 0x61] 1 [9, 9, 9] 3 vfs_demo = (r, v')" by fastforce
  have "vfs_disk_path [slash, 0x61] = None" by (simp add: vfs_disk_path_def)
  from vfs_write_then_read [OF vfs_demo_facts(1) this vfs_demo_facts(2) _ _ _ w] w show ?thesis by simp
qed

text \<open>
  C32: bytes removed by vfs_truncate come back: truncating a RAM file to zero and then writing one byte
  at its former end makes the file its former contents followed by that byte, because vfs_write does
  not clear the gap that vfs_truncate, when it extends a file, does clear.
\<close>

theorem vfs_truncated_bytes_return:
  assumes inv: "vfs_inv v" and path: "vfs_disk_path path = None" "ram_files v path = Some old"
    and old: "length old < 4096"
    and t: "vfs_truncate hw path 0 v = (done, v1)"
    and w: "vfs_write hw path (of_nat (length old)) [byte] 1 v1 = (r, v2)"
  shows "done \<and> r = 1 \<and> ram_files v1 path = Some [] \<and> ram_files v2 path = Some (old @ [byte])"
proof -
  from path(2) obtain i where f: "vfs_find path v = Some i" and kind: "rn_kind (nodes v ! i) = RAMFS_FILE"
    and o: "old = take (unat (rn_size (nodes v ! i))) (rn_data (nodes v ! i))"
    by (auto simp: ram_files_def split: option.splits if_splits)
  let ?n = "nodes v ! i"
  note ok = vfs_found_ok [OF inv f]
  have len: "length (rn_data ?n) = 4096" "unat (rn_size ?n) \<le> 4096" using ok(1) by (auto simp: node_ok_def)
  define n where "n = ?n\<lparr>rn_data := rn_data ?n, rn_size := 0\<rparr>"
  have t1: "done" and v1: "v1 = v\<lparr>nodes := (nodes v)[i := n]\<rparr>"
    using t f kind path(1) by (simp_all add: vfs_truncate_def Let_def n_def)
  note upd = ram_update_files [OF inv f kind n_def, folded v1]
  have inv1: "vfs_inv v1" using vfs_truncate_inv [OF inv, of hw path 0] t by simp
  have nth: "nodes v1 ! i = n" using ok(2) by (simp add: v1)
  have off: "unat (of_nat (length old) :: u64) = length old" using old by (simp add: unat_of_nat take_bit_nat_eq_self)
  have rng: "(of_nat (length old) :: u64) \<le> 4096" "(1 :: u64) \<le> 4096 - of_nat (length old)"
    using old off by (simp_all add: word_le_nat_alt unat_sub)
  define m where "m = n\<lparr>rn_data := splice (rn_data n) (length old) [byte], rn_size := of_nat (length old) + 1\<rparr>"
  have grow: "of_nat (length old) + 1 > (0 :: u64)"
    using unat_end_offset(2) [OF rng] by (simp add: word_less_nat_alt off)
  have kn: "rn_kind (nodes v1 ! i) = RAMFS_FILE" using kind by (simp add: nth n_def)
  have "vfs_write hw path (of_nat (length old)) [byte] 1 v1 = (uint (1 :: u64), v1\<lparr>nodes := (nodes v1)[i := m]\<rparr>)"
    using vfs_write_ram_step [OF inv1 path(1) upd(1) kn rng, of hw "[byte]"] grow off
    by (simp add: nth m_def n_def)
  then have r: "r = 1" and v2: "v2 = v1\<lparr>nodes := (nodes v1)[i := m]\<rparr>" using w by simp_all
  have m: "m = (nodes v1 ! i)\<lparr>rn_data := splice (rn_data n) (length old) [byte], rn_size := of_nat (length old) + 1\<rparr>"
    by (simp add: m_def nth)
  have "take (length old) (rn_data ?n) = old" using o len by (simp add: min_def)
  then have "take (unat (of_nat (length old) + 1 :: u64)) (splice (rn_data n) (length old) [byte]) = old @ [byte]"
    using unat_end_offset(2) [OF rng] off old len by (simp add: splice_def n_def)
  then have "ram_files v2 path = Some (old @ [byte])"
    using ram_update_files(2) [OF inv1 upd(1) kn m, folded v2] by simp
  with t1 r upd(2) show ?thesis by simp
qed

theorem vfs_truncated_bytes_return_witness:
  "\<exists>v1 v2. vfs_truncate instant_hw [slash, 0x61] 0 vfs_demo = (True, v1) \<and>
     vfs_write instant_hw [slash, 0x61] (of_nat (length [1, 2, 3 :: u8])) [9] 1 v1 = (1, v2) \<and>
     ram_files v2 [slash, 0x61] = Some ([1, 2, 3] @ [9])"
proof -
  obtain d v1 where t: "vfs_truncate instant_hw [slash, 0x61] 0 vfs_demo = (d, v1)" by fastforce
  obtain r v2 where w: "vfs_write instant_hw [slash, 0x61] (of_nat (length [1, 2, 3 :: u8])) [9] 1 v1 = (r, v2)"
    by (metis surj_pair)
  have "vfs_disk_path [slash, 0x61] = None" by (simp add: vfs_disk_path_def)
  from vfs_truncated_bytes_return [OF vfs_demo_facts(1) this vfs_demo_facts(2) _ t w] t w show ?thesis by simp
qed

text \<open>
  Creating a RAM file succeeds exactly when the path is valid and new, its parent directory exists,
  the data fits and fewer than eight files exist (a node is then always free); it adds that file with
  its contents and changes no other file, and a refused call changes nothing.
\<close>

theorem vfs_create_adds_file:
  assumes "vfs_inv v" "cstr_ok path" "vfs_disk_path path = None" "length data < 2 ^ 64"
    and "vfs_create hw path data (of_nat (length data)) v = (done, v')"
  shows "done = (vfs_path_valid path \<and> vfs_find path v = None \<and> vfs_parent_exists path v \<and>
      length data \<le> 4096 \<and> vfs_file_count v < VFS_MAX_FILES) \<and>
    vfs_inv v' \<and> ram_files v' = (if done then (ram_files v)(path \<mapsto> data) else ram_files v) \<and>
    (done \<longrightarrow> fst (ram_fetch hw path v') = Some data)"
proof -
  have named: "ram_named path data" using assms(2-4) by (simp add: ram_named_def)
  show ?thesis
    using ram_store.store_result [OF assms(1) named, of hw] ram_store.store_files [OF assms(1) named, of hw]
      ram_store.store_ok [OF assms(1) named, of hw] ram_store.fetch_after_store [OF assms(1) named, of hw] assms(5)
    by (auto simp: ram_accepts_def)
qed

theorem vfs_create_adds_file_witness:
  "\<exists>v'. vfs_create instant_hw [slash, 0x61] [7] (of_nat (length [7 :: u8]))
     (vfs_init (vfs_bss (sfs_boot ramdisk_boot))) = (True, v') \<and> ram_files v' [slash, 0x61] = Some [7]"
proof -
  let ?v = "vfs_init (vfs_bss (sfs_boot ramdisk_boot))"
  obtain r v' where c: "vfs_create instant_hw [slash, 0x61] [7] (of_nat (length [7 :: u8])) ?v = (r, v')"
    by (metis surj_pair)
  have "cstr_ok [slash, 0x61]" "vfs_disk_path [slash, 0x61] = None" by (simp_all add: cstr_ok_def vfs_disk_path_def)
  note spec = vfs_create_adds_file [OF vfs_bss_inv this _ c]
  have "vfs_path_valid [slash, 0x61]" "vfs_parent_exists [slash, 0x61] ?v" "vfs_file_count ?v < VFS_MAX_FILES"
    by (simp_all add: vfs_path_valid_def vfs_parent_exists_def vfs_file_count_def vfs_init_def)
  then have "r" using spec vfs_boot_find by simp
  with spec c show ?thesis by simp
qed

text \<open>
  Removing a path succeeds exactly when a node has that path and, for a directory, no other node
  lies below it; then exactly that path disappears from the tree.
\<close>

theorem vfs_remove_leaf:
  assumes inv: "vfs_inv v" and "vfs_remove path v = (done, v')"
  shows "done = (\<exists>n\<in>set (nodes v). rn_used n \<and> rn_path n = path \<and>
      (rn_kind n = RAMFS_DIRECTORY \<longrightarrow> \<not> (\<exists>m\<in>set (nodes v). rn_used m \<and> path_below path (rn_path m)))) \<and>
    vfs_inv v' \<and> vfs_tree v' = (if done then (vfs_tree v)(path := None) else vfs_tree v)"
proof -
  note uniq = vfs_inv_uniq(1) [OF inv]
  have inv': "vfs_inv v'" using vfs_remove_inv [OF inv, of path] assms(2) by simp
  show ?thesis
  proof (cases "vfs_find path v")
    case None
    with assms(2) have "\<not> done" "v' = v" by (simp_all add: vfs_remove_def)
    moreover have "\<not> (rn_used n \<and> rn_path n = path)" if "n \<in> set (nodes v)" for n
      using None that unfolding vfs_find_None node_named_def by (metis in_set_conv_nth)
    ultimately show ?thesis using inv' by auto
  next
    case (Some i)
    note ok = vfs_found_ok [OF inv Some]
    let ?below = "\<exists>m\<in>set (nodes v). rn_used m \<and> path_below path (rn_path m)"
    have below: "(\<exists>j<length (nodes v). j \<noteq> i \<and> rn_used (nodes v ! j) \<and> path_below path (rn_path (nodes v ! j))) \<longleftrightarrow> ?below"
      using ok path_below_irrefl [of path] unfolding in_set_conv_nth by (metis in_set_conv_nth)
    let ?n = "(nodes v ! i)\<lparr>rn_used := False, rn_size := 0, rn_path := []\<rparr>"
    have d: "done \<longleftrightarrow> (rn_kind (nodes v ! i) = RAMFS_DIRECTORY \<longrightarrow> \<not> ?below)"
      "done \<Longrightarrow> nodes v' = (nodes v)[i := ?n]" "\<not> done \<Longrightarrow> v' = v"
      using assms(2) Some by (auto simp: vfs_remove_def Let_def below split: if_splits)
    have one: "(\<exists>n\<in>set (nodes v). rn_used n \<and> rn_path n = path \<and> P n) \<longleftrightarrow> P (nodes v ! i)" for P
    proof
      assume "\<exists>n\<in>set (nodes v). rn_used n \<and> rn_path n = path \<and> P n"
      then obtain j where "node_named (nodes v) path j" "P (nodes v ! j)" by (auto simp: in_set_conv_nth node_named_def)
      then show "P (nodes v ! i)" using uniq ok unfolding unique_paths_def by (metis node_named_def)
    qed (use ok in \<open>auto intro!: bexI [of _ "nodes v ! i"]\<close>)
    have tree: "vfs_tree v' = (vfs_tree v)(path := None)" if "done"
    proof
      fix q
      have named: "node_named (nodes v') p j \<longleftrightarrow> j \<noteq> i \<and> node_named (nodes v) p j" for p j
        using d(2) [OF that] ok(2) by (auto simp: node_named_def nth_list_update)
      have iff: "vfs_find q v' = Some j \<longleftrightarrow> q \<noteq> path \<and> vfs_find q v = Some j" for j
        using vfs_find_named [OF vfs_inv_uniq(1) [OF inv'], of q j] vfs_find_named [OF uniq, of q j] named
          uniq ok unfolding unique_paths_def by (auto simp: node_named_def)
      have same: "nodes v' ! j = nodes v ! j" if "vfs_find q v' = Some j" for j
        using that vfs_find_named [OF vfs_inv_uniq(1) [OF inv']] named d(2) [OF \<open>done\<close>] by auto
      show "vfs_tree v' q = ((vfs_tree v)(path := None)) q"
      proof (cases "vfs_find q v'")
        case None
        with iff have "q = path \<or> vfs_find q v = None" by (cases "vfs_find q v") auto
        with None show ?thesis by (auto simp: vfs_tree_def)
      next
        case (Some j)
        with iff [of j] same [of j] show ?thesis by (simp add: vfs_tree_def)
      qed
    qed
    show ?thesis using d inv' tree by (auto simp: one)
  qed
qed

theorem vfs_remove_leaf_witness:
  "\<exists>v'. vfs_remove [slash, 0x61] vfs_demo = (True, v') \<and> vfs_tree v' [slash, 0x61] = None"
proof -
  obtain r v' where c: "vfs_remove [slash, 0x61] vfs_demo = (r, v')" by fastforce
  note spec = vfs_remove_leaf [OF vfs_demo_facts(1) c]
  obtain i where i: "vfs_find [slash, 0x61] vfs_demo = Some i" "rn_kind (nodes vfs_demo ! i) = RAMFS_FILE"
    using vfs_demo_facts(2) by (auto simp: ram_files_def split: option.splits if_splits)
  with c have "r" by (auto simp: vfs_remove_def Let_def)
  with spec c show ?thesis by simp
qed

text \<open>
  A file created under /disk is stored by SaturnFS: on a mounted, well-formed SaturnFS the call
  succeeds exactly when SaturnFS accepts the file, and a following read through the file system
  returns its contents; the RAM files stay as they are.
\<close>

theorem vfs_disk_create_read:
  assumes "vfs_inv v" "sfs_inv hw good (vfs_sfs v)" "vfs_disk_path path = Some disk_path" "cstr_ok path"
    and "length data < 2 ^ 64" "vfs_create hw path data (of_nat (length data)) v = (done, v')"
  shows "done = sfs_accepts disk_path data (vfs_sfs v) \<and> sfs_inv hw good (vfs_sfs v') \<and>
    ram_files v' = ram_files v \<and> (done \<longrightarrow> fst (vfs_read hw path 0 4096 v') = Some data)"
proof -
  have cs: "cstr_ok disk_path"
    using assms(3,4) by (auto simp: vfs_disk_path_def cstr_ok_def dest: in_set_dropD split: if_splits)
  then have named: "sfs_named disk_path data" using assms(5) by (simp add: sfs_named_def)
  obtain s where s: "sfs_write_file hw disk_path data (of_nat (length data)) (vfs_sfs v) = (done, s)"
    and v': "v' = v\<lparr>vfs_sfs := s\<rparr>"
    using assms(3,6) by (auto simp: vfs_create_def split: prod.splits)
  note spec = sfs_store.store_result [OF assms(2) named] sfs_store.store_ok [OF assms(2) named]
    sfs_store.fetch_after_store [OF assms(2) named]
  have "fst (vfs_read hw path 0 4096 v') = Some data" if dn: "done"
  proof -
    obtain s' where rd: "sfs_read_file hw disk_path 4096 s = (Some data, s')"
      using spec(3) s dn by (cases "sfs_read_file hw disk_path 4096 s") auto
    have len: "length data \<le> 4096" using spec(1) s dn by (simp add: sfs_accepts_def)
    then have u: "unat (of_nat (length data) :: u64) = length data" by (simp add: unat_of_nat take_bit_nat_eq_self)
    have sl: "slice 0 (length data) (splice (disk_file_buffer v) 0 data) = data"
      by (simp add: slice_def splice_def)
    have full: "length data = 4096" if "\<not> of_nat (length data) < (4096 :: u64)"
      using that len u by (simp add: word_less_nat_alt)
    show ?thesis
      using assms(3) rd u sl full
      by (cases "of_nat (length data) < (4096 :: u64)") (simp_all add: vfs_read_def sfs_into_buffer_def v' Let_def)
  qed
  moreover have "ram_files v' = ram_files v" by (rule ram_files_cong) (simp add: v')
  ultimately show ?thesis using spec(1,2) s by (auto simp: v')
qed

theorem vfs_disk_create_read_witness:
  "\<exists>s r v'. sfs_format instant_hw (sfs_boot ramdisk_boot) = (True, s) \<and>
     vfs_create instant_hw [0x2f, 0x64, 0x69, 0x73, 0x6b, 0x2f, 0x61] [7] (of_nat (length [7 :: u8]))
       (vfs_init (vfs_bss s)) = (r, v') \<and>
     fst (vfs_read instant_hw [0x2f, 0x64, 0x69, 0x73, 0x6b, 0x2f, 0x61] 0 4096 v') = Some [7]"
proof -
  let ?p = "[0x2f, 0x64, 0x69, 0x73, 0x6b, 0x2f, 0x61] :: u8 list"
  obtain s where s: "sfs_format instant_hw (sfs_boot ramdisk_boot) = (True, s)"
    "sfs_inv instant_hw (\<lambda>_. True) s" "sfs_files instant_hw s = Map.empty"
    using sfs_boot_formatted [OF ramdisk_boot_ok boot_sectors] by blast
  have sv: "vfs_sfs (vfs_init (vfs_bss s)) = s" by (simp add: vfs_init_def vfs_bss_def)
  obtain r v' where c: "vfs_create instant_hw ?p [7] (of_nat (length [7 :: u8])) (vfs_init (vfs_bss s)) = (r, v')"
    by (metis surj_pair)
  have p: "vfs_disk_path ?p = Some [0x2f, 0x61]" "cstr_ok ?p" by (simp_all add: vfs_disk_path_def cstr_ok_def)
  have "sfs_slot [0x2f, 0x61] (directory s) \<noteq> None"
    using sfs_empty_free [OF s(2,3)] sfs_slot_None_iff [of "[0x2f, 0x61]" "directory s"] by blast
  then have "sfs_accepts [0x2f, 0x61] [7] s" by (simp add: sfs_accepts_def path_valid_def)
  with vfs_disk_create_read [OF vfs_bss_inv _ p _ c, of "\<lambda>_. True"] s sv c show ?thesis by auto
qed

end
