(* ===== verification/Scheduler.thy ===== *)
theory Scheduler
  imports UserMode Executable Vfs
begin

text \<open>
  The scheduler, kernel/sched/scheduler.c: creating kernel threads and user tasks, blocking, sleeping,
  preemption and round-robin selection, and the life of child tasks. A function that returns in
  another task after a context switch is modelled up to the switch; an endless loop is None.
\<close>

section \<open>Task slots\<close>

definition scheduler_state_name :: "task_state \<Rightarrow> string" where
  "scheduler_state_name state =
     (case state of TASK_UNUSED \<Rightarrow> ''unused'' | TASK_READY \<Rightarrow> ''ready'' | TASK_RUNNING \<Rightarrow> ''running''
      | TASK_BLOCKED \<Rightarrow> ''blocked'' | TASK_SLEEPING \<Rightarrow> ''sleeping'' | TASK_ELIGIBLE \<Rightarrow> ''eligible''
      | TASK_ZOMBIE \<Rightarrow> ''zombie'')"

definition scheduler_clear_task_slot :: "nat \<Rightarrow> kernel \<Rightarrow> kernel" where
  "scheduler_clear_task_slot pid k =
     upd_task pid (\<lambda>t. scheduler_clear_files
       (t\<lparr>t_pid := int pid, t_parent_pid := -1, t_name := ''unused'', t_state := TASK_UNUSED, t_entry := None,
          t_sleep_until_tick := 0, t_sleep_requested_ms := 0, t_context := scheduler_clear_context,
          t_accounting := scheduler_clear_accounting, t_memory := scheduler_clear_memory,
          t_el0 := scheduler_clear_el0, t_user_status := scheduler_clear_user_status\<rparr>))
     (destroy_task_space pid k)"

fun trim_tail :: "task list \<Rightarrow> nat \<Rightarrow> nat" where
  "trim_tail ts 0 = 0"
| "trim_tail ts (Suc n) = (if n \<ge> 1 \<and> t_state (ts ! n) = TASK_UNUSED then trim_tail ts n else Suc n)"

definition scheduler_trim_unused_tail :: "kernel \<Rightarrow> kernel" where
  "scheduler_trim_unused_tail k = k\<lparr>task_count := trim_tail (tasks k) (task_count k)\<rparr>"

definition scheduler_task_is_runnable :: "task \<Rightarrow> bool" where
  "scheduler_task_is_runnable t \<longleftrightarrow> t_state t = TASK_READY \<or> t_state t = TASK_RUNNING"

definition scheduler_set_running_task :: "nat \<Rightarrow> kernel \<Rightarrow> kernel" where
  "scheduler_set_running_task pid k =
     upd_task pid (\<lambda>t. upd_accounting (\<lambda>a. a\<lparr>ac_switches := ac_switches a + 1\<rparr>) (set_state TASK_RUNNING t)) k"

definition scheduler_task_is_kernel_task :: "kernel \<Rightarrow> task \<Rightarrow> bool" where
  "scheduler_task_is_kernel_task k t \<longleftrightarrow>
     (case task_space k t of None \<Rightarrow> False | Some space \<Rightarrow> as_kind space = ADDRESS_SPACE_KERNEL)"

definition scheduler_policy_name :: "task option \<Rightarrow> string" where
  "scheduler_policy_name task =
     (case task of None \<Rightarrow> ''invalid''
      | Some t \<Rightarrow>
          if t_state t = TASK_ELIGIBLE then ''user-eligible'' else if scheduler_task_is_runnable t then ''runnable''
          else if t_state t = TASK_BLOCKED then ''blocked'' else if t_state t = TASK_SLEEPING then ''sleeping''
          else ''inactive'')"

definition wake_task :: "u64 \<Rightarrow> task \<Rightarrow> task" where
  "wake_task ticks t =
     (if t_state t = TASK_SLEEPING \<and> ticks \<ge> t_sleep_until_tick t
      then upd_accounting (\<lambda>a. a\<lparr>ac_sleep_wakeups := ac_sleep_wakeups a + 1\<rparr>)
             (t\<lparr>t_state := TASK_READY, t_sleep_until_tick := 0, t_sleep_requested_ms := 0\<rparr>)
      else t)"

definition scheduler_wake_sleeping_tasks :: "kernel \<Rightarrow> kernel" where
  "scheduler_wake_sleeping_tasks k =
     k\<lparr>tasks := map (wake_task (scheduler_ticks k)) (take (task_count k) (tasks k)) @ drop (task_count k) (tasks k)\<rparr>"

definition scheduler_next_runnable_task :: "kernel \<Rightarrow> nat" where
  "scheduler_next_runnable_task k =
     (case find (\<lambda>c. c \<noteq> 0 \<and> scheduler_task_is_runnable (tasks k ! c))
             (map (\<lambda>i. (current_task k + i) mod task_count k) [1..<task_count k + 1]) of
        Some candidate \<Rightarrow> candidate
      | None \<Rightarrow> if scheduler_task_is_runnable (tasks k ! 0) then 0 else current_task k)"

text \<open>The slot search shared by the two creation functions.\<close>

definition pick_slot :: "kernel \<Rightarrow> (nat \<times> kernel) option" where
  "pick_slot k =
     (case find (\<lambda>i. t_state (tasks k ! i) = TASK_UNUSED) [1..<task_count k] of
        Some pid \<Rightarrow> Some (pid, k)
      | None \<Rightarrow> if task_count k \<ge> SCHED_MAX_TASKS then None
                else Some (task_count k, k\<lparr>task_count := task_count k + 1\<rparr>))"

definition reset_task :: "nat \<Rightarrow> string \<Rightarrow> task_state \<Rightarrow> code_label option \<Rightarrow> task \<Rightarrow> task" where
  "reset_task pid name state entry t =
     scheduler_clear_files
       (t\<lparr>t_pid := int pid, t_parent_pid := -1, t_name := name, t_state := state, t_entry := entry,
          t_sleep_until_tick := 0, t_sleep_requested_ms := 0, t_accounting := scheduler_clear_accounting,
          t_context := scheduler_clear_context, t_memory := scheduler_clear_memory,
          t_el0 := scheduler_clear_el0, t_user_status := scheduler_clear_user_status\<rparr>)"

definition scheduler_add_task :: "kernel_env \<Rightarrow> string \<Rightarrow> code_label option \<Rightarrow> kernel \<Rightarrow> nat option \<times> kernel" where
  "scheduler_add_task env name entry k =
     (case pick_slot k of
        None \<Rightarrow> (None, k)
      | Some (pid, k) \<Rightarrow>
          let t = scheduler_init_task_el0 k
                    (scheduler_init_task_memory env pid (reset_task pid name TASK_READY entry (tasks k ! pid)));
              t = (case entry of None \<Rightarrow> t
                   | Some e \<Rightarrow> t\<lparr>t_context := (t_context t)\<lparr>cx_sp := scheduler_stack_end env (of_nat pid) AND NOT 0xf,
                       cx_lr := code_address env (if pid = 0 then e else thread_trampoline)\<rparr>\<rparr>)
          in (Some pid, upd_task pid (\<lambda>_. t) k))"

text \<open>
  What \<open>scheduler_dump_tasks\<close> does beside printing: it runs the switch check on the space of every task,
  which stores its result there.
\<close>

definition refresh_stub :: "nat \<Rightarrow> kernel \<Rightarrow> kernel" where
  "refresh_stub i k =
     (case task_space k (tasks k ! i) of
        None \<Rightarrow> k
      | Some space \<Rightarrow> set_task_space i (snd (address_space_switch_stub space)) k)"

definition refresh_stubs :: "kernel \<Rightarrow> kernel" where
  "refresh_stubs k = fold refresh_stub [0..<task_count k] k"

text \<open>The part of \<open>scheduler_init\<close> before its report, and the whole of it.\<close>

definition init_idle :: "kernel_env \<Rightarrow> kernel \<Rightarrow> kernel" where
  "init_idle env k =
     snd (scheduler_add_task env ''idle'' (Some idle_task)
       (k\<lparr>task_count := 0, current_task := 0, threads_started := False, scheduler_ticks := 0,
          bootstrap_context := scheduler_clear_context\<rparr>))"

definition scheduler_init :: "kernel_env \<Rightarrow> kernel \<Rightarrow> kernel" where
  "scheduler_init env k = refresh_stubs (init_idle env k)"

definition scheduler_create_kernel_thread ::
    "kernel_env \<Rightarrow> string \<Rightarrow> code_label option \<Rightarrow> kernel \<Rightarrow> nat option \<times> kernel" where
  "scheduler_create_kernel_thread env name entry k = scheduler_add_task env name entry k"

section \<open>User tasks\<close>

abbreviation TASK_USER_ARGUMENT_MAX :: nat where "TASK_USER_ARGUMENT_MAX \<equiv> 128"
abbreviation TASK_USER_ARG_MAX :: nat where "TASK_USER_ARG_MAX \<equiv> 8"

text \<open>The words of the argument string: the loops that skip blanks and then a word.\<close>

function arg_words :: "cstring \<Rightarrow> cstring list" where
  "arg_words s =
     (let s = dropWhile (\<lambda>b. b = 0x20) s in
      if s = [] then [] else takeWhile (\<lambda>b. b \<noteq> 0x20) s # arg_words (dropWhile (\<lambda>b. b \<noteq> 0x20) s))"
  by auto
termination
proof (relation "measure length", simp)
  fix s x :: cstring
  assume "x = dropWhile (\<lambda>b. b = 0x20) s" "x \<noteq> []"
  then have x: "hd x \<noteq> 0x20" "length x \<le> length s"
    using hd_dropWhile [of "\<lambda>b. b = 0x20" s] length_dropWhile_le by auto
  then have "length (dropWhile (\<lambda>b. b \<noteq> 0x20) x) < length x"
    using \<open>x \<noteq> []\<close> by (cases x) (auto simp: less_Suc_eq_le length_dropWhile_le)
  with x show "(dropWhile (\<lambda>b. b \<noteq> 0x20) x, s) \<in> measure length" by simp
qed

definition le64 :: "u64 \<Rightarrow> u8 list" where
  "le64 x = le32 (ucast x) @ le32 (ucast (drop_bit 32 x))"

text \<open>
  Writing the argument strings: each word and its terminator at the cursor. The result is the flag,
  the addresses and lengths, and the tables.
\<close>

fun write_arguments ::
    "address_space \<Rightarrow> cstring list \<Rightarrow> u64 \<Rightarrow> user_tables \<Rightarrow> bool \<times> (u64 \<times> u64) list \<times> user_tables" where
  "write_arguments space [] cursor t = (True, [], t)"
| "write_arguments space (w # ws) cursor t =
     (case address_space_write_user_data cursor w (of_nat (length w)) space t of
        (False, t) \<Rightarrow> (False, [], t)
      | (True, t) \<Rightarrow>
          let cursor' = cursor + of_nat (length w);
              (_, t) = address_space_write_user_data cursor' [0] 1 space t;
              (ok, rest, t) = write_arguments space ws (cursor' + 1) t
          in (ok, (as_user_data_start space + cursor, of_nat (length w)) # rest, t))"

text \<open>Giving a slot back when creation fails after the slot was taken.\<close>

definition drop_new_task :: "nat \<Rightarrow> address_space \<Rightarrow> kernel \<Rightarrow> kernel" where
  "drop_new_task pid space k =
     (let (space, tables) = address_space_destroy_user space (user_tables_of k);
          k = upd_task pid (\<lambda>t. t\<lparr>t_user_address_space := space\<rparr>) (k\<lparr>user_tables_of := tables\<rparr>)
      in if pid = task_count k - 1 then k\<lparr>task_count := task_count k - 1\<rparr> else k)"

definition pad_words :: "u64 list \<Rightarrow> u8 list" where
  "pad_words xs = concat (map le64 (xs @ replicate (TASK_USER_ARG_MAX - length xs) 0))"

text \<open>
  The checks before a slot is taken: the executable, the argument string, and the room for the two
  tables of eight words and the strings behind the image's data. The result is the image, the words
  and the two offsets into the data page.
\<close>

definition plan_user_task ::
    "(u8 list \<times> u64) option \<Rightarrow> cstring option \<Rightarrow> (saturn_exec_image \<times> cstring list \<times> u64 \<times> u64) option" where
  "plan_user_task file argument =
     (case file of None \<Rightarrow> None
      | Some (bytes, file_size) \<Rightarrow>
          (case saturn_exec_parse bytes file_size of None \<Rightarrow> None
           | Some img \<Rightarrow>
               let arg = (case argument of None \<Rightarrow> [] | Some a \<Rightarrow> a);
                   words = arg_words arg;
                   argument_base = (ei_data_size img + 7) AND NOT 7;
                   strings_offset = argument_base + 2 * 8 * 8
               in
               if length arg > TASK_USER_ARGUMENT_MAX then None
               else if length words > TASK_USER_ARG_MAX then None
               else if strings_offset + of_nat (length arg) + 1 > 4096 then None
               else Some (img, words, argument_base, strings_offset)))"

text \<open>
  Filling the slot: the address space and the image, the task, then its arguments. \<open>new_user_task\<close>
  is the sequence of assignments to the task, \<open>place_arguments\<close> the rest of the function.
\<close>

definition new_user_task :: "kernel_env \<Rightarrow> nat \<Rightarrow> string \<Rightarrow> address_space \<Rightarrow> task \<Rightarrow> task" where
  "new_user_task env pid task_name space t =
     (let t = scheduler_init_task_memory env pid (reset_task pid task_name TASK_BLOCKED None t)
      in t\<lparr>t_memory := (t_memory t)\<lparr>tm_space := OwnSpace\<rparr>, t_user_address_space := space\<rparr>)"

definition set_user_arguments :: "nat \<Rightarrow> u64 \<Rightarrow> task \<Rightarrow> task" where
  "set_user_arguments argc argv t =
     t\<lparr>t_user_argc := of_nat argc, t_user_argv_address := argv, t_user_arg_lengths_address := argv + 8 * 8\<rparr>"

definition abandon_user_task :: "nat \<Rightarrow> address_space \<Rightarrow> user_tables \<Rightarrow> kernel \<Rightarrow> nat option \<times> kernel" where
  "abandon_user_task pid space tables k =
     (None, drop_new_task pid space (upd_task pid (set_state TASK_UNUSED) (k\<lparr>user_tables_of := tables\<rparr>)))"

definition place_arguments ::
    "address_space \<Rightarrow> cstring list \<Rightarrow> u64 \<Rightarrow> u64 \<Rightarrow> nat \<Rightarrow> kernel \<Rightarrow> nat option \<times> kernel" where
  "place_arguments space words argument_base strings_offset pid k =
     (case write_arguments space words strings_offset (user_tables_of k) of
        (False, _, tables) \<Rightarrow> abandon_user_task pid space tables k
      | (True, args, tables) \<Rightarrow>
          let k = upd_task pid (set_user_arguments (length words) (as_user_data_start space + argument_base)) k in
          (case address_space_write_user_data argument_base (pad_words (map fst args)) 64 space tables of
             (False, tables) \<Rightarrow> abandon_user_task pid space tables k
           | (True, tables) \<Rightarrow>
               (case address_space_write_user_data (argument_base + 64) (pad_words (map snd args)) 64 space tables of
                  (False, tables) \<Rightarrow> abandon_user_task pid space tables k
                | (True, tables) \<Rightarrow>
                    let k = k\<lparr>user_tables_of := tables\<rparr> in (Some pid, upd_task pid (scheduler_init_task_el0 k) k))))"

definition place_user_task ::
    "kernel_env \<Rightarrow> string \<Rightarrow> u8 list \<Rightarrow> saturn_exec_image \<Rightarrow> cstring list \<Rightarrow> u64 \<Rightarrow> u64 \<Rightarrow> nat \<Rightarrow> kernel \<Rightarrow>
     nat option \<times> kernel" where
  "place_user_task env task_name bytes img words argument_base strings_offset pid k =
     (case address_space_init_user (arrays env) (Some task_name) (as_root_table (kernel_address_space k)) (user_tables_of k) of
        (space, tables) \<Rightarrow>
     (case address_space_load_user_image (drop (ei_code img) bytes) (ei_code_size img) (drop (ei_data img) bytes)
              (ei_data_size img) (ei_entry_offset img) space tables of
        (False, space, tables) \<Rightarrow> (None, drop_new_task pid space (k\<lparr>user_tables_of := tables\<rparr>))
      | (True, space, tables) \<Rightarrow>
          place_arguments space words argument_base strings_offset pid
            (upd_task pid (new_user_task env pid task_name space) (k\<lparr>user_tables_of := tables\<rparr>))))"

definition create_user_task_from_file ::
    "kernel_env \<Rightarrow> string option \<Rightarrow> (u8 list \<times> u64) option \<Rightarrow> cstring option \<Rightarrow> kernel \<Rightarrow> nat option \<times> kernel" where
  "create_user_task_from_file env name file argument k =
     (case plan_user_task file argument of
        None \<Rightarrow> (None, k)
      | Some (img, words, argument_base, strings_offset) \<Rightarrow>
          (case pick_slot k of
             None \<Rightarrow> (None, k)
           | Some (pid, k) \<Rightarrow>
               place_user_task env (case name of Some n \<Rightarrow> n | None \<Rightarrow> ''user-demo'') (fst (the file)) img words
                 argument_base strings_offset pid k))"

definition scheduler_create_user_task_from_image ::
    "'d virtio_hw \<Rightarrow> kernel_env \<Rightarrow> string option \<Rightarrow> cstring \<Rightarrow> cstring option \<Rightarrow> 'd vfs \<Rightarrow> kernel \<Rightarrow>
     nat option \<times> 'd vfs \<times> kernel" where
  "scheduler_create_user_task_from_image hw env name image_path argument v k =
     (case vfs_file_data hw image_path v of
        (file, v) \<Rightarrow> (case create_user_task_from_file env name file argument k of (pid, k) \<Rightarrow> (pid, v, k)))"

definition scheduler_create_blocked_user_task ::
    "'d virtio_hw \<Rightarrow> kernel_env \<Rightarrow> string option \<Rightarrow> 'd vfs \<Rightarrow> kernel \<Rightarrow> nat option \<times> 'd vfs \<times> kernel" where
  "scheduler_create_blocked_user_task hw env name v k =
     scheduler_create_user_task_from_image hw env name (bytes_of ''/bin/user-demo.sx'') None v k"

definition valid_pid :: "kernel \<Rightarrow> int \<Rightarrow> bool" where
  "valid_pid k pid \<longleftrightarrow> \<not> (pid < 0 \<or> pid \<ge> int (task_count k))"

definition scheduler_unblock_user_task :: "kernel_env \<Rightarrow> int \<Rightarrow> kernel \<Rightarrow> bool \<times> kernel" where
  "scheduler_unblock_user_task env pid k =
     (let p = nat pid in
      if \<not> valid_pid k pid then (False, k)
      else if t_state (tasks k ! p) \<noteq> TASK_BLOCKED then (False, k)
      else if user_mode_prepare k (Some (tasks k ! p)) \<noteq> USER_MODE_READY then (False, k)
      else
        case task_space k (tasks k ! p) of None \<Rightarrow> (False, k)
        | Some space \<Rightarrow>
            (case address_space_switch_stub space of (status, space) \<Rightarrow>
               let k = set_task_space p space k in
               if status \<noteq> ADDRESS_SPACE_SWITCH_STUB_READY then (False, k)
               else (True, upd_task p (\<lambda>t. upd_user_status (\<lambda>u. u\<lparr>us_admissions := us_admissions u + 1\<rparr>)
                       (t\<lparr>t_entry := Some scheduler_user_task_entry,
                          t_context := (t_context t)\<lparr>cx_sp := scheduler_stack_end env (of_nat p) AND NOT 0xf,
                            cx_lr := code_address env thread_trampoline\<rparr>,
                          t_state := TASK_READY\<rparr>)) k)))"

section \<open>Blocking and reaping\<close>

definition scheduler_block_task :: "int \<Rightarrow> kernel \<Rightarrow> bool \<times> kernel" where
  "scheduler_block_task pid k =
     (let p = nat pid in
      if \<not> valid_pid k pid then (False, k)
      else if pid = 0 then (False, k)
      else if pid = int (current_task k) then (False, k)
      else if \<not> scheduler_task_is_kernel_task k (tasks k ! p) then (False, k)
      else if t_state (tasks k ! p) \<noteq> TASK_READY then (False, k)
      else (True, upd_task p (\<lambda>t. t\<lparr>t_state := TASK_BLOCKED, t_sleep_until_tick := 0, t_sleep_requested_ms := 0\<rparr>) k))"

definition scheduler_unblock_task :: "int \<Rightarrow> kernel \<Rightarrow> bool \<times> kernel" where
  "scheduler_unblock_task pid k =
     (let p = nat pid in
      if \<not> valid_pid k pid then (False, k)
      else if pid = 0 then (False, k)
      else if \<not> scheduler_task_is_kernel_task k (tasks k ! p) then (False, k)
      else if t_state (tasks k ! p) \<noteq> TASK_BLOCKED then (False, k)
      else (True, upd_task p (set_state TASK_READY) k))"

definition scheduler_reap_zombie_task :: "int \<Rightarrow> kernel \<Rightarrow> bool \<times> kernel" where
  "scheduler_reap_zombie_task pid k =
     (let p = nat pid in
      if \<not> valid_pid k pid then (False, k)
      else if pid = 0 then (False, k)
      else if pid = int (current_task k) then (False, k)
      else if t_state (tasks k ! p) \<noteq> TASK_ZOMBIE then (False, k)
      else (True, scheduler_trim_unused_tail (scheduler_clear_task_slot p k)))"

definition reap_one :: "nat \<Rightarrow> nat \<times> kernel \<Rightarrow> nat \<times> kernel" where
  "reap_one i st =
     (case st of (reaped, k) \<Rightarrow>
        if i \<noteq> current_task k \<and> t_state (tasks k ! i) = TASK_ZOMBIE
        then (reaped + 1, scheduler_clear_task_slot i k) else st)"

definition scheduler_reap_zombies :: "kernel \<Rightarrow> nat \<times> kernel" where
  "scheduler_reap_zombies k =
     (case fold reap_one [1..<task_count k] (0, k) of (reaped, k) \<Rightarrow> (reaped, scheduler_trim_unused_tail k))"

section \<open>Children\<close>

text \<open>
  The return value of \<open>scheduler_wait_task_status\<close> is -1, 0 or 1; the status is filled in only for 1.
  For pid 0 the loop stops at the first zombie child, and otherwise reports whether there is a child.
\<close>

definition scheduler_wait_task_status :: "int \<Rightarrow> kernel \<Rightarrow> int \<times> task_wait_status option \<times> kernel" where
  "scheduler_wait_task_status pid k =
     (if \<not> valid_pid k pid \<or> pid = int (current_task k) then (-1, None, k)
      else
        let owned = (\<exists>i\<in>set [1..<task_count k]. t_parent_pid (tasks k ! i) = int (current_task k));
            pid = (if pid = 0
                   then (case find (\<lambda>i. t_parent_pid (tasks k ! i) = int (current_task k) \<and> t_state (tasks k ! i) = TASK_ZOMBIE)
                                [1..<task_count k] of Some i \<Rightarrow> int i | None \<Rightarrow> 0)
                   else pid);
            p = nat pid
        in
        if pid = 0 then (if owned then 0 else -1, None, k)
        else if (case task_space k (tasks k ! p) of None \<Rightarrow> True | Some space \<Rightarrow> as_kind space \<noteq> ADDRESS_SPACE_USER) \<or>
                t_parent_pid (tasks k ! p) \<noteq> int (current_task k)
        then (-1, None, k)
        else if t_state (tasks k ! p) \<noteq> TASK_ZOMBIE then (0, None, k)
        else (1, Some \<lparr>ws_pid = of_nat p, ws_exit_code = us_last_exit_code (t_user_status (tasks k ! p)),
                       ws_succeeded = (if us_program_succeeded (t_user_status (tasks k ! p)) then 1 else 0)\<rparr>,
              scheduler_trim_unused_tail (scheduler_clear_task_slot p k)))"

definition scheduler_set_task_parent :: "int \<Rightarrow> int \<Rightarrow> kernel \<Rightarrow> bool \<times> kernel" where
  "scheduler_set_task_parent pid parent_pid k =
     (if pid \<le> 0 \<or> pid \<ge> int (task_count k) \<or> parent_pid \<le> 0 \<or> parent_pid \<ge> int (task_count k) \<or> pid = parent_pid
      then (False, k)
      else (True, upd_task (nat pid) (\<lambda>t. t\<lparr>t_parent_pid := parent_pid\<rparr>) k))"

definition scheduler_terminate_child :: "int \<Rightarrow> u64 \<Rightarrow> kernel \<Rightarrow> bool \<times> kernel" where
  "scheduler_terminate_child pid code k =
     (let p = nat pid in
      if pid \<le> 0 \<or> pid \<ge> int (task_count k) \<or> pid = int (current_task k) \<or>
         t_parent_pid (tasks k ! p) \<noteq> int (current_task k) \<or> t_state (tasks k ! p) = TASK_UNUSED \<or>
         t_state (tasks k ! p) = TASK_ZOMBIE
      then (False, k)
      else (True, upd_task p (\<lambda>t. set_state TASK_ZOMBIE (upd_user_status (\<lambda>u. u\<lparr>us_program_completed := True,
              us_program_succeeded := False, us_last_exit_code := code, us_failures := us_failures u + 1\<rparr>) t)) k))"

definition finish_user_task :: "nat \<Rightarrow> user_mode_status \<Rightarrow> kernel \<Rightarrow> bool \<times> kernel" where
  "finish_user_task p status k =
     (if status \<noteq> USER_MODE_READY
      then (False, upd_task p (\<lambda>t. set_state TASK_ZOMBIE (upd_user_status (\<lambda>u. u\<lparr>us_program_completed := True,
              us_program_succeeded := False, us_failures := us_failures u + 1\<rparr>) t)) k)
      else (True, upd_task p (\<lambda>t. set_state TASK_ZOMBIE (upd_user_status (\<lambda>u. u\<lparr>us_program_completed := True,
              us_program_succeeded := True, us_completions := us_completions u + 1\<rparr>) t)) k))"

definition scheduler_run_user_task ::
    "kernel_env \<Rightarrow> (nat \<Rightarrow> kernel \<Rightarrow> kernel) \<Rightarrow> int \<Rightarrow> kernel \<Rightarrow> bool \<times> kernel" where
  "scheduler_run_user_task env enter_el0 pid k =
     (let p = nat pid in
      if \<not> valid_pid k pid then (False, k)
      else if t_state (tasks k ! p) \<noteq> TASK_ELIGIBLE \<and> t_state (tasks k ! p) \<noteq> TASK_RUNNING then (False, k)
      else case user_mode_run_task env enter_el0 p k of (status, k) \<Rightarrow> finish_user_task p status k)"

definition user_task_entry :: "kernel_env \<Rightarrow> (nat \<Rightarrow> kernel \<Rightarrow> kernel) \<Rightarrow> kernel \<Rightarrow> kernel" where
  "user_task_entry env enter_el0 k = snd (scheduler_run_user_task env enter_el0 (int (current_task k)) k)"

section \<open>Switching\<close>

definition demote :: "task \<Rightarrow> task" where
  "demote t = (if t_state t = TASK_RUNNING then set_state TASK_READY t else t)"

definition scheduler_tick :: "kernel \<Rightarrow> kernel" where
  "scheduler_tick k =
     (let previous = current_task k;
          k = scheduler_wake_sleeping_tasks (k\<lparr>scheduler_ticks := scheduler_ticks k + 1\<rparr>);
          k = upd_task previous (upd_accounting (\<lambda>a. a\<lparr>ac_run_ticks := ac_run_ticks a + 1\<rparr>)) k
      in
      if user_mode_active_address_space k \<noteq> None then k
      else
        let k = upd_task (current_task k) demote k;
            k = k\<lparr>current_task := scheduler_next_runnable_task k\<rparr>;
            k = upd_task previous (upd_accounting (\<lambda>a. a\<lparr>ac_preemptions := ac_preemptions a + 1\<rparr>)) k
        in scheduler_set_running_task (current_task k) k)"

definition switch_resume_root :: "nat \<Rightarrow> kernel \<Rightarrow> kernel" where
  "switch_resume_root i k =
     (let resume_root = user_mode_task_resume_root k (tasks k ! i)
      in if resume_root \<noteq> 0 then switch_root resume_root k else k)"

definition scheduler_yield :: "kernel \<Rightarrow> kernel option" where
  "scheduler_yield k =
     (if task_count k < 2 then Some k
      else
        let previous = current_task k;
            k = scheduler_wake_sleeping_tasks k;
            next = scheduler_next_runnable_task k
        in
        if next = previous
        then (if scheduler_task_is_runnable (tasks k ! previous) then Some (upd_task previous (set_state TASK_RUNNING) k)
              else None)
        else
          let k = upd_task previous (\<lambda>t. if t_state t = TASK_RUNNING
                    then upd_accounting (\<lambda>a. a\<lparr>ac_yields := ac_yields a + 1\<rparr>) (set_state TASK_READY t) else t) k;
              k = scheduler_set_running_task next k;
              k = k\<lparr>current_task := next\<rparr>
          in Some (cpu_switch_to previous next (switch_resume_root next k)))"

text \<open>The interval comes from the timer driver; before the threads run, sleeping is a busy wait.\<close>

definition scheduler_sleep_ms :: "u64 \<Rightarrow> u64 \<Rightarrow> kernel \<Rightarrow> kernel option" where
  "scheduler_sleep_ms interval_ms ms k =
     (if \<not> threads_started k \<or> current_task k = 0 \<or> interval_ms = 0 then Some k
      else
        let sleep_ticks = (ms + interval_ms - 1) div interval_ms;
            sleep_ticks = (if sleep_ticks = 0 then 1 else sleep_ticks)
        in scheduler_yield (upd_task (current_task k) (\<lambda>t. t\<lparr>t_sleep_requested_ms := ms,
             t_sleep_until_tick := scheduler_ticks k + sleep_ticks, t_state := TASK_SLEEPING\<rparr>) k))"

definition scheduler_preempt :: "kernel \<Rightarrow> kernel" where
  "scheduler_preempt k =
     (if \<not> threads_started k \<or> task_count k < 2 then k
      else
        let k = scheduler_wake_sleeping_tasks (k\<lparr>scheduler_ticks := scheduler_ticks k + 1\<rparr>);
            previous = current_task k;
            k = upd_task previous (upd_accounting (\<lambda>a. a\<lparr>ac_run_ticks := ac_run_ticks a + 1\<rparr>)) k;
            next = scheduler_next_runnable_task k
        in
        if next = previous then k
        else
          let k = upd_task previous (\<lambda>t. upd_accounting (\<lambda>a. a\<lparr>ac_preemptions := ac_preemptions a + 1\<rparr>) (demote t)) k;
              k = scheduler_set_running_task next k;
              k = k\<lparr>current_task := next\<rparr>
          in cpu_switch_to previous next k)"

text \<open>A yield that comes back to the exited task ends in the endless loop after it.\<close>

definition orphan_children :: "nat \<Rightarrow> kernel \<Rightarrow> kernel" where
  "orphan_children task_id k =
     k\<lparr>tasks := map2 (\<lambda>i t. if 1 \<le> i \<and> i < task_count k \<and> t_parent_pid t = int task_id then t\<lparr>t_parent_pid := -1\<rparr> else t)
       [0..<length (tasks k)] (tasks k)\<rparr>"

definition scheduler_exit_task :: "nat \<Rightarrow> kernel \<Rightarrow> kernel option" where
  "scheduler_exit_task task_id k =
     (case scheduler_yield ((upd_task task_id (set_state TASK_ZOMBIE) (orphan_children task_id k))\<lparr>current_task := task_id\<rparr>) of
        None \<Rightarrow> None
      | Some k \<Rightarrow> if current_task k = task_id then None else Some k)"

definition scheduler_exit :: "kernel \<Rightarrow> kernel option" where
  "scheduler_exit k = scheduler_exit_task (current_task k) k"

definition scheduler_start_threads :: "kernel \<Rightarrow> kernel" where
  "scheduler_start_threads k =
     (let k = scheduler_set_running_task 0 (k\<lparr>threads_started := True, current_task := 0\<rparr>)
      in k\<lparr>bootstrap_context := cpu k, cpu := t_context (tasks k ! 0)\<rparr>)"

text \<open>
  The trampoline every thread starts in: the thread's entry runs (a parameter, except for user tasks),
  then the task exits.
\<close>

definition run_thread_trampoline :: "(code_label \<Rightarrow> kernel \<Rightarrow> kernel) \<Rightarrow> kernel \<Rightarrow> kernel option" where
  "run_thread_trampoline run k =
     (let task_id = current_task k;
          k = (case t_entry (tasks k ! task_id) of None \<Rightarrow> k | Some entry \<Rightarrow> run entry k)
      in scheduler_exit_task task_id k)"

section \<open>Queries\<close>

definition scheduler_current_task :: "kernel \<Rightarrow> task" where
  "scheduler_current_task k = tasks k ! current_task k"

definition scheduler_current_task_mutable :: "kernel \<Rightarrow> nat option" where
  "scheduler_current_task_mutable k = (if current_task k \<ge> task_count k then None else Some (current_task k))"

definition scheduler_task_by_pid :: "int \<Rightarrow> kernel \<Rightarrow> task option" where
  "scheduler_task_by_pid pid k =
     (if \<not> valid_pid k pid \<or> t_state (tasks k ! nat pid) = TASK_UNUSED then None else Some (tasks k ! nat pid))"

definition scheduler_get_ticks :: "kernel \<Rightarrow> u64" where
  "scheduler_get_ticks k = scheduler_ticks k"

definition scheduler_task_count :: "kernel \<Rightarrow> u64" where
  "scheduler_task_count k = of_nat (task_count k)"

end
