(* ===== verification/Syscall.thy ===== *)
theory Syscall
  imports Scheduler Pmm "HOL-Library.Monad_Syntax"
begin

text \<open>
  System calls, kernel/syscall/syscall.c: the checks of user ranges, copying from and to user memory
  through the translation in force, the per-task file descriptors over the file system, the process
  calls over the scheduler, and the dispatcher with its statistics.

  A call is a function to an option: None stands for an access to an address without translation (a
  data abort inside the kernel) and for a call that never comes back. What the other tasks do between
  a context switch and the switch back is the parameter \<open>resume\<close>.
\<close>

section \<open>State\<close>

record syscall_stats =
  st_total :: u64
  st_handled :: u64
  st_rejected :: u64
  st_write_calls :: u64
  st_exit_calls :: u64
  st_yield_calls :: u64
  st_open_calls :: u64
  st_read_calls :: u64
  st_close_calls :: u64
  st_create_calls :: u64
  st_seek_calls :: u64
  st_wait_calls :: u64
  st_spawn_calls :: u64
  st_terminate_calls :: u64
  st_sleep_calls :: u64
  st_monotonic_calls :: u64
  st_getpid_calls :: u64
  st_getppid_calls :: u64
  st_system_info_calls :: u64
  st_random_calls :: u64
  st_process_status_calls :: u64
  st_directory_list_calls :: u64
  st_mkdir_calls :: u64
  st_remove_calls :: u64
  st_rename_calls :: u64
  st_path_stat_calls :: u64
  st_truncate_calls :: u64
  st_dup_calls :: u64
  st_last_random :: u64
  st_last_monotonic_ms :: u64
  st_faults :: u64
  st_write_bytes :: u64
  st_file_write_bytes :: u64
  st_last_exit_code :: u64
  st_last_number :: u64
  st_last_arg0 :: u64
  st_last_arg1 :: u64
  st_last_arg2 :: u64
  st_last_result :: int

text \<open>
  The static variables of syscall.c with the components the calls work on; \<open>sy_console\<close> is what
  \<open>console_putc\<close> was given, \<open>sy_interval\<close> the timer's interval in milliseconds.
\<close>

record 'd system =
  sy_kernel :: kernel
  sy_vfs :: "'d vfs"
  sy_pmm :: pmm
  sy_stats :: syscall_stats
  sy_random :: u64
  sy_console :: "u8 list"
  sy_interval :: u64

record 'd system_env =
  se_kernel :: kernel_env
  se_disk :: "'d virtio_hw"

abbreviation SYSCALL_WRITE :: u64 where "SYSCALL_WRITE \<equiv> 1"
abbreviation SYSCALL_EXIT :: u64 where "SYSCALL_EXIT \<equiv> 2"
abbreviation SYSCALL_YIELD :: u64 where "SYSCALL_YIELD \<equiv> 3"
abbreviation SYSCALL_OPEN :: u64 where "SYSCALL_OPEN \<equiv> 4"
abbreviation SYSCALL_READ :: u64 where "SYSCALL_READ \<equiv> 5"
abbreviation SYSCALL_CLOSE :: u64 where "SYSCALL_CLOSE \<equiv> 6"
abbreviation SYSCALL_CREATE :: u64 where "SYSCALL_CREATE \<equiv> 7"
abbreviation SYSCALL_SEEK :: u64 where "SYSCALL_SEEK \<equiv> 8"
abbreviation SYSCALL_WAIT :: u64 where "SYSCALL_WAIT \<equiv> 9"
abbreviation SYSCALL_SPAWN :: u64 where "SYSCALL_SPAWN \<equiv> 10"
abbreviation SYSCALL_TERMINATE :: u64 where "SYSCALL_TERMINATE \<equiv> 11"
abbreviation SYSCALL_SLEEP :: u64 where "SYSCALL_SLEEP \<equiv> 12"
abbreviation SYSCALL_MONOTONIC_MS :: u64 where "SYSCALL_MONOTONIC_MS \<equiv> 13"
abbreviation SYSCALL_GETPID :: u64 where "SYSCALL_GETPID \<equiv> 14"
abbreviation SYSCALL_GETPPID :: u64 where "SYSCALL_GETPPID \<equiv> 15"
abbreviation SYSCALL_SYSTEM_INFO :: u64 where "SYSCALL_SYSTEM_INFO \<equiv> 16"
abbreviation SYSCALL_RANDOM :: u64 where "SYSCALL_RANDOM \<equiv> 17"
abbreviation SYSCALL_PROCESS_STATUS :: u64 where "SYSCALL_PROCESS_STATUS \<equiv> 18"
abbreviation SYSCALL_DIRECTORY_LIST :: u64 where "SYSCALL_DIRECTORY_LIST \<equiv> 19"
abbreviation SYSCALL_MKDIR :: u64 where "SYSCALL_MKDIR \<equiv> 20"
abbreviation SYSCALL_REMOVE :: u64 where "SYSCALL_REMOVE \<equiv> 21"
abbreviation SYSCALL_RENAME :: u64 where "SYSCALL_RENAME \<equiv> 22"
abbreviation SYSCALL_PATH_STAT :: u64 where "SYSCALL_PATH_STAT \<equiv> 23"
abbreviation SYSCALL_TRUNCATE :: u64 where "SYSCALL_TRUNCATE \<equiv> 24"
abbreviation SYSCALL_DUP :: u64 where "SYSCALL_DUP \<equiv> 25"

abbreviation SYSCALL_ERR_INVAL :: int where "SYSCALL_ERR_INVAL \<equiv> -1"
abbreviation SYSCALL_ERR_FAULT :: int where "SYSCALL_ERR_FAULT \<equiv> -2"
abbreviation SYSCALL_WRITE_MAX :: u64 where "SYSCALL_WRITE_MAX \<equiv> 128"
abbreviation SYSCALL_READ_MAX :: u64 where "SYSCALL_READ_MAX \<equiv> 128"
abbreviation SYSCALL_SLEEP_MAX_MS :: u64 where "SYSCALL_SLEEP_MAX_MS \<equiv> 60000"
abbreviation TASK_FILE_PATH_SIZE :: nat where "TASK_FILE_PATH_SIZE \<equiv> 48"

definition upd_stats :: "(syscall_stats \<Rightarrow> syscall_stats) \<Rightarrow> 'd system \<Rightarrow> 'd system" where
  "upd_stats f s = s\<lparr>sy_stats := f (sy_stats s)\<rparr>"

definition count_fault :: "'d system \<Rightarrow> (int \<times> 'd system) option" where
  "count_fault s = Some (SYSCALL_ERR_FAULT, upd_stats (\<lambda>t. t\<lparr>st_faults := st_faults t + 1\<rparr>) s)"

section \<open>User memory\<close>

text \<open>
  The byte behind a virtual address under the translation root in force: the page of the array of
  user pages and the offset in it.
\<close>

definition user_byte :: "as_env \<Rightarrow> kernel \<Rightarrow> u64 \<Rightarrow> (nat \<times> nat) option" where
  "user_byte env k va =
     (case mmu_walk (as_read env (user_tables_of k)) (ttbr0_el1 (mmu k)) va of
        None \<Rightarrow> None
      | Some (pa, _) \<Rightarrow>
          if in_array (page_base env) 12 pa
          then Some ((unat pa - unat (page_base env)) div 4096, (unat pa - unat (page_base env)) mod 4096)
          else None)"

definition load_byte :: "as_env \<Rightarrow> kernel \<Rightarrow> u64 \<Rightarrow> u8 option" where
  "load_byte env k va = map_option (\<lambda>(p, o'). ut_pages (user_tables_of k) ! p ! o') (user_byte env k va)"

definition store_byte :: "as_env \<Rightarrow> u64 \<Rightarrow> u8 \<Rightarrow> kernel \<Rightarrow> kernel option" where
  "store_byte env va b k =
     map_option (\<lambda>(p, o').
       k\<lparr>user_tables_of := (user_tables_of k)\<lparr>ut_pages :=
          (ut_pages (user_tables_of k))[p := (ut_pages (user_tables_of k) ! p)[o' := b]]\<rparr>\<rparr>) (user_byte env k va)"

fun load_bytes :: "as_env \<Rightarrow> kernel \<Rightarrow> u64 \<Rightarrow> nat \<Rightarrow> u8 list option" where
  "load_bytes env k va 0 = Some []"
| "load_bytes env k va (Suc n) = do { b \<leftarrow> load_byte env k va; bs \<leftarrow> load_bytes env k (va + 1) n; Some (b # bs) }"

fun store_bytes :: "as_env \<Rightarrow> u64 \<Rightarrow> u8 list \<Rightarrow> kernel \<Rightarrow> kernel option" where
  "store_bytes env va [] k = Some k"
| "store_bytes env va (b # bs) k = do { k \<leftarrow> store_byte env va b k; store_bytes env (va + 1) bs k }"

text \<open>Copying a path, which stops at a null byte: whether there was none, and what was copied.\<close>

fun copy_path :: "as_env \<Rightarrow> kernel \<Rightarrow> u64 \<Rightarrow> nat \<Rightarrow> (bool \<times> cstring) option" where
  "copy_path env k va 0 = Some (True, [])"
| "copy_path env k va (Suc n) =
     do { b \<leftarrow> load_byte env k va;
          if b = 0 then Some (False, [])
          else do { (ok, bs) \<leftarrow> copy_path env k (va + 1) n; Some (ok, b # bs) } }"

abbreviation memory_env :: "'d system_env \<Rightarrow> as_env" where
  "memory_env env \<equiv> arrays (se_kernel env)"

definition put_user :: "'d system_env \<Rightarrow> u64 \<Rightarrow> u8 list \<Rightarrow> 'd system \<Rightarrow> 'd system option" where
  "put_user env va bs s = map_option (\<lambda>k. s\<lparr>sy_kernel := k\<rparr>) (store_bytes (memory_env env) va bs (sy_kernel s))"

definition syscall_address_space :: "kernel \<Rightarrow> address_space option" where
  "syscall_address_space k =
     (case user_mode_active_address_space k of
        Some space \<Rightarrow> Some space
      | None \<Rightarrow>
          (case task_space k (scheduler_current_task k) of
             Some space \<Rightarrow> if as_kind space = ADDRESS_SPACE_USER then Some space else None
           | None \<Rightarrow> None))"

definition readable :: "'d system \<Rightarrow> u64 \<Rightarrow> u64 \<Rightarrow> bool" where
  "readable s address sz =
     (case syscall_address_space (sy_kernel s) of
        None \<Rightarrow> False | Some space \<Rightarrow> address_space_user_range_valid space address sz)"

definition writable :: "'d system \<Rightarrow> u64 \<Rightarrow> u64 \<Rightarrow> bool" where
  "writable s address sz =
     (case syscall_address_space (sy_kernel s) of
        None \<Rightarrow> False | Some space \<Rightarrow> address_space_user_writable_range_valid space address sz)"

section \<open>Giving up the processor\<close>

definition with_kernel :: "kernel \<Rightarrow> 'd system \<Rightarrow> 'd system" where
  "with_kernel k s = s\<lparr>sy_kernel := k\<rparr>"

text \<open>A scheduler call that may switch away, up to the point where this task runs again.\<close>

definition switched :: "('d system \<Rightarrow> 'd system) \<Rightarrow> (kernel \<Rightarrow> kernel option) \<Rightarrow> 'd system \<Rightarrow> 'd system option" where
  "switched resume f s =
     map_option (\<lambda>k. if current_task k = current_task (sy_kernel s) then with_kernel k s else resume (with_kernel k s))
       (f (sy_kernel s))"

definition restore_return :: "u64 \<Rightarrow> u64 \<Rightarrow> kernel \<Rightarrow> kernel" where
  "restore_return elr spsr k =
     (case user_mode_active_address_space k of
        Some space \<Rightarrow> switch_root (as_target_root_table space) k | None \<Rightarrow> k)\<lparr>elr_el1 := elr, spsr_el1 := spsr\<rparr>"

definition syscall_scheduler_yield :: "('d system \<Rightarrow> 'd system) \<Rightarrow> 'd system \<Rightarrow> 'd system option" where
  "syscall_scheduler_yield resume s =
     (if user_mode_active_address_space (sy_kernel s) = None then switched resume scheduler_yield s
      else do { s' \<leftarrow> switched resume scheduler_yield s;
                Some (with_kernel (restore_return (elr_el1 (sy_kernel s)) (spsr_el1 (sy_kernel s)) (sy_kernel s')) s') })"

definition syscall_sleep :: "('d system \<Rightarrow> 'd system) \<Rightarrow> u64 \<Rightarrow> 'd system \<Rightarrow> (int \<times> 'd system) option" where
  "syscall_sleep resume milliseconds s =
     (if milliseconds = 0 \<or> milliseconds > SYSCALL_SLEEP_MAX_MS then Some (SYSCALL_ERR_INVAL, s)
      else do { s' \<leftarrow> switched resume (scheduler_sleep_ms (sy_interval s) milliseconds) s;
                Some (0, with_kernel (restore_return (elr_el1 (sy_kernel s)) (spsr_el1 (sy_kernel s)) (sy_kernel s')) s') })"

section \<open>Information\<close>

definition words_bytes :: "u64 list \<Rightarrow> u8 list" where
  "words_bytes ws = concat (map le64 ws)"

definition syscall_system_info :: "'d system_env \<Rightarrow> u64 \<Rightarrow> 'd system \<Rightarrow> (int \<times> 'd system) option" where
  "syscall_system_info env address s =
     (if \<not> writable s address 72 then count_fault s
      else do { s \<leftarrow> put_user env address
                       (words_bytes [0, 6, 95, 4096, pmm_total_pages, pmm_free_pages (sy_pmm s),
                          scheduler_get_ticks (sy_kernel s), scheduler_task_count (sy_kernel s), of_nat SCHED_MAX_TASKS]) s;
                Some (0, s) })"

definition syscall_random :: "'d system \<Rightarrow> int \<times> 'd system" where
  "syscall_random s =
     (let value = sy_random s XOR (scheduler_get_ticks (sy_kernel s) + c_ulong (t_pid (scheduler_current_task (sy_kernel s))));
          value = value XOR push_bit 13 value;
          value = value XOR drop_bit 17 value;
          value = value XOR push_bit 5 value
      in (sint (value AND 0x7fffffff), s\<lparr>sy_random := value\<rparr>))"

definition task_state_code :: "task_state \<Rightarrow> u64" where
  "task_state_code st =
     (case st of TASK_UNUSED \<Rightarrow> 0 | TASK_READY \<Rightarrow> 1 | TASK_RUNNING \<Rightarrow> 2 | TASK_BLOCKED \<Rightarrow> 3 | TASK_SLEEPING \<Rightarrow> 4
      | TASK_ELIGIBLE \<Rightarrow> 5 | TASK_ZOMBIE \<Rightarrow> 6)"

definition process_status_words :: "task \<Rightarrow> u64 list" where
  "process_status_words t =
     [c_ulong (t_pid t), if t_parent_pid t > 0 then c_ulong (t_parent_pid t) else 0, task_state_code (t_state t),
      ac_switches (t_accounting t), ac_run_ticks (t_accounting t), ac_yields (t_accounting t),
      ac_preemptions (t_accounting t), us_last_exit_code (t_user_status t),
      if us_program_succeeded (t_user_status t) then 1 else 0]"

definition syscall_process_status :: "'d system_env \<Rightarrow> u64 \<Rightarrow> u64 \<Rightarrow> 'd system \<Rightarrow> (int \<times> 'd system) option" where
  "syscall_process_status env pid address s =
     (let caller = scheduler_current_task (sy_kernel s) in
      if \<not> writable s address 72 then count_fault s
      else if pid \<ge> of_nat SCHED_MAX_TASKS then Some (SYSCALL_ERR_INVAL, s)
      else
        case scheduler_task_by_pid (if pid \<noteq> 0 then c_int pid else t_pid caller) (sy_kernel s) of
          None \<Rightarrow> Some (SYSCALL_ERR_INVAL, s)
        | Some target \<Rightarrow>
            if t_pid target \<noteq> t_pid caller \<and> t_parent_pid target \<noteq> t_pid caller then Some (SYSCALL_ERR_INVAL, s)
            else do { s \<leftarrow> put_user env address (words_bytes (process_status_words target)) s; Some (0, s) })"

section \<open>Paths\<close>

definition entry_bytes :: "vfs_entry \<Rightarrow> u8 list" where
  "entry_bytes e = ve_path e @ words_bytes [ve_size e, case ve_kind e of VFS_ENTRY_FILE \<Rightarrow> 1 | VFS_ENTRY_DIRECTORY \<Rightarrow> 2]"

definition syscall_directory_list :: "'d system_env \<Rightarrow> u64 \<Rightarrow> u64 \<Rightarrow> 'd system \<Rightarrow> (int \<times> 'd system) option" where
  "syscall_directory_list env index address s =
     (if \<not> writable s address 64 then count_fault s
      else
        case vfs_list index (sy_vfs s) of
          None \<Rightarrow> Some (0, s)
        | Some entry \<Rightarrow> do { s \<leftarrow> put_user env address (entry_bytes entry) s; Some (1, s) })"

text \<open>
  What the calls on one path have in common: the length is checked, then the range, then the path is
  copied to the stack; the operation runs on the copy.
\<close>

definition with_path ::
    "'d system_env \<Rightarrow> u64 \<Rightarrow> u64 \<Rightarrow> (cstring \<Rightarrow> 'd system \<Rightarrow> (int \<times> 'd system) option) \<Rightarrow> 'd system \<Rightarrow>
     (int \<times> 'd system) option" where
  "with_path env path_address path_length f s =
     do { (ok, path) \<leftarrow> copy_path (memory_env env) (sy_kernel s) path_address (unat path_length);
          if ok then f path s else Some (SYSCALL_ERR_INVAL, s) }"

definition bad_path_length :: "u64 \<Rightarrow> bool" where
  "bad_path_length path_length \<longleftrightarrow> path_length = 0 \<or> path_length \<ge> of_nat VFS_MAX_PATH"

definition vfs_result :: "(bool \<times> 'd vfs) \<Rightarrow> 'd system \<Rightarrow> (int \<times> 'd system) option" where
  "vfs_result r s = (case r of (ok, v) \<Rightarrow> Some (if ok then 0 else SYSCALL_ERR_INVAL, s\<lparr>sy_vfs := v\<rparr>))"

definition syscall_mkdir :: "'d system_env \<Rightarrow> u64 \<Rightarrow> u64 \<Rightarrow> 'd system \<Rightarrow> (int \<times> 'd system) option" where
  "syscall_mkdir env path_address path_length s =
     (if bad_path_length path_length then Some (SYSCALL_ERR_INVAL, s)
      else if \<not> readable s path_address path_length then count_fault s
      else with_path env path_address path_length (\<lambda>path s. vfs_result (vfs_mkdir path (sy_vfs s)) s) s)"

definition syscall_remove :: "'d system_env \<Rightarrow> u64 \<Rightarrow> u64 \<Rightarrow> 'd system \<Rightarrow> (int \<times> 'd system) option" where
  "syscall_remove env path_address path_length s =
     (if bad_path_length path_length then Some (SYSCALL_ERR_INVAL, s)
      else if \<not> readable s path_address path_length then count_fault s
      else with_path env path_address path_length (\<lambda>path s. vfs_result (vfs_remove path (sy_vfs s)) s) s)"

definition syscall_rename ::
    "'d system_env \<Rightarrow> u64 \<Rightarrow> u64 \<Rightarrow> u64 \<Rightarrow> u64 \<Rightarrow> 'd system \<Rightarrow> (int \<times> 'd system) option" where
  "syscall_rename env old_address old_length new_address new_length s =
     (if bad_path_length old_length \<or> bad_path_length new_length then Some (SYSCALL_ERR_INVAL, s)
      else if \<not> readable s old_address old_length \<or> \<not> readable s new_address new_length then count_fault s
      else with_path env old_address old_length (\<lambda>old_path s.
             with_path env new_address new_length (\<lambda>new_path s. vfs_result (vfs_rename old_path new_path (sy_vfs s)) s) s) s)"

definition syscall_path_stat ::
    "'d system_env \<Rightarrow> u64 \<Rightarrow> u64 \<Rightarrow> u64 \<Rightarrow> 'd system \<Rightarrow> (int \<times> 'd system) option" where
  "syscall_path_stat env path_address path_length output_address s =
     (if bad_path_length path_length then Some (SYSCALL_ERR_INVAL, s)
      else if \<not> readable s path_address path_length \<or> \<not> writable s output_address 64 then count_fault s
      else with_path env path_address path_length (\<lambda>path s.
             case vfs_stat (se_disk env) path (sy_vfs s) of
               (None, v) \<Rightarrow> Some (SYSCALL_ERR_INVAL, s\<lparr>sy_vfs := v\<rparr>)
             | (Some entry, v) \<Rightarrow> do { s \<leftarrow> put_user env output_address (entry_bytes entry) (s\<lparr>sy_vfs := v\<rparr>); Some (0, s) }) s)"

definition syscall_truncate ::
    "'d system_env \<Rightarrow> u64 \<Rightarrow> u64 \<Rightarrow> u64 \<Rightarrow> 'd system \<Rightarrow> (int \<times> 'd system) option" where
  "syscall_truncate env path_address path_length sz s =
     (if bad_path_length path_length \<or> sz > VFS_MAX_FILE_SIZE then Some (SYSCALL_ERR_INVAL, s)
      else if \<not> readable s path_address path_length then count_fault s
      else with_path env path_address path_length (\<lambda>path s. vfs_result (vfs_truncate (se_disk env) path sz (sy_vfs s)) s) s)"

section \<open>File descriptors\<close>

definition upd_file :: "nat \<Rightarrow> nat \<Rightarrow> (task_file \<Rightarrow> task_file) \<Rightarrow> 'd system \<Rightarrow> 'd system" where
  "upd_file i slot f s =
     s\<lparr>sy_kernel := upd_task i (\<lambda>t. t\<lparr>t_files := (t_files t)[slot := f (t_files t ! slot)]\<rparr>) (sy_kernel s)\<rparr>"

definition task_files :: "nat \<Rightarrow> 'd system \<Rightarrow> task_file list" where
  "task_files i s = t_files (tasks (sy_kernel s) ! i)"

text \<open>The task and the slot a descriptor names; None where the source checks the task and the bounds.\<close>

definition fd_slot :: "u64 \<Rightarrow> 'd system \<Rightarrow> (nat \<times> nat) option" where
  "fd_slot fd s =
     (case scheduler_current_task_mutable (sy_kernel s) of
        None \<Rightarrow> None
      | Some i \<Rightarrow> if fd < 3 \<or> fd \<ge> 3 + of_nat TASK_MAX_FILES then None else Some (i, unat (fd - 3)))"

definition syscall_dup :: "u64 \<Rightarrow> 'd system \<Rightarrow> int \<times> 'd system" where
  "syscall_dup fd s =
     (case fd_slot fd s of
        None \<Rightarrow> (SYSCALL_ERR_INVAL, s)
      | Some (i, source) \<Rightarrow>
          if \<not> tf_used (task_files i s ! source) then (SYSCALL_ERR_INVAL, s)
          else case find_slot (\<lambda>f. \<not> tf_used f) (task_files i s) of
                 None \<Rightarrow> (SYSCALL_ERR_INVAL, s)
               | Some target \<Rightarrow> (3 + int target, upd_file i target (\<lambda>_. task_files i s ! source) s))"

text \<open>
  Whether \<open>vfs_write\<close> gets as far as copying from the caller's buffer; before that point an invalid
  buffer goes unnoticed.
\<close>

definition vfs_write_copies :: "'d virtio_hw \<Rightarrow> cstring \<Rightarrow> u64 \<Rightarrow> u64 \<Rightarrow> 'd vfs \<Rightarrow> bool" where
  "vfs_write_copies hw path offset sz v \<longleftrightarrow>
     (case vfs_disk_path path of
        Some disk_path \<Rightarrow>
          \<not> (sz = 0 \<or> offset > SFS_MAX_FILE_SIZE \<or> sz > SFS_MAX_FILE_SIZE - offset) \<and>
          fst (sfs_into_buffer hw disk_path v) \<noteq> None
      | None \<Rightarrow>
          (case vfs_find path v of
             None \<Rightarrow> False
           | Some i \<Rightarrow> \<not> (rn_kind (nodes v ! i) \<noteq> RAMFS_FILE \<or> offset > VFS_MAX_FILE_SIZE \<or> sz > VFS_MAX_FILE_SIZE - offset)))"

definition write_file ::
    "'d system_env \<Rightarrow> nat \<Rightarrow> nat \<Rightarrow> u64 \<Rightarrow> u64 \<Rightarrow> 'd system \<Rightarrow> (int \<times> 'd system) option" where
  "write_file env i slot buffer length' s =
     (let f = task_files i s ! slot in
      do { bytes \<leftarrow> (if vfs_write_copies (se_disk env) (cstr (tf_path f)) (tf_offset f) length' (sy_vfs s)
                     then load_bytes (memory_env env) (sy_kernel s) buffer (unat length') else Some []);
           case vfs_write (se_disk env) (cstr (tf_path f)) (tf_offset f) bytes length' (sy_vfs s) of
             (result, v) \<Rightarrow>
               let s = s\<lparr>sy_vfs := v\<rparr>;
                   s = (if result > 0
                        then upd_stats (\<lambda>t. t\<lparr>st_file_write_bytes := st_file_write_bytes t + c_ulong result\<rparr>)
                               (upd_file i slot (\<lambda>f. f\<lparr>tf_offset := tf_offset f + c_ulong result\<rparr>) s)
                        else s)
               in Some (if result < 0 then SYSCALL_ERR_INVAL else result, s) })"

definition syscall_write :: "'d system_env \<Rightarrow> u64 \<Rightarrow> u64 \<Rightarrow> u64 \<Rightarrow> 'd system \<Rightarrow> (int \<times> 'd system) option" where
  "syscall_write env fd buffer length' s =
     (if length' = 0 then Some (0, s)
      else if length' > SYSCALL_WRITE_MAX then Some (SYSCALL_ERR_INVAL, s)
      else if \<not> readable s buffer length' then count_fault s
      else if fd = 1 \<or> fd = 2
      then do { bytes \<leftarrow> load_bytes (memory_env env) (sy_kernel s) buffer (unat length');
                Some (uint length', upd_stats (\<lambda>t. t\<lparr>st_write_bytes := st_write_bytes t + length'\<rparr>)
                        (s\<lparr>sy_console := sy_console s @ bytes\<rparr>)) }
      else
        case fd_slot fd s of
          None \<Rightarrow> Some (SYSCALL_ERR_INVAL, s)
        | Some (i, slot) \<Rightarrow>
            if \<not> tf_used (task_files i s ! slot) then Some (SYSCALL_ERR_INVAL, s)
            else write_file env i slot buffer length' s)"

text \<open>
  Opening: \<open>open_prepare\<close> resolves the path already copied into the descriptor, creating or emptying
  the file on request.
\<close>

definition open_prepare :: "'d system_env \<Rightarrow> cstring \<Rightarrow> bool \<Rightarrow> 'd vfs \<Rightarrow> bool \<times> 'd vfs" where
  "open_prepare env path create v =
     (let (ok, v) =
        (if create
         then (case vfs_create (se_disk env) path [] 0 v of
                 (True, v) \<Rightarrow> (True, v)
               | (False, v) \<Rightarrow> vfs_truncate (se_disk env) path 0 v)
         else (True, v))
      in if \<not> ok then (False, v)
         else case vfs_file_data (se_disk env) path v of (data, v) \<Rightarrow> (data \<noteq> None, v))"

definition syscall_open :: "'d system_env \<Rightarrow> u64 \<Rightarrow> u64 \<Rightarrow> bool \<Rightarrow> 'd system \<Rightarrow> (int \<times> 'd system) option" where
  "syscall_open env path_address path_length create s =
     (case scheduler_current_task_mutable (sy_kernel s) of
        None \<Rightarrow> count_fault s
      | Some i \<Rightarrow>
          if path_length = 0 \<or> path_length \<ge> of_nat TASK_FILE_PATH_SIZE \<or> \<not> readable s path_address path_length
          then count_fault s
          else
            case find_slot (\<lambda>f. \<not> tf_used f) (task_files i s) of
              None \<Rightarrow> Some (SYSCALL_ERR_INVAL, s)
            | Some slot \<Rightarrow>
                do { (whole, path) \<leftarrow> copy_path (memory_env env) (sy_kernel s) path_address (unat path_length);
                     if \<not> whole
                     then Some (SYSCALL_ERR_INVAL, upd_file i slot (\<lambda>f. f\<lparr>tf_path := splice (tf_path f) 0 path\<rparr>) s)
                     else
                       let s = upd_file i slot (\<lambda>f. f\<lparr>tf_path := set_cstr (tf_path f) path\<rparr>) s;
                           (ok, v) = open_prepare env path create (sy_vfs s);
                           s = s\<lparr>sy_vfs := v\<rparr>
                       in if ok then Some (3 + int slot, upd_file i slot (\<lambda>f. f\<lparr>tf_used := True, tf_offset := 0\<rparr>) s)
                          else Some (SYSCALL_ERR_INVAL, upd_file i slot (\<lambda>f. f\<lparr>tf_path := (tf_path f)[0 := 0]\<rparr>) s) })"

definition syscall_read :: "'d system_env \<Rightarrow> u64 \<Rightarrow> u64 \<Rightarrow> u64 \<Rightarrow> 'd system \<Rightarrow> (int \<times> 'd system) option" where
  "syscall_read env fd buffer length' s =
     (case fd_slot fd s of
        None \<Rightarrow> Some (SYSCALL_ERR_INVAL, s)
      | Some (i, slot) \<Rightarrow>
          if length' > SYSCALL_READ_MAX then Some (SYSCALL_ERR_INVAL, s)
          else if length' = 0 then Some (0, s)
          else if \<not> writable s buffer length' then count_fault s
          else if \<not> tf_used (task_files i s ! slot) then Some (SYSCALL_ERR_INVAL, s)
          else
            let f = task_files i s ! slot in
            case vfs_read (se_disk env) (cstr (tf_path f)) (tf_offset f) length' (sy_vfs s) of
              (None, v) \<Rightarrow> Some (SYSCALL_ERR_INVAL, s\<lparr>sy_vfs := v\<rparr>)
            | (Some bytes, v) \<Rightarrow>
                do { s \<leftarrow> put_user env buffer bytes (s\<lparr>sy_vfs := v\<rparr>);
                     Some (int (length bytes),
                       if bytes \<noteq> [] then upd_file i slot (\<lambda>f. f\<lparr>tf_offset := tf_offset f + of_nat (length bytes)\<rparr>) s else s) })"

definition syscall_close :: "u64 \<Rightarrow> 'd system \<Rightarrow> int \<times> 'd system" where
  "syscall_close fd s =
     (case fd_slot fd s of
        None \<Rightarrow> (SYSCALL_ERR_INVAL, s)
      | Some (i, slot) \<Rightarrow>
          if \<not> tf_used (task_files i s ! slot) then (SYSCALL_ERR_INVAL, s)
          else (0, upd_file i slot clear_file s))"

definition syscall_seek :: "'d system_env \<Rightarrow> u64 \<Rightarrow> u64 \<Rightarrow> 'd system \<Rightarrow> int \<times> 'd system" where
  "syscall_seek env fd offset s =
     (case fd_slot fd s of
        None \<Rightarrow> (SYSCALL_ERR_INVAL, s)
      | Some (i, slot) \<Rightarrow>
          if \<not> tf_used (task_files i s ! slot) then (SYSCALL_ERR_INVAL, s)
          else
            case vfs_file_data (se_disk env) (cstr (tf_path (task_files i s ! slot))) (sy_vfs s) of
              (None, v) \<Rightarrow> (SYSCALL_ERR_INVAL, s\<lparr>sy_vfs := v\<rparr>)
            | (Some (_, file_size), v) \<Rightarrow>
                if offset > file_size then (SYSCALL_ERR_INVAL, s\<lparr>sy_vfs := v\<rparr>)
                else (sint offset, upd_file i slot (\<lambda>f. f\<lparr>tf_offset := offset\<rparr>) (s\<lparr>sy_vfs := v\<rparr>)))"

section \<open>Processes\<close>

definition wait_status_bytes :: "task_wait_status \<Rightarrow> u8 list" where
  "wait_status_bytes w = words_bytes [ws_pid w, ws_exit_code w, ws_succeeded w]"

text \<open>
  One round of the loop of \<open>syscall_wait\<close>: whether to go round again, the result and the state.
  The status is written before the slot of the child is cleared.
\<close>

definition wait_round ::
    "'d system_env \<Rightarrow> ('d system \<Rightarrow> 'd system) \<Rightarrow> u64 \<Rightarrow> u64 \<Rightarrow> u64 \<Rightarrow> 'd system \<Rightarrow> (bool \<times> int \<times> 'd system) option" where
  "wait_round env resume pid status_address options s =
     (let (result, status, _) = scheduler_wait_task_status (c_int pid) (sy_kernel s) in
      do { s \<leftarrow> (case status of None \<Rightarrow> Some s | Some w \<Rightarrow> put_user env status_address (wait_status_bytes w) s);
           let s = with_kernel (snd (snd (scheduler_wait_task_status (c_int pid) (sy_kernel s)))) s;
           if result = 0 \<and> options AND 1 = 0
           then do { s \<leftarrow> syscall_scheduler_yield resume s; Some (True, result, s) }
           else Some (False, result, s) })"

partial_function (option) wait_loop ::
    "('d system \<Rightarrow> (bool \<times> int \<times> 'd system) option) \<Rightarrow> 'd system \<Rightarrow> (int \<times> 'd system) option" where
  "wait_loop round s = do { (again, result, s) \<leftarrow> round s; if again then wait_loop round s else Some (result, s) }"

definition syscall_wait ::
    "'d system_env \<Rightarrow> ('d system \<Rightarrow> 'd system) \<Rightarrow> u64 \<Rightarrow> u64 \<Rightarrow> u64 \<Rightarrow> 'd system \<Rightarrow> (int \<times> 'd system) option" where
  "syscall_wait env resume pid status_address options s =
     (if options AND NOT 1 \<noteq> 0 then Some (SYSCALL_ERR_INVAL, s)
      else if \<not> writable s status_address 24 then count_fault s
      else wait_loop (wait_round env resume pid status_address options) s)"

text \<open>After the arguments have been copied: creating the child, making it a child and admitting it.\<close>

definition spawn_child :: "'d system_env \<Rightarrow> cstring \<Rightarrow> cstring option \<Rightarrow> 'd system \<Rightarrow> int \<times> 'd system" where
  "spawn_child env path argument s =
     (case scheduler_create_user_task_from_image (se_disk env) (se_kernel env) (Some ''user-child'') path argument
             (sy_vfs s) (sy_kernel s) of
        (pid, v, k) \<Rightarrow>
          let s = s\<lparr>sy_vfs := v, sy_kernel := k\<rparr> in
          case (pid, scheduler_current_task_mutable k) of
            (Some pid, Some parent) \<Rightarrow>
              (case scheduler_set_task_parent (int pid) (t_pid (tasks k ! parent)) k of
                 (False, k) \<Rightarrow> (SYSCALL_ERR_INVAL, with_kernel k s)
               | (True, k) \<Rightarrow>
                   (case scheduler_unblock_user_task (se_kernel env) (int pid) k of
                      (ok, k) \<Rightarrow> (if ok then int pid else SYSCALL_ERR_INVAL, with_kernel k s)))
          | _ \<Rightarrow> (SYSCALL_ERR_INVAL, s))"

definition syscall_spawn ::
    "'d system_env \<Rightarrow> u64 \<Rightarrow> u64 \<Rightarrow> u64 \<Rightarrow> u64 \<Rightarrow> 'd system \<Rightarrow> (int \<times> 'd system) option" where
  "syscall_spawn env path_address path_length argument_address argument_length s =
     (if path_length = 0 \<or> path_length \<ge> of_nat TASK_FILE_PATH_SIZE \<or> \<not> readable s path_address path_length
      then count_fault s
      else with_path env path_address path_length (\<lambda>path s.
        if argument_length > of_nat TASK_USER_ARGUMENT_MAX \<or>
           argument_length \<noteq> 0 \<and> \<not> readable s argument_address argument_length
        then count_fault s
        else do { argument \<leftarrow> load_bytes (memory_env env) (sy_kernel s) argument_address (unat argument_length);
                  Some (spawn_child env path (if argument_length \<noteq> 0 then Some (cstr argument) else None) s) }) s)"

section \<open>Dispatch\<close>

definition syscall_name :: "u64 \<Rightarrow> string" where
  "syscall_name number =
     (if number \<ge> 1 \<and> number \<le> 25
      then [''write'', ''exit'', ''yield'', ''open'', ''read'', ''close'', ''create'', ''seek'', ''wait'', ''spawn'',
            ''terminate'', ''sleep'', ''monotonic_ms'', ''getpid'', ''getppid'', ''system_info'', ''random'',
            ''process_status'', ''directory_list'', ''mkdir'', ''remove'', ''rename'', ''path_stat'', ''truncate'',
            ''dup''] ! (unat number - 1)
      else ''unknown'')"

definition count_result :: "int \<Rightarrow> 'd system \<Rightarrow> 'd system" where
  "count_result result s =
     upd_stats (\<lambda>t. if result < 0 then t\<lparr>st_rejected := st_rejected t + 1\<rparr> else t\<lparr>st_handled := st_handled t + 1\<rparr>) s"

definition counted :: "(syscall_stats \<Rightarrow> syscall_stats) \<Rightarrow> ('d system \<Rightarrow> (int \<times> 'd system) option) \<Rightarrow> 'd system \<Rightarrow>
    (int \<times> 'd system) option" where
  "counted f call s = call (upd_stats f s)"

definition syscall_case ::
    "'d system_env \<Rightarrow> ('d system \<Rightarrow> 'd system) \<Rightarrow> u64 \<Rightarrow> u64 \<Rightarrow> u64 \<Rightarrow> u64 \<Rightarrow> u64 \<Rightarrow> 'd system \<Rightarrow> (int \<times> 'd system) option" where
  "syscall_case env resume number a0 a1 a2 a3 =
     (if number = SYSCALL_WRITE then counted (\<lambda>t. t\<lparr>st_write_calls := st_write_calls t + 1\<rparr>) (\<lambda>s.
        do { (result, s) \<leftarrow> syscall_write env a0 a1 a2 s; Some (result, count_result result s) })
      else if number = SYSCALL_EXIT then counted (\<lambda>t. t\<lparr>st_exit_calls := st_exit_calls t + 1, st_handled := st_handled t + 1,
          st_last_exit_code := a0\<rparr>) (\<lambda>s.
        Some (0, with_kernel (snd (user_mode_handle_exit_syscall a0 (sy_kernel s))) s))
      else if number = SYSCALL_YIELD then counted (\<lambda>t. t\<lparr>st_yield_calls := st_yield_calls t + 1, st_handled := st_handled t + 1\<rparr>) (\<lambda>s.
        do { s \<leftarrow> syscall_scheduler_yield resume s; Some (0, s) })
      else if number = SYSCALL_OPEN then counted (\<lambda>t. t\<lparr>st_open_calls := st_open_calls t + 1\<rparr>) (syscall_open env a0 a1 False)
      else if number = SYSCALL_READ then counted (\<lambda>t. t\<lparr>st_read_calls := st_read_calls t + 1\<rparr>) (syscall_read env a0 a1 a2)
      else if number = SYSCALL_CLOSE then counted (\<lambda>t. t\<lparr>st_close_calls := st_close_calls t + 1\<rparr>) (\<lambda>s. Some (syscall_close a0 s))
      else if number = SYSCALL_CREATE then counted (\<lambda>t. t\<lparr>st_create_calls := st_create_calls t + 1\<rparr>) (syscall_open env a0 a1 True)
      else if number = SYSCALL_SEEK then counted (\<lambda>t. t\<lparr>st_seek_calls := st_seek_calls t + 1\<rparr>) (\<lambda>s. Some (syscall_seek env a0 a1 s))
      else if number = SYSCALL_WAIT then counted (\<lambda>t. t\<lparr>st_wait_calls := st_wait_calls t + 1\<rparr>) (syscall_wait env resume a0 a1 a2)
      else if number = SYSCALL_SPAWN then counted (\<lambda>t. t\<lparr>st_spawn_calls := st_spawn_calls t + 1\<rparr>) (syscall_spawn env a0 a1 a2 a3)
      else if number = SYSCALL_TERMINATE then counted (\<lambda>t. t\<lparr>st_terminate_calls := st_terminate_calls t + 1\<rparr>) (\<lambda>s.
        case scheduler_terminate_child (c_int a0) a1 (sy_kernel s) of
          (ok, k) \<Rightarrow> Some (if ok then 0 else SYSCALL_ERR_INVAL, with_kernel k s))
      else if number = SYSCALL_SLEEP then counted (\<lambda>t. t\<lparr>st_sleep_calls := st_sleep_calls t + 1\<rparr>) (syscall_sleep resume a0)
      else if number = SYSCALL_MONOTONIC_MS then counted (\<lambda>t. t\<lparr>st_monotonic_calls := st_monotonic_calls t + 1\<rparr>) (\<lambda>s.
        let ms = scheduler_get_ticks (sy_kernel s) * sy_interval s
        in Some (sint ms, upd_stats (\<lambda>t. t\<lparr>st_last_monotonic_ms := ms\<rparr>) s))
      else if number = SYSCALL_GETPID then counted (\<lambda>t. t\<lparr>st_getpid_calls := st_getpid_calls t + 1\<rparr>) (\<lambda>s.
        Some (t_pid (scheduler_current_task (sy_kernel s)), s))
      else if number = SYSCALL_GETPPID then counted (\<lambda>t. t\<lparr>st_getppid_calls := st_getppid_calls t + 1\<rparr>) (\<lambda>s.
        let parent = t_parent_pid (scheduler_current_task (sy_kernel s)) in Some (if parent > 0 then parent else 0, s))
      else if number = SYSCALL_SYSTEM_INFO then counted (\<lambda>t. t\<lparr>st_system_info_calls := st_system_info_calls t + 1\<rparr>) (syscall_system_info env a0)
      else if number = SYSCALL_RANDOM then counted (\<lambda>t. t\<lparr>st_random_calls := st_random_calls t + 1\<rparr>) (\<lambda>s.
        case syscall_random s of (result, s) \<Rightarrow> Some (result, upd_stats (\<lambda>t. t\<lparr>st_last_random := c_ulong result\<rparr>) s))
      else if number = SYSCALL_PROCESS_STATUS then counted (\<lambda>t. t\<lparr>st_process_status_calls := st_process_status_calls t + 1\<rparr>)
        (syscall_process_status env a0 a1)
      else if number = SYSCALL_DIRECTORY_LIST then counted (\<lambda>t. t\<lparr>st_directory_list_calls := st_directory_list_calls t + 1\<rparr>)
        (syscall_directory_list env a0 a1)
      else if number = SYSCALL_MKDIR then counted (\<lambda>t. t\<lparr>st_mkdir_calls := st_mkdir_calls t + 1\<rparr>) (syscall_mkdir env a0 a1)
      else if number = SYSCALL_REMOVE then counted (\<lambda>t. t\<lparr>st_remove_calls := st_remove_calls t + 1\<rparr>) (syscall_remove env a0 a1)
      else if number = SYSCALL_RENAME then counted (\<lambda>t. t\<lparr>st_rename_calls := st_rename_calls t + 1\<rparr>) (syscall_rename env a0 a1 a2 a3)
      else if number = SYSCALL_PATH_STAT then counted (\<lambda>t. t\<lparr>st_path_stat_calls := st_path_stat_calls t + 1\<rparr>)
        (syscall_path_stat env a0 a1 a2)
      else if number = SYSCALL_TRUNCATE then counted (\<lambda>t. t\<lparr>st_truncate_calls := st_truncate_calls t + 1\<rparr>) (syscall_truncate env a0 a1 a2)
      else if number = SYSCALL_DUP then counted (\<lambda>t. t\<lparr>st_dup_calls := st_dup_calls t + 1\<rparr>) (\<lambda>s. Some (syscall_dup a0 s))
      else (\<lambda>s. Some (-1, upd_stats (\<lambda>t. t\<lparr>st_rejected := st_rejected t + 1\<rparr>) s)))"

definition syscall_dispatch ::
    "'d system_env \<Rightarrow> ('d system \<Rightarrow> 'd system) \<Rightarrow> u64 \<Rightarrow> u64 \<Rightarrow> u64 \<Rightarrow> u64 \<Rightarrow> u64 \<Rightarrow> 'd system \<Rightarrow> (int \<times> 'd system) option" where
  "syscall_dispatch env resume number a0 a1 a2 a3 s =
     do { (result, s) \<leftarrow> syscall_case env resume number a0 a1 a2 a3
            (upd_stats (\<lambda>t. t\<lparr>st_total := st_total t + 1, st_last_number := number, st_last_arg0 := a0, st_last_arg1 := a1,
                             st_last_arg2 := a2\<rparr>) s);
          let s = (if number \<ge> SYSCALL_OPEN \<and> number \<le> SYSCALL_DUP then count_result result s else s);
          Some (result, upd_stats (\<lambda>t. t\<lparr>st_last_result := result\<rparr>) s) }"

end
