(* ===== verification/SchedulerInv.thy ===== *)
theory SchedulerInv
  imports Scheduler
begin

text \<open>
  The scheduler as a state machine: the step relation over its entry points, and the invariant of the
  task table that every step keeps.
\<close>

section \<open>The invariant\<close>

text \<open>The part of a task the scheduling invariant speaks about.\<close>

definition tview :: "task \<Rightarrow> int \<times> int \<times> task_state" where
  "tview t = (t_pid t, t_parent_pid t, t_state t)"

abbreviation tviews :: "kernel \<Rightarrow> (int \<times> int \<times> task_state) list" where
  "tviews k \<equiv> map tview (tasks k)"

definition table_ok :: "(int \<times> int \<times> task_state) list \<Rightarrow> nat \<Rightarrow> nat \<Rightarrow> bool \<Rightarrow> bool" where
  "table_ok vs count cur started \<longleftrightarrow>
     length vs = SCHED_MAX_TASKS \<and> 1 \<le> count \<and> count \<le> SCHED_MAX_TASKS \<and> cur < count \<and>
     (\<forall>i<count. fst (vs ! i) = int i) \<and>
     (\<forall>i<SCHED_MAX_TASKS. fst (snd (vs ! i)) \<noteq> int i) \<and>
     (\<forall>i<SCHED_MAX_TASKS. count \<le> i \<longrightarrow> snd (snd (vs ! i)) = TASK_UNUSED) \<and>
     snd (snd (vs ! 0)) \<in> {TASK_READY, TASK_RUNNING} \<and>
     (\<forall>i<SCHED_MAX_TASKS. snd (snd (vs ! i)) = TASK_RUNNING \<longrightarrow> started \<and> i = cur) \<and>
     snd (snd (vs ! cur)) \<noteq> TASK_UNUSED"

definition sched_inv :: "kernel \<Rightarrow> bool" where
  "sched_inv k \<longleftrightarrow> table_ok (tviews k) (task_count k) (current_task k) (threads_started k)"

lemma sched_inv_cong:
  "tviews k' = tviews k \<Longrightarrow> task_count k' = task_count k \<Longrightarrow> current_task k' = current_task k \<Longrightarrow>
   threads_started k' = threads_started k \<Longrightarrow> sched_inv k' = sched_inv k"
  by (simp add: sched_inv_def)

text \<open>What the helper operations do to the table and the scheduling variables.\<close>

named_theorems sched_simps \<open>effect of helper operations on the task table and the scheduling variables\<close>

lemma upd_task_fields [sched_simps]:
  "tasks (upd_task i f k) = (tasks k)[i := f (tasks k ! i)]" "task_count (upd_task i f k) = task_count k"
  "current_task (upd_task i f k) = current_task k" "threads_started (upd_task i f k) = threads_started k"
  "scheduler_ticks (upd_task i f k) = scheduler_ticks k" "cpu (upd_task i f k) = cpu k" "mmu (upd_task i f k) = mmu k"
  "kernel_address_space (upd_task i f k) = kernel_address_space k" "user_tables_of (upd_task i f k) = user_tables_of k"
  "user_sessions (upd_task i f k) = user_sessions k"
  by (simp_all add: upd_task_def)

lemma tviews_same:
  "tview (f (tasks k ! i)) = tview (tasks k ! i) \<Longrightarrow> map tview ((tasks k)[i := f (tasks k ! i)]) = tviews k"
  by (cases "i < length (tasks k)") (simp_all add: map_update list_update_beyond list_update_same_conv)

lemma tview_upds [sched_simps]:
  "tview (upd_accounting g t) = tview t" "tview (upd_user_status h t) = tview t"
  "tview (scheduler_clear_files t) = tview t" "tview (scheduler_init_task_memory env pid t) = tview t"
  "tview (scheduler_init_task_el0 k t) = tview t"
  "t_state (upd_accounting g t) = t_state t" "t_state (upd_user_status h t) = t_state t"
  "t_state (set_state st t) = st" "tview (set_state st t) = (t_pid t, t_parent_pid t, st)"
  by (simp_all add: tview_def upd_accounting_def upd_user_status_def scheduler_clear_files_def
      scheduler_init_task_memory_def scheduler_init_task_el0_def set_state_def Let_def split: option.splits)

lemma set_task_space_fields [sched_simps]:
  "tviews (set_task_space i space k) = tviews k" "task_count (set_task_space i space k) = task_count k"
  "current_task (set_task_space i space k) = current_task k" "threads_started (set_task_space i space k) = threads_started k"
  "user_sessions (set_task_space i space k) = user_sessions k" "mmu (set_task_space i space k) = mmu k"
  "length (tasks (set_task_space i space k)) = length (tasks k)"
  by (simp_all add: set_task_space_def sched_simps split: space_ref.split)
    (intro impI, rule tviews_same, simp add: tview_def)

lemma destroy_task_space_fields [sched_simps]:
  "tviews (destroy_task_space i k) = tviews k" "task_count (destroy_task_space i k) = task_count k"
  "current_task (destroy_task_space i k) = current_task k" "threads_started (destroy_task_space i k) = threads_started k"
  by (simp_all add: destroy_task_space_def sched_simps split: option.split prod.split)

lemma switch_fields [sched_simps]:
  "tasks (switch_root r k) = tasks k" "task_count (switch_root r k) = task_count k"
  "current_task (switch_root r k) = current_task k" "threads_started (switch_root r k) = threads_started k"
  "tasks (upd_session g k) = tasks k" "task_count (upd_session g k) = task_count k"
  "current_task (upd_session g k) = current_task k" "threads_started (upd_session g k) = threads_started k"
  by (simp_all add: switch_root_def upd_session_def)

lemma switch_resume_root_fields [sched_simps]:
  "tasks (switch_resume_root i k) = tasks k" "task_count (switch_resume_root i k) = task_count k"
  "current_task (switch_resume_root i k) = current_task k" "threads_started (switch_resume_root i k) = threads_started k"
  "cpu (switch_resume_root i k) = cpu k" "user_sessions (switch_resume_root i k) = user_sessions k"
  "kernel_address_space (switch_resume_root i k) = kernel_address_space k"
  "user_tables_of (switch_resume_root i k) = user_tables_of k"
  by (simp_all add: switch_resume_root_def switch_root_def Let_def)

lemma cpu_switch_fields [sched_simps]:
  "tviews (cpu_switch_to a b k) = tviews k" "task_count (cpu_switch_to a b k) = task_count k"
  "current_task (cpu_switch_to a b k) = current_task k" "threads_started (cpu_switch_to a b k) = threads_started k"
  "scheduler_ticks (cpu_switch_to a b k) = scheduler_ticks k" "mmu (cpu_switch_to a b k) = mmu k"
  by (simp_all add: cpu_switch_to_def sched_simps Let_def) (rule tviews_same, simp add: tview_def)

lemma session_task_fields [sched_simps]:
  "tviews (upd_session_task h k) = tviews k" "task_count (upd_session_task h k) = task_count k"
  "current_task (upd_session_task h k) = current_task k" "threads_started (upd_session_task h k) = threads_started k"
  by (simp_all add: upd_session_task_def sched_simps split: option.split)
    (intro allI impI, rule tviews_same, simp add: sched_simps)

text \<open>Replacing one entry, possibly the first one past the end.\<close>

lemma table_ok_upd:
  assumes ok: "table_ok vs count cur started" and i: "i < 8"
    and count: "count' = count \<or> count' = Suc count \<and> i = count"
    and v: "i < count' \<Longrightarrow> fst v = int i" "fst (snd v) \<noteq> int i" "count' \<le> i \<Longrightarrow> snd (snd v) = TASK_UNUSED"
    and st: "i = 0 \<Longrightarrow> snd (snd v) \<in> {TASK_READY, TASK_RUNNING}"
      "snd (snd v) = TASK_RUNNING \<Longrightarrow> started \<and> i = cur" "i = cur \<Longrightarrow> snd (snd v) \<noteq> TASK_UNUSED"
  shows "table_ok (vs[i := v]) count' cur started"
proof -
  have len: "length vs = 8" "1 \<le> count" "count \<le> 8" "cur < count"
    and pid: "\<And>j. j < count \<Longrightarrow> fst (vs ! j) = int j"
    and parent: "\<And>j. j < 8 \<Longrightarrow> fst (snd (vs ! j)) \<noteq> int j"
    and unused: "\<And>j. j < 8 \<Longrightarrow> count \<le> j \<Longrightarrow> snd (snd (vs ! j)) = TASK_UNUSED"
    and idle: "snd (snd (vs ! 0)) \<in> {TASK_READY, TASK_RUNNING}"
    and running: "\<And>j. j < 8 \<Longrightarrow> snd (snd (vs ! j)) = TASK_RUNNING \<Longrightarrow> started \<and> j = cur"
    and cur: "snd (snd (vs ! cur)) \<noteq> TASK_UNUSED"
    using ok by (simp_all add: table_ok_def)
  have c8: "count' \<le> 8" using len count i by auto
  have n: "vs[i := v] ! j = (if j = i then v else vs ! j)" if "j < 8" for j
    using that len by (simp add: nth_list_update)
  show ?thesis
    unfolding table_ok_def
  proof (intro conjI allI impI)
    show "length (vs[i := v]) = 8" using len(1) by simp
    show "1 \<le> count'" "cur < count'" using len count by auto
    show "count' \<le> 8" by (rule c8)
  next
    fix j assume j: "j < count'"
    show "fst (vs[i := v] ! j) = int j"
    proof (cases "j = i")
      case False
      then have "j < count" using j count by auto
      then show ?thesis using False n [of j] pid len(3) by simp
    qed (use j c8 n [of j] v(1) in simp)
  next
    fix j :: nat assume "j < 8"
    then show "fst (snd (vs[i := v] ! j)) \<noteq> int j" using n [of j] parent v(2) by (cases "j = i") simp_all
  next
    fix j assume "j < 8" "count' \<le> j"
    then show "snd (snd (vs[i := v] ! j)) = TASK_UNUSED"
      using n [of j] unused [of j] v(3) count by (cases "j = i") auto
  next
    show "snd (snd (vs[i := v] ! 0)) \<in> {TASK_READY, TASK_RUNNING}" using n [of 0] idle st(1) by (cases "i = 0") simp_all
  next
    fix j assume j: "j < 8" "snd (snd (vs[i := v] ! j)) = TASK_RUNNING"
    have "started \<and> j = cur" using n [of j] running [of j] st(2) j by (cases "j = i") simp_all
    then show started "j = cur" by simp_all
  next
    show "snd (snd (vs[i := v] ! cur)) \<noteq> TASK_UNUSED"
      using n [of cur] len cur st(3) by (cases "i = cur") simp_all
  qed
qed

lemma nth_tviews: "i < length (tasks k) \<Longrightarrow> tviews k ! i = tview (tasks k ! i)"
  by simp

lemma sched_inv_length: "sched_inv k \<Longrightarrow> length (tasks k) = 8 \<and> 1 \<le> task_count k \<and> task_count k \<le> 8 \<and> current_task k < task_count k"
  by (simp add: sched_inv_def table_ok_def)

lemma sched_inv_upd_state:
  assumes "sched_inv k" "i < task_count k"
    and f: "t_pid (f (tasks k ! i)) = t_pid (tasks k ! i)" "t_parent_pid (f (tasks k ! i)) = t_parent_pid (tasks k ! i)"
    and "i = 0 \<Longrightarrow> t_state (f (tasks k ! i)) \<in> {TASK_READY, TASK_RUNNING}"
    and "t_state (f (tasks k ! i)) = TASK_RUNNING \<Longrightarrow> threads_started k \<and> i = current_task k"
    and "i = current_task k \<Longrightarrow> t_state (f (tasks k ! i)) \<noteq> TASK_UNUSED"
  shows "sched_inv (upd_task i f k)"
proof -
  note len = sched_inv_length [OF assms(1)]
  have "fst (tviews k ! i) = int i" "fst (snd (tviews k ! i)) \<noteq> int i"
    using assms(1,2) len by (simp_all add: sched_inv_def table_ok_def)
  then have v: "t_pid (tasks k ! i) = int i" "t_parent_pid (tasks k ! i) \<noteq> int i"
    using assms(2) len by (simp_all add: tview_def)
  have "table_ok ((tviews k)[i := tview (f (tasks k ! i))]) (task_count k) (current_task k) (threads_started k)"
    by (rule table_ok_upd) (use assms len v in \<open>auto simp: tview_def sched_inv_def\<close>)
  then show ?thesis by (simp add: sched_inv_def sched_simps map_update)
qed

section \<open>Selection\<close>

lemma wake_task_view:
  "t_pid (wake_task n t) = t_pid t" "t_parent_pid (wake_task n t) = t_parent_pid t"
  "t_state (wake_task n t) = (if t_state t = TASK_SLEEPING \<and> t_sleep_until_tick t \<le> n then TASK_READY else t_state t)"
  "t_memory (wake_task n t) = t_memory t" "t_user_address_space (wake_task n t) = t_user_address_space t"
  "t_context (wake_task n t) = t_context t"
  by (simp_all add: wake_task_def upd_accounting_def)

lemma wake_fields [sched_simps]:
  "task_count (scheduler_wake_sleeping_tasks k) = task_count k" "current_task (scheduler_wake_sleeping_tasks k) = current_task k"
  "threads_started (scheduler_wake_sleeping_tasks k) = threads_started k"
  "scheduler_ticks (scheduler_wake_sleeping_tasks k) = scheduler_ticks k" "cpu (scheduler_wake_sleeping_tasks k) = cpu k"
  "mmu (scheduler_wake_sleeping_tasks k) = mmu k" "user_sessions (scheduler_wake_sleeping_tasks k) = user_sessions k"
  "kernel_address_space (scheduler_wake_sleeping_tasks k) = kernel_address_space k"
  "user_tables_of (scheduler_wake_sleeping_tasks k) = user_tables_of k"
  "length (tasks (scheduler_wake_sleeping_tasks k)) = length (tasks k)"
  by (simp_all add: scheduler_wake_sleeping_tasks_def)

lemma wake_nth:
  "i < length (tasks k) \<Longrightarrow> tasks (scheduler_wake_sleeping_tasks k) ! i =
     (if i < task_count k then wake_task (scheduler_ticks k) (tasks k ! i) else tasks k ! i)"
  by (simp add: scheduler_wake_sleeping_tasks_def nth_append min_def)

lemma sched_inv_tasks:
  "sched_inv k \<longleftrightarrow>
     length (tasks k) = 8 \<and> 1 \<le> task_count k \<and> task_count k \<le> 8 \<and> current_task k < task_count k \<and>
     (\<forall>i<task_count k. t_pid (tasks k ! i) = int i) \<and> (\<forall>i<8. t_parent_pid (tasks k ! i) \<noteq> int i) \<and>
     (\<forall>i<8. task_count k \<le> i \<longrightarrow> t_state (tasks k ! i) = TASK_UNUSED) \<and>
     t_state (tasks k ! 0) \<in> {TASK_READY, TASK_RUNNING} \<and>
     (\<forall>i<8. t_state (tasks k ! i) = TASK_RUNNING \<longrightarrow> threads_started k \<and> i = current_task k) \<and>
     t_state (tasks k ! current_task k) \<noteq> TASK_UNUSED"
  by (auto simp: sched_inv_def table_ok_def tview_def)

lemma sched_invD:
  assumes "sched_inv k"
  shows "length (tasks k) = 8" "1 \<le> task_count k" "task_count k \<le> 8" "current_task k < task_count k"
    "i < task_count k \<Longrightarrow> t_pid (tasks k ! i) = int i" "i < 8 \<Longrightarrow> t_parent_pid (tasks k ! i) \<noteq> int i"
    "i < 8 \<Longrightarrow> task_count k \<le> i \<Longrightarrow> t_state (tasks k ! i) = TASK_UNUSED"
    "t_state (tasks k ! 0) = TASK_READY \<or> t_state (tasks k ! 0) = TASK_RUNNING"
    "i < 8 \<Longrightarrow> t_state (tasks k ! i) = TASK_RUNNING \<Longrightarrow> threads_started k \<and> i = current_task k"
    "t_state (tasks k ! current_task k) \<noteq> TASK_UNUSED"
  using assms by (simp_all add: sched_inv_tasks)

lemma wake_inv: "sched_inv k \<Longrightarrow> sched_inv (scheduler_wake_sleeping_tasks k)"
proof -
  assume inv: "sched_inv k"
  note d = sched_invD [OF inv]
  let ?k = "scheduler_wake_sleeping_tasks k"
  have st: "t_state (tasks ?k ! i) = (if i < task_count k \<and> t_state (tasks k ! i) = TASK_SLEEPING \<and>
      t_sleep_until_tick (tasks k ! i) \<le> scheduler_ticks k then TASK_READY else t_state (tasks k ! i))"
    "t_pid (tasks ?k ! i) = t_pid (tasks k ! i)" "t_parent_pid (tasks ?k ! i) = t_parent_pid (tasks k ! i)" if "i < 8" for i
    using that d(1) by (simp_all add: wake_nth wake_task_view)
  show ?thesis
    unfolding sched_inv_tasks
  proof (intro conjI allI impI)
    show "length (tasks ?k) = 8" "1 \<le> task_count ?k" "task_count ?k \<le> 8" "current_task ?k < task_count ?k"
      using d by (simp_all add: sched_simps)
    show "t_state (tasks ?k ! 0) \<in> {TASK_READY, TASK_RUNNING}" using st(1) [of 0] d(8) by auto
    show "t_state (tasks ?k ! current_task ?k) \<noteq> TASK_UNUSED"
      using st(1) [of "current_task k"] d(3,4,10) by (simp add: sched_simps)
  next
    fix i assume "i < task_count ?k"
    then show "t_pid (tasks ?k ! i) = int i" using st(2) [of i] d(3) d(5) [of i] by (simp add: sched_simps)
  next
    fix i :: nat assume "i < 8"
    then show "t_parent_pid (tasks ?k ! i) \<noteq> int i" using st(3) [of i] d(6) [of i] by simp
  next
    fix i assume "i < 8" "task_count ?k \<le> i"
    then show "t_state (tasks ?k ! i) = TASK_UNUSED" using st(1) [of i] d(7) [of i] by (simp add: sched_simps)
  next
    fix i assume "i < 8" "t_state (tasks ?k ! i) = TASK_RUNNING"
    then show "threads_started ?k" "i = current_task ?k"
      using st(1) [of i] d(9) [of i] by (simp_all add: sched_simps split: if_splits)
  qed
qed

lemma ticks_inv: "sched_inv (k\<lparr>scheduler_ticks := n\<rparr>) = sched_inv k"
  by (simp add: sched_inv_tasks)

lemma find_candidate:
  "find P (map (\<lambda>i. (c + i) mod n) [1..<n + 1]) = Some x \<longleftrightarrow>
     (\<exists>d. 1 \<le> d \<and> d \<le> n \<and> x = (c + d) mod n \<and> P x \<and> (\<forall>e. 1 \<le> e \<and> e < d \<longrightarrow> \<not> P ((c + e) mod n)))"
proof -
  have "find P (map (\<lambda>i. (c + i) mod n) [1..<n + 1]) = Some x \<longleftrightarrow>
    (\<exists>i<n. P ((c + (1 + i)) mod n) \<and> x = (c + (1 + i)) mod n \<and> (\<forall>j<i. \<not> P ((c + (1 + j)) mod n)))"
    by (simp add: find_Some_iff nth_upt del: upt_Suc cong: conj_cong)
  also have "\<dots> \<longleftrightarrow> (\<exists>d. 1 \<le> d \<and> d \<le> n \<and> x = (c + d) mod n \<and> P x \<and> (\<forall>e. 1 \<le> e \<and> e < d \<longrightarrow> \<not> P ((c + e) mod n)))"
  proof
    assume "\<exists>i<n. P ((c + (1 + i)) mod n) \<and> x = (c + (1 + i)) mod n \<and> (\<forall>j<i. \<not> P ((c + (1 + j)) mod n))"
    then obtain i where i: "i < n" "P ((c + (1 + i)) mod n)" "x = (c + (1 + i)) mod n" "\<forall>j<i. \<not> P ((c + (1 + j)) mod n)" by auto
    have "\<not> P ((c + e) mod n)" if "1 \<le> e" "e < 1 + i" for e using i(4) [rule_format, of "e - 1"] that by simp
    with i show "\<exists>d. 1 \<le> d \<and> d \<le> n \<and> x = (c + d) mod n \<and> P x \<and> (\<forall>e. 1 \<le> e \<and> e < d \<longrightarrow> \<not> P ((c + e) mod n))"
      by (intro exI [of _ "1 + i"]) auto
  next
    assume "\<exists>d. 1 \<le> d \<and> d \<le> n \<and> x = (c + d) mod n \<and> P x \<and> (\<forall>e. 1 \<le> e \<and> e < d \<longrightarrow> \<not> P ((c + e) mod n))"
    then obtain d where d: "1 \<le> d" "d \<le> n" "x = (c + d) mod n" "P x" "\<forall>e. 1 \<le> e \<and> e < d \<longrightarrow> \<not> P ((c + e) mod n)" by auto
    have "\<not> P ((c + (1 + j)) mod n)" if "j < d - 1" for j using d(5) [rule_format, of "1 + j"] that by simp
    with d show "\<exists>i<n. P ((c + (1 + i)) mod n) \<and> x = (c + (1 + i)) mod n \<and> (\<forall>j<i. \<not> P ((c + (1 + j)) mod n))"
      by (intro exI [of _ "d - 1"]) auto
  qed
  finally show ?thesis .
qed

lemma mod_surj:
  assumes "c < n" "j < (n :: nat)"
  obtains d where "1 \<le> d" "d \<le> n" "(c + d) mod n = j"
proof (cases "c < j")
  case True
  then show thesis using assms by (intro that [of "j - c"]) auto
next
  case False
  then show thesis using assms by (intro that [of "n - c + j"]) (auto simp: mod_if)
qed

lemma next_task_None:
  assumes "sched_inv k" "find (\<lambda>c. c \<noteq> 0 \<and> scheduler_task_is_runnable (tasks k ! c))
             (map (\<lambda>i. (current_task k + i) mod task_count k) [1..<task_count k + 1]) = None"
    and "0 < j" "j < task_count k"
  shows "\<not> scheduler_task_is_runnable (tasks k ! j)"
proof -
  obtain d where d: "1 \<le> d" "d \<le> task_count k" "(current_task k + d) mod task_count k = j"
    using mod_surj [OF sched_invD(4) [OF assms(1)] assms(4)] by blast
  then have "d \<in> set [1..<task_count k + 1]" by (simp only: set_upt atLeastLessThan_iff) simp
  then have "j \<in> set (map (\<lambda>i. (current_task k + i) mod task_count k) [1..<task_count k + 1])"
    unfolding set_map using d(3) by blast
  then show ?thesis using assms(2,3) unfolding find_None_iff by blast
qed

text \<open>
  The next task is runnable, and it is the idle task only when no other task is runnable.
\<close>

lemma next_runnable:
  assumes "sched_inv k"
  defines "n \<equiv> scheduler_next_runnable_task k"
  shows "n < task_count k" "scheduler_task_is_runnable (tasks k ! n)"
    "n = 0 \<Longrightarrow> 0 < j \<Longrightarrow> j < task_count k \<Longrightarrow> \<not> scheduler_task_is_runnable (tasks k ! j)"
proof -
  let ?f = "find (\<lambda>c. c \<noteq> 0 \<and> scheduler_task_is_runnable (tasks k ! c))
             (map (\<lambda>i. (current_task k + i) mod task_count k) [1..<task_count k + 1])"
  have idle: "scheduler_task_is_runnable (tasks k ! 0)"
    using sched_invD(8) [OF assms(1)] by (simp add: scheduler_task_is_runnable_def)
  have pos: "0 < task_count k" using sched_invD(2) [OF assms(1)] by simp
  have n: "n = (case ?f of Some c \<Rightarrow> c | None \<Rightarrow> 0)"
    using idle by (simp add: n_def scheduler_next_runnable_task_def split: option.split)
  have some: "c < task_count k" "c \<noteq> 0" "scheduler_task_is_runnable (tasks k ! c)" if "?f = Some c" for c
    using that pos unfolding find_candidate by auto
  have nc: "n = 0 \<or> ?f = Some n" unfolding n by (cases ?f) (simp_all only: option.case, simp_all)
  then show "n < task_count k" "scheduler_task_is_runnable (tasks k ! n)"
    using some [of n] idle pos by blast+
  assume z: "n = 0" "0 < j" "j < task_count k"
  have "?f = None"
  proof (cases ?f)
    case (Some c)
    have "n = c" unfolding n Some option.case ..
    then show ?thesis using some(2) [OF Some] z(1) by simp
  qed
  then show "\<not> scheduler_task_is_runnable (tasks k ! j)" using next_task_None [OF assms(1) _ z(2,3)] by simp
qed

section \<open>Preservation\<close>

lemma table_ok_switch:
  assumes ok: "table_ok vs count cur started" and n: "n < count" "n \<noteq> cur" and started
    and st: "st = (if snd (snd (vs ! cur)) = TASK_RUNNING then TASK_READY else snd (snd (vs ! cur)))"
  shows "table_ok (vs[cur := (fst (vs ! cur), fst (snd (vs ! cur)), st), n := (fst (vs ! n), fst (snd (vs ! n)), TASK_RUNNING)])
    count n started"
proof -
  have len: "length vs = 8" "1 \<le> count" "count \<le> 8" "cur < count"
    and pid: "\<And>j. j < count \<Longrightarrow> fst (vs ! j) = int j"
    and parent: "\<And>j. j < 8 \<Longrightarrow> fst (snd (vs ! j)) \<noteq> int j"
    and unused: "\<And>j. j < 8 \<Longrightarrow> count \<le> j \<Longrightarrow> snd (snd (vs ! j)) = TASK_UNUSED"
    and idle: "snd (snd (vs ! 0)) \<in> {TASK_READY, TASK_RUNNING}"
    and running: "\<And>j. j < 8 \<Longrightarrow> snd (snd (vs ! j)) = TASK_RUNNING \<Longrightarrow> j = cur"
    using ok by (simp_all add: table_ok_def)
  let ?v = "vs[cur := (fst (vs ! cur), fst (snd (vs ! cur)), st), n := (fst (vs ! n), fst (snd (vs ! n)), TASK_RUNNING)]"
  have v: "?v ! j = (if j = n then (fst (vs ! n), fst (snd (vs ! n)), TASK_RUNNING)
      else if j = cur then (fst (vs ! cur), fst (snd (vs ! cur)), st) else vs ! j)" if "j < 8" for j
    using that len n by (simp add: nth_list_update)
  have fsts: "fst (?v ! j) = fst (vs ! j)" "fst (snd (?v ! j)) = fst (snd (vs ! j))" if "j < 8" for j
    using v [OF that] by simp_all
  show ?thesis
    unfolding table_ok_def
  proof (intro conjI allI impI)
    show "length ?v = 8" "1 \<le> count" "count \<le> 8" "n < count" using len n by simp_all
    show started by fact
  next
    fix j assume "j < count" then show "fst (?v ! j) = int j" using fsts(1) [of j] len(3) pid by simp
  next
    fix j :: nat assume "j < 8" then show "fst (snd (?v ! j)) \<noteq> int j" using fsts(2) [of j] parent by simp
  next
    fix j assume "j < 8" "count \<le> j" then show "snd (snd (?v ! j)) = TASK_UNUSED"
      using v [of j] len n unused [of j] by (simp split: if_splits)
  next
    show "snd (snd (?v ! 0)) \<in> {TASK_READY, TASK_RUNNING}" using v [of 0] idle st by auto
  next
    fix j assume "j < 8" "snd (snd (?v ! j)) = TASK_RUNNING"
    then show "j = n" using v [of j] running [of j] st by (auto split: if_splits)
  next
    show "snd (snd (?v ! n)) \<noteq> TASK_UNUSED" using v [of n] len n by simp
  qed
qed

lemma switch_inv:
  assumes inv: "sched_inv k" "threads_started k" "n < task_count k" "n \<noteq> current_task k"
    and f: "tview (f (tasks k ! current_task k)) = tview (demote (tasks k ! current_task k))"
  shows "sched_inv ((scheduler_set_running_task n (upd_task (current_task k) f k))\<lparr>current_task := n\<rparr>)"
proof -
  note d = sched_invD [OF inv(1)]
  let ?c = "current_task k"
  have len: "?c < length (tasks k)" "n < length (tasks k)" using d(1,3,4) inv(3) by simp_all
  have dem: "tview (demote t) = (t_pid t, t_parent_pid t, if t_state t = TASK_RUNNING then TASK_READY else t_state t)" for t
    by (simp add: demote_def tview_def set_state_def)
  have "tviews (scheduler_set_running_task n (upd_task ?c f k)) =
      (tviews k)[?c := (fst (tviews k ! ?c), fst (snd (tviews k ! ?c)),
          if snd (snd (tviews k ! ?c)) = TASK_RUNNING then TASK_READY else snd (snd (tviews k ! ?c))),
        n := (fst (tviews k ! n), fst (snd (tviews k ! n)), TASK_RUNNING)]"
    using len inv(4)
    by (simp add: scheduler_set_running_task_def sched_simps map_update f dem) (simp add: tview_def)
  then show ?thesis
    using table_ok_switch [OF inv(1) [unfolded sched_inv_def] inv(3,4,2) refl]
    by (simp add: sched_inv_def scheduler_set_running_task_def sched_simps)
qed

lemma yield_inv:
  assumes "sched_inv k" "threads_started k" "scheduler_yield k = Some k'"
  shows "sched_inv k'"
proof (cases "task_count k < 2")
  case True
  then show ?thesis using assms by (simp add: scheduler_yield_def)
next
  case False
  let ?k = "scheduler_wake_sleeping_tasks k" and ?n = "scheduler_next_runnable_task (scheduler_wake_sleeping_tasks k)"
  note w = wake_inv [OF assms(1)]
  note d = sched_invD [OF w]
  show ?thesis
  proof (cases "?n = current_task k")
    case True
    then have "k' = upd_task (current_task ?k) (set_state TASK_RUNNING) ?k"
      using assms(3) \<open>\<not> task_count k < 2\<close> by (simp add: scheduler_yield_def Let_def sched_simps split: if_splits)
    moreover have "sched_inv (upd_task (current_task ?k) (set_state TASK_RUNNING) ?k)"
      by (rule sched_inv_upd_state [OF w d(4)]) (use assms(2) in \<open>simp_all add: sched_simps set_state_def\<close>)
    ultimately show ?thesis by simp
  next
    case False
    let ?f = "\<lambda>t. if t_state t = TASK_RUNNING
                    then upd_accounting (\<lambda>a. a\<lparr>ac_yields := ac_yields a + 1\<rparr>) (set_state TASK_READY t) else t"
    let ?s = "(scheduler_set_running_task ?n (upd_task (current_task ?k) ?f ?k))\<lparr>current_task := ?n\<rparr>"
    have s: "sched_inv ?s"
      by (rule switch_inv [OF w]) (use assms(2) False next_runnable [OF w] in \<open>simp_all add: sched_simps demote_def\<close>)
    have "sched_inv k' = sched_inv ?s"
      using assms(3) \<open>\<not> task_count k < 2\<close> False
      by (intro sched_inv_cong) (auto simp: scheduler_yield_def Let_def sched_simps)
    then show ?thesis using s by simp
  qed
qed

lemma preempt_inv:
  assumes "sched_inv k"
  shows "sched_inv (scheduler_preempt k)"
proof (cases "threads_started k \<and> \<not> task_count k < 2")
  case False
  then show ?thesis using assms by (auto simp: scheduler_preempt_def)
next
  case True
  let ?w = "scheduler_wake_sleeping_tasks (k\<lparr>scheduler_ticks := scheduler_ticks k + 1\<rparr>)"
  let ?k = "upd_task (current_task k) (upd_accounting (\<lambda>a. a\<lparr>ac_run_ticks := ac_run_ticks a + 1\<rparr>)) ?w"
  let ?n = "scheduler_next_runnable_task ?k"
  have w: "sched_inv ?w" by (rule wake_inv) (simp add: ticks_inv assms)
  have "sched_inv ?k = sched_inv ?w"
    by (rule sched_inv_cong) (simp_all add: sched_simps tviews_same)
  then have k: "sched_inv ?k" using w by simp
  show ?thesis
  proof (cases "?n = current_task k")
    case n: True
    then show ?thesis using True k by (simp add: scheduler_preempt_def Let_def sched_simps)
  next
    case False
    let ?f = "\<lambda>t. upd_accounting (\<lambda>a. a\<lparr>ac_preemptions := ac_preemptions a + 1\<rparr>) (demote t)"
    let ?s = "(scheduler_set_running_task ?n (upd_task (current_task ?k) ?f ?k))\<lparr>current_task := ?n\<rparr>"
    have s: "sched_inv ?s"
      by (rule switch_inv [OF k]) (use True False next_runnable(1) [OF k] in \<open>simp_all add: sched_simps\<close>)
    have "sched_inv (scheduler_preempt k) = sched_inv ?s"
      using True False by (intro sched_inv_cong) (simp_all add: scheduler_preempt_def Let_def sched_simps)
    then show ?thesis using s by simp
  qed
qed

lemma trim_tail_props:
  "trim_tail ts n \<le> n" "1 \<le> n \<Longrightarrow> 1 \<le> trim_tail ts n"
  "trim_tail ts n \<le> i \<Longrightarrow> i < n \<Longrightarrow> t_state (ts ! i) = TASK_UNUSED"
  "c < n \<Longrightarrow> t_state (ts ! c) \<noteq> TASK_UNUSED \<Longrightarrow> c < trim_tail ts n"
proof -
  show a: "trim_tail ts n \<le> n" for n by (induction n) auto
  show "1 \<le> n \<Longrightarrow> 1 \<le> trim_tail ts n" by (induction n) auto
  show "trim_tail ts n \<le> i \<Longrightarrow> i < n \<Longrightarrow> t_state (ts ! i) = TASK_UNUSED"
    by (induction n) (auto simp: less_Suc_eq split: if_splits)
  show "c < n \<Longrightarrow> t_state (ts ! c) \<noteq> TASK_UNUSED \<Longrightarrow> c < trim_tail ts n"
    by (induction n) (auto simp: less_Suc_eq split: if_splits)
qed

lemma trim_inv:
  assumes "sched_inv k"
  shows "sched_inv (scheduler_trim_unused_tail k)"
proof -
  note d = sched_invD [OF assms]
  note t = trim_tail_props [where ts = "tasks k" and n = "task_count k"]
  have "trim_tail (tasks k) (task_count k) \<le> i \<Longrightarrow> i < 8 \<Longrightarrow> t_state (tasks k ! i) = TASK_UNUSED" for i
    using t(3) [of i] d(7) [of i] by (cases "i < task_count k") simp_all
  moreover have "i < trim_tail (tasks k) (task_count k) \<Longrightarrow> t_pid (tasks k ! i) = int i" for i
    using t(1) d(5) [of i] by simp
  ultimately show ?thesis
    unfolding sched_inv_tasks scheduler_trim_unused_tail_def
    using d t(1) t(2) [OF d(2)] t(4) [OF d(4,10)] assms [unfolded sched_inv_tasks] by simp
qed

lemma clear_slot_inv:
  assumes "sched_inv k" "0 < p" "p < task_count k" "p \<noteq> current_task k"
  shows "sched_inv (scheduler_clear_task_slot p k)"
proof -
  let ?f = "\<lambda>t. scheduler_clear_files
       (t\<lparr>t_pid := int p, t_parent_pid := -1, t_name := ''unused'', t_state := TASK_UNUSED, t_entry := None,
          t_sleep_until_tick := 0, t_sleep_requested_ms := 0, t_context := scheduler_clear_context,
          t_accounting := scheduler_clear_accounting, t_memory := scheduler_clear_memory,
          t_el0 := scheduler_clear_el0, t_user_status := scheduler_clear_user_status\<rparr>)"
  have "tview (?f t) = (int p, -1, TASK_UNUSED)" for t by (simp add: sched_simps) (simp add: tview_def)
  then have "tviews (scheduler_clear_task_slot p k) = (tviews k)[p := (int p, -1, TASK_UNUSED)]"
    by (simp add: scheduler_clear_task_slot_def sched_simps map_update)
  moreover have "table_ok ((tviews k)[p := (int p, -1, TASK_UNUSED)]) (task_count k) (current_task k) (threads_started k)"
    by (rule table_ok_upd [of _ "task_count k"]) (use assms sched_inv_length [OF assms(1)] in \<open>simp_all add: sched_inv_def\<close>)
  ultimately show ?thesis
    by (simp add: sched_inv_def) (simp add: scheduler_clear_task_slot_def sched_simps)
qed

lemma clear_slot_fields [sched_simps]:
  "task_count (scheduler_clear_task_slot p k) = task_count k" "current_task (scheduler_clear_task_slot p k) = current_task k"
  "threads_started (scheduler_clear_task_slot p k) = threads_started k"
  by (simp_all add: scheduler_clear_task_slot_def sched_simps)

lemma reap_fold_inv:
  assumes "sched_inv k" "\<forall>i\<in>set is. 0 < i \<and> i < task_count k"
  shows "sched_inv (snd (fold reap_one is (n, k)))"
  using assms
proof (induction "is" arbitrary: n k)
  case (Cons i "is")
  let ?k = "snd (reap_one i (n, k))"
  have "sched_inv ?k" "task_count ?k = task_count k"
    using Cons.prems clear_slot_inv [of k i] by (auto simp: reap_one_def sched_simps)
  then show ?case using Cons.IH [of ?k "fst (reap_one i (n, k))"] Cons.prems by simp
qed simp

lemma pick_slot_SomeD:
  assumes "sched_inv k" "pick_slot k = Some (p, k')"
  shows "0 < p" "p < 8" "p \<noteq> current_task k" "t_state (tasks k ! p) = TASK_UNUSED" "p < task_count k'"
    "k' = k\<lparr>task_count := task_count k'\<rparr>" "task_count k' = task_count k \<or> task_count k' = Suc (task_count k) \<and> p = task_count k"
proof -
  note d = sched_invD [OF assms(1)]
  have "0 < p \<and> p < 8 \<and> t_state (tasks k ! p) = TASK_UNUSED \<and> p < task_count k' \<and> k' = k\<lparr>task_count := task_count k'\<rparr> \<and>
    (task_count k' = task_count k \<or> task_count k' = Suc (task_count k) \<and> p = task_count k)"
  proof (cases "find (\<lambda>i. t_state (tasks k ! i) = TASK_UNUSED) [1..<task_count k]")
    case None
    then show ?thesis using assms(2) d(2) d(7) [of "task_count k"] by (auto simp: pick_slot_def split: if_splits)
  next
    case (Some q)
    then have "q \<in> set [1..<task_count k]" "t_state (tasks k ! q) = TASK_UNUSED"
      by (auto simp: find_Some_iff)
    then show ?thesis using assms(2) d(3) Some by (auto simp: pick_slot_def)
  qed
  then show "0 < p" "p < 8" "t_state (tasks k ! p) = TASK_UNUSED" "p < task_count k'"
    "k' = k\<lparr>task_count := task_count k'\<rparr>" "task_count k' = task_count k \<or> task_count k' = Suc (task_count k) \<and> p = task_count k"
    by blast+
  then show "p \<noteq> current_task k" using d(10) by auto
qed

lemma new_task_inv:
  assumes "sched_inv k" "pick_slot k = Some (p, k')" "length (tasks j) = 8"
    and j: "tviews j = (tviews k)[p := (int p, -1, st)]" "task_count j = task_count k'" "current_task j = current_task k"
      "threads_started j = threads_started k" and st: "st \<noteq> TASK_RUNNING"
  shows "sched_inv j"
proof -
  note p = pick_slot_SomeD [OF assms(1,2)]
  have "table_ok ((tviews k)[p := (int p, -1, st)]) (task_count k') (current_task k) (threads_started k)"
    by (rule table_ok_upd [of _ "task_count k"]) (use p(1-5,7) st assms(1) in \<open>auto simp: sched_inv_def\<close>)
  then show ?thesis by (simp add: sched_inv_def j)
qed

lemma tview_reset [sched_simps]: "tview (reset_task pid name st entry t) = (int pid, -1, st)"
  by (simp add: reset_task_def sched_simps) (simp add: tview_def)

lemma add_task_views:
  assumes "pick_slot k = Some (p, k')" "tasks k' = tasks k"
  shows "tviews (snd (scheduler_add_task env name entry k)) = (tviews k)[p := (int p, -1, TASK_READY)]"
    "task_count (snd (scheduler_add_task env name entry k)) = task_count k'"
    "current_task (snd (scheduler_add_task env name entry k)) = current_task k'"
    "threads_started (snd (scheduler_add_task env name entry k)) = threads_started k'"
    "length (tasks (snd (scheduler_add_task env name entry k))) = length (tasks k)"
proof -
  have ctx: "tview (t\<lparr>t_context := c\<rparr>) = tview t" for t c by (simp add: tview_def)
  show "tviews (snd (scheduler_add_task env name entry k)) = (tviews k)[p := (int p, -1, TASK_READY)]"
    "task_count (snd (scheduler_add_task env name entry k)) = task_count k'"
    "current_task (snd (scheduler_add_task env name entry k)) = current_task k'"
    "threads_started (snd (scheduler_add_task env name entry k)) = threads_started k'"
    "length (tasks (snd (scheduler_add_task env name entry k))) = length (tasks k)"
    using assms by (simp_all add: scheduler_add_task_def Let_def sched_simps map_update ctx split: option.split)
qed

lemma add_task_inv:
  assumes "sched_inv k"
  shows "sched_inv (snd (scheduler_add_task env name entry k))"
proof (cases "pick_slot k")
  case None
  then show ?thesis using assms by (simp add: scheduler_add_task_def)
next
  case (Some pk)
  then obtain p k' where pk: "pick_slot k = Some (p, k')" by (cases pk) simp
  note p = pick_slot_SomeD [OF assms pk]
  have k': "tasks k' = tasks k" "current_task k' = current_task k" "threads_started k' = threads_started k"
    by (subst p(6), simp)+
  show ?thesis
    by (rule new_task_inv [OF assms pk, where st = TASK_READY]) (use add_task_views [OF pk k'(1)] k' sched_invD(1) [OF assms] in simp_all)
qed

lemma drop_new_task_fields:
  "tviews (drop_new_task p space k) = tviews k" "current_task (drop_new_task p space k) = current_task k"
  "threads_started (drop_new_task p space k) = threads_started k"
  "task_count (drop_new_task p space k) = (if p = task_count k - 1 then task_count k - 1 else task_count k)"
  by (simp_all add: drop_new_task_def Let_def sched_simps split: prod.split)
    (intro allI impI conjI; rule tviews_same; simp add: tview_def)

lemma tview_new_user [sched_simps]:
  "tview (new_user_task env p nm sp t) = (int p, -1, TASK_BLOCKED)" "tview (set_user_arguments n a t) = tview t"
proof -
  have "tview (t\<lparr>t_memory := m, t_user_address_space := sp\<rparr>) = tview t" for m t by (simp add: tview_def)
  then show "tview (new_user_task env p nm sp t) = (int p, -1, TASK_BLOCKED)"
    by (simp add: new_user_task_def Let_def sched_simps)
qed (simp add: set_user_arguments_def tview_def)

text \<open>The ways filling a slot can end, seen in the task table: success, or the slot given back.\<close>

definition slot_outcome :: "nat \<Rightarrow> kernel \<Rightarrow> nat option \<times> kernel \<Rightarrow> bool" where
  "slot_outcome p k rj \<longleftrightarrow>
     current_task (snd rj) = current_task k \<and> threads_started (snd rj) = threads_started k \<and>
     (fst rj = Some p \<and> tviews (snd rj) = (tviews k)[p := (int p, -1, TASK_BLOCKED)] \<and> task_count (snd rj) = task_count k \<or>
      fst rj = None \<and> task_count (snd rj) = (if p = task_count k - 1 then task_count k - 1 else task_count k) \<and>
        (tviews (snd rj) = tviews k \<or> tviews (snd rj) = (tviews k)[p := (int p, -1, TASK_UNUSED)]))"

lemma abandon_outcome:
  assumes "p < length (tasks k)" "tviews j = (tviews k)[p := (int p, -1, TASK_BLOCKED)]" "task_count j = task_count k"
    "current_task j = current_task k" "threads_started j = threads_started k"
  shows "slot_outcome p k (abandon_user_task p sp tables j)"
proof -
  have "p < length (tasks j)" using arg_cong [OF assms(2), of length] assms(1) by simp
  moreover have "tviews j ! p = (int p, -1, TASK_BLOCKED)" unfolding assms(2) using assms(1) by simp
  ultimately have "tview (tasks j ! p) = (int p, -1, TASK_BLOCKED)" by simp
  then have "tview (set_state TASK_UNUSED (tasks j ! p)) = (int p, -1, TASK_UNUSED)" by (simp add: tview_def set_state_def)
  then have "tviews (upd_task p (set_state TASK_UNUSED) (j\<lparr>user_tables_of := tables\<rparr>)) = (tviews k)[p := (int p, -1, TASK_UNUSED)]"
    using assms(2) by (simp add: upd_task_fields map_update)
  then show ?thesis
    using assms(3-5)
    by (simp add: slot_outcome_def abandon_user_task_def drop_new_task_fields) (simp add: sched_simps)
qed

lemma place_arguments_outcome:
  assumes "p < length (tasks k)" "tviews j = (tviews k)[p := (int p, -1, TASK_BLOCKED)]" "task_count j = task_count k"
    "current_task j = current_task k" "threads_started j = threads_started k"
  shows "slot_outcome p k (place_arguments sp words base off p j)"
proof -
  let ?j = "upd_task p (set_user_arguments (length words) (as_user_data_start sp + base)) j"
  have j: "tviews ?j = (tviews k)[p := (int p, -1, TASK_BLOCKED)]" "task_count ?j = task_count k"
    "current_task ?j = current_task k" "threads_started ?j = threads_started k"
    using assms tviews_same [of "set_user_arguments (length words) (as_user_data_start sp + base)" j p]
    by (simp_all add: sched_simps)
  have fin: "slot_outcome p k (Some p, upd_task p (scheduler_init_task_el0 x) (?j\<lparr>user_tables_of := tt\<rparr>))" for x tt
    using j tviews_same [of "scheduler_init_task_el0 x" "?j\<lparr>user_tables_of := tt\<rparr>" p]
    by (simp add: slot_outcome_def sched_simps)
  note ab = abandon_outcome [OF assms] abandon_outcome [OF assms(1) j]
  show ?thesis
    unfolding place_arguments_def Let_def using ab fin by (auto split: prod.split bool.split)
qed

lemma place_user_task_outcome:
  assumes "p < length (tasks k)"
  shows "slot_outcome p k (place_user_task env nm bytes img words base off p k)"
proof -
  have "slot_outcome p k (place_arguments sp words base off p (upd_task p (new_user_task env p nm sp) (k\<lparr>user_tables_of := tb\<rparr>)))" for sp tb
    by (rule place_arguments_outcome [OF assms]) (simp_all add: sched_simps map_update)
  moreover have "slot_outcome p k (None, drop_new_task p sp (k\<lparr>user_tables_of := tb\<rparr>))" for sp tb
    by (simp add: slot_outcome_def drop_new_task_fields)
  ultimately show ?thesis unfolding place_user_task_def by (auto split: prod.split bool.split)
qed

lemma table_ok_shrink:
  assumes "table_ok vs count cur started" "1 \<le> c" "c \<le> count" "cur < c"
    and "\<And>i. c \<le> i \<Longrightarrow> i < count \<Longrightarrow> snd (snd (vs ! i)) = TASK_UNUSED"
  shows "table_ok vs c cur started"
proof -
  have "snd (snd (vs ! i)) = TASK_UNUSED" if "i < 8" "c \<le> i" for i
    using assms(1,5) that by (cases "i < count") (auto simp: table_ok_def)
  then show ?thesis using assms by (simp add: table_ok_def)
qed

lemma slot_back_ok:
  assumes "sched_inv k" "pick_slot k = Some (p, k')" "vs = tviews k \<or> vs = (tviews k)[p := (int p, -1, TASK_UNUSED)]"
  shows "table_ok vs (if p = task_count k' - 1 then task_count k' - 1 else task_count k') (current_task k) (threads_started k)"
proof -
  note p = pick_slot_SomeD(1-5) [OF assms(1,2)] pick_slot_SomeD(7) [OF assms(1,2)] and d = sched_invD [OF assms(1)]
  have "table_ok ((tviews k)[p := (int p, -1, TASK_UNUSED)]) (task_count k) (current_task k) (threads_started k)"
    by (rule table_ok_upd [of _ "task_count k"]) (use p(1-3) assms(1) in \<open>simp_all add: sched_inv_def\<close>)
  then have ok: "table_ok vs (task_count k) (current_task k) (threads_started k)"
    using assms(1,3) by (auto simp: sched_inv_def)
  have un: "snd (snd (vs ! p)) = TASK_UNUSED" using assms(3) p(2,4) d(1) by (auto simp: tview_def)
  show ?thesis
  proof (rule table_ok_shrink [OF ok])
    let ?c = "if p = task_count k' - 1 then task_count k' - 1 else task_count k'"
    show "1 \<le> ?c" "?c \<le> task_count k" "current_task k < ?c" using p(1,3,5,6) d(4) by (simp_all split: if_split) linarith+
    fix i assume i: "?c \<le> i" "i < task_count k"
    have "i = p" using i p(5,6) by (simp split: if_splits)
    then show "snd (snd (vs ! i)) = TASK_UNUSED" using un by simp
  qed
qed

lemma create_user_inv:
  assumes "sched_inv k"
  shows "sched_inv (snd (create_user_task_from_file env name file argument k))"
proof (cases "plan_user_task file argument = None \<or> pick_slot k = None")
  case True
  then show ?thesis using assms by (auto simp: create_user_task_from_file_def split: option.splits)
next
  case False
  then obtain img words base off p k' where
    pk: "plan_user_task file argument = Some (img, words, base, off)" "pick_slot k = Some (p, k')" 
    by (cases "plan_user_task file argument"; cases "pick_slot k") auto
  note p = pick_slot_SomeD [OF assms pk(2)] and d = sched_invD [OF assms]
  obtain r j where j: "place_user_task env (case name of Some n \<Rightarrow> n | None \<Rightarrow> ''user-demo'') (fst (the file)) img words base off p k' = (r, j)"
    by fastforce
  have k': "tasks k' = tasks k" "current_task k' = current_task k" "threads_started k' = threads_started k"
    by (subst p(6), simp)+
  have lp: "p < length (tasks k')" using p(2) d(1) k' by simp
  have v: "current_task j = current_task k \<and> threads_started j = threads_started k \<and>
     (r = Some p \<and> tviews j = (tviews k)[p := (int p, -1, TASK_BLOCKED)] \<and> task_count j = task_count k' \<or>
      r = None \<and> task_count j = (if p = task_count k' - 1 then task_count k' - 1 else task_count k') \<and>
        (tviews j = tviews k \<or> tviews j = (tviews k)[p := (int p, -1, TASK_UNUSED)]))"
    using place_user_task_outcome [OF lp, of env "case name of Some n \<Rightarrow> n | None \<Rightarrow> ''user-demo''" "fst (the file)" img words base off]
    unfolding j slot_outcome_def k' by simp
  have len: "length (tasks j) = 8"
  proof -
    have "length (tviews j) = length (tviews k)" using v by (elim conjE disjE) (simp_all only: length_list_update)
    then show ?thesis using d(1) by simp
  qed
  have "sched_inv j"
  proof (cases r)
    case (Some q)
    then show ?thesis using v by (intro new_task_inv [OF assms pk(2) len, of TASK_BLOCKED]) auto
  next
    case None
    then show ?thesis
      unfolding sched_inv_def using v slot_back_ok [OF assms pk(2), of "tviews j"] by auto
  qed
  then show ?thesis using pk j by (simp add: create_user_task_from_file_def)
qed

lemma valid_pid_nat: "valid_pid k pid \<Longrightarrow> pid \<noteq> 0 \<Longrightarrow> 0 < nat pid \<and> nat pid < task_count k"
  by (auto simp: valid_pid_def)

lemma block_inv: "sched_inv k \<Longrightarrow> sched_inv (snd (scheduler_block_task pid k))"
  unfolding scheduler_block_task_def Let_def
  by (auto intro!: sched_inv_upd_state dest: valid_pid_nat)

lemma unblock_inv: "sched_inv k \<Longrightarrow> sched_inv (snd (scheduler_unblock_task pid k))"
  unfolding scheduler_unblock_task_def Let_def
  by (auto intro!: sched_inv_upd_state simp: set_state_def dest: valid_pid_nat)

lemma set_task_space_inv: "sched_inv (set_task_space i sp k) = sched_inv k"
  by (rule sched_inv_cong) (simp_all add: sched_simps)

lemma refresh_stub_fields [sched_simps]:
  "tviews (refresh_stub i k) = tviews k" "task_count (refresh_stub i k) = task_count k"
  "current_task (refresh_stub i k) = current_task k" "threads_started (refresh_stub i k) = threads_started k"
  by (simp_all add: refresh_stub_def sched_simps split: option.split)

lemma refresh_all_fields:
  "tviews (fold refresh_stub is k) = tviews k \<and> task_count (fold refresh_stub is k) = task_count k \<and>
   current_task (fold refresh_stub is k) = current_task k \<and> threads_started (fold refresh_stub is k) = threads_started k"
  by (induction "is" arbitrary: k) (simp_all add: refresh_stub_fields)

lemma refresh_fields [sched_simps]:
  "tviews (refresh_stubs k) = tviews k" "task_count (refresh_stubs k) = task_count k"
  "current_task (refresh_stubs k) = current_task k" "threads_started (refresh_stubs k) = threads_started k"
  using refresh_all_fields by (simp_all add: refresh_stubs_def)

lemma refresh_inv: "sched_inv (refresh_stubs k) = sched_inv k"
  by (rule sched_inv_cong) (simp_all add: refresh_fields)

lemma set_task_space_state: "i < length (tasks k) \<Longrightarrow> t_state (tasks (set_task_space j sp k) ! i) = t_state (tasks k ! i)"
  by (cases "i = j") (simp_all add: set_task_space_def upd_task_def split: space_ref.split)

lemma unblock_user_inv:
  assumes "sched_inv k"
  shows "sched_inv (snd (scheduler_unblock_user_task env pid k))"
proof -
  have "sched_inv (upd_task (nat pid) f (set_task_space (nat pid) sp k))"
    if "valid_pid k pid" "\<And>t. t_pid (f t) = t_pid t" "\<And>t. t_parent_pid (f t) = t_parent_pid t" "\<And>t. t_state (f t) = TASK_READY" for f sp
    by (rule sched_inv_upd_state)
      (use that assms sched_invD(4) [OF assms] in \<open>auto simp: set_task_space_inv sched_simps valid_pid_def\<close>)
  then show ?thesis
    unfolding scheduler_unblock_user_task_def Let_def using assms
    by (auto simp: set_task_space_inv upd_user_status_def split: option.split prod.split)
qed

lemma reap_inv: "sched_inv k \<Longrightarrow> sched_inv (snd (scheduler_reap_zombie_task pid k))"
  unfolding scheduler_reap_zombie_task_def Let_def
  by (auto intro!: trim_inv clear_slot_inv dest: valid_pid_nat simp: nat_eq_iff)

lemma reap_all_inv:
  assumes "sched_inv k"
  shows "sched_inv (snd (scheduler_reap_zombies k))"
  using reap_fold_inv [OF assms, of "[1..<task_count k]" 0]
  by (auto simp: scheduler_reap_zombies_def intro!: trim_inv split: prod.split)

lemma wait_inv:
  assumes inv: "sched_inv k"
  shows "sched_inv (snd (snd (scheduler_wait_task_status pid k)))"
proof -
  let ?find = "find (\<lambda>i. t_parent_pid (tasks k ! i) = int (current_task k) \<and> t_state (tasks k ! i) = TASK_ZOMBIE) [1..<task_count k]"
  let ?q = "if pid = 0 then (case ?find of Some i \<Rightarrow> int i | None \<Rightarrow> 0) else pid"
  have q: "0 < nat ?q" "nat ?q < task_count k" "nat ?q \<noteq> current_task k"
    if h: "\<not> (\<not> valid_pid k pid \<or> pid = int (current_task k))" "?q \<noteq> 0"
      "t_parent_pid (tasks k ! nat ?q) = int (current_task k)"
  proof -
    have lt: "0 < nat ?q \<and> nat ?q < task_count k"
    proof (cases "pid = 0")
      case True
      then obtain i where "?find = Some i" using h(2) by (cases ?find) auto
      moreover from this have "i \<in> set [1..<task_count k]" by (auto simp: find_Some_iff)
      ultimately show ?thesis using True by simp
    qed (use h(1) in \<open>auto simp: valid_pid_def\<close>)
    then show "0 < nat ?q" "nat ?q < task_count k" by simp_all
    show "nat ?q \<noteq> current_task k"
      using sched_invD(6) [OF inv, of "nat ?q"] sched_invD(3) [OF inv] lt h(3) by auto
  qed
  show ?thesis
    unfolding scheduler_wait_task_status_def Let_def
    using inv q trim_inv [OF clear_slot_inv [OF inv]] by (auto split: if_splits)
qed

lemma parent_inv:
  assumes "sched_inv k"
  shows "sched_inv (snd (scheduler_set_task_parent pid parent k))"
proof (cases "pid \<le> 0 \<or> pid \<ge> int (task_count k) \<or> parent \<le> 0 \<or> parent \<ge> int (task_count k) \<or> pid = parent")
  case True
  then show ?thesis using assms by (simp add: scheduler_set_task_parent_def)
next
  case False
  let ?p = "nat pid"
  note d = sched_invD [OF assms]
  have p: "?p < task_count k" "?p < length (tasks k)" "int ?p = pid" using False d(1,3) by auto
  let ?v = "tview (tasks k ! ?p)"
  have run: "t_state (tasks k ! ?p) = TASK_RUNNING \<Longrightarrow> threads_started k \<and> ?p = current_task k"
    using d(9) [of ?p] p d(1) by simp
  have v: "fst ?v = int ?p" "parent \<noteq> int ?p" "?p \<noteq> 0" using d(5) [OF p(1)] False p(3) by (auto simp: tview_def)
  have "table_ok ((tviews k)[?p := (fst ?v, parent, snd (snd ?v))]) (task_count k) (current_task k) (threads_started k)"
    by (rule table_ok_upd [of _ "task_count k"])
      (use p v run d(1,10) assms in \<open>simp_all add: sched_inv_def tview_def\<close>)
  then show ?thesis using False
    by (simp add: scheduler_set_task_parent_def sched_inv_def sched_simps map_update tview_def)
qed

lemma terminate_inv: "sched_inv k \<Longrightarrow> sched_inv (snd (scheduler_terminate_child pid code k))"
  unfolding scheduler_terminate_child_def Let_def
  by (auto intro!: sched_inv_upd_state simp: set_state_def upd_user_status_def nat_eq_iff)

lemma finish_task_inv:
  assumes "sched_inv k" "i \<noteq> 0" "i < task_count k"
  shows "sched_inv (snd (finish_user_task i status k))"
  using assms unfolding finish_user_task_def
  by (auto intro!: sched_inv_upd_state simp: set_state_def upd_user_status_def)

lemma session_inv:
  "sched_inv (upd_session g k) = sched_inv k" "sched_inv (switch_root r k) = sched_inv k"
  "sched_inv (upd_session_task h k) = sched_inv k" "sched_inv (upd_task i (upd_user_status u) k) = sched_inv k"
  "sched_inv (k\<lparr>elr_el1 := a, spsr_el1 := b\<rparr>) = sched_inv k"
  by (rule sched_inv_cong; simp add: sched_simps tviews_same)+

lemma user_begin_inv: "sched_inv k \<Longrightarrow> sched_inv (snd (user_mode_begin env i k))"
  by (simp add: user_mode_begin_def Let_def session_inv set_task_space_inv split: option.split prod.split)

lemma user_finish_inv: "sched_inv k \<Longrightarrow> sched_inv (snd (user_mode_finish i k))"
  by (simp add: user_mode_finish_def Let_def session_inv)

lemma handle_exception_inv: "sched_inv k \<Longrightarrow> sched_inv (snd (user_mode_handle_exception esr elr far spsr k))"
  by (simp add: user_mode_handle_exception_def user_session_reject_def Let_def session_inv)

lemma handle_exit_inv: "sched_inv k \<Longrightarrow> sched_inv (snd (user_mode_handle_exit_syscall code k))"
  by (simp add: user_mode_handle_exit_syscall_def Let_def session_inv)

lemma set_running_inv:
  assumes "sched_inv k" "threads_started k" "n < task_count k" "t_state (tasks k ! current_task k) \<noteq> TASK_RUNNING"
  shows "sched_inv (scheduler_set_running_task n (k\<lparr>current_task := n\<rparr>))"
proof -
  note d = sched_invD [OF assms(1)]
  let ?t = "(tasks k)[n := upd_accounting (\<lambda>a. a\<lparr>ac_switches := ac_switches a + 1\<rparr>) (set_state TASK_RUNNING (tasks k ! n))]"
  have norun: "t_state (tasks k ! i) \<noteq> TASK_RUNNING" if "i < 8" for i using d(9) [OF that] assms(4) by auto
  have n: "t_state (?t ! i) = (if i = n then TASK_RUNNING else t_state (tasks k ! i))"
    "t_pid (?t ! i) = t_pid (tasks k ! i)" "t_parent_pid (?t ! i) = t_parent_pid (tasks k ! i)" if "i < 8" for i
    using that d(1,3) assms(3) by (cases "i = n"; simp add: upd_accounting_def set_state_def)+
  have "sched_inv (k\<lparr>current_task := n, tasks := ?t\<rparr>)"
    unfolding sched_inv_tasks
    using d assms(2,3) n norun by (auto simp: n tview_upds)
  then show ?thesis by (simp add: scheduler_set_running_task_def upd_task_def)
qed

lemma demote_inv:
  assumes "sched_inv k"
  shows "sched_inv (upd_task (current_task k) demote k)" "t_state (tasks (upd_task (current_task k) demote k) ! current_task k) \<noteq> TASK_RUNNING"
proof -
  note d = sched_invD [OF assms]
  show "sched_inv (upd_task (current_task k) demote k)"
    by (rule sched_inv_upd_state [OF assms d(4)]) (use d(8,10) in \<open>auto simp: demote_def tview_upds set_state_def split: if_splits\<close>)
  show "t_state (tasks (upd_task (current_task k) demote k) ! current_task k) \<noteq> TASK_RUNNING"
    using d(1,3,4) by (simp add: upd_task_fields demote_def set_state_def)
qed

lemma accounting_inv: "sched_inv (upd_task i (upd_accounting g) k) = sched_inv k"
  by (rule sched_inv_cong; simp add: sched_simps tviews_same)

lemma tick_inv:
  assumes "sched_inv k" "threads_started k"
  shows "sched_inv (scheduler_tick k)"
proof -
  let ?w = "scheduler_wake_sleeping_tasks (k\<lparr>scheduler_ticks := scheduler_ticks k + 1\<rparr>)"
  let ?a = "upd_task (current_task k) (upd_accounting (\<lambda>a. a\<lparr>ac_run_ticks := ac_run_ticks a + 1\<rparr>)) ?w"
  have a: "sched_inv ?a" "current_task ?a = current_task k" "threads_started ?a"
    using wake_inv [of "k\<lparr>scheduler_ticks := scheduler_ticks k + 1\<rparr>"] assms
    by (simp_all add: accounting_inv ticks_inv sched_simps)
  let ?d = "upd_task (current_task ?a) demote ?a"
  note d = demote_inv [OF a(1)]
  let ?n = "scheduler_next_runnable_task ?d"
  let ?p = "upd_accounting (\<lambda>x. x\<lparr>ac_preemptions := ac_preemptions x + 1\<rparr>)"
  let ?e = "upd_task (current_task k) ?p ?d"
  have e: "sched_inv ?e" using d(1) by (simp add: accounting_inv)
  have "t_state (tasks ?e ! current_task ?e) \<noteq> TASK_RUNNING"
    using d(2) sched_invD(1,3,4) [OF d(1)] a(2) by (simp add: upd_task_fields tview_upds)
  then have "sched_inv (scheduler_set_running_task ?n (?e\<lparr>current_task := ?n\<rparr>))"
    using set_running_inv [OF e] next_runnable(1) [OF d(1)] a(3) by (simp add: upd_task_fields)
  moreover have "?e\<lparr>current_task := ?n\<rparr> = upd_task (current_task k) ?p (?d\<lparr>current_task := ?n\<rparr>)"
    by (simp add: upd_task_def)
  ultimately show ?thesis
    using a(1,2) by (simp add: scheduler_tick_def Let_def sched_simps)
qed

lemma sleep_inv:
  assumes "sched_inv k" "scheduler_sleep_ms interval ms k = Some k'"
  shows "sched_inv k'"
proof (cases "\<not> threads_started k \<or> current_task k = 0 \<or> interval = 0")
  case True
  then show ?thesis using assms by (simp add: scheduler_sleep_ms_def)
next
  case False
  define f :: "task \<Rightarrow> task" where "f = (\<lambda>t. t\<lparr>t_sleep_requested_ms := ms,
      t_sleep_until_tick := scheduler_ticks k + (let n = (ms + interval - 1) div interval in if n = 0 then 1 else n),
      t_state := TASK_SLEEPING\<rparr>)"
  have "sched_inv (upd_task (current_task k) f k)"
    by (rule sched_inv_upd_state [OF assms(1) sched_invD(4) [OF assms(1)]]) (use False in \<open>simp_all add: f_def\<close>)
  moreover have "scheduler_yield (upd_task (current_task k) f k) = Some k'"
    using assms(2) False by (simp add: scheduler_sleep_ms_def f_def Let_def)
  ultimately show ?thesis using yield_inv False by (simp add: upd_task_fields)
qed

lemma exit_prepare:
  assumes "sched_inv k" "current_task k \<noteq> 0"
  defines "z \<equiv> (upd_task (current_task k) (set_state TASK_ZOMBIE) (orphan_children (current_task k) k))\<lparr>current_task := current_task k\<rparr>"
  shows "sched_inv z" "t_state (tasks z ! current_task k) = TASK_ZOMBIE" "current_task z = current_task k"
    "task_count z = task_count k" "threads_started z = threads_started k" "length (tasks z) = 8"
proof -
  note d = sched_invD [OF assms(1)]
  let ?c = "current_task k" and ?o = "orphan_children (current_task k) k"
  have o: "t_state (tasks ?o ! i) = t_state (tasks k ! i)" "t_pid (tasks ?o ! i) = t_pid (tasks k ! i)"
    "t_parent_pid (tasks ?o ! i) \<noteq> int i" if "i < 8" for i
    using that d(1) d(6) [OF that] by (simp_all add: orphan_children_def)
  have f: "task_count ?o = task_count k" "current_task ?o = ?c" "threads_started ?o = threads_started k" "length (tasks ?o) = 8"
    using d(1) by (simp_all add: orphan_children_def)
  have inv: "sched_inv ?o" unfolding sched_inv_tasks f using d o by auto
  have zeq: "z = upd_task ?c (set_state TASK_ZOMBIE) ?o" using f(2) by (simp add: z_def upd_task_def)
  show "sched_inv z" unfolding zeq
    by (rule sched_inv_upd_state [OF inv]) (use d(4) assms(2) f in \<open>simp_all add: set_state_def\<close>)
  show "t_state (tasks z ! ?c) = TASK_ZOMBIE" "current_task z = ?c" "task_count z = task_count k"
    "threads_started z = threads_started k" "length (tasks z) = 8"
    using d(3,4) f by (simp_all add: zeq upd_task_fields set_state_def)
qed

lemma exit_inv:
  assumes "sched_inv k" "threads_started k" "current_task k \<noteq> 0" "scheduler_exit k = Some k'"
  shows "sched_inv k'"
  using assms(4) yield_inv [OF exit_prepare(1) [OF assms(1,3)]] exit_prepare(5) [OF assms(1,3)] assms(2)
  by (auto simp: scheduler_exit_def scheduler_exit_task_def split: option.splits if_splits)

lemma start_inv:
  assumes "sched_inv k" "\<not> threads_started k"
  shows "sched_inv (scheduler_start_threads k)"
proof -
  note d = sched_invD [OF assms(1)]
  have norun: "t_state (tasks k ! i) \<noteq> TASK_RUNNING" if "i < 8" for i using d(9) [OF that] assms(2) by auto
  have "sched_inv (k\<lparr>threads_started := True\<rparr>)" using assms(1) by (auto simp: sched_inv_tasks)
  then have "sched_inv (scheduler_set_running_task 0 (k\<lparr>threads_started := True, current_task := 0\<rparr>))"
    using set_running_inv [of "k\<lparr>threads_started := True\<rparr>" 0] norun [of "current_task k"] d(2,3,4) by simp
  then show ?thesis by (simp add: scheduler_start_threads_def Let_def sched_inv_tasks)
qed

section \<open>The state machine\<close>

text \<open>
  One step is one call of an entry point of the scheduler or of the EL0 sessions. Functions that act
  on the running thread happen after the threads were started; the excursion to EL0 is split where
  control leaves the kernel, so that other steps can happen in between.
\<close>

inductive sched_step :: "kernel_env \<Rightarrow> kernel \<Rightarrow> kernel \<Rightarrow> bool" for env where
  step_thread: "sched_step env k (snd (scheduler_create_kernel_thread env name entry k))"
| step_user: "sched_step env k (snd (create_user_task_from_file env uname image_file argument k))"
| step_admit: "sched_step env k (snd (scheduler_unblock_user_task env pid k))"
| step_block: "sched_step env k (snd (scheduler_block_task pid k))"
| step_unblock: "sched_step env k (snd (scheduler_unblock_task pid k))"
| step_reap: "sched_step env k (snd (scheduler_reap_zombie_task pid k))"
| step_reap_all: "sched_step env k (snd (scheduler_reap_zombies k))"
| step_wait: "sched_step env k (snd (snd (scheduler_wait_task_status pid k)))"
| step_parent: "sched_step env k (snd (scheduler_set_task_parent pid parent k))"
| step_terminate: "sched_step env k (snd (scheduler_terminate_child pid code k))"
| step_begin: "threads_started k \<Longrightarrow> current_task k \<noteq> 0 \<Longrightarrow> sched_step env k (snd (user_mode_begin env (current_task k) k))"
| step_finish: "threads_started k \<Longrightarrow> current_task k \<noteq> 0 \<Longrightarrow> sched_step env k (snd (user_mode_finish (current_task k) k))"
| step_done: "threads_started k \<Longrightarrow> current_task k \<noteq> 0 \<Longrightarrow> sched_step env k (snd (finish_user_task (current_task k) status k))"
| step_trap: "sched_step env k (snd (user_mode_handle_exception esr elr far spsr k))"
| step_sysexit: "sched_step env k (snd (user_mode_handle_exit_syscall code k))"
| step_tick: "threads_started k \<Longrightarrow> sched_step env k (scheduler_tick k)"
| step_yield: "threads_started k \<Longrightarrow> scheduler_yield k = Some k' \<Longrightarrow> sched_step env k k'"
| step_sleep: "scheduler_sleep_ms interval ms k = Some k' \<Longrightarrow> sched_step env k k'"
| step_preempt: "sched_step env k (scheduler_preempt k)"
| step_exit: "threads_started k \<Longrightarrow> current_task k \<noteq> 0 \<Longrightarrow> scheduler_exit k = Some k' \<Longrightarrow> sched_step env k k'"
| step_dump: "sched_step env k (refresh_stubs k)"
| step_start: "\<not> threads_started k \<Longrightarrow> sched_step env k (scheduler_start_threads k)"

lemma sched_step_inv: "sched_step env k k' \<Longrightarrow> sched_inv k \<Longrightarrow> sched_inv k'"
proof (induction rule: sched_step.induct)
  case (step_done k status)
  then show ?case by (intro finish_task_inv) (auto dest: sched_invD(4))
qed (auto intro: add_task_inv create_user_inv unblock_user_inv block_inv unblock_inv reap_inv reap_all_inv wait_inv
    parent_inv terminate_inv user_begin_inv user_finish_inv handle_exception_inv handle_exit_inv tick_inv yield_inv
    sleep_inv preempt_inv exit_inv start_inv simp: scheduler_create_kernel_thread_def refresh_inv)

lemma reachable_inv: "(sched_step env)\<^sup>*\<^sup>* k k' \<Longrightarrow> sched_inv k \<Longrightarrow> sched_inv k'"
  by (induction rule: rtranclp_induct) (auto dest: sched_step_inv)

end
