(* ===== verification/SchedulerProps.thy ===== *)
theory SchedulerProps
  imports SchedulerInv
begin

text \<open>
  What the scheduler guarantees: the invariant of every reached state, fairness of preemption, what a
  switch does to registers and translation, sleeping, child tasks, and the stacks with their guards.
\<close>

section \<open>The switch\<close>

text \<open>What a switch from the current task \<open>c\<close> to \<open>n\<close> does to the tasks and the registers.\<close>

definition switch_tasks :: "nat \<Rightarrow> nat \<Rightarrow> (task \<Rightarrow> task) \<Rightarrow> kernel \<Rightarrow> kernel" where
  "switch_tasks c n f k = (scheduler_set_running_task n (upd_task c f k))\<lparr>current_task := n\<rparr>"

lemma switch_tasks_nth:
  assumes "c < length (tasks k)" "n < length (tasks k)" "n \<noteq> c" "i < length (tasks k)"
    and f: "\<And>t. t_state (f t) = (if t_state t = TASK_RUNNING then TASK_READY else t_state t)"
      "\<And>t. t_context (f t) = t_context t" "\<And>t. t_memory (f t) = t_memory t"
      "\<And>t. t_user_address_space (f t) = t_user_address_space t" "\<And>t. t_pid (f t) = t_pid t"
  shows "t_state (tasks (switch_tasks c n f k) ! i) =
      (if i = n then TASK_RUNNING else if i = c \<and> t_state (tasks k ! c) = TASK_RUNNING then TASK_READY else t_state (tasks k ! i))"
    "t_context (tasks (switch_tasks c n f k) ! i) = t_context (tasks k ! i)"
    "t_memory (tasks (switch_tasks c n f k) ! i) = t_memory (tasks k ! i)"
    "t_user_address_space (tasks (switch_tasks c n f k) ! i) = t_user_address_space (tasks k ! i)"
    "t_pid (tasks (switch_tasks c n f k) ! i) = t_pid (tasks k ! i)"
  using assms
  by (cases "i = n"; cases "i = c"; simp add: switch_tasks_def scheduler_set_running_task_def upd_task_fields
      upd_accounting_def set_state_def)+

lemma switch_tasks_fields [sched_simps]:
  "task_count (switch_tasks c n f k) = task_count k" "current_task (switch_tasks c n f k) = n"
  "threads_started (switch_tasks c n f k) = threads_started k" "length (tasks (switch_tasks c n f k)) = length (tasks k)"
  "mmu (switch_tasks c n f k) = mmu k" "cpu (switch_tasks c n f k) = cpu k" "user_sessions (switch_tasks c n f k) = user_sessions k"
  "kernel_address_space (switch_tasks c n f k) = kernel_address_space k"
  by (simp_all add: switch_tasks_def scheduler_set_running_task_def upd_task_fields)

lemma cpu_switch_nth:
  assumes "a < length (tasks k)" "b < length (tasks k)" "a \<noteq> b" "i < length (tasks k)"
  shows "t_state (tasks (cpu_switch_to a b k) ! i) = t_state (tasks k ! i)"
    "t_context (tasks (cpu_switch_to a b k) ! i) = (if i = a then cpu k else t_context (tasks k ! i))"
    "t_memory (tasks (cpu_switch_to a b k) ! i) = t_memory (tasks k ! i)"
    "t_pid (tasks (cpu_switch_to a b k) ! i) = t_pid (tasks k ! i)"
    "t_user_address_space (tasks (cpu_switch_to a b k) ! i) = t_user_address_space (tasks k ! i)"
    "cpu (cpu_switch_to a b k) = t_context (tasks k ! b)"
  using assms by (cases "i = a"; simp add: cpu_switch_to_def Let_def upd_task_fields)+

section \<open>Preemption\<close>

text \<open>The state preemption selects in: the tick counted, sleepers woken, the run accounted.\<close>

definition preempt_base :: "kernel \<Rightarrow> kernel" where
  "preempt_base k = upd_task (current_task k) (upd_accounting (\<lambda>a. a\<lparr>ac_run_ticks := ac_run_ticks a + 1\<rparr>))
     (scheduler_wake_sleeping_tasks (k\<lparr>scheduler_ticks := scheduler_ticks k + 1\<rparr>))"

lemma preempt_base_fields [sched_simps]:
  "task_count (preempt_base k) = task_count k" "current_task (preempt_base k) = current_task k"
  "threads_started (preempt_base k) = threads_started k" "length (tasks (preempt_base k)) = length (tasks k)"
  "mmu (preempt_base k) = mmu k" "user_sessions (preempt_base k) = user_sessions k" "cpu (preempt_base k) = cpu k"
  by (simp_all add: preempt_base_def sched_simps)

lemma preempt_base_nth:
  assumes "i < length (tasks k)"
  shows "t_state (tasks (preempt_base k) ! i) =
      (if i < task_count k \<and> t_state (tasks k ! i) = TASK_SLEEPING \<and> t_sleep_until_tick (tasks k ! i) \<le> scheduler_ticks k + 1
       then TASK_READY else t_state (tasks k ! i))"
    "t_context (tasks (preempt_base k) ! i) = t_context (tasks k ! i)"
    "t_pid (tasks (preempt_base k) ! i) = t_pid (tasks k ! i)"
    "t_memory (tasks (preempt_base k) ! i) = t_memory (tasks k ! i)"
    "t_user_address_space (tasks (preempt_base k) ! i) = t_user_address_space (tasks k ! i)"
  using assms wake_nth [of i "k\<lparr>scheduler_ticks := scheduler_ticks k + 1\<rparr>"]
  by (cases "i = current_task k"; simp add: preempt_base_def upd_task_fields wake_fields wake_task_view upd_accounting_def)+

definition preempted :: "task \<Rightarrow> task" where
  "preempted t = upd_accounting (\<lambda>a. a\<lparr>ac_preemptions := ac_preemptions a + 1\<rparr>) (demote t)"

lemma preempted_fields:
  "t_state (preempted t) = (if t_state t = TASK_RUNNING then TASK_READY else t_state t)"
  "t_context (preempted t) = t_context t" "t_memory (preempted t) = t_memory t"
  "t_user_address_space (preempted t) = t_user_address_space t" "t_pid (preempted t) = t_pid t"
  by (simp_all add: preempted_def upd_accounting_def demote_def set_state_def)

lemma preempt_eq:
  "scheduler_preempt k =
     (if \<not> threads_started k \<or> task_count k < 2 then k
      else let n = scheduler_next_runnable_task (preempt_base k) in
        if n = current_task k then preempt_base k
        else cpu_switch_to (current_task k) n (switch_tasks (current_task k) n preempted (preempt_base k)))"
  by (simp add: scheduler_preempt_def preempt_base_def preempted_def [abs_def] switch_tasks_def Let_def sched_simps)

lemma preempt_base_inv: "sched_inv k \<Longrightarrow> sched_inv (preempt_base k)"
  using wake_inv [of "k\<lparr>scheduler_ticks := scheduler_ticks k + 1\<rparr>"]
  by (simp add: preempt_base_def accounting_inv ticks_inv)

lemma preempt_fields:
  assumes "threads_started k" "2 \<le> task_count k"
  shows "current_task (scheduler_preempt k) = scheduler_next_runnable_task (preempt_base k)"
    "task_count (scheduler_preempt k) = task_count k" "threads_started (scheduler_preempt k)"
    "mmu (scheduler_preempt k) = mmu k"
  using assms by (simp_all add: preempt_eq Let_def sched_simps)

lemma preempt_keeps_runnable:
  assumes "sched_inv k" "threads_started k" "2 \<le> task_count k" "j < task_count k" "scheduler_task_is_runnable (tasks k ! j)"
  shows "scheduler_task_is_runnable (tasks (preempt_base k) ! j)" "scheduler_task_is_runnable (tasks (scheduler_preempt k) ! j)"
proof -
  note d = sched_invD [OF assms(1)]
  have j: "j < length (tasks k)" using d(1,3) assms(4) by simp
  show b: "scheduler_task_is_runnable (tasks (preempt_base k) ! j)"
    using assms(5) by (auto simp: scheduler_task_is_runnable_def preempt_base_nth [OF j])
  let ?n = "scheduler_next_runnable_task (preempt_base k)"
  show "scheduler_task_is_runnable (tasks (scheduler_preempt k) ! j)"
  proof (cases "?n = current_task k")
    case True
    then show ?thesis using b assms(2,3) by (simp add: preempt_eq Let_def)
  next
    case False
    have n: "?n < length (tasks (preempt_base k))" "current_task k < length (tasks (preempt_base k))"
      using next_runnable(1) [OF preempt_base_inv [OF assms(1)]] d(1,3,4) by (simp_all add: preempt_base_fields)
    have "t_state (tasks (scheduler_preempt k) ! j) = t_state (tasks (switch_tasks (current_task k) ?n preempted (preempt_base k)) ! j)"
      using False assms(2,3) n j by (simp add: preempt_eq Let_def cpu_switch_nth sched_simps)
    then show ?thesis
      using b j n False unfolding scheduler_task_is_runnable_def
      by (simp add: switch_tasks_nth [OF n(2,1) False] preempted_fields preempt_base_fields)
  qed
qed

text \<open>How far ahead of the current task another task is in the cyclic order.\<close>

definition turn_distance :: "nat \<Rightarrow> kernel \<Rightarrow> nat" where
  "turn_distance j k = (if current_task k < j then j - current_task k else task_count k - current_task k + j)"

lemma turn_distance_ahead:
  assumes "current_task k < task_count k" "j < task_count k" "j \<noteq> current_task k"
  shows "0 < turn_distance j k" "turn_distance j k < task_count k" "(current_task k + turn_distance j k) mod task_count k = j"
    "0 < d \<Longrightarrow> d < turn_distance j k \<Longrightarrow> current_task k' = (current_task k + d) mod task_count k \<Longrightarrow> task_count k' = task_count k \<Longrightarrow>
     turn_distance j k' = turn_distance j k - d \<and> j \<noteq> current_task k'"
proof -
  let ?c = "current_task k" and ?n = "task_count k"
  have m: "(?c + d) mod ?n = (if ?c + d < ?n then ?c + d else ?c + d - ?n)" if "d \<le> ?n" for d
    using assms(1) that by (auto simp: le_mod_geq)
  show t: "0 < turn_distance j k" "turn_distance j k < ?n"
    using assms by (simp_all add: turn_distance_def) linarith
  show "(?c + turn_distance j k) mod ?n = j"
    using m [of "turn_distance j k"] t assms by (simp add: turn_distance_def split: if_splits)
  assume d: "0 < d" "d < turn_distance j k" "current_task k' = (?c + d) mod ?n" "task_count k' = ?n"
  then have c': "current_task k' = (if ?c + d < ?n then ?c + d else ?c + d - ?n)" using m [of d] t(2) by simp
  show "turn_distance j k' = turn_distance j k - d \<and> j \<noteq> current_task k'"
    using d(1,2,4) assms unfolding turn_distance_def c' d(4) by (simp split: if_splits) linarith+
qed

lemma preempt_advances:
  assumes inv: "sched_inv k" "threads_started k" "2 \<le> task_count k"
    and j: "0 < j" "j < task_count k" "j \<noteq> current_task k" "scheduler_task_is_runnable (tasks k ! j)"
  shows "current_task (scheduler_preempt k) = j \<or>
    j \<noteq> current_task (scheduler_preempt k) \<and> turn_distance j (scheduler_preempt k) < turn_distance j k"
proof -
  note c = sched_invD(4) [OF inv(1)]
  note t = turn_distance_ahead [OF c j(2,3)]
  let ?b = "preempt_base k"
  let ?P = "\<lambda>c. c \<noteq> 0 \<and> scheduler_task_is_runnable (tasks ?b ! c)"
  let ?f = "find ?P (map (\<lambda>i. (current_task k + i) mod task_count k) [1..<task_count k + 1])"
  have Pj: "?P j" using preempt_keeps_runnable(1) [OF inv j(2,4)] j(1) by simp
  obtain n where n: "?f = Some n"
  proof (cases ?f)
    case None
    then have "\<not> scheduler_task_is_runnable (tasks ?b ! j)"
      using next_task_None [OF preempt_base_inv [OF inv(1)] _ j(1)] j(2) by (simp add: preempt_base_fields)
    then show ?thesis using Pj by simp
  qed
  then obtain d where d: "1 \<le> d" "n = (current_task k + d) mod task_count k" "\<forall>e. 1 \<le> e \<and> e < d \<longrightarrow> \<not> ?P ((current_task k + e) mod task_count k)"
    unfolding find_candidate by blast
  have "d \<le> turn_distance j k" using d(3) [rule_format, of "turn_distance j k"] t(1,3) Pj by fastforce
  moreover have cur: "current_task (scheduler_preempt k) = n"
    using n preempt_fields(1) [OF inv(2,3)] by (simp add: scheduler_next_runnable_task_def preempt_base_fields)
  moreover have "n = j" if "d = turn_distance j k" using that d(2) t(3) by simp
  ultimately show ?thesis
    using t(4) [of d "scheduler_preempt k"] d(1,2) preempt_fields(2) [OF inv(2,3)] by (cases "d = turn_distance j k") auto
qed

lemma preempt_reaches:
  assumes "sched_inv k" "threads_started k" "2 \<le> task_count k" "0 < j" "j < task_count k" "scheduler_task_is_runnable (tasks k ! j)"
    and "j \<noteq> current_task k"
  shows "\<exists>n\<le>turn_distance j k. 0 < n \<and> current_task ((scheduler_preempt ^^ n) k) = j"
  using assms
proof (induction "turn_distance j k" arbitrary: k rule: less_induct)
  case less
  let ?k = "scheduler_preempt k"
  note adv = preempt_advances [OF less.prems(1-3,4,5,7,6)]
  note t = turn_distance_ahead(1) [OF sched_invD(4) [OF less.prems(1)] less.prems(5,7)]
  show ?case
  proof (cases "current_task ?k = j")
    case True
    then show ?thesis using t by (intro exI [of _ 1]) simp
  next
    case False
    then have lt: "turn_distance j ?k < turn_distance j k" "j \<noteq> current_task ?k" using adv by auto
    note f = preempt_fields [OF less.prems(2,3)]
    obtain n where "n \<le> turn_distance j ?k" "current_task ((scheduler_preempt ^^ n) ?k) = j"
      using less.hyps [OF lt(1)] preempt_inv [OF less.prems(1)] f less.prems lt(2)
        preempt_keeps_runnable(2) [OF less.prems(1-3,5,6)] by auto
    then show ?thesis using lt(1) by (intro exI [of _ "Suc n"]) (simp add: funpow_swap1)
  qed
qed

section \<open>The state at boot\<close>

text \<open>Zero-initialised static storage, with the kernel's address space set up.\<close>

definition space_bss :: address_space where
  "space_bss = (fst (address_space_init 0 user_tables_boot))\<lparr>as_name := [], as_user_table_slot := 0,
     as_shared_kernel_map := False, as_permission_split_ready := False, as_validation_ready := False,
     as_switch_ready := False\<rparr>"

definition task_bss :: task where
  "task_bss =
     \<lparr>t_pid = 0, t_parent_pid = 0, t_name = [], t_state = TASK_UNUSED, t_entry = None, t_context = scheduler_clear_context,
      t_sleep_until_tick = 0, t_sleep_requested_ms = 0, t_accounting = scheduler_clear_accounting,
      t_memory = scheduler_clear_memory, t_user_address_space = space_bss, t_el0 = scheduler_clear_el0,
      t_user_status = scheduler_clear_user_status,
      t_files = replicate TASK_MAX_FILES \<lparr>tf_used = False, tf_path = replicate 48 0, tf_offset = 0\<rparr>,
      t_user_argc = 0, t_user_argv_address = 0, t_user_arg_lengths_address = 0\<rparr>"

definition session_bss :: user_session_state where
  "session_bss =
     \<lparr>ss_active = False, ss_completed = False, ss_faulted = False, ss_last_reject_reason = USER_SESSION_REJECT_NONE,
      ss_reject_count = 0, ss_task = None, ss_return_pc = 0, ss_kernel_root = 0, ss_user_root = 0\<rparr>"

definition kernel_boot :: "u64 \<Rightarrow> cpu_context \<Rightarrow> mmu_regs \<Rightarrow> kernel" where
  "kernel_boot kernel_root regs mregs =
     \<lparr>tasks = replicate SCHED_MAX_TASKS task_bss, current_task = 0, task_count = 0, threads_started = False,
      scheduler_ticks = 0, bootstrap_context = scheduler_clear_context,
      kernel_address_space = fst (address_space_init kernel_root user_tables_boot),
      user_tables_of = snd (address_space_init kernel_root user_tables_boot),
      user_sessions = replicate SCHED_MAX_TASKS session_bss, cpu = regs, mmu = mregs, elr_el1 = 0, spsr_el1 = 0\<rparr>"

abbreviation sched_start :: "kernel_env \<Rightarrow> u64 \<Rightarrow> cpu_context \<Rightarrow> mmu_regs \<Rightarrow> kernel" where
  "sched_start env root regs mregs \<equiv> scheduler_init env (kernel_boot root regs mregs)"

lemma replicate_list_update: "(replicate 8 x)[0 := y] = y # replicate 7 x"
  by (simp add: numeral_eq_Suc)

text \<open>The switch check on the kernel's own space finds what is stored there.\<close>

lemma sched_start_eq:
  "sched_start env root regs mregs = snd (scheduler_add_task env ''idle'' (Some idle_task) (kernel_boot root regs mregs))"
proof -
  let ?k = "snd (scheduler_add_task env ''idle'' (Some idle_task) (kernel_boot root regs mregs))"
  have t: "tm_space (t_memory (tasks ?k ! 0)) = KernelSpace" "task_count ?k = 1"
    "kernel_address_space ?k = fst (address_space_init root user_tables_boot)"
    by (simp_all add: scheduler_add_task_def pick_slot_def kernel_boot_def Let_def upd_task_fields scheduler_init_task_el0_def
        scheduler_init_task_memory_def task_space_def)
  have "snd (address_space_switch_stub (kernel_address_space ?k)) = kernel_address_space ?k"
    by (simp add: t(3) address_space_switch_stub_def address_space_init_def)
  then have "refresh_stub 0 ?k = ?k" using t(1) by (simp add: refresh_stub_def task_space_def set_task_space_def)
  then have "refresh_stubs ?k = ?k" using t(2) by (simp add: refresh_stubs_def)
  moreover have "(kernel_boot root regs mregs)\<lparr>task_count := 0, current_task := 0, threads_started := False, scheduler_ticks := 0,
      bootstrap_context := scheduler_clear_context\<rparr> = kernel_boot root regs mregs" by (simp add: kernel_boot_def)
  ultimately show ?thesis by (simp only: scheduler_init_def init_idle_def)
qed

lemma sched_start_views:
  "tviews (sched_start env root regs mregs) = (0, -1, TASK_READY) # replicate 7 (0, 0, TASK_UNUSED)"
  "task_count (sched_start env root regs mregs) = 1" "current_task (sched_start env root regs mregs) = 0"
  "\<not> threads_started (sched_start env root regs mregs)"
proof -
  let ?k = "kernel_boot root regs mregs"
  have pick: "pick_slot ?k = Some (0, ?k\<lparr>task_count := 1\<rparr>)" by (simp add: pick_slot_def kernel_boot_def)
  have b: "tviews ?k = replicate (Suc 7) (0, 0, TASK_UNUSED)"
    by (simp add: kernel_boot_def tview_def task_bss_def)
  show "tviews (sched_start env root regs mregs) = (0, -1, TASK_READY) # replicate 7 (0, 0, TASK_UNUSED)"
    "task_count (sched_start env root regs mregs) = 1" "current_task (sched_start env root regs mregs) = 0"
    "\<not> threads_started (sched_start env root regs mregs)"
    unfolding sched_start_eq using add_task_views [OF pick] b by (simp_all add: replicate_list_update kernel_boot_def)
qed

lemma sched_start_inv: "sched_inv (sched_start env root regs mregs)"
  unfolding sched_inv_def sched_start_views table_ok_def
  using sched_start_views(4) by (auto simp: nth_Cons' nth_replicate)

lemma yield_returns: "sched_inv k \<Longrightarrow> scheduler_yield k \<noteq> None"
  using next_runnable(2) [OF wake_inv, of k] by (auto simp: scheduler_yield_def Let_def)

lemma sleep_returns:
  assumes "sched_inv k"
  shows "scheduler_sleep_ms interval ms k \<noteq> None"
proof (cases "\<not> threads_started k \<or> current_task k = 0 \<or> interval = 0")
  case False
  then have "sched_inv (upd_task (current_task k) (\<lambda>t. t\<lparr>t_sleep_requested_ms := ms, t_sleep_until_tick := u, t_state := TASK_SLEEPING\<rparr>) k)" for u
    by (intro sched_inv_upd_state [OF assms sched_invD(4) [OF assms]]) simp_all
  then show ?thesis using False yield_returns by (simp add: scheduler_sleep_ms_def Let_def)
qed (simp add: scheduler_sleep_ms_def)

lemma exit_returns:
  assumes "sched_inv k" "current_task k \<noteq> 0"
  shows "scheduler_exit k \<noteq> None"
proof -
  note d = sched_invD [OF assms(1)]
  let ?z = "(upd_task (current_task k) (set_state TASK_ZOMBIE) (orphan_children (current_task k) k))\<lparr>current_task := current_task k\<rparr>"
  note z = exit_prepare [OF assms]
  let ?w = "scheduler_wake_sleeping_tasks ?z"
  have "t_state (tasks ?w ! current_task k) = TASK_ZOMBIE"
    using wake_nth [of "current_task k" ?z] z(2,6) d(3,4) by (simp add: wake_task_view)
  then have "scheduler_next_runnable_task ?w \<noteq> current_task k"
    using next_runnable(2) [OF wake_inv [OF z(1)]] by (auto simp: scheduler_task_is_runnable_def)
  moreover have "2 \<le> task_count k" using d(4) assms(2) by linarith
  ultimately obtain k' where "scheduler_yield ?z = Some k'" "current_task k' \<noteq> current_task k"
    using z(3,4) by (simp add: scheduler_yield_def Let_def upd_task_fields cpu_switch_fields switch_resume_root_fields wake_fields)
  then show ?thesis by (simp add: scheduler_exit_def scheduler_exit_task_def)
qed

text \<open>
  C3: the scheduler's invariant. In every state reached from initialisation by calls of the
  scheduler's entry points, timer ticks and excursions to EL0: the current task is a task in use,
  pids are slot numbers, at most one task is running, which is the current one, and none is before the threads
  are started, the idle task can always run, the task chosen next can run, and neither yielding, sleeping nor the exit of a task
  other than the idle task gets stuck.
\<close>

theorem scheduler_invariant:
  assumes "(sched_step env)\<^sup>*\<^sup>* (sched_start env root regs mregs) k"
  shows "current_task k < task_count k \<and> task_count k \<le> SCHED_MAX_TASKS \<and>
    t_state (tasks k ! current_task k) \<noteq> TASK_UNUSED \<and>
    (\<forall>i. i < task_count k \<longrightarrow> t_pid (tasks k ! i) = int i) \<and>
    (\<forall>i. i < SCHED_MAX_TASKS \<and> t_state (tasks k ! i) = TASK_RUNNING \<longrightarrow> threads_started k \<and> i = current_task k) \<and>
    scheduler_task_is_runnable (tasks k ! 0) \<and>
    scheduler_task_is_runnable (tasks k ! scheduler_next_runnable_task k) \<and>
    scheduler_yield k \<noteq> None \<and> scheduler_sleep_ms interval ms k \<noteq> None \<and>
    (current_task k \<noteq> 0 \<longrightarrow> scheduler_exit k \<noteq> None)"
proof -
  have inv: "sched_inv k" by (rule reachable_inv [OF assms sched_start_inv])
  show ?thesis
    using sched_invD [OF inv] next_runnable(2) [OF inv] yield_returns [OF inv] sleep_returns [OF inv] exit_returns [OF inv]
    by (auto simp: scheduler_task_is_runnable_def)
qed

text \<open>
  C12: no task starves. In every reached state with threads running, a task other than the idle task
  that can run becomes the current task after fewer timer preemptions than there are tasks.
\<close>

theorem preempt_no_starvation:
  assumes "(sched_step env)\<^sup>*\<^sup>* (sched_start env root regs mregs) k" "threads_started k"
    and "0 < j" "j < task_count k" "scheduler_task_is_runnable (tasks k ! j)"
  shows "\<exists>n<task_count k. current_task ((scheduler_preempt ^^ n) k) = j"
proof (cases "j = current_task k")
  case True
  then show ?thesis using assms(3,4) by (intro exI [of _ 0]) simp
next
  case False
  have inv: "sched_inv k" by (rule reachable_inv [OF assms(1) sched_start_inv])
  then obtain n where "n \<le> turn_distance j k" "current_task ((scheduler_preempt ^^ n) k) = j"
    using preempt_reaches [OF inv assms(2) _ assms(3-5) False] assms(3,4) by auto
  then show ?thesis
    using turn_distance_ahead(2) [OF sched_invD(4) [OF inv] assms(4) False] by (intro exI [of _ n]) simp
qed

definition sample_kenv :: kernel_env where
  "sample_kenv = \<lparr>arrays = sample_env, stack_region = 0x42000000,
     code_address = (\<lambda>l. case l of idle_task \<Rightarrow> 0x40080000 | scheduler_user_task_entry \<Rightarrow> 0x40080100
       | thread_trampoline \<Rightarrow> 0x40080200 | arm64_el0_task_return \<Rightarrow> 0x40080300 | thread_entry n \<Rightarrow> 0x40090000 + of_nat n)\<rparr>"

definition sample_mmu :: mmu_regs where
  "sample_mmu = \<lparr>sctlr_el1 = 1, mair_el1 = 0, tcr_el1 = 0, ttbr0_el1 = 0x40000000\<rparr>"

abbreviation sample_start :: kernel where
  "sample_start \<equiv> sched_start sample_kenv 0x40000000 scheduler_clear_context sample_mmu"

definition sample_threads :: kernel where
  "sample_threads = scheduler_start_threads (snd (scheduler_create_kernel_thread sample_kenv ''shell'' (Some (thread_entry 0)) sample_start))"

lemma sample_threads_state:
  "threads_started sample_threads" "task_count sample_threads = 2" "current_task sample_threads = 0"
  "scheduler_task_is_runnable (tasks sample_threads ! 1)" "(sched_step sample_kenv)\<^sup>*\<^sup>* sample_start sample_threads"
proof -
  let ?k = "snd (scheduler_create_kernel_thread sample_kenv ''shell'' (Some (thread_entry 0)) sample_start)"
  have pick: "pick_slot sample_start = Some (1, sample_start\<lparr>task_count := 2\<rparr>)"
    using sched_start_views(2) by (simp add: pick_slot_def)
  note v = add_task_views [OF pick, of sample_kenv "''shell''" "Some (thread_entry 0)", unfolded scheduler_create_kernel_thread_def [symmetric]]
  have len: "length (tasks sample_start) = 8" using sched_start_views(1) [THEN arg_cong, of length] by simp
  have v1: "tviews ?k ! 1 = (1, -1, TASK_READY)" using v(1) len by simp
  have st: "t_state (tasks ?k ! 1) = TASK_READY" using v1 v(5) len by (simp add: tview_def)
  show "threads_started sample_threads" "current_task sample_threads = 0"
    by (simp_all add: sample_threads_def scheduler_start_threads_def Let_def scheduler_set_running_task_def upd_task_fields)
  show "task_count sample_threads = 2" "scheduler_task_is_runnable (tasks sample_threads ! 1)"
    using v st len by (simp_all add: sample_threads_def scheduler_start_threads_def Let_def scheduler_set_running_task_def
        upd_task_fields scheduler_task_is_runnable_def)
  have "\<not> threads_started ?k" using v(4) sched_start_views(4) by simp
  then have "sched_step sample_kenv ?k sample_threads" unfolding sample_threads_def by (rule step_start)
  with step_thread [of sample_kenv sample_start] show "(sched_step sample_kenv)\<^sup>*\<^sup>* sample_start sample_threads"
    by (meson converse_rtranclp_into_rtranclp r_into_rtranclp)
qed

theorem scheduler_invariant_witness: "scheduler_yield sample_threads \<noteq> None"
  using scheduler_invariant [OF sample_threads_state(5)] by blast

theorem preempt_no_starvation_witness: "\<exists>n<2. current_task ((scheduler_preempt ^^ n) sample_threads) = 1"
  using preempt_no_starvation [OF sample_threads_state(5,1), of 1] sample_threads_state(2,4) by simp

section \<open>Registers and translation across a switch\<close>

definition yielded :: "task \<Rightarrow> task" where
  "yielded t = (if t_state t = TASK_RUNNING
     then upd_accounting (\<lambda>a. a\<lparr>ac_yields := ac_yields a + 1\<rparr>) (set_state TASK_READY t) else t)"

lemma yielded_fields:
  "t_state (yielded t) = (if t_state t = TASK_RUNNING then TASK_READY else t_state t)"
  "t_context (yielded t) = t_context t" "t_memory (yielded t) = t_memory t"
  "t_user_address_space (yielded t) = t_user_address_space t" "t_pid (yielded t) = t_pid t"
  by (simp_all add: yielded_def upd_accounting_def set_state_def)

lemma yield_eq:
  "scheduler_yield k =
     (if task_count k < 2 then Some k
      else let w = scheduler_wake_sleeping_tasks k; n = scheduler_next_runnable_task w in
        if n = current_task k
        then (if scheduler_task_is_runnable (tasks w ! n) then Some (upd_task n (set_state TASK_RUNNING) w) else None)
        else Some (cpu_switch_to (current_task k) n (switch_resume_root n (switch_tasks (current_task k) n yielded w))))"
  by (simp add: scheduler_yield_def yielded_def [abs_def] switch_tasks_def Let_def sched_simps)

lemma task_space_cong:
  "t_memory t = t_memory u \<Longrightarrow> t_user_address_space t = t_user_address_space u \<Longrightarrow>
   kernel_address_space k = kernel_address_space k' \<Longrightarrow> task_space k t = task_space k' u"
  by (simp add: task_space_def split: space_ref.split)

lemma resume_root_cong:
  "t_memory t = t_memory u \<Longrightarrow> t_user_address_space t = t_user_address_space u \<Longrightarrow> t_pid t = t_pid u \<Longrightarrow>
   kernel_address_space k = kernel_address_space k' \<Longrightarrow> user_sessions k = user_sessions k' \<Longrightarrow>
   user_mode_task_resume_root k t = user_mode_task_resume_root k' u"
  using task_space_cong [of t u k k'] by (simp add: user_mode_task_resume_root_def split: option.split)

text \<open>
  C34: a yield that switches tasks. It stores the registers of the task that yields in its context,
  loads those the chosen task was switched out with, leaves every other context alone, makes the
  chosen task the one running task, and loads the translation root that task resumes with: its user
  root while its EL0 session is active, the kernel root of its address space otherwise.
\<close>

theorem yield_switches_context:
  assumes "(sched_step env)\<^sup>*\<^sup>* (sched_start env root regs mregs) k" "scheduler_yield k = Some k'"
    and "current_task k' \<noteq> current_task k"
  shows "t_context (tasks k' ! current_task k) = cpu k \<and> cpu k' = t_context (tasks k ! current_task k') \<and>
    (\<forall>i. i < SCHED_MAX_TASKS \<and> i \<noteq> current_task k \<longrightarrow> t_context (tasks k' ! i) = t_context (tasks k ! i)) \<and>
    t_state (tasks k' ! current_task k') = TASK_RUNNING \<and> t_state (tasks k' ! current_task k) \<noteq> TASK_RUNNING \<and>
    (user_mode_task_resume_root k (tasks k ! current_task k') \<noteq> 0 \<longrightarrow>
     ttbr0_el1 (mmu k') = user_mode_task_resume_root k (tasks k ! current_task k'))"
proof -
  have inv: "sched_inv k" by (rule reachable_inv [OF assms(1) sched_start_inv])
  note d = sched_invD [OF inv]
  let ?w = "scheduler_wake_sleeping_tasks k" and ?c = "current_task k"
  let ?n = "scheduler_next_runnable_task ?w"
  let ?s = "switch_tasks ?c ?n yielded ?w"
  have ne: "?n \<noteq> ?c" and k': "k' = cpu_switch_to ?c ?n (switch_resume_root ?n ?s)"
    using assms(2,3) by (auto simp: yield_eq Let_def sched_simps split: if_splits)
  have cur: "current_task k' = ?n" by (simp add: k' sched_simps)
  have len: "?c < length (tasks ?w)" "?n < length (tasks ?w)" "length (tasks ?w) = 8"
    using next_runnable(1) [OF wake_inv [OF inv]] d(1,3,4) by (simp_all add: sched_simps)
  note sw = switch_tasks_nth [OF len(1,2) ne _ yielded_fields]
  have ls: "length (tasks (switch_resume_root ?n ?s)) = 8" using len by (simp add: sched_simps)
  have cs: "?c < length (tasks (switch_resume_root ?n ?s))" "?n < length (tasks (switch_resume_root ?n ?s))" "?c \<noteq> ?n"
    using len ls ne by simp_all
  note cp = cpu_switch_nth [OF cs]
  have ctx: "t_context (tasks k' ! i) = (if i = ?c then cpu k else t_context (tasks k ! i))" if "i < 8" for i
    using that cp(2) [of i] sw(2) [of i] ls len wake_nth [of i k] d(1)
    by (simp add: k' sched_simps wake_task_view)
  have cpu: "cpu k' = t_context (tasks k ! ?n)"
    using cp(6) [OF cs(1)] sw(2) [OF len(2)] wake_nth [of ?n k] d(1) len(2) by (simp add: k' sched_simps wake_task_view)
  have st: "t_state (tasks k' ! i) = t_state (tasks ?s ! i)" if "i < 8" for i
    using that cp(1) [of i] ls by (simp add: k' sched_simps)
  have states: "t_state (tasks k' ! ?n) = TASK_RUNNING" "t_state (tasks k' ! ?c) \<noteq> TASK_RUNNING"
    using st [of ?n] st [of ?c] sw(1) [OF len(2)] sw(1) [OF len(1)] len ne by simp_all
  have root: "user_mode_task_resume_root ?s (tasks ?s ! ?n) = user_mode_task_resume_root k (tasks k ! ?n)"
    by (rule resume_root_cong)
      (use sw(3,4,5) [OF len(2)] wake_nth [of ?n k] d(1) len(2) in \<open>simp_all add: sched_simps wake_task_view\<close>)
  have "ttbr0_el1 (mmu k') = user_mode_task_resume_root k (tasks k ! ?n)" if "user_mode_task_resume_root k (tasks k ! ?n) \<noteq> 0"
    using that by (simp add: k' cpu_switch_fields switch_resume_root_def Let_def root switch_root_def arm64_mmu_switch_ttbr0_def)
  then show ?thesis using ctx cpu states d(3,4) len unfolding cur by auto
qed

text \<open>
  C36: a timer preemption never changes the translation registers: whatever task it selects, TTBR0 keeps
  its value. So a user task that gave up the processor inside a system call, with its session active,
  runs on under another root than its own when a preemption brings it back, where a yield would have
  loaded its own.
\<close>

theorem preempt_keeps_translation_root:
  assumes inv: "sched_inv k"
  shows "mmu (scheduler_preempt k) = mmu k \<and>
    (current_task (scheduler_preempt k) = i \<and> i \<noteq> current_task k \<and> ss_active (user_sessions k ! i) \<and>
       task_space k (tasks k ! i) \<noteq> None \<and> ss_user_root (user_sessions k ! i) \<noteq> ttbr0_el1 (mmu k) \<longrightarrow>
     t_state (tasks (scheduler_preempt k) ! i) = TASK_RUNNING \<and>
     ttbr0_el1 (mmu (scheduler_preempt k)) \<noteq> user_mode_task_resume_root k (tasks k ! i))"
proof (intro conjI impI)
  show same: "mmu (scheduler_preempt k) = mmu k"
    using preempt_fields(4) [of k] by (cases "threads_started k \<and> 2 \<le> task_count k") (auto simp: scheduler_preempt_def)
  assume "current_task (scheduler_preempt k) = i \<and> i \<noteq> current_task k \<and> ss_active (user_sessions k ! i) \<and>
       task_space k (tasks k ! i) \<noteq> None \<and> ss_user_root (user_sessions k ! i) \<noteq> ttbr0_el1 (mmu k)"
  then have a: "current_task (scheduler_preempt k) = i" "i \<noteq> current_task k" "ss_active (user_sessions k ! i)"
    "task_space k (tasks k ! i) \<noteq> None" "ss_user_root (user_sessions k ! i) \<noteq> ttbr0_el1 (mmu k)" by simp_all
  note d = sched_invD [OF inv]
  have st: "threads_started k" "2 \<le> task_count k"
    using a(1,2) by (auto simp: scheduler_preempt_def split: if_splits)
  note f = preempt_fields [OF st]
  have i: "i = scheduler_next_runnable_task (preempt_base k)" "i < task_count k"
    using f(1) a(1) next_runnable(1) [OF preempt_base_inv [OF inv]] by (simp_all add: preempt_base_fields)
  have len: "current_task k < length (tasks (preempt_base k))" "i < length (tasks (preempt_base k))"
    using d(1,3,4) i(2) by (simp_all add: preempt_base_fields)
  have eq: "scheduler_preempt k = cpu_switch_to (current_task k) i (switch_tasks (current_task k) i preempted (preempt_base k))"
    using st a(2) by (simp add: preempt_eq Let_def flip: i(1))
  show "t_state (tasks (scheduler_preempt k) ! i) = TASK_RUNNING"
    unfolding eq using len a(2)
    by (simp add: cpu_switch_nth sched_simps switch_tasks_nth [OF len(1,2) a(2)] preempted_fields)
  have "user_mode_task_resume_root k (tasks k ! i) = ss_user_root (user_sessions k ! i)"
    using d(5) [OF i(2)] a(3,4) i(2) d(3) by (auto simp: user_mode_task_resume_root_def)
  then show "ttbr0_el1 (mmu (scheduler_preempt k)) \<noteq> user_mode_task_resume_root k (tasks k ! i)" using same a(5) by simp
qed

lemma sample_threads_inv: "sched_inv sample_threads"
  by (rule reachable_inv [OF sample_threads_state(5) sched_start_inv])

lemma next_turn:
  assumes "sched_inv k" "threads_started k" "0 < j" "j < task_count k" "j \<noteq> current_task k"
    and "scheduler_task_is_runnable (tasks k ! j)" "turn_distance j k = 1"
  shows "current_task (scheduler_preempt k) = j"
proof (rule ccontr)
  assume ne: "current_task (scheduler_preempt k) \<noteq> j"
  have c: "2 \<le> task_count k" using assms(3,4) by linarith
  have "turn_distance j (scheduler_preempt k) < 1"
    using preempt_advances [OF assms(1,2) c assms(3-6)] ne assms(7) by simp
  then show False
    using turn_distance_ahead(1) [of "scheduler_preempt k" j] sched_invD(4) [OF preempt_inv [OF assms(1)]]
      preempt_fields(2) [OF assms(2) c] assms(4) ne by simp
qed

text \<open>Two threads, with the EL0 session of each active.\<close>

definition sample_in_syscall :: kernel where
  "sample_in_syscall = sample_threads\<lparr>user_sessions := replicate 8 (session_bss\<lparr>ss_active := True, ss_user_root := 0x41000000\<rparr>)\<rparr>"

lemma sample_in_syscall_state:
  "sched_inv sample_in_syscall" "current_task sample_in_syscall = 0" "current_task (scheduler_preempt sample_in_syscall) = 1"
proof -
  have "sched_inv sample_in_syscall = sched_inv sample_threads" by (rule sched_inv_cong) (simp_all add: sample_in_syscall_def)
  then show inv: "sched_inv sample_in_syscall" using sample_threads_inv by simp
  show c: "current_task sample_in_syscall = 0" using sample_threads_state(3) by (simp add: sample_in_syscall_def)
  show "current_task (scheduler_preempt sample_in_syscall) = 1"
    by (rule next_turn [OF inv]) (use sample_threads_state c in \<open>simp_all add: sample_in_syscall_def turn_distance_def\<close>)
qed

lemma sample_threads_spaces: "tm_space (t_memory (tasks sample_threads ! 1)) = KernelSpace" "mmu sample_threads = sample_mmu"
proof -
  let ?k = "snd (scheduler_create_kernel_thread sample_kenv ''shell'' (Some (thread_entry 0)) sample_start)"
  have len: "length (tasks sample_start) = 8" using sched_start_views(1) [THEN arg_cong, of length] by simp
  have "tm_space (t_memory (tasks ?k ! 1)) = KernelSpace"
    using sched_start_views(2) len
    by (simp add: scheduler_create_kernel_thread_def scheduler_add_task_def pick_slot_def Let_def upd_task_fields
        scheduler_init_task_el0_def scheduler_init_task_memory_def task_space_def split: option.split)
  then show "tm_space (t_memory (tasks sample_threads ! 1)) = KernelSpace"
    by (simp add: sample_threads_def scheduler_start_threads_def Let_def scheduler_set_running_task_def upd_task_fields)
  have m: "mmu (snd (scheduler_add_task env name entry k)) = mmu k" for env name entry k
    by (auto simp: scheduler_add_task_def pick_slot_def Let_def upd_task_fields split: option.split)
  then show "mmu sample_threads = sample_mmu"
    unfolding sample_threads_def sched_start_eq
    by (simp add: scheduler_start_threads_def Let_def scheduler_set_running_task_def upd_task_fields
        scheduler_create_kernel_thread_def kernel_boot_def)
qed

theorem preempt_keeps_translation_root_witness:
  "ttbr0_el1 (mmu (scheduler_preempt sample_in_syscall)) \<noteq> user_mode_task_resume_root sample_in_syscall (tasks sample_in_syscall ! 1)"
proof -
  have "ss_active (user_sessions sample_in_syscall ! 1) \<and> task_space sample_in_syscall (tasks sample_in_syscall ! 1) \<noteq> None \<and>
      ss_user_root (user_sessions sample_in_syscall ! 1) \<noteq> ttbr0_el1 (mmu sample_in_syscall)"
    using sample_threads_spaces by (simp add: sample_in_syscall_def task_space_def sample_mmu_def)
  then show ?thesis
    using preempt_keeps_translation_root [OF sample_in_syscall_state(1), of 1] sample_in_syscall_state(2,3) by (metis zero_neq_one)
qed

theorem yield_switches_context_witness:
  "\<exists>k'. scheduler_yield sample_threads = Some k' \<and> cpu k' = t_context (tasks sample_threads ! 1)"
proof -
  obtain k' where k': "scheduler_yield sample_threads = Some k'" using yield_returns [OF sample_threads_inv] by blast
  have n: "0 < scheduler_next_runnable_task (scheduler_wake_sleeping_tasks sample_threads)"
    using next_runnable(3) [OF wake_inv [OF sample_threads_inv], of 1] sample_threads_state(2,4)
      wake_nth [of 1 sample_threads] sched_invD(1) [OF sample_threads_inv]
    by (fastforce simp: sched_simps scheduler_task_is_runnable_def wake_task_view)
  have "scheduler_next_runnable_task (scheduler_wake_sleeping_tasks sample_threads) = 1"
    using n next_runnable(1) [OF wake_inv [OF sample_threads_inv]] sample_threads_state(2) by (simp add: sched_simps)
  then have c: "current_task k' = 1"
    using k' sample_threads_state(2,3) by (auto simp: yield_eq Let_def sched_simps)
  then show ?thesis
    using yield_switches_context [OF sample_threads_state(5) k'] k' sample_threads_state(3) by simp
qed

section \<open>Sleeping\<close>

lemma preempt_other_runnable:
  assumes "sched_inv k" "threads_started k" "2 \<le> task_count k" "i < task_count k" "i \<noteq> current_task k"
  shows "scheduler_task_is_runnable (tasks (scheduler_preempt k) ! i) \<longleftrightarrow> scheduler_task_is_runnable (tasks (preempt_base k) ! i)"
proof (cases "scheduler_next_runnable_task (preempt_base k) = current_task k")
  case True
  then show ?thesis using assms by (simp add: preempt_eq Let_def)
next
  case False
  let ?n = "scheduler_next_runnable_task (preempt_base k)"
  note n = next_runnable [OF preempt_base_inv [OF assms(1)]]
  note d = sched_invD [OF assms(1)]
  have len: "current_task k < length (tasks (preempt_base k))" "?n < length (tasks (preempt_base k))" "i < length (tasks (preempt_base k))"
    using d(1,3,4) n(1) assms(4) by (simp_all add: preempt_base_fields)
  have "t_state (tasks (scheduler_preempt k) ! i) = (if i = ?n then TASK_RUNNING else t_state (tasks (preempt_base k) ! i))"
    using False assms len
    by (simp add: preempt_eq Let_def cpu_switch_nth sched_simps switch_tasks_nth [OF len(1,2) False len(3)] preempted_fields)
  then show ?thesis using n(2) by (auto simp: scheduler_task_is_runnable_def)
qed

lemma sleep_ticks_word:
  assumes "0 < unat (n :: u64)" "unat ms + unat n < 2 ^ 64"
  shows "unat ((ms + n - 1) div n) = (unat ms + unat n - 1) div unat n"
    "(unat ms + unat n - 1) div unat n \<le> unat ms"
proof -
  have a: "unat (ms + n) = unat ms + unat n" using assms(2) by (simp add: unat_add_no_wrap)
  have "1 \<le> ms + n" using a assms(1) by (simp add: word_le_nat_alt)
  then have "unat (ms + n - 1) = unat ms + unat n - 1" using a by (simp add: unat_diff_le)
  then show "unat ((ms + n - 1) div n) = (unat ms + unat n - 1) div unat n" by (simp add: unat_div)
  have "unat ms + unat n - 1 < (unat ms + 1) * unat n"
    using assms(1) by (cases "unat n") (simp_all add: add_mult_distrib)
  then have "(unat ms + unat n - 1) div unat n < unat ms + 1" by (rule less_mult_imp_div_less)
  then show "(unat ms + unat n - 1) div unat n \<le> unat ms" by simp
qed

text \<open>
  C35: sleeping. A thread that sleeps \<open>ms\<close> milliseconds with a timer interval of \<open>interval\<close> is put to
  sleep until the first tick not before \<open>ms\<close> have passed, at least one tick, and the processor goes to
  another task. At every later preemption it stays asleep before that tick and can run from it on.
\<close>

theorem sleep_until_due:
  assumes "sched_inv k" "threads_started k" "current_task k \<noteq> 0" "0 < unat interval"
    and "unat ms + unat interval < 2 ^ 64" "unat (scheduler_ticks k) + unat ms + 1 < 2 ^ 64"
    and "scheduler_sleep_ms interval ms k = Some k'"
  defines "due \<equiv> unat (scheduler_ticks k) + max 1 ((unat ms + unat interval - 1) div unat interval)"
  shows "current_task k' \<noteq> current_task k \<and> t_state (tasks k' ! current_task k) = TASK_SLEEPING \<and>
    unat (t_sleep_until_tick (tasks k' ! current_task k)) = due \<and>
    (\<forall>j. sched_inv j \<and> threads_started j \<and> 2 \<le> task_count j \<and> current_task k < task_count j \<and>
       tasks j ! current_task k = tasks k' ! current_task k \<and> current_task k \<noteq> current_task j \<and>
       unat (scheduler_ticks j) + 1 < 2 ^ 64 \<longrightarrow>
       (scheduler_task_is_runnable (tasks (scheduler_preempt j) ! current_task k) \<longleftrightarrow> due \<le> unat (scheduler_ticks j) + 1))"
proof -
  let ?c = "current_task k"
  let ?t = "(ms + interval - 1) div interval"
  let ?u = "scheduler_ticks k + (if ?t = 0 then 1 else ?t)"
  let ?f = "\<lambda>t. t\<lparr>t_sleep_requested_ms := ms, t_sleep_until_tick := ?u, t_state := TASK_SLEEPING\<rparr>"
  let ?k = "upd_task ?c ?f k"
  note d = sched_invD [OF assms(1)] and w = sleep_ticks_word [OF assms(4,5)]
  have n0: "interval \<noteq> 0" using assms(4) by auto
  have y: "scheduler_yield ?k = Some k'"
    using assms(2,3,7) n0 by (simp add: scheduler_sleep_ms_def Let_def)
  have inv: "sched_inv ?k"
    by (rule sched_inv_upd_state [OF assms(1) d(4)]) (use assms(3) in simp_all)
  have ticks: "unat (if ?t = 0 then 1 else ?t) = max 1 ((unat ms + unat interval - 1) div unat interval)"
    using w(1) by (auto simp: word_unat_eq_iff max_def)
  have due: "unat ?u = due"
    unfolding due_def ticks [symmetric] by (rule unat_add_no_wrap) (use ticks w(2) assms(6) in simp)
  have late: "\<not> ?u \<le> scheduler_ticks k" using due by (simp add: word_le_nat_alt due_def)
  let ?w = "scheduler_wake_sleeping_tasks ?k"
  have c: "?c < length (tasks k)" using d(1,3,4) by simp
  have wc: "tasks ?w ! ?c = ?f (tasks k ! ?c)"
    using wake_nth [of ?c ?k] c d(4) late by (simp add: upd_task_fields wake_task_def)
  let ?n = "scheduler_next_runnable_task ?w"
  have ne: "?n \<noteq> ?c" using next_runnable(2) [OF wake_inv [OF inv]] wc by (auto simp: scheduler_task_is_runnable_def)
  have two: "\<not> task_count k < 2" using d(4) assms(3) by linarith
  have k': "k' = cpu_switch_to ?c ?n (switch_resume_root ?n (switch_tasks ?c ?n yielded ?w))"
    using y ne two by (simp add: yield_eq Let_def sched_simps)
  have nl: "?n < length (tasks ?w)" using next_runnable(1) [OF wake_inv [OF inv]] d(1,3) by (simp add: sched_simps)
  have cc: "tasks k' ! ?c = (?f (tasks k ! ?c))\<lparr>t_context := cpu k\<rparr>"
    using ne c nl wc by (simp add: k' cpu_switch_to_def Let_def sched_simps switch_tasks_def scheduler_set_running_task_def yielded_def)
  have "scheduler_task_is_runnable (tasks (scheduler_preempt j) ! ?c) \<longleftrightarrow> due \<le> unat (scheduler_ticks j) + 1"
    if h: "sched_inv j" "threads_started j" "2 \<le> task_count j" "?c < task_count j" "tasks j ! ?c = tasks k' ! ?c"
      "?c \<noteq> current_task j" "unat (scheduler_ticks j) + 1 < 2 ^ 64" for j
  proof -
    have cl: "?c < length (tasks j)" using h(4) sched_invD(1,3) [OF h(1)] by simp
    have "unat (scheduler_ticks j + 1) = unat (scheduler_ticks j) + 1" using h(7) by (simp add: unat_add_no_wrap)
    then have "scheduler_task_is_runnable (tasks (preempt_base j) ! ?c) \<longleftrightarrow> due \<le> unat (scheduler_ticks j) + 1"
      unfolding scheduler_task_is_runnable_def preempt_base_nth(1) [OF cl] h(5) cc
      using h(4) due by (simp add: word_le_nat_alt)
    then show ?thesis unfolding preempt_other_runnable [OF h(1-4,6)] .
  qed
  moreover have "current_task k' \<noteq> ?c" using ne by (simp add: k' sched_simps)
  ultimately show ?thesis using cc due by simp
qed

definition sample_sleeper :: kernel where
  "sample_sleeper = scheduler_preempt sample_threads"

lemma sample_sleeper_state:
  "sched_inv sample_sleeper" "threads_started sample_sleeper" "current_task sample_sleeper = 1" "scheduler_ticks sample_sleeper = 1"
proof -
  show "sched_inv sample_sleeper" using preempt_inv [OF sample_threads_inv] by (simp add: sample_sleeper_def)
  show "threads_started sample_sleeper"
    using preempt_fields(3) [OF sample_threads_state(1)] sample_threads_state(2) by (simp add: sample_sleeper_def)
  show "current_task sample_sleeper = 1"
    unfolding sample_sleeper_def
    by (rule next_turn [OF sample_threads_inv]) (use sample_threads_state in \<open>simp_all add: turn_distance_def\<close>)
  have t: "scheduler_ticks (snd (scheduler_add_task env name entry k)) = scheduler_ticks k" for env name entry k
    by (auto simp: scheduler_add_task_def pick_slot_def Let_def upd_task_fields split: option.split)
  have "scheduler_ticks sample_threads = 0"
    unfolding sample_threads_def sched_start_eq
    by (simp add: scheduler_start_threads_def Let_def scheduler_set_running_task_def upd_task_fields
        scheduler_create_kernel_thread_def t kernel_boot_def)
  then show "scheduler_ticks sample_sleeper = 1"
    using sample_threads_state(1,2)
    by (simp add: sample_sleeper_def scheduler_preempt_def Let_def sched_simps scheduler_set_running_task_def)
qed

theorem sleep_until_due_witness:
  "\<exists>k'. scheduler_sleep_ms 10 25 sample_sleeper = Some k' \<and> unat (t_sleep_until_tick (tasks k' ! 1)) = 4"
proof -
  obtain k' where k': "scheduler_sleep_ms 10 25 sample_sleeper = Some k'"
    using sleep_returns [OF sample_sleeper_state(1)] by blast
  have "unat (t_sleep_until_tick (tasks k' ! current_task sample_sleeper)) =
      unat (scheduler_ticks sample_sleeper) + max 1 ((unat (25 :: u64) + unat (10 :: u64) - 1) div unat (10 :: u64))"
    using sleep_until_due [OF sample_sleeper_state(1,2) _ _ _ _ k'] sample_sleeper_state(3,4) by simp
  then show ?thesis using k' sample_sleeper_state(3,4) by simp
qed

section \<open>Excursions to EL0\<close>

text \<open>A state in which task \<open>i\<close> is current and owns its session.\<close>

definition in_task :: "nat \<Rightarrow> kernel \<Rightarrow> bool" where
  "in_task i k \<longleftrightarrow> i < 8 \<and> current_task k = i \<and> t_pid (tasks k ! i) = int i \<and> length (tasks k) = 8 \<and> length (user_sessions k) = 8"

lemma in_task_session: "in_task i k \<Longrightarrow> user_session_current k = i"
  by (simp add: in_task_def user_session_current_def Let_def)

lemma in_task_upds:
  assumes "in_task i k"
  shows "in_task i (upd_session g k)" "in_task i (switch_root r k)" "in_task i (upd_task j (upd_user_status u) k)"
    "in_task i (upd_session_task u k)" "in_task i (k\<lparr>elr_el1 := a, spsr_el1 := b\<rparr>)" "in_task i (set_task_space j sp k)"
    "in_task i (upd_task j (set_state st) k)"
proof -
  have ut: "in_task i (upd_task j f k)" if "\<And>t. t_pid (f t) = t_pid t" for j f
    using assms that by (cases "i = j") (auto simp: in_task_def upd_task_fields nth_list_update)
  show "in_task i (upd_task j (upd_user_status u) k)" "in_task i (upd_task j (set_state st) k)"
    by (rule ut, simp add: upd_user_status_def set_state_def)+
  then show "in_task i (upd_session_task u k)"
    using ut assms by (auto simp: upd_session_task_def upd_user_status_def split: option.split)
  show "in_task i (set_task_space j sp k)"
    using ut [of "\<lambda>t. t\<lparr>t_user_address_space := sp\<rparr>"] assms
    by (auto simp: set_task_space_def in_task_def split: space_ref.split)
qed (use assms in \<open>simp_all add: in_task_def upd_session_def switch_root_def\<close>)

lemma session_fields:
  "mmu (upd_session g k) = mmu k" "mmu (upd_session_task u k) = mmu k" "ttbr0_el1 (mmu (switch_root r k)) = r"
  "user_sessions (switch_root r k) = user_sessions k" "user_sessions (upd_session_task u k) = user_sessions k"
  "tasks (upd_session g k) = tasks k" "tasks (switch_root r k) = tasks k" "current_task (upd_session g k) = current_task k"
  "current_task (switch_root r k) = current_task k" "current_task (upd_session_task u k) = current_task k"
  by (simp_all add: upd_session_def switch_root_def upd_session_task_def upd_task_fields arm64_mmu_switch_ttbr0_def split: option.split)

lemma session_current_same:
  "user_session_current (upd_session g k) = user_session_current k" "user_session_current (switch_root r k) = user_session_current k"
  "user_session_current (upd_session_task u k) = user_session_current k"
  "user_session_current (upd_task j (upd_user_status h) k) = user_session_current k"
proof -
  have p: "t_pid ((tasks k)[j := upd_user_status h (tasks k ! j)] ! n) = t_pid (tasks k ! n)" for j h n
    by (cases "j = n"; cases "j < length (tasks k)") (simp_all add: upd_user_status_def list_update_beyond)
  show "user_session_current (upd_session g k) = user_session_current k" "user_session_current (switch_root r k) = user_session_current k"
    by (simp_all add: user_session_current_def session_fields)
  show "user_session_current (upd_task j (upd_user_status h) k) = user_session_current k"
    by (simp add: user_session_current_def upd_task_fields p)
  show "user_session_current (upd_session_task u k) = user_session_current k"
    by (simp add: user_session_current_def upd_session_task_def upd_task_fields p split: option.split)
qed

lemma session_after:
  assumes "in_task i k"
  shows "user_sessions (upd_session g k) ! i = g (user_sessions k ! i)"
    "ss_task (user_sessions k ! i) = Some i \<Longrightarrow>
       t_user_status (tasks (upd_session_task u k) ! i) = u (t_user_status (tasks k ! i))"
  using assms in_task_session [OF assms]
  by (auto simp: upd_session_def upd_session_task_def upd_task_fields upd_user_status_def in_task_def split: option.split)

lemmas session_simps = session_fields session_current_same session_after in_task_upds

text \<open>What the two handlers leave behind in the session of the current task.\<close>

lemma handle_exit_effect:
  fixes code :: u64
  assumes "in_task i k" "ss_active (user_sessions k ! i)" "ss_return_pc (user_sessions k ! i) \<noteq> 0"
    "ss_task (user_sessions k ! i) = Some i" "ss_kernel_root (user_sessions k ! i) \<noteq> 0"
  defines "k' \<equiv> snd (user_mode_handle_exit_syscall code k)"
  shows "in_task i k'" "ss_completed (user_sessions k' ! i)" "\<not> ss_faulted (user_sessions k' ! i)" "\<not> ss_active (user_sessions k' ! i)"
    "ttbr0_el1 (mmu k') = ss_kernel_root (user_sessions k ! i)" "us_last_exit_code (t_user_status (tasks k' ! i)) = code"
    "elr_el1 k' = ss_return_pc (user_sessions k ! i)" "spsr_el1 k' = ARM64_SPSR_EL1H"
  using assms(2-5) in_task_session [OF assms(1)] assms(1)
  by (simp_all add: k'_def user_mode_handle_exit_syscall_def Let_def session_simps)

lemma handle_fault_effect:
  fixes esr elr far spsr :: u64
  assumes "in_task i k" "ss_active (user_sessions k ! i)" "ss_return_pc (user_sessions k ! i) \<noteq> 0"
    "ss_task (user_sessions k ! i) = Some i" "ss_kernel_root (user_sessions k ! i) \<noteq> 0" "ss_user_root (user_sessions k ! i) \<noteq> 0"
    "spsr AND 0xf = 0"
  defines "k' \<equiv> snd (user_mode_handle_exception esr elr far spsr k)"
  shows "in_task i k'" "ss_completed (user_sessions k' ! i)" "ss_faulted (user_sessions k' ! i)" "\<not> ss_active (user_sessions k' ! i)"
    "ttbr0_el1 (mmu k') = ss_kernel_root (user_sessions k ! i)"
    "elr_el1 k' = ss_return_pc (user_sessions k ! i)" "spsr_el1 k' = ARM64_SPSR_EL1H"
  using assms(2-7) in_task_session [OF assms(1)] assms(1)
  by (simp_all add: k'_def user_mode_handle_exception_def Let_def session_simps)

lemma begin_effect:
  assumes "in_task i k" "user_mode_begin env i k = (None, k')"
  obtains space where "task_space k (tasks k ! i) = Some space" "in_task i k'"
    "ss_active (user_sessions k' ! i)" "ss_return_pc (user_sessions k' ! i) = code_address env arm64_el0_task_return"
    "ss_task (user_sessions k' ! i) = Some i" "ss_kernel_root (user_sessions k' ! i) = as_kernel_root_table space"
    "ss_user_root (user_sessions k' ! i) = as_target_root_table space" "ttbr0_el1 (mmu k') = as_target_root_table space"
proof (cases "task_space k (tasks k ! i)")
  case None
  then show thesis using assms(2) by (simp add: user_mode_begin_def Let_def split: if_splits)
next
  case (Some sp)
  obtain stub space where st: "address_space_switch_stub sp = (stub, space)" by fastforce
  then have sp: "as_kernel_root_table space = as_kernel_root_table sp" "as_target_root_table space = as_target_root_table sp"
    by (auto simp: address_space_switch_stub_def Let_def)
  note s = in_task_upds(6) [OF assms(1), of i space]
  note u = session_after(1) [OF s]
  show thesis
    by (rule that [OF Some])
      (use assms(2) Some st sp s in \<open>auto simp: user_mode_begin_def Let_def session_simps in_task_session [OF s] upd_task_fields split: if_splits\<close>)
qed

lemma finish_effect:
  assumes "in_task i k" "ss_completed (user_sessions k ! i)"
  shows "fst (user_mode_finish i k) = (if ss_faulted (user_sessions k ! i) then USER_MODE_TASK_FAILED else USER_MODE_READY)"
    "in_task i (snd (user_mode_finish i k))" "ss_active (user_sessions (snd (user_mode_finish i k)) ! i) = ss_active (user_sessions k ! i)"
    "mmu (snd (user_mode_finish i k)) = mmu k"
    "us_last_exit_code (t_user_status (tasks (snd (user_mode_finish i k)) ! i)) = us_last_exit_code (t_user_status (tasks k ! i))"
  using assms in_task_session [OF assms(1)]
  by (simp_all add: user_mode_finish_def Let_def session_simps upd_task_fields upd_user_status_def) (simp_all add: in_task_def)


text \<open>Task 1 running with a user space that is ready to be entered.\<close>

definition sample_user_task :: task where
  "sample_user_task = task_bss\<lparr>t_pid := 1, t_state := TASK_RUNNING, t_memory := scheduler_clear_memory\<lparr>tm_space := OwnSpace\<rparr>,
     t_user_address_space := space_bss\<lparr>as_kind := ADDRESS_SPACE_USER, as_kernel_root_table := 0x40000000,
       as_target_root_table := 0x41000000, as_validation_ready := True, as_validation_errors := 0, as_user_image_ready := True,
       as_switch_ready := True, as_switch_status := ADDRESS_SPACE_SWITCH_READY\<rparr>,
     t_el0 := \<lparr>el_pc = 0x100000, el_sp = 0x3ff0, el_spsr = 0, el_ready = True\<rparr>\<rparr>"

definition sample_runner :: kernel where
  "sample_runner = sample_threads\<lparr>tasks := (replicate 8 task_bss)[1 := sample_user_task], current_task := 1, task_count := 2,
     user_sessions := replicate 8 session_bss\<rparr>"

definition sample_entered :: kernel where
  "sample_entered = snd (user_mode_begin sample_kenv 1 sample_runner)"

lemma sample_runner_state:
  "in_task 1 sample_runner" "task_count sample_runner = 2" "tasks sample_runner ! 1 = sample_user_task"
  "user_mode_begin sample_kenv 1 sample_runner = (None, sample_entered)"
proof -
  show i: "in_task 1 sample_runner" "task_count sample_runner = 2" and t: "tasks sample_runner ! 1 = sample_user_task"
    by (simp_all add: in_task_def sample_runner_def sample_user_task_def)
  have "fst (user_mode_begin sample_kenv 1 sample_runner) = None"
    unfolding user_mode_begin_def user_mode_prepare_def user_mode_can_enter_def t
    by (simp add: task_space_def sample_user_task_def address_space_switch_stub_def Let_def)
  then show "user_mode_begin sample_kenv 1 sample_runner = (None, sample_entered)"
    by (simp add: sample_entered_def prod_eq_iff)
qed


end
