(* ===== verification/SyscallMem.thy ===== *)
theory SyscallMem
  imports Syscall SchedulerProps
begin

text \<open>
  What a system call does to memory: loads and stores through the translation of the caller, and the
  frame of every call, the tables and pages of the other spaces and the descriptors of other tasks.
\<close>

section \<open>The caller\<close>

text \<open>
  Task \<open>i\<close> is running at EL0 in its own space, set up in slot \<open>slot\<close> over the kernel map at \<open>root\<close>.
\<close>

definition el0_caller :: "as_env \<Rightarrow> nat \<Rightarrow> nat \<Rightarrow> u64 \<Rightarrow> kernel \<Rightarrow> bool" where
  "el0_caller env i slot root k \<longleftrightarrow>
     in_task i k \<and> i < task_count k \<and> t_state (tasks k ! i) = TASK_RUNNING \<and>
     ss_active (user_sessions k ! i) \<and> ss_task (user_sessions k ! i) = Some i \<and>
     tm_space (t_memory (tasks k ! i)) = OwnSpace \<and> user_space_fields env slot root (t_user_address_space (tasks k ! i)) \<and>
     slot < 4 \<and> ttbr0_el1 (mmu k) = l1_addr env slot \<and> ut_used (user_tables_of k) ! slot \<and>
     slot_mapped env slot root (user_tables_of k) \<and> user_tables_ok (user_tables_of k)"

definition linked :: "as_env \<Rightarrow> u64 \<Rightarrow> bool" where
  "linked env root \<longleftrightarrow> env_ok env \<and> kernel_map_ok env root \<and> kernel_tables_outside env root"

lemma caller_space:
  assumes "el0_caller env i slot root k"
  shows "syscall_address_space k = Some (t_user_address_space (tasks k ! i))"
proof -
  have "user_session_current k = i" using assms in_task_session by (simp add: el0_caller_def)
  then show ?thesis
    using assms by (simp add: el0_caller_def syscall_address_space_def user_mode_active_address_space_def task_space_def)
qed

text \<open>The addresses the range checks admit, and the bytes behind them.\<close>

definition user_address :: "u64 \<Rightarrow> bool" where
  "user_address va \<longleftrightarrow>
     (\<exists>(lo, hi) \<in> {(0x100000, 0x200000), (0x200000, 0x300000), (0x3fff0000, 0x40000000)}. lo \<le> unat va \<and> unat va < hi)"

definition writable_address :: "u64 \<Rightarrow> bool" where
  "writable_address va \<longleftrightarrow>
     (\<exists>(lo, hi) \<in> {(0x200000, 0x300000), (0x3fff0000, 0x40000000)}. lo \<le> unat va \<and> unat va < hi)"

lemma writable_is_user: "writable_address va \<Longrightarrow> user_address va"
  by (auto simp: writable_address_def user_address_def)

lemma page_offset: "m < 4096 \<Longrightarrow> (a * 4096 + m) div 4096 = (a :: nat)" "m < 4096 \<Longrightarrow> (a * 4096 + m) mod 4096 = m"
  by simp_all

lemma user_byte_slot:
  assumes "slot < 4 \<and> ttbr0_el1 (mmu k) = l1_addr env slot \<and> slot_mapped env slot root (user_tables_of k)"
    and "linked env root" "user_address va"
  shows "user_byte env k va = map_option (\<lambda>r. (3 * slot + r, unat va mod 4096)) (user_page_index va)"
proof -
  have low: "unat va < 2 ^ 30" "unat va < 2 ^ 32" using assms(3) by (auto simp: user_address_def)
  have l2: "unat (arm64_mmu_l2_index va) \<in> {0, 1, 511}"
  proof -
    have "unat va div 2 ^ 21 \<in> {0, 1, 511}"
      using assms(3) by (auto simp: user_address_def div_nat_eqI)
    then show ?thesis by (auto simp: unat_index)
  qed
  have w: "mmu_walk (as_read env (user_tables_of k)) (ttbr0_el1 (mmu k)) va =
    map_option (\<lambda>r. (region_page_addr env slot r OR (va AND (ARM64_PAGE_SIZE - 1)),
        arm64_mmu_l3_page_desc (region_page_addr env slot r) (region_attr r))) (user_page_index va)"
    using walk_user_pages [of env slot root "user_tables_of k" va] assms(1,2) low l2
    by (simp add: linked_def split: option.split)
  show ?thesis
  proof (cases "user_page_index va")
    case None
    then show ?thesis using w by (simp add: user_byte_def)
  next
    case (Some r)
    then have r: "r < 3" by (auto simp: user_page_index_def split: if_splits)
    have env: "env_ok env" "slot < 4" using assms(1,2) by (simp_all add: linked_def)
    let ?pa = "region_page_addr env slot r OR (va AND (ARM64_PAGE_SIZE - 1))"
    have "unat ?pa = unat (region_page_addr env slot r) + unat va mod 4096"
      by (rule frame_or_offset [OF table_frames(5) [OF env r]])
    then have pa: "unat ?pa = unat (page_base env) + ((3 * slot + r) * 4096 + unat va mod 4096)"
      using page_addr_unat [OF env r] by simp
    have "a * 4096 + m < 12 * 4096" if "a < 12" "m < 4096" for a m :: nat using that by simp
    from this [of "3 * slot + r" "unat va mod 4096"]
    have "(3 * slot + r) * 4096 + unat va mod 4096 < 12 * 4096" using env(2) r by simp
    then have "in_array (page_base env) 12 ?pa" using pa by (simp add: in_array_def)
    moreover have "(unat ?pa - unat (page_base env)) div 4096 = 3 * slot + r" "(unat ?pa - unat (page_base env)) mod 4096 = unat va mod 4096"
      unfolding pa add_diff_cancel_left' by (rule page_offset, simp)+
    ultimately show ?thesis using w Some by (simp only: user_byte_def option.case prod.case if_True option.map)
  qed
qed

lemma user_byte_caller:
  assumes "el0_caller env i slot root k" "linked env root" "user_address va"
  shows "user_byte env k va = map_option (\<lambda>r. (3 * slot + r, unat va mod 4096)) (user_page_index va)"
  by (rule user_byte_slot [OF _ assms(2,3)]) (use assms(1) in \<open>simp add: el0_caller_def\<close>)

section \<open>The frame\<close>

text \<open>
  What every call preserves: the tables, pages and flag of every other slot in use, the caller's own
  tables and code page, and the descriptors of every other task in use.
\<close>

definition own_view :: "nat \<Rightarrow> user_tables \<Rightarrow> u64 list \<times> u64 list \<times> u64 list list \<times> u8 list \<times> bool" where
  "own_view s t = (ut_l1 t ! s, ut_l2 t ! s, map (\<lambda>r. ut_l3 t ! (3 * s + r)) [0..<3], ut_pages t ! (3 * s), ut_used t ! s)"

definition in_use :: "kernel \<Rightarrow> nat \<Rightarrow> bool" where
  "in_use k j \<longleftrightarrow> j < task_count k \<and> t_state (tasks k ! j) \<noteq> TASK_UNUSED"

definition call_frame :: "nat \<Rightarrow> nat \<Rightarrow> kernel \<Rightarrow> kernel \<Rightarrow> bool" where
  "call_frame i slot k k' \<longleftrightarrow>
     (\<forall>s<4. s \<noteq> slot \<longrightarrow> ut_used (user_tables_of k) ! s \<longrightarrow> slot_view s (user_tables_of k') = slot_view s (user_tables_of k)) \<and>
     own_view slot (user_tables_of k') = own_view slot (user_tables_of k) \<and>
     (\<forall>j. j \<noteq> i \<longrightarrow> in_use k j \<longrightarrow> t_files (tasks k' ! j) = t_files (tasks k ! j))"

lemma own_view_slot: "slot_view s t = slot_view s t' \<Longrightarrow> own_view s t = own_view s t'"
  by (simp add: slot_view_def own_view_def upt_three del: upt_rec_numeral)

lemma frame_same:
  assumes "user_tables_of k' = user_tables_of k" "\<And>j. j \<noteq> i \<Longrightarrow> in_use k j \<Longrightarrow> t_files (tasks k' ! j) = t_files (tasks k ! j)"
  shows "call_frame i slot k k'"
  using assms by (simp add: call_frame_def)

lemma frame_refl: "call_frame i slot k k"
  by (simp add: frame_same)

text \<open>Storing in the data and stack pages of the caller.\<close>

definition pages_changed :: "nat \<Rightarrow> kernel \<Rightarrow> kernel \<Rightarrow> bool" where
  "pages_changed slot k k' \<longleftrightarrow>
     (\<exists>pages. k' = k\<lparr>user_tables_of := (user_tables_of k)\<lparr>ut_pages := pages\<rparr>\<rparr> \<and>
        map length pages = map length (ut_pages (user_tables_of k)) \<and>
        (\<forall>p. p \<noteq> 3 * slot + 1 \<longrightarrow> p \<noteq> 3 * slot + 2 \<longrightarrow> pages ! p = ut_pages (user_tables_of k) ! p))"

lemma pages_changed_refl: "pages_changed slot k k"
  unfolding pages_changed_def by (rule exI [of _ "ut_pages (user_tables_of k)"]) simp

lemma pages_changed_trans:
  assumes "pages_changed slot k k'" "pages_changed slot k' k''"
  shows "pages_changed slot k k''"
proof -
  obtain p q where p: "k' = k\<lparr>user_tables_of := (user_tables_of k)\<lparr>ut_pages := p\<rparr>\<rparr>"
      "map length p = map length (ut_pages (user_tables_of k))"
      "\<And>n. n \<noteq> 3 * slot + 1 \<Longrightarrow> n \<noteq> 3 * slot + 2 \<Longrightarrow> p ! n = ut_pages (user_tables_of k) ! n"
    and q: "k'' = k'\<lparr>user_tables_of := (user_tables_of k')\<lparr>ut_pages := q\<rparr>\<rparr>"
      "map length q = map length (ut_pages (user_tables_of k'))"
      "\<And>n. n \<noteq> 3 * slot + 1 \<Longrightarrow> n \<noteq> 3 * slot + 2 \<Longrightarrow> q ! n = ut_pages (user_tables_of k') ! n"
    using assms unfolding pages_changed_def by blast
  show ?thesis
    unfolding pages_changed_def by (rule exI [of _ q]) (use p q in simp)
qed

lemma pages_changed_frame:
  assumes "pages_changed slot k k'"
  shows "call_frame i slot k k'"
proof -
  have "3 * s + r \<noteq> 3 * slot + 1" "3 * s + r \<noteq> 3 * slot + 2" if "s \<noteq> slot" "r < 3" for s r :: nat
    using that by linarith+
  moreover have "3 * slot \<noteq> 3 * slot + 1" "3 * slot \<noteq> 3 * slot + 2" by simp_all
  ultimately show ?thesis
    using assms by (auto simp: pages_changed_def call_frame_def slot_view_def own_view_def)
qed

lemma user_byte_pages: "user_byte env (k\<lparr>user_tables_of := (user_tables_of k)\<lparr>ut_pages := p\<rparr>\<rparr>) va = user_byte env k va"
proof -
  have "as_read env ((user_tables_of k)\<lparr>ut_pages := p\<rparr>) = as_read env (user_tables_of k)"
    by (simp add: as_read_def fun_eq_iff)
  then show ?thesis by (simp add: user_byte_def)
qed

lemma pages_changed_user_byte: "pages_changed slot k k' \<Longrightarrow> user_byte env k' va = user_byte env k va"
  by (auto simp: pages_changed_def user_byte_pages)

lemma pages_changed_caller:
  assumes "pages_changed slot k k'" "el0_caller env i slot root k"
  shows "el0_caller env i slot root k'"
proof -
  obtain p where p: "k' = k\<lparr>user_tables_of := (user_tables_of k)\<lparr>ut_pages := p\<rparr>\<rparr>"
      "map length p = map length (ut_pages (user_tables_of k))"
    using assms(1) unfolding pages_changed_def by blast
  have "length p = length (ut_pages (user_tables_of k))" using p(2) by (metis length_map)
  moreover have "\<forall>x\<in>set p. length x = 4096" if "\<forall>x\<in>set (ut_pages (user_tables_of k)). length x = 4096"
    using that p(2) by (metis (mono_tags, lifting) image_iff list.set_map)
  ultimately show ?thesis
    using assms(2) by (simp add: p(1) el0_caller_def in_task_def slot_mapped_def user_tables_ok_def)
qed

lemma user_page_writable: "writable_address va \<Longrightarrow> user_page_index va = Some r \<Longrightarrow> r = 1 \<or> r = 2"
  by (auto simp: writable_address_def user_page_index_def word_le_nat_alt word_less_nat_alt split: if_splits)

lemma map_length_update: "map length (xs[p := (xs ! p)[n := b]]) = map length xs"
proof (rule nth_equalityI)
  fix i assume "i < length (map length (xs[p := (xs ! p)[n := b]]))"
  then show "map length (xs[p := (xs ! p)[n := b]]) ! i = map length xs ! i" by (cases "i = p") simp_all
qed simp

lemma store_byte_pages:
  assumes "el0_caller env i slot root k" "linked env root" "writable_address va" "store_byte env va b k = Some k'"
  shows "pages_changed slot k k'"
proof -
  obtain r where r: "user_page_index va = Some r" "r = 1 \<or> r = 2"
    "k' = k\<lparr>user_tables_of := (user_tables_of k)\<lparr>ut_pages := (ut_pages (user_tables_of k))
        [3 * slot + r := (ut_pages (user_tables_of k) ! (3 * slot + r))[unat va mod 4096 := b]]\<rparr>\<rparr>"
    using assms(4) user_byte_caller [OF assms(1,2) writable_is_user [OF assms(3)]] user_page_writable [OF assms(3)]
    by (auto simp: store_byte_def)
  show ?thesis
    unfolding pages_changed_def r(3)
    by (rule exI, rule conjI [OF refl]) (use r(2) in \<open>auto simp: map_length_update\<close>)
qed

lemma store_bytes_pages:
  assumes "el0_caller env i slot root k" "linked env root"
    and "\<And>j. j < length bs \<Longrightarrow> writable_address (va + of_nat j)" "store_bytes env va bs k = Some k'"
  shows "pages_changed slot k k'"
  using assms(1,3,4)
proof (induction bs arbitrary: k va)
  case Nil
  then show ?case by (simp add: pages_changed_refl)
next
  case (Cons b bs)
  obtain k1 where k1: "store_byte env va b k = Some k1" "store_bytes env (va + 1) bs k1 = Some k'"
    using Cons.prems(3) by (auto split: Option.bind_splits)
  have p: "pages_changed slot k k1"
    using store_byte_pages [OF Cons.prems(1) assms(2) _ k1(1)] Cons.prems(2) [of 0] by simp
  have "pages_changed slot k1 k'"
  proof (rule Cons.IH [OF pages_changed_caller [OF p Cons.prems(1)] _ k1(2)])
    fix j assume "j < length bs"
    then show "writable_address (va + 1 + of_nat j)" using Cons.prems(2) [of "Suc j"] by (simp add: add.assoc)
  qed
  with p show ?case by (rule pages_changed_trans)
qed

lemma put_user_frame:
  assumes "el0_caller (memory_env env) i slot root (sy_kernel s)" "linked (memory_env env) root"
    and "writable s va n" "length bs \<le> unat n" "put_user env va bs s = Some s'"
  shows "pages_changed slot (sy_kernel s) (sy_kernel s')" "s' = s\<lparr>sy_kernel := sy_kernel s'\<rparr>"
proof -
  obtain k' where k': "store_bytes (memory_env env) va bs (sy_kernel s) = Some k'" "s' = s\<lparr>sy_kernel := k'\<rparr>"
    using assms(5) by (auto simp: put_user_def)
  have sp: "user_space_fields (memory_env env) slot root (t_user_address_space (tasks (sy_kernel s) ! i))"
    using assms(1) by (simp add: el0_caller_def)
  have w: "n = 0 \<or> (\<exists>(lo, hi) \<in> {(0x200000, 0x300000), (0x3fff0000, 0x40000000)}. lo \<le> unat va \<and> unat va + unat n \<le> hi)"
    using assms(3) range_checks_iff [OF sp, of va n] by (simp add: writable_def caller_space [OF assms(1)])
  have "writable_address (va + of_nat j)" if "j < length bs" for j
  proof -
    have j: "j < unat n" using that assms(4) by simp
    then have "unat va + unat n \<le> 0x40000000" using w by auto
    then have "unat (va + of_nat j) = unat va + j"
      using j by (subst unat_add_no_wrap) (simp_all add: unat_of_nat take_bit_nat_eq_self)
    then show ?thesis using w j by (auto simp: writable_address_def)
  qed
  then show "pages_changed slot (sy_kernel s) (sy_kernel s')"
    using store_bytes_pages [OF assms(1,2) _ k'(1)] k'(2) by simp
  show "s' = s\<lparr>sy_kernel := sy_kernel s'\<rparr>" using k'(2) by simp
qed

lemma frame_step:
  assumes "call_frame i slot k k'" "user_tables_of k'' = user_tables_of k'"
    and "\<And>j. j \<noteq> i \<Longrightarrow> in_use k j \<Longrightarrow> t_files (tasks k'' ! j) = t_files (tasks k' ! j)"
  shows "call_frame i slot k k''"
  using assms by (simp add: call_frame_def)

lemma frame_upd_caller: "call_frame i slot k k' \<Longrightarrow> call_frame i slot k (upd_task i f k')"
  by (rule frame_step) (simp_all add: upd_task_fields)

lemma frame_upd_task:
  assumes "call_frame i slot k k'" "\<And>t. t_files (f t) = t_files t"
  shows "call_frame i slot k (upd_task p f k')"
proof (rule frame_step [OF assms(1)])
  fix j
  show "t_files (tasks (upd_task p f k') ! j) = t_files (tasks k' ! j)"
    using assms(2) by (cases "p = j"; cases "j < length (tasks k')") (simp_all add: upd_task_fields list_update_beyond)
qed (simp add: upd_task_fields)

lemma frame_set_space:
  assumes "call_frame i slot k k'"
  shows "call_frame i slot k (set_task_space p sp k')"
proof (cases "tm_space (t_memory (tasks k' ! p))")
  case NoSpace
  then show ?thesis using assms by (simp add: set_task_space_def)
next
  case KernelSpace
  then show ?thesis using frame_step [OF assms, of "set_task_space p sp k'"] by (simp add: set_task_space_def)
next
  case OwnSpace
  then show ?thesis using frame_upd_task [OF assms] by (simp add: set_task_space_def)
qed

section \<open>Creating a task\<close>

lemma write_arguments_other:
  "as_user_table_slot space \<noteq> s \<Longrightarrow> slot_view s (snd (snd (write_arguments space ws cursor t))) = slot_view s t"
proof (induction ws arbitrary: cursor t)
  case (Cons w ws)
  note o = write_user_data_other [OF Cons.prems]
  obtain ok u where u: "address_space_write_user_data cursor w (of_nat (length w)) space t = (ok, u)" by fastforce
  obtain ok' u' where u': "address_space_write_user_data (cursor + of_nat (length w)) [0] 1 space u = (ok', u')" by fastforce
  obtain ok'' rest u'' where u'': "write_arguments space ws (cursor + of_nat (length w) + 1) u' = (ok'', rest, u'')"
    by (metis prod_cases3)
  show ?case
    using o [of cursor w "of_nat (length w)" t] o [of "cursor + of_nat (length w)" "[0]" 1 u]
      Cons.IH [OF Cons.prems, of "cursor + of_nat (length w) + 1" u'] u u' u'' by (cases ok) simp_all
qed simp

text \<open>A step of creation: it touches the slot of the new task, and no space in slot \<open>s\<close>.\<close>

definition creates :: "nat \<Rightarrow> nat \<Rightarrow> kernel \<Rightarrow> kernel \<Rightarrow> bool" where
  "creates s pid k k' \<longleftrightarrow>
     (\<forall>j. j \<noteq> pid \<longrightarrow> tasks k' ! j = tasks k ! j) \<and> slot_view s (user_tables_of k') = slot_view s (user_tables_of k)"

lemma drop_new_task_creates:
  assumes "as_user_table_slot space \<noteq> s"
  shows "creates s pid k (drop_new_task pid space k)"
  using destroy_user_other [OF assms, of "user_tables_of k"]
  by (auto simp: creates_def drop_new_task_def Let_def upd_task_fields split: prod.split)

lemma abandon_creates:
  assumes "as_user_table_slot space \<noteq> s" "slot_view s tables = slot_view s (user_tables_of k)"
  shows "creates s pid k (snd (abandon_user_task pid space tables k))"
  using drop_new_task_creates [OF assms(1), of pid "upd_task pid (set_state TASK_UNUSED) (k\<lparr>user_tables_of := tables\<rparr>)"] assms(2)
  by (simp add: abandon_user_task_def creates_def upd_task_fields)

lemma place_arguments_creates:
  assumes "as_user_table_slot space \<noteq> s"
  shows "creates s pid k (snd (place_arguments space words argument_base strings_offset pid k))"
proof -
  obtain ok args t where w: "write_arguments space words strings_offset (user_tables_of k) = (ok, args, t)" by (metis prod_cases3)
  obtain ok1 t1 where w1: "address_space_write_user_data argument_base (pad_words (map fst args)) 64 space t = (ok1, t1)" by fastforce
  obtain ok2 t2 where w2: "address_space_write_user_data (argument_base + 64) (pad_words (map snd args)) 64 space t1 = (ok2, t2)" by fastforce
  note o = write_user_data_other [OF assms]
  have v: "slot_view s t = slot_view s (user_tables_of k)" "slot_view s t1 = slot_view s t" "slot_view s t2 = slot_view s t1"
    using write_arguments_other [OF assms, of words strings_offset "user_tables_of k"] w
      o [of argument_base "pad_words (map fst args)" 64 t] w1 o [of "argument_base + 64" "pad_words (map snd args)" 64 t1] w2 by simp_all
  note a = abandon_creates [OF assms]
  show ?thesis
    using a [of t k pid] a [of t1 "upd_task pid (set_user_arguments (length words) (as_user_data_start space + argument_base)) k" pid]
      a [of t2 "upd_task pid (set_user_arguments (length words) (as_user_data_start space + argument_base)) k" pid] v
    by (auto simp: place_arguments_def w w1 w2 Let_def creates_def upd_task_fields split: prod.split bool.split)
qed

lemma place_user_task_creates:
  assumes "s < 4" "ut_used (user_tables_of k) ! s"
  shows "creates s pid k (snd (place_user_task env task_name bytes img words argument_base strings_offset pid k))"
proof -
  let ?init = "address_space_init_user (arrays env) (Some task_name) (as_root_table (kernel_address_space k)) (user_tables_of k)"
  note i = init_user_other [OF assms, of "arrays env" "Some task_name" "as_root_table (kernel_address_space k)"]
  let ?load = "address_space_load_user_image (drop (ei_code img) bytes) (ei_code_size img) (drop (ei_data img) bytes)
      (ei_data_size img) (ei_entry_offset img) (fst ?init) (snd ?init)"
  have l: "slot_view s (snd (snd ?load)) = slot_view s (user_tables_of k)" "as_user_table_slot (fst (snd ?load)) \<noteq> s"
    using load_user_image_other [OF i(2), of "drop (ei_code img) bytes" "ei_code_size img" "drop (ei_data img) bytes"
        "ei_data_size img" "ei_entry_offset img" "snd ?init"] i
    by (simp_all add: address_space_load_user_image_def Let_def)
  have "creates s pid k (drop_new_task pid (fst (snd ?load)) (k\<lparr>user_tables_of := snd (snd ?load)\<rparr>))"
    using drop_new_task_creates [OF l(2), of pid "k\<lparr>user_tables_of := snd (snd ?load)\<rparr>"] l(1) by (simp add: creates_def)
  moreover have "creates s pid k (snd (place_arguments (fst (snd ?load)) words argument_base strings_offset pid
      (upd_task pid (new_user_task env pid task_name (fst (snd ?load))) (k\<lparr>user_tables_of := snd (snd ?load)\<rparr>))))"
    using place_arguments_creates [OF l(2), of pid "upd_task pid (new_user_task env pid task_name (fst (snd ?load)))
      (k\<lparr>user_tables_of := snd (snd ?load)\<rparr>)" words argument_base strings_offset] l(1) by (simp add: creates_def upd_task_fields)
  ultimately show ?thesis by (auto simp: place_user_task_def split: prod.split bool.split)
qed

lemma pick_slot_free:
  assumes "pick_slot k = Some (pid, k')"
  shows "\<not> in_use k pid" "tasks k' = tasks k" "user_tables_of k' = user_tables_of k"
  using assms
  by (auto simp: pick_slot_def in_use_def find_Some_iff split: option.splits if_splits)

lemma create_frame:
  assumes "slot < 4" "ut_used (user_tables_of k) ! slot"
    and "scheduler_create_user_task_from_image hw env name path argument v k = (pid, v', k')"
  shows "call_frame i slot k k'" "slot_view slot (user_tables_of k') = slot_view slot (user_tables_of k)"
proof -
  have "k' = k \<or> (\<exists>p. \<not> in_use k p \<and> (\<forall>s<4. ut_used (user_tables_of k) ! s \<longrightarrow> creates s p k k'))"
  proof (cases "plan_user_task (fst (vfs_file_data hw path v)) argument")
    case None
    then show ?thesis
      using assms(3) by (auto simp: scheduler_create_user_task_from_image_def create_user_task_from_file_def split: prod.splits)
  next
    case (Some q)
    obtain img words base off where q: "q = (img, words, base, off)" by (metis prod_cases4)
    show ?thesis
    proof (cases "pick_slot k")
      case None
      then show ?thesis
        using assms(3) Some q
        by (auto simp: scheduler_create_user_task_from_image_def create_user_task_from_file_def split: prod.splits)
    next
      case (Some r)
      obtain p k1 where r: "r = (p, k1)" by fastforce
      note f = pick_slot_free [OF Some [unfolded r]]
      have k': "k' = snd (place_user_task env (case name of Some n \<Rightarrow> n | None \<Rightarrow> ''user-demo'')
          (fst (the (fst (vfs_file_data hw path v)))) img words base off p k1)"
        using assms(3) Some q r \<open>plan_user_task _ _ = Some q\<close>
        by (auto simp: scheduler_create_user_task_from_image_def create_user_task_from_file_def split: prod.splits)
      have "creates s p k k'" if "s < 4" "ut_used (user_tables_of k) ! s" for s
        using place_user_task_creates [of s k1 p] that f(2,3) unfolding k' by (simp add: creates_def)
      then show ?thesis using f(1) by blast
    qed
  qed
  then have "call_frame i slot k k' \<and> slot_view slot (user_tables_of k') = slot_view slot (user_tables_of k)"
  proof (elim disjE exE conjE)
    fix p assume p: "\<not> in_use k p" "\<forall>s<4. ut_used (user_tables_of k) ! s \<longrightarrow> creates s p k k'"
    have own: "creates slot p k k'" using p(2) assms(1,2) by blast
    have "t_files (tasks k' ! j) = t_files (tasks k ! j)" if "in_use k j" for j
      using own p(1) that by (cases "j = p") (auto simp: creates_def)
    then show ?thesis
      using p(2) own own_view_slot [of slot "user_tables_of k'" "user_tables_of k"] by (auto simp: call_frame_def creates_def)
  qed (simp add: frame_refl)
  then show "call_frame i slot k k'" "slot_view slot (user_tables_of k') = slot_view slot (user_tables_of k)" by simp_all
qed

section \<open>The frame of each call\<close>

definition confined :: "'d system_env \<Rightarrow> nat \<Rightarrow> nat \<Rightarrow> u64 \<Rightarrow> ('d system \<Rightarrow> (int \<times> 'd system) option) \<Rightarrow> bool" where
  "confined env i slot root f \<longleftrightarrow>
     (\<forall>s r s'. el0_caller (memory_env env) i slot root (sy_kernel s) \<longrightarrow> f s = Some (r, s') \<longrightarrow>
        call_frame i slot (sy_kernel s) (sy_kernel s'))"

lemma confinedI:
  "(\<And>s r s'. el0_caller (memory_env env) i slot root (sy_kernel s) \<Longrightarrow> f s = Some (r, s') \<Longrightarrow>
     call_frame i slot (sy_kernel s) (sy_kernel s')) \<Longrightarrow> confined env i slot root f"
  by (simp add: confined_def)

lemma confinedD:
  "confined env i slot root f \<Longrightarrow> el0_caller (memory_env env) i slot root (sy_kernel s) \<Longrightarrow> f s = Some (r, s') \<Longrightarrow>
   call_frame i slot (sy_kernel s) (sy_kernel s')"
  by (simp add: confined_def)

lemma kernel_same [simp]:
  "sy_kernel (upd_stats f s) = sy_kernel s" "sy_kernel (with_kernel k s) = k" "sy_kernel (count_result r s) = sy_kernel s"
  "sy_kernel (snd (syscall_random s)) = sy_kernel s"
  by (simp_all add: upd_stats_def with_kernel_def count_result_def syscall_random_def Let_def)

text \<open>Calls that do not touch the kernel's state at all.\<close>

lemma count_fault_kernel: "count_fault s = Some (r, s') \<Longrightarrow> sy_kernel s' = sy_kernel s"
  by (auto simp: count_fault_def)

lemma vfs_result_kernel: "vfs_result x s = Some (r, s') \<Longrightarrow> sy_kernel s' = sy_kernel s"
  by (auto simp: vfs_result_def split: prod.splits)

lemma with_path_Some:
  assumes "with_path env a n f s = Some (r, s')"
  shows "s' = s \<or> (\<exists>path. f path s = Some (r, s'))"
  using assms by (auto simp: with_path_def split: Option.bind_splits prod.splits if_splits)

lemma path_calls_kernel:
  "syscall_mkdir env a n s = Some (r, s') \<Longrightarrow> sy_kernel s' = sy_kernel s"
  "syscall_remove env a n s = Some (r, s') \<Longrightarrow> sy_kernel s' = sy_kernel s"
  "syscall_truncate env a n sz s = Some (r, s') \<Longrightarrow> sy_kernel s' = sy_kernel s"
  "syscall_rename env a n b m s = Some (r, s') \<Longrightarrow> sy_kernel s' = sy_kernel s"
  by (auto simp: syscall_mkdir_def syscall_remove_def syscall_truncate_def syscall_rename_def split: if_splits
      dest: count_fault_kernel dest!: with_path_Some dest: vfs_result_kernel)

lemma confined_kernel:
  "(\<And>s r s'. f s = Some (r, s') \<Longrightarrow> sy_kernel s' = sy_kernel s) \<Longrightarrow> confined env i slot root f"
  by (rule confinedI) (simp add: frame_refl)

lemma confined_paths:
  "confined env i slot root (syscall_mkdir env a n)" "confined env i slot root (syscall_remove env a n)"
  "confined env i slot root (syscall_truncate env a n sz)" "confined env i slot root (syscall_rename env a n b m)"
  by (rule confined_kernel, erule path_calls_kernel)+

text \<open>Calls on descriptors change the caller's own; reads and the queries store in its pages.\<close>

lemma fd_slot_caller:
  "el0_caller env i slot root (sy_kernel s) \<Longrightarrow> fd_slot fd s = Some (j, n) \<Longrightarrow> j = i"
  "el0_caller env i slot root (sy_kernel s) \<Longrightarrow> scheduler_current_task_mutable (sy_kernel s) = Some i"
  by (auto simp: fd_slot_def scheduler_current_task_mutable_def el0_caller_def in_task_def split: if_splits)

lemma upd_file_frame: "call_frame i slot k (sy_kernel s) \<Longrightarrow> call_frame i slot k (sy_kernel (upd_file i n f s))"
  by (simp add: upd_file_def frame_upd_caller)

lemma caller_frame_vfs: "el0_caller env i slot root (sy_kernel (s\<lparr>sy_vfs := v\<rparr>)) = el0_caller env i slot root (sy_kernel s)"
  by simp

lemma dup_confined: "confined env i slot root (\<lambda>s. Some (syscall_dup fd s))"
  by (rule confinedI)
    (auto simp: syscall_dup_def frame_refl split: option.splits if_splits dest!: fd_slot_caller(1) intro!: upd_file_frame)

lemma close_confined: "confined env i slot root (\<lambda>s. Some (syscall_close fd s))"
  by (rule confinedI)
    (auto simp: syscall_close_def frame_refl split: option.splits if_splits dest!: fd_slot_caller(1) intro!: upd_file_frame)

lemma seek_confined: "confined env i slot root (\<lambda>s. Some (syscall_seek env fd off s))"
  by (rule confinedI)
    (auto simp: syscall_seek_def frame_refl split: option.splits if_splits prod.splits dest!: fd_slot_caller(1) intro!: upd_file_frame)

lemma open_confined: "confined env i slot root (syscall_open env a n create)"
  by (rule confinedI)
    (auto simp: syscall_open_def fd_slot_caller(2) frame_refl Let_def split: option.splits if_splits prod.splits Option.bind_splits
      dest!: count_fault_kernel intro!: upd_file_frame)

lemma write_confined:
  "confined env i slot root (\<lambda>s. do { (r, s) \<leftarrow> syscall_write env fd a n s; Some (r, count_result r s) })"
proof (rule confinedI)
  fix s :: "'a system" and r s'
  assume c: "el0_caller (memory_env env) i slot root (sy_kernel s)"
    and "do { (r, s) \<leftarrow> syscall_write env fd a n s; Some (r, count_result r s) } = Some (r, s')"
  then obtain s1 where s1: "syscall_write env fd a n s = Some (r, s1)" "sy_kernel s' = sy_kernel s1"
    by (auto split: Option.bind_splits)
  have wf: "call_frame i slot (sy_kernel s) (sy_kernel s2)" if "write_file env i m a n s = Some (r, s2)" for m s2
    using that by (auto simp: write_file_def Let_def split: Option.bind_splits prod.splits if_splits intro!: upd_file_frame frame_refl)
  show "call_frame i slot (sy_kernel s) (sy_kernel s')"
    unfolding s1(2) using s1(1)
    by (auto simp: syscall_write_def frame_refl split: if_splits option.splits prod.splits Option.bind_splits
        dest!: count_fault_kernel fd_slot_caller(1) [OF c] intro: wf)
qed

lemma put_user_confined:
  assumes "put_user env va bs s = Some s'" "el0_caller (memory_env env) i slot root (sy_kernel s)" "linked (memory_env env) root"
    and "writable s va n" "length bs \<le> unat n"
  shows "call_frame i slot (sy_kernel s) (sy_kernel s')"
  by (rule pages_changed_frame [OF put_user_frame(1) [OF assms(2-5,1)]])

lemma vfs_read_length:
  assumes "vfs_read hw path off n v = (Some bs, v')"
  shows "length bs \<le> unat n"
  using assms
  by (auto simp: vfs_read_def Let_def slice_def word_less_nat_alt split: option.splits if_splits prod.splits)

lemma writable_vfs [simp]: "writable (s\<lparr>sy_vfs := v\<rparr>) = writable s"
  by (simp add: writable_def fun_eq_iff)

lemma read_confined:
  assumes "linked (memory_env env) root"
  shows "confined env i slot root (syscall_read env fd a n)"
proof (rule confinedI)
  fix s :: "'a system" and r s'
  assume c: "el0_caller (memory_env env) i slot root (sy_kernel s)" and r: "syscall_read env fd a n s = Some (r, s')"
  have st: "call_frame i slot (sy_kernel s) (sy_kernel s1)"
    if "put_user env a bs (s\<lparr>sy_vfs := v\<rparr>) = Some s1" "vfs_read hw path off n (sy_vfs s) = (Some bs, v)" "writable s a n" for hw path off bs v s1
    using put_user_confined [OF that(1)] c assms that vfs_read_length [OF that(2)] by simp
  show "call_frame i slot (sy_kernel s) (sy_kernel s')"
    using r
    by (auto simp: syscall_read_def frame_refl Let_def split: if_splits option.splits prod.splits Option.bind_splits
        dest!: count_fault_kernel fd_slot_caller(1) [OF c] intro!: upd_file_frame elim: st)
qed

lemma length_words_bytes [simp]: "length (words_bytes ws) = 8 * length ws"
  by (induction ws) (simp_all add: words_bytes_def le64_def)

lemma system_info_confined:
  assumes "linked (memory_env env) root"
  shows "confined env i slot root (syscall_system_info env a)"
  by (rule confinedI)
    (auto simp: syscall_system_info_def frame_refl split: if_splits Option.bind_splits dest!: count_fault_kernel
      elim!: put_user_confined [OF _ _ assms, where n = 72])

lemma process_status_confined:
  assumes "linked (memory_env env) root"
  shows "confined env i slot root (syscall_process_status env pid a)"
proof -
  have "length (words_bytes (process_status_words t)) \<le> unat (72 :: u64)" for t by (simp add: process_status_words_def)
  then show ?thesis
    by (intro confinedI)
      (auto simp: syscall_process_status_def frame_refl Let_def split: if_splits option.splits Option.bind_splits dest!: count_fault_kernel
        elim!: put_user_confined [OF _ _ assms, where n = 72])
qed

text \<open>A directory entry takes 64 bytes.\<close>

lemma vfs_entry_length:
  "vfs_list n v = Some e \<Longrightarrow> length (entry_bytes e) = 64" "vfs_stat hw p v = (Some e, v') \<Longrightarrow> length (entry_bytes e) = 64"
  by (auto simp: vfs_list_def vfs_stat_def entry_path_def entry_bytes_def Let_def split: if_splits option.splits prod.splits)

lemma directory_list_confined:
  assumes "linked (memory_env env) root"
  shows "confined env i slot root (syscall_directory_list env n a)"
  by (rule confinedI)
    (auto simp: syscall_directory_list_def frame_refl split: if_splits option.splits Option.bind_splits dest!: count_fault_kernel
      dest: vfs_entry_length(1) elim!: put_user_confined [OF _ _ assms, where n = 64])

lemma path_stat_confined:
  assumes "linked (memory_env env) root"
  shows "confined env i slot root (syscall_path_stat env a n b)"
proof (rule confinedI)
  fix s :: "'a system" and r s'
  assume c: "el0_caller (memory_env env) i slot root (sy_kernel s)" and r: "syscall_path_stat env a n b s = Some (r, s')"
  have "call_frame i slot (sy_kernel s) (sy_kernel s1)"
    if "writable s b 64" "vfs_stat hw path (sy_vfs s) = (Some e, v)" "put_user env b (entry_bytes e) (s\<lparr>sy_vfs := v\<rparr>) = Some s1" for hw path e v s1
    using put_user_confined [OF that(3), where n = 64] c assms that vfs_entry_length(2) [OF that(2)] by simp
  then show "call_frame i slot (sy_kernel s) (sy_kernel s')"
    using r by (auto simp: syscall_path_stat_def frame_refl split: if_splits option.splits prod.splits Option.bind_splits
        dest!: count_fault_kernel with_path_Some)
qed

text \<open>Processes.\<close>

lemma spawn_child_frame:
  assumes "el0_caller (memory_env env) i slot root (sy_kernel s)"
  shows "call_frame i slot (sy_kernel s) (sy_kernel (snd (spawn_child env path argument s)))"
proof -
  obtain pid v k where c: "scheduler_create_user_task_from_image (se_disk env) (se_kernel env) (Some ''user-child'') path argument
      (sy_vfs s) (sy_kernel s) = (pid, v, k)" by (metis prod_cases3)
  have f: "call_frame i slot (sy_kernel s) k"
    using create_frame(1) [OF _ _ c] assms by (simp add: el0_caller_def)
  have par: "call_frame i slot (sy_kernel s) (snd (scheduler_set_task_parent p q k))" for p q
    using frame_upd_task [OF f] f by (simp add: scheduler_set_task_parent_def)
  have unb: "call_frame i slot (sy_kernel s) (snd (scheduler_unblock_user_task env' p k'))" if "call_frame i slot (sy_kernel s) k'" for env' p k'
    using that by (auto simp: scheduler_unblock_user_task_def Let_def upd_user_status_def split: option.split prod.split
        intro!: frame_upd_task frame_set_space)
  show ?thesis
    using f par unb [OF par] by (auto simp: spawn_child_def c Let_def split: option.split prod.split bool.split)
      (metis snd_conv)+
qed

lemma spawn_confined: "confined env i slot root (syscall_spawn env a n b m)"
proof (rule confinedI)
  fix s :: "'a system" and r s'
  assume c: "el0_caller (memory_env env) i slot root (sy_kernel s)" and r: "syscall_spawn env a n b m s = Some (r, s')"
  have sp: "call_frame i slot (sy_kernel s) (sy_kernel s')" if "spawn_child env path argument s = (r, s')" for path argument
    using spawn_child_frame [OF c, of path argument] that by simp
  show "call_frame i slot (sy_kernel s) (sy_kernel s')"
    using r by (auto simp: syscall_spawn_def frame_refl split: if_splits Option.bind_splits
        dest!: count_fault_kernel with_path_Some dest: sp)
qed

lemma terminate_confined:
  "confined env i slot root (\<lambda>s. case scheduler_terminate_child pid code (sy_kernel s) of
     (ok, k) \<Rightarrow> Some (if ok then 0 else SYSCALL_ERR_INVAL, with_kernel k s))"
  by (rule confinedI)
    (auto simp: scheduler_terminate_child_def Let_def set_state_def upd_user_status_def frame_refl split: if_splits
      intro!: frame_upd_task)

lemma exit_confined:
  "confined env i slot root (\<lambda>s. Some (0, with_kernel (snd (user_mode_handle_exit_syscall code (sy_kernel s))) s))"
proof (rule confinedI)
  fix s :: "'a system" and r s'
  assume r: "Some (0, with_kernel (snd (user_mode_handle_exit_syscall code (sy_kernel s))) s) = Some (r, s')"
  have same: "call_frame i slot k (upd_session g k')" "call_frame i slot k (switch_root x k')" "call_frame i slot k (k'\<lparr>elr_el1 := e, spsr_el1 := p\<rparr>)"
    "call_frame i slot k (upd_session_task u k')" if "call_frame i slot k k'" for k k' g x e p u
    using that frame_upd_task [OF that, of "upd_user_status u"]
    by (auto simp: call_frame_def upd_session_def switch_root_def upd_session_task_def upd_user_status_def split: option.split)
  show "call_frame i slot (sy_kernel s) (sy_kernel s')"
    using r by (auto simp: user_mode_handle_exit_syscall_def Let_def intro!: same frame_refl)
qed

section \<open>Confinement of the dispatcher\<close>

lemma counted_confined: "confined env i slot root f \<Longrightarrow> confined env i slot root (counted g f)"
  unfolding confined_def counted_def by (metis kernel_same(1))

lemma if_confined:
  "(c \<Longrightarrow> confined env i slot root f) \<Longrightarrow> (\<not> c \<Longrightarrow> confined env i slot root g) \<Longrightarrow> confined env i slot root (if c then f else g)"
  by simp

lemma queries_confined:
  "confined env i slot root (\<lambda>s. Some (t_pid (scheduler_current_task (sy_kernel s)), s))"
  "confined env i slot root (\<lambda>s. let parent = t_parent_pid (scheduler_current_task (sy_kernel s)) in Some (if parent > 0 then parent else 0, s))"
  "confined env i slot root (\<lambda>s. let ms = scheduler_get_ticks (sy_kernel s) * sy_interval s
     in Some (sint ms, upd_stats (\<lambda>t. t\<lparr>st_last_monotonic_ms := ms\<rparr>) s))"
  "confined env i slot root (\<lambda>s. case syscall_random s of (result, s) \<Rightarrow> Some (result, upd_stats (\<lambda>t. t\<lparr>st_last_random := c_ulong result\<rparr>) s))"
  "confined env i slot root (\<lambda>s. Some (-1, upd_stats g s))"
  by (rule confined_kernel, force simp: Let_def syscall_random_def split: prod.splits)+

lemmas confined_calls = write_confined exit_confined open_confined read_confined close_confined seek_confined spawn_confined
  terminate_confined system_info_confined process_status_confined directory_list_confined confined_paths path_stat_confined
  dup_confined queries_confined

lemma staying_case_confined:
  assumes "linked (memory_env env) root" "number \<notin> {SYSCALL_YIELD, SYSCALL_WAIT, SYSCALL_SLEEP}"
  shows "confined env i slot root (syscall_case env resume number a0 a1 a2 a3)"
  unfolding syscall_case_def
  by (intro if_confined counted_confined confined_calls assms(1)) (use assms(2) in simp_all)

lemma dispatch_confined:
  assumes "linked (memory_env env) root" "number \<notin> {SYSCALL_YIELD, SYSCALL_WAIT, SYSCALL_SLEEP}"
  shows "confined env i slot root (syscall_dispatch env resume number a0 a1 a2 a3)"
proof (rule confinedI)
  fix s :: "'a system" and r s'
  assume c: "el0_caller (memory_env env) i slot root (sy_kernel s)"
    and d: "syscall_dispatch env resume number a0 a1 a2 a3 s = Some (r, s')"
  let ?s = "upd_stats (\<lambda>t. t\<lparr>st_total := st_total t + 1, st_last_number := number, st_last_arg0 := a0, st_last_arg1 := a1,
                             st_last_arg2 := a2\<rparr>) s"
  obtain s1 where s1: "syscall_case env resume number a0 a1 a2 a3 ?s = Some (r, s1)" "sy_kernel s' = sy_kernel s1"
    using d by (auto simp: syscall_dispatch_def split: Option.bind_splits if_splits)
  then show "call_frame i slot (sy_kernel s) (sy_kernel s')"
    using confinedD [OF staying_case_confined [OF assms] _ s1(1)] c by simp
qed

end
