(* ===== verification/SyscallProps.thy ===== *)
theory SyscallProps
  imports SyscallMem
begin

text \<open>
  What the system calls promise a program: its memory and files are its own, files written read back
  through descriptors, waiting collects a child's result, and every call is accounted for.
\<close>

section \<open>Loads and stores\<close>

lemma page_position_inj:
  assumes "user_page_index va = Some r" "user_page_index va' = Some r" "unat va mod 4096 = unat va' mod 4096"
  shows "va = va'"
proof -
  have r: "unat x div 4096 = (if r = 0 then 0x100 else if r = 1 then 0x200 else 0x3fff0)" if "user_page_index x = Some r" for x
    using that
    by (auto simp: user_page_index_def word_le_nat_alt word_less_nat_alt div_nat_eqI split: if_splits)
  have "unat va = unat va div 4096 * 4096 + unat va mod 4096" "unat va' = unat va' div 4096 * 4096 + unat va' mod 4096" by simp_all
  then show ?thesis using r [OF assms(1)] r [OF assms(2)] assms(3) by (simp add: word_unat_eq_iff)
qed

lemma user_page_address: "user_page_index va = Some r \<Longrightarrow> user_address va" "user_page_index va = Some r \<Longrightarrow> r < 3"
  "user_page_index va = Some r \<Longrightarrow> r \<noteq> 0 \<Longrightarrow> writable_address va"
  by (auto simp: user_page_index_def user_address_def writable_address_def word_le_nat_alt word_less_nat_alt split: if_splits)

lemma load_byte_caller:
  assumes "el0_caller env i slot root k" "linked env root" "user_page_index va = Some r"
  shows "load_byte env k va = Some (ut_pages (user_tables_of k) ! (3 * slot + r) ! (unat va mod 4096))"
  using user_byte_caller [OF assms(1,2) user_page_address(1) [OF assms(3)]] assms(3) by (simp add: load_byte_def)

lemma store_byte_caller:
  assumes "el0_caller env i slot root k" "linked env root" "user_page_index va = Some r" "r \<noteq> 0"
  shows "\<exists>k'. store_byte env va b k = Some k' \<and> pages_changed slot k k' \<and>
    (\<forall>va' r'. user_page_index va' = Some r' \<longrightarrow> load_byte env k' va' = (if va' = va then Some b else load_byte env k va'))"
proof -
  note u = user_byte_caller [OF assms(1,2) user_page_address(1) [OF assms(3)]]
  define k' where "k' = k\<lparr>user_tables_of := (user_tables_of k)\<lparr>ut_pages := (ut_pages (user_tables_of k))
        [3 * slot + r := (ut_pages (user_tables_of k) ! (3 * slot + r))[unat va mod 4096 := b]]\<rparr>\<rparr>"
  have s: "store_byte env va b k = Some k'" using u assms(3) by (simp add: store_byte_def k'_def)
  note p = store_byte_pages [OF assms(1,2) user_page_address(3) [OF assms(3,4)] s]
  have ok: "length (ut_pages (user_tables_of k)) = 12" "\<And>n. n < 12 \<Longrightarrow> length (ut_pages (user_tables_of k) ! n) = 4096" "slot < 4"
    using assms(1) by (auto simp: el0_caller_def user_tables_ok_def)
  have "load_byte env k' va' = (if va' = va then Some b else load_byte env k va')" if r': "user_page_index va' = Some r'" for va' r'
  proof -
    have n: "3 * slot + r < 12" using ok(3) user_page_address(2) [OF assms(3)] by simp
    have l: "load_byte env k' va' = Some (ut_pages (user_tables_of k') ! (3 * slot + r') ! (unat va' mod 4096))"
      by (rule load_byte_caller [OF pages_changed_caller [OF p assms(1)] assms(2) r'])
    show ?thesis
    proof (cases "va' = va")
      case True
      then show ?thesis using l r' assms(3) n ok by (simp add: k'_def)
    next
      case False
      then have "r' \<noteq> r \<or> unat va' mod 4096 \<noteq> unat va mod 4096" using page_position_inj [OF r'] assms(3) by auto
      then have "ut_pages (user_tables_of k') ! (3 * slot + r') ! (unat va' mod 4096) =
          ut_pages (user_tables_of k) ! (3 * slot + r') ! (unat va' mod 4096)"
        using n ok(1) by (cases "r' = r") (auto simp: k'_def)
      then show ?thesis using l False load_byte_caller [OF assms(1,2) r'] by simp
    qed
  qed
  with s p show ?thesis by blast
qed

text \<open>A buffer that lies in mapped pages; for stores, outside the code page.\<close>

definition mapped :: "u64 \<Rightarrow> nat \<Rightarrow> bool" where
  "mapped va n \<longleftrightarrow> (\<forall>j<n. user_page_index (va + of_nat j) \<noteq> None)"

definition mapped_data :: "u64 \<Rightarrow> nat \<Rightarrow> bool" where
  "mapped_data va n \<longleftrightarrow> (\<forall>j<n. \<exists>r. user_page_index (va + of_nat j) = Some r \<and> r \<noteq> 0)"

lemma mapped_data_mapped: "mapped_data va n \<Longrightarrow> mapped va n"
  by (auto simp: mapped_def mapped_data_def)

lemma mapped_Suc: "mapped va (Suc n) \<longleftrightarrow> user_page_index va \<noteq> None \<and> mapped (va + 1) n"
  "mapped_data va (Suc n) \<longleftrightarrow> (\<exists>r. user_page_index va = Some r \<and> r \<noteq> 0) \<and> mapped_data (va + 1) n"
  unfolding mapped_def mapped_data_def by (simp_all add: All_less_Suc2 add.assoc)

lemma load_bytes_mapped:
  assumes "el0_caller env i slot root k" "linked env root" "mapped va n"
  shows "\<exists>bs. load_bytes env k va n = Some bs \<and> length bs = n"
  using assms(3)
proof (induction n arbitrary: va)
  case (Suc n)
  then show ?case using load_byte_caller [OF assms(1,2)] by (fastforce simp: mapped_Suc)
qed simp

lemma store_bytes_mapped:
  assumes "el0_caller env i slot root k" "linked env root" "mapped_data va (length bs)" "length bs < 2 ^ 64"
  shows "\<exists>k'. store_bytes env va bs k = Some k' \<and> pages_changed slot k k' \<and> load_bytes env k' va (length bs) = Some bs \<and>
    (\<forall>va' r'. user_page_index va' = Some r' \<longrightarrow> (\<forall>j<length bs. va' \<noteq> va + of_nat j) \<longrightarrow> load_byte env k' va' = load_byte env k va')"
  using assms(1,3,4)
proof (induction bs arbitrary: k va)
  case Nil
  then show ?case by (simp add: pages_changed_refl)
next
  case (Cons b bs)
  obtain r where r: "user_page_index va = Some r" "r \<noteq> 0" using Cons.prems(2) by (auto simp: mapped_Suc)
  obtain k1 where k1: "store_byte env va b k = Some k1" "pages_changed slot k k1"
    and l1: "\<And>va' r'. user_page_index va' = Some r' \<Longrightarrow> load_byte env k1 va' = (if va' = va then Some b else load_byte env k va')"
    using store_byte_caller [OF Cons.prems(1) assms(2) r] by blast
  obtain k2 where k2: "store_bytes env (va + 1) bs k1 = Some k2" "pages_changed slot k1 k2" "load_bytes env k2 (va + 1) (length bs) = Some bs"
    and l2: "\<And>va' r'. user_page_index va' = Some r' \<Longrightarrow> \<forall>j<length bs. va' \<noteq> va + 1 + of_nat j \<Longrightarrow> load_byte env k2 va' = load_byte env k1 va'"
    using Cons.IH [OF pages_changed_caller [OF k1(2) Cons.prems(1)], of "va + 1"] Cons.prems(2,3) by (auto simp: mapped_Suc)
  have apart: "va \<noteq> va + 1 + of_nat j" if "j < length bs" for j
  proof
    assume "va = va + 1 + of_nat j"
    then have "of_nat (Suc j) = (0 :: u64)" by (simp add: add.assoc)
    then have "(2 :: nat) ^ 64 dvd Suc j" unfolding word_of_nat_eq_0_iff by simp
    then show False using that Cons.prems(3) by (auto dest: dvd_imp_le)
  qed
  have "load_byte env k2 va = Some b" using l2 [OF r(1)] l1 [OF r(1)] apart by auto
  then have "load_bytes env k2 va (length (b # bs)) = Some (b # bs)" using k2(3) by simp
  moreover have "load_byte env k2 va' = load_byte env k va'"
    if "user_page_index va' = Some r'" "\<forall>j<length (b # bs). va' \<noteq> va + of_nat j" for va' r'
  proof -
    have "va' \<noteq> va" "\<forall>j<length bs. va' \<noteq> va + 1 + of_nat j"
      using that(2) by (auto simp: All_less_Suc2 add.assoc)
    then show ?thesis using l2 [OF that(1)] l1 [OF that(1)] by simp
  qed
  moreover have "store_bytes env va (b # bs) k = Some k2" using k1(1) k2(1) by simp
  ultimately show ?case using pages_changed_trans [OF k1(2) k2(2)] by blast
qed

section \<open>Confinement\<close>

text \<open>
  C2: a system call touches nothing that is not the caller's. Whatever number and arguments a program
  passes, a call that does not give up the processor (every call but yield, wait and sleep) leaves the
  tables, pages and flag of every other space in use, the caller's own translation tables and code
  page, and the file descriptors of every other task unchanged.
\<close>

theorem syscall_confined:
  assumes "el0_caller (memory_env env) i slot root (sy_kernel s)" "linked (memory_env env) root"
    and "number \<notin> {SYSCALL_YIELD, SYSCALL_WAIT, SYSCALL_SLEEP}"
    and "syscall_dispatch env resume number a0 a1 a2 a3 s = Some (r, s')"
  shows "(\<forall>other<4. other \<noteq> slot \<and> ut_used (user_tables_of (sy_kernel s)) ! other \<longrightarrow>
      slot_view other (user_tables_of (sy_kernel s')) = slot_view other (user_tables_of (sy_kernel s))) \<and>
    own_view slot (user_tables_of (sy_kernel s')) = own_view slot (user_tables_of (sy_kernel s)) \<and>
    (\<forall>j<task_count (sy_kernel s). j \<noteq> i \<and> t_state (tasks (sy_kernel s) ! j) \<noteq> TASK_UNUSED \<longrightarrow>
      t_files (tasks (sy_kernel s') ! j) = t_files (tasks (sy_kernel s) ! j))"
  using confinedD [OF dispatch_confined [OF assms(2,3)] assms(1,4)] by (simp add: call_frame_def in_use_def)

section \<open>Files through descriptors\<close>

lemma upd_file_same [simp]:
  "sy_vfs (upd_file i n f s) = sy_vfs s" "sy_vfs (upd_stats g s) = sy_vfs s" "fd_slot fd (upd_file i n f s) = fd_slot fd s"
  "fd_slot fd (upd_stats g s) = fd_slot fd s" "fd_slot fd (s\<lparr>sy_vfs := v\<rparr>) = fd_slot fd s"
  "task_files i (upd_stats g s) = task_files i s" "task_files i (s\<lparr>sy_vfs := v\<rparr>) = task_files i s"
  by (simp_all add: upd_file_def upd_stats_def fd_slot_def task_files_def scheduler_current_task_mutable_def upd_task_fields)

lemma task_files_upd:
  "i < length (tasks (sy_kernel s)) \<Longrightarrow> task_files i (upd_file i n f s) = (task_files i s)[n := f (task_files i s ! n)]"
  by (simp add: upd_file_def task_files_def upd_task_fields)

lemma caller_upd_file:
  "el0_caller env i slot root (sy_kernel s) \<Longrightarrow> el0_caller env i slot root (sy_kernel (upd_file i n f s))"
  by (simp add: el0_caller_def in_task_def upd_file_def upd_task_fields)

lemma upd_file_kernel:
  "mmu (sy_kernel (upd_file i n f s)) = mmu (sy_kernel s)" "user_tables_of (sy_kernel (upd_file i n f s)) = user_tables_of (sy_kernel s)"
  by (simp_all add: upd_file_def upd_task_fields)

lemma load_bytes_cong:
  assumes "mmu k = mmu k'" "user_tables_of k = user_tables_of k'"
  shows "load_bytes env k va n = load_bytes env k' va n"
proof -
  have "load_byte env k = load_byte env k'" using assms by (simp add: load_byte_def user_byte_def fun_eq_iff)
  then show ?thesis by (induction n arbitrary: va) simp_all
qed

lemma writable_upd_file:
  assumes "el0_caller env i slot root (sy_kernel s)"
  shows "writable (upd_file i n f s) = writable s"
proof -
  have "i < length (tasks (sy_kernel s))" using assms by (simp add: el0_caller_def in_task_def)
  then show ?thesis
    using caller_space [OF assms] caller_space [OF caller_upd_file [OF assms, of n f]]
    by (simp add: writable_def upd_file_def upd_task_fields fun_eq_iff)
qed

lemma writable_stats [simp]: "writable (upd_stats g s) = writable s"
  by (simp add: writable_def upd_stats_def fun_eq_iff)

lemma ram_file_data:
  assumes "vfs_inv v" "vfs_disk_path path = None" "ram_files v path = Some c"
  shows "\<exists>data. vfs_file_data hw path v = (Some (data, of_nat (length c)), v)" "snd (vfs_read hw path off n v) = v"
proof -
  from assms(3) obtain i where f: "vfs_find path v = Some i" "rn_kind (nodes v ! i) = RAMFS_FILE"
    and c: "c = take (unat (rn_size (nodes v ! i))) (rn_data (nodes v ! i))"
    by (auto simp: ram_files_def split: option.splits if_splits)
  have "length (rn_data (nodes v ! i)) = 4096" "unat (rn_size (nodes v ! i)) \<le> 4096"
    using vfs_found_ok [OF assms(1) f(1)] by (auto simp: node_ok_def)
  then show "\<exists>data. vfs_file_data hw path v = (Some (data, of_nat (length c)), v)"
    using f c assms(2) by (simp add: vfs_file_data_def)
  show "snd (vfs_read hw path off n v) = v"
    using f assms(2) by (simp add: vfs_read_def Let_def)
qed

lemma sint_small: "unat (x :: u64) < 2 ^ 63 \<Longrightarrow> sint x = uint x"
proof -
  assume "unat x < 2 ^ 63"
  then have "uint x < 2 ^ 63" by (metis of_nat_less_iff of_nat_numeral of_nat_power uint_nat)
  moreover have "- (2 ^ 63) \<le> uint x" by (rule order_trans [of _ 0]) simp_all
  ultimately show ?thesis unfolding sint_uint by (intro signed_take_bit_int_eq_self) simp_all
qed

lemma ram_write_copies:
  assumes "vfs_disk_path path = None" "ram_files v path = Some old" "unat off + unat n \<le> 4096"
  shows "vfs_write_copies hw path off n v"
proof -
  have "off \<le> 4096" "n \<le> 4096 - off" using assms(3) by (simp_all add: word_le_nat_alt unat_sub)
  then show ?thesis
    using assms(1,2) by (auto simp: vfs_write_copies_def ram_files_def not_less split: option.splits if_splits)
qed

text \<open>A descriptor of task \<open>i\<close>: open in slot \<open>n\<close> on \<open>path\<close> at offset \<open>off\<close>.\<close>

definition opened :: "as_env \<Rightarrow> nat \<Rightarrow> nat \<Rightarrow> u64 \<Rightarrow> u64 \<Rightarrow> nat \<Rightarrow> cstring \<Rightarrow> u64 \<Rightarrow> 'd system \<Rightarrow> bool" where
  "opened env i slot root fd n path off s \<longleftrightarrow>
     el0_caller env i slot root (sy_kernel s) \<and> fd_slot fd s = Some (i, n) \<and> length (task_files i s) = TASK_MAX_FILES \<and>
     tf_used (task_files i s ! n) \<and> cstr (tf_path (task_files i s ! n)) = path \<and> tf_offset (task_files i s ! n) = off"

lemma opened_slot: "opened env i slot root fd n path off s \<Longrightarrow> n < 4" "opened env i slot root fd n path off s \<Longrightarrow> 3 \<le> fd"
  by (auto simp: opened_def fd_slot_def word_less_nat_alt word_le_nat_alt unat_sub split: option.splits if_splits)

lemma opened_same:
  "opened env i slot root fd n path off (s\<lparr>sy_vfs := v\<rparr>) = opened env i slot root fd n path off s"
  "opened env i slot root fd n path off (upd_stats g s) = opened env i slot root fd n path off s"
  by (simp_all add: opened_def)

lemma opened_move:
  assumes "opened env i slot root fd n path off s" "\<And>f. tf_used (g f) = tf_used f" "\<And>f. tf_path (g f) = tf_path f"
    "\<And>f. tf_offset f = off \<Longrightarrow> tf_offset (g f) = off'"
  shows "opened env i slot root fd n path off' (upd_file i n g s)" "writable (upd_file i n g s) = writable s"
proof -
  have c: "el0_caller env i slot root (sy_kernel s)" "i < length (tasks (sy_kernel s))"
    using assms(1) by (simp_all add: opened_def el0_caller_def in_task_def)
  show "opened env i slot root fd n path off' (upd_file i n g s)"
    using assms opened_slot(1) [OF assms(1)] caller_upd_file [OF c(1)] by (simp add: opened_def task_files_upd [OF c(2)])
  show "writable (upd_file i n g s) = writable s" by (rule writable_upd_file [OF c(1)])
qed

lemma opened_pages:
  assumes "opened env i slot root fd n path off s" "pages_changed slot (sy_kernel s) k"
  shows "opened env i slot root fd n path off (s\<lparr>sy_kernel := k\<rparr>)"
proof -
  have "task_files i (s\<lparr>sy_kernel := k\<rparr>) = task_files i s" "fd_slot fd (s\<lparr>sy_kernel := k\<rparr>) = fd_slot fd s"
    using assms(2) by (auto simp: task_files_def fd_slot_def scheduler_current_task_mutable_def pages_changed_def)
  then show ?thesis using assms(1) pages_changed_caller [OF assms(2)] by (simp add: opened_def)
qed

lemma write_opened:
  assumes o: "opened (memory_env env) i slot root fd n path off s" and inv: "vfs_inv (sy_vfs s)"
    and ram: "vfs_disk_path path = None" "ram_files (sy_vfs s) path = Some old"
    and len: "0 < unat len" "unat len \<le> 128" "unat off \<le> length old" "unat off + unat len \<le> 4096"
    and src: "readable s a len" "load_bytes (memory_env env) (sy_kernel s) a (unat len) = Some bs" "length bs = unat len"
  obtains s1 where "syscall_write env fd a len s = Some (uint len, s1)" "opened (memory_env env) i slot root fd n path (off + len) s1"
    "writable s1 = writable s" "vfs_inv (sy_vfs s1)" "fst (vfs_read (se_disk env) path off len (sy_vfs s1)) = Some bs"
    "ram_files (sy_vfs s1) = (ram_files (sy_vfs s))(path \<mapsto> take (unat off) old @ bs @ drop (unat off + unat len) old)"
proof -
  obtain r v1 where w: "vfs_write (se_disk env) path off bs len (sy_vfs s) = (r, v1)" by fastforce
  note v1 = ram_write_read [OF inv ram src(3) len(3,4) w]
  have pos: "0 < uint len" using len(1) by (metis of_nat_0_less_iff uint_nat)
  have ok: "\<not> 128 < len" "len \<noteq> 0" "fd \<noteq> 1" "fd \<noteq> 2"
    using len opened_slot(2) [OF o] by (auto simp: word_less_nat_alt word_le_nat_alt)
  define g where "g = (\<lambda>t :: syscall_stats. t\<lparr>st_file_write_bytes := st_file_write_bytes t + len\<rparr>)"
  let ?s = "upd_stats g (upd_file i n (\<lambda>f. f\<lparr>tf_offset := tf_offset f + len\<rparr>) (s\<lparr>sy_vfs := v1\<rparr>))"
  have "syscall_write env fd a len s = Some (uint len, ?s)"
    using ok src o w v1 pos ram_write_copies [OF ram len(4), of "se_disk env"]
    by (simp add: syscall_write_def write_file_def Let_def g_def c_ulong_def opened_def)
  moreover have "opened (memory_env env) i slot root fd n path off (s\<lparr>sy_vfs := v1\<rparr>)" using o by (simp add: opened_same)
  note opened_move [OF this, of "\<lambda>f. f\<lparr>tf_offset := tf_offset f + len\<rparr>" "off + len"]
  ultimately show thesis using that [of ?s] v1 by (simp add: opened_same)
qed

lemma ram_file_fits:
  assumes "vfs_inv v" "ram_files v path = Some c"
  shows "length c \<le> 4096"
proof -
  obtain j where j: "vfs_find path v = Some j" "c = take (unat (rn_size (nodes v ! j))) (rn_data (nodes v ! j))"
    using assms(2) by (auto simp: ram_files_def split: option.splits if_splits)
  then show ?thesis using vfs_found_ok(1) [OF assms(1) j(1)] by (auto simp: node_ok_def)
qed

lemma seek_opened:
  assumes o: "opened (memory_env env) i slot root fd n path off s" and inv: "vfs_inv (sy_vfs s)"
    and ram: "vfs_disk_path path = None" "ram_files (sy_vfs s) path = Some c" "unat off' \<le> length c"
  obtains s' where "syscall_seek env fd off' s = (uint off', s')" "opened (memory_env env) i slot root fd n path off' s'"
    "writable s' = writable s" "sy_vfs s' = sy_vfs s"
proof -
  obtain data where d: "vfs_file_data (se_disk env) path (sy_vfs s) = (Some (data, of_nat (length c)), sy_vfs s)"
    using ram_file_data(1) [OF inv ram(1,2)] by blast
  have fits: "length c \<le> 4096" by (rule ram_file_fits [OF inv ram(2)])
  then have "unat (of_nat (length c) :: u64) = length c" by (simp add: unat_of_nat take_bit_nat_eq_self)
  then have within: "\<not> off' > of_nat (length c)" using ram(3) by (simp only: word_less_nat_alt not_less)
  have "sint off' = uint off'" using ram(3) fits by (intro sint_small) simp
  let ?s = "upd_file i n (\<lambda>f. f\<lparr>tf_offset := off'\<rparr>) (s\<lparr>sy_vfs := sy_vfs s\<rparr>)"
  have "syscall_seek env fd off' s = (uint off', ?s)"
    using o d within \<open>sint off' = uint off'\<close> by (simp add: syscall_seek_def opened_def)
  moreover have "opened (memory_env env) i slot root fd n path off (s\<lparr>sy_vfs := sy_vfs s\<rparr>)" using o by simp
  note opened_move [OF this, of "\<lambda>f. f\<lparr>tf_offset := off'\<rparr>" off']
  ultimately show thesis using that [of ?s] by simp
qed

lemma read_opened:
  assumes o: "opened (memory_env env) i slot root fd n path off s" and l: "linked (memory_env env) root"
    and rd: "vfs_read (se_disk env) path off len (sy_vfs s) = (Some bs, v)" "bs \<noteq> []"
    and len: "0 < unat len" "unat len \<le> 128" and dst: "writable s b len" "mapped_data b (length bs)"
  obtains s' where "syscall_read env fd b len s = Some (int (length bs), s')"
    "opened (memory_env env) i slot root fd n path (off + of_nat (length bs)) s'" "sy_vfs s' = v"
    "load_bytes (memory_env env) (sy_kernel s') b (length bs) = Some bs"
proof -
  have ok: "\<not> 128 < len" "len \<noteq> 0" using len by (auto simp: word_less_nat_alt)
  have "length bs < 2 ^ 64" using vfs_read_length [OF rd(1)] len by simp
  then obtain k where k: "store_bytes (memory_env env) b bs (sy_kernel s) = Some k" "pages_changed slot (sy_kernel s) k"
      "load_bytes (memory_env env) k b (length bs) = Some bs"
    using store_bytes_mapped [OF _ l dst(2), of i slot "sy_kernel s"] o unfolding opened_def by blast
  define g where "g = (\<lambda>f :: task_file. f\<lparr>tf_offset := tf_offset f + of_nat (length bs)\<rparr>)"
  let ?s = "upd_file i n g (s\<lparr>sy_vfs := v, sy_kernel := k\<rparr>)"
  have r: "syscall_read env fd b len s = Some (int (length bs), ?s)"
    using o ok dst(1) rd k(1) by (simp add: syscall_read_def put_user_def Let_def opened_def g_def)
  have p: "opened (memory_env env) i slot root fd n path off (s\<lparr>sy_vfs := v, sy_kernel := k\<rparr>)"
    using opened_pages [of _ i slot root fd n path off "s\<lparr>sy_vfs := v\<rparr>" k] o k(2) by (simp add: opened_same)
  show thesis
  proof (rule that [OF r])
    show "opened (memory_env env) i slot root fd n path (off + of_nat (length bs)) ?s"
      by (rule opened_move(1) [OF p]) (simp_all add: g_def)
    show "load_bytes (memory_env env) (sy_kernel ?s) b (length bs) = Some bs"
      using load_bytes_cong [of "sy_kernel ?s" k] k(3) by (simp add: upd_file_kernel)
  qed simp
qed

text \<open>
  C15: bytes written through a descriptor read back. For a descriptor of the caller on a file of the RAM
  file system and a write of up to 128 bytes within the file's limits, the write returns the number of
  bytes, seeking back to the old offset succeeds, and reading there returns the bytes of the source
  buffer into the destination buffer; the file holds exactly the new bytes at that place, no other
  file changes, and the offset ends behind them.
\<close>

theorem syscall_write_read_back:
  assumes o: "opened (memory_env env) i slot root fd n path off s" and l: "linked (memory_env env) root"
    and inv: "vfs_inv (sy_vfs s)" and ram: "vfs_disk_path path = None" "ram_files (sy_vfs s) path = Some old"
    and len: "0 < unat len" "unat len \<le> 128" "unat off \<le> length old" "unat off + unat len \<le> 4096"
    and src: "readable s a len" "load_bytes (memory_env env) (sy_kernel s) a (unat len) = Some bs" "length bs = unat len"
    and dst: "writable s b len" "mapped_data b (unat len)"
  shows "\<exists>s1 s2 s3. syscall_write env fd a len s = Some (uint len, s1) \<and> syscall_seek env fd off s1 = (uint off, s2) \<and>
    syscall_read env fd b len s2 = Some (uint len, s3) \<and>
    load_bytes (memory_env env) (sy_kernel s3) b (unat len) = Some bs \<and>
    ram_files (sy_vfs s3) = (ram_files (sy_vfs s))(path \<mapsto> take (unat off) old @ bs @ drop (unat off + unat len) old) \<and>
    opened (memory_env env) i slot root fd n path (off + len) s3"
proof -
  obtain s1 where s1: "syscall_write env fd a len s = Some (uint len, s1)" "opened (memory_env env) i slot root fd n path (off + len) s1"
    "writable s1 = writable s" "vfs_inv (sy_vfs s1)" "fst (vfs_read (se_disk env) path off len (sy_vfs s1)) = Some bs"
    "ram_files (sy_vfs s1) = (ram_files (sy_vfs s))(path \<mapsto> take (unat off) old @ bs @ drop (unat off + unat len) old)"
    by (rule write_opened [OF o inv ram len src])
  let ?new = "take (unat off) old @ bs @ drop (unat off + unat len) old"
  have new: "ram_files (sy_vfs s1) path = Some ?new" "unat off \<le> length ?new" using s1(6) len(3) by simp_all
  obtain s2 where s2: "syscall_seek env fd off s1 = (uint off, s2)" "opened (memory_env env) i slot root fd n path off s2"
    "writable s2 = writable s1" "sy_vfs s2 = sy_vfs s1"
    by (rule seek_opened [OF s1(2,4) ram(1) new])
  have "vfs_read (se_disk env) path off len (sy_vfs s2) = (Some bs, sy_vfs s1)"
    using s1(5) s2(4) ram_file_data(2) [OF s1(4) ram(1) new(1)] by (simp add: prod_eq_iff)
  moreover have "bs \<noteq> []" "mapped_data b (length bs)" "writable s2 b len" using len(1) src(3) dst s1(3) s2(3) by auto
  ultimately obtain s3 where "syscall_read env fd b len s2 = Some (int (length bs), s3)"
    "opened (memory_env env) i slot root fd n path (off + of_nat (length bs)) s3" "sy_vfs s3 = sy_vfs s1"
    "load_bytes (memory_env env) (sy_kernel s3) b (length bs) = Some bs"
    using read_opened [OF s2(2) l _ _ len(1,2)] by metis
  then show ?thesis using s1(1,6) s2(1) src(3) by auto
qed

section \<open>Waiting\<close>

lemma load_bytes_view:
  assumes "el0_caller env i slot root k" "linked env root" "mapped va n"
    and "slot_view slot (user_tables_of k') = slot_view slot (user_tables_of k)" "mmu k' = mmu k"
  shows "load_bytes env k' va n = load_bytes env k va n"
proof -
  have b: "load_byte env k' x = load_byte env k x" if "user_page_index x = Some r" for x r
  proof -
    have c: "slot < 4 \<and> ttbr0_el1 (mmu k) = l1_addr env slot \<and> slot_mapped env slot root (user_tables_of k)"
      using assms(1) by (simp add: el0_caller_def)
    then have c': "slot < 4 \<and> ttbr0_el1 (mmu k') = l1_addr env slot \<and> slot_mapped env slot root (user_tables_of k')"
      using assms(5) slot_view_mapped [OF assms(4)] by simp
    have "ut_pages (user_tables_of k') ! (3 * slot + r) = ut_pages (user_tables_of k) ! (3 * slot + r)"
      using assms(4) user_page_address(2) [OF that] by (auto simp: slot_view_def)
    then show ?thesis
      using user_byte_slot [OF c assms(2) user_page_address(1) [OF that]] user_byte_slot [OF c' assms(2) user_page_address(1) [OF that]] that
      by (simp add: load_byte_def)
  qed
  show ?thesis using assms(3)
  proof (induction n arbitrary: va)
    case (Suc n)
    then show ?case using b [of va] by (auto simp: mapped_Suc)
  qed simp
qed

text \<open>A child of the current task that has ended, with its space in another slot than the caller's.\<close>

definition ended_child :: "nat \<Rightarrow> nat \<Rightarrow> nat \<Rightarrow> kernel \<Rightarrow> bool" where
  "ended_child i slot p k \<longleftrightarrow>
     0 < p \<and> p < task_count k \<and> p < length (tasks k) \<and> p \<noteq> i \<and> t_parent_pid (tasks k ! p) = int i \<and> t_state (tasks k ! p) = TASK_ZOMBIE \<and>
     tm_space (t_memory (tasks k ! p)) = OwnSpace \<and> as_kind (t_user_address_space (tasks k ! p)) = ADDRESS_SPACE_USER \<and>
     as_user_table_slot (t_user_address_space (tasks k ! p)) \<noteq> slot"

lemma wait_ended:
  assumes "ended_child i slot p k" "current_task k = i"
  shows "scheduler_wait_task_status (int p) k =
    (1, Some \<lparr>ws_pid = of_nat p, ws_exit_code = us_last_exit_code (t_user_status (tasks k ! p)),
       ws_succeeded = (if us_program_succeeded (t_user_status (tasks k ! p)) then 1 else 0)\<rparr>,
     scheduler_trim_unused_tail (scheduler_clear_task_slot p k))"
  using assms by (simp add: ended_child_def scheduler_wait_task_status_def valid_pid_def task_space_def)

lemma clear_child:
  assumes "ended_child i slot p k" "current_task k = i"
  defines "k' \<equiv> scheduler_trim_unused_tail (scheduler_clear_task_slot p k)"
  shows "t_state (tasks k' ! p) = TASK_UNUSED" "slot_view slot (user_tables_of k') = slot_view slot (user_tables_of k)"
    "mmu k' = mmu k" "fst (scheduler_wait_task_status (int p) k') = -1"
proof -
  have p: "p < length (tasks k)" "0 < p" "p \<noteq> i" using assms(1) by (simp_all add: ended_child_def)
  have l: "length (tasks (destroy_task_space p k)) = length (tasks k)" "current_task (destroy_task_space p k) = current_task k"
    by (simp_all add: destroy_task_space_def set_task_space_def upd_task_fields Let_def split: option.split prod.split space_ref.split)
  have t: "t_state (tasks k' ! p) = TASK_UNUSED \<and> t_parent_pid (tasks k' ! p) = -1 \<and> tm_space (t_memory (tasks k' ! p)) = NoSpace \<and>
      current_task k' = i"
    using p l assms(2)
    by (simp add: k'_def scheduler_trim_unused_tail_def scheduler_clear_task_slot_def upd_task_fields scheduler_clear_files_def scheduler_clear_memory_def)
  then show "t_state (tasks k' ! p) = TASK_UNUSED" by blast
  show "fst (scheduler_wait_task_status (int p) k') = -1"
    using t p by (simp add: scheduler_wait_task_status_def task_space_def)
  have d: "slot_view slot (snd (address_space_destroy_user (t_user_address_space (tasks k ! p)) (user_tables_of k))) =
      slot_view slot (user_tables_of k)"
    by (rule destroy_user_other) (use assms(1) in \<open>simp add: ended_child_def\<close>)
  show "slot_view slot (user_tables_of k') = slot_view slot (user_tables_of k)" "mmu k' = mmu k"
    using assms(1) d
    by (auto simp: k'_def ended_child_def scheduler_trim_unused_tail_def scheduler_clear_task_slot_def destroy_task_space_def
        task_space_def set_task_space_def upd_task_fields Let_def split: prod.split)
qed

text \<open>The states in which the loop of wait looks for the child: after each of its yields.\<close>

fun after_yields :: "('d system \<Rightarrow> 'd system) \<Rightarrow> nat \<Rightarrow> 'd system \<Rightarrow> 'd system option" where
  "after_yields resume 0 s = Some s"
| "after_yields resume (Suc n) s = do { s \<leftarrow> syscall_scheduler_yield resume s; after_yields resume n s }"

lemma wait_zero: "fst (scheduler_wait_task_status pid k) = 0 \<Longrightarrow> scheduler_wait_task_status pid k = (0, None, k)"
  by (auto simp: scheduler_wait_task_status_def Let_def split: if_splits option.splits)

lemma wait_loop_rounds:
  assumes "after_yields resume n s = Some t" "\<And>m u. m < n \<Longrightarrow> after_yields resume m s = Some u \<Longrightarrow>
      fst (scheduler_wait_task_status (c_int pid) (sy_kernel u)) = 0"
  shows "wait_loop (wait_round env resume pid a 0) s = wait_loop (wait_round env resume pid a 0) t"
  using assms
proof (induction n arbitrary: s)
  case (Suc n)
  obtain s1 where s1: "syscall_scheduler_yield resume s = Some s1" "after_yields resume n s1 = Some t"
    using Suc.prems(1) by (auto split: Option.bind_splits)
  have "scheduler_wait_task_status (c_int pid) (sy_kernel s) = (0, None, sy_kernel s)"
    using wait_zero Suc.prems(2) [of 0 s] by simp
  then have r: "wait_round env resume pid a 0 s = Some (True, 0, s1)" using s1(1) by (simp add: wait_round_def with_kernel_def)
  have "wait_loop (wait_round env resume pid a 0) s = wait_loop (wait_round env resume pid a 0) s1"
    by (subst wait_loop.simps) (simp add: r)
  moreover have "fst (scheduler_wait_task_status (c_int pid) (sy_kernel u)) = 0" if "m < n" "after_yields resume m s1 = Some u" for m u
    using Suc.prems(2) [of "Suc m" u] that s1(1) by simp
  ultimately show ?case using Suc.IH [OF s1(2)] by simp
qed simp

text \<open>
  C16: wait returns once the child has ended. If task \<open>i\<close> waits for its child \<open>p\<close>, the child is still
  running at every turn the caller gets before the nth and has ended by then, the call returns 1 after
  exactly those turns: the caller's buffer holds the child's pid, exit code and success flag, the
  child's slot is free, and the child cannot be collected a second time.
\<close>

theorem syscall_wait_collects:
  assumes "writable s a 24" "after_yields resume n s = Some t" "c_int pid = int p"
    and running: "\<And>m u. m < n \<Longrightarrow> after_yields resume m s = Some u \<Longrightarrow>
      fst (scheduler_wait_task_status (int p) (sy_kernel u)) = 0"
    and c: "el0_caller (memory_env env) i slot root (sy_kernel t)" "linked (memory_env env) root" "mapped_data a 24"
    and child: "ended_child i slot p (sy_kernel t)"
  shows "\<exists>s'. syscall_wait env resume pid a 0 s = Some (1, s') \<and>
    load_bytes (memory_env env) (sy_kernel s') a 24 =
      Some (words_bytes [of_nat p, us_last_exit_code (t_user_status (tasks (sy_kernel t) ! p)),
        if us_program_succeeded (t_user_status (tasks (sy_kernel t) ! p)) then 1 else 0]) \<and>
    t_state (tasks (sy_kernel s') ! p) = TASK_UNUSED \<and> fst (scheduler_wait_task_status (int p) (sy_kernel s')) = -1"
proof -
  let ?w = "\<lparr>ws_pid = of_nat p, ws_exit_code = us_last_exit_code (t_user_status (tasks (sy_kernel t) ! p)),
       ws_succeeded = (if us_program_succeeded (t_user_status (tasks (sy_kernel t) ! p)) then 1 else 0)\<rparr>"
  let ?bs = "wait_status_bytes ?w"
  have bs: "length ?bs = 24" by (simp add: wait_status_bytes_def)
  have cur: "current_task (sy_kernel t) = i" using c(1) by (simp add: el0_caller_def in_task_def)
  obtain k where k: "store_bytes (memory_env env) a ?bs (sy_kernel t) = Some k" "pages_changed slot (sy_kernel t) k"
      "load_bytes (memory_env env) k a 24 = Some ?bs"
    using store_bytes_mapped [OF c(1,2), of a ?bs] c(3) bs by auto
  have kt: "tasks k = tasks (sy_kernel t)" "current_task k = i" "task_count k = task_count (sy_kernel t)"
    using k(2) cur by (auto simp: pages_changed_def)
  then have child': "ended_child i slot p k" using child by (simp add: ended_child_def)
  define k' where "k' = scheduler_trim_unused_tail (scheduler_clear_task_slot p k)"
  note cl = clear_child [OF child' kt(2), folded k'_def]
  have round: "wait_round env resume pid a 0 t = Some (False, 1, with_kernel k' (with_kernel k t))"
    using wait_ended [OF child cur] wait_ended [OF child' kt(2)] k(1) assms(3)
    by (simp add: wait_round_def put_user_def k'_def with_kernel_def)
  have "wait_loop (wait_round env resume pid a 0) s = wait_loop (wait_round env resume pid a 0) t"
    by (rule wait_loop_rounds [OF assms(2)]) (use running assms(3) in simp)
  also have "\<dots> = Some (1, with_kernel k' (with_kernel k t))" by (subst wait_loop.simps) (simp add: round)
  finally have "syscall_wait env resume pid a 0 s = Some (1, with_kernel k' (with_kernel k t))"
    using assms(1) by (simp add: syscall_wait_def)
  moreover have "load_bytes (memory_env env) k' a 24 = load_bytes (memory_env env) k a 24"
    by (rule load_bytes_view [OF pages_changed_caller [OF k(2) c(1)] c(2) mapped_data_mapped [OF c(3)] cl(2,3)])
  ultimately show ?thesis using k(3) cl(1,4) by (auto simp: wait_status_bytes_def)
qed

section \<open>Accounting\<close>

definition counts :: "'d system \<Rightarrow> u64 \<times> u64 \<times> u64" where
  "counts s = (st_total (sy_stats s), st_handled (sy_stats s), st_rejected (sy_stats s))"

definition keeps_counts :: "('d system \<Rightarrow> (int \<times> 'd system) option) \<Rightarrow> bool" where
  "keeps_counts f \<longleftrightarrow> (\<forall>s r s'. f s = Some (r, s') \<longrightarrow> counts s' = counts s)"

lemma counts_same [simp]:
  "counts (s\<lparr>sy_kernel := k\<rparr>) = counts s" "counts (s\<lparr>sy_vfs := v\<rparr>) = counts s" "counts (with_kernel k s) = counts s"
  "counts (upd_file i n f s) = counts s" "counts (s\<lparr>sy_console := b\<rparr>) = counts s" "counts (s\<lparr>sy_random := x\<rparr>) = counts s"
  "counts (upd_stats (\<lambda>t. t\<lparr>st_faults := st_faults t + 1\<rparr>) s) = counts s"
  "counts (upd_stats (\<lambda>t. t\<lparr>st_write_bytes := st_write_bytes t + q\<rparr>) s) = counts s"
  "counts (upd_stats (\<lambda>t. t\<lparr>st_file_write_bytes := st_file_write_bytes t + m\<rparr>) s) = counts s"
  "counts (upd_stats (\<lambda>t. t\<lparr>st_last_monotonic_ms := m\<rparr>) s) = counts s" "counts (upd_stats (\<lambda>t. t\<lparr>st_last_random := m\<rparr>) s) = counts s"
  by (simp_all add: counts_def with_kernel_def upd_file_def upd_stats_def)

lemma steps_counts [dest]:
  "count_fault s = Some (r, s') \<Longrightarrow> counts s' = counts s" "vfs_result x s = Some (r, s') \<Longrightarrow> counts s' = counts s"
  "put_user env a bs s = Some s' \<Longrightarrow> counts s' = counts s"
  by (auto simp: count_fault_def vfs_result_def put_user_def split: prod.splits)

lemma keeps_countsI: "(\<And>s r s'. f s = Some (r, s') \<Longrightarrow> counts s' = counts s) \<Longrightarrow> keeps_counts f"
  by (simp add: keeps_counts_def)

lemma calls_keep_counts:
  "keeps_counts (syscall_open env a n create)" "keeps_counts (syscall_read env fd a n)" "keeps_counts (\<lambda>s. Some (syscall_close fd s))"
  "keeps_counts (\<lambda>s. Some (syscall_seek env fd off s))" "keeps_counts (\<lambda>s. Some (syscall_dup fd s))"
  "keeps_counts (syscall_system_info env a)" "keeps_counts (syscall_process_status env pid a)" "keeps_counts (syscall_directory_list env n a)"
  by (rule keeps_countsI; auto simp: syscall_open_def syscall_read_def syscall_close_def syscall_seek_def syscall_dup_def
      syscall_system_info_def syscall_process_status_def syscall_directory_list_def Let_def
      split: option.splits if_splits prod.splits Option.bind_splits)+

lemma path_calls_keep_counts:
  "keeps_counts (syscall_mkdir env a n)" "keeps_counts (syscall_remove env a n)" "keeps_counts (syscall_rename env a n b m)"
  "keeps_counts (syscall_truncate env a n sz)" "keeps_counts (syscall_path_stat env a n b)"
  by (rule keeps_countsI; auto simp: syscall_mkdir_def syscall_remove_def syscall_rename_def syscall_truncate_def syscall_path_stat_def
      split: option.splits if_splits prod.splits Option.bind_splits dest!: with_path_Some steps_counts(3))+

lemma spawn_keeps_counts: "keeps_counts (syscall_spawn env a n b m)"
proof -
  have sp: "counts s' = counts s" if "spawn_child env path argument s = (r, s')" for path argument r and s s' :: "'a system"
    using that by (auto simp: spawn_child_def Let_def split: prod.splits option.splits bool.splits)
  show ?thesis
    by (rule keeps_countsI) (auto simp: syscall_spawn_def split: if_splits Option.bind_splits dest!: with_path_Some intro: sp)
qed

lemma write_keeps_counts: "keeps_counts (syscall_write env fd a n)"
  by (rule keeps_countsI)
    (auto simp: syscall_write_def write_file_def Let_def split: option.splits if_splits prod.splits Option.bind_splits)

lemma queries_keep_counts:
  "keeps_counts (\<lambda>s. case scheduler_terminate_child pid code (sy_kernel s) of (ok, k) \<Rightarrow> Some (if ok then 0 else SYSCALL_ERR_INVAL, with_kernel k s))"
  "keeps_counts (\<lambda>s. Some (t_pid (scheduler_current_task (sy_kernel s)), s))"
  "keeps_counts (\<lambda>s. let parent = t_parent_pid (scheduler_current_task (sy_kernel s)) in Some (if parent > 0 then parent else 0, s))"
  "keeps_counts (\<lambda>s. let ms = scheduler_get_ticks (sy_kernel s) * sy_interval s
     in Some (sint ms, upd_stats (\<lambda>t. t\<lparr>st_last_monotonic_ms := ms\<rparr>) s))"
  "keeps_counts (\<lambda>s. case syscall_random s of (result, s) \<Rightarrow> Some (result, upd_stats (\<lambda>t. t\<lparr>st_last_random := c_ulong result\<rparr>) s))"
  by (rule keeps_countsI; auto simp: Let_def syscall_random_def split: prod.splits)+

text \<open>Counting one call by the sign of its result.\<close>

definition settle :: "int \<Rightarrow> u64 \<times> u64 \<times> u64 \<Rightarrow> u64 \<times> u64 \<times> u64" where
  "settle r = (\<lambda>(total, handled, rejected). if r < 0 then (total, handled, rejected + 1) else (total, handled + 1, rejected))"

definition settles :: "('d system \<Rightarrow> (int \<times> 'd system) option) \<Rightarrow> bool" where
  "settles f \<longleftrightarrow> (\<forall>s r s'. f s = Some (r, s') \<longrightarrow> counts s' = settle r (counts s))"

lemma count_result_settles: "counts (count_result r s) = settle r (counts s)"
  by (simp add: counts_def count_result_def upd_stats_def settle_def)

lemma counted_keeps:
  assumes "keeps_counts f" "\<And>t. st_total (g t) = st_total t" "\<And>t. st_handled (g t) = st_handled t" "\<And>t. st_rejected (g t) = st_rejected t"
  shows "keeps_counts (counted g f)"
proof -
  have "counts (upd_stats g s) = counts s" for s :: "'a system" using assms by (simp add: counts_def upd_stats_def)
  then show ?thesis using assms(1) by (simp add: keeps_counts_def counted_def)
qed

lemma keeps_if:
  "(c \<Longrightarrow> keeps_counts f) \<Longrightarrow> (\<not> c \<Longrightarrow> keeps_counts g) \<Longrightarrow> keeps_counts (if c then f else g)"
  by simp

abbreviation syscall_numbers :: "u64 set" where
  "syscall_numbers \<equiv> {1, 2, 3, 4, 5, 6, 7, 8, 9, 10, 11, 12, 13, 14, 15, 16, 17, 18, 19, 20, 21, 22, 23, 24, 25}"

lemma syscall_numbers_iff: "n \<in> syscall_numbers \<longleftrightarrow> 1 \<le> n \<and> n \<le> 25"
proof
  assume "1 \<le> n \<and> n \<le> 25"
  then have "unat n \<in> {1..25}" by (simp add: word_le_nat_alt)
  moreover have "{1..25} = {1, 2, 3, 4, 5, 6, 7, 8, 9, 10, 11, 12, 13, 14, 15, 16, 17, 18, 19, 20, 21, 22, 23, 24, 25 :: nat}" by code_simp
  ultimately have "unat n \<in> {1, 2, 3, 4, 5, 6, 7, 8, 9, 10, 11, 12, 13, 14, 15, 16, 17, 18, 19, 20, 21, 22, 23, 24, 25}" by (simp only:)
  then have "of_nat (unat n) \<in> syscall_numbers" by (elim insertE) simp_all
  then show "n \<in> syscall_numbers" by simp
qed auto

lemmas keeping_calls = calls_keep_counts path_calls_keep_counts spawn_keeps_counts queries_keep_counts

lemma case_keeps:
  assumes "4 \<le> number" "number \<le> 25" "number \<notin> {SYSCALL_WAIT, SYSCALL_SLEEP}"
  shows "keeps_counts (syscall_case env resume number a0 a1 a2 a3)"
proof -
  have "number \<in> syscall_numbers" "number \<noteq> 1" "number \<noteq> 2" "number \<noteq> 3"
    using assms(1,2) unfolding syscall_numbers_iff by (auto simp: word_le_nat_alt)
  then show ?thesis
    unfolding syscall_case_def
    by (intro keeps_if counted_keeps keeping_calls) (use assms(3) in simp_all)
qed

lemma case_settles:
  assumes "\<not> (4 \<le> number \<and> number \<le> 25)" "number \<noteq> SYSCALL_YIELD"
  shows "settles (syscall_case env resume number a0 a1 a2 a3)"
proof -
  have w: "counts s' = settle r (counts s)"
    if "do { (r, s) \<leftarrow> syscall_write env a0 a1 a2 (upd_stats (\<lambda>t. t\<lparr>st_write_calls := st_write_calls t + 1\<rparr>) s); Some (r, count_result r s) } =
      Some (r, s')" for s s' :: "'a system" and r
  proof -
    obtain s1 where "syscall_write env a0 a1 a2 (upd_stats (\<lambda>t. t\<lparr>st_write_calls := st_write_calls t + 1\<rparr>) s) = Some (r, s1)"
      "s' = count_result r s1" using \<open>_ = Some (r, s')\<close> by (auto split: Option.bind_splits)
    then have "counts s1 = counts (upd_stats (\<lambda>t. t\<lparr>st_write_calls := st_write_calls t + 1\<rparr>) s)" "s' = count_result r s1"
      using write_keeps_counts [of env a0 a1 a2] unfolding keeps_counts_def by blast+
    then have "counts s' = settle r (counts (upd_stats (\<lambda>t. t\<lparr>st_write_calls := st_write_calls t + 1\<rparr>) s))"
      by (simp only: count_result_settles)
    then show ?thesis by (simp add: counts_def upd_stats_def)
  qed
  have n: "number = SYSCALL_WRITE \<or> number = SYSCALL_EXIT \<or> number \<notin> syscall_numbers" using assms by auto
  then show ?thesis
  proof (elim disjE)
    assume "number = SYSCALL_WRITE"
    then show ?thesis using w by (simp add: settles_def syscall_case_def counted_def)
  next
    assume "number = SYSCALL_EXIT"
    then show ?thesis by (simp add: settles_def syscall_case_def counted_def counts_def upd_stats_def settle_def with_kernel_def)
  next
    assume "number \<notin> syscall_numbers"
    then show ?thesis by (simp add: settles_def syscall_case_def counts_def upd_stats_def settle_def)
  qed
qed

text \<open>
  Every call is counted exactly once. A call that does not give up the processor adds one to the
  total and one to either the handled or the rejected calls: to the rejected exactly when its result
  is negative. An unknown number returns -1.
\<close>

theorem syscall_counted_once:
  assumes "number \<notin> {SYSCALL_YIELD, SYSCALL_WAIT, SYSCALL_SLEEP}"
    and "syscall_dispatch env resume number a0 a1 a2 a3 s = Some (r, s')"
  shows "st_total (sy_stats s') = st_total (sy_stats s) + 1 \<and>
    st_handled (sy_stats s') = st_handled (sy_stats s) + (if r < 0 then 0 else 1) \<and>
    st_rejected (sy_stats s') = st_rejected (sy_stats s) + (if r < 0 then 1 else 0) \<and>
    st_last_result (sy_stats s') = r \<and> (\<not> (1 \<le> number \<and> number \<le> 25) \<longrightarrow> r = -1)"
proof -
  let ?s = "upd_stats (\<lambda>t. t\<lparr>st_total := st_total t + 1, st_last_number := number, st_last_arg0 := a0, st_last_arg1 := a1,
                             st_last_arg2 := a2\<rparr>) s"
  obtain s1 where s1: "syscall_case env resume number a0 a1 a2 a3 ?s = Some (r, s1)"
    "s' = upd_stats (\<lambda>t. t\<lparr>st_last_result := r\<rparr>) (if number \<ge> SYSCALL_OPEN \<and> number \<le> SYSCALL_DUP then count_result r s1 else s1)"
    using assms(2) by (auto simp: syscall_dispatch_def split: Option.bind_splits)
  have "counts s' = settle r (counts ?s)"
  proof (cases "4 \<le> number \<and> number \<le> 25")
    case True
    then have "counts s1 = counts ?s" using case_keeps [of number env resume a0 a1 a2 a3] s1(1) assms(1) by (auto simp: keeps_counts_def)
    then have "counts (count_result r s1) = settle r (counts ?s)" by (simp only: count_result_settles)
    then show ?thesis using True s1(2) by (simp add: counts_def upd_stats_def)
  next
    case False
    then have "counts s1 = settle r (counts ?s)" using case_settles [OF False, of env resume a0 a1 a2 a3] s1(1) assms(1) by (auto simp: settles_def)
    then show ?thesis using False s1(2) by (auto simp: counts_def upd_stats_def)
  qed
  moreover have "r = -1" if "\<not> (1 \<le> number \<and> number \<le> 25)"
  proof -
    have "number \<notin> syscall_numbers" using that syscall_numbers_iff by blast
    then show ?thesis using s1(1) by (simp add: syscall_case_def)
  qed
  ultimately show ?thesis using s1(2) by (auto simp: counts_def upd_stats_def settle_def)
qed

section \<open>A running program\<close>

text \<open>Task 1 at EL0 in slot 0, with /a open at offset 1; task 2 is an ended child in slot 1.\<close>

definition sample_caller :: task where
  "sample_caller = sample_user_task\<lparr>t_user_address_space := sample_space,
     t_files := \<lparr>tf_used = True, tf_path = [slash, 0x61] @ replicate 46 0, tf_offset = 1\<rparr> #
       replicate 3 \<lparr>tf_used = False, tf_path = replicate 48 0, tf_offset = 0\<rparr>\<rparr>"

definition sample_child :: task where
  "sample_child = sample_user_task\<lparr>t_pid := 2, t_parent_pid := 1, t_state := TASK_ZOMBIE,
     t_user_address_space := (t_user_address_space sample_user_task)\<lparr>as_user_table_slot := 1\<rparr>,
     t_user_status := scheduler_clear_user_status\<lparr>us_last_exit_code := 7, us_program_succeeded := True\<rparr>\<rparr>"

definition sample_el0 :: kernel where
  "sample_el0 = sample_runner\<lparr>tasks := (replicate 8 task_bss)[1 := sample_caller, 2 := sample_child], task_count := 3,
     user_sessions := (replicate 8 session_bss)[1 := session_bss\<lparr>ss_active := True, ss_task := Some 1\<rparr>],
     user_tables_of := sample_tables, mmu := sample_mmu\<lparr>ttbr0_el1 := l1_addr sample_env 0\<rparr>\<rparr>"

definition stats_bss :: syscall_stats where
  "stats_bss = \<lparr>st_total = 0, st_handled = 0, st_rejected = 0, st_write_calls = 0, st_exit_calls = 0, st_yield_calls = 0,
     st_open_calls = 0, st_read_calls = 0, st_close_calls = 0, st_create_calls = 0, st_seek_calls = 0, st_wait_calls = 0,
     st_spawn_calls = 0, st_terminate_calls = 0, st_sleep_calls = 0, st_monotonic_calls = 0, st_getpid_calls = 0,
     st_getppid_calls = 0, st_system_info_calls = 0, st_random_calls = 0, st_process_status_calls = 0,
     st_directory_list_calls = 0, st_mkdir_calls = 0, st_remove_calls = 0, st_rename_calls = 0, st_path_stat_calls = 0,
     st_truncate_calls = 0, st_dup_calls = 0, st_last_random = 0, st_last_monotonic_ms = 0, st_faults = 0, st_write_bytes = 0,
     st_file_write_bytes = 0, st_last_exit_code = 0, st_last_number = 0, st_last_arg0 = 0, st_last_arg1 = 0, st_last_arg2 = 0,
     st_last_result = 0\<rparr>"

definition sample_system :: "instant_dev system" where
  "sample_system = \<lparr>sy_kernel = sample_el0, sy_vfs = vfs_demo, sy_pmm = \<lparr>page_bitmap = [], used_pages = 0\<rparr>, sy_stats = stats_bss,
     sy_random = 0x6d2b79f5, sy_console = [], sy_interval = 10\<rparr>"

definition sample_senv :: "instant_dev system_env" where
  "sample_senv = \<lparr>se_kernel = sample_kenv, se_disk = instant_hw\<rparr>"

lemma sample_senv_fields: "memory_env sample_senv = sample_env" "se_disk sample_senv = instant_hw"
  by (simp_all add: sample_senv_def sample_kenv_def)

lemma sample_linked: "linked (memory_env sample_senv) 0x40000000"
  using sample_env_ok by (simp add: linked_def sample_senv_fields)

lemma sample_el0_fields:
  "tasks sample_el0 = (replicate 8 task_bss)[1 := sample_caller, 2 := sample_child]" "current_task sample_el0 = 1"
  "task_count sample_el0 = 3" "user_tables_of sample_el0 = sample_tables" "ttbr0_el1 (mmu sample_el0) = l1_addr sample_env 0"
  "user_sessions sample_el0 = (replicate 8 session_bss)[1 := session_bss\<lparr>ss_active := True, ss_task := Some 1\<rparr>]"
  by (simp_all add: sample_el0_def sample_runner_def)

lemma sample_caller_ok: "el0_caller (memory_env sample_senv) 1 0 0x40000000 sample_el0"
  unfolding el0_caller_def in_task_def sample_senv_fields sample_el0_fields
  using sample_space_ok by (simp add: sample_caller_def sample_user_task_def)

lemma mapped_data_page:
  assumes "0x200000 \<le> unat va" "unat va + n \<le> 0x201000"
  shows "mapped_data va n"
proof -
  have "user_page_index (va + of_nat j) = Some 1" if "j < n" for j
  proof -
    have "unat (va + of_nat j) = unat va + j"
      using assms that by (subst unat_add_no_wrap) (simp_all add: unat_of_nat take_bit_nat_eq_self)
    then show ?thesis using assms that by (simp add: user_page_index_def word_le_nat_alt word_less_nat_alt)
  qed
  then show ?thesis by (simp add: mapped_data_def)
qed

lemma sample_ranges:
  assumes "0x200000 \<le> unat va" "unat va + unat n \<le> 0x201000"
  shows "readable sample_system va n" "writable sample_system va n"
  using range_checks_iff [OF sample_space_ok(2), of va n] caller_space [OF sample_caller_ok] assms
  by (simp_all add: readable_def writable_def sample_system_def sample_el0_fields sample_caller_def)

lemma sample_stored:
  assumes "0x200000 \<le> unat va" "unat va + length bs \<le> 0x201000"
  obtains s' where "put_user sample_senv va bs sample_system = Some s'"
proof -
  have "mapped_data va (length bs)" by (rule mapped_data_page [OF assms])
  moreover have "length bs < 2 ^ 64" using assms by simp
  ultimately obtain k where "store_bytes (memory_env sample_senv) va bs sample_el0 = Some k"
    using store_bytes_mapped [OF sample_caller_ok sample_linked] by blast
  then show thesis using that by (simp add: put_user_def sample_system_def)
qed

lemma sample_kernel [simp]: "sy_kernel sample_system = sample_el0" "sy_vfs sample_system = vfs_demo" "sy_stats sample_system = stats_bss"
  by (simp_all add: sample_system_def)

theorem syscall_confined_witness:
  "\<exists>s'. syscall_dispatch sample_senv id SYSCALL_PROCESS_STATUS 2 0x200000 0 0 sample_system = Some (0, s') \<and>
     own_view 0 (user_tables_of (sy_kernel s')) = own_view 0 sample_tables \<and>
     t_files (tasks (sy_kernel s') ! 2) = t_files sample_child"
proof -
  let ?n = "SYSCALL_PROCESS_STATUS"
  define s0 where "s0 = upd_stats (\<lambda>t. t\<lparr>st_process_status_calls := st_process_status_calls t + 1\<rparr>)
     (upd_stats (\<lambda>t. t\<lparr>st_total := st_total t + 1, st_last_number := ?n, st_last_arg0 := 2, st_last_arg1 := 0x200000,
                             st_last_arg2 := 0\<rparr>) sample_system)"
  let ?bs = "words_bytes (process_status_words sample_child)"
  obtain s1 where "put_user sample_senv 0x200000 ?bs sample_system = Some s1"
    by (rule sample_stored [of "0x200000" ?bs]) (simp_all add: process_status_words_def)
  then obtain s2 where s2: "put_user sample_senv 0x200000 ?bs s0 = Some s2"
    by (auto simp: put_user_def s0_def upd_stats_def)
  have k0: "sy_kernel s0 = sample_el0" "writable s0 = writable sample_system" by (simp_all add: s0_def)
  have target: "scheduler_task_by_pid (c_int 2) sample_el0 = Some sample_child" "scheduler_current_task sample_el0 = sample_caller"
    by (simp_all add: scheduler_task_by_pid_def valid_pid_def sample_el0_fields c_int_def sample_child_def scheduler_current_task_def)
  have "syscall_process_status sample_senv 2 0x200000 s0 = Some (0, s2)"
    using s2 k0 target sample_ranges(2) [of "0x200000" 72]
    by (simp add: syscall_process_status_def sample_child_def sample_caller_def sample_user_task_def)
  then have "syscall_dispatch sample_senv id ?n 2 0x200000 0 0 sample_system =
      Some (0, upd_stats (\<lambda>t. t\<lparr>st_last_result := 0\<rparr>) (count_result 0 s2))"
    by (simp add: syscall_dispatch_def syscall_case_def counted_def s0_def)
  from this syscall_confined [OF _ sample_linked _ this, of 1 0] sample_caller_ok show ?thesis
    by (simp add: sample_el0_fields sample_child_def)
qed

theorem syscall_write_read_back_witness:
  "\<exists>s1 s2 s3 bs. syscall_write sample_senv 3 0x200000 3 sample_system = Some (3, s1) \<and> syscall_seek sample_senv 3 1 s1 = (1, s2) \<and>
     syscall_read sample_senv 3 0x200100 3 s2 = Some (3, s3) \<and> length bs = 3 \<and>
     load_bytes sample_env (sy_kernel s3) 0x200100 3 = Some bs \<and> ram_files (sy_vfs s3) [slash, 0x61] = Some (1 # bs)"
proof -
  have o: "opened (memory_env sample_senv) 1 0 0x40000000 3 0 [slash, 0x61] 1 sample_system"
    using sample_caller_ok
    by (simp add: opened_def fd_slot_def scheduler_current_task_mutable_def sample_el0_fields task_files_def sample_caller_def cstr_def)
  have m: "mapped_data 0x200000 3" "mapped_data 0x200100 3" by (rule mapped_data_page; simp)+
  obtain bs where bs: "load_bytes (memory_env sample_senv) sample_el0 0x200000 3 = Some bs" "length bs = 3"
    using load_bytes_mapped [OF sample_caller_ok sample_linked mapped_data_mapped [OF m(1)]] by blast
  have "vfs_disk_path [slash, 0x61] = None" by (simp add: vfs_disk_path_def)
  from syscall_write_read_back [OF o sample_linked _ this, of "[1, 2, 3]" 3 "0x200000" bs "0x200100"]
  show ?thesis
    using vfs_demo_facts(1,2) bs m(2) sample_ranges [of "0x200000" 3] sample_ranges [of "0x200100" 3]
    by (force simp: sample_senv_fields)
qed

theorem syscall_wait_collects_witness:
  "\<exists>s'. syscall_wait sample_senv id 2 0x200000 0 sample_system = Some (1, s') \<and>
     load_bytes sample_env (sy_kernel s') 0x200000 24 = Some (words_bytes [2, 7, 1]) \<and>
     t_state (tasks (sy_kernel s') ! 2) = TASK_UNUSED"
proof -
  have child: "ended_child 1 0 2 sample_el0"
    by (simp add: ended_child_def sample_el0_fields sample_child_def sample_user_task_def)
  have "tasks sample_el0 ! 2 = sample_child" by (simp add: sample_el0_fields)
  moreover have "c_int 2 = int 2" by (simp add: c_int_def)
  moreover have "mapped_data 0x200000 24" by (rule mapped_data_page; simp)
  ultimately show ?thesis
    using syscall_wait_collects [of sample_system "0x200000" id 0 sample_system 2 2 sample_senv 1 0 "0x40000000"]
      sample_ranges(2) [of "0x200000" 24] sample_caller_ok sample_linked child
    by (auto simp: sample_senv_fields sample_child_def)
qed

theorem syscall_counted_once_witness:
  "\<exists>s'. syscall_dispatch sample_senv id 26 0 0 0 0 sample_system = Some (-1, s') \<and> st_rejected (sy_stats s') = 1"
proof -
  obtain s' where s': "syscall_dispatch sample_senv id 26 0 0 0 0 sample_system = Some (-1, s')"
    by (simp add: syscall_dispatch_def syscall_case_def)
  from syscall_counted_once [OF _ this] s' show ?thesis by (simp add: stats_bss_def)
qed

end
