(* ===== verification/Traps.thy ===== *)
theory Traps
  imports SyscallProps
begin

text \<open>
  Exceptions, interrupts and the timer: arch/arm64/exception.c with the frame of exception.s,
  kernel/exception/decoder.c, arch/arm64/irq.c and timer.c. The system registers the handlers read
  (ESR, FAR, the interrupt acknowledge register) are arguments.
\<close>

section \<open>Decoding\<close>

record exception_info =
  ei_exception_class :: string
  ei_fault_status :: string
  ei_access_type :: string
  ei_ec :: u64
  ei_iss :: u64
  ei_fsc :: u64
  ei_fault_level :: int
  ei_has_fault_status :: bool

definition decode_exception_class :: "u64 \<Rightarrow> string" where
  "decode_exception_class esr =
     (let ec = exception_class_value esr in
      if ec = 0x15 then ''SVC Instruction'' else if ec = 0x20 then ''Instruction Abort from lower EL''
      else if ec = 0x21 then ''Instruction Abort from same EL'' else if ec = 0x24 then ''Data Abort from lower EL''
      else if ec = 0x25 then ''Data Abort from same EL'' else if ec = 0x3c then ''Breakpoint Instruction''
      else ''Unknown Exception'')"

definition decode_fault_status :: "u64 \<Rightarrow> string" where
  "decode_fault_status fsc =
     (if fsc = 0x04 then ''Translation Fault, level 0'' else if fsc = 0x05 then ''Translation Fault, level 1''
      else if fsc = 0x06 then ''Translation Fault, level 2'' else if fsc = 0x07 then ''Translation Fault, level 3''
      else if fsc = 0x09 then ''Access Flag Fault, level 1'' else if fsc = 0x0a then ''Access Flag Fault, level 2''
      else if fsc = 0x0b then ''Access Flag Fault, level 3'' else if fsc = 0x0d then ''Permission Fault, level 1''
      else if fsc = 0x0e then ''Permission Fault, level 2'' else if fsc = 0x0f then ''Permission Fault, level 3''
      else if fsc = 0x21 then ''Alignment Fault'' else ''Unknown Fault Status'')"

definition decode_exception_info :: "u64 \<Rightarrow> exception_info" where
  "decode_exception_info esr =
     (let ec = exception_class_value esr;
          iss = exception_iss_value esr;
          info = \<lparr>ei_exception_class = decode_exception_class esr, ei_fault_status = ''Not Applicable'',
                   ei_access_type = ''Not Applicable'', ei_ec = ec, ei_iss = iss, ei_fsc = 0, ei_fault_level = -1,
                   ei_has_fault_status = False\<rparr>
      in
      if ec = 0x20 \<or> ec = 0x21 \<or> ec = 0x24 \<or> ec = 0x25
      then info\<lparr>ei_fsc := iss AND 0x3f, ei_fault_status := decode_fault_status (iss AND 0x3f),
                 ei_fault_level := c_int (iss AND 0x3f AND 3), ei_has_fault_status := True,
                 ei_access_type := (if ec = 0x20 \<or> ec = 0x21 then ''Instruction Fetch''
                                    else if iss AND push_bit 6 1 \<noteq> 0 then ''Write'' else ''Read'')\<rparr>
      else info)"

section \<open>Synchronous exceptions\<close>

text \<open>The registers exception.s saves, in the order of the frame.\<close>

record exception_frame =
  f_x30 :: u64
  f_pad30 :: u64
  f_x28 :: u64
  f_x29 :: u64
  f_x26 :: u64
  f_x27 :: u64
  f_x24 :: u64
  f_x25 :: u64
  f_x22 :: u64
  f_x23 :: u64
  f_x20 :: u64
  f_x21 :: u64
  f_x18 :: u64
  f_x19 :: u64
  f_x16 :: u64
  f_x17 :: u64
  f_x14 :: u64
  f_x15 :: u64
  f_x12 :: u64
  f_x13 :: u64
  f_x10 :: u64
  f_x11 :: u64
  f_x8 :: u64
  f_x9 :: u64
  f_x6 :: u64
  f_x7 :: u64
  f_x4 :: u64
  f_x5 :: u64
  f_x2 :: u64
  f_x3 :: u64
  f_x0 :: u64
  f_x1 :: u64

definition exception_from_el0 :: "u64 \<Rightarrow> bool" where
  "exception_from_el0 spsr \<longleftrightarrow> spsr AND 0xf = 0"

text \<open>
  How a handler ends: it returns to the interrupted code, or \<open>kernel_panic\<close> halts the machine, or a
  system call never gets back (\<open>trap_lost\<close>, the None of \<open>syscall_dispatch\<close>).
\<close>

datatype 'd trap_outcome = trap_return exception_frame "'d system" | trap_panic exception_info "'d system" | trap_lost

definition exception_sync_handler ::
    "'d system_env \<Rightarrow> ('d system \<Rightarrow> 'd system) \<Rightarrow> u64 \<Rightarrow> u64 \<Rightarrow> exception_frame \<Rightarrow> 'd system \<Rightarrow> 'd trap_outcome" where
  "exception_sync_handler env resume esr far frame s =
     (let elr = elr_el1 (sy_kernel s); spsr = spsr_el1 (sy_kernel s) in
      if exception_from_el0 spsr \<and> exception_class_value esr = 0x15
      then (case syscall_dispatch env resume (f_x8 frame) (f_x0 frame) (f_x1 frame) (f_x2 frame) (f_x3 frame) s of
              None \<Rightarrow> trap_lost
            | Some (result, s) \<Rightarrow> trap_return (frame\<lparr>f_x0 := c_ulong result\<rparr>) s)
      else
        case user_mode_handle_exception esr elr far spsr (sy_kernel s) of
          (True, k) \<Rightarrow> trap_return frame (with_kernel k s)
        | (False, k) \<Rightarrow> trap_panic (decode_exception_info esr) (with_kernel k s))"

text \<open>
  The vectors that are not for system calls branch to \<open>exception_handler\<close> and then loop for ever, also
  when the handler has recovered an EL0 session.
\<close>

definition exception_handler :: "u64 \<Rightarrow> u64 \<Rightarrow> 'd system \<Rightarrow> bool \<times> 'd system" where
  "exception_handler esr far s =
     (case user_mode_handle_exception esr (elr_el1 (sy_kernel s)) far (spsr_el1 (sy_kernel s)) (sy_kernel s) of
        (handled, k) \<Rightarrow> (handled, with_kernel k s))"

definition exception_default_handler :: "u64 \<Rightarrow> u64 \<Rightarrow> 'd system \<Rightarrow> 'd trap_outcome" where
  "exception_default_handler esr far s =
     (case exception_handler esr far s of
        (True, s) \<Rightarrow> trap_lost | (False, s) \<Rightarrow> trap_panic (decode_exception_info esr) s)"

section \<open>The timer and interrupts\<close>

record timer =
  timer_frequency :: u64
  timer_interval_ms :: u64
  timer_interval_ticks :: u64
  timer_irq_ticks :: u64
  cntp_tval :: u64
  cntp_ctl :: u64

definition timer_init :: "u64 \<Rightarrow> timer \<Rightarrow> timer" where
  "timer_init cntfrq t = t\<lparr>timer_frequency := cntfrq\<rparr>"

definition timer_get_frequency :: "timer \<Rightarrow> u64" where "timer_get_frequency t = timer_frequency t"
definition timer_get_irq_ticks :: "timer \<Rightarrow> u64" where "timer_get_irq_ticks t = timer_irq_ticks t"
definition timer_get_interval_ms :: "timer \<Rightarrow> u64" where "timer_get_interval_ms t = timer_interval_ms t"

text \<open>The busy wait: \<open>counter\<close> are the successive readings of the physical counter.\<close>

partial_function (option) wait_ticks :: "(nat \<Rightarrow> u64) \<Rightarrow> u64 \<Rightarrow> u64 \<Rightarrow> nat \<Rightarrow> nat option" where
  "wait_ticks counter start delay n = (if counter n - start < delay then wait_ticks counter start delay (Suc n) else Some n)"

definition timer_sleep_ms :: "(nat \<Rightarrow> u64) \<Rightarrow> u64 \<Rightarrow> timer \<Rightarrow> nat option" where
  "timer_sleep_ms counter ms t = wait_ticks counter (counter 0) (timer_frequency t div 1000 * ms) 1"

definition timer_start_periodic :: "u64 \<Rightarrow> timer \<Rightarrow> timer" where
  "timer_start_periodic interval_ms t =
     (let ticks = timer_frequency t div 1000 * interval_ms
      in t\<lparr>timer_interval_ms := interval_ms, timer_interval_ticks := ticks, timer_irq_ticks := 0,
            cntp_tval := ticks, cntp_ctl := 1\<rparr>)"

definition timer_handle_irq :: "timer \<Rightarrow> timer" where
  "timer_handle_irq t = t\<lparr>timer_irq_ticks := timer_irq_ticks t + 1, cntp_tval := timer_interval_ticks t\<rparr>"

text \<open>
  The interrupt handler for the value read from the acknowledge register; the last component is what
  is written to the end-of-interrupt register.
\<close>

definition irq_handler :: "u32 \<Rightarrow> timer \<Rightarrow> kernel \<Rightarrow> timer \<times> kernel \<times> u32" where
  "irq_handler iar t k =
     (if iar AND 0x3ff = 30 then (timer_handle_irq t, scheduler_preempt k, iar) else (t, k, iar))"

section \<open>Properties\<close>

text \<open>A system call made at EL0 through the vector.\<close>

lemma svc_dispatch:
  assumes "exception_from_el0 (spsr_el1 (sy_kernel s))" "exception_class_value esr = 0x15"
  shows "exception_sync_handler env resume esr far frame s =
    (case syscall_dispatch env resume (f_x8 frame) (f_x0 frame) (f_x1 frame) (f_x2 frame) (f_x3 frame) s of
       None \<Rightarrow> trap_lost | Some (result, s) \<Rightarrow> trap_return (frame\<lparr>f_x0 := c_ulong result\<rparr>) s)"
  using assms by (simp add: exception_sync_handler_def)

lemma write_unmapped:
  assumes "el0_caller (memory_env env) i slot root (sy_kernel s)" "linked (memory_env env) root"
  shows "syscall_dispatch env resume SYSCALL_WRITE 1 0x101000 1 0 s = None"
proof -
  have "user_address 0x101000" by (simp add: user_address_def)
  moreover have "user_page_index 0x101000 = None" by (simp add: user_page_index_def)
  ultimately have l: "load_byte (memory_env env) (sy_kernel s) 0x101000 = None"
    using user_byte_caller [OF assms] by (simp add: load_byte_def)
  have sp: "user_space_fields (memory_env env) slot root (t_user_address_space (tasks (sy_kernel s) ! i))"
    using assms(1) by (simp add: el0_caller_def)
  have r: "readable (upd_stats f (upd_stats g s)) 0x101000 1" for f g
    using range_checks_iff [OF sp, of "0x101000" 1] caller_space [OF assms(1)] by (simp add: readable_def)
  have "load_bytes (memory_env env) (sy_kernel s) 0x101000 (Suc 0) = None" using l by simp
  then show ?thesis
    using r by (simp add: syscall_dispatch_def syscall_case_def counted_def syscall_write_def)
qed


definition sample_frame :: exception_frame where
  "sample_frame = \<lparr>f_x30 = 0, f_pad30 = 0, f_x28 = 0, f_x29 = 0, f_x26 = 0, f_x27 = 0, f_x24 = 0, f_x25 = 0, f_x22 = 0, f_x23 = 0,
     f_x20 = 0, f_x21 = 0, f_x18 = 0, f_x19 = 0, f_x16 = 0, f_x17 = 0, f_x14 = 0, f_x15 = 0, f_x12 = 0, f_x13 = 0, f_x10 = 0, f_x11 = 0,
     f_x8 = 1, f_x9 = 0, f_x6 = 0, f_x7 = 0, f_x4 = 0, f_x5 = 0, f_x2 = 1, f_x3 = 0, f_x0 = 1, f_x1 = 0x101000\<rparr>"


end
