(* ===== verification/Kprintf.thy ===== *)
theory Kprintf
  imports Prelude
begin

text \<open>
  Formatted output, kernel/console/kprintf.c over console.c: the bytes given to the console for a
  format string and its arguments. A format that ends in a percent sign is read past its terminator;
  this, a conversion without a fitting argument, and a signed overflow are undefined in C, and None here.
\<close>

section \<open>Numbers\<close>

definition hex_digit :: "u32 \<Rightarrow> u8" where
  "hex_digit nibble = (if nibble < 10 then 0x30 + ucast nibble else 0x61 + ucast nibble - 10)"

text \<open>The eight digits without leading zeros.\<close>

definition print_hex :: "u32 \<Rightarrow> cstring" where
  "print_hex value =
     (if value = 0 then [0x30]
      else dropWhile (\<lambda>b. b = 0x30) (map (\<lambda>i. hex_digit (drop_bit (28 - i * 4) value AND 0xf)) [0..<8]))"

text \<open>
  The digit loop of \<open>print_decimal\<close>, last digit first. Ints are 32 bits wide; the negation of the smallest
  one overflows, for which C defines no result.
\<close>

function decimal_digits :: "int \<Rightarrow> u8 list" where
  "decimal_digits value = (if value > 0 then (0x30 + of_int (value mod 10)) # decimal_digits (value div 10) else [])"
  by auto
termination by (relation "measure nat") auto

declare decimal_digits.simps [simp del]

definition c_negate :: "int \<Rightarrow> int option" where
  "c_negate value = (if - value < 2 ^ 31 then Some (- value) else None)"

definition print_decimal :: "int \<Rightarrow> cstring option" where
  "print_decimal value =
     (if value = 0 then Some [0x30]
      else if value < 0
      then (case c_negate value of None \<Rightarrow> None | Some value \<Rightarrow> Some (0x2d # rev (decimal_digits value)))
      else Some (rev (decimal_digits value)))"

section \<open>Formats\<close>

text \<open>An argument as \<open>va_arg\<close> takes it: a string pointer, possibly null, or an int.\<close>

datatype kprintf_arg = arg_string "cstring option" | arg_int u32

fun kprintf :: "cstring \<Rightarrow> kprintf_arg list \<Rightarrow> cstring option" where
  "kprintf [] args = Some []"
| "kprintf (c # fmt) args =
     (if c \<noteq> 0x25 then map_option (Cons c) (kprintf fmt args)
      else
        case fmt of
          [] \<Rightarrow> None
        | d # fmt \<Rightarrow>
            if d = 0x73
            then (case args of
                    arg_string str # args \<Rightarrow>
                      map_option (append (case str of Some s \<Rightarrow> s | None \<Rightarrow> bytes_of ''(null)'')) (kprintf fmt args)
                  | _ \<Rightarrow> None)
            else if d = 0x63
            then (case args of arg_int x # args \<Rightarrow> map_option (Cons (ucast x)) (kprintf fmt args) | _ \<Rightarrow> None)
            else if d = 0x64
            then (case args of
                    arg_int x # args \<Rightarrow>
                      (case print_decimal (sint x) of None \<Rightarrow> None | Some s \<Rightarrow> map_option (append s) (kprintf fmt args))
                  | _ \<Rightarrow> None)
            else if d = 0x78
            then (case args of arg_int x # args \<Rightarrow> map_option (append (print_hex x)) (kprintf fmt args) | _ \<Rightarrow> None)
            else map_option (append [0x25, d]) (kprintf fmt args))"

section \<open>Numbers read back\<close>

definition digit_value :: "u8 \<Rightarrow> nat" where
  "digit_value b = (if b < 0x3a then unat b - 0x30 else unat b - 0x57)"

definition digits_value :: "nat \<Rightarrow> cstring \<Rightarrow> nat" where
  "digits_value base ds = foldl (\<lambda>n b. n * base + digit_value b) 0 ds"

definition decimal_value :: "cstring \<Rightarrow> int" where
  "decimal_value s = (if s \<noteq> [] \<and> hd s = 0x2d then - int (digits_value 10 (tl s)) else int (digits_value 10 s))"

lemma digits_value_snoc: "digits_value base (ds @ [d]) = digits_value base ds * base + digit_value d"
  by (simp add: digits_value_def)

lemma decimal_digit: "0 \<le> v \<Longrightarrow> int (digit_value (0x30 + of_int (v mod 10))) = v mod 10" "0x30 + of_int (v mod 10) \<noteq> (0x2d :: u8)"
proof -
  have "v mod 10 \<in> {0..9}" by simp
  moreover have "{0..9} = {0, 1, 2, 3, 4, 5, 6, 7, 8, 9 :: int}" by code_simp
  ultimately have "v mod 10 \<in> {0, 1, 2, 3, 4, 5, 6, 7, 8, 9}" by (simp only:)
  then have "int (digit_value (0x30 + of_int (v mod 10))) = v mod 10 \<and> 0x30 + of_int (v mod 10) \<noteq> (0x2d :: u8)"
    by (elim insertE) (simp_all add: digit_value_def)
  then show "int (digit_value (0x30 + of_int (v mod 10))) = v mod 10" "0x30 + of_int (v mod 10) \<noteq> (0x2d :: u8)" by simp_all
qed

lemma decimal_digits_value: "0 \<le> v \<Longrightarrow> int (digits_value 10 (rev (decimal_digits v))) = v"
proof (induction v rule: decimal_digits.induct)
  case (1 v)
  show ?case
  proof (cases "v > 0")
    case True
    then have "int (digits_value 10 (rev (decimal_digits (v div 10)))) = v div 10" using 1 by simp
    then show ?thesis
      using True decimal_digit(1) [of v] by (subst decimal_digits.simps) (simp add: digits_value_snoc)
  next
    case False
    then show ?thesis using 1 by (subst decimal_digits.simps) (simp add: digits_value_def)
  qed
qed

lemma decimal_digits_length: "0 \<le> v \<Longrightarrow> v < 10 ^ n \<Longrightarrow> length (decimal_digits v) \<le> n"
proof (induction n arbitrary: v)
  case (Suc n)
  then have "length (decimal_digits (v div 10)) \<le> n" by (intro Suc.IH) auto
  then show ?case by (subst decimal_digits.simps) simp
qed (simp add: decimal_digits.simps)

lemma decimal_digits_no_sign: "0x2d \<notin> set (decimal_digits v)"
proof (induction v rule: decimal_digits.induct)
  case (1 v)
  then show ?case using decimal_digit(2) [of v] by (subst decimal_digits.simps) (auto dest: sym)
qed

text \<open>The nibbles of a number, most significant first.\<close>

lemma nibbles_value:
  "foldl (\<lambda>n d. n * 16 + d) 0 (map (\<lambda>i. x div 16 ^ (k - 1 - i) mod 16) [0..<k]) = x mod 16 ^ k" for x k :: nat
proof (induction k arbitrary: x)
  case (Suc k)
  have "map (\<lambda>i. x div 16 ^ (Suc k - 1 - i) mod 16) [0..<k] = map (\<lambda>i. (x div 16) div 16 ^ (k - 1 - i) mod 16) [0..<k]"
  proof (rule map_cong [OF refl])
    fix i assume "i \<in> set [0..<k]"
    then have "Suc k - 1 - i = Suc (k - 1 - i)" by auto
    then show "x div 16 ^ (Suc k - 1 - i) mod 16 = (x div 16) div 16 ^ (k - 1 - i) mod 16"
      by (simp add: div_mult2_eq)
  qed
  note eq = this
  have "foldl (\<lambda>n d. n * 16 + d) 0 (map (\<lambda>i. x div 16 ^ (Suc k - 1 - i) mod 16) [0..<Suc k]) =
      (x div 16) mod 16 ^ k * 16 + x mod 16"
    unfolding upt_Suc_append [OF le0] map_append foldl_append by (simp only: eq Suc.IH) simp
  also have "\<dots> = x mod 16 ^ Suc k" by (simp add: mod_mult2_eq)
  finally show ?case .
qed simp

lemma hex_digit_value: "n < 16 \<Longrightarrow> digit_value (hex_digit n) = unat n" "n < 16 \<Longrightarrow> hex_digit n = 0x30 \<longleftrightarrow> n = 0"
proof -
  assume "n < 16"
  then have "unat n \<in> {0..15}" by (simp add: word_less_nat_alt)
  moreover have "{0..15} = {0, 1, 2, 3, 4, 5, 6, 7, 8, 9, 10, 11, 12, 13, 14, 15 :: nat}" by code_simp
  ultimately have "unat n \<in> {0, 1, 2, 3, 4, 5, 6, 7, 8, 9, 10, 11, 12, 13, 14, 15}" by (simp only:)
  then have "of_nat (unat n) \<in> {0, 1, 2, 3, 4, 5, 6, 7, 8, 9, 10, 11, 12, 13, 14, 15 :: u32}" by (elim insertE) simp_all
  then have "n \<in> {0, 1, 2, 3, 4, 5, 6, 7, 8, 9, 10, 11, 12, 13, 14, 15}" by simp
  then have "digit_value (hex_digit n) = unat n \<and> (hex_digit n = 0x30 \<longleftrightarrow> n = 0)"
    by (elim insertE) (simp_all add: digit_value_def hex_digit_def)
  then show "digit_value (hex_digit n) = unat n" "hex_digit n = 0x30 \<longleftrightarrow> n = 0" by simp_all
qed

lemma digits_value_drop: "digits_value base (dropWhile (\<lambda>b. b = 0x30) ds) = digits_value base ds"
  by (induction ds) (simp_all add: digits_value_def digit_value_def)

lemma print_hex_value: "digits_value 16 (print_hex v) = unat v"
proof -
  let ?n = "\<lambda>i. drop_bit (28 - i * 4) v AND 0xf"
  have n: "?n i < 16" "unat (?n i) = unat v div 16 ^ (8 - 1 - i) mod 16" if "i < 8" for i
  proof -
    have m: "(0xf :: u32) = mask 4" by (simp add: mask_eq_exp_minus_1)
    have "28 - i * 4 = 4 * (7 - i)" using that by simp
    then have "unat (drop_bit (28 - i * 4) v) = unat v div 16 ^ (7 - i)"
      by (simp only: unat_drop_bit_eq) (simp add: drop_bit_eq_div power_mult)
    then show "unat (?n i) = unat v div 16 ^ (8 - 1 - i) mod 16"
      unfolding m by (simp only: take_bit_eq_mask [symmetric] unsigned_take_bit_eq) (simp add: take_bit_eq_mod)
    then show "?n i < 16" by (simp add: word_less_nat_alt)
  qed
  have "digits_value 16 (map (\<lambda>i. hex_digit (?n i)) [0..<8]) =
      foldl (\<lambda>n d. n * 16 + d) 0 (map (\<lambda>i. unat v div 16 ^ (8 - 1 - i) mod 16) [0..<8])"
    unfolding digits_value_def foldl_map by (rule foldl_cong [OF refl refl]) (use n hex_digit_value(1) in simp)
  also have "\<dots> = unat v" unfolding nibbles_value using unsigned_less [of v, where 'a=nat] by simp
  finally show ?thesis by (simp add: print_hex_def digits_value_drop) (simp add: digits_value_def digit_value_def)
qed

lemma sint_range32: "- (2 ^ 31) \<le> sint x" "sint x < 2 ^ 31" for x :: u32
  using sint_ge [of x] sint_lt [of x] by simp_all

lemma print_decimal_value:
  "- (2 ^ 31) < v \<Longrightarrow> v < 2 ^ 31 \<Longrightarrow> \<exists>s. print_decimal v = Some s \<and> decimal_value s = v \<and> length s \<le> 11"
  "print_decimal (- (2 ^ 31)) = None"
proof -
  show "print_decimal (- (2 ^ 31)) = None" by (simp add: print_decimal_def c_negate_def)
  assume v: "- (2 ^ 31) < v" "v < 2 ^ 31"
  have pos: "int (digits_value 10 (rev (decimal_digits w))) = w" "length (decimal_digits w) \<le> 10" if "0 \<le> w" "w < 2 ^ 31" for w
    using that decimal_digits_value decimal_digits_length [of w 10] by simp_all
  consider "v = 0" | "v < 0" | "v > 0" by linarith
  then show "\<exists>s. print_decimal v = Some s \<and> decimal_value s = v \<and> length s \<le> 11"
  proof cases
    case 1
    then show ?thesis by (simp add: print_decimal_def decimal_value_def digits_value_def digit_value_def)
  next
    case 2
    then show ?thesis using pos [of "- v"] v by (simp add: print_decimal_def c_negate_def decimal_value_def)
  next
    case 3
    have "hd (rev (decimal_digits v)) \<noteq> 0x2d" if "rev (decimal_digits v) \<noteq> []"
      using hd_in_set [OF that] decimal_digits_no_sign [of v] by auto
    then show ?thesis using 3 pos [of v] v by (auto simp: print_decimal_def decimal_value_def)
  qed
qed

text \<open>
  C40: numbers are printed exactly. %x prints a number that reads back as the argument in hexadecimal;
  %d prints one that reads back as the argument in decimal, with at most ten digits, so that the
  twelve-byte buffer is never overrun. The one argument of %d without a defined output is the smallest int,
  whose negation overflows.
\<close>

theorem kprintf_numbers_read_back:
  "(\<exists>s. kprintf (bytes_of ''%x'') [arg_int x] = Some s \<and> digits_value 16 s = unat x) \<and>
   (if sint x = - (2 ^ 31) then kprintf (bytes_of ''%d'') [arg_int x] = None
    else \<exists>s. kprintf (bytes_of ''%d'') [arg_int x] = Some s \<and> decimal_value s = sint x \<and> length s \<le> 11)"
proof -
  have k: "kprintf (bytes_of ''%x'') [arg_int x] = Some (print_hex x)" "kprintf (bytes_of ''%d'') [arg_int x] = print_decimal (sint x)"
    by (simp_all add: bytes_of_def split: option.split)
  show ?thesis
    unfolding k using print_hex_value print_decimal_value(1) [of "sint x"] print_decimal_value(2) sint_range32 [of x] by auto
qed

end
