(* ===== verification/Vm.thy ===== *)
theory Vm
  imports Task Heap
begin

text \<open>
  The kernel's own address map, kernel/memory/vm.c: the static level-1, level-2 and level-3 tables,
  their construction from the region list with 4 KB pages for the kernel image and unmapped stack
  guards, the software walk, the validation that runs before the MMU is enabled, and the audit of
  the permissions that the tables grant.
\<close>

section \<open>Layout\<close>

abbreviation VM_L2_TABLE_CAPACITY :: nat where "VM_L2_TABLE_CAPACITY \<equiv> 4"
abbreviation VM_DEVICE_MMIO_END :: u64 where "VM_DEVICE_MMIO_END \<equiv> 0x0a200000"
abbreviation VM_KERNEL_L3_BASE :: u64 where "VM_KERNEL_L3_BASE \<equiv> 0x40000000"
abbreviation VM_KERNEL_L3_END :: u64 where "VM_KERNEL_L3_END \<equiv> VM_KERNEL_L3_BASE + ARM64_L2_BLOCK_SIZE"

definition VM_NORMAL_XN_MEMORY_ATTR :: u64 where
  "VM_NORMAL_XN_MEMORY_ATTR = ARM64_NORMAL_MEMORY_ATTR OR ARM64_DESC_PXN OR ARM64_DESC_UXN"

definition VM_NORMAL_RO_XN_MEMORY_ATTR :: u64 where
  "VM_NORMAL_RO_XN_MEMORY_ATTR =
     (ARM64_NORMAL_MEMORY_ATTR AND NOT ARM64_DESC_AP_MASK) OR push_bit 6 2 OR ARM64_DESC_PXN OR ARM64_DESC_UXN"

definition VM_NORMAL_RO_EXEC_MEMORY_ATTR :: u64 where
  "VM_NORMAL_RO_EXEC_MEMORY_ATTR = (ARM64_NORMAL_MEMORY_ATTR AND NOT ARM64_DESC_AP_MASK) OR push_bit 6 2"

text \<open>
  What the linker fixes: the section symbols, the addresses of the table arrays, and the kernel
  environment with the stack region. \<open>vm_memory\<close> is the rest of memory, read only if a descriptor
  pointed outside the tables.
\<close>

record vm_env =
  kernel_start :: u64
  kernel_end :: u64
  text_start :: u64
  text_end :: u64
  rodata_start :: u64
  rodata_end :: u64
  data_start :: u64
  data_end :: u64
  bss_start :: u64
  bss_end :: u64
  vm_l1_base :: u64
  vm_l2_base :: u64
  vm_l3_base :: u64
  vm_memory :: "u64 \<Rightarrow> u64"
  vm_kernel :: kernel_env

record vm_region =
  vmr_name :: string
  vmr_virtual_start :: u64
  vmr_physical_start :: u64
  vmr_size :: u64
  vmr_attributes :: u64
  vmr_type :: string

record vm_l2_table_slot =
  slot_l1_index :: u64
  slot_used :: bool

record vm_named_region =
  nr_name :: string
  nr_start :: u64
  nr_end :: u64

record vm_permission_goal =
  goal_name :: string
  goal_start :: u64
  goal_end :: u64
  goal_want_xn :: bool
  goal_want_ro :: bool

definition vm_regions :: "vm_region list" where
  "vm_regions =
     [\<lparr>vmr_name = ''mmio'', vmr_virtual_start = 0x08000000, vmr_physical_start = 0x08000000,
       vmr_size = VM_DEVICE_MMIO_END - 0x08000000, vmr_attributes = ARM64_DEVICE_MEMORY_ATTR, vmr_type = ''device''\<rparr>,
      \<lparr>vmr_name = ''ram'', vmr_virtual_start = 0x40000000, vmr_physical_start = 0x40000000,
       vmr_size = 0x08000000, vmr_attributes = VM_NORMAL_XN_MEMORY_ATTR, vmr_type = ''normal''\<rparr>]"

definition vm_named_regions :: "vm_env \<Rightarrow> vm_named_region list" where
  "vm_named_regions env =
     [\<lparr>nr_name = ''gic'', nr_start = 0x08000000, nr_end = 0x08020000\<rparr>,
      \<lparr>nr_name = ''uart'', nr_start = 0x09000000, nr_end = 0x09001000\<rparr>,
      \<lparr>nr_name = ''fw_cfg'', nr_start = 0x09020000, nr_end = 0x09021000\<rparr>,
      \<lparr>nr_name = ''virtio-mmio'', nr_start = 0x0a000000, nr_end = 0x0a004000\<rparr>,
      \<lparr>nr_name = ''kernel-text'', nr_start = text_start env, nr_end = text_end env\<rparr>,
      \<lparr>nr_name = ''kernel-rodata'', nr_start = rodata_start env, nr_end = rodata_end env\<rparr>,
      \<lparr>nr_name = ''kernel-data'', nr_start = data_start env, nr_end = data_end env\<rparr>,
      \<lparr>nr_name = ''kernel-bss'', nr_start = bss_start env, nr_end = bss_end env\<rparr>,
      \<lparr>nr_name = ''kernel'', nr_start = kernel_start env, nr_end = kernel_end env\<rparr>,
      \<lparr>nr_name = ''ramfb-control'', nr_start = 0x46ffe000, nr_end = 0x47000000\<rparr>,
      \<lparr>nr_name = ''framebuffer'', nr_start = 0x47000000, nr_end = 0x4712c000\<rparr>]"

definition vm_permission_goals :: "vm_env \<Rightarrow> vm_permission_goal list" where
  "vm_permission_goals env =
     [\<lparr>goal_name = ''text'', goal_start = text_start env, goal_end = text_end env, goal_want_xn = False, goal_want_ro = True\<rparr>,
      \<lparr>goal_name = ''rodata'', goal_start = rodata_start env, goal_end = rodata_end env, goal_want_xn = True, goal_want_ro = True\<rparr>,
      \<lparr>goal_name = ''data'', goal_start = data_start env, goal_end = data_end env, goal_want_xn = True, goal_want_ro = False\<rparr>,
      \<lparr>goal_name = ''bss'', goal_start = bss_start env, goal_end = bss_end env, goal_want_xn = True, goal_want_ro = False\<rparr>,
      \<lparr>goal_name = ''mmio'', goal_start = 0x08000000, goal_end = VM_DEVICE_MMIO_END, goal_want_xn = True, goal_want_ro = False\<rparr>]"

record vm =
  vm_l1_table :: "u64 list"
  vm_l2_tables :: "u64 list list"
  vm_kernel_l3_table :: "u64 list"
  vm_l2_slots :: "vm_l2_table_slot list"
  vm_ready :: bool
  vm_tables_built :: bool
  vm_validated :: bool
  vm_enable_attempted :: bool
  vm_kernel_l3_mapped :: bool
  vm_used_l2_tables :: u64
  vm_blocks_mapped :: u64
  vm_pages_mapped :: u64
  vm_guard_pages :: u64
  vm_blocks_validated :: u64
  vm_pages_validated :: u64
  vm_guard_pages_validated :: u64
  vm_validation_error_count :: u64
  vm_exec_blocks :: u64
  vm_xn_blocks :: u64
  vm_exec_pages :: u64
  vm_xn_pages :: u64
  vm_bytes_mapped :: u64

section \<open>Building the tables\<close>

definition clear_table :: "u64 list" where
  "clear_table = replicate ARM64_TABLE_ENTRIES 0"

definition vm_align_down :: "u64 \<Rightarrow> u64 \<Rightarrow> u64" where
  "vm_align_down value sz = value AND NOT (sz - 1)"

definition vm_align_up :: "u64 \<Rightarrow> u64 \<Rightarrow> u64" where
  "vm_align_up value sz = (value + sz - 1) AND NOT (sz - 1)"

definition address_in_range :: "u64 \<Rightarrow> u64 \<Rightarrow> u64 \<Rightarrow> bool" where
  "address_in_range address start end' \<longleftrightarrow> address \<ge> start \<and> address < end'"

definition address_in_kernel_text :: "vm_env \<Rightarrow> u64 \<Rightarrow> bool" where
  "address_in_kernel_text env address \<longleftrightarrow>
     address_in_range address (vm_align_down (text_start env) ARM64_PAGE_SIZE) (vm_align_up (text_end env) ARM64_PAGE_SIZE)"

definition address_in_kernel_rodata :: "vm_env \<Rightarrow> u64 \<Rightarrow> bool" where
  "address_in_kernel_rodata env address \<longleftrightarrow>
     address_in_range address (vm_align_down (rodata_start env) ARM64_PAGE_SIZE) (vm_align_up (rodata_end env) ARM64_PAGE_SIZE)"

definition kernel_page_attributes :: "vm_env \<Rightarrow> u64 \<Rightarrow> u64" where
  "kernel_page_attributes env address =
     (if address_in_kernel_text env address then VM_NORMAL_RO_EXEC_MEMORY_ATTR
      else if address_in_kernel_rodata env address then VM_NORMAL_RO_XN_MEMORY_ATTR
      else VM_NORMAL_XN_MEMORY_ATTR)"

definition vm_address_is_guard_page :: "vm_env \<Rightarrow> u64 \<Rightarrow> bool" where
  "vm_address_is_guard_page env address = scheduler_address_is_stack_guard (vm_kernel env) address"

definition vm_l2_addr :: "vm_env \<Rightarrow> nat \<Rightarrow> u64" where
  "vm_l2_addr env slot = vm_l2_base env + of_nat (slot * 4096)"

text \<open>A level-2 table is named by its slot.\<close>

definition find_l2_table :: "u64 \<Rightarrow> vm \<Rightarrow> nat option" where
  "find_l2_table l1_index s =
     find_slot (\<lambda>sl. slot_used sl \<and> slot_l1_index sl = l1_index) (take (unat (vm_used_l2_tables s)) (vm_l2_slots s))"

definition get_l2_table :: "vm_env \<Rightarrow> u64 \<Rightarrow> vm \<Rightarrow> nat option \<times> vm" where
  "get_l2_table env l1_index s =
     (case find_l2_table l1_index s of
        Some slot \<Rightarrow> (Some slot, s)
      | None \<Rightarrow>
          if vm_used_l2_tables s \<ge> of_nat VM_L2_TABLE_CAPACITY then (None, s)
          else
            let slot = unat (vm_used_l2_tables s)
            in (Some slot,
                s\<lparr>vm_used_l2_tables := vm_used_l2_tables s + 1,
                  vm_l2_slots := (vm_l2_slots s)[slot := \<lparr>slot_l1_index = l1_index, slot_used = True\<rparr>],
                  vm_l2_tables := (vm_l2_tables s)[slot := clear_table],
                  vm_l1_table := (vm_l1_table s)[unat l1_index := arm64_mmu_table_desc (vm_l2_addr env slot)]\<rparr>))"

definition region_is_l2_aligned :: "vm_region \<Rightarrow> bool" where
  "region_is_l2_aligned r \<longleftrightarrow>
     vmr_virtual_start r AND (ARM64_L2_BLOCK_SIZE - 1) = 0 \<and>
     vmr_physical_start r AND (ARM64_L2_BLOCK_SIZE - 1) = 0 \<and>
     vmr_size r AND (ARM64_L2_BLOCK_SIZE - 1) = 0"

text \<open>
  The loop of \<open>map_region\<close>, one block per step; the size is a multiple of the block size there, so
  the loop runs once for each block.
\<close>

fun map_blocks :: "vm_env \<Rightarrow> u64 \<Rightarrow> nat \<Rightarrow> u64 \<Rightarrow> u64 \<Rightarrow> vm \<Rightarrow> bool \<times> vm" where
  "map_blocks env attributes 0 va pa s = (True, s)"
| "map_blocks env attributes (Suc n) va pa s =
     (case get_l2_table env (arm64_mmu_l1_index va) s of
        (None, s) \<Rightarrow> (False, s)
      | (Some slot, s) \<Rightarrow>
          let d = arm64_mmu_l2_block_desc pa attributes;
              s = s\<lparr>vm_l2_tables := (vm_l2_tables s)[slot := (vm_l2_tables s ! slot)[unat (arm64_mmu_l2_index va) := d]]\<rparr>;
              s = (if arm64_mmu_desc_is_execute_never d then s\<lparr>vm_xn_blocks := vm_xn_blocks s + 1\<rparr>
                   else s\<lparr>vm_exec_blocks := vm_exec_blocks s + 1\<rparr>)
          in map_blocks env attributes n (va + ARM64_L2_BLOCK_SIZE) (pa + ARM64_L2_BLOCK_SIZE)
               (s\<lparr>vm_blocks_mapped := vm_blocks_mapped s + 1, vm_bytes_mapped := vm_bytes_mapped s + ARM64_L2_BLOCK_SIZE\<rparr>))"

definition map_region :: "vm_env \<Rightarrow> vm_region \<Rightarrow> vm \<Rightarrow> bool \<times> vm" where
  "map_region env r s =
     (if \<not> region_is_l2_aligned r then (False, s)
      else map_blocks env (vmr_attributes r) (unat (vmr_size r) div unat ARM64_L2_BLOCK_SIZE)
             (vmr_virtual_start r) (vmr_physical_start r) s)"

definition map_kernel_page :: "vm_env \<Rightarrow> nat \<Rightarrow> vm \<Rightarrow> vm" where
  "map_kernel_page env i s =
     (let address = VM_KERNEL_L3_BASE + of_nat i * ARM64_PAGE_SIZE;
          attributes = kernel_page_attributes env address
      in if vm_address_is_guard_page env address then s\<lparr>vm_guard_pages := vm_guard_pages s + 1\<rparr>
         else
           let d = arm64_mmu_l3_page_desc address attributes;
               s = s\<lparr>vm_kernel_l3_table := (vm_kernel_l3_table s)[i := d]\<rparr>;
               s = (if arm64_mmu_desc_is_execute_never d then s\<lparr>vm_xn_pages := vm_xn_pages s + 1\<rparr>
                    else s\<lparr>vm_exec_pages := vm_exec_pages s + 1\<rparr>)
           in s\<lparr>vm_pages_mapped := vm_pages_mapped s + 1, vm_bytes_mapped := vm_bytes_mapped s + ARM64_PAGE_SIZE\<rparr>)"

definition map_kernel_l3_block :: "vm_env \<Rightarrow> vm \<Rightarrow> bool \<times> vm" where
  "map_kernel_l3_block env s =
     (let l2_index = unat (arm64_mmu_l2_index VM_KERNEL_L3_BASE)
      in case get_l2_table env (arm64_mmu_l1_index VM_KERNEL_L3_BASE) s of
           (None, s) \<Rightarrow> (False, s)
         | (Some slot, s) \<Rightarrow>
             let s = s\<lparr>vm_kernel_l3_table := clear_table\<rparr>;
                 s = fold (map_kernel_page env) [0..<ARM64_TABLE_ENTRIES] s;
                 d = vm_l2_tables s ! slot ! l2_index;
                 s = (if arm64_mmu_desc_is_l2_block d
                      then (if arm64_mmu_desc_is_execute_never d then s\<lparr>vm_xn_blocks := vm_xn_blocks s - 1\<rparr>
                            else s\<lparr>vm_exec_blocks := vm_exec_blocks s - 1\<rparr>)
                             \<lparr>vm_blocks_mapped := vm_blocks_mapped s - 1,
                              vm_bytes_mapped := vm_bytes_mapped s - ARM64_L2_BLOCK_SIZE\<rparr>
                      else s)
             in (True,
                 s\<lparr>vm_l2_tables := (vm_l2_tables s)[slot := (vm_l2_tables s ! slot)[l2_index := arm64_mmu_table_desc (vm_l3_base env)]],
                   vm_kernel_l3_mapped := True\<rparr>))"

fun map_regions :: "vm_env \<Rightarrow> vm_region list \<Rightarrow> vm \<Rightarrow> bool \<times> vm" where
  "map_regions env [] s = (True, s)"
| "map_regions env (r # rs) s =
     (case map_region env r s of (False, s) \<Rightarrow> (False, s) | (True, s) \<Rightarrow> map_regions env rs s)"

definition reset_tables :: "vm \<Rightarrow> vm" where
  "reset_tables s =
     s\<lparr>vm_l1_table := clear_table, vm_kernel_l3_table := clear_table,
       vm_l2_slots := replicate VM_L2_TABLE_CAPACITY \<lparr>slot_l1_index = 0, slot_used = False\<rparr>,
       vm_l2_tables := replicate VM_L2_TABLE_CAPACITY clear_table,
       vm_used_l2_tables := 0, vm_blocks_mapped := 0, vm_pages_mapped := 0, vm_guard_pages := 0,
       vm_blocks_validated := 0, vm_pages_validated := 0, vm_guard_pages_validated := 0,
       vm_validation_error_count := 0, vm_exec_blocks := 0, vm_xn_blocks := 0, vm_exec_pages := 0,
       vm_xn_pages := 0, vm_bytes_mapped := 0, vm_kernel_l3_mapped := False\<rparr>"

definition build_tables :: "vm_env \<Rightarrow> vm \<Rightarrow> bool \<times> vm" where
  "build_tables env s =
     (case map_regions env vm_regions (reset_tables s) of
        (False, s) \<Rightarrow> (False, s)
      | (True, s) \<Rightarrow> map_kernel_l3_block env s)"

section \<open>The software walk\<close>

text \<open>A 64-bit read of memory, through the arrays of the tables.\<close>

definition vm_read :: "vm_env \<Rightarrow> vm \<Rightarrow> u64 \<Rightarrow> u64" where
  "vm_read env s addr =
     (if in_array (vm_l1_base env) 1 addr then array_read [vm_l1_table s] (vm_l1_base env) addr
      else if in_array (vm_l2_base env) 4 addr then array_read (vm_l2_tables s) (vm_l2_base env) addr
      else if in_array (vm_l3_base env) 1 addr then array_read [vm_kernel_l3_table s] (vm_l3_base env) addr
      else vm_memory env addr)"

text \<open>The physical address, the descriptor and the level.\<close>

definition translation_for_address :: "vm_env \<Rightarrow> vm \<Rightarrow> u64 \<Rightarrow> (u64 \<times> u64 \<times> nat) option" where
  "translation_for_address env s address =
     (let l1_index = arm64_mmu_l1_index address;
          l2_index = arm64_mmu_l2_index address;
          l3_index = arm64_mmu_l3_index address;
          l2_offset = address AND (ARM64_L2_BLOCK_SIZE - 1);
          l3_offset = address AND (ARM64_PAGE_SIZE - 1);
          l1_descriptor = vm_l1_table s ! unat l1_index
      in if \<not> arm64_mmu_desc_is_table l1_descriptor then None
         else case find_l2_table l1_index s of
           None \<Rightarrow> None
         | Some slot \<Rightarrow>
             let l2_descriptor = vm_l2_tables s ! slot ! unat l2_index
             in if arm64_mmu_desc_is_l2_block l2_descriptor
                then Some (arm64_mmu_l2_block_address l2_descriptor + l2_offset, l2_descriptor, 2)
                else if \<not> arm64_mmu_desc_is_table l2_descriptor then None
                else
                  let l3_table = arm64_mmu_desc_address l2_descriptor;
                      l3_descriptor = vm_read env s (l3_table + 8 * l3_index)
                  in if \<not> arm64_mmu_desc_is_l3_page l3_descriptor then None
                     else Some (arm64_mmu_l3_page_address l3_descriptor + l3_offset, l3_descriptor, 3))"

definition vm_walk_address :: "vm_env \<Rightarrow> vm \<Rightarrow> u64 \<Rightarrow> u64 option" where
  "vm_walk_address env s virtual_address = map_option fst (translation_for_address env s virtual_address)"

section \<open>Validation\<close>

definition validation_error :: "vm \<Rightarrow> vm" where
  "validation_error s = s\<lparr>vm_validation_error_count := vm_validation_error_count s + 1\<rparr>"

partial_function (option) validate_range :: "vm_env \<Rightarrow> u64 \<Rightarrow> u64 \<Rightarrow> u64 \<Rightarrow> vm \<Rightarrow> (bool \<times> vm) option" where
  "validate_range env va pa remaining s =
     (if \<not> remaining > 0 then Some (True, s)
      else if vm_address_is_guard_page env va
      then
        (if translation_for_address env s va \<noteq> None then Some (False, validation_error s)
         else validate_range env (va + ARM64_PAGE_SIZE) (pa + ARM64_PAGE_SIZE) (remaining - ARM64_PAGE_SIZE)
                (s\<lparr>vm_guard_pages_validated := vm_guard_pages_validated s + 1\<rparr>))
      else case translation_for_address env s va of
        None \<Rightarrow> Some (False, validation_error s)
      | Some (physical, descriptor, level) \<Rightarrow>
          if physical \<noteq> pa then Some (False, validation_error s)
          else if level = 2
          then validate_range env (va + ARM64_L2_BLOCK_SIZE) (pa + ARM64_L2_BLOCK_SIZE) (remaining - ARM64_L2_BLOCK_SIZE)
                 (s\<lparr>vm_blocks_validated := vm_blocks_validated s + 1\<rparr>)
          else validate_range env (va + ARM64_PAGE_SIZE) (pa + ARM64_PAGE_SIZE) (remaining - ARM64_PAGE_SIZE)
                 (s\<lparr>vm_pages_validated := vm_pages_validated s + 1\<rparr>))"

definition validate_region :: "vm_env \<Rightarrow> vm_region \<Rightarrow> vm \<Rightarrow> (bool \<times> vm) option" where
  "validate_region env r s =
     (if \<not> region_is_l2_aligned r then Some (False, validation_error s)
      else validate_range env (vmr_virtual_start r) (vmr_physical_start r) (vmr_size r) s)"

fun validate_regions :: "vm_env \<Rightarrow> vm_region list \<Rightarrow> vm \<Rightarrow> (bool \<times> vm) option" where
  "validate_regions env [] s = Some (True, s)"
| "validate_regions env (r # rs) s =
     (case validate_region env r s of
        None \<Rightarrow> None
      | Some (False, s) \<Rightarrow> Some (False, s)
      | Some (True, s) \<Rightarrow> validate_regions env rs s)"

definition table_misaligned :: "u64 \<Rightarrow> bool" where
  "table_misaligned base \<longleftrightarrow> base AND (0x1000 - 1) \<noteq> 0"

definition validate_tables :: "vm_env \<Rightarrow> vm \<Rightarrow> (bool \<times> vm) option" where
  "validate_tables env s =
     (let s = s\<lparr>vm_blocks_validated := 0, vm_pages_validated := 0, vm_validation_error_count := 0\<rparr>
      in if table_misaligned (vm_l1_base env) then Some (False, validation_error s)
         else if \<exists>slot\<in>set [0..<unat (vm_used_l2_tables s)]. table_misaligned (vm_l2_addr env slot)
         then Some (False, validation_error s)
         else if vm_kernel_l3_mapped s \<and> table_misaligned (vm_l3_base env) then Some (False, validation_error s)
         else case validate_regions env vm_regions s of
           None \<Rightarrow> None
         | Some (False, s) \<Rightarrow> Some (False, s)
         | Some (True, s) \<Rightarrow>
             if vm_blocks_validated s \<noteq> vm_blocks_mapped s then Some (False, validation_error s)
             else if vm_pages_validated s \<noteq> vm_pages_mapped s then Some (False, validation_error s)
             else if vm_guard_pages_validated s \<noteq> vm_guard_pages s then Some (False, validation_error s)
             else Some (True, s))"

definition vm_root_table :: "vm_env \<Rightarrow> u64" where
  "vm_root_table env = vm_l1_base env"

definition vm_init :: "vm_env \<Rightarrow> vm \<Rightarrow> mmu_regs \<Rightarrow> (vm \<times> mmu_regs) option" where
  "vm_init env s regs =
     (let (built, s) = build_tables env s;
          s = s\<lparr>vm_tables_built := built, vm_validated := False, vm_ready := False\<rparr>
      in case (if built then validate_tables env s else Some (False, s)) of
           None \<Rightarrow> None
         | Some (ok, s) \<Rightarrow>
             let s = s\<lparr>vm_validated := ok, vm_ready := ok\<rparr>
             in Some (if ok then (s\<lparr>vm_enable_attempted := True\<rparr>, arm64_mmu_enable (vm_root_table env) regs)
                      else (s, regs)))"

section \<open>Queries\<close>

definition vm_region_count :: nat where
  "vm_region_count = length vm_regions"

definition vm_state :: "vm \<Rightarrow> mmu_regs \<Rightarrow> string" where
  "vm_state s regs = (if \<not> vm_ready s then ''not initialized'' else arm64_mmu_state regs)"

definition vm_mmu_enabled :: "mmu_regs \<Rightarrow> bool" where
  "vm_mmu_enabled regs = arm64_mmu_is_enabled regs"

definition vm_table_state :: "vm \<Rightarrow> string" where
  "vm_table_state s = (if vm_tables_built s then ''built'' else ''error'')"

definition vm_validation_state :: "vm \<Rightarrow> string" where
  "vm_validation_state s = (if vm_validated s then ''ok'' else ''failed'')"

definition vm_table_count :: "vm \<Rightarrow> u64" where
  "vm_table_count s =
     (if \<not> vm_tables_built s then 0 else 1 + vm_used_l2_tables s + (if vm_kernel_l3_mapped s then 1 else 0))"

definition vm_region_name_for_address :: "vm_env \<Rightarrow> heap \<Rightarrow> u64 \<Rightarrow> string" where
  "vm_region_name_for_address env h address =
     (if heap_start h \<noteq> heap_end h \<and> address \<ge> heap_start h \<and> address < heap_end h then ''heap''
      else if scheduler_address_is_stack_guard (vm_kernel env) address then ''stack-guard''
      else if address \<ge> scheduler_stack_region_start (vm_kernel env) \<and>
              address < scheduler_stack_region_end (vm_kernel env)
      then ''scheduler-stacks''
      else case find (\<lambda>r. address \<ge> nr_start r \<and> address < nr_end r) (vm_named_regions env) of
        Some r \<Rightarrow> nr_name r
      | None \<Rightarrow>
          (case find (\<lambda>r. address \<ge> vmr_virtual_start r \<and> address < vmr_virtual_start r + vmr_size r) vm_regions of
             Some r \<Rightarrow> vmr_name r
           | None \<Rightarrow> ''gap''))"

section \<open>The permission audit\<close>

definition next_descriptor_in_range :: "vm_env \<Rightarrow> vm \<Rightarrow> u64 \<Rightarrow> u64 \<Rightarrow> (u64 \<times> u64) option" where
  "next_descriptor_in_range env s address end' =
     (case translation_for_address env s address of
        None \<Rightarrow> None
      | Some (physical, descriptor, level) \<Rightarrow>
          let step = (if level = 2 then ARM64_L2_BLOCK_SIZE else ARM64_PAGE_SIZE);
              address = vm_align_down address step + step
          in Some (if address > end' then end' else address, descriptor))"

text \<open>
  The loops of the two audits, for the tested bit \<open>flag\<close> of a descriptor: the last component tells
  whether the loop left early, with the name it returns.
\<close>

partial_function (option) audit_range ::
    "vm_env \<Rightarrow> vm \<Rightarrow> (u64 \<Rightarrow> bool) \<Rightarrow> u64 \<Rightarrow> u64 \<Rightarrow> bool \<Rightarrow> bool \<Rightarrow> (bool \<times> bool \<times> string option) option" where
  "audit_range env s flag address end' saw_clear saw_set =
     (if \<not> address < end' then Some (saw_clear, saw_set, None)
      else if vm_address_is_guard_page env address
      then audit_range env s flag (address + ARM64_PAGE_SIZE) end' saw_clear saw_set
      else case next_descriptor_in_range env s address end' of
        None \<Rightarrow> Some (saw_clear, saw_set, Some ''unmapped'')
      | Some (address, descriptor) \<Rightarrow>
          let saw_set = (if flag descriptor then True else saw_set);
              saw_clear = (if flag descriptor then saw_clear else True)
          in if saw_clear \<and> saw_set then Some (saw_clear, saw_set, Some ''mixed'')
             else audit_range env s flag address end' saw_clear saw_set)"

definition audit_result :: "string \<Rightarrow> string \<Rightarrow> bool \<times> bool \<times> string option \<Rightarrow> string" where
  "audit_result set_name clear_name r =
     (case r of
        (saw_clear, saw_set, Some name) \<Rightarrow> name
      | (saw_clear, saw_set, None) \<Rightarrow>
          if saw_set then set_name else if \<not> saw_clear then ''unmapped'' else clear_name)"

definition vm_actual_execute_permission_for_range :: "vm_env \<Rightarrow> vm \<Rightarrow> u64 \<Rightarrow> u64 \<Rightarrow> string option" where
  "vm_actual_execute_permission_for_range env s start end' =
     (if start \<ge> end' then Some ''empty''
      else map_option (audit_result ''xn'' ''exec'')
             (audit_range env s arm64_mmu_desc_is_execute_never (vm_align_down start ARM64_PAGE_SIZE) end' False False))"

definition vm_actual_write_permission_for_range :: "vm_env \<Rightarrow> vm \<Rightarrow> u64 \<Rightarrow> u64 \<Rightarrow> string option" where
  "vm_actual_write_permission_for_range env s start end' =
     (if start \<ge> end' then Some ''empty''
      else map_option (audit_result ''ro'' ''rw'')
             (audit_range env s arm64_mmu_desc_is_read_only (vm_align_down start ARM64_PAGE_SIZE) end' False False))"

definition execute_status :: "bool \<Rightarrow> string \<Rightarrow> string" where
  "execute_status want_xn actual =
     (if actual ! 0 = CHR ''e'' \<and> actual ! 1 = CHR ''m'' then ''empty''
      else if actual ! 0 = CHR ''u'' then ''unmapped''
      else if actual ! 0 = CHR ''m'' then ''mixed''
      else if want_xn then (if actual ! 0 = CHR ''x'' then ''enforced'' else ''pending-l3'')
      else if actual ! 0 = CHR ''e'' then ''enforced''
      else ''too-strict'')"

definition write_status :: "bool \<Rightarrow> string \<Rightarrow> string" where
  "write_status want_ro actual =
     (if actual ! 0 = CHR ''e'' then ''empty''
      else if actual ! 0 = CHR ''u'' then ''unmapped''
      else if actual ! 0 = CHR ''m'' then ''mixed''
      else if want_ro then (if actual ! 0 = CHR ''r'' \<and> actual ! 1 = CHR ''o'' then ''enforced'' else ''writable'')
      else if actual ! 0 = CHR ''r'' \<and> actual ! 1 = CHR ''w'' then ''enforced''
      else ''too-strict'')"

definition vm_execute_permission_status :: "vm_env \<Rightarrow> vm \<Rightarrow> vm_permission_goal \<Rightarrow> string option" where
  "vm_execute_permission_status env s goal =
     map_option (execute_status (goal_want_xn goal)) (vm_actual_execute_permission_for_range env s (goal_start goal) (goal_end goal))"

definition vm_write_permission_status :: "vm_env \<Rightarrow> vm \<Rightarrow> vm_permission_goal \<Rightarrow> string option" where
  "vm_write_permission_status env s goal =
     map_option (write_status (goal_want_ro goal)) (vm_actual_write_permission_for_range env s (goal_start goal) (goal_end goal))"

definition vm_stack_guard_state :: "vm_env \<Rightarrow> vm \<Rightarrow> string" where
  "vm_stack_guard_state env s =
     (if \<exists>i\<in>set [0..<unat scheduler_stack_count + 1].
           \<exists>address\<in>set (for_range (scheduler_stack_guard_start (vm_kernel env) (of_nat i))
                          (scheduler_stack_guard_end (vm_kernel env) (of_nat i)) ARM64_PAGE_SIZE).
             translation_for_address env s address \<noteq> None
      then ''mapped'' else ''unmapped'')"

definition range_overlaps_kernel_l3_block :: "vm \<Rightarrow> u64 \<Rightarrow> u64 \<Rightarrow> bool" where
  "range_overlaps_kernel_l3_block s start end' \<longleftrightarrow>
     vm_kernel_l3_mapped s \<and> start < VM_KERNEL_L3_END \<and> end' > VM_KERNEL_L3_BASE"

end
