(* ===== verification/VmProps.thy ===== *)
theory VmProps
  imports Vm
begin

text \<open>
  The kernel's address map as it is after \<open>vm_init\<close>: the tables in closed form, the walk through
  them as an identity map with the permissions of the sections, the success of the validation, what EL1 and EL0
  may read, write and execute, and what the map gives the user address spaces that share it.
\<close>

section \<open>What the linker promises\<close>

text \<open>
  The table arrays are page aligned and apart, and the stack region is page aligned and inside the
  first two megabytes of memory, which are mapped by pages.
\<close>

definition vm_env_ok :: "vm_env \<Rightarrow> bool" where
  "vm_env_ok env \<longleftrightarrow>
     array_ok (vm_l1_base env) 1 \<and> array_ok (vm_l2_base env) 4 \<and> array_ok (vm_l3_base env) 1 \<and>
     arrays_apart (vm_l1_base env) 1 (vm_l2_base env) 4 \<and> arrays_apart (vm_l1_base env) 1 (vm_l3_base env) 1 \<and>
     arrays_apart (vm_l2_base env) 4 (vm_l3_base env) 1 \<and>
     4096 dvd unat (stack_region (vm_kernel env)) \<and> 0x40000000 \<le> unat (stack_region (vm_kernel env)) \<and>
     unat (stack_region (vm_kernel env)) + 17 * 4096 \<le> 0x40200000"

definition guard_index :: "vm_env \<Rightarrow> nat \<Rightarrow> bool" where
  "guard_index env i \<longleftrightarrow> (\<exists>k\<le>8. 0x40000 + i = unat (stack_region (vm_kernel env)) div 4096 + 2 * k)"

lemma guard_page_iff:
  assumes "vm_env_ok env"
  shows "vm_address_is_guard_page env va \<longleftrightarrow>
    (\<exists>k\<le>8. unat va div 4096 = unat (stack_region (vm_kernel env)) div 4096 + 2 * k)"
proof -
  let ?r = "stack_region (vm_kernel env)"
  obtain q where q: "unat ?r = 4096 * q" using assms by (auto simp: vm_env_ok_def)
  have lim: "unat ?r + 17 * 4096 \<le> 0x40200000" using assms by (simp add: vm_env_ok_def)
  have one: "(scheduler_stack_guard_start (vm_kernel env) (of_nat k) \<le> va \<and> va < scheduler_stack_guard_end (vm_kernel env) (of_nat k))
      \<longleftrightarrow> unat va div 4096 = q + 2 * k" if "k < 9" for k
  proof -
    have k: "unat (of_nat k :: u64) = k" using that by (simp add: unat_of_nat take_bit_nat_eq_self)
    have "\<not> (of_nat SCHED_MAX_TASKS :: u64) < of_nat k" using that k by (simp add: word_less_nat_alt)
    then have s: "scheduler_stack_guard_start (vm_kernel env) (of_nat k) = ?r + of_nat k * 8192"
      by (simp add: scheduler_stack_guard_start_def scheduler_stack_region_start_def)
    have m: "unat (of_nat k * 8192 :: u64) = k * 8192" using that k by (simp add: unat_word_ariths)
    have u: "unat (?r + of_nat k * 8192) = 4096 * (q + 2 * k)" using lim that by (subst unat_add_no_wrap) (simp_all add: m q)
    then have "unat (?r + of_nat k * 8192 + 4096) = 4096 * (q + 2 * k) + 4096"
      using lim that q by (subst unat_add_no_wrap) simp_all
    then show ?thesis
      unfolding scheduler_stack_guard_end_def s word_le_nat_alt word_less_nat_alt u by (auto simp: div_nat_eqI)
  qed
  have "vm_address_is_guard_page env va \<longleftrightarrow> (\<exists>k<9. unat va div 4096 = q + 2 * k)"
    unfolding vm_address_is_guard_page_def scheduler_address_is_stack_guard_def set_upt
    using one by (auto simp del: of_nat_Suc)
  moreover have "(\<exists>k<9. P k) \<longleftrightarrow> (\<exists>k\<le>8. P k)" for P :: "nat \<Rightarrow> bool"
    by (metis less_Suc_eq_le eval_nat_numeral(3))
  ultimately show ?thesis by (simp add: q)
qed

section \<open>Attributes\<close>

lemmas attr_defs = VM_NORMAL_XN_MEMORY_ATTR_def VM_NORMAL_RO_XN_MEMORY_ATTR_def VM_NORMAL_RO_EXEC_MEMORY_ATTR_def
  ARM64_NORMAL_MEMORY_ATTR_def ARM64_DEVICE_MEMORY_ATTR_def

lemma attrs_ok:
  "attr_ok VM_NORMAL_XN_MEMORY_ATTR" "attr_ok VM_NORMAL_RO_XN_MEMORY_ATTR" "attr_ok VM_NORMAL_RO_EXEC_MEMORY_ATTR"
  "attr_ok ARM64_DEVICE_MEMORY_ATTR"
  by (simp_all add: attr_ok_def attr_defs push_bit_eq_mult)

lemma page_attributes_ok: "attr_ok (kernel_page_attributes env va)"
  by (simp add: kernel_page_attributes_def attrs_ok)

text \<open>Execute-never and the access bits of a block descriptor are those of its attributes.\<close>

lemma block_desc_bits:
  assumes "attr_ok a" "unat p < 2 ^ 48"
  shows "arm64_mmu_desc_is_l2_block (arm64_mmu_l2_block_desc p a)"
    "arm64_mmu_l2_block_address (arm64_mmu_l2_block_desc p a) = p AND NOT (ARM64_L2_BLOCK_SIZE - 1)"
    "arm64_mmu_l2_block_desc p a AND ARM64_DESC_PXN = a AND ARM64_DESC_PXN"
    "arm64_mmu_l2_block_desc p a AND ARM64_DESC_UXN = a AND ARM64_DESC_UXN"
    "arm64_mmu_l2_block_desc p a AND ARM64_DESC_AP_MASK = a AND ARM64_DESC_AP_MASK"
proof -
  let ?d = "arm64_mmu_l2_block_desc p a"
  have hi: "bit p n \<Longrightarrow> n < 48" for n
  proof -
    assume b: "bit p n"
    have "take_bit 48 p = p" using assms(2) by (simp add: word_unat_eq_iff unsigned_take_bit_eq take_bit_nat_eq_self)
    then have "bit (take_bit 48 p) n" using b by simp
    then show "n < 48" by (simp add: bit_take_bit_iff)
  qed
  have bits: "bit ?d n \<longleftrightarrow> bit p n \<and> 21 \<le> n \<or> bit a n \<or> n = 0" for n
    unfolding arm64_mmu_l2_block_desc_def low12_mask
    by (auto simp: bit_simps not_less dest: bit_imp_le_length)
  have three: "(1 OR 2 :: u64) = mask 2" by (simp add: mask_eq_exp_minus_1)
  show "arm64_mmu_desc_is_l2_block ?d"
    unfolding arm64_mmu_desc_is_l2_block_def three
    by (rule bit_word_eqI) (use attr_ok_bit [OF assms(1)] in \<open>auto simp: bit_simps bits less_2_cases_iff\<close>)
  have bm: "bit (push_bit 21 (mask 27) :: u64) n \<longleftrightarrow> 21 \<le> n \<and> n < 48" for n by (auto simp: bit_simps)
  have nm: "bit (NOT (mask 21) :: u64) n \<longleftrightarrow> 21 \<le> n \<and> n < 64" for n by (auto simp: bit_simps)
  show "arm64_mmu_l2_block_address ?d = p AND NOT (ARM64_L2_BLOCK_SIZE - 1)"
    unfolding arm64_mmu_l2_block_address_def addr_mask_eq low12_mask
    by (rule bit_word_eqI) (use attr_ok_bit [OF assms(1)] hi in \<open>auto simp: bit_and_iff bits bm nm\<close>)
  show "?d AND ARM64_DESC_PXN = a AND ARM64_DESC_PXN" "?d AND ARM64_DESC_UXN = a AND ARM64_DESC_UXN"
    using hi [of 53] hi [of 54] bits [of 53] bits [of 54]
    by (auto intro!: and_mask_cong dest!: bit_PXN [THEN iffD1] bit_UXN [THEN iffD1])
  have m: "(ARM64_DESC_AP_MASK :: u64) = push_bit 6 (mask 2)" by (simp add: mask_eq_exp_minus_1 push_bit_eq_mult)
  show "?d AND ARM64_DESC_AP_MASK = a AND ARM64_DESC_AP_MASK"
    unfolding m by (rule and_mask_cong) (auto simp: bits bit_simps)
qed

lemma execute_never_iff: "arm64_mmu_desc_is_execute_never d \<longleftrightarrow> d AND ARM64_DESC_PXN \<noteq> 0 \<or> d AND ARM64_DESC_UXN \<noteq> 0"
  unfolding arm64_mmu_desc_is_execute_never_def by (simp only: bit.conj_disj_distrib or_eq_0_iff) blast

lemma block_desc_never: "arm64_mmu_desc_is_execute_never a \<Longrightarrow> arm64_mmu_desc_is_execute_never (arm64_mmu_l2_block_desc p a)"
  unfolding arm64_mmu_desc_is_execute_never_def arm64_mmu_l2_block_desc_def
  by (simp only: bit.conj_disj_distrib2 or_eq_0_iff) blast

lemma attrs_never:
  "arm64_mmu_desc_is_execute_never VM_NORMAL_XN_MEMORY_ATTR" "arm64_mmu_desc_is_execute_never ARM64_DEVICE_MEMORY_ATTR"
  "arm64_mmu_desc_is_execute_never VM_NORMAL_RO_XN_MEMORY_ATTR" "\<not> arm64_mmu_desc_is_execute_never VM_NORMAL_RO_EXEC_MEMORY_ATTR"
  by (simp_all add: arm64_mmu_desc_is_execute_never_def attr_defs push_bit_eq_mult)

section \<open>The tables in closed form\<close>

definition fill_blocks :: "u64 \<Rightarrow> nat \<Rightarrow> nat \<Rightarrow> u64 \<Rightarrow> u64 list \<Rightarrow> u64 list" where
  "fill_blocks attributes n i pa t =
     map (\<lambda>j. if i \<le> j \<and> j < i + n
              then arm64_mmu_l2_block_desc (pa + of_nat (j - i) * ARM64_L2_BLOCK_SIZE) attributes else t ! j) [0..<512]"

lemma fill_blocks_0: "length t = 512 \<Longrightarrow> fill_blocks a 0 i pa t = t"
  by (rule nth_equalityI) (auto simp: fill_blocks_def simp del: upt_rec_numeral)

lemma fill_blocks_Suc:
  assumes "length t = 512" "i + Suc n \<le> 512"
  shows "fill_blocks a n (Suc i) (pa + ARM64_L2_BLOCK_SIZE) (t[i := arm64_mmu_l2_block_desc pa a]) = fill_blocks a (Suc n) i pa t"
proof (rule nth_equalityI)
  fix j assume "j < length (fill_blocks a n (Suc i) (pa + ARM64_L2_BLOCK_SIZE) (t[i := arm64_mmu_l2_block_desc pa a]))"
  then have j: "j < 512" by (simp add: fill_blocks_def)
  have "pa + ARM64_L2_BLOCK_SIZE + of_nat (j - Suc i) * ARM64_L2_BLOCK_SIZE = pa + of_nat (j - i) * ARM64_L2_BLOCK_SIZE" if "Suc i \<le> j"
  proof -
    have "of_nat (j - i) = (1 + of_nat (j - Suc i) :: u64)" using that by (simp add: Suc_diff_Suc [symmetric] del: diff_Suc_Suc)
    then show ?thesis by (simp add: algebra_simps)
  qed
  then show "fill_blocks a n (Suc i) (pa + ARM64_L2_BLOCK_SIZE) (t[i := arm64_mmu_l2_block_desc pa a]) ! j = fill_blocks a (Suc n) i pa t ! j"
    using j assms by (auto simp: fill_blocks_def nth_list_update simp del: upt_rec_numeral)
qed (simp add: fill_blocks_def)

lemma map_blocks_found:
  assumes "find_l2_table l1 s = Some slot" "slot < length (vm_l2_tables s)" "length (vm_l2_tables s ! slot) = 512"
    and "arm64_mmu_desc_is_execute_never a"
    and "\<And>k. k < n \<Longrightarrow> arm64_mmu_l1_index (va + of_nat k * ARM64_L2_BLOCK_SIZE) = l1"
    and "\<And>k. k < n \<Longrightarrow> unat (arm64_mmu_l2_index (va + of_nat k * ARM64_L2_BLOCK_SIZE)) = i + k" "i + n \<le> 512"
  shows "map_blocks env a n va pa s =
    (True, s\<lparr>vm_l2_tables := (vm_l2_tables s)[slot := fill_blocks a n i pa (vm_l2_tables s ! slot)],
             vm_xn_blocks := vm_xn_blocks s + of_nat n, vm_blocks_mapped := vm_blocks_mapped s + of_nat n,
             vm_bytes_mapped := vm_bytes_mapped s + of_nat n * ARM64_L2_BLOCK_SIZE\<rparr>)"
  using assms
proof (induction n arbitrary: va pa i s)
  case 0
  then show ?case by (simp add: fill_blocks_0)
next
  case (Suc n)
  have g: "get_l2_table env (arm64_mmu_l1_index va) s = (Some slot, s)"
    using Suc.prems(1) Suc.prems(5) [of 0] by (simp add: get_l2_table_def)
  have i: "unat (arm64_mmu_l2_index va) = i" using Suc.prems(6) [of 0] by simp
  have shift: "va + ARM64_L2_BLOCK_SIZE + of_nat k * ARM64_L2_BLOCK_SIZE = va + of_nat (Suc k) * ARM64_L2_BLOCK_SIZE" for k
    by (simp add: algebra_simps)
  let ?s = "s\<lparr>vm_l2_tables := (vm_l2_tables s)[slot := (vm_l2_tables s ! slot)[i := arm64_mmu_l2_block_desc pa a]],
    vm_xn_blocks := vm_xn_blocks s + 1, vm_blocks_mapped := vm_blocks_mapped s + 1,
    vm_bytes_mapped := vm_bytes_mapped s + ARM64_L2_BLOCK_SIZE\<rparr>"
  have "map_blocks env a (Suc n) va pa s = map_blocks env a n (va + ARM64_L2_BLOCK_SIZE) (pa + ARM64_L2_BLOCK_SIZE) ?s"
    using block_desc_never [OF Suc.prems(4)] by (simp add: g i Let_def)
  also have "\<dots> = (True, ?s\<lparr>vm_l2_tables := (vm_l2_tables ?s)[slot := fill_blocks a n (Suc i) (pa + ARM64_L2_BLOCK_SIZE) (vm_l2_tables ?s ! slot)],
      vm_xn_blocks := vm_xn_blocks ?s + of_nat n, vm_blocks_mapped := vm_blocks_mapped ?s + of_nat n,
      vm_bytes_mapped := vm_bytes_mapped ?s + of_nat n * ARM64_L2_BLOCK_SIZE\<rparr>)"
  proof (rule Suc.IH)
    show "find_l2_table l1 ?s = Some slot" using Suc.prems(1) by (simp add: find_l2_table_def)
    show "slot < length (vm_l2_tables ?s)" "length (vm_l2_tables ?s ! slot) = 512" "Suc i + n \<le> 512"
      "arm64_mmu_desc_is_execute_never a"
      using Suc.prems by simp_all
    fix k assume "k < n"
    then show "arm64_mmu_l1_index (va + ARM64_L2_BLOCK_SIZE + of_nat k * ARM64_L2_BLOCK_SIZE) = l1"
      "unat (arm64_mmu_l2_index (va + ARM64_L2_BLOCK_SIZE + of_nat k * ARM64_L2_BLOCK_SIZE)) = Suc i + k"
      using Suc.prems(5) [of "Suc k"] Suc.prems(6) [of "Suc k"] unfolding shift by simp_all
  qed
  finally show ?case
    using Suc.prems(2,3,7) fill_blocks_Suc [of "vm_l2_tables s ! slot" i n a pa]
    by (simp add: algebra_simps)
qed

text \<open>The counters of the page loop count the pages of each kind.\<close>

definition page_address :: "nat \<Rightarrow> u64" where
  "page_address i = VM_KERNEL_L3_BASE + of_nat i * ARM64_PAGE_SIZE"

definition page_guarded :: "vm_env \<Rightarrow> nat \<Rightarrow> bool" where
  "page_guarded env i = vm_address_is_guard_page env (page_address i)"

definition kernel_page :: "vm_env \<Rightarrow> nat \<Rightarrow> u64" where
  "kernel_page env i =
     (if page_guarded env i then 0 else arm64_mmu_l3_page_desc (page_address i) (kernel_page_attributes env (page_address i)))"

definition pages_where :: "(nat \<Rightarrow> bool) \<Rightarrow> nat \<Rightarrow> u64" where
  "pages_where P n = of_nat (length (filter P [0..<n]))"

lemma pages_where_Suc: "pages_where P (Suc n) = pages_where P n + (if P n then 1 else 0)"
  by (simp add: pages_where_def)

definition page_never :: "vm_env \<Rightarrow> nat \<Rightarrow> bool" where
  "page_never env i \<longleftrightarrow> \<not> page_guarded env i \<and> arm64_mmu_desc_is_execute_never (kernel_page env i)"

definition page_exec :: "vm_env \<Rightarrow> nat \<Rightarrow> bool" where
  "page_exec env i \<longleftrightarrow> \<not> page_guarded env i \<and> \<not> arm64_mmu_desc_is_execute_never (kernel_page env i)"

definition with_pages :: "vm_env \<Rightarrow> nat \<Rightarrow> vm \<Rightarrow> vm" where
  "with_pages env n s =
     s\<lparr>vm_kernel_l3_table := map (\<lambda>i. if i < n then kernel_page env i else 0) [0..<512],
       vm_guard_pages := vm_guard_pages s + pages_where (page_guarded env) n,
       vm_xn_pages := vm_xn_pages s + pages_where (page_never env) n,
       vm_exec_pages := vm_exec_pages s + pages_where (page_exec env) n,
       vm_pages_mapped := vm_pages_mapped s + pages_where (\<lambda>i. \<not> page_guarded env i) n,
       vm_bytes_mapped := vm_bytes_mapped s + pages_where (\<lambda>i. \<not> page_guarded env i) n * ARM64_PAGE_SIZE\<rparr>"

lemma with_pages_Suc:
  assumes "n < 512"
  shows "map_kernel_page env n (with_pages env n s) = with_pages env (Suc n) s"
proof -
  define pt where "pt n = map (\<lambda>i. if i < n then kernel_page env i else 0) [0..<512]" for n
  have "(pt n)[n := kernel_page env n] = pt (Suc n)"
    by (rule nth_equalityI) (auto simp: pt_def nth_list_update less_Suc_eq simp del: upt_rec_numeral)
  moreover have "pt n = pt (Suc n)" if "page_guarded env n"
    using that by (auto simp: pt_def less_Suc_eq kernel_page_def simp del: upt_rec_numeral)
  ultimately show ?thesis
    unfolding map_kernel_page_def page_address_def [symmetric] page_guarded_def [symmetric] Let_def
      with_pages_def pt_def [symmetric] pages_where_Suc page_never_def page_exec_def
    by (cases "page_guarded env n") (simp_all add: kernel_page_def algebra_simps)
qed

lemma map_pages:
  "n \<le> 512 \<Longrightarrow> vm_kernel_l3_table s = clear_table \<Longrightarrow> fold (map_kernel_page env) [0..<n] s = with_pages env n s"
proof (induction n)
  case 0
  have "map (\<lambda>i. if i < 0 then kernel_page env i else 0) [0..<512] = clear_table"
    by (rule nth_equalityI) (auto simp: clear_table_def simp del: upt_rec_numeral)
  then show ?case using 0 by (simp add: with_pages_def pages_where_def)
next
  case (Suc n)
  then show ?case by (simp add: with_pages_Suc)
qed

abbreviation free_l2_slot :: vm_l2_table_slot where
  "free_l2_slot \<equiv> \<lparr>slot_l1_index = 0, slot_used = False\<rparr>"

abbreviation used_l2_slot :: "u64 \<Rightarrow> vm_l2_table_slot" where
  "used_l2_slot i \<equiv> \<lparr>slot_l1_index = i, slot_used = True\<rparr>"

definition device_l2 :: "u64 list" where
  "device_l2 = fill_blocks ARM64_DEVICE_MEMORY_ATTR 17 64 0x08000000 clear_table"

definition ram_l2 :: "u64 list" where
  "ram_l2 = fill_blocks VM_NORMAL_XN_MEMORY_ATTR 64 0 0x40000000 clear_table"

definition with_device :: "vm_env \<Rightarrow> vm \<Rightarrow> vm" where
  "with_device env s = (reset_tables s)\<lparr>
     vm_l1_table := clear_table[0 := arm64_mmu_table_desc (vm_l2_addr env 0)],
     vm_l2_slots := [used_l2_slot 0, free_l2_slot, free_l2_slot, free_l2_slot], vm_used_l2_tables := 1,
     vm_l2_tables := [device_l2, clear_table, clear_table, clear_table],
     vm_xn_blocks := 17, vm_blocks_mapped := 17, vm_bytes_mapped := 17 * ARM64_L2_BLOCK_SIZE\<rparr>"

definition with_ram :: "vm_env \<Rightarrow> vm \<Rightarrow> vm" where
  "with_ram env s = (reset_tables s)\<lparr>
     vm_l1_table := clear_table[0 := arm64_mmu_table_desc (vm_l2_addr env 0), 1 := arm64_mmu_table_desc (vm_l2_addr env 1)],
     vm_l2_slots := [used_l2_slot 0, used_l2_slot 1, free_l2_slot, free_l2_slot], vm_used_l2_tables := 2,
     vm_l2_tables := [device_l2, ram_l2, clear_table, clear_table],
     vm_xn_blocks := 81, vm_blocks_mapped := 81, vm_bytes_mapped := 81 * ARM64_L2_BLOCK_SIZE\<rparr>"

definition with_kernel :: "vm_env \<Rightarrow> vm \<Rightarrow> vm" where
  "with_kernel env s = (with_pages env 512 (with_ram env s))\<lparr>
     vm_l2_tables := [device_l2, ram_l2[0 := arm64_mmu_table_desc (vm_l3_base env)], clear_table, clear_table],
     vm_xn_blocks := 80, vm_blocks_mapped := 80,
     vm_bytes_mapped := 80 * ARM64_L2_BLOCK_SIZE + pages_where (\<lambda>i. \<not> page_guarded env i) 512 * ARM64_PAGE_SIZE,
     vm_kernel_l3_mapped := True\<rparr>"

lemma length_clear_table [simp]: "length clear_table = 512"
  by (simp add: clear_table_def)

lemma length_fill_blocks [simp]: "length (fill_blocks a n i pa t) = 512"
  by (simp add: fill_blocks_def)

lemma replicate_four: "replicate 4 x = [x, x, x, x]"
  by (simp add: numeral_eq_Suc)

lemma block_indices:
  assumes "unat va = b * 2 ^ 21" "b + k < 2048"
  shows "unat (arm64_mmu_l1_index (va + of_nat k * ARM64_L2_BLOCK_SIZE)) = (b + k) div 512"
    "unat (arm64_mmu_l2_index (va + of_nat k * ARM64_L2_BLOCK_SIZE)) = (b + k) mod 512"
proof -
  have "unat (of_nat k * ARM64_L2_BLOCK_SIZE) = k * 2 ^ 21"
    using assms(2) by (simp add: unat_word_ariths unat_of_nat take_bit_nat_eq_self)
  then have sum: "unat va + unat (of_nat k * ARM64_L2_BLOCK_SIZE) = (b + k) * 2 ^ 21"
    by (simp only: assms(1) add_mult_distrib)
  have u: "unat (va + of_nat k * ARM64_L2_BLOCK_SIZE) = (b + k) * 2 ^ 21"
    unfolding sum [symmetric] by (rule unat_add_no_wrap) (use assms(2) in \<open>simp only: sum\<close>, simp)
  define c where "c = b + k"
  have "c * 2 ^ 21 div 2 ^ 30 = c * 2 ^ 21 div 2 ^ 21 div 512" unfolding div_mult2_eq [symmetric] by simp
  then have "c * 2 ^ 21 div 2 ^ 30 = c div 512" by simp
  moreover have "c div 512 < 512" using assms(2) by (simp add: c_def)
  ultimately show "unat (arm64_mmu_l1_index (va + of_nat k * ARM64_L2_BLOCK_SIZE)) = (b + k) div 512"
    "unat (arm64_mmu_l2_index (va + of_nat k * ARM64_L2_BLOCK_SIZE)) = (b + k) mod 512"
    unfolding unat_index u c_def [symmetric] by simp_all
qed

lemma map_blocks_first:
  assumes "get_l2_table env (arm64_mmu_l1_index va) s = (Some slot, s')" "find_l2_table (arm64_mmu_l1_index va) s' = Some slot"
  shows "map_blocks env a (Suc n) va pa s = map_blocks env a (Suc n) va pa s'"
  using assms by (simp add: get_l2_table_def [of env _ s'] del: Let_def)

lemma map_device: "map_region env (vm_regions ! 0) (reset_tables s) = (True, with_device env s)"
proof -
  let ?s = "(reset_tables s)\<lparr>vm_used_l2_tables := 1, vm_l2_slots := [used_l2_slot 0, free_l2_slot, free_l2_slot, free_l2_slot],
    vm_l1_table := clear_table[0 := arm64_mmu_table_desc (vm_l2_addr env 0)]\<rparr>"
  have i: "arm64_mmu_l1_index 0x08000000 = 0" by (simp add: arm64_mmu_l1_index_def)
  have g: "get_l2_table env 0 (reset_tables s) = (Some 0, ?s)"
    by (simp add: get_l2_table_def find_l2_table_def reset_tables_def replicate_four Let_def)
  have f: "find_l2_table 0 ?s = Some 0" by (simp add: find_l2_table_def)
  have "map_region env (vm_regions ! 0) (reset_tables s) = map_blocks env ARM64_DEVICE_MEMORY_ATTR (Suc 16) 0x08000000 0x08000000 (reset_tables s)"
    by (simp add: map_region_def vm_regions_def region_is_l2_aligned_def)
  also have "\<dots> = map_blocks env ARM64_DEVICE_MEMORY_ATTR (Suc 16) 0x08000000 0x08000000 ?s"
    by (rule map_blocks_first) (use g f i in simp_all)
  also have "\<dots> = (True, with_device env s)"
    by (subst map_blocks_found [OF f, where i = 64])
      (use block_indices [of "0x08000000" 64] in \<open>simp_all add: attrs_never word_unat_eq_iff with_device_def device_l2_def
         reset_tables_def replicate_four\<close>)
  finally show ?thesis .
qed

lemma map_ram: "map_region env (vm_regions ! 1) (with_device env s) = (True, with_ram env s)"
proof -
  let ?s = "(with_device env s)\<lparr>vm_used_l2_tables := 2, vm_l2_slots := [used_l2_slot 0, used_l2_slot 1, free_l2_slot, free_l2_slot],
    vm_l1_table := clear_table[0 := arm64_mmu_table_desc (vm_l2_addr env 0), 1 := arm64_mmu_table_desc (vm_l2_addr env 1)]\<rparr>"
  have i: "arm64_mmu_l1_index 0x40000000 = 1" by (simp add: arm64_mmu_l1_index_def)
  have g: "get_l2_table env 1 (with_device env s) = (Some 1, ?s)"
    by (simp add: get_l2_table_def find_l2_table_def with_device_def Let_def word_le_nat_alt)
  have f: "find_l2_table 1 ?s = Some 1" by (simp add: find_l2_table_def)
  have "map_region env (vm_regions ! 1) (with_device env s) = map_blocks env VM_NORMAL_XN_MEMORY_ATTR (Suc 63) 0x40000000 0x40000000 (with_device env s)"
    by (simp add: map_region_def vm_regions_def region_is_l2_aligned_def)
  also have "\<dots> = map_blocks env VM_NORMAL_XN_MEMORY_ATTR (Suc 63) 0x40000000 0x40000000 ?s"
    by (rule map_blocks_first) (use g f i in simp_all)
  also have "\<dots> = (True, with_ram env s)"
    by (subst map_blocks_found [OF f, where i = 0])
      (use block_indices [of "0x40000000" 512] in \<open>simp_all add: attrs_never word_unat_eq_iff with_device_def with_ram_def ram_l2_def\<close>)
  finally show ?thesis .
qed

lemma ram_l2_first: "arm64_mmu_desc_is_l2_block (ram_l2 ! 0)" "arm64_mmu_desc_is_execute_never (ram_l2 ! 0)"
  by (simp_all add: ram_l2_def fill_blocks_def block_desc_bits block_desc_never attrs_ok attrs_never del: upt_rec_numeral)

lemma build_tables_eq: "build_tables env s = (True, with_kernel env s)"
proof -
  have i: "arm64_mmu_l1_index 0x40000000 = 1" "arm64_mmu_l2_index 0x40000000 = 0"
    by (simp_all add: arm64_mmu_l1_index_def arm64_mmu_l2_index_def)
  have g: "get_l2_table env 1 (with_ram env s) = (Some 1, with_ram env s)"
    by (simp add: get_l2_table_def find_l2_table_def with_ram_def)
  have c: "(with_ram env s)\<lparr>vm_kernel_l3_table := clear_table\<rparr> = with_ram env s"
    by (simp add: with_ram_def reset_tables_def)
  have p: "fold (map_kernel_page env) [0..<512] (with_ram env s) = with_pages env 512 (with_ram env s)"
    by (rule map_pages) (simp_all add: with_ram_def reset_tables_def)
  have t: "vm_l2_tables (with_pages env 512 (with_ram env s)) = [device_l2, ram_l2, clear_table, clear_table]"
    by (simp add: with_pages_def with_ram_def del: upt_rec_numeral)
  have "map_kernel_l3_block env (with_ram env s) = (True, with_kernel env s)"
    unfolding map_kernel_l3_block_def i g Let_def prod.case option.case c p t
    using ram_l2_first
    by (simp add: with_kernel_def with_pages_def with_ram_def algebra_simps del: upt_rec_numeral)
  moreover have "map_regions env vm_regions (reset_tables s) = (True, with_ram env s)"
    using map_device [of env s] map_ram [of env s] by (simp add: vm_regions_def)
  ultimately show ?thesis by (simp add: build_tables_def)
qed

section \<open>The walk through the tables\<close>

definition map_installed :: "vm_env \<Rightarrow> vm \<Rightarrow> bool" where
  "map_installed env s \<longleftrightarrow>
     vm_l1_table s = clear_table[0 := arm64_mmu_table_desc (vm_l2_addr env 0), 1 := arm64_mmu_table_desc (vm_l2_addr env 1)] \<and>
     vm_l2_tables s = [device_l2, ram_l2[0 := arm64_mmu_table_desc (vm_l3_base env)], clear_table, clear_table] \<and>
     vm_kernel_l3_table s = map (kernel_page env) [0..<512] \<and>
     vm_l2_slots s = [used_l2_slot 0, used_l2_slot 1, free_l2_slot, free_l2_slot] \<and> vm_used_l2_tables s = 2"

text \<open>The map the code intends: the identity on devices and memory, without the guards.\<close>

definition kernel_map :: "vm_env \<Rightarrow> u64 \<Rightarrow> (u64 \<times> u64 \<times> nat) option" where
  "kernel_map env va =
     (if 0x08000000 \<le> va \<and> va < VM_DEVICE_MMIO_END
      then Some (va, arm64_mmu_l2_block_desc va ARM64_DEVICE_MEMORY_ATTR, 2)
      else if VM_KERNEL_L3_BASE \<le> va \<and> va < VM_KERNEL_L3_END
      then (if vm_address_is_guard_page env va then None
            else Some (va, arm64_mmu_l3_page_desc va (kernel_page_attributes env va), 3))
      else if VM_KERNEL_L3_END \<le> va \<and> va < 0x48000000
      then Some (va, arm64_mmu_l2_block_desc va VM_NORMAL_XN_MEMORY_ATTR, 2)
      else None)"

lemma unat_block: "unat (va AND NOT (ARM64_L2_BLOCK_SIZE - 1) :: u64) = unat va div 2 ^ 21 * 2 ^ 21"
  "unat (va AND (ARM64_L2_BLOCK_SIZE - 1) :: u64) = unat va mod 2 ^ 21"
  "unat (va AND NOT (ARM64_PAGE_SIZE - 1) :: u64) = unat va div 2 ^ 12 * 2 ^ 12"
  "unat (va AND (ARM64_PAGE_SIZE - 1) :: u64) = unat va mod 2 ^ 12"
  unfolding low12_mask by (rule unat_and_not_mask unat_and_mask)+

lemma add_eqI: "unat (a :: u64) + unat b = unat c \<Longrightarrow> a + b = c"
proof -
  assume e: "unat a + unat b = unat c"
  have "unat c < 2 ^ LENGTH(64)" by (rule unsigned_less)
  then show "a + b = c" using e by (subst word_unat_eq_iff, subst unat_add_no_wrap) simp_all
qed

lemma split_add:
  "(va AND NOT (ARM64_L2_BLOCK_SIZE - 1)) + (va AND (ARM64_L2_BLOCK_SIZE - 1)) = (va :: u64)"
  "(va AND NOT (ARM64_PAGE_SIZE - 1)) + (va AND (ARM64_PAGE_SIZE - 1)) = (va :: u64)"
  by (rule add_eqI; simp only: unat_block div_mult_mod_eq)+

lemma block_desc_same:
  assumes "unat va div 2 ^ 21 = unat vb div 2 ^ 21"
  shows "arm64_mmu_l2_block_desc va a = arm64_mmu_l2_block_desc vb a"
proof -
  have "va AND NOT (ARM64_L2_BLOCK_SIZE - 1) = vb AND NOT (ARM64_L2_BLOCK_SIZE - 1)"
    by (subst word_unat_eq_iff) (simp only: unat_block assms)
  then show ?thesis by (simp only: arm64_mmu_l2_block_desc_def)
qed

lemma page_desc_same:
  assumes "unat va div 2 ^ 12 = unat vb div 2 ^ 12"
  shows "arm64_mmu_l3_page_desc va a = arm64_mmu_l3_page_desc vb a"
proof -
  have "va AND NOT (ARM64_PAGE_SIZE - 1) = vb AND NOT (ARM64_PAGE_SIZE - 1)"
    by (subst word_unat_eq_iff) (simp only: unat_block assms)
  then show ?thesis by (simp only: arm64_mmu_l3_page_desc_def)
qed

lemma in_pages_same:
  assumes "unat va div 2 ^ 12 = unat vb div 2 ^ 12" "2 ^ 12 dvd unat a" "2 ^ 12 dvd unat b"
  shows "address_in_range va a b = address_in_range vb a b"
proof -
  have le: "a \<le> v \<longleftrightarrow> unat a div 2 ^ 12 \<le> unat v div 2 ^ 12" and less: "v < b \<longleftrightarrow> unat v div 2 ^ 12 < unat b div 2 ^ 12" for v :: u64
    using assms(2,3) unfolding word_le_nat_alt word_less_nat_alt
    by (auto elim!: dvdE simp: less_eq_div_iff_mult_less_eq div_less_iff_less_mult mult.commute)
  show ?thesis unfolding address_in_range_def le less assms(1) ..
qed

lemma aligned_bounds: "2 ^ 12 dvd unat (vm_align_down v ARM64_PAGE_SIZE)" "2 ^ 12 dvd unat (vm_align_up v ARM64_PAGE_SIZE)"
  unfolding vm_align_down_def vm_align_up_def unat_block by simp_all

lemma page_attributes_same:
  assumes "unat va div 2 ^ 12 = unat vb div 2 ^ 12"
  shows "kernel_page_attributes env va = kernel_page_attributes env vb"
  unfolding kernel_page_attributes_def address_in_kernel_text_def address_in_kernel_rodata_def
    in_pages_same [OF assms aligned_bounds] ..

lemma guard_same:
  assumes "vm_env_ok env" "unat va div 2 ^ 12 = unat vb div 2 ^ 12"
  shows "vm_address_is_guard_page env va = vm_address_is_guard_page env vb"
  using assms(2) by (simp add: guard_page_iff [OF assms(1)])

lemma page_address_page:
  assumes "i < 512"
  shows "unat (page_address i) = (0x40000 + i) * 2 ^ 12"
proof -
  have "unat (of_nat i * ARM64_PAGE_SIZE) = i * 4096"
    using assms by (simp add: unat_word_ariths unat_of_nat take_bit_nat_eq_self)
  then show ?thesis unfolding page_address_def using assms by (subst unat_add_no_wrap) simp_all
qed

lemma zero_table: "\<not> arm64_mmu_desc_is_table 0" "\<not> arm64_mmu_desc_is_l2_block 0"
  by (simp_all add: arm64_mmu_desc_is_table_def arm64_mmu_desc_is_l2_block_def)

lemma device_l2_nth:
  assumes "unat va div 2 ^ 21 = j" "j < 512"
  shows "device_l2 ! j = (if 64 \<le> j \<and> j < 81 then arm64_mmu_l2_block_desc va ARM64_DEVICE_MEMORY_ATTR else 0)"
proof -
  have "arm64_mmu_l2_block_desc (0x08000000 + of_nat (j - 64) * ARM64_L2_BLOCK_SIZE) ARM64_DEVICE_MEMORY_ATTR =
      arm64_mmu_l2_block_desc va ARM64_DEVICE_MEMORY_ATTR" if "64 \<le> j" "j < 81"
  proof (rule block_desc_same)
    have u: "unat (of_nat (j - 64) * ARM64_L2_BLOCK_SIZE) = (j - 64) * 2 ^ 21"
      using assms(2) by (simp add: unat_word_ariths unat_of_nat take_bit_nat_eq_self)
    have "unat (0x08000000 + of_nat (j - 64) * ARM64_L2_BLOCK_SIZE) = j * 2 ^ 21"
      using that by (subst unat_add_no_wrap; subst u) simp_all
    then show "unat (0x08000000 + of_nat (j - 64) * ARM64_L2_BLOCK_SIZE) div 2 ^ 21 = unat va div 2 ^ 21" using assms(1) by simp
  qed
  then show ?thesis using assms(2) by (simp add: device_l2_def fill_blocks_def clear_table_def del: upt_rec_numeral)
qed

lemma ram_l2_nth:
  assumes "unat va div 2 ^ 21 = 512 + j" "j < 512"
  shows "ram_l2 ! j = (if j < 64 then arm64_mmu_l2_block_desc va VM_NORMAL_XN_MEMORY_ATTR else 0)"
proof -
  have "arm64_mmu_l2_block_desc (0x40000000 + of_nat j * ARM64_L2_BLOCK_SIZE) VM_NORMAL_XN_MEMORY_ATTR =
      arm64_mmu_l2_block_desc va VM_NORMAL_XN_MEMORY_ATTR"
  proof (rule block_desc_same)
    have u: "unat (of_nat j * ARM64_L2_BLOCK_SIZE) = j * 2 ^ 21"
      using assms(2) by (simp add: unat_word_ariths unat_of_nat take_bit_nat_eq_self)
    have "unat (0x40000000 + of_nat j * ARM64_L2_BLOCK_SIZE) = (512 + j) * 2 ^ 21"
      using assms(2) by (subst unat_add_no_wrap; subst u) simp_all
    then show "unat (0x40000000 + of_nat j * ARM64_L2_BLOCK_SIZE) div 2 ^ 21 = unat va div 2 ^ 21" using assms(1) by simp
  qed
  then show ?thesis using assms(2) by (simp add: ram_l2_def fill_blocks_def clear_table_def del: upt_rec_numeral)
qed

text \<open>The ranges of the map, in blocks of two megabytes.\<close>

lemma kernel_map_blocks:
  defines "block va \<equiv> unat va div 2 ^ 21"
  shows "kernel_map env va =
    (if 64 \<le> block va \<and> block va < 81 then Some (va, arm64_mmu_l2_block_desc va ARM64_DEVICE_MEMORY_ATTR, 2)
     else if block va = 512
     then (if vm_address_is_guard_page env va then None
           else Some (va, arm64_mmu_l3_page_desc va (kernel_page_attributes env va), 3))
     else if 512 < block va \<and> block va < 576 then Some (va, arm64_mmu_l2_block_desc va VM_NORMAL_XN_MEMORY_ATTR, 2)
     else None)"
proof -
  have ge: "c \<le> va \<longleftrightarrow> k \<le> block va" and lt: "va < c \<longleftrightarrow> block va < k" if "unat c = k * 2 ^ 21" for c k
    using that unfolding word_le_nat_alt word_less_nat_alt block_def
    by (simp_all add: less_eq_div_iff_mult_less_eq div_less_iff_less_mult)
  have "(0x08000000 \<le> va \<and> va < VM_DEVICE_MMIO_END) \<longleftrightarrow> 64 \<le> block va \<and> block va < 81"
    using ge [of "0x08000000" 64] lt [of VM_DEVICE_MMIO_END 81] by simp
  moreover have "(VM_KERNEL_L3_BASE \<le> va \<and> va < VM_KERNEL_L3_END) \<longleftrightarrow> block va = 512"
    using ge [of VM_KERNEL_L3_BASE 512] lt [of VM_KERNEL_L3_END 513] by auto
  moreover have "(VM_KERNEL_L3_END \<le> va \<and> va < 0x48000000) \<longleftrightarrow> 512 < block va \<and> block va < 576"
    using ge [of VM_KERNEL_L3_END 513] lt [of "0x48000000" 576] by auto
  ultimately show ?thesis unfolding kernel_map_def by simp
qed

lemma vm_read_l3:
  assumes "vm_env_ok env" "unat i < 512"
  shows "vm_read env s (vm_l3_base env + 8 * i) = vm_kernel_l3_table s ! unat i"
    "vm_read env s (vm_l1_base env + 8 * i) = vm_l1_table s ! unat i"
    "k < 4 \<Longrightarrow> vm_read env s (vm_l2_addr env k + 8 * i) = vm_l2_tables s ! k ! unat i"
proof -
  have e: "array_ok (vm_l1_base env) 1" "array_ok (vm_l2_base env) 4" "array_ok (vm_l3_base env) 1"
    and apart: "arrays_apart (vm_l1_base env) 1 (vm_l2_base env) 4" "arrays_apart (vm_l1_base env) 1 (vm_l3_base env) 1"
      "arrays_apart (vm_l2_base env) 4 (vm_l3_base env) 1"
    using assms(1) by (simp_all add: vm_env_ok_def)
  have zero: "b + of_nat (0 * 4096) = b" for b :: u64 by simp
  note l1 = array_entry [OF e(1) zero_less_one assms(2), unfolded zero]
  note l3 = array_entry [OF e(3) zero_less_one assms(2), unfolded zero]
  show "vm_read env s (vm_l1_base env + 8 * i) = vm_l1_table s ! unat i"
    unfolding vm_read_def using l1 by simp
  show "vm_read env s (vm_l3_base env + 8 * i) = vm_kernel_l3_table s ! unat i"
    unfolding vm_read_def using l3 in_array_apart [OF apart(2) l3(1)] in_array_apart [OF apart(3) l3(1)] by simp
  assume "k < 4"
  from array_entry [OF e(2) this assms(2)] in_array_apart [OF apart(1)]
  show "vm_read env s (vm_l2_addr env k + 8 * i) = vm_l2_tables s ! k ! unat i"
    by (simp only: vm_read_def vm_l2_addr_def if_True if_False)
qed

text \<open>The walk on the three parts: an unmapped gigabyte, the device table and the memory table.\<close>

lemma translation_l2:
  assumes "map_installed env s" "unat va div 2 ^ 30 = k" "k < 2"
  shows "translation_for_address env s va =
    (let d = vm_l2_tables s ! k ! unat (arm64_mmu_l2_index va)
     in if arm64_mmu_desc_is_l2_block d then Some (arm64_mmu_l2_block_address d + (va AND (ARM64_L2_BLOCK_SIZE - 1)), d, 2)
        else if \<not> arm64_mmu_desc_is_table d then None
        else let e = vm_read env s (arm64_mmu_desc_address d + 8 * arm64_mmu_l3_index va)
             in if \<not> arm64_mmu_desc_is_l3_page e then None
                else Some (arm64_mmu_l3_page_address e + (va AND (ARM64_PAGE_SIZE - 1)), e, 3))"
proof -
  have l1: "unat (arm64_mmu_l1_index va) = k" using assms(2,3) by (simp add: unat_index)
  then have i: "arm64_mmu_l1_index va = of_nat k" by (simp add: l1 [symmetric])
  have t: "arm64_mmu_desc_is_table (arm64_mmu_table_desc p)" for p
  proof -
    have "arm64_mmu_table_desc p AND mask 2 = mask 2"
      unfolding arm64_mmu_table_desc_def by (rule bit_word_eqI) (auto simp: bit_simps less_2_cases_iff)
    then show ?thesis by (simp add: arm64_mmu_desc_is_table_def mask_eq_exp_minus_1)
  qed
  have "k = 0 \<or> k = 1" using assms(3) by auto
  then have "arm64_mmu_desc_is_table (vm_l1_table s ! k)" "find_l2_table (of_nat k) s = Some k"
    using assms(1) t by (auto simp: map_installed_def find_l2_table_def)
  then show ?thesis unfolding translation_for_address_def Let_def l1 unfolding i by simp
qed

lemma l2_index_block: "unat va div 2 ^ 30 = k \<Longrightarrow> unat va div 2 ^ 21 = 512 * k + unat (arm64_mmu_l2_index va)"
proof -
  assume k: "unat va div 2 ^ 30 = k"
  have "unat va div 2 ^ 30 = unat va div 2 ^ 21 div 512" unfolding div_mult2_eq [symmetric] by simp
  then show ?thesis using k mult_div_mod_eq [of 512 "unat va div 2 ^ 21"] by (simp only: unat_index)
qed

lemma l3_index_page: "unat va div 2 ^ 21 = 512 \<Longrightarrow> unat va div 2 ^ 12 = 0x40000 + unat (arm64_mmu_l3_index va)"
proof -
  assume k: "unat va div 2 ^ 21 = 512"
  have "unat va div 2 ^ 21 = unat va div 2 ^ 12 div 512" unfolding div_mult2_eq [symmetric] by simp
  then show ?thesis using k mult_div_mod_eq [of 512 "unat va div 2 ^ 12"] by (simp only: unat_index)
qed

lemma block_translation:
  assumes "attr_ok a" "unat va < 2 ^ 48"
  shows "arm64_mmu_desc_is_l2_block (arm64_mmu_l2_block_desc va a)"
    "arm64_mmu_l2_block_address (arm64_mmu_l2_block_desc va a) + (va AND (ARM64_L2_BLOCK_SIZE - 1)) = va"
  using block_desc_bits(1,2) [OF assms] by (simp_all only: split_add)

lemma frame_below:
  assumes "unat va < 2 ^ 48"
  shows "frame_ok (va AND NOT (ARM64_PAGE_SIZE - 1))"
proof (rule frame_okI)
  show "4096 dvd unat (va AND NOT (ARM64_PAGE_SIZE - 1))" unfolding unat_block by simp
  have "unat va div 2 ^ 12 * 2 ^ 12 \<le> unat va" by simp
  then show "unat (va AND NOT (ARM64_PAGE_SIZE - 1)) < 2 ^ 48" using assms unfolding unat_block by linarith
qed

lemma page_desc_down: "arm64_mmu_l3_page_desc va a = arm64_mmu_l3_page_desc (va AND NOT (ARM64_PAGE_SIZE - 1)) a"
  by (simp only: arm64_mmu_l3_page_desc_def and.assoc and.idem)

lemma page_translation:
  assumes "attr_ok a" "unat va < 2 ^ 48"
  shows "arm64_mmu_desc_is_l3_page (arm64_mmu_l3_page_desc va a)"
    "arm64_mmu_l3_page_address (arm64_mmu_l3_page_desc va a) + (va AND (ARM64_PAGE_SIZE - 1)) = va"
  using l3_page_roundtrip(1,2) [OF frame_below [OF assms(2)] assms(1)] unfolding page_desc_down [of va]
  by (simp_all only: split_add)

lemma kernel_page_nth:
  assumes "vm_env_ok env" "unat va div 2 ^ 12 = 0x40000 + i" "i < 512"
  shows "kernel_page env i =
    (if vm_address_is_guard_page env va then 0 else arm64_mmu_l3_page_desc va (kernel_page_attributes env va))"
proof -
  have e: "unat (page_address i) div 2 ^ 12 = unat va div 2 ^ 12"
    unfolding page_address_page [OF assms(3)] assms(2) by simp
  show ?thesis
    unfolding kernel_page_def page_guarded_def guard_same [OF assms(1) e] page_desc_same [OF e] page_attributes_same [OF e] ..
qed

lemma translation_eq:
  assumes "vm_env_ok env" "map_installed env s" "unat va < 2 ^ 39"
  shows "translation_for_address env s va = kernel_map env va"
proof -
  define k j where "k = unat va div 2 ^ 30" and "j = unat (arm64_mmu_l2_index va)"
  have small: "unat va < 2 ^ 48" using assms(3) by simp
  have b: "unat va div 2 ^ 21 = 512 * k + j" unfolding k_def j_def by (rule l2_index_block) simp
  have j: "j < 512" unfolding j_def by (rule unat_index_less)
  consider "k = 0" | "k = 1" | "2 \<le> k" by linarith
  then show ?thesis
  proof cases
    case 1
    then show ?thesis
      using translation_l2 [OF assms(2) k_def [symmetric]] device_l2_nth [of va j] b j assms(2)
        block_translation [OF attrs_ok(4) small] zero_table
      by (auto simp: kernel_map_blocks j_def [symmetric] map_installed_def)
  next
    case 2
    show ?thesis
    proof (cases "j = 0")
      case True
      then have b': "unat va div 2 ^ 21 = 512" using b 2 by simp
      define i where "i = unat (arm64_mmu_l3_index va)"
      have i: "i < 512" unfolding i_def by (rule unat_index_less)
      have f: "frame_ok (vm_l3_base env)" by (rule frame_okI) (use assms(1) in \<open>simp_all add: vm_env_ok_def array_ok_def\<close>)
      have "vm_read env s (vm_l3_base env + 8 * arm64_mmu_l3_index va) = vm_kernel_l3_table s ! i"
        unfolding i_def by (rule vm_read_l3) (use assms(1) unat_index_less in simp_all)
      also have "\<dots> = kernel_page env i" using assms(2) i by (simp add: map_installed_def del: upt_rec_numeral)
      finally have e: "vm_read env s (vm_l3_base env + 8 * arm64_mmu_l3_index va) =
          (if vm_address_is_guard_page env va then 0 else arm64_mmu_l3_page_desc va (kernel_page_attributes env va))"
        using kernel_page_nth [OF assms(1) _ i] l3_index_page [OF b'] by (simp add: i_def)
      have "length ram_l2 = 512" by (simp add: ram_l2_def)
      then show ?thesis
        using translation_l2 [OF assms(2) k_def [symmetric]] assms(2) True 2 b' e table_desc_roundtrip [OF f] table_not_block
          page_translation [OF page_attributes_ok [of env va] small] zero_desc
        by (auto simp: kernel_map_blocks j_def [symmetric] map_installed_def Let_def)
    next
      case False
      then show ?thesis
        using translation_l2 [OF assms(2) k_def [symmetric]] ram_l2_nth [of va j] b j assms(2) 2
          block_translation [OF attrs_ok(1) small] zero_table
        by (auto simp: kernel_map_blocks j_def [symmetric] map_installed_def)
    qed
  next
    case 3
    have "unat (arm64_mmu_l1_index va) = k" using assms(3) by (simp add: unat_index k_def)
    moreover have "k < 512" using assms(3) by (simp add: k_def)
    ultimately have "translation_for_address env s va = None"
      using 3 assms(2) zero_table by (simp add: translation_for_address_def map_installed_def clear_table_def nth_list_update)
    then show ?thesis using 3 b j by (simp add: kernel_map_blocks)
  qed
qed

text \<open>The software walk is the walk of the hardware.\<close>

lemma block_or_offset: "arm64_mmu_l2_block_address d OR (va AND (ARM64_L2_BLOCK_SIZE - 1)) = arm64_mmu_l2_block_address d + (va AND (ARM64_L2_BLOCK_SIZE - 1))"
proof -
  have "\<not> bit (arm64_mmu_l2_block_address d) n \<or> \<not> bit (va AND (ARM64_L2_BLOCK_SIZE - 1)) n" for n
    unfolding arm64_mmu_l2_block_address_def addr_mask_eq low12_mask by (auto simp: bit_simps)
  then show ?thesis by (rule disjunctive_add [symmetric])
qed

lemma page_or_offset: "arm64_mmu_l3_page_address d OR (va AND (ARM64_PAGE_SIZE - 1)) = arm64_mmu_l3_page_address d + (va AND (ARM64_PAGE_SIZE - 1))"
proof -
  have "\<not> bit (arm64_mmu_l3_page_address d) n \<or> \<not> bit (va AND (ARM64_PAGE_SIZE - 1)) n" for n
    unfolding arm64_mmu_l3_page_address_def addr_mask_eq low12_mask by (auto simp: bit_simps)
  then show ?thesis by (rule disjunctive_add [symmetric])
qed

lemma l2_frames: "vm_env_ok env \<Longrightarrow> k < 4 \<Longrightarrow> frame_ok (vm_l2_addr env k)"
  unfolding vm_l2_addr_def by (rule array_elem(2)) (auto simp: vm_env_ok_def)

lemma walk_translation:
  assumes "vm_env_ok env" "map_installed env s"
  shows "mmu_walk (vm_read env s) (vm_root_table env) va =
    map_option (\<lambda>(p, d, level). (p, d)) (translation_for_address env s va)"
proof -
  define k where "k = unat (arm64_mmu_l1_index va)"
  have k: "k < 512" unfolding k_def by (rule unat_index_less)
  have i: "arm64_mmu_l1_index va = of_nat k" by (simp add: k_def)
  have l1: "vm_read env s (vm_root_table env + 8 * arm64_mmu_l1_index va) = vm_l1_table s ! k"
    unfolding vm_root_table_def k_def by (rule vm_read_l3) (use assms(1) unat_index_less in simp_all)
  have l2: "vm_read env s (vm_l2_addr env m + 8 * arm64_mmu_l2_index va) = vm_l2_tables s ! m ! unat (arm64_mmu_l2_index va)" if "m < 4" for m
    by (rule vm_read_l3) (use assms(1) unat_index_less that in simp_all)
  show ?thesis
  proof (cases "k < 2")
    case True
    then have k2: "k = 0 \<or> k = 1" by auto
    then have d1: "vm_l1_table s ! k = arm64_mmu_table_desc (vm_l2_addr env k)"
      and f: "find_l2_table (of_nat k) s = Some k"
      using assms(2) by (auto simp: map_installed_def find_l2_table_def)
    note r = table_desc_roundtrip [OF l2_frames [OF assms(1), of k]]
    show ?thesis
      unfolding mmu_walk_def translation_for_address_def Let_def l1 d1 k_def [symmetric] block_or_offset page_or_offset
      unfolding i f using r l2 [of k] True by simp
  next
    case False
    then have "vm_l1_table s ! k = 0" using k assms(2) by (simp add: map_installed_def clear_table_def nth_list_update)
    then show ?thesis
      unfolding mmu_walk_def translation_for_address_def Let_def l1 k_def [symmetric] by (simp add: zero_table)
  qed
qed

section \<open>Validation succeeds\<close>

definition validated_blocks :: "u64 \<Rightarrow> vm \<Rightarrow> vm" where
  "validated_blocks n s = s\<lparr>vm_blocks_validated := vm_blocks_validated s + n\<rparr>"

definition validated_pages :: "u64 \<Rightarrow> u64 \<Rightarrow> vm \<Rightarrow> vm" where
  "validated_pages g p s =
     s\<lparr>vm_guard_pages_validated := vm_guard_pages_validated s + g, vm_pages_validated := vm_pages_validated s + p\<rparr>"

lemma installed_validated [simp]:
  "map_installed env (validated_blocks n s) = map_installed env s"
  "map_installed env (validated_pages g p s) = map_installed env s"
  by (simp_all add: map_installed_def validated_blocks_def validated_pages_def)

lemma remaining_positive: "0 < unat (step :: u64) \<Longrightarrow> Suc n * unat step + unat rest < 2 ^ 64 \<Longrightarrow> (of_nat (Suc n) * step + rest) > 0"
proof -
  assume s: "0 < unat step" and b: "Suc n * unat step + unat rest < 2 ^ 64"
  have "Suc n * 1 \<le> Suc n * unat step" by (rule mult_le_mono2) (use s in simp)
  then have n: "Suc n < 2 ^ 64" using le_less_trans [OF trans_le_add1 b] by (simp only: mult_1_right)
  have "unat (of_nat (Suc n) * step) = Suc n * unat step"
    using b n by (simp add: unat_word_ariths unat_of_nat take_bit_nat_eq_self del: of_nat_Suc mult_Suc)
  then have "unat (of_nat (Suc n) * step + rest) = Suc n * unat step + unat rest"
    using b by (subst unat_add_no_wrap) simp_all
  then show ?thesis using s by (simp add: word_less_nat_alt del: of_nat_Suc)
qed

lemma validate_blocks:
  assumes "vm_env_ok env" "map_installed env s" "n * 2 ^ 21 + unat rest < 2 ^ 64"
    and "\<And>k. k < n \<Longrightarrow> unat (va + of_nat k * ARM64_L2_BLOCK_SIZE) < 2 ^ 39"
    and "\<And>k. k < n \<Longrightarrow> \<not> vm_address_is_guard_page env (va + of_nat k * ARM64_L2_BLOCK_SIZE)"
    and "\<And>k. k < n \<Longrightarrow> \<exists>d. kernel_map env (va + of_nat k * ARM64_L2_BLOCK_SIZE) = Some (va + of_nat k * ARM64_L2_BLOCK_SIZE, d, 2)"
  shows "validate_range env va va (of_nat n * ARM64_L2_BLOCK_SIZE + rest) s =
    validate_range env (va + of_nat n * ARM64_L2_BLOCK_SIZE) (va + of_nat n * ARM64_L2_BLOCK_SIZE) rest (validated_blocks (of_nat n) s)"
  using assms
proof (induction n arbitrary: va s)
  case 0
  then show ?case by (simp add: validated_blocks_def)
next
  case (Suc n)
  have shift: "va + ARM64_L2_BLOCK_SIZE + of_nat k * ARM64_L2_BLOCK_SIZE = va + of_nat (Suc k) * ARM64_L2_BLOCK_SIZE" for k
    by (simp add: algebra_simps)
  have pos: "of_nat (Suc n) * ARM64_L2_BLOCK_SIZE + rest > 0"
    by (rule remaining_positive) (use Suc.prems(3) in simp_all)
  have rem: "of_nat (Suc n) * ARM64_L2_BLOCK_SIZE + rest - ARM64_L2_BLOCK_SIZE = of_nat n * ARM64_L2_BLOCK_SIZE + rest"
    by (simp add: algebra_simps)
  obtain d where d: "translation_for_address env s va = Some (va, d, 2)"
    using translation_eq [OF Suc.prems(1,2), of va] Suc.prems(4) [of 0] Suc.prems(6) [of 0] by auto
  have "validate_range env va va (of_nat (Suc n) * ARM64_L2_BLOCK_SIZE + rest) s =
      validate_range env (va + ARM64_L2_BLOCK_SIZE) (va + ARM64_L2_BLOCK_SIZE) (of_nat n * ARM64_L2_BLOCK_SIZE + rest) (validated_blocks 1 s)"
    by (subst validate_range.simps) (use Suc.prems(5) [of 0] pos d in \<open>simp add: rem validated_blocks_def del: of_nat_Suc\<close>)
  also have "\<dots> = validate_range env (va + ARM64_L2_BLOCK_SIZE + of_nat n * ARM64_L2_BLOCK_SIZE)
      (va + ARM64_L2_BLOCK_SIZE + of_nat n * ARM64_L2_BLOCK_SIZE) rest (validated_blocks (of_nat n) (validated_blocks 1 s))"
  proof (rule Suc.IH)
    show "n * 2 ^ 21 + unat rest < 2 ^ 64" "map_installed env (validated_blocks 1 s)" using Suc.prems(2,3) by simp_all
  qed (use Suc.prems(1) Suc.prems(4,5,6) [of "Suc _"] in \<open>simp_all only: shift Suc_less_eq not_False_eq_True\<close>)
  finally show ?case unfolding shift by (simp add: validated_blocks_def algebra_simps)
qed

lemma page_address_Suc: "page_address i + ARM64_PAGE_SIZE = page_address (Suc i)"
  by (simp add: page_address_def algebra_simps)

lemma validate_pages:
  assumes "vm_env_ok env" "map_installed env s" "n * 2 ^ 12 + unat rest < 2 ^ 64" "i + n \<le> 512"
  shows "validate_range env (page_address i) (page_address i) (of_nat n * ARM64_PAGE_SIZE + rest) s =
    validate_range env (page_address (i + n)) (page_address (i + n)) rest
      (validated_pages (of_nat (length (filter (page_guarded env) [i..<i + n])))
         (of_nat (length (filter (\<lambda>j. \<not> page_guarded env j) [i..<i + n]))) s)"
  using assms
proof (induction n arbitrary: i s)
  case 0
  then show ?case by (simp add: validated_pages_def)
next
  case (Suc n)
  have pos: "of_nat (Suc n) * ARM64_PAGE_SIZE + rest > 0"
    by (rule remaining_positive) (use Suc.prems(3) in simp_all)
  have rem: "of_nat (Suc n) * ARM64_PAGE_SIZE + rest - ARM64_PAGE_SIZE = of_nat n * ARM64_PAGE_SIZE + rest"
    by (simp add: algebra_simps)
  have i: "i < 512" using Suc.prems(4) by simp
  note u = page_address_page [OF i]
  have "unat (page_address i) div 2 ^ 21 = 512" using i unfolding u by (simp add: div_nat_eqI)
  then have t: "translation_for_address env s (page_address i) =
      (if page_guarded env i then None
       else Some (page_address i, arm64_mmu_l3_page_desc (page_address i) (kernel_page_attributes env (page_address i)), 3))"
    using translation_eq [OF Suc.prems(1,2), of "page_address i"] u i by (simp add: kernel_map_blocks page_guarded_def)
  let ?s = "validated_pages (if page_guarded env i then 1 else 0) (if page_guarded env i then 0 else 1) s"
  have "validate_range env (page_address i) (page_address i) (of_nat (Suc n) * ARM64_PAGE_SIZE + rest) s =
      validate_range env (page_address (Suc i)) (page_address (Suc i)) (of_nat n * ARM64_PAGE_SIZE + rest) ?s"
    by (subst validate_range.simps)
      (use pos t in \<open>simp add: rem validated_pages_def page_address_Suc page_guarded_def [symmetric] del: of_nat_Suc\<close>)
  also have "\<dots> = validate_range env (page_address (Suc i + n)) (page_address (Suc i + n)) rest
      (validated_pages (of_nat (length (filter (page_guarded env) [Suc i..<Suc i + n])))
         (of_nat (length (filter (\<lambda>j. \<not> page_guarded env j) [Suc i..<Suc i + n]))) ?s)"
    by (rule Suc.IH) (use Suc.prems in simp_all)
  finally have v: "validate_range env (page_address i) (page_address i) (of_nat (Suc n) * ARM64_PAGE_SIZE + rest) s = \<dots>" .
  have "[i..<i + Suc n] = i # [Suc i..<Suc i + n]" by (simp add: upt_conv_Cons del: upt_Suc)
  then show ?case unfolding v by (simp add: validated_pages_def algebra_simps del: upt_Suc)
qed

text \<open>The counters \<open>vm_init\<close> leaves, and the state as a whole.\<close>

definition vm_booted :: "vm_env \<Rightarrow> vm \<Rightarrow> vm" where
  "vm_booted env s = (with_kernel env s)\<lparr>
     vm_tables_built := True, vm_validated := True, vm_ready := True, vm_enable_attempted := True,
     vm_blocks_validated := 80, vm_pages_validated := pages_where (\<lambda>i. \<not> page_guarded env i) 512,
     vm_guard_pages_validated := pages_where (page_guarded env) 512\<rparr>"

lemma with_kernel_installed: "map_installed env (with_kernel env s)"
  unfolding map_installed_def with_kernel_def with_pages_def with_ram_def by (auto simp del: upt_rec_numeral)

lemma no_guard_elsewhere:
  assumes "vm_env_ok env" "unat va div 2 ^ 21 \<noteq> 512"
  shows "\<not> vm_address_is_guard_page env va"
proof
  assume "vm_address_is_guard_page env va"
  then obtain k where k: "k \<le> 8" "unat va div 4096 = unat (stack_region (vm_kernel env)) div 4096 + 2 * k"
    using guard_page_iff [OF assms(1)] by blast
  obtain q where q: "unat (stack_region (vm_kernel env)) = 4096 * q" using assms(1) by (auto simp: vm_env_ok_def)
  have "0x40000 \<le> q" "q + 17 \<le> 0x40200" using assms(1) q by (simp_all add: vm_env_ok_def)
  then have "unat va div 2 ^ 12 div 512 = 512" using k q by (simp add: div_nat_eqI)
  then show False using assms(2) unfolding div_mult2_eq [symmetric] by simp
qed

lemma kernel_map_block:
  assumes "unat va = b * 2 ^ 21" "64 \<le> b \<and> b < 81 \<or> 512 < b \<and> b < 576"
  shows "\<exists>d. kernel_map env va = Some (va, d, 2)" "unat va < 2 ^ 39" "unat va div 2 ^ 21 \<noteq> 512"
  using assms by (auto simp: kernel_map_blocks)

lemma validate_block_run:
  assumes "vm_env_ok env" "map_installed env s" "unat va = b * 2 ^ 21" "64 \<le> b \<and> b + n \<le> 81 \<or> 512 < b \<and> b + n \<le> 576"
  shows "validate_range env va va (of_nat n * ARM64_L2_BLOCK_SIZE) s = Some (True, validated_blocks (of_nat n) s)"
proof -
  have u: "unat (va + of_nat k * ARM64_L2_BLOCK_SIZE) = (b + k) * 2 ^ 21" if "k < n" for k
  proof -
    have w: "unat (of_nat k * ARM64_L2_BLOCK_SIZE) = k * 2 ^ 21"
      using that assms(4) by (auto simp: unat_word_ariths unat_of_nat take_bit_nat_eq_self)
    have sum: "unat va + unat (of_nat k * ARM64_L2_BLOCK_SIZE) = (b + k) * 2 ^ 21" by (simp only: assms(3) w add_mult_distrib)
    have "(b + k) * 2 ^ 21 < 2 ^ 64" using that assms(4) by auto
    then show ?thesis unfolding sum [symmetric] by (intro unat_add_no_wrap) (simp only: sum, simp)
  qed
  have "validate_range env va va (of_nat n * ARM64_L2_BLOCK_SIZE + 0) s =
      validate_range env (va + of_nat n * ARM64_L2_BLOCK_SIZE) (va + of_nat n * ARM64_L2_BLOCK_SIZE) 0 (validated_blocks (of_nat n) s)"
  proof (rule validate_blocks [OF assms(1,2)])
    show "n * 2 ^ 21 + unat (0 :: u64) < 2 ^ 64" using assms(4) by auto
    fix k assume "k < n"
    then have b: "64 \<le> b + k \<and> b + k < 81 \<or> 512 < b + k \<and> b + k < 576" using assms(4) by auto
    note m = kernel_map_block [OF u [OF \<open>k < n\<close>] b]
    show "unat (va + of_nat k * ARM64_L2_BLOCK_SIZE) < 2 ^ 39" by (rule m)
    show "\<exists>d. kernel_map env (va + of_nat k * ARM64_L2_BLOCK_SIZE) = Some (va + of_nat k * ARM64_L2_BLOCK_SIZE, d, 2)" by (rule m)
    show "\<not> vm_address_is_guard_page env (va + of_nat k * ARM64_L2_BLOCK_SIZE)" by (rule no_guard_elsewhere [OF assms(1) m(3)])
  qed
  then show ?thesis by (simp add: validate_range.simps [of env _ _ 0])
qed

lemma vm_init_eq:
  assumes "vm_env_ok env"
  shows "vm_init env s regs = Some (vm_booted env s, arm64_mmu_enable (vm_root_table env) regs)"
proof -
  let ?s = "(with_kernel env s)\<lparr>vm_tables_built := True, vm_validated := False, vm_ready := False,
    vm_blocks_validated := 0, vm_pages_validated := 0, vm_validation_error_count := 0\<rparr>"
  let ?g = "pages_where (page_guarded env) 512"
  let ?p = "pages_where (\<lambda>i. \<not> page_guarded env i) 512"
  have m: "map_installed env ?s" using with_kernel_installed [of env s] by (simp add: map_installed_def)
  then have m1: "map_installed env (validated_blocks 17 ?s)" "map_installed env (validated_pages ?g ?p (validated_blocks 17 ?s))"
    by simp_all
  have al: "\<not> table_misaligned (vm_l1_base env)" "\<not> table_misaligned (vm_l3_base env)" "\<not> table_misaligned (vm_l2_addr env k)" if "k < 4" for k
    using assms array_elem(1) [of "vm_l2_base env" 4 k] that
    by (auto simp: table_misaligned_def page_aligned_iff vm_env_ok_def array_ok_def vm_l2_addr_def)
  have r0: "validate_region env (vm_regions ! 0) ?s = Some (True, validated_blocks 17 ?s)"
    using validate_block_run [OF assms m, of "0x08000000" 64 17]
    by (simp add: validate_region_def vm_regions_def region_is_l2_aligned_def)
  have "validate_region env (vm_regions ! 1) (validated_blocks 17 ?s) =
      validate_range env (page_address 0) (page_address 0) (of_nat 512 * ARM64_PAGE_SIZE + 0x7e00000) (validated_blocks 17 ?s)"
    by (simp add: validate_region_def vm_regions_def region_is_l2_aligned_def page_address_def)
  also have "\<dots> = validate_range env (page_address 512) (page_address 512) 0x7e00000 (validated_pages ?g ?p (validated_blocks 17 ?s))"
    using validate_pages [OF assms m1(1), of 512 "0x7e00000" 0] by (simp add: pages_where_def del: upt_rec_numeral)
  also have "\<dots> = Some (True, validated_blocks 63 (validated_pages ?g ?p (validated_blocks 17 ?s)))"
    using validate_block_run [OF assms m1(2), of "page_address 512" 513 63] by (simp add: page_address_def)
  finally have r1: "validate_region env (vm_regions ! 1) (validated_blocks 17 ?s) = \<dots>" .
  have v: "validate_regions env vm_regions ?s = Some (True, validated_blocks 63 (validated_pages ?g ?p (validated_blocks 17 ?s)))"
    using r0 r1 by (simp add: vm_regions_def)
  have used: "vm_used_l2_tables (with_kernel env s) = 2" "unat (2 :: u64) = 2"
    by (simp_all add: with_kernel_def with_pages_def with_ram_def del: upt_rec_numeral)
  have "\<not> (\<exists>slot\<in>set [0..<unat (vm_used_l2_tables ?s)]. table_misaligned (vm_l2_addr env slot))"
    using al(3) by (simp add: used)
  then have "validate_tables env ((with_kernel env s)\<lparr>vm_tables_built := True, vm_validated := False, vm_ready := False\<rparr>) =
      Some (True, validated_blocks 63 (validated_pages ?g ?p (validated_blocks 17 ?s)))"
    unfolding validate_tables_def using al(1,2) [of 0] v
    by (simp add: validated_blocks_def validated_pages_def with_kernel_def with_pages_def with_ram_def reset_tables_def
        del: upt_rec_numeral)
  then show ?thesis
    unfolding vm_init_def build_tables_eq
    by (simp add: vm_booted_def validated_blocks_def validated_pages_def with_kernel_def with_pages_def with_ram_def
        reset_tables_def Let_def del: upt_rec_numeral)
qed

section \<open>Counting the guards\<close>

lemma page_guarded_iff:
  assumes "vm_env_ok env" "i < 512"
  shows "page_guarded env i \<longleftrightarrow> (\<exists>k\<le>8. 0x40000 + i = unat (stack_region (vm_kernel env)) div 4096 + 2 * k)"
proof -
  have "unat (page_address i) div 4096 = 0x40000 + i" using page_address_page [OF assms(2)] by simp
  then show ?thesis by (simp add: page_guarded_def guard_page_iff [OF assms(1)])
qed

lemma guard_count:
  assumes "vm_env_ok env"
  shows "pages_where (page_guarded env) 512 = 9" "pages_where (\<lambda>i. \<not> page_guarded env i) 512 = 503"
proof -
  obtain q where q: "unat (stack_region (vm_kernel env)) = 4096 * q" using assms by (auto simp: vm_env_ok_def)
  have lim: "0x40000 \<le> q" "q + 17 \<le> 0x40200" using assms q by (simp_all add: vm_env_ok_def)
  have "{i. i < 512 \<and> page_guarded env i} = (\<lambda>k. q - 0x40000 + 2 * k) ` {..8}"
  proof (rule set_eqI)
    fix i
    have "0x40000 + i = q + 2 * k \<longleftrightarrow> i = q - 0x40000 + 2 * k" for k using lim by linarith
    then show "i \<in> {i. i < 512 \<and> page_guarded env i} \<longleftrightarrow> i \<in> (\<lambda>k. q - 0x40000 + 2 * k) ` {..8}"
      using page_guarded_iff [OF assms, of i] lim by (auto simp: q)
  qed
  moreover have "card ((\<lambda>k. q - 0x40000 + 2 * k) ` {..8}) = card {..8::nat}" by (rule card_image) (simp add: inj_on_def)
  ultimately have "card {i. i < 512 \<and> page_guarded env i} = 9" by simp
  then have g: "length (filter (page_guarded env) [0..<512]) = 9"
    by (simp add: length_filter_conv_card del: upt_rec_numeral cong: conj_cong)
  moreover have "length (filter (page_guarded env) [0..<512]) + length (filter (\<lambda>i. \<not> page_guarded env i) [0..<512]) = 512"
    using sum_length_filter_compl [of "page_guarded env" "[0..<512]"] by (simp only: length_upt diff_zero)
  ultimately show "pages_where (page_guarded env) 512 = 9" "pages_where (\<lambda>i. \<not> page_guarded env i) 512 = 503"
    by (simp_all add: pages_where_def)
qed

section \<open>Permissions\<close>

lemma desc_fields:
  assumes "attr_ok a" "unat va < 2 ^ 48" "d = arm64_mmu_l2_block_desc va a \<or> d = arm64_mmu_l3_page_desc va a"
  shows "d AND ARM64_DESC_PXN = a AND ARM64_DESC_PXN" "d AND ARM64_DESC_UXN = a AND ARM64_DESC_UXN"
    "d AND ARM64_DESC_AP_MASK = a AND ARM64_DESC_AP_MASK"
  using assms(3) block_desc_bits(3,4,5) [OF assms(1,2)] l3_page_roundtrip(5,6,7) [OF frame_below [OF assms(2)] assms(1)]
  unfolding page_desc_down [of va] by auto

lemma desc_permissions:
  assumes "attr_ok a" "unat va < 2 ^ 48" "d = arm64_mmu_l2_block_desc va a \<or> d = arm64_mmu_l3_page_desc va a"
  shows "arm64_mmu_desc_is_execute_never d = arm64_mmu_desc_is_execute_never a"
    "arm64_mmu_desc_is_read_only d = arm64_mmu_desc_is_read_only a"
    "arm64_mmu_desc_has_user_access d = arm64_mmu_desc_has_user_access a"
  by (simp_all only: desc_fields [OF assms] execute_never_iff arm64_mmu_desc_is_read_only_def arm64_mmu_desc_has_user_access_def)

lemma attr_permissions:
  "arm64_mmu_desc_is_read_only VM_NORMAL_RO_XN_MEMORY_ATTR" "arm64_mmu_desc_is_read_only VM_NORMAL_RO_EXEC_MEMORY_ATTR"
  "\<not> arm64_mmu_desc_is_read_only VM_NORMAL_XN_MEMORY_ATTR" "\<not> arm64_mmu_desc_is_read_only ARM64_DEVICE_MEMORY_ATTR"
  "\<not> arm64_mmu_desc_has_user_access VM_NORMAL_RO_XN_MEMORY_ATTR" "\<not> arm64_mmu_desc_has_user_access VM_NORMAL_RO_EXEC_MEMORY_ATTR"
  "\<not> arm64_mmu_desc_has_user_access VM_NORMAL_XN_MEMORY_ATTR" "\<not> arm64_mmu_desc_has_user_access ARM64_DEVICE_MEMORY_ATTR"
  by (simp_all add: arm64_mmu_desc_is_read_only_def arm64_mmu_desc_has_user_access_def attr_defs push_bit_eq_mult Let_def)

text \<open>The walk uses the low 39 bits of an address only.\<close>

lemma translation_alias: "translation_for_address env s va = translation_for_address env s (va AND mask 39)"
proof -
  have u: "unat (va AND mask 39) = unat va mod 2 ^ 39" by (rule unat_and_mask)
  have div_mod: "x mod (m * (n * p)) div m mod n = x div m mod n" if "0 < m" for x m n p :: nat
  proof -
    have "x mod (m * (n * p)) div m = x div m mod (n * p)" using that by (simp add: mod_mult2_eq)
    then show ?thesis by (simp add: mod_mult2_eq)
  qed
  have "unat va mod 2 ^ 39 div 2 ^ 30 mod 512 = unat va div 2 ^ 30 mod 512" using div_mod [of "2 ^ 30" "unat va" 512 1] by simp
  moreover have "unat va mod 2 ^ 39 div 2 ^ 21 mod 512 = unat va div 2 ^ 21 mod 512" using div_mod [of "2 ^ 21" "unat va" 512 512] by simp
  moreover have "unat va mod 2 ^ 39 div 2 ^ 12 mod 512 = unat va div 2 ^ 12 mod 512" using div_mod [of "2 ^ 12" "unat va" 512 "2 ^ 18"] by simp
  ultimately have i: "arm64_mmu_l1_index (va AND mask 39) = arm64_mmu_l1_index va" "arm64_mmu_l2_index (va AND mask 39) = arm64_mmu_l2_index va"
    "arm64_mmu_l3_index (va AND mask 39) = arm64_mmu_l3_index va"
    by (simp_all only: word_unat_eq_iff unat_index u)
  have "(va AND mask 39) AND mask 21 = va AND mask 21" "(va AND mask 39) AND mask 12 = va AND mask 12"
    by (rule bit_word_eqI; auto simp: bit_simps)+
  then show ?thesis unfolding translation_for_address_def i low12_mask by simp
qed

lemma walk_kernel_map:
  assumes "vm_env_ok env" "map_installed env s" "mmu_walk (vm_read env s) (vm_root_table env) va = Some (pa, d)"
  obtains level where "kernel_map env (va AND mask 39) = Some (pa, d, level)"
proof -
  have "unat (va AND mask 39) < 2 ^ 39" unfolding unat_and_mask by simp
  then have "mmu_walk (vm_read env s) (vm_root_table env) va =
      map_option (\<lambda>(p, d, level). (p, d)) (kernel_map env (va AND mask 39))"
    using walk_translation [OF assms(1,2), of va] translation_alias [of env s va] translation_eq [OF assms(1,2)] by simp
  then show thesis using assms(3) that by (cases "kernel_map env (va AND mask 39)") auto
qed

section \<open>User spaces over the kernel map\<close>

text \<open>The user tables share the kernel's tables; the arrays of the two lie apart.\<close>

definition arrays_disjoint :: "vm_env \<Rightarrow> as_env \<Rightarrow> bool" where
  "arrays_disjoint env aenv \<longleftrightarrow>
     (\<forall>(a, n)\<in>{(vm_l1_base env, 1), (vm_l2_base env, 4), (vm_l3_base env, 1)}.
      \<forall>(b, k)\<in>{(l1_base aenv, 4), (l2_base aenv, 4), (l3_base aenv, 12)}. arrays_apart b k a n)"

lemma kernel_arrays_outside:
  assumes "arrays_disjoint env aenv" "in_array (vm_l1_base env) 1 a \<or> in_array (vm_l2_base env) 4 a \<or> in_array (vm_l3_base env) 1 a"
  shows "\<not> user_array aenv a"
  using assms in_array_apart unfolding arrays_disjoint_def user_array_def by (auto 0 4)

text \<open>The level-2 tables hold one table descriptor, the one of the kernel's pages.\<close>

lemma block_tables:
  assumes "j < 512"
  shows "\<not> arm64_mmu_desc_is_table (device_l2 ! j)" "\<not> arm64_mmu_desc_is_table (ram_l2 ! j)"
proof -
  have blk: "\<not> arm64_mmu_desc_is_table (arm64_mmu_l2_block_desc p a)" if "attr_ok a" "unat p < 2 ^ 48" for p a
    using block_desc_bits(1) [OF that] table_not_block by blast
  define v where "v = (of_nat j * ARM64_L2_BLOCK_SIZE :: u64)"
  have u: "unat v = j * 2 ^ 21"
    using assms unfolding v_def by (simp add: unat_word_ariths unat_of_nat take_bit_nat_eq_self)
  then have "unat v div 2 ^ 21 = j" "unat v < 2 ^ 48" using assms by simp_all
  then show "\<not> arm64_mmu_desc_is_table (device_l2 ! j)"
    using device_l2_nth [OF _ assms, of v] blk [OF attrs_ok(4), of v] zero_table by simp
  have "unat (0x40000000 + v) = (512 + j) * 2 ^ 21" using assms u by (subst unat_add_no_wrap) simp_all
  then have "unat (0x40000000 + v) div 2 ^ 21 = 512 + j" "unat (0x40000000 + v) < 2 ^ 48" using assms by simp_all
  then show "\<not> arm64_mmu_desc_is_table (ram_l2 ! j)"
    using ram_l2_nth [OF _ assms, of "0x40000000 + v"] blk [OF attrs_ok(1), of "0x40000000 + v"] zero_table by simp
qed

lemma only_l3_table:
  assumes "map_installed env s" "k < 2" "j < 512" "arm64_mmu_desc_is_table (vm_l2_tables s ! k ! j)"
  shows "vm_l2_tables s ! k ! j = arm64_mmu_table_desc (vm_l3_base env)"
proof -
  have "k = 0 \<or> k = 1" "length ram_l2 = 512" using assms(2) by (auto simp: ram_l2_def)
  then show ?thesis
    using assms block_tables [OF assms(3)] by (cases "j = 0") (auto simp: map_installed_def)
qed

lemma kernel_shared:
  assumes "vm_env_ok env" "map_installed env s" "arrays_disjoint env aenv" "kernel_read aenv = vm_read env s"
  shows "kernel_map_ok aenv (vm_root_table env)" "kernel_tables_outside aenv (vm_root_table env)"
proof -
  have e: "array_ok (vm_l1_base env) 1" "array_ok (vm_l2_base env) 4" "array_ok (vm_l3_base env) 1"
    using assms(1) by (simp_all add: vm_env_ok_def)
  have zero: "b + of_nat (0 * 4096) = b" for b :: u64 by simp
  have in1: "in_array (vm_l1_base env) 1 (vm_l1_base env)" using e(1) by (simp add: in_array_def array_ok_def)
  have r0: "vm_read env s (vm_root_table env) = arm64_mmu_table_desc (vm_l2_addr env 0)"
    using vm_read_l3(2) [OF assms(1), of 0 s] assms(2) by (simp add: vm_root_table_def map_installed_def)
  show "kernel_map_ok aenv (vm_root_table env)"
    unfolding kernel_map_ok_def assms(4) r0
    using table_desc_roundtrip(2) [OF l2_frames [OF assms(1), of 0]] kernel_arrays_outside [OF assms(3)] in1 e(1)
    by (auto simp: vm_root_table_def array_ok_def)
  have "\<not> user_array aenv (arm64_mmu_desc_address d1 + 8 * arm64_mmu_l2_index va) \<and>
      (arm64_mmu_desc_is_table d2 \<longrightarrow> \<not> user_array aenv (arm64_mmu_desc_address d2 + 8 * arm64_mmu_l3_index va))"
    if d1: "d1 = vm_read env s (vm_root_table env + 8 * arm64_mmu_l1_index va)"
      and d2: "d2 = vm_read env s (arm64_mmu_desc_address d1 + 8 * arm64_mmu_l2_index va)" and t: "arm64_mmu_desc_is_table d1" for d1 d2 va
  proof -
    define k where "k = unat (arm64_mmu_l1_index va)"
    have "d1 = vm_l1_table s ! k" unfolding d1 k_def vm_root_table_def by (rule vm_read_l3) (use assms(1) unat_index_less in simp_all)
    moreover have "k < 512" unfolding k_def by (rule unat_index_less)
    ultimately have k: "k < 2" "d1 = arm64_mmu_table_desc (vm_l2_addr env k)"
      using t assms(2) zero_table by (auto simp: map_installed_def clear_table_def nth_list_update split: if_splits)
    have a1: "arm64_mmu_desc_address d1 = vm_l2_addr env k"
      unfolding k(2) by (rule table_desc_roundtrip, rule l2_frames [OF assms(1)]) (use k(1) in simp)
    have u1: "\<not> user_array aenv (vm_l2_addr env k + 8 * arm64_mmu_l2_index va)"
      unfolding vm_l2_addr_def
      by (rule kernel_arrays_outside [OF assms(3)], rule disjI2, rule disjI1, rule array_entry [OF e(2)])
        (use k(1) unat_index_less in simp_all)
    define j where "j = unat (arm64_mmu_l2_index va)"
    have j: "j < 512" unfolding j_def by (rule unat_index_less)
    have d2': "d2 = vm_l2_tables s ! k ! j"
      unfolding d2 a1 j_def by (rule vm_read_l3) (use assms(1) k(1) unat_index_less in simp_all)
    have "d2 = arm64_mmu_table_desc (vm_l3_base env)" if "arm64_mmu_desc_is_table d2"
      using only_l3_table [OF assms(2) k(1) j] that unfolding d2' by blast
    moreover have "\<not> user_array aenv (vm_l3_base env + 8 * arm64_mmu_l3_index va)"
      by (rule kernel_arrays_outside [OF assms(3)], rule disjI2, rule disjI2,
          rule array_entry(1) [OF e(3) zero_less_one, unfolded zero]) (rule unat_index_less)
    moreover have "frame_ok (vm_l3_base env)" by (rule frame_okI) (use e(3) in \<open>simp_all add: array_ok_def\<close>)
    ultimately show ?thesis using u1 table_desc_roundtrip(1) unfolding a1 by metis
  qed
  then show "kernel_tables_outside aenv (vm_root_table env)"
    unfolding kernel_tables_outside_def assms(4) Let_def by blast
qed

section \<open>The permission audit\<close>

text \<open>
  The sections as the linker script lays them out: each starts on a page, code and constants lie in
  the part mapped by pages, the stacks are in the bss and memory ends at 0x48000000.
\<close>

definition page_up :: "nat \<Rightarrow> nat" where
  "page_up n = (n + 4095) div 4096 * 4096"

definition sections_ok :: "vm_env \<Rightarrow> bool" where
  "sections_ok env \<longleftrightarrow>
     (\<forall>a\<in>{text_start env, rodata_start env, data_start env, bss_start env}. 4096 dvd unat a) \<and>
     0x40000000 \<le> unat (text_start env) \<and> unat (text_start env) \<le> unat (text_end env) \<and>
     page_up (unat (text_end env)) \<le> unat (rodata_start env) \<and> unat (rodata_start env) \<le> unat (rodata_end env) \<and>
     page_up (unat (rodata_end env)) \<le> unat (data_start env) \<and> page_up (unat (rodata_end env)) \<le> 0x40200000 \<and>
     unat (data_start env) \<le> unat (data_end env) \<and> page_up (unat (data_end env)) \<le> unat (bss_start env) \<and>
     unat (bss_start env) \<le> unat (stack_region (vm_kernel env)) \<and>
     unat (stack_region (vm_kernel env)) + 17 * 4096 \<le> unat (bss_end env) \<and> unat (bss_end env) \<le> 0x48000000"

lemma page_up_ge: "n \<le> page_up n"
proof -
  have "n + 4095 = (n + 4095) div 4096 * 4096 + (n + 4095) mod 4096" by (simp only: div_mult_mod_eq)
  moreover have "(n + 4095) mod 4096 < 4096" by simp
  ultimately show ?thesis unfolding page_up_def by linarith
qed

lemma align_up_page: "unat v < 2 ^ 48 \<Longrightarrow> unat (vm_align_up v ARM64_PAGE_SIZE) = page_up (unat v)"
proof -
  assume v: "unat v < 2 ^ 48"
  have "v + ARM64_PAGE_SIZE - 1 = v + 4095" by simp
  moreover have "unat (v + 4095) = unat v + 4095" using v by (subst unat_add_no_wrap) simp_all
  ultimately show ?thesis unfolding vm_align_up_def unat_block page_up_def by (simp add: add.commute)
qed

lemma align_down_same: "4096 dvd unat v \<Longrightarrow> vm_align_down v ARM64_PAGE_SIZE = v"
  by (subst word_unat_eq_iff) (simp add: vm_align_down_def unat_block(3) [simplified])

lemma in_text_rodata:
  assumes "sections_ok env"
  shows "address_in_kernel_text env va \<longleftrightarrow> unat (text_start env) \<le> unat va \<and> unat va < page_up (unat (text_end env))"
    "address_in_kernel_rodata env va \<longleftrightarrow> unat (rodata_start env) \<le> unat va \<and> unat va < page_up (unat (rodata_end env))"
proof -
  have d: "4096 dvd unat (text_start env)" "4096 dvd unat (rodata_start env)" using assms by (simp_all add: sections_ok_def)
  have "unat (text_end env) < 2 ^ 48" "unat (rodata_end env) < 2 ^ 48"
    using assms page_up_ge [of "unat (text_end env)"] page_up_ge [of "unat (rodata_end env)"] by (auto simp: sections_ok_def)
  then show "address_in_kernel_text env va \<longleftrightarrow> unat (text_start env) \<le> unat va \<and> unat va < page_up (unat (text_end env))"
    "address_in_kernel_rodata env va \<longleftrightarrow> unat (rodata_start env) \<le> unat va \<and> unat va < page_up (unat (rodata_end env))"
    unfolding address_in_kernel_text_def address_in_kernel_rodata_def address_in_range_def align_down_same [OF d(1)] align_down_same [OF d(2)]
    by (simp_all add: word_le_nat_alt word_less_nat_alt align_up_page)
qed

text \<open>The pages of code and of constants, and what the kernel's map allows in them and elsewhere.\<close>

definition in_code :: "vm_env \<Rightarrow> u64 \<Rightarrow> bool" where
  "in_code env a \<longleftrightarrow> unat (text_start env) \<le> unat a \<and> unat a < page_up (unat (text_end env))"

definition in_constants :: "vm_env \<Rightarrow> u64 \<Rightarrow> bool" where
  "in_constants env a \<longleftrightarrow> unat (rodata_start env) \<le> unat a \<and> unat a < page_up (unat (rodata_end env))"

definition kernel_rights :: "vm_env \<Rightarrow> u64 \<Rightarrow> u64 \<Rightarrow> bool" where
  "kernel_rights env a d \<longleftrightarrow>
     \<not> arm64_mmu_desc_has_user_access d \<and> (el1_writable d \<longleftrightarrow> \<not> in_code env a \<and> \<not> in_constants env a) \<and>
     (el1_executable d \<longleftrightarrow> in_code env a) \<and> (el0_executable d \<longleftrightarrow> in_code env a)"

lemma attr_rights:
  "el1_writable ARM64_DEVICE_MEMORY_ATTR" "\<not> el1_executable ARM64_DEVICE_MEMORY_ATTR" "\<not> el0_executable ARM64_DEVICE_MEMORY_ATTR"
  "el1_writable VM_NORMAL_XN_MEMORY_ATTR" "\<not> el1_executable VM_NORMAL_XN_MEMORY_ATTR" "\<not> el0_executable VM_NORMAL_XN_MEMORY_ATTR"
  "\<not> el1_writable VM_NORMAL_RO_XN_MEMORY_ATTR" "\<not> el1_executable VM_NORMAL_RO_XN_MEMORY_ATTR" "\<not> el0_executable VM_NORMAL_RO_XN_MEMORY_ATTR"
  "\<not> el1_writable VM_NORMAL_RO_EXEC_MEMORY_ATTR" "el1_executable VM_NORMAL_RO_EXEC_MEMORY_ATTR" "el0_executable VM_NORMAL_RO_EXEC_MEMORY_ATTR"
  by (simp_all add: el1_writable_def el1_executable_def el0_executable_def attr_defs push_bit_eq_mult)

lemma kernel_map_rights:
  assumes "sections_ok env" "kernel_map env va = Some (pa, d, level)"
  shows "pa = va \<and> kernel_rights env pa d"
proof -
  define a where "a = (if va < 0x40000000 then ARM64_DEVICE_MEMORY_ATTR else if va < 0x40200000 then kernel_page_attributes env va
    else VM_NORMAL_XN_MEMORY_ATTR)"
  have d: "pa = va" "d = arm64_mmu_l2_block_desc va a \<or> d = arm64_mmu_l3_page_desc va a"
    using assms(2) by (auto simp: kernel_map_def a_def word_less_nat_alt word_le_nat_alt split: if_splits)
  have "va < 0x48000000" using assms(2) by (auto simp: kernel_map_def word_less_nat_alt split: if_splits)
  then have small: "unat va < 2 ^ 48" by (simp add: word_less_nat_alt)
  have "attr_ok a" by (simp add: a_def page_attributes_ok attrs_ok)
  note f = desc_fields [OF this small d(2)]
  have sec: "page_up (unat (rodata_end env)) \<le> 0x40200000" "0x40000000 \<le> unat (text_start env)" "page_up (unat (text_end env)) \<le> unat (rodata_start env)"
    "unat (rodata_start env) \<le> unat (rodata_end env)" "unat (text_start env) \<le> unat (text_end env)"
    using assms(1) by (simp_all add: sections_ok_def)
  note up = page_up_ge [of "unat (rodata_end env)"] page_up_ge [of "unat (text_end env)"]
  have outside: "\<not> in_code env va \<and> \<not> in_constants env va" if "va < 0x40000000 \<or> \<not> va < 0x40200000"
    using that sec up by (auto simp: in_code_def in_constants_def word_less_nat_alt)
  have code: "\<not> in_constants env va" if "in_code env va" using that sec(3) by (auto simp: in_code_def in_constants_def)
  have "kernel_rights env va a"
  proof (cases "va < 0x40000000 \<or> \<not> va < 0x40200000")
    case True
    then show ?thesis using outside attr_permissions attr_rights by (auto simp: kernel_rights_def a_def)
  next
    case False
    then have "a = kernel_page_attributes env va" by (simp add: a_def)
    then show ?thesis
      using code attr_permissions attr_rights in_text_rodata [OF assms(1), of va, folded in_code_def in_constants_def]
      by (auto simp: kernel_rights_def kernel_page_attributes_def)
  qed
  then show ?thesis
    using d(1) f by (simp add: kernel_rights_def el1_writable_def el1_executable_def el0_executable_def arm64_mmu_desc_has_user_access_def)
qed

lemma align_step:
  assumes "unat va < 2 ^ 39" "step = ARM64_L2_BLOCK_SIZE \<or> step = ARM64_PAGE_SIZE"
  shows "unat va < unat (vm_align_down va step + step)" "4096 dvd unat (vm_align_down va step + step)"
proof -
  obtain m where m: "(m = 21 \<or> m = 12) \<and> unat (vm_align_down va step) = unat va div 2 ^ m * 2 ^ m \<and> unat step = 2 ^ m"
    using assms(2)
  proof
    assume "step = ARM64_L2_BLOCK_SIZE"
    then show thesis using that [of 21] unat_block(1) [of va] by (simp add: vm_align_down_def)
  next
    assume "step = ARM64_PAGE_SIZE"
    then show thesis using that [of 12] unat_block(3) [of va] by (simp add: vm_align_down_def)
  qed
  have le: "unat va div 2 ^ m * 2 ^ m \<le> unat va" by simp
  have "unat (vm_align_down va step) + unat step < 2 ^ 64" using assms(1) m le by auto
  then have u: "unat (vm_align_down va step + step) = unat va div 2 ^ m * 2 ^ m + 2 ^ m"
    using m by (subst unat_add_no_wrap) simp_all
  have "unat va = unat va div 2 ^ m * 2 ^ m + unat va mod 2 ^ m" by (simp only: div_mult_mod_eq)
  moreover have "unat va mod 2 ^ m < 2 ^ m" by simp
  ultimately show "unat va < unat (vm_align_down va step + step)" unfolding u by linarith
  have "4096 dvd (2 :: nat) ^ m" using m by auto
  then show "4096 dvd unat (vm_align_down va step + step)" unfolding u by (intro dvd_add dvd_mult)
qed

lemma guard_page_whole:
  assumes "vm_env_ok env" "vm_address_is_guard_page env a" "4096 dvd unat a" "unat a \<le> unat va" "unat va < unat a + 4096"
  shows "vm_address_is_guard_page env va"
proof -
  have "unat va div 2 ^ 12 = unat a div 2 ^ 12" using assms(3-5) by (auto simp: div_nat_eqI elim!: dvdE)
  then show ?thesis using guard_same [OF assms(1)] assms(2) by blast
qed

text \<open>
  The audit of a range in which every page that is not a guard is mapped with the same value of the
  flag: the loop ends, and has seen that value if a page of the range is not a guard.
\<close>

lemma audit_uniform:
  assumes "vm_env_ok env" "map_installed env s" "4096 dvd unat address \<or> end' \<le> address" "unat end' \<le> 0x48000000"
    and "\<And>va. address \<le> va \<Longrightarrow> va < end' \<Longrightarrow> \<not> vm_address_is_guard_page env va \<Longrightarrow>
        \<exists>d level. kernel_map env va = Some (va, d, level) \<and> flag d = b"
  shows "\<exists>v'. audit_range env s flag address end' (\<not> b \<and> v) (b \<and> v) = Some (\<not> b \<and> v', b \<and> v', None) \<and>
    (v \<or> (\<exists>va. address \<le> va \<and> va < end' \<and> \<not> vm_address_is_guard_page env va) \<longrightarrow> v')"
  using assms(3,5)
proof (induction "unat end' - unat address" arbitrary: address v rule: less_induct)
  case less
  show ?case
  proof (cases "address < end'")
    case False
    then have "audit_range env s flag address end' (\<not> b \<and> v) (b \<and> v) = Some (\<not> b \<and> v, b \<and> v, None)"
      by (subst audit_range.simps) simp
    moreover have "\<not> (address \<le> va \<and> va < end')" for va using False by auto
    ultimately show ?thesis by blast
  next
    case True
    then have u: "unat address < unat end'" "4096 dvd unat address" using less.prems(1) by (auto simp: word_less_nat_alt word_le_nat_alt)
    have small: "unat address < 2 ^ 39" using u(1) assms(4) by simp
    show ?thesis
    proof (cases "vm_address_is_guard_page env address")
      case True
      have n: "unat (address + ARM64_PAGE_SIZE) = unat address + 4096" using small by (subst unat_add_no_wrap) simp_all
      have "\<exists>v'. audit_range env s flag (address + ARM64_PAGE_SIZE) end' (\<not> b \<and> v) (b \<and> v) = Some (\<not> b \<and> v', b \<and> v', None) \<and>
          (v \<or> (\<exists>va. address + ARM64_PAGE_SIZE \<le> va \<and> va < end' \<and> \<not> vm_address_is_guard_page env va) \<longrightarrow> v')"
      proof (rule less.hyps)
        show "unat end' - unat (address + ARM64_PAGE_SIZE) < unat end' - unat address" using u(1) n by simp
        show "4096 dvd unat (address + ARM64_PAGE_SIZE) \<or> end' \<le> address + ARM64_PAGE_SIZE" using u(2) n by simp
      qed (use less.prems(2) n in \<open>auto simp: word_le_nat_alt\<close>)
      moreover have "address + ARM64_PAGE_SIZE \<le> va" if "address \<le> va" "\<not> vm_address_is_guard_page env va" for va
        using guard_page_whole [OF assms(1) True u(2), of va] that n by (force simp: word_le_nat_alt not_less)
      moreover have "audit_range env s flag address end' (\<not> b \<and> v) (b \<and> v) =
          audit_range env s flag (address + ARM64_PAGE_SIZE) end' (\<not> b \<and> v) (b \<and> v)"
        using True \<open>address < end'\<close> by (subst audit_range.simps) simp
      ultimately show ?thesis by metis
    next
      case False
      then obtain d level where k: "kernel_map env address = Some (address, d, level)" "flag d = b"
        using less.prems(2) [of address] \<open>address < end'\<close> by auto
      then have t: "translation_for_address env s address = Some (address, d, level)"
        using translation_eq [OF assms(1,2) small] by simp
      define step where "step = (if level = 2 then ARM64_L2_BLOCK_SIZE else ARM64_PAGE_SIZE)"
      define next' where "next' = (if vm_align_down address step + step > end' then end' else vm_align_down address step + step)"
      have "step = ARM64_L2_BLOCK_SIZE \<or> step = ARM64_PAGE_SIZE" by (simp add: step_def)
      note st = align_step [OF small this]
      have nd: "next_descriptor_in_range env s address end' = Some (next', d)"
        by (simp add: next_descriptor_in_range_def t next'_def step_def)
      have next': "unat address < unat next'" "4096 dvd unat next' \<or> end' \<le> next'"
        using st u(1) by (auto simp: next'_def)
      have "\<exists>v'. audit_range env s flag next' end' (\<not> b \<and> True) (b \<and> True) = Some (\<not> b \<and> v', b \<and> v', None) \<and>
          (True \<or> (\<exists>va. next' \<le> va \<and> va < end' \<and> \<not> vm_address_is_guard_page env va) \<longrightarrow> v')"
      proof (rule less.hyps)
        show "unat end' - unat next' < unat end' - unat address" using u(1) next'(1) by simp
        show "4096 dvd unat next' \<or> end' \<le> next'" by (rule next')
        fix va assume "next' \<le> va" "va < end'" "\<not> vm_address_is_guard_page env va"
        moreover have "address \<le> va" using \<open>next' \<le> va\<close> next'(1) by (simp add: word_le_nat_alt)
        ultimately show "\<exists>d level. kernel_map env va = Some (va, d, level) \<and> flag d = b" using less.prems(2) by blast
      qed
      moreover have "audit_range env s flag address end' (\<not> b \<and> v) (b \<and> v) = audit_range env s flag next' end' (\<not> b \<and> True) (b \<and> True)"
        using False \<open>address < end'\<close> k(2) by (subst audit_range.simps) (simp add: nd)
      ultimately show ?thesis by metis
    qed
  qed
qed

lemma actual_permissions:
  assumes "vm_env_ok env" "map_installed env s" "4096 dvd unat start" "unat end' \<le> 0x48000000" "start < end'"
    and "\<And>va. start \<le> va \<Longrightarrow> va < end' \<Longrightarrow> \<not> vm_address_is_guard_page env va \<Longrightarrow>
        \<exists>d level. kernel_map env va = Some (va, d, level) \<and>
          arm64_mmu_desc_is_execute_never d = x \<and> arm64_mmu_desc_is_read_only d = w"
    and "\<exists>va. start \<le> va \<and> va < end' \<and> \<not> vm_address_is_guard_page env va"
  shows "vm_actual_execute_permission_for_range env s start end' = Some (if x then ''xn'' else ''exec'')"
    "vm_actual_write_permission_for_range env s start end' = Some (if w then ''ro'' else ''rw'')"
proof -
  have audit: "audit_range env s flag start end' False False = Some (\<not> b, b, None)"
    if "\<And>va. start \<le> va \<Longrightarrow> va < end' \<Longrightarrow> \<not> vm_address_is_guard_page env va \<Longrightarrow>
        \<exists>d level. kernel_map env va = Some (va, d, level) \<and> flag d = b" for flag b
    using audit_uniform [OF assms(1,2) disjI1 [OF assms(3)] assms(4) that, of False] assms(7) by fastforce
  have "audit_range env s arm64_mmu_desc_is_execute_never start end' False False = Some (\<not> x, x, None)"
    by (rule audit) (use assms(6) in blast)
  then show "vm_actual_execute_permission_for_range env s start end' = Some (if x then ''xn'' else ''exec'')"
    using assms(5) by (simp add: vm_actual_execute_permission_for_range_def align_down_same [OF assms(3)] audit_result_def)
  have "audit_range env s arm64_mmu_desc_is_read_only start end' False False = Some (\<not> w, w, None)"
    by (rule audit) (use assms(6) in blast)
  then show "vm_actual_write_permission_for_range env s start end' = Some (if w then ''ro'' else ''rw'')"
    using assms(5) by (simp add: vm_actual_write_permission_for_range_def align_down_same [OF assms(3)] audit_result_def)
qed

definition ram_attributes :: "vm_env \<Rightarrow> u64 \<Rightarrow> u64" where
  "ram_attributes env va = (if unat va < 0x40200000 then kernel_page_attributes env va else VM_NORMAL_XN_MEMORY_ATTR)"

lemma ram_map:
  assumes "0x40000000 \<le> unat va" "unat va < 0x48000000" "\<not> vm_address_is_guard_page env va"
  shows "\<exists>d level. kernel_map env va = Some (va, d, level) \<and>
    arm64_mmu_desc_is_execute_never d = arm64_mmu_desc_is_execute_never (ram_attributes env va) \<and>
    arm64_mmu_desc_is_read_only d = arm64_mmu_desc_is_read_only (ram_attributes env va)"
proof -
  have s: "unat va < 2 ^ 48" using assms(2) by simp
  have "kernel_map env va =
      (if unat va < 0x40200000 then Some (va, arm64_mmu_l3_page_desc va (ram_attributes env va), 3)
       else Some (va, arm64_mmu_l2_block_desc va (ram_attributes env va), 2))"
    using assms by (auto simp: kernel_map_def ram_attributes_def word_le_nat_alt word_less_nat_alt)
  moreover have "attr_ok (ram_attributes env va)" by (simp add: ram_attributes_def page_attributes_ok attrs_ok)
  note desc_permissions [OF this s disjI1 [OF refl]] desc_permissions [OF this s disjI2 [OF refl]]
  ultimately show ?thesis by auto
qed

lemma guard_in_stacks:
  assumes "vm_env_ok env" "vm_address_is_guard_page env va"
  shows "unat (stack_region (vm_kernel env)) \<le> unat va"
proof -
  obtain q where q: "unat (stack_region (vm_kernel env)) = 4096 * q" using assms(1) by (auto simp: vm_env_ok_def)
  obtain k where "unat va div 4096 = q + 2 * k" using assms(2) q by (auto simp: guard_page_iff [OF assms(1)])
  then have "q \<le> unat va div 4096" by simp
  then show ?thesis unfolding q by (simp add: less_eq_div_iff_mult_less_eq mult.commute)
qed

lemma stack_not_guard:
  assumes "vm_env_ok env"
  shows "\<not> vm_address_is_guard_page env (stack_region (vm_kernel env) + 4096)"
    "unat (stack_region (vm_kernel env) + 4096) = unat (stack_region (vm_kernel env)) + 4096"
proof -
  obtain q where q: "unat (stack_region (vm_kernel env)) = 4096 * q" using assms(1) by (auto simp: vm_env_ok_def)
  show u: "unat (stack_region (vm_kernel env) + 4096) = unat (stack_region (vm_kernel env)) + 4096"
    using assms by (subst unat_add_no_wrap) (simp_all add: vm_env_ok_def)
  have "(4096 * q + 4096) div 4096 = q + 1" by simp
  then show "\<not> vm_address_is_guard_page env (stack_region (vm_kernel env) + 4096)"
    unfolding guard_page_iff [OF assms] u q by (auto; presburger)
qed

text \<open>One goal: a range whose pages have the wanted permissions is reported as enforced.\<close>

lemma goal_status:
  assumes "vm_env_ok env" "map_installed env s" "4096 dvd unat (goal_start g)" "unat (goal_end g) \<le> 0x48000000"
    and "\<And>va. goal_start g \<le> va \<Longrightarrow> va < goal_end g \<Longrightarrow> \<not> vm_address_is_guard_page env va \<Longrightarrow>
        \<exists>d level. kernel_map env va = Some (va, d, level) \<and>
          arm64_mmu_desc_is_execute_never d = goal_want_xn g \<and> arm64_mmu_desc_is_read_only d = goal_want_ro g"
    and "goal_start g < goal_end g \<Longrightarrow> \<exists>va. goal_start g \<le> va \<and> va < goal_end g \<and> \<not> vm_address_is_guard_page env va"
  shows "vm_execute_permission_status env s g = Some (if goal_start g < goal_end g then ''enforced'' else ''empty'')"
    "vm_write_permission_status env s g = Some (if goal_start g < goal_end g then ''enforced'' else ''empty'')"
proof -
  have "vm_actual_execute_permission_for_range env s (goal_start g) (goal_end g) =
      Some (if goal_start g < goal_end g then if goal_want_xn g then ''xn'' else ''exec'' else ''empty'')"
    "vm_actual_write_permission_for_range env s (goal_start g) (goal_end g) =
      Some (if goal_start g < goal_end g then if goal_want_ro g then ''ro'' else ''rw'' else ''empty'')"
    using actual_permissions [OF assms(1-4) _ assms(5,6)]
    by (auto simp: vm_actual_execute_permission_for_range_def vm_actual_write_permission_for_range_def)
  then show "vm_execute_permission_status env s g = Some (if goal_start g < goal_end g then ''enforced'' else ''empty'')"
    "vm_write_permission_status env s g = Some (if goal_start g < goal_end g then ''enforced'' else ''empty'')"
    by (simp_all add: vm_execute_permission_status_def vm_write_permission_status_def execute_status_def write_status_def)
qed

lemma section_status:
  assumes "vm_env_ok env" "map_installed env s" "4096 dvd unat (goal_start g)"
    and "0x40000000 \<le> unat (goal_start g)" "unat (goal_end g) \<le> 0x48000000"
    and "\<And>va. unat (goal_start g) \<le> unat va \<Longrightarrow> unat va < unat (goal_end g) \<Longrightarrow>
        arm64_mmu_desc_is_execute_never (ram_attributes env va) = goal_want_xn g \<and>
        arm64_mmu_desc_is_read_only (ram_attributes env va) = goal_want_ro g"
    and "goal_start g < goal_end g \<Longrightarrow> unat (goal_start g) < unat (stack_region (vm_kernel env)) \<or>
      unat (goal_start g) \<le> unat (stack_region (vm_kernel env)) + 4096 \<and>
      unat (stack_region (vm_kernel env)) + 4096 < unat (goal_end g)"
  shows "vm_execute_permission_status env s g = Some (if goal_start g < goal_end g then ''enforced'' else ''empty'')"
    "vm_write_permission_status env s g = Some (if goal_start g < goal_end g then ''enforced'' else ''empty'')"
proof -
  have 1: "\<exists>d level. kernel_map env va = Some (va, d, level) \<and>
      arm64_mmu_desc_is_execute_never d = goal_want_xn g \<and> arm64_mmu_desc_is_read_only d = goal_want_ro g"
    if "goal_start g \<le> va" "va < goal_end g" "\<not> vm_address_is_guard_page env va" for va
  proof -
    have b: "unat (goal_start g) \<le> unat va" "unat va < unat (goal_end g)" using that by (simp_all add: word_le_nat_alt word_less_nat_alt)
    then have "0x40000000 \<le> unat va" "unat va < 0x48000000" using assms(4,5) by simp_all
    from ram_map [OF this that(3)] assms(6) [OF b] show ?thesis by auto
  qed
  have 2: "\<exists>va. goal_start g \<le> va \<and> va < goal_end g \<and> \<not> vm_address_is_guard_page env va" if "goal_start g < goal_end g"
    using assms(7) [OF that]
  proof
    assume "unat (goal_start g) < unat (stack_region (vm_kernel env))"
    then have "\<not> vm_address_is_guard_page env (goal_start g)" using guard_in_stacks [OF assms(1), of "goal_start g"] by auto
    then show ?thesis using that by blast
  next
    assume "unat (goal_start g) \<le> unat (stack_region (vm_kernel env)) + 4096 \<and>
      unat (stack_region (vm_kernel env)) + 4096 < unat (goal_end g)"
    then show ?thesis using stack_not_guard [OF assms(1)]
      by (intro exI [of _ "stack_region (vm_kernel env) + 4096"]) (simp add: word_le_nat_alt word_less_nat_alt)
  qed
  show "vm_execute_permission_status env s g = Some (if goal_start g < goal_end g then ''enforced'' else ''empty'')"
    "vm_write_permission_status env s g = Some (if goal_start g < goal_end g then ''enforced'' else ''empty'')"
    by (rule goal_status [OF assms(1-3,5) 1 2]; assumption)+
qed

lemma section_attributes:
  assumes "sections_ok env"
  shows "unat (text_start env) \<le> unat va \<Longrightarrow> unat va < unat (text_end env) \<Longrightarrow> ram_attributes env va = VM_NORMAL_RO_EXEC_MEMORY_ATTR"
    "unat (rodata_start env) \<le> unat va \<Longrightarrow> unat va < unat (rodata_end env) \<Longrightarrow> ram_attributes env va = VM_NORMAL_RO_XN_MEMORY_ATTR"
    "unat (data_start env) \<le> unat va \<Longrightarrow> ram_attributes env va = VM_NORMAL_XN_MEMORY_ATTR"
proof -
  note o = assms [unfolded sections_ok_def]
  note u = page_up_ge [of "unat (text_end env)"] page_up_ge [of "unat (rodata_end env)"] page_up_ge [of "unat (data_end env)"]
  show "ram_attributes env va = VM_NORMAL_RO_EXEC_MEMORY_ATTR" if "unat (text_start env) \<le> unat va" "unat va < unat (text_end env)"
    using o u that unfolding ram_attributes_def kernel_page_attributes_def in_text_rodata [OF assms] by simp
  show "ram_attributes env va = VM_NORMAL_RO_XN_MEMORY_ATTR" if "unat (rodata_start env) \<le> unat va" "unat va < unat (rodata_end env)"
    using o u that unfolding ram_attributes_def kernel_page_attributes_def in_text_rodata [OF assms] by simp
  show "ram_attributes env va = VM_NORMAL_XN_MEMORY_ATTR" if "unat (data_start env) \<le> unat va"
    using o u that unfolding ram_attributes_def kernel_page_attributes_def in_text_rodata [OF assms] by simp
qed

lemma booted_installed: "map_installed env (vm_booted env s)"
  using with_kernel_installed [of env s] by (simp add: map_installed_def vm_booted_def)

lemma init_installed: "vm_env_ok env \<Longrightarrow> vm_init env s regs = Some (s', regs') \<Longrightarrow> map_installed env s'"
  using booted_installed [of env s] by (auto simp: vm_init_eq)

lemma goals_enforced:
  assumes "vm_env_ok env" "sections_ok env" "map_installed env s" "g \<in> set (vm_permission_goals env)"
  shows "vm_execute_permission_status env s g = Some (if goal_start g < goal_end g then ''enforced'' else ''empty'') \<and>
    vm_write_permission_status env s g = Some (if goal_start g < goal_end g then ''enforced'' else ''empty'')"
proof -
  note o = assms(2) [unfolded sections_ok_def]
  note u = page_up_ge [of "unat (text_end env)"] page_up_ge [of "unat (rodata_end env)"] page_up_ge [of "unat (data_end env)"]
  have "length (vm_permission_goals env) = 5" by (simp add: vm_permission_goals_def)
  then obtain i where i: "i < 5" "g = vm_permission_goals env ! i" using assms(4) by (metis in_set_conv_nth)
  then have "i = 0 \<or> i = 1 \<or> i = 2 \<or> i = 3 \<or> i = 4" by linarith
  then consider (ram) "i = 0 \<or> i = 1 \<or> i = 2 \<or> i = 3" | (mmio) "g = vm_permission_goals env ! 4"
    using i(2) by blast
  then show ?thesis
  proof cases
    case ram
    have wants: "arm64_mmu_desc_is_execute_never (ram_attributes env va) = goal_want_xn g \<and>
        arm64_mmu_desc_is_read_only (ram_attributes env va) = goal_want_ro g"
      if "unat (goal_start g) \<le> unat va" "unat va < unat (goal_end g)" for va
    proof -
      have "unat (data_start env) \<le> unat (bss_start env)" using o u by linarith
      then show ?thesis
        using ram that section_attributes [OF assms(2), of va] unfolding i(2)
        by (elim disjE) (simp_all add: vm_permission_goals_def attrs_never attr_permissions)
    qed
    have bounds: "4096 dvd unat (goal_start g)" "0x40000000 \<le> unat (goal_start g)" "unat (goal_end g) \<le> 0x48000000"
      "goal_start g < goal_end g \<Longrightarrow> unat (goal_start g) < unat (stack_region (vm_kernel env)) \<or>
        unat (goal_start g) \<le> unat (stack_region (vm_kernel env)) + 4096 \<and>
        unat (stack_region (vm_kernel env)) + 4096 < unat (goal_end g)"
      using ram o u unfolding i(2) by (elim disjE; simp add: vm_permission_goals_def word_less_nat_alt)+
    show ?thesis by (intro conjI section_status [OF assms(1,3) bounds(1-3) wants bounds(4)])
  next
    case mmio
    have map: "\<exists>d level. kernel_map env va = Some (va, d, level) \<and>
        arm64_mmu_desc_is_execute_never d = goal_want_xn g \<and> arm64_mmu_desc_is_read_only d = goal_want_ro g"
      if "goal_start g \<le> va" "va < goal_end g" for va
    proof -
      have "unat va < 2 ^ 48" using that mmio by (simp add: vm_permission_goals_def word_less_nat_alt)
      note desc_permissions [OF attrs_ok(4) this disjI1 [OF refl]]
      then show ?thesis using that mmio by (simp add: vm_permission_goals_def kernel_map_def attrs_never attr_permissions)
    qed
    have "\<not> vm_address_is_guard_page env 0x08000000" by (rule no_guard_elsewhere [OF assms(1)]) simp
    then have "\<exists>va. goal_start g \<le> va \<and> va < goal_end g \<and> \<not> vm_address_is_guard_page env va"
      using mmio by (intro exI [of _ "0x08000000"]) (simp add: vm_permission_goals_def)
    then show ?thesis
      by (intro conjI goal_status [OF assms(1,3)] map) (use mmio in \<open>simp_all add: vm_permission_goals_def\<close>)
  qed
qed

lemma guards_reported_unmapped:
  assumes "vm_env_ok env" "map_installed env s"
  shows "vm_stack_guard_state env s = ''unmapped''"
proof -
  obtain q where q: "unat (stack_region (vm_kernel env)) = 4096 * q" using assms(1) by (auto simp: vm_env_ok_def)
  have lim: "0x40000 \<le> q" "q + 17 \<le> 0x40200" using assms q by (simp_all add: vm_env_ok_def)
  have "translation_for_address env s a = None"
    if "k \<le> 8" "a \<in> set (for_range (scheduler_stack_guard_start (vm_kernel env) (of_nat k))
                          (scheduler_stack_guard_end (vm_kernel env) (of_nat k)) ARM64_PAGE_SIZE)" for k a
  proof -
    let ?g = "scheduler_stack_guard_start (vm_kernel env) (of_nat k)"
    have k: "unat (of_nat k :: u64) = k" using that(1) by (simp add: unat_of_nat take_bit_nat_eq_self)
    then have "\<not> (8 :: u64) < of_nat k" using that(1) by (simp add: word_less_nat_alt)
    then have g: "?g = stack_region (vm_kernel env) + of_nat k * 8192"
      by (simp add: scheduler_stack_guard_start_def scheduler_stack_region_start_def)
    have "unat (of_nat k * 8192 :: u64) = k * 8192" using that(1) k by (simp add: unat_word_ariths)
    then have u: "unat ?g = 4096 * (q + 2 * k)"
      unfolding g using lim that(1) by (subst unat_add_no_wrap) (simp_all add: q)
    have e: "unat (?g + 4096) = unat ?g + 4096" using u lim that(1) by (subst unat_add_no_wrap) simp_all
    have "for_range ?g (scheduler_stack_guard_end (vm_kernel env) (of_nat k)) ARM64_PAGE_SIZE = [?g]"
      unfolding for_range_def scheduler_stack_guard_end_def e by simp
    then have a: "a = ?g" using that(2) by simp
    have "vm_address_is_guard_page env a" unfolding guard_page_iff [OF assms(1)] a u q using that(1) by auto
    moreover have "unat a div 2 ^ 21 = 512" unfolding a u using lim that(1) by (simp add: div_nat_eqI)
    ultimately show ?thesis
      using translation_eq [OF assms, of a] u lim that(1) by (simp add: kernel_map_blocks a)
  qed
  moreover have "i < 9 \<longleftrightarrow> i \<le> 8" for i :: nat by auto
  ultimately show ?thesis unfolding vm_stack_guard_state_def scheduler_stack_count_def by (simp del: upt_rec_numeral)
qed

section \<open>A concrete layout\<close>

definition sample_vm_env :: vm_env where
  "sample_vm_env = \<lparr>kernel_start = 0x40080000, kernel_end = 0x40190000, text_start = 0x40080000, text_end = 0x40099a40,
     rodata_start = 0x4009a000, rodata_end = 0x4009f123, data_start = 0x400a0000, data_end = 0x400a0200,
     bss_start = 0x400a1000, bss_end = 0x4018ff00, vm_l1_base = 0x400b0000, vm_l2_base = 0x400b1000, vm_l3_base = 0x400b5000,
     vm_memory = (\<lambda>_. 0),
     vm_kernel = \<lparr>arrays = sample_env, stack_region = 0x400c0000, code_address = (\<lambda>_. 0)\<rparr>\<rparr>"

definition vm_bss :: vm where
  "vm_bss = \<lparr>vm_l1_table = clear_table, vm_l2_tables = replicate 4 clear_table, vm_kernel_l3_table = clear_table,
     vm_l2_slots = replicate 4 free_l2_slot, vm_ready = False, vm_tables_built = False, vm_validated = False,
     vm_enable_attempted = False, vm_kernel_l3_mapped = False, vm_used_l2_tables = 0, vm_blocks_mapped = 0,
     vm_pages_mapped = 0, vm_guard_pages = 0, vm_blocks_validated = 0, vm_pages_validated = 0,
     vm_guard_pages_validated = 0, vm_validation_error_count = 0, vm_exec_blocks = 0, vm_xn_blocks = 0,
     vm_exec_pages = 0, vm_xn_pages = 0, vm_bytes_mapped = 0\<rparr>"

definition mmu_off :: mmu_regs where
  "mmu_off = \<lparr>sctlr_el1 = 0, mair_el1 = 0, tcr_el1 = 0, ttbr0_el1 = 0\<rparr>"

lemma sample_vm_ok: "vm_env_ok sample_vm_env" "sections_ok sample_vm_env"
  by (simp_all add: vm_env_ok_def sections_ok_def sample_vm_env_def array_ok_def arrays_apart_def page_up_def)

definition sample_shared_env :: as_env where
  "sample_shared_env = sample_env\<lparr>kernel_read := vm_read sample_vm_env (vm_booted sample_vm_env vm_bss)\<rparr>"

lemma sample_shared_ok: "env_ok sample_shared_env" "arrays_disjoint sample_vm_env sample_shared_env"
  "kernel_read sample_shared_env = vm_read sample_vm_env (vm_booted sample_vm_env vm_bss)"
  using sample_env_ok(1)
  by (simp_all add: env_ok_def sample_shared_env_def arrays_disjoint_def sample_env_def sample_vm_env_def arrays_apart_def)

section \<open>Properties\<close>

text \<open>
  C38: vm_init always returns, and with the linker's layout it succeeds: the tables are built and
  validated without error, the MMU is switched on with the new root, 80 two-megabyte blocks and 503
  pages are mapped, and the nine guard pages of the stacks are left out.
\<close>

theorem vm_init_succeeds:
  assumes "vm_env_ok env"
  shows "\<exists>s'. vm_init env s regs = Some (s', arm64_mmu_enable (vm_root_table env) regs) \<and>
    vm_ready s' \<and> vm_tables_built s' \<and> vm_validated s' \<and> vm_validation_error_count s' = 0 \<and>
    vm_blocks_mapped s' = 80 \<and> vm_blocks_validated s' = 80 \<and> vm_pages_mapped s' = 503 \<and> vm_pages_validated s' = 503 \<and>
    vm_guard_pages s' = 9 \<and> vm_guard_pages_validated s' = 9 \<and> vm_table_count s' = 4 \<and>
    vm_bytes_mapped s' = 80 * ARM64_L2_BLOCK_SIZE + 503 * ARM64_PAGE_SIZE"
  unfolding vm_init_eq [OF assms]
  by (simp add: vm_booted_def with_kernel_def with_pages_def with_ram_def reset_tables_def vm_table_count_def
      guard_count [OF assms] del: upt_rec_numeral)

theorem vm_init_succeeds_witness:
  "\<exists>s'. vm_init sample_vm_env vm_bss mmu_off = Some (s', arm64_mmu_enable 0x400b0000 mmu_off) \<and> vm_ready s' \<and>
    vm_pages_mapped s' = 503"
  using vm_init_succeeds [OF sample_vm_ok(1), of vm_bss mmu_off] by (auto simp: vm_root_table_def sample_vm_env_def)

text \<open>
  C19: after vm_init the kernel runs on the identity map. For every address below 2^39 the hardware
  walk from the root and the software walk vm_walk_address agree; the devices and the 128 MB of memory
  are mapped to themselves, code pages read-only and executable, constants read-only, everything else
  writable and never executable; the guard pages and all other addresses are unmapped.
\<close>

theorem kernel_identity_map:
  assumes "vm_env_ok env" "vm_init env s regs = Some (s', regs')" "unat va < 2 ^ 39"
  shows "mmu_walk (vm_read env s') (vm_root_table env) va =
      (if 0x08000000 \<le> va \<and> va < 0x0a200000 then Some (va, arm64_mmu_l2_block_desc va ARM64_DEVICE_MEMORY_ATTR)
       else if 0x40000000 \<le> va \<and> va < 0x40200000 \<and> \<not> vm_address_is_guard_page env va
       then Some (va, arm64_mmu_l3_page_desc va (kernel_page_attributes env va))
       else if 0x40200000 \<le> va \<and> va < 0x48000000 then Some (va, arm64_mmu_l2_block_desc va VM_NORMAL_XN_MEMORY_ATTR)
       else None) \<and>
    vm_walk_address env s' va = map_option fst (mmu_walk (vm_read env s') (vm_root_table env) va)"
proof -
  note s' = init_installed [OF assms(1,2)]
  have "translation_for_address env s' va = kernel_map env va" by (rule translation_eq [OF assms(1) s' assms(3)])
  then show ?thesis
    using walk_translation [OF assms(1) s', of va] by (auto simp: vm_walk_address_def kernel_map_def)
qed

theorem kernel_identity_map_witness:
  "mmu_walk (vm_read sample_vm_env (vm_booted sample_vm_env vm_bss)) (vm_root_table sample_vm_env) 0x09000004 =
     Some (0x09000004, arm64_mmu_l2_block_desc 0x09000004 ARM64_DEVICE_MEMORY_ATTR) \<and>
   vm_walk_address sample_vm_env (vm_booted sample_vm_env vm_bss) 0x09000004 = Some 0x09000004"
  using kernel_identity_map [OF sample_vm_ok(1) vm_init_eq [OF sample_vm_ok(1), of vm_bss mmu_off], of "0x09000004"] by simp

text \<open>
  C20: no memory is writable and executable. Of every translation the hardware finds in the tables that vm_init
  leaves, with the sections where the linker script puts them: EL1 may write exactly outside the pages of
  code and constants, may execute exactly the pages of code, and nothing that it may write is executable at
  EL1 or EL0. EL0 has no data access. The pages of code are executable at EL0 as well, since their
  descriptors have UXN clear.
\<close>

theorem kernel_w_xor_x:
  assumes "vm_env_ok env" "sections_ok env" "vm_init env s regs = Some (s', regs')"
    and "mmu_walk (vm_read env s') (vm_root_table env) va = Some (pa, d)"
  shows "(el1_writable d \<longrightarrow> \<not> el1_executable d \<and> \<not> el0_executable d) \<and> \<not> arm64_mmu_desc_has_user_access d \<and>
    (el1_writable d \<longleftrightarrow> \<not> in_code env pa \<and> \<not> in_constants env pa) \<and>
    (el1_executable d \<longleftrightarrow> in_code env pa) \<and> (el0_executable d \<longleftrightarrow> in_code env pa)"
proof -
  obtain level where "kernel_map env (va AND mask 39) = Some (pa, d, level)"
    by (rule walk_kernel_map [OF assms(1) init_installed [OF assms(1,3)] assms(4)])
  from kernel_map_rights [OF assms(2) this] show ?thesis by (auto simp: kernel_rights_def)
qed

theorem kernel_w_xor_x_witness:
  "\<not> el1_executable (arm64_mmu_l2_block_desc 0x09000004 ARM64_DEVICE_MEMORY_ATTR) \<and> el1_writable (arm64_mmu_l2_block_desc 0x09000004 ARM64_DEVICE_MEMORY_ATTR)"
proof -
  have "translation_for_address sample_vm_env (vm_booted sample_vm_env vm_bss) 0x09000004 = kernel_map sample_vm_env 0x09000004"
    by (rule translation_eq [OF sample_vm_ok(1) booted_installed]) simp
  then have "mmu_walk (vm_read sample_vm_env (vm_booted sample_vm_env vm_bss)) (vm_root_table sample_vm_env) 0x09000004 =
      Some (0x09000004, arm64_mmu_l2_block_desc 0x09000004 ARM64_DEVICE_MEMORY_ATTR)"
    using walk_translation [OF sample_vm_ok(1) booted_installed, of vm_bss "0x09000004"] by (simp add: kernel_map_def)
  from kernel_w_xor_x [OF sample_vm_ok vm_init_eq [OF sample_vm_ok(1), of vm_bss mmu_off] this] show ?thesis
    by (simp add: in_code_def in_constants_def sample_vm_env_def)
qed

text \<open>
  C5: what code at EL0 can reach, from boot on. When vm_init has built the kernel's tables and
  address_space_init_user builds a user space that shares them, every translation of the user tables is
  one of two kinds. In the three user pages it lands inside the slot's own page frame; EL0 may read it, may
  write it in data and stack only and execute it in code only, and EL1 may not execute it. Everywhere else
  it is the kernel's identity map: EL0 may neither read nor write, but it may fetch instructions from the
  pages of the kernel's code, which vm.c maps without UXN, and from no other page.
\<close>

theorem el0_confined_from_boot:
  assumes "vm_env_ok env" "sections_ok env" "vm_init env s regs = Some (s', regs')"
    and "env_ok aenv" "arrays_disjoint env aenv" "kernel_read aenv = vm_read env s'"
    and "user_tables_ok t" "find_slot (\<lambda>used. \<not> used) (ut_used t) = Some slot" "unat va < 2 ^ 32"
    and "address_space_init_user aenv name (vm_root_table env) t = (space, t')"
    and "mmu_walk (as_read aenv t') (as_user_root_table space) va = Some (pa, d)"
  shows "case user_page_index va of
      Some r \<Rightarrow> r < 3 \<and> unat pa = unat (page_base aenv) + (3 * slot + r) * 4096 + unat va mod 4096 \<and>
        arm64_mmu_desc_has_user_access d \<and> (el0_writable d \<longleftrightarrow> r \<noteq> 0) \<and> (el0_executable d \<longleftrightarrow> r = 0) \<and> \<not> el1_executable d
    | None \<Rightarrow> pa = va \<and> \<not> arm64_mmu_desc_has_user_access d \<and> (el0_executable d \<longleftrightarrow> in_code env va)"
proof -
  note s' = init_installed [OF assms(1,3)]
  note shared = kernel_shared [OF assms(1) s' assms(5,6)]
  note reach = user_space_reach [OF assms(4,7,8) shared assms(9,10,11)]
  show ?thesis
  proof (cases "user_page_index va")
    case None
    then have "mmu_walk (vm_read env s') (vm_root_table env) va = Some (pa, d)" using reach assms(6) by simp
    then obtain level where map: "kernel_map env (va AND mask 39) = Some (pa, d, level)" by (rule walk_kernel_map [OF assms(1) s'])
    have "unat (va AND mask 39) = unat va" unfolding unat_and_mask using assms(9) by simp
    then have "va AND mask 39 = va" by (simp add: word_unat_eq_iff)
    then show ?thesis using kernel_map_rights [OF assms(2) map] None by (simp add: kernel_rights_def)
  next
    case (Some r)
    then show ?thesis using reach by simp
  qed
qed

theorem el0_confined_from_boot_witness:
  "el0_executable (arm64_mmu_l3_page_desc (region_page_addr sample_shared_env 0 0) (region_attr 0))"
proof -
  let ?root = "vm_root_table sample_vm_env"
  note shared = kernel_shared [OF sample_vm_ok(1) booted_installed sample_shared_ok(2,3)]
  obtain space t' where i: "address_space_init_user sample_shared_env None ?root user_tables_boot = (space, t')" by (rule prod.exhaust)
  note m = init_user_mapped [OF sample_shared_ok(1) sample_env_ok(4,5) shared(1) i]
  have "user_page_index 0x100010 = Some 0" by (simp add: user_page_index_def)
  moreover have "unat (0x100010 :: u64) < 2 ^ 32" by simp
  note w = walk_user_pages [OF sample_shared_ok(1) m(1,2) this shared]
  ultimately have walk: "mmu_walk (as_read sample_shared_env t') (as_user_root_table space) 0x100010 =
      Some (region_page_addr sample_shared_env 0 0 OR 0x10, arm64_mmu_l3_page_desc (region_page_addr sample_shared_env 0 0) (region_attr 0))"
    using m(3) by (simp add: user_space_fields_def)
  from el0_confined_from_boot [OF sample_vm_ok vm_init_eq [OF sample_vm_ok(1), of vm_bss mmu_off] sample_shared_ok(1-3)
      sample_env_ok(4,5) _ i walk]
  show ?thesis using \<open>user_page_index 0x100010 = Some 0\<close> by simp
qed

text \<open>
  C39: the permission audit reports what the tables enforce. After vm_init, with the sections where the
  linker script puts them, the audit loops end and every goal (code executable and read-only, constants
  read-only, data, bss and devices never executable) is reported as enforced, or as empty for an empty
  section, and the stack guards as unmapped.
\<close>

theorem permission_goals_enforced:
  assumes "vm_env_ok env" "sections_ok env" "vm_init env s regs = Some (s', regs')" "g \<in> set (vm_permission_goals env)"
  shows "vm_execute_permission_status env s' g = Some (if goal_start g < goal_end g then ''enforced'' else ''empty'') \<and>
    vm_write_permission_status env s' g = Some (if goal_start g < goal_end g then ''enforced'' else ''empty'') \<and>
    vm_stack_guard_state env s' = ''unmapped''"
proof -
  note s' = init_installed [OF assms(1,3)]
  show ?thesis using goals_enforced [OF assms(1,2) s' assms(4)] guards_reported_unmapped [OF assms(1) s'] by simp
qed

theorem permission_goals_enforced_witness:
  "vm_execute_permission_status sample_vm_env (vm_booted sample_vm_env vm_bss)
     \<lparr>goal_name = ''text'', goal_start = 0x40080000, goal_end = 0x40099a40, goal_want_xn = False, goal_want_ro = True\<rparr> =
   Some ''enforced''"
  using permission_goals_enforced [OF sample_vm_ok vm_init_eq [OF sample_vm_ok(1), of vm_bss mmu_off],
      of "vm_permission_goals sample_vm_env ! 0"]
  by (simp add: vm_permission_goals_def sample_vm_env_def [THEN arg_cong, of text_start] sample_vm_env_def [THEN arg_cong, of text_end])

end
