(* ===== verification/Programs.thy ===== *)
theory Programs
  imports Vfs Executable
begin

text \<open>
  The built-in user programs, kernel/user/programs.c: the machine code and data of seven programs, the
  executable images made of them, and their installation in the file system at boot.
\<close>

section \<open>Code and data\<close>

definition user_demo_code :: "u32 list" where
  "user_demo_code =
     [0xd2800028, 0xd2800020, 0xd2a00401, 0xd28002e2, 0xd4000001, 0xd2800048, 0xd28000e0, 0xd4000001,
      0xd4200000]"

definition user_fault_code :: "u32 list" where
  "user_fault_code =
     [0xd4200000]"

definition user_file_code :: "u32 list" where
  "user_file_code =
     [0xd2800088, 0xd2a00400, 0xd2800221, 0xd4000001, 0xaa0003e3, 0xd28000a8, 0xaa0303e0, 0xd2a00401,
      0x91010021, 0xd2800302, 0xd4000001, 0xaa0003e2, 0xd2800028, 0xd2800020, 0xd4000001, 0xd28000c8,
      0xaa0303e0, 0xd4000001, 0xd2800048, 0xd2800000, 0xd4000001, 0xd4200000]"

definition user_file_write_code :: "u32 list" where
  "user_file_write_code =
     [0xd28000e8, 0xd2a00400, 0xd2800281, 0xd4000001, 0xaa0003e3, 0xd2800028, 0xaa0303e0, 0xd2a00401,
      0x91010021, 0xd2800222, 0xd4000001, 0xd28000c8, 0xaa0303e0, 0xd4000001, 0xd2800048, 0xd2800000,
      0xd4000001, 0xd4200000]"

definition user_file_seek_code :: "u32 list" where
  "user_file_seek_code =
     [0xd2800088, 0xd2a00400, 0xd2800221, 0xd4000001, 0xaa0003e3, 0xd2800108, 0xaa0303e0, 0xd28000c1,
      0xd4000001, 0xd28000a8, 0xaa0303e0, 0xd2a00401, 0x91010021, 0xd2800242, 0xd4000001, 0xaa0003e2,
      0xd2800028, 0xd2800020, 0xd4000001, 0xd28000c8, 0xaa0303e0, 0xd4000001, 0xd2800048, 0xd2800000,
      0xd4000001, 0xd4200000]"

definition user_args_code :: "u32 list" where
  "user_args_code =
     [0xf100081f, 0x54000263, 0xaa0103e3, 0xaa0203e4, 0xf9400061, 0xf9400082, 0xd2800028, 0xd2800020,
      0xd4000001, 0xd2800028, 0xd2800020, 0xd2a00401, 0x9101e021, 0xd2800022, 0xd4000001, 0xf9400461,
      0xf9400482, 0xd2800028, 0xd2800020, 0xd4000001, 0xd2800048, 0xd2800000, 0xd4000001, 0xd4200000]"

definition user_spawn_code :: "u32 list" where
  "user_spawn_code =
     [0xd2800308, 0xd2a00400, 0x91020000, 0xd2800281, 0xd28000a2, 0xd4000001, 0xd2800088, 0xd2a00400,
      0x91020000, 0xd2800281, 0xd4000001, 0xd2800328, 0xd4000001, 0xd28000c8, 0xd4000001, 0xd28000c8,
      0xd2800060, 0xd4000001, 0xd28002e8, 0xd2a00400, 0x91020000, 0xd2800281, 0xd2a00402, 0x91020042,
      0xd4000001, 0xd2800208, 0xd2a00400, 0x91020000, 0xd4000001, 0xd2800228, 0xd4000001, 0xd2800248,
      0xd2800000, 0xd2a00401, 0x91020021, 0xd4000001, 0xd2800288, 0xd2a00400, 0x91018000, 0xd2800121,
      0xd4000001, 0xd28002c8, 0xd2a00400, 0x91018000, 0xd2800121, 0xd2a00402, 0x9101b042, 0xd2800103,
      0xd4000001, 0xd28002e8, 0xd2a00400, 0x9101b000, 0xd2800101, 0xd2a00402, 0x91020042, 0xd4000001,
      0xd2800268, 0xd2800000, 0xd2a00401, 0x91020021, 0xd4000001, 0xd28002a8, 0xd2a00400, 0x9101b000,
      0xd2800101, 0xd4000001, 0xd28001c8, 0xd4000001, 0xd28001e8, 0xd4000001, 0xd28001a8, 0xd4000001,
      0xd2800148, 0xd2a00400, 0xd2800221, 0xd2a00402, 0x91008042, 0xd2800143, 0xd4000001, 0xd2800188,
      0xd2800280, 0xd4000001, 0xd28001a8, 0xd4000001, 0xd2800128, 0xd2800000, 0xd2a00401, 0x9100c021,
      0xd2800002, 0xd4000001, 0xf100041f, 0x540000e1, 0xd2800028, 0xd2800020, 0xd2a00401, 0x91014021,
      0xd2800102, 0xd4000001, 0xd2800048, 0xd2800000, 0xd4000001, 0xd4200000]"

definition user_demo_message :: cstring where
  "user_demo_message = bytes_of ''hello from EL0 syscall'' @ [0x0a]"

definition user_file_path :: cstring where
  "user_file_path = bytes_of ''/disk/syscall.txt''"

definition user_file_message :: cstring where
  "user_file_message = bytes_of ''hello from file syscall'' @ [0x0a]"

definition user_file_write_path :: cstring where
  "user_file_write_path = bytes_of ''/disk/user-write.txt''"

definition user_file_write_message :: cstring where
  "user_file_write_message = bytes_of ''written from EL0'' @ [0x0a]"

definition user_spawn_path :: cstring where
  "user_spawn_path = bytes_of ''/bin/user-args.sx''"

definition user_spawn_arguments :: cstring where
  "user_spawn_arguments = bytes_of ''child args''"

definition user_spawn_wait_message :: cstring where
  "user_spawn_wait_message = bytes_of ''wait ok'' @ [0x0a]"

definition user_spawn_directory :: cstring where
  "user_spawn_directory = bytes_of ''/user-dir''"

definition user_spawn_renamed_directory :: cstring where
  "user_spawn_renamed_directory = bytes_of ''/renamed''"

definition user_spawn_truncate_path :: cstring where
  "user_spawn_truncate_path = bytes_of ''/share/user-demo.txt''"

section \<open>Images\<close>

text \<open>
  Every image is built the same way: a header with the sizes and the checksum of the payload, the code
  words in memory order, and the data.
\<close>

definition code_bytes :: "u32 list \<Rightarrow> u8 list" where
  "code_bytes code = concat (map le32 code)"

definition program_image :: "u32 list \<Rightarrow> u8 list \<Rightarrow> u8 list" where
  "program_image code data =
     (let payload = code_bytes code @ data
      in exec_header_to \<lparr>eh_magic = SATURN_EXEC_MAGIC, eh_version = SATURN_EXEC_VERSION, eh_header_size = 24,
           eh_code_size = of_nat (length (code_bytes code)), eh_data_size = of_nat (length data), eh_entry_offset = 0,
           eh_payload_checksum = saturn_exec_checksum payload (length payload)\<rparr> @ payload)"

definition user_demo_image :: "u8 list" where
  "user_demo_image = program_image user_demo_code user_demo_message"

definition user_fault_image :: "u8 list" where
  "user_fault_image = program_image user_fault_code []"

definition user_file_image :: "u8 list" where
  "user_file_image = program_image user_file_code (splice (replicate 128 0) 0 user_file_path)"

definition user_file_write_image :: "u8 list" where
  "user_file_write_image =
     program_image user_file_write_code
       (splice (splice (replicate 128 0) 0 user_file_write_path) 64 user_file_write_message)"

definition user_file_seek_image :: "u8 list" where
  "user_file_seek_image = program_image user_file_seek_code (splice (replicate 128 0) 0 user_file_path)"

definition user_args_image :: "u8 list" where
  "user_args_image = program_image user_args_code ((replicate 128 0)[120 := 0x20])"

definition user_spawn_data :: "u8 list" where
  "user_spawn_data =
     (let data = splice (replicate 160 0) 0 user_spawn_path;
          data = splice data 32 user_spawn_arguments;
          data = splice data 80 user_spawn_wait_message;
          data = splice data 96 user_spawn_directory;
          data = splice data 108 user_spawn_renamed_directory
      in splice data 128 user_spawn_truncate_path)"

definition user_spawn_image :: "u8 list" where
  "user_spawn_image = program_image user_spawn_code user_spawn_data"

section \<open>Installation\<close>

definition program_images :: "(cstring \<times> u8 list) list" where
  "program_images =
     [(bytes_of ''/bin/user-demo.sx'', user_demo_image), (bytes_of ''/bin/user-fault.sx'', user_fault_image),
      (bytes_of ''/bin/user-file.sx'', user_file_image), (bytes_of ''/bin/user-file-write.sx'', user_file_write_image),
      (bytes_of ''/bin/user-file-seek.sx'', user_file_seek_image), (bytes_of ''/bin/user-args.sx'', user_args_image),
      (bytes_of ''/bin/user-spawn.sx'', user_spawn_image)]"

definition program_files :: "(cstring \<times> u8 list) list" where
  "program_files = program_images @ [(bytes_of ''/share/user-demo.txt'', user_demo_message)]"

text \<open>The chain of creations in the condition, which stops at the first failure.\<close>

fun install_files :: "'d virtio_hw \<Rightarrow> (cstring \<times> u8 list) list \<Rightarrow> 'd vfs \<Rightarrow> bool \<times> 'd vfs" where
  "install_files hw [] v = (True, v)"
| "install_files hw ((path, data) # rest) v =
     (case vfs_create hw path data (of_nat (length data)) v of
        (False, v) \<Rightarrow> (False, v)
      | (True, v) \<Rightarrow> install_files hw rest v)"

definition user_programs_init :: "'d virtio_hw \<Rightarrow> 'd vfs \<Rightarrow> bool \<times> 'd vfs" where
  "user_programs_init hw v =
     (case vfs_mkdir (bytes_of ''/bin'') v of
        (False, v) \<Rightarrow> (False, v)
      | (True, v) \<Rightarrow>
     (case vfs_mkdir (bytes_of ''/share'') v of
        (False, v) \<Rightarrow> (False, v)
      | (True, v) \<Rightarrow>
     (case install_files hw program_files v of
        (False, v) \<Rightarrow> (False, v)
      | (True, v) \<Rightarrow>
          let v = snd (vfs_create hw (bytes_of ''/disk/bin/user-demo.sx'') user_demo_image (of_nat (length user_demo_image)) v);
              v = snd (vfs_create hw (bytes_of ''/disk/bin/user-fault.sx'') user_fault_image (of_nat (length user_fault_image)) v);
              v = snd (vfs_create hw (bytes_of ''/disk/syscall.txt'') user_file_message (of_nat (length user_file_message)) v)
          in (True, v))))"

section \<open>The images are executables\<close>

lemma length_code_bytes [simp]: "length (code_bytes code) = 4 * length code"
  by (induction code) (simp_all add: code_bytes_def)

lemma program_image_encode: "program_image code data = exec_encode (code_bytes code) data 0"
  by (simp add: program_image_def exec_encode_def Let_def)

lemma length_program_image [simp]: "length (program_image code data) = 24 + 4 * length code + length data"
  by (simp add: program_image_encode)

lemma program_parsed:
  assumes "0 < length code" "length code \<le> 1024" "length data \<le> 4096"
  shows "saturn_exec_parse (program_image code data) (of_nat (length (program_image code data))) =
    Some \<lparr>ei_code = 24, ei_data = 24 + 4 * length code, ei_code_size = of_nat (4 * length code),
      ei_data_size = of_nat (length data), ei_entry_offset = 0\<rparr>"
  using exec_parse_encode [of "code_bytes code" data 0] assms
  by (simp add: program_image_encode exec_fits_def del: length_exec_encode)

lemmas program_data_defs = user_demo_message_def user_file_path_def user_file_write_path_def user_file_write_message_def
  user_spawn_path_def user_spawn_arguments_def user_spawn_wait_message_def user_spawn_directory_def
  user_spawn_renamed_directory_def user_spawn_truncate_path_def user_spawn_data_def

lemma length_bytes_of [simp]: "length (bytes_of s) = length s"
  by (simp add: bytes_of_def)

lemma length_user_data [simp]:
  "length user_demo_message = 23" "length (splice (replicate 128 0) 0 user_file_path) = 128"
  "length (splice (splice (replicate 128 0) 0 user_file_write_path) 64 user_file_write_message) = 128"
  "length user_spawn_data = 160"
  by (simp_all add: program_data_defs Let_def)

lemma length_user_code [simp]:
  "length user_demo_code = 9" "length user_fault_code = 1" "length user_file_code = 22" "length user_file_write_code = 18"
  "length user_file_seek_code = 26" "length user_args_code = 24" "length user_spawn_code = 102"
  by (simp_all add: user_demo_code_def user_fault_code_def user_file_code_def user_file_write_code_def
      user_file_seek_code_def user_args_code_def user_spawn_code_def)

lemmas image_defs = user_demo_image_def user_fault_image_def user_file_image_def user_file_write_image_def
  user_file_seek_image_def user_args_image_def user_spawn_image_def

text \<open>What the header of an image says: the code, the data, and the entry at the start of the code.\<close>

definition image_sizes :: "u8 list \<Rightarrow> nat \<Rightarrow> nat \<Rightarrow> bool" where
  "image_sizes file code data \<longleftrightarrow>
     length file = 24 + code + data \<and>
     saturn_exec_parse file (of_nat (length file)) =
       Some \<lparr>ei_code = 24, ei_data = 24 + code, ei_code_size = of_nat code, ei_data_size = of_nat data, ei_entry_offset = 0\<rparr>"

lemma program_sizes:
  "0 < length code \<Longrightarrow> length code \<le> 1024 \<Longrightarrow> length data \<le> 4096 \<Longrightarrow>
   image_sizes (program_image code data) (4 * length code) (length data)"
  using program_parsed [of code data] by (simp add: image_sizes_def)

lemma program_images_sizes:
  "image_sizes user_demo_image 36 23" "image_sizes user_fault_image 4 0" "image_sizes user_file_image 88 128"
  "image_sizes user_file_write_image 72 128" "image_sizes user_file_seek_image 104 128" "image_sizes user_args_image 96 128"
  "image_sizes user_spawn_image 408 160"
  unfolding image_defs
  using program_sizes [of user_demo_code user_demo_message] program_sizes [of user_fault_code "[]"]
    program_sizes [of user_file_code "splice (replicate 128 0) 0 user_file_path"]
    program_sizes [of user_file_write_code "splice (splice (replicate 128 0) 0 user_file_write_path) 64 user_file_write_message"]
    program_sizes [of user_file_seek_code "splice (replicate 128 0) 0 user_file_path"]
    program_sizes [of user_args_code "(replicate 128 0)[120 := 0x20]"] program_sizes [of user_spawn_code user_spawn_data]
  by simp_all

section \<open>Installation succeeds\<close>

lemma has_dir_create:
  assumes "vfs_create hw path data sz v = (True, v')" "vfs_disk_path path = None"
  shows "has_dir (nodes v) d \<Longrightarrow> has_dir (nodes v') d" "file_count v' = file_count v + 1"
proof -
  obtain i where i: "vfs_alloc_node v = Some i"
    and v': "v' = v\<lparr>nodes := (nodes v)[i := (nodes v ! i)\<lparr>rn_path := path,
        rn_data := splice (rn_data (nodes v ! i)) 0 (take (unat sz) data), rn_size := sz, rn_kind := RAMFS_FILE, rn_used := True\<rparr>],
      file_count := file_count v + 1\<rparr>"
    using assms by (auto simp: vfs_create_def split: if_splits option.splits)
  show "file_count v' = file_count v + 1" by (simp add: v')
  assume "has_dir (nodes v) d"
  then obtain j where j: "node_named (nodes v) d j" "rn_kind (nodes v ! j) = RAMFS_DIRECTORY" by (auto simp: has_dir_iff)
  moreover have "j \<noteq> i" using j(1) vfs_alloc_nodeD(2) [OF i] by (auto simp: node_named_def)
  ultimately have "node_named (nodes v') d j" "rn_kind (nodes v' ! j) = RAMFS_DIRECTORY" by (auto simp: v' node_named_def)
  then show "has_dir (nodes v') d" by (auto simp: has_dir_iff)
qed

text \<open>
  Installing files one after the other: all of them are named for the RAM file system, fit, are new and
  have a directory above them, and there is room for all.
\<close>

definition installable :: "(cstring \<times> u8 list) list \<Rightarrow> 'd vfs \<Rightarrow> bool" where
  "installable files v \<longleftrightarrow>
     distinct (map fst files) \<and> unat (file_count v) + length files \<le> 8 \<and>
     (\<forall>(p, d)\<in>set files. ram_named p d \<and> vfs_path_valid p \<and> length d \<le> 4096 \<and> vfs_find p v = None \<and>
        parent_ok (nodes v) p)"

lemma install_files_ok:
  assumes "vfs_inv v" "installable files v"
  shows "\<exists>v'. install_files hw files v = (True, v') \<and> vfs_inv v' \<and> ram_files v' = ram_files v ++ map_of (rev files) \<and>
    unat (file_count v') = unat (file_count v) + length files"
  using assms
proof (induction files arbitrary: v)
  case (Cons f files)
  obtain p d where f: "f = (p, d)" by force
  have p: "ram_named p d" "vfs_path_valid p" "length d \<le> 4096" "vfs_find p v = None" "parent_ok (nodes v) p"
    "unat (file_count v) < 8" "p \<notin> fst ` set files"
    using Cons.prems(2) by (auto simp: installable_def f)
  have acc: "ram_accepts p d v"
    using p vfs_parent_exists_iff [OF vfs_inv_uniq(1) [OF Cons.prems(1)]]
    by (simp add: ram_accepts_def vfs_file_count_def word_less_nat_alt)
  from ram_create_ok [OF Cons.prems(1) p(1) acc, of hw]
  obtain v1 where v1: "vfs_create hw p d (of_nat (length d)) v = (True, v1)" "vfs_inv v1"
    "ram_files v1 = (ram_files v)(p \<mapsto> d)" "\<And>q. q \<noteq> p \<Longrightarrow> vfs_find q v1 = vfs_find q v" by blast
  have disk: "vfs_disk_path p = None" using p(1) by (simp add: ram_named_def)
  note c = has_dir_create [OF v1(1) disk]
  have count: "unat (file_count v1) = unat (file_count v) + 1"
    unfolding c(2) using p(6) by (subst unat_add_no_wrap) simp_all
  have po: "parent_ok (nodes v) q \<Longrightarrow> parent_ok (nodes v1) q" for q using c(1) by (auto simp: parent_ok_def)
  have "installable files v1"
    unfolding installable_def
  proof (intro conjI ballI)
    show "distinct (map fst files)" "unat (file_count v1) + length files \<le> 8"
      using Cons.prems(2) count by (simp_all add: installable_def)
    fix g assume g: "g \<in> set files"
    obtain q e where qe: "g = (q, e)" by force
    have "q \<noteq> p" using g qe p(7) by force
    moreover have "ram_named q e" "vfs_path_valid q" "length e \<le> 4096" "vfs_find q v = None" "parent_ok (nodes v) q"
      using Cons.prems(2) g qe by (auto simp: installable_def)
    ultimately show "case g of (p, d) \<Rightarrow> ram_named p d \<and> vfs_path_valid p \<and> length d \<le> 4096 \<and> vfs_find p v1 = None \<and> parent_ok (nodes v1) p"
      using v1(4) po by (simp add: qe)
  qed
  from Cons.IH [OF v1(2) this] obtain v' where v': "install_files hw files v1 = (True, v')" "vfs_inv v'"
    "ram_files v' = ram_files v1 ++ map_of (rev files)" "unat (file_count v') = unat (file_count v1) + length files" by blast
  have "ram_files v1 ++ map_of (rev files) = ram_files v ++ map_of (rev (f # files))"
    unfolding v1(3) f by (auto simp: map_add_def split: option.splits)
  then show ?case using v1(1) v' count by (auto simp: f)
qed simp

text \<open>Making a directory in a tree without it.\<close>

lemma mkdir_ok:
  assumes "vfs_inv v" "vfs_path_valid p" "cstr_ok p" "vfs_find p v = None" "parent_ok (nodes v) p"
    and "unat (dir_count v) < 8" "\<exists>n\<in>set (nodes v). \<not> rn_used n"
  shows "\<exists>v'. vfs_mkdir p v = (True, v') \<and> vfs_inv v' \<and> has_dir (nodes v') p \<and> (\<forall>d. has_dir (nodes v) d \<longrightarrow> has_dir (nodes v') d) \<and>
    (\<forall>q. q \<noteq> p \<longrightarrow> vfs_find q v' = vfs_find q v) \<and> file_count v' = file_count v \<and> dir_count v' = dir_count v + 1"
proof -
  obtain i where i: "vfs_alloc_node v = Some i"
    using assms(7) by (cases "vfs_alloc_node v") (auto simp: vfs_alloc_node_def find_slot_None_iff)
  note free = vfs_alloc_nodeD [OF i]
  let ?n = "(nodes v ! i)\<lparr>rn_path := p, rn_size := 0, rn_kind := RAMFS_DIRECTORY, rn_used := True\<rparr>"
  let ?v = "v\<lparr>nodes := (nodes v)[i := ?n], dir_count := dir_count v + 1\<rparr>"
  have step: "vfs_mkdir p v = (True, ?v)"
    using assms(2,4,6) i vfs_parent_exists_iff [OF vfs_inv_uniq(1) [OF assms(1)]] assms(5)
    by (simp add: vfs_mkdir_def word_le_nat_alt)
  then have inv: "vfs_inv ?v" using vfs_mkdir_inv [OF assms(1,3)] by (metis snd_conv)
  have named: "node_named (nodes ?v) q j \<longleftrightarrow> (if j = i then q = p else node_named (nodes v) q j)" for q j
    using free by (auto simp: node_named_def)
  have "vfs_find q ?v = vfs_find q v" if "q \<noteq> p" for q
  proof -
    have same: "node_named (nodes ?v) q j \<longleftrightarrow> node_named (nodes v) q j" for j
      unfolding named using that free by (auto simp: node_named_def)
    show ?thesis
      using vfs_find_named [OF vfs_inv_uniq(1) [OF inv], of q] vfs_find_named [OF vfs_inv_uniq(1) [OF assms(1)], of q] same
      by (metis (no_types) not_Some_eq)
  qed
  moreover have "has_dir (nodes ?v) p" using named [of p i] free(1) by (auto simp: has_dir_iff intro!: exI [of _ i])
  moreover have "has_dir (nodes ?v) d" if d: "has_dir (nodes v) d" for d
  proof -
    obtain j where j: "node_named (nodes v) d j" "rn_kind (nodes v ! j) = RAMFS_DIRECTORY" using d by (auto simp: has_dir_iff)
    then have "j \<noteq> i" using free by (auto simp: node_named_def)
    then have "node_named (nodes ?v) d j" "rn_kind (nodes ?v ! j) = RAMFS_DIRECTORY" using j named [of d j] by auto
    then show ?thesis unfolding has_dir_iff by blast
  qed
  ultimately show ?thesis using step inv by simp
qed

lemma program_paths:
  "\<forall>(p, d)\<in>set program_files. cstr_ok p \<and> vfs_disk_path p = None \<and> vfs_path_valid p \<and>
     (parent_path p = bytes_of ''/bin'' \<or> parent_path p = bytes_of ''/share'') \<and>
     p \<noteq> bytes_of ''/bin'' \<and> p \<noteq> bytes_of ''/share''"
  "distinct (map fst program_files)"
  by (simp_all add: program_files_def program_images_def bytes_of_def cstr_ok_def vfs_disk_path_def vfs_path_valid_def
      parent_path_def last_slash_def)

lemma map_of_rev_distinct: "distinct (map fst xs) \<Longrightarrow> map_of (rev xs) = map_of xs"
  by (subst map_of_inject_set) (simp_all add: rev_map [symmetric])

lemma image_ok:
  assumes "(p, f) \<in> set program_images"
  shows "\<exists>code data. 0 < code \<and> image_sizes f code data"
proof -
  have "f \<in> {user_demo_image, user_fault_image, user_file_image, user_file_write_image, user_file_seek_image, user_args_image,
      user_spawn_image}" using assms by (auto simp: program_images_def)
  moreover have "0 < (numeral n :: nat)" for n by simp
  ultimately show ?thesis using program_images_sizes by (elim insertE emptyE) blast+
qed

lemma program_named:
  assumes "(p, f) \<in> set program_files"
  shows "ram_named p f" "length f \<le> 4096"
proof -
  have "\<forall>(p, f)\<in>set program_files. length f \<le> 4096"
    using program_images_sizes by (simp add: program_files_def program_images_def image_sizes_def)
  then show "length f \<le> 4096" using assms by blast
  then show "ram_named p f" using program_paths(1) assms by (auto simp: ram_named_def)
qed

lemma ram_fetch_eq: "ram_named p f \<Longrightarrow> ram_fetch hw p v = (ram_files v p, v)"
  by (auto simp: ram_fetch_def vfs_file_data_def ram_named_def ram_files_def split: option.splits)

lemma disk_create:
  assumes "vfs_disk_path p \<noteq> None"
  shows "nodes (snd (vfs_create hw p d sz v)) = nodes v" "file_count (snd (vfs_create hw p d sz v)) = file_count v"
    "vfs_inv (snd (vfs_create hw p d sz v)) = vfs_inv v"
  using assms by (auto simp: vfs_create_def split: prod.splits)

lemma disk_program_paths [simp]:
  "vfs_disk_path (bytes_of ''/disk/bin/user-demo.sx'') \<noteq> None" "vfs_disk_path (bytes_of ''/disk/bin/user-fault.sx'') \<noteq> None"
  "vfs_disk_path (bytes_of ''/disk/syscall.txt'') \<noteq> None"
  by (simp_all add: vfs_disk_path_def bytes_of_def)

lemma directories_made:
  "\<exists>v1 v2. vfs_mkdir (bytes_of ''/bin'') (vfs_init (vfs_bss s)) = (True, v1) \<and> vfs_mkdir (bytes_of ''/share'') v1 = (True, v2) \<and>
     vfs_inv v2 \<and> has_dir (nodes v2) (bytes_of ''/bin'') \<and> has_dir (nodes v2) (bytes_of ''/share'') \<and> file_count v2 = 0 \<and>
     (\<forall>q. q \<noteq> bytes_of ''/bin'' \<and> q \<noteq> bytes_of ''/share'' \<longrightarrow> vfs_find q v2 = None)"
proof -
  let ?v = "vfs_init (vfs_bss s)" and ?b = "bytes_of ''/bin''" and ?s = "bytes_of ''/share''"
  have p: "vfs_path_valid ?b" "cstr_ok ?b" "last_slash ?b = 0" "vfs_path_valid ?s" "cstr_ok ?s" "last_slash ?s = 0" "?b \<noteq> ?s"
    by (simp_all add: vfs_path_valid_def cstr_ok_def last_slash_def bytes_of_def)
  have boot: "file_count ?v = 0" "dir_count ?v = 0" "\<exists>n\<in>set (nodes ?v). \<not> rn_used n"
    by (simp_all add: vfs_init_def vfs_bss_def)
  obtain v1 where v1: "vfs_mkdir ?b ?v = (True, v1)" "vfs_inv v1" "has_dir (nodes v1) ?b"
    "\<And>q. q \<noteq> ?b \<Longrightarrow> vfs_find q v1 = vfs_find q ?v" "file_count v1 = 0" "dir_count v1 = 1"
    using mkdir_ok [OF vfs_bss_inv [of s] p(1,2) vfs_boot_find [of ?b s]] p(3) boot by (auto simp: parent_ok_def)
  have room: "\<exists>n\<in>set (nodes v1). \<not> rn_used n"
    using vfs_slot_free [OF v1(2)] v1(5) by (auto simp: vfs_alloc_node_def find_slot_None_iff)
  have "\<exists>v2. vfs_mkdir ?s v1 = (True, v2) \<and> vfs_inv v2 \<and> has_dir (nodes v2) ?s \<and>
      (\<forall>d. has_dir (nodes v1) d \<longrightarrow> has_dir (nodes v2) d) \<and> (\<forall>q. q \<noteq> ?s \<longrightarrow> vfs_find q v2 = vfs_find q v1) \<and>
      file_count v2 = file_count v1 \<and> dir_count v2 = dir_count v1 + 1"
    by (rule mkdir_ok [OF v1(2) p(4,5)]) (use v1(4) [of ?s] p(6,7) v1(6) room vfs_boot_find in \<open>auto simp: parent_ok_def\<close>)
  then obtain v2 where v2: "vfs_mkdir ?s v1 = (True, v2)" "vfs_inv v2" "has_dir (nodes v2) ?s"
    "\<And>d. has_dir (nodes v1) d \<Longrightarrow> has_dir (nodes v2) d" "\<And>q. q \<noteq> ?s \<Longrightarrow> vfs_find q v2 = vfs_find q v1" "file_count v2 = file_count v1"
    by blast
  have "vfs_find q v2 = None" if "q \<noteq> ?b" "q \<noteq> ?s" for q
    using v2(5) [OF that(2)] v1(4) [OF that(1)] vfs_boot_find [of q s] by simp
  moreover have "has_dir (nodes v2) ?b" by (rule v2(4) [OF v1(3)])
  ultimately show ?thesis using v1(1,5) v2(1,2,3,6) by (intro exI [of _ v1] exI [of _ v2]) simp
qed

lemma programs_init_state:
  "\<exists>v. user_programs_init hw (vfs_init (vfs_bss s)) = (True, v) \<and> vfs_inv v \<and> ram_files v = map_of program_files \<and> file_count v = 8"
proof -
  obtain v1 v2 where d: "vfs_mkdir (bytes_of ''/bin'') (vfs_init (vfs_bss s)) = (True, v1)" "vfs_mkdir (bytes_of ''/share'') v1 = (True, v2)"
    "vfs_inv v2" "has_dir (nodes v2) (bytes_of ''/bin'')" "has_dir (nodes v2) (bytes_of ''/share'')" "file_count v2 = 0"
    "\<And>q. q \<noteq> bytes_of ''/bin'' \<and> q \<noteq> bytes_of ''/share'' \<Longrightarrow> vfs_find q v2 = None"
    using directories_made [of s] by blast
  have inst: "installable program_files v2"
    unfolding installable_def
  proof (intro conjI ballI)
    show "distinct (map fst program_files)" by (rule program_paths)
    show "unat (file_count v2) + length program_files \<le> 8" by (simp add: d(6) program_files_def program_images_def)
    fix g assume g: "g \<in> set program_files"
    obtain q e where qe: "g = (q, e)" by force
    show "case g of (p, d) \<Rightarrow> ram_named p d \<and> vfs_path_valid p \<and> length d \<le> 4096 \<and> vfs_find p v2 = None \<and> parent_ok (nodes v2) p"
      using program_paths(1) program_named [of q e] g d(4,5,7) by (force simp: qe parent_ok_def)
  qed
  obtain v3 where v3: "install_files hw program_files v2 = (True, v3)" "vfs_inv v3"
    "ram_files v3 = ram_files v2 ++ map_of (rev program_files)" "unat (file_count v3) = 8"
    using install_files_ok [OF d(3) inst, of hw] d(6) by (auto simp: program_files_def program_images_def)
  have "ram_files v2 q = None" for q
  proof (cases "q = bytes_of ''/bin'' \<or> q = bytes_of ''/share''")
    case True
    then obtain j where j: "node_named (nodes v2) q j" "rn_kind (nodes v2 ! j) = RAMFS_DIRECTORY"
      using d(4,5) by (auto simp: has_dir_iff)
    then have "vfs_find q v2 = Some j" using vfs_find_named [OF vfs_inv_uniq(1) [OF d(3)]] by blast
    then show ?thesis using j(2) by (simp add: ram_files_def)
  next
    case False
    then show ?thesis using d(7) [of q] by (simp add: ram_files_def)
  qed
  then have "ram_files v2 = Map.empty" by blast
  then have files: "ram_files v3 = map_of program_files"
    using v3(3) map_of_rev_distinct [OF program_paths(2)] by simp
  have eight: "file_count v3 = 8" using v3(4) by (simp add: word_unat_eq_iff)
  define v4 where "v4 = snd (vfs_create hw (bytes_of ''/disk/bin/user-demo.sx'') user_demo_image (of_nat (length user_demo_image)) v3)"
  define v5 where "v5 = snd (vfs_create hw (bytes_of ''/disk/bin/user-fault.sx'') user_fault_image (of_nat (length user_fault_image)) v4)"
  define v6 where "v6 = snd (vfs_create hw (bytes_of ''/disk/syscall.txt'') user_file_message (of_nat (length user_file_message)) v5)"
  have "user_programs_init hw (vfs_init (vfs_bss s)) = (True, v6)"
    unfolding user_programs_init_def by (simp add: d(1,2) v3(1) v4_def v5_def v6_def Let_def)
  moreover have "nodes v6 = nodes v3" "file_count v6 = 8" "vfs_inv v6"
    unfolding v6_def v5_def v4_def using eight v3(2) by (simp_all add: disk_create)
  moreover have "ram_files v6 = ram_files v3" by (rule ram_files_cong) (simp add: calculation(2))
  ultimately show ?thesis using files by (intro exI [of _ v6]) simp
qed

section \<open>Properties\<close>

text \<open>
  C26: the built-in programs are installed at boot. On the file system as vfs_init leaves it,
  user_programs_init succeeds whatever the disk does; the RAM files are then exactly the seven program
  images and the demo text, every image is read back through vfs_file_data and accepted by the
  executable parser with its entry at the start of the code. They take all eight file slots, so that
  until one of them is removed no other RAM file can be created.
\<close>

theorem programs_installed:
  assumes "user_programs_init hw (vfs_init (vfs_bss s)) = (ok, v)"
  shows "ok \<and> vfs_inv v \<and> ram_files v = map_of program_files \<and>
    (\<forall>(p, f)\<in>set program_images. \<exists>code data. 0 < code \<and> image_sizes f code data \<and> ram_fetch hw p v = (Some f, v)) \<and>
    (vfs_disk_path path = None \<longrightarrow> vfs_create hw path bytes sz v = (False, v))"
proof -
  have v: "ok" "vfs_inv v" "ram_files v = map_of program_files" "file_count v = 8"
    using programs_init_state [of hw s] assms by auto
  have "\<exists>code data. 0 < code \<and> image_sizes f code data \<and> ram_fetch hw p v = (Some f, v)" if pf: "(p, f) \<in> set program_images" for p f
  proof -
    have "(p, f) \<in> set program_files" using pf by (simp add: program_files_def)
    then have "ram_files v p = Some f" using v(3) program_paths(2) by (simp add: map_of_is_SomeI)
    then have "ram_fetch hw p v = (Some f, v)"
      using ram_fetch_eq [OF program_named(1) [OF \<open>(p, f) \<in> set program_files\<close>], of hw v] by simp
    then show ?thesis using image_ok [OF pf] by blast
  qed
  moreover have "vfs_create hw path bytes sz v = (False, v)" if "vfs_disk_path path = None"
    using that v(4) by (simp add: vfs_create_def)
  ultimately show ?thesis using v by auto
qed

theorem programs_installed_witness:
  "\<exists>v. user_programs_init instant_hw (vfs_init (vfs_bss (sfs_boot ramdisk_boot))) = (True, v) \<and>
     ram_fetch instant_hw (bytes_of ''/bin/user-demo.sx'') v = (Some user_demo_image, v) \<and>
     vfs_create instant_hw [slash, 0x61] [] 0 v = (False, v)"
proof -
  obtain ok v where i: "user_programs_init instant_hw (vfs_init (vfs_bss (sfs_boot ramdisk_boot))) = (ok, v)" by (rule prod.exhaust)
  have "vfs_disk_path [slash, 0x61] = None" by (simp add: vfs_disk_path_def)
  moreover have "(bytes_of ''/bin/user-demo.sx'', user_demo_image) \<in> set program_images" by (simp add: program_images_def)
  ultimately show ?thesis using programs_installed [OF i, of "[slash, 0x61]" "[]" 0] i by auto
qed

end
