(* ===== verification/Uart.thy ===== *)
theory Uart
  imports Prelude
begin

text \<open>
  The serial port, drivers/uart/uart.c. The PL011 is hardware and a parameter: its flag register, its
  data register and the passage of time between two reads of the flags.
\<close>

record 'u uart_hw =
  uart_fr :: "'u \<Rightarrow> u32"
  uart_dr_write :: "u32 \<Rightarrow> 'u \<Rightarrow> 'u"
  uart_dr_read :: "'u \<Rightarrow> u32 \<times> 'u"
  uart_wait :: "'u \<Rightarrow> 'u"

abbreviation UART_FR_TXFF :: u32 where "UART_FR_TXFF \<equiv> 0x20"
abbreviation UART_FR_RXFE :: u32 where "UART_FR_RXFE \<equiv> 0x10"

text \<open>\<open>None\<close> is a wait that never ends.\<close>

partial_function (option) uart_putc :: "'u uart_hw \<Rightarrow> u8 \<Rightarrow> 'u \<Rightarrow> 'u option" where
  "uart_putc hw c u =
     (if uart_fr hw u AND UART_FR_TXFF \<noteq> 0 then uart_putc hw c (uart_wait hw u)
      else Some (uart_dr_write hw (ucast c) u))"

fun uart_puts :: "'u uart_hw \<Rightarrow> cstring \<Rightarrow> 'u \<Rightarrow> 'u option" where
  "uart_puts hw [] u = Some u"
| "uart_puts hw (c # str) u = (case uart_putc hw c u of None \<Rightarrow> None | Some u \<Rightarrow> uart_puts hw str u)"

definition uart_read_ready :: "'u uart_hw \<Rightarrow> 'u \<Rightarrow> bool" where
  "uart_read_ready hw u \<longleftrightarrow> uart_fr hw u AND UART_FR_RXFE = 0"

partial_function (option) uart_getc :: "'u uart_hw \<Rightarrow> 'u \<Rightarrow> (u8 \<times> 'u) option" where
  "uart_getc hw u =
     (if \<not> uart_read_ready hw u then uart_getc hw (uart_wait hw u)
      else case uart_dr_read hw u of (x, u) \<Rightarrow> Some (ucast (x AND 0xff), u))"

section \<open>A port that works\<close>

text \<open>
  What the PL011 documents: a full transmit buffer drains after a while, waiting sends and receives
  nothing new for the program, and a write to the data register sends one byte. \<open>sent\<close> is what has
  been sent so far.
\<close>

definition uart_lawful :: "'u uart_hw \<Rightarrow> ('u \<Rightarrow> cstring) \<Rightarrow> bool" where
  "uart_lawful hw sent \<longleftrightarrow>
     (\<forall>u. \<exists>n. uart_fr hw ((uart_wait hw ^^ n) u) AND UART_FR_TXFF = 0) \<and>
     (\<forall>u. sent (uart_wait hw u) = sent u) \<and>
     (\<forall>u c. uart_fr hw u AND UART_FR_TXFF = 0 \<longrightarrow> sent (uart_dr_write hw (ucast (c :: u8)) u) = sent u @ [c])"

lemma uart_putc_sends:
  assumes "uart_lawful hw sent"
  shows "\<exists>u'. uart_putc hw c u = Some u' \<and> sent u' = sent u @ [c]"
proof -
  obtain n where "uart_fr hw ((uart_wait hw ^^ n) u) AND UART_FR_TXFF = 0" using assms unfolding uart_lawful_def by metis
  then show ?thesis
  proof (induction n arbitrary: u)
    case 0
    then show ?case using assms by (auto simp: uart_putc.simps [of hw c u] uart_lawful_def)
  next
    case (Suc n)
    show ?case
    proof (cases "uart_fr hw u AND UART_FR_TXFF = 0")
      case True
      then show ?thesis using assms by (auto simp: uart_putc.simps [of hw c u] uart_lawful_def)
    next
      case False
      have "sent (uart_wait hw u) = sent u" using assms by (simp add: uart_lawful_def)
      then show ?thesis
        using Suc.IH [of "uart_wait hw u"] Suc.prems False by (simp add: uart_putc.simps [of hw c u] funpow_swap1)
    qed
  qed
qed

lemma uart_puts_sends:
  assumes "uart_lawful hw sent"
  shows "\<exists>u'. uart_puts hw str u = Some u' \<and> sent u' = sent u @ str"
proof (induction str arbitrary: u)
  case (Cons c str)
  obtain u1 where u1: "uart_putc hw c u = Some u1" "sent u1 = sent u @ [c]" using uart_putc_sends [OF assms] by blast
  with Cons.IH [of u1] show ?case by auto
qed simp

end
