(* ===== verification/Keyboard.thy ===== *)
theory Keyboard
  imports Uart
begin

text \<open>
  The keyboard driver, drivers/keyboard/keyboard.c: probing the virtio input device, the event queue it
  shares with the device, the translation of key codes, and the fall back to the serial port. The
  device is a parameter that acts on the shared queue memory: when it is notified and while time passes
  before a read of used->idx.
\<close>

section \<open>Queue memory\<close>

abbreviation VIRTIO_KEYBOARD_QUEUE_SIZE :: nat where "VIRTIO_KEYBOARD_QUEUE_SIZE \<equiv> 16"
abbreviation VIRTIO_KEYBOARD_QUEUE_ALIGN :: u64 where "VIRTIO_KEYBOARD_QUEUE_ALIGN \<equiv> 4096"
abbreviation KBD_STATUS :: u64 where "KBD_STATUS \<equiv> 0x070"

record kbd_desc =
  kd_addr :: u64
  kd_len :: u32
  kd_flags :: u16
  kd_next :: u16

record virtq_used_elem =
  ue_id :: u32
  ue_len :: u32

record virtio_input_event =
  ev_type :: u16
  ev_code :: u16
  ev_value :: "32 word"

text \<open>Descriptors and available ring are written by the driver, used ring and events by the device.\<close>

record keyboard_memory =
  keyboard_desc :: "kbd_desc list"
  keyboard_avail_idx :: u16
  keyboard_avail_ring :: "u16 list"
  keyboard_used_idx :: u16
  keyboard_used_ring :: "virtq_used_elem list"
  keyboard_events :: "virtio_input_event list"

record 'd input_hw =
  in_read32 :: "u64 \<Rightarrow> 'd \<Rightarrow> u32"
  in_write32 :: "u64 \<Rightarrow> u32 \<Rightarrow> 'd \<Rightarrow> 'd"
  in_notify :: "keyboard_memory \<Rightarrow> 'd \<Rightarrow> keyboard_memory \<times> 'd"
  in_poll :: "keyboard_memory \<Rightarrow> 'd \<Rightarrow> keyboard_memory \<times> 'd"
  in_queue :: u64
  in_events :: u64

record 'd keyboard =
  kdev :: 'd
  kmem :: keyboard_memory
  virtio_keyboard_base :: u64
  virtio_keyboard_last_used :: u16
  virtio_keyboard_ready :: bool
  keyboard_initialized :: bool
  keyboard_shift :: bool

section \<open>Setting up\<close>

definition virtio_keyboard_setup_queue_memory :: "keyboard_memory \<Rightarrow> keyboard_memory" where
  "virtio_keyboard_setup_queue_memory m =
     m\<lparr>keyboard_desc := replicate VIRTIO_KEYBOARD_QUEUE_SIZE \<lparr>kd_addr = 0, kd_len = 0, kd_flags = 0, kd_next = 0\<rparr>,
       keyboard_avail_idx := 0, keyboard_avail_ring := replicate VIRTIO_KEYBOARD_QUEUE_SIZE 0,
       keyboard_used_idx := 0, keyboard_used_ring := replicate VIRTIO_KEYBOARD_QUEUE_SIZE \<lparr>ue_id = 0, ue_len = 0\<rparr>\<rparr>"

definition virtio_keyboard_clear_events :: "keyboard_memory \<Rightarrow> keyboard_memory" where
  "virtio_keyboard_clear_events m =
     m\<lparr>keyboard_events := replicate VIRTIO_KEYBOARD_QUEUE_SIZE \<lparr>ev_type = 0, ev_code = 0, ev_value = 0\<rparr>\<rparr>"

text \<open>The buffer is offered to the device in memory before the notification.\<close>

definition offer_buffer :: "'d input_hw \<Rightarrow> u16 \<Rightarrow> keyboard_memory \<Rightarrow> keyboard_memory" where
  "offer_buffer hw index m =
     m\<lparr>keyboard_desc := (keyboard_desc m)[unat index :=
         \<lparr>kd_addr = in_events hw + of_nat (unat index * 8), kd_len = 8, kd_flags = 2, kd_next = 0\<rparr>],
       keyboard_avail_ring := (keyboard_avail_ring m)[unat (keyboard_avail_idx m mod of_nat VIRTIO_KEYBOARD_QUEUE_SIZE) := index],
       keyboard_avail_idx := keyboard_avail_idx m + 1\<rparr>"

definition virtio_keyboard_add_buffer :: "'d input_hw \<Rightarrow> u16 \<Rightarrow> 'd keyboard \<Rightarrow> 'd keyboard" where
  "virtio_keyboard_add_buffer hw index k =
     (case in_notify hw (offer_buffer hw index (kmem k)) (kdev k) of (m, d) \<Rightarrow> k\<lparr>kmem := m, kdev := d\<rparr>)"

definition kbd_write :: "'d input_hw \<Rightarrow> u64 \<Rightarrow> u64 \<Rightarrow> u32 \<Rightarrow> 'd keyboard \<Rightarrow> 'd keyboard" where
  "kbd_write hw base offset value k = k\<lparr>kdev := in_write32 hw (base + offset) value (kdev k)\<rparr>"

definition kbd_read :: "'d input_hw \<Rightarrow> u64 \<Rightarrow> u64 \<Rightarrow> 'd keyboard \<Rightarrow> u32" where
  "kbd_read hw base offset k = in_read32 hw (base + offset) (kdev k)"

definition prepare_queue :: "u64 \<Rightarrow> 'd keyboard \<Rightarrow> 'd keyboard" where
  "prepare_queue base k =
     k\<lparr>kmem := virtio_keyboard_setup_queue_memory (virtio_keyboard_clear_events (kmem k)),
       virtio_keyboard_last_used := 0, virtio_keyboard_base := base\<rparr>"

definition virtio_keyboard_finish_modern :: "'d input_hw \<Rightarrow> u64 \<Rightarrow> u32 \<Rightarrow> 'd keyboard \<Rightarrow> bool \<times> 'd keyboard" where
  "virtio_keyboard_finish_modern hw base status k =
     (let wr = kbd_write hw base; rd = kbd_read hw base; k = wr 0x014 1 k
      in if rd 0x010 k AND 1 = 0 then (False, wr KBD_STATUS 0 k)
         else
           let k = wr 0x024 0 k; k = wr 0x020 0 k; k = wr 0x024 1 k; k = wr 0x020 1 k;
               status = status OR 8; k = wr KBD_STATUS status k
           in if rd KBD_STATUS k AND 8 = 0 then (False, wr KBD_STATUS 0 k)
              else
                let k = wr 0x030 0 k
                in if rd 0x034 k < of_nat VIRTIO_KEYBOARD_QUEUE_SIZE then (False, wr KBD_STATUS 0 k)
                   else
                     let k = prepare_queue base k;
                         desc = in_queue hw; avail = in_queue hw + 16 * 16; used = in_queue hw + VIRTIO_KEYBOARD_QUEUE_ALIGN;
                         k = wr 0x044 0 k; k = wr 0x038 (of_nat VIRTIO_KEYBOARD_QUEUE_SIZE) k;
                         k = wr 0x080 (ucast desc) k; k = wr 0x084 (ucast (drop_bit 32 desc)) k;
                         k = wr 0x090 (ucast avail) k; k = wr 0x094 (ucast (drop_bit 32 avail)) k;
                         k = wr 0x0a0 (ucast used) k; k = wr 0x0a4 (ucast (drop_bit 32 used)) k;
                         k = wr 0x044 1 k;
                         k = fold (virtio_keyboard_add_buffer hw) (map of_nat [0..<VIRTIO_KEYBOARD_QUEUE_SIZE]) k;
                         k = wr KBD_STATUS (status OR 4) k
                     in (True, k\<lparr>virtio_keyboard_ready := True\<rparr>))"

definition virtio_keyboard_finish_legacy :: "'d input_hw \<Rightarrow> u64 \<Rightarrow> u32 \<Rightarrow> 'd keyboard \<Rightarrow> bool \<times> 'd keyboard" where
  "virtio_keyboard_finish_legacy hw base status k =
     (let wr = kbd_write hw base; rd = kbd_read hw base;
          k = wr 0x020 0 k; k = wr 0x028 (ucast VIRTIO_KEYBOARD_QUEUE_ALIGN) k; k = wr 0x030 0 k
      in if rd 0x034 k < of_nat VIRTIO_KEYBOARD_QUEUE_SIZE then (False, wr KBD_STATUS 0 k)
         else
           let k = prepare_queue base k;
               k = wr 0x038 (of_nat VIRTIO_KEYBOARD_QUEUE_SIZE) k;
               k = wr 0x03c (ucast VIRTIO_KEYBOARD_QUEUE_ALIGN) k;
               k = wr 0x040 (ucast (drop_bit 12 (in_queue hw))) k;
               k = fold (virtio_keyboard_add_buffer hw) (map of_nat [0..<VIRTIO_KEYBOARD_QUEUE_SIZE]) k;
               k = wr KBD_STATUS (status OR 4) k
           in (True, k\<lparr>virtio_keyboard_ready := True\<rparr>))"

definition virtio_keyboard_probe_transport :: "'d input_hw \<Rightarrow> u64 \<Rightarrow> 'd keyboard \<Rightarrow> bool \<times> 'd keyboard" where
  "virtio_keyboard_probe_transport hw base k =
     (if kbd_read hw base 0x000 k \<noteq> 0x74726976 \<or> kbd_read hw base 0x008 k \<noteq> 18 then (False, k)
      else
        let version = kbd_read hw base 0x004 k;
            k = kbd_write hw base KBD_STATUS 0 k;
            status = 1 OR 2;
            k = kbd_write hw base KBD_STATUS status k
        in if version = 2 then virtio_keyboard_finish_modern hw base status k
           else if version = 1 then virtio_keyboard_finish_legacy hw base status k
           else (False, kbd_write hw base KBD_STATUS 0 k))"

fun keyboard_probe_from :: "'d input_hw \<Rightarrow> nat \<Rightarrow> nat \<Rightarrow> 'd keyboard \<Rightarrow> 'd keyboard" where
  "keyboard_probe_from hw i 0 k = k"
| "keyboard_probe_from hw i (Suc n) k =
     (case virtio_keyboard_probe_transport hw (0x0a000000 + of_nat i * 0x200) k of
        (True, k) \<Rightarrow> k
      | (False, k) \<Rightarrow> keyboard_probe_from hw (Suc i) n k)"

definition virtio_keyboard_init :: "'d input_hw \<Rightarrow> 'd keyboard \<Rightarrow> 'd keyboard" where
  "virtio_keyboard_init hw k = keyboard_probe_from hw 0 32 k"

definition keyboard_init :: "'d input_hw \<Rightarrow> 'd keyboard \<Rightarrow> 'd keyboard" where
  "keyboard_init hw k =
     (if keyboard_initialized k then k else virtio_keyboard_init hw (k\<lparr>keyboard_initialized := True\<rparr>))"

section \<open>Key codes\<close>

definition normal_keys :: cstring where
  "normal_keys = [0, 0] @ bytes_of ''1234567890-='' @ [0, 0] @ bytes_of ''qwertyuiop[]'' @ [0, 0] @
     bytes_of ''asdfghjkl;'' @ [0x27, 0x60] @ [0] @ [0x5c] @ bytes_of ''zxcvbnm,./''"

definition shifted_keys :: cstring where
  "shifted_keys = [0, 0] @ bytes_of ''!@#$%^&*()_+'' @ [0, 0] @ bytes_of ''QWERTYUIOP{}'' @ [0, 0] @
     bytes_of ''ASDFGHJKL:'' @ [0x22, 0x7e] @ [0] @ [0x7c] @ bytes_of ''ZXCVBNM<>?''"

definition keycode_to_ascii :: "bool \<Rightarrow> u16 \<Rightarrow> u8" where
  "keycode_to_ascii shift code =
     (if code = 28 then 0x0a
      else if code = 14 then 0x08
      else if code = 15 then 0x09
      else if code = 57 then 0x20
      else if code = 102 then 0x01
      else if code = 103 then 0x03
      else if code = 105 then 0x02
      else if code = 111 then 0x04
      else if code = 107 then 0x05
      else if code = 108 then 0x0e
      else if code = 106 then 0x06
      else if unat code \<ge> length normal_keys then 0
      else if shift then shifted_keys ! unat code
      else normal_keys ! unat code)"

section \<open>Reading\<close>

text \<open>
  The loop of \<open>virtio_keyboard_read_char\<close>. Before each test of used->idx time passes for the device.
\<close>

partial_function (option) virtio_keyboard_read_char :: "'d input_hw \<Rightarrow> 'd keyboard \<Rightarrow> (u8 option \<times> 'd keyboard) option" where
  "virtio_keyboard_read_char hw k0 =
     (let k = (case in_poll hw (kmem k0) (kdev k0) of (m, d) \<Rightarrow> k0\<lparr>kmem := m, kdev := d\<rparr>)
      in if \<not> (virtio_keyboard_ready k \<and> virtio_keyboard_last_used k \<noteq> keyboard_used_idx (kmem k)) then Some (None, k)
         else
           let used_index = unat (virtio_keyboard_last_used k mod of_nat VIRTIO_KEYBOARD_QUEUE_SIZE);
               id = ue_id (keyboard_used_ring (kmem k) ! used_index);
               k = k\<lparr>virtio_keyboard_last_used := virtio_keyboard_last_used k + 1\<rparr>
           in if id \<ge> of_nat VIRTIO_KEYBOARD_QUEUE_SIZE then virtio_keyboard_read_char hw k
              else
                let event = keyboard_events (kmem k) ! unat id;
                    k = virtio_keyboard_add_buffer hw (ucast id) k
                in if ev_type event \<noteq> 1 then virtio_keyboard_read_char hw k
                   else if ev_code event = 42 \<or> ev_code event = 54
                   then virtio_keyboard_read_char hw (k\<lparr>keyboard_shift := ev_value event \<noteq> 0\<rparr>)
                   else if ev_value event = 0 then virtio_keyboard_read_char hw k
                   else
                     let c = keycode_to_ascii (keyboard_shift k) (ev_code event)
                     in if c \<noteq> 0 then Some (Some c, k) else virtio_keyboard_read_char hw k)"

definition keyboard_read_char ::
    "'d input_hw \<Rightarrow> 'u uart_hw \<Rightarrow> 'd keyboard \<Rightarrow> 'u \<Rightarrow> (u8 option \<times> 'd keyboard \<times> 'u) option" where
  "keyboard_read_char hw uhw k u =
     (case virtio_keyboard_read_char hw k of
        None \<Rightarrow> None
      | Some (Some c, k) \<Rightarrow> Some (Some c, k, u)
      | Some (None, k) \<Rightarrow>
          if \<not> uart_read_ready uhw u then Some (None, k, u)
          else (case uart_getc uhw u of None \<Rightarrow> None | Some (c, u) \<Rightarrow> Some (Some c, k, u)))"

definition keyboard_graphical_ready :: "'d keyboard \<Rightarrow> bool" where
  "keyboard_graphical_ready k = virtio_keyboard_ready k"

definition keyboard_source :: "'d keyboard \<Rightarrow> string" where
  "keyboard_source k = (if virtio_keyboard_ready k then ''UART + virtio keyboard'' else ''UART'')"

section \<open>The queue as a list of events\<close>

text \<open>The buffers the device has filled and the driver has not taken yet, oldest first.\<close>

definition pending_ids :: "u16 \<Rightarrow> keyboard_memory \<Rightarrow> u32 list" where
  "pending_ids lu m =
     map (\<lambda>j. ue_id (keyboard_used_ring m ! unat ((lu + of_nat j) mod of_nat VIRTIO_KEYBOARD_QUEUE_SIZE)))
       [0..<unat (keyboard_used_idx m - lu)]"

definition pending :: "u16 \<Rightarrow> keyboard_memory \<Rightarrow> virtio_input_event list" where
  "pending lu m = map (\<lambda>id. keyboard_events m ! unat id) (pending_ids lu m)"

lemma pending_ids_Cons:
  assumes "lu \<noteq> keyboard_used_idx m"
  shows "pending_ids lu m =
    ue_id (keyboard_used_ring m ! unat (lu mod of_nat VIRTIO_KEYBOARD_QUEUE_SIZE)) # pending_ids (lu + 1) m"
proof -
  have "keyboard_used_idx m - lu \<noteq> 0" using assms by auto
  then have "unat (keyboard_used_idx m - lu) \<noteq> 0" by (simp add: unat_eq_zero)
  moreover have "keyboard_used_idx m - (lu + 1) = keyboard_used_idx m - lu - 1" by simp
  ultimately have n: "unat (keyboard_used_idx m - lu) = Suc (unat (keyboard_used_idx m - (lu + 1)))"
    by (metis Suc_pred' not_gr0 unat_minus_one unat_eq_zero)
  show ?thesis
    unfolding pending_ids_def n by (simp add: upt_conv_Cons map_Suc_upt [symmetric] algebra_simps del: upt_Suc)
qed

lemma pending_empty: "pending lu m = [] \<longleftrightarrow> lu = keyboard_used_idx m"
  by (auto simp: pending_def pending_ids_def unat_eq_zero)

text \<open>
  What the virtio specification documents of the device. It only uses buffers of the queue; what it does
  between two steps of the driver, and when a buffer is offered to it again, leaves the events that the
  driver has not taken as they are and adds new ones behind them. \<open>sent\<close> is the record of all events the
  device has delivered so far, and \<open>budget\<close> bounds the number of those still to come, so that a call
  of the driver is not kept busy for ever.
\<close>

definition input_lawful ::
    "'d input_hw \<Rightarrow> (u16 \<Rightarrow> keyboard_memory \<Rightarrow> 'd \<Rightarrow> bool) \<Rightarrow> ('d \<Rightarrow> virtio_input_event list) \<Rightarrow> ('d \<Rightarrow> nat) \<Rightarrow> bool" where
  "input_lawful hw good sent budget \<longleftrightarrow>
     (\<forall>lu m d. good lu m d \<longrightarrow>
        (\<forall>id\<in>set (pending_ids lu m). id < of_nat VIRTIO_KEYBOARD_QUEUE_SIZE) \<and>
        (case in_poll hw m d of (m', d') \<Rightarrow>
           good lu m' d' \<and> (\<exists>new. pending lu m' = pending lu m @ new \<and> sent d' = sent d @ new \<and> budget d' + length new \<le> budget d)) \<and>
        (lu \<noteq> keyboard_used_idx m \<longrightarrow>
           (case in_notify hw (offer_buffer hw (ucast (hd (pending_ids lu m))) m) d of (m', d') \<Rightarrow>
              good (lu + 1) m' d' \<and>
              (\<exists>new. pending (lu + 1) m' = tl (pending lu m) @ new \<and> sent d' = sent d @ new \<and>
                 budget d' + length new \<le> budget d))))"

text \<open>
  The meaning of the key codes of the Linux input protocol on a US keyboard: the rows of the main block from
  their first code on, plain and with shift, and the keys that mean the same with and without shift.
\<close>

definition key_rows :: "(nat \<times> cstring \<times> cstring) list" where
  "key_rows =
     [(2, bytes_of ''1234567890-='', bytes_of ''!@#$%^&*()_+''),
      (16, bytes_of ''qwertyuiop[]'', bytes_of ''QWERTYUIOP{}''),
      (30, bytes_of ''asdfghjkl;'' @ [0x27, 0x60], bytes_of ''ASDFGHJKL:'' @ [0x22, 0x7e]),
      (43, 0x5c # bytes_of ''zxcvbnm,./'', 0x7c # bytes_of ''ZXCVBNM<>?'')]"

definition key_controls :: "(nat \<times> u8) list" where
  "key_controls =
     [(14, 0x08), (15, 0x09), (28, 0x0a), (57, 0x20), (102, 0x01), (105, 0x02), (103, 0x03), (111, 0x04), (107, 0x05), (106, 0x06), (108, 0x0e)]"

definition key_meaning :: "bool \<Rightarrow> nat \<Rightarrow> u8 option" where
  "key_meaning shift code =
     map_of (key_controls @ concat (map (\<lambda>(n, plain, shifted). enumerate n (if shift then shifted else plain)) key_rows)) code"

text \<open>The tables of the driver agree with the keyboard.\<close>

lemma row_lookup:
  "map_of (enumerate i xs) n = (if i \<le> n \<and> n < i + length xs then Some (xs ! (n - i)) else None)"
  by (auto simp: map_of_eq_None_iff in_set_enumerate_eq intro!: map_of_is_SomeI)

lemma table_lookup:
  fixes z :: "'a"
  assumes "length as = 12" "length bs = 12" "length cs = 12" "length ds = 11" "n < 54"
  shows "([z, z] @ as @ [z, z] @ bs @ [z, z] @ cs @ [z] @ ds) ! n =
    (if 2 \<le> n \<and> n < 14 then as ! (n - 2) else if 16 \<le> n \<and> n < 28 then bs ! (n - 16)
     else if 30 \<le> n \<and> n < 42 then cs ! (n - 30) else if 43 \<le> n \<and> n < 54 then ds ! (n - 43) else z)"
proof -
  have gaps: "(w @ as @ w @ bs @ w @ cs @ v @ ds) ! n =
      (if 2 \<le> n \<and> n < 14 then as ! (n - 2) else if 16 \<le> n \<and> n < 28 then bs ! (n - 16)
       else if 30 \<le> n \<and> n < 42 then cs ! (n - 30) else if 43 \<le> n \<and> n < 54 then ds ! (n - 43) else z)"
    if "length w = 2" "\<And>i. i < 2 \<Longrightarrow> w ! i = z" "length v = 1" "\<And>i. i < 1 \<Longrightarrow> v ! i = z" for w v
    using assms that by (auto simp: nth_append)
  show ?thesis by (rule gaps) (auto simp: nth_Cons')
qed

definition key_row :: "bool \<Rightarrow> nat \<Rightarrow> cstring" where
  "key_row b i = (case key_rows ! i of (n, plain, shifted) \<Rightarrow> if b then shifted else plain)"

lemma key_row_facts:
  "length (key_row b 0) = 12" "length (key_row b (Suc 0)) = 12" "length (key_row b 2) = 12" "length (key_row b 3) = 11"
  "0 \<notin> set (key_row b 0)" "0 \<notin> set (key_row b (Suc 0))" "0 \<notin> set (key_row b 2)" "0 \<notin> set (key_row b 3)"
  by (cases b; simp add: key_row_def key_rows_def bytes_of_def)+

lemma key_tables:
  "(if b then shifted_keys else normal_keys) =
     [0, 0] @ key_row b 0 @ [0, 0] @ key_row b (Suc 0) @ [0, 0] @ key_row b 2 @ [0] @ key_row b 3"
  by (cases b) (simp_all add: key_row_def key_rows_def shifted_keys_def normal_keys_def)

lemma key_meaning_rows:
  "key_meaning b n =
     (case map_of key_controls n of Some c \<Rightarrow> Some c
      | None \<Rightarrow> if 2 \<le> n \<and> n < 14 then Some (key_row b 0 ! (n - 2)) else if 16 \<le> n \<and> n < 28 then Some (key_row b (Suc 0) ! (n - 16))
          else if 30 \<le> n \<and> n < 42 then Some (key_row b 2 ! (n - 30)) else if 43 \<le> n \<and> n < 54 then Some (key_row b 3 ! (n - 43)) else None)"
proof -
  have "concat (map (\<lambda>(n, plain, shifted). enumerate n (if b then shifted else plain)) key_rows) =
      enumerate 2 (key_row b 0) @ enumerate 16 (key_row b (Suc 0)) @ enumerate 30 (key_row b 2) @ enumerate 43 (key_row b 3)"
    by (cases b) (simp_all add: key_row_def key_rows_def)
  then show ?thesis
    unfolding key_meaning_def by (auto simp: map_add_def row_lookup key_row_facts split: option.split)
qed

lemma keycode_meaning:
  "keycode_to_ascii b code = (case key_meaning b (unat code) of None \<Rightarrow> 0 | Some c \<Rightarrow> c) \<and> key_meaning b (unat code) \<noteq> Some 0"
proof (cases "map_of key_controls (unat code)")
  case None
  let ?n = "unat code"
  have other: "?n \<notin> {14, 15, 28, 57, 102, 103, 105, 106, 107, 108, 111}"
    using None by (auto simp: key_controls_def split: if_splits)
  then have not: "code \<notin> {14, 15, 28, 57, 102, 103, 105, 106, 107, 108, 111}" by auto
  have nonzero: "xs ! i \<noteq> 0" if "0 \<notin> set xs" "i < length xs" for i and xs :: cstring using that nth_mem by metis
  have rows: "n < 14 \<Longrightarrow> key_row b 0 ! (n - 2) \<noteq> 0" "n < 28 \<Longrightarrow> key_row b (Suc 0) ! (n - 16) \<noteq> 0" "n < 42 \<Longrightarrow> key_row b 2 ! (n - 30) \<noteq> 0"
    "n < 54 \<Longrightarrow> key_row b 3 ! (n - 43) \<noteq> 0" for n
    by (rule nonzero; simp add: key_row_facts; arith)+
  have "length normal_keys = 54" using arg_cong [OF key_tables [of False], of length] by (simp add: key_row_facts)
  then have "keycode_to_ascii b code = (if ?n < 54 then (if b then shifted_keys else normal_keys) ! ?n else 0)"
    using not by (simp add: keycode_to_ascii_def)
  also have "\<dots> = (case key_meaning b ?n of None \<Rightarrow> 0 | Some c \<Rightarrow> c)"
    unfolding key_tables key_meaning_rows None using table_lookup [OF key_row_facts(1-4)] by simp
  finally have "keycode_to_ascii b code = (case key_meaning b ?n of None \<Rightarrow> 0 | Some c \<Rightarrow> c)" .
  moreover have "key_meaning b ?n \<noteq> Some 0"
    unfolding key_meaning_rows None using rows [of ?n] by auto
  ultimately show ?thesis ..
next
  case (Some c)
  then have "(unat code, c) \<in> set key_controls" by (rule map_of_SomeD)
  moreover have "m = unat code \<Longrightarrow> code = of_nat m" for m by simp
  ultimately have "(code, c) \<in> set (map (apfst of_nat) key_controls)" by force
  then have "c \<noteq> 0 \<and> keycode_to_ascii b code = c" by (auto simp: key_controls_def keycode_to_ascii_def)
  then show ?thesis using Some by (simp add: key_meaning_rows)
qed

text \<open>The characters a sequence of events stands for, and the state of the shift key after it.\<close>

fun key_chars :: "bool \<Rightarrow> virtio_input_event list \<Rightarrow> u8 list \<times> bool" where
  "key_chars shift [] = ([], shift)"
| "key_chars shift (e # es) =
     (if ev_type e \<noteq> 1 then key_chars shift es
      else if ev_code e = 42 \<or> ev_code e = 54 then key_chars (ev_value e \<noteq> 0) es
      else if ev_value e = 0 then key_chars shift es
      else case key_meaning shift (unat (ev_code e)) of
             None \<Rightarrow> key_chars shift es
           | Some c \<Rightarrow> (case key_chars shift es of (cs, shift') \<Rightarrow> (c # cs, shift')))"

lemma key_chars_ascii:
  "key_chars shift (e # es) =
     (if ev_type e \<noteq> 1 then key_chars shift es
      else if ev_code e = 42 \<or> ev_code e = 54 then key_chars (ev_value e \<noteq> 0) es
      else if ev_value e = 0 \<or> keycode_to_ascii shift (ev_code e) = 0 then key_chars shift es
      else case key_chars shift es of (cs, shift') \<Rightarrow> (keycode_to_ascii shift (ev_code e) # cs, shift'))"
  using keycode_meaning [of shift "ev_code e"] by (auto split: option.splits)

declare key_chars.simps(2) [simp del] key_chars_ascii [simp]

definition kbd_good :: "(u16 \<Rightarrow> keyboard_memory \<Rightarrow> 'd \<Rightarrow> bool) \<Rightarrow> 'd keyboard \<Rightarrow> bool" where
  "kbd_good good k \<longleftrightarrow> virtio_keyboard_ready k \<and> good (virtio_keyboard_last_used k) (kmem k) (kdev k)"

abbreviation kbd_pending :: "'d keyboard \<Rightarrow> virtio_input_event list" where
  "kbd_pending k \<equiv> pending (virtio_keyboard_last_used k) (kmem k)"

text \<open>One round of the loop: the poll, and taking the oldest event.\<close>

definition kbd_poll :: "'d input_hw \<Rightarrow> 'd keyboard \<Rightarrow> 'd keyboard" where
  "kbd_poll hw k = (case in_poll hw (kmem k) (kdev k) of (m, d) \<Rightarrow> k\<lparr>kmem := m, kdev := d\<rparr>)"

definition kbd_take :: "'d input_hw \<Rightarrow> 'd keyboard \<Rightarrow> 'd keyboard" where
  "kbd_take hw k =
     virtio_keyboard_add_buffer hw (ucast (hd (pending_ids (virtio_keyboard_last_used k) (kmem k))))
       (k\<lparr>virtio_keyboard_last_used := virtio_keyboard_last_used k + 1\<rparr>)"

lemma kbd_poll_good:
  assumes "input_lawful hw good sent budget" "kbd_good good k"
  shows "kbd_good good (kbd_poll hw k)" "keyboard_shift (kbd_poll hw k) = keyboard_shift k"
    "\<exists>new. kbd_pending (kbd_poll hw k) = kbd_pending k @ new \<and> sent (kdev (kbd_poll hw k)) = sent (kdev k) @ new \<and>
       budget (kdev (kbd_poll hw k)) + length new \<le> budget (kdev k)"
proof -
  obtain m d where p: "in_poll hw (kmem k) (kdev k) = (m, d)" by (rule prod.exhaust)
  have "good (virtio_keyboard_last_used k) m d \<and>
      (\<exists>new. pending (virtio_keyboard_last_used k) m = kbd_pending k @ new \<and> sent d = sent (kdev k) @ new \<and> budget d + length new \<le> budget (kdev k))"
    using assms p unfolding input_lawful_def kbd_good_def by fastforce
  then show "kbd_good good (kbd_poll hw k)" "keyboard_shift (kbd_poll hw k) = keyboard_shift k"
    "\<exists>new. kbd_pending (kbd_poll hw k) = kbd_pending k @ new \<and> sent (kdev (kbd_poll hw k)) = sent (kdev k) @ new \<and>
       budget (kdev (kbd_poll hw k)) + length new \<le> budget (kdev k)"
    using assms(2) by (simp_all add: p kbd_poll_def kbd_good_def)
qed

lemma kbd_take_good:
  assumes "input_lawful hw good sent budget" "kbd_good good k" "kbd_pending k \<noteq> []"
  shows "kbd_good good (kbd_take hw k)" "keyboard_shift (kbd_take hw k) = keyboard_shift k"
    "\<exists>new. kbd_pending (kbd_take hw k) = tl (kbd_pending k) @ new \<and> sent (kdev (kbd_take hw k)) = sent (kdev k) @ new \<and>
       budget (kdev (kbd_take hw k)) + length new \<le> budget (kdev k)"
proof -
  obtain m d where n: "in_notify hw (offer_buffer hw (ucast (hd (pending_ids (virtio_keyboard_last_used k) (kmem k)))) (kmem k)) (kdev k) = (m, d)"
    by (rule prod.exhaust)
  have ne: "virtio_keyboard_last_used k \<noteq> keyboard_used_idx (kmem k)" using assms(3) by (simp add: pending_empty)
  have law: "good (virtio_keyboard_last_used k + 1) m d"
    "\<exists>new. pending (virtio_keyboard_last_used k + 1) m = tl (kbd_pending k) @ new \<and> sent d = sent (kdev k) @ new \<and>
       budget d + length new \<le> budget (kdev k)"
    using assms(1,2) n ne unfolding input_lawful_def kbd_good_def by fastforce+
  have t: "kbd_take hw k = k\<lparr>virtio_keyboard_last_used := virtio_keyboard_last_used k + 1, kmem := m, kdev := d\<rparr>"
    by (simp add: kbd_take_def virtio_keyboard_add_buffer_def n)
  show "kbd_good good (kbd_take hw k)" "keyboard_shift (kbd_take hw k) = keyboard_shift k"
    "\<exists>new. kbd_pending (kbd_take hw k) = tl (kbd_pending k) @ new \<and> sent (kdev (kbd_take hw k)) = sent (kdev k) @ new \<and>
       budget (kdev (kbd_take hw k)) + length new \<le> budget (kdev k)"
    using law assms(2) by (simp_all add: t kbd_good_def)
qed

lemma read_char_round:
  assumes "input_lawful hw good sent budget" "kbd_good good k"
  shows "virtio_keyboard_read_char hw k =
    (let k = kbd_poll hw k in
     case kbd_pending k of
       [] \<Rightarrow> Some (None, k)
     | e # _ \<Rightarrow>
         if ev_type e \<noteq> 1 then virtio_keyboard_read_char hw (kbd_take hw k)
         else if ev_code e = 42 \<or> ev_code e = 54
         then virtio_keyboard_read_char hw ((kbd_take hw k)\<lparr>keyboard_shift := ev_value e \<noteq> 0\<rparr>)
         else if ev_value e = 0 \<or> keycode_to_ascii (keyboard_shift k) (ev_code e) = 0 then virtio_keyboard_read_char hw (kbd_take hw k)
         else Some (Some (keycode_to_ascii (keyboard_shift k) (ev_code e)), kbd_take hw k))"
proof -
  let ?k = "kbd_poll hw k"
  note good = kbd_poll_good [OF assms]
  have ready: "virtio_keyboard_ready ?k" using good(1) by (simp add: kbd_good_def)
  show ?thesis
  proof (cases "kbd_pending ?k")
    case Nil
    then have "virtio_keyboard_last_used ?k = keyboard_used_idx (kmem ?k)" by (simp add: pending_empty)
    then show ?thesis
      using Nil by (subst virtio_keyboard_read_char.simps) (simp add: kbd_poll_def [symmetric])
  next
    case (Cons e es)
    let ?lu = "virtio_keyboard_last_used ?k"
    let ?id = "ue_id (keyboard_used_ring (kmem ?k) ! unat (?lu mod 16))"
    have ne: "?lu \<noteq> keyboard_used_idx (kmem ?k)" using Cons pending_empty [of ?lu "kmem ?k"] by auto
    note ids = pending_ids_Cons [OF ne]
    have id: "\<not> of_nat 16 \<le> ?id" "hd (pending_ids ?lu (kmem ?k)) = ?id"
      using assms(1) good(1) ids unfolding input_lawful_def kbd_good_def by (auto simp: not_le)
    have e: "keyboard_events (kmem ?k) ! unat ?id = e" using Cons ids by (simp add: pending_def)
    have sh: "keyboard_shift (kbd_take hw ?k) = keyboard_shift ?k" by (rule kbd_take_good [OF assms(1) good(1)]) (simp add: Cons)
    show ?thesis
      using ne ready id e sh Cons
      by (subst virtio_keyboard_read_char.simps) (simp add: kbd_poll_def [symmetric] kbd_take_def Let_def)
  qed
qed

text \<open>
  A call of the driver takes events from the front of the queue until one stands for a character.
\<close>

definition read_result :: "'d keyboard \<Rightarrow> virtio_input_event list \<Rightarrow> u8 option \<Rightarrow> 'd keyboard \<Rightarrow> bool" where
  "read_result k new r k' \<longleftrightarrow>
     (\<exists>taken. kbd_pending k @ new = taken @ kbd_pending k' \<and>
        key_chars (keyboard_shift k) taken = ((case r of None \<Rightarrow> [] | Some c \<Rightarrow> [c]), keyboard_shift k') \<and>
        (r = None \<longrightarrow> kbd_pending k' = []))"

lemma kbd_shift_good: "kbd_good good (k\<lparr>keyboard_shift := b\<rparr>) = kbd_good good k"
  by (simp add: kbd_good_def)

lemma kbd_shift_same: "keyboard_shift k = b \<Longrightarrow> k\<lparr>keyboard_shift := b\<rparr> = k"
  by (cases k) auto

lemma read_char_fifo:
  assumes law: "input_lawful hw good sent budget" and "kbd_good good k"
  shows "\<exists>r k' new. virtio_keyboard_read_char hw k = Some (r, k') \<and> kbd_good good k' \<and> read_result k new r k' \<and>
    sent (kdev k') = sent (kdev k) @ new \<and> budget (kdev k') + length new \<le> budget (kdev k)"
  using assms(2)
proof (induction "length (kbd_pending k) + budget (kdev k)" arbitrary: k rule: less_induct)
  case less
  let ?p = "kbd_poll hw k"
  note poll = kbd_poll_good [OF law less.prems]
  obtain n1 where n1: "kbd_pending ?p = kbd_pending k @ n1" "budget (kdev ?p) + length n1 \<le> budget (kdev k)" "sent (kdev ?p) = sent (kdev k) @ n1"
    using poll(3) by blast
  note round = read_char_round [OF law less.prems]
  show ?case
  proof (cases "kbd_pending ?p")
    case Nil
    then have "read_result k [] None ?p" using n1(1) poll(2) by (simp add: read_result_def)
    then show ?thesis using Nil round poll(1) n1 by (intro exI [of _ None] exI [of _ ?p] exI [of _ "[]"]) (simp add: Let_def)
  next
    case (Cons e es)
    let ?t = "kbd_take hw ?p"
    have take: "kbd_good good ?t" "keyboard_shift ?t = keyboard_shift k"
      using kbd_take_good(1,2) [OF law poll(1)] Cons poll(2) by simp_all
    obtain n2 where n2: "kbd_pending ?t = es @ n2" "budget (kdev ?t) + length n2 \<le> budget (kdev ?p)" "sent (kdev ?t) = sent (kdev ?p) @ n2"
      using kbd_take_good(3) [OF law poll(1)] Cons by auto
    have all: "kbd_pending k @ n1 @ n2 = e # kbd_pending ?t" using n1(1) Cons n2(1) by simp
    have smaller: "length (kbd_pending ?t) + budget (kdev ?t) < length (kbd_pending k) + budget (kdev k)"
    proof -
      have "length (kbd_pending ?p) = length (kbd_pending k) + length n1" using n1(1) by simp
      moreover have "length (kbd_pending ?p) = Suc (length es)" by (simp add: Cons)
      moreover have "length (kbd_pending ?t) = length es + length n2" using n2(1) by simp
      ultimately show ?thesis using n1(2) n2(2) by linarith
    qed
    have continue: "\<exists>r k' new. virtio_keyboard_read_char hw (?t\<lparr>keyboard_shift := sh\<rparr>) = Some (r, k') \<and> kbd_good good k' \<and>
        read_result k new r k' \<and> sent (kdev k') = sent (kdev k) @ new \<and> budget (kdev k') + length new \<le> budget (kdev k)"
      if skip: "\<And>es. key_chars (keyboard_shift k) (e # es) = key_chars sh es" for sh
    proof -
      let ?t' = "?t\<lparr>keyboard_shift := sh\<rparr>"
      have "length (kbd_pending ?t') + budget (kdev ?t') < length (kbd_pending k) + budget (kdev k)" "kbd_good good ?t'"
        using smaller take(1) by (simp_all add: kbd_shift_good)
      from less.hyps [OF this] obtain r k' new where ih: "virtio_keyboard_read_char hw ?t' = Some (r, k')" "kbd_good good k'"
        "read_result ?t' new r k'" "budget (kdev k') + length new \<le> budget (kdev ?t')" "sent (kdev k') = sent (kdev ?t') @ new" by blast
      then obtain taken where tk: "kbd_pending ?t @ new = taken @ kbd_pending k'"
        "key_chars sh taken = ((case r of None \<Rightarrow> [] | Some c \<Rightarrow> [c]), keyboard_shift k')" "r = None \<longrightarrow> kbd_pending k' = []"
        by (auto simp: read_result_def)
      have "kbd_pending k @ n1 @ n2 @ new = (kbd_pending k @ n1 @ n2) @ new" by simp
      also have "\<dots> = (e # taken) @ kbd_pending k'" using all tk(1) by simp
      finally have "read_result k (n1 @ n2 @ new) r k'"
        unfolding read_result_def using tk(2,3) skip [of taken] by (intro exI [of _ "e # taken"]) simp
      moreover have "budget (kdev k') + length (n1 @ n2 @ new) \<le> budget (kdev k)" using ih(4) n1(2) n2(2) by simp
      moreover have "sent (kdev k') = sent (kdev k) @ n1 @ n2 @ new" using ih(5) n1(3) n2(3) by simp
      ultimately show ?thesis using ih(1,2) by blast
    qed
    have same: "?t\<lparr>keyboard_shift := keyboard_shift k\<rparr> = ?t" by (rule kbd_shift_same [OF take(2)])
    show ?thesis
    proof (cases "ev_type e = 1 \<and> ev_code e \<noteq> 42 \<and> ev_code e \<noteq> 54 \<and> ev_value e \<noteq> 0 \<and> keycode_to_ascii (keyboard_shift k) (ev_code e) \<noteq> 0")
      case True
      let ?c = "keycode_to_ascii (keyboard_shift k) (ev_code e)"
      have "read_result k (n1 @ n2) (Some ?c) ?t"
        unfolding read_result_def by (rule exI [of _ "[e]"]) (use all take(2) True in simp)
      moreover have "virtio_keyboard_read_char hw k = Some (Some ?c, ?t)" using round Cons True poll(2) by (simp add: Let_def)
      moreover have "budget (kdev ?t) + length (n1 @ n2) \<le> budget (kdev k)" "sent (kdev ?t) = sent (kdev k) @ n1 @ n2"
        using n1(2,3) n2(2,3) by simp_all
      ultimately show ?thesis using take(1) by blast
    next
      case False
      then show ?thesis
        using continue [of "keyboard_shift k"] continue [of "ev_value e \<noteq> 0"] round Cons poll(2) same
        by (auto simp: Let_def split: if_splits)
    qed
  qed
qed

section \<open>No key press is lost\<close>

text \<open>A client that reads until no character is left.\<close>

partial_function (option) read_all :: "'d input_hw \<Rightarrow> 'd keyboard \<Rightarrow> (u8 list \<times> 'd keyboard) option" where
  "read_all hw k =
     (case virtio_keyboard_read_char hw k of
        None \<Rightarrow> None
      | Some (r, k) \<Rightarrow>
          (case r of
             None \<Rightarrow> Some ([], k)
           | Some c \<Rightarrow> Option.bind (read_all hw k) (\<lambda>(cs, k). Some (c # cs, k))))"

lemma key_chars_append:
  "key_chars s (es @ fs) =
     (case key_chars s es of (cs, s') \<Rightarrow> case key_chars s' fs of (ds, s'') \<Rightarrow> (cs @ ds, s''))"
  by (induction es arbitrary: s) (auto split: prod.splits)

text \<open>
  The keyboard driver neither loses, nor repeats, nor reorders key presses. With a device that keeps
  the rules of the shared queue and stops sending at some time, reading until \<open>virtio_keyboard_read_char\<close>
  finds nothing returns, and the characters read are exactly those that the waiting events, followed by
  all events the device sent meanwhile, stand for: key releases and unknown keys give none, and the shift
  key changes what the later ones give. The state of the shift key is carried on, and the queue is empty.
\<close>
lemma keyboard_reads_every_key:
  assumes "input_lawful hw good sent budget" "kbd_good good k"
  shows "\<exists>cs k' new. read_all hw k = Some (cs, k') \<and> kbd_good good k' \<and> kbd_pending k' = [] \<and>
    key_chars (keyboard_shift k) (kbd_pending k @ new) = (cs, keyboard_shift k') \<and> sent (kdev k') = sent (kdev k) @ new \<and>
    budget (kdev k') + length new \<le> budget (kdev k)"
  using assms(2)
proof (induction "length (kbd_pending k) + budget (kdev k)" arbitrary: k rule: less_induct)
  case less
  obtain r k1 n1 where call: "virtio_keyboard_read_char hw k = Some (r, k1)" "kbd_good good k1" "read_result k n1 r k1"
    "budget (kdev k1) + length n1 \<le> budget (kdev k)" "sent (kdev k1) = sent (kdev k) @ n1" using read_char_fifo [OF assms(1) less.prems] by blast
  obtain taken where tk: "kbd_pending k @ n1 = taken @ kbd_pending k1"
    "key_chars (keyboard_shift k) taken = ((case r of None \<Rightarrow> [] | Some c \<Rightarrow> [c]), keyboard_shift k1)"
    "r = None \<longrightarrow> kbd_pending k1 = []" using call(3) unfolding read_result_def by blast
  show ?case
  proof (cases r)
    case None
    then show ?thesis
      using call tk by (intro exI [of _ "[]"] exI [of _ k1] exI [of _ n1]) (simp add: read_all.simps [of hw k])
  next
    case (Some c)
    have "length (kbd_pending k) + length n1 = length taken + length (kbd_pending k1)" using arg_cong [OF tk(1), of length] by simp
    moreover have "taken \<noteq> []" using tk(2) Some by auto
    ultimately have "length (kbd_pending k1) + budget (kdev k1) < length (kbd_pending k) + budget (kdev k)"
      using call(4) by (cases taken) simp_all
    from less.hyps [OF this call(2)] obtain cs k' n2 where ih: "read_all hw k1 = Some (cs, k')" "kbd_good good k'" "kbd_pending k' = []"
      "key_chars (keyboard_shift k1) (kbd_pending k1 @ n2) = (cs, keyboard_shift k')" "budget (kdev k') + length n2 \<le> budget (kdev k1)"
      "sent (kdev k') = sent (kdev k1) @ n2" by blast
    have eq: "kbd_pending k @ n1 @ n2 = taken @ kbd_pending k1 @ n2" using tk(1) by (metis append_assoc)
    have "key_chars (keyboard_shift k) (kbd_pending k @ n1 @ n2) = (c # cs, keyboard_shift k')"
      unfolding eq key_chars_append [of _ taken] using tk(2) ih(4) Some by simp
    then show ?thesis
      using call(1,4,5) ih Some
      by (intro exI [of _ "c # cs"] exI [of _ k'] exI [of _ "n1 @ n2"]) (simp add: read_all.simps [of hw k])
  qed
qed

text \<open>
  A device on which shift and the key of the letter a are pressed while the driver waits: it fills the first
  two entries of the used ring. The keyboard before that, with nothing waiting.
\<close>

definition typed_keys :: "virtio_input_event list" where
  "typed_keys = [\<lparr>ev_type = 1, ev_code = 42, ev_value = 1\<rparr>, \<lparr>ev_type = 1, ev_code = 30, ev_value = 1\<rparr>]"

definition type_keys :: "keyboard_memory \<Rightarrow> keyboard_memory" where
  "type_keys m = m\<lparr>keyboard_used_idx := 2,
     keyboard_used_ring := (keyboard_used_ring m)[0 := \<lparr>ue_id = 3, ue_len = 8\<rparr>, 1 := \<lparr>ue_id = 0, ue_len = 8\<rparr>],
     keyboard_events := (keyboard_events m)[3 := typed_keys ! 0, 0 := typed_keys ! 1]\<rparr>"

definition typing_input :: "bool input_hw" where
  "typing_input = \<lparr>in_read32 = \<lambda>_ _. 0, in_write32 = \<lambda>_ _ d. d, in_notify = Pair,
     in_poll = \<lambda>m typed. (if typed then m else type_keys m, True), in_queue = 0x40100000, in_events = 0x40102000\<rparr>"

definition typing_good :: "u16 \<Rightarrow> keyboard_memory \<Rightarrow> bool \<Rightarrow> bool" where
  "typing_good lu m typed \<longleftrightarrow> length (keyboard_used_ring m) = 16 \<and> length (keyboard_events m) = 16 \<and>
     (\<forall>id\<in>set (pending_ids lu m). id < of_nat VIRTIO_KEYBOARD_QUEUE_SIZE) \<and> (\<not> typed \<longrightarrow> lu = 0 \<and> keyboard_used_idx m = 0)"

definition idle_keyboard :: "bool keyboard" where
  "idle_keyboard = \<lparr>kdev = False,
     kmem = \<lparr>keyboard_desc = [], keyboard_avail_idx = 16, keyboard_avail_ring = replicate 16 0, keyboard_used_idx = 0,
       keyboard_used_ring = replicate 16 \<lparr>ue_id = 0, ue_len = 0\<rparr>,
       keyboard_events = replicate 16 \<lparr>ev_type = 0, ev_code = 0, ev_value = 0\<rparr>\<rparr>,
     virtio_keyboard_base = 0x0a000000, virtio_keyboard_last_used = 0, virtio_keyboard_ready = True,
     keyboard_initialized = True, keyboard_shift = False\<rparr>"

lemma offer_buffer_pending:
  "pending_ids lu (offer_buffer hw i m) = pending_ids lu m" "pending lu (offer_buffer hw i m) = pending lu m"
  "keyboard_used_ring (offer_buffer hw i m) = keyboard_used_ring m" "keyboard_events (offer_buffer hw i m) = keyboard_events m"
  by (simp_all add: pending_def pending_ids_def offer_buffer_def)

lemma type_keys_pending:
  assumes "length (keyboard_used_ring m) = 16" "length (keyboard_events m) = 16"
  shows "pending_ids 0 (type_keys m) = [3, 0]" "pending 0 (type_keys m) = typed_keys"
proof -
  show ids: "pending_ids 0 (type_keys m) = [3, 0]"
    using assms by (simp add: pending_ids_def type_keys_def upt_conv_Cons)
  show "pending 0 (type_keys m) = typed_keys"
    using assms by (simp add: pending_def ids) (simp add: type_keys_def typed_keys_def)
qed

lemma typing_lawful: "input_lawful typing_input typing_good (\<lambda>typed. if typed then typed_keys else []) (\<lambda>typed. if typed then 0 else 2)"
  (is "input_lawful _ _ ?sent ?budget")
  unfolding input_lawful_def
proof (intro allI impI)
  fix lu m typed
  assume good: "typing_good lu m typed"
  note g = good [unfolded typing_good_def]
  have poll: "typing_good lu m' d' \<and> (\<exists>new. pending lu m' = pending lu m @ new \<and> ?sent d' = ?sent typed @ new \<and> ?budget d' + length new \<le> ?budget typed)"
    if "in_poll typing_input m typed = (m', d')" for m' d'
  proof (cases typed)
    case True
    then show ?thesis using good that by (simp add: typing_input_def)
  next
    case False
    then have "lu = 0" "pending lu m = []" "m' = type_keys m" "d'"
      using g that by (auto simp: typing_input_def pending_empty)
    moreover have "length typed_keys = 2" by (simp add: typed_keys_def)
    ultimately show ?thesis
      using g type_keys_pending [of m] False by (simp add: typing_good_def) (simp add: type_keys_def)
  qed
  have notify: "typing_good (lu + 1) m' d' \<and>
      (\<exists>new. pending (lu + 1) m' = tl (pending lu m) @ new \<and> ?sent d' = ?sent typed @ new \<and> ?budget d' + length new \<le> ?budget typed)"
    if "lu \<noteq> keyboard_used_idx m" "in_notify typing_input (offer_buffer typing_input i m) typed = (m', d')" for i m' d'
    using that g by (auto simp: typing_input_def typing_good_def offer_buffer_pending pending_def pending_ids_Cons [OF that(1)])
  show "(\<forall>id\<in>set (pending_ids lu m). id < of_nat VIRTIO_KEYBOARD_QUEUE_SIZE) \<and>
    (case in_poll typing_input m typed of (m', d') \<Rightarrow>
       typing_good lu m' d' \<and> (\<exists>new. pending lu m' = pending lu m @ new \<and> ?sent d' = ?sent typed @ new \<and> ?budget d' + length new \<le> ?budget typed)) \<and>
    (lu \<noteq> keyboard_used_idx m \<longrightarrow>
       (case in_notify typing_input (offer_buffer typing_input (ucast (hd (pending_ids lu m))) m) typed of (m', d') \<Rightarrow>
          typing_good (lu + 1) m' d' \<and>
          (\<exists>new. pending (lu + 1) m' = tl (pending lu m) @ new \<and> ?sent d' = ?sent typed @ new \<and> ?budget d' + length new \<le> ?budget typed)))"
    using g poll notify by (intro conjI impI, blast) (simp_all only: split_beta prod.collapse not_False_eq_True)
qed

lemma idle_keyboard_facts:
  "kbd_good typing_good idle_keyboard" "kbd_pending idle_keyboard = []" "key_chars False typed_keys = ([0x41], True)"
  "\<not> kdev idle_keyboard" "\<not> keyboard_shift idle_keyboard"
  "virtio_keyboard_read_char typing_input idle_keyboard \<noteq> Some (None, k)"
proof -
  show "kbd_good typing_good idle_keyboard" "kbd_pending idle_keyboard = []" "\<not> kdev idle_keyboard" "\<not> keyboard_shift idle_keyboard"
    by (simp_all add: kbd_good_def typing_good_def pending_def pending_ids_def idle_keyboard_def)
  show "key_chars False typed_keys = ([0x41], True)"
    by (simp add: typed_keys_def keycode_to_ascii_def normal_keys_def shifted_keys_def bytes_of_def)
  show "virtio_keyboard_read_char typing_input idle_keyboard \<noteq> Some (None, k)"
    by (subst virtio_keyboard_read_char.simps, subst virtio_keyboard_read_char.simps)
      (simp add: typing_input_def type_keys_def typed_keys_def idle_keyboard_def virtio_keyboard_add_buffer_def
        offer_buffer_def keycode_to_ascii_def normal_keys_def shifted_keys_def bytes_of_def Let_def)
qed

end
