(* ===== verification/Framebuffer.thy ===== *)
theory Framebuffer
  imports Uart
begin

text \<open>
  The graphical console, drivers/video/framebuffer.c, and kernel/console/console.c on top of it. The
  pixels are a function from the index of \<open>framebuffer[]\<close> to the colour; the firmware configuration
  device that sets up the display is a parameter that acts on memory.
\<close>

section \<open>Constants and state\<close>

abbreviation (input) FRAMEBUFFER_WIDTH :: u32 where "FRAMEBUFFER_WIDTH \<equiv> 640"
abbreviation (input) FRAMEBUFFER_HEIGHT :: u32 where "FRAMEBUFFER_HEIGHT \<equiv> 480"
abbreviation (input) FRAMEBUFFER_BASE :: u64 where "FRAMEBUFFER_BASE \<equiv> 0x47000000"
abbreviation (input) FW_CFG_DMA_ACCESS_BASE :: u64 where "FW_CFG_DMA_ACCESS_BASE \<equiv> 0x46ffe000"
abbreviation (input) RAMFB_CONFIG_BASE :: u64 where "RAMFB_CONFIG_BASE \<equiv> 0x46fff000"
abbreviation (input) FW_CFG_BASE :: u64 where "FW_CFG_BASE \<equiv> 0x09020000"
abbreviation (input) FW_CFG_DMA_POLL_LIMIT :: nat where "FW_CFG_DMA_POLL_LIMIT \<equiv> 1000000"
abbreviation (input) FRAMEBUFFER_CONSOLE_SCALE :: u32 where "FRAMEBUFFER_CONSOLE_SCALE \<equiv> 2"
abbreviation (input) FRAMEBUFFER_CONSOLE_MARGIN_X :: u32 where "FRAMEBUFFER_CONSOLE_MARGIN_X \<equiv> 16"
abbreviation (input) FRAMEBUFFER_CONSOLE_HEADER_HEIGHT :: u32 where "FRAMEBUFFER_CONSOLE_HEADER_HEIGHT \<equiv> 30"
abbreviation (input) FRAMEBUFFER_CONSOLE_STATUS_HEIGHT :: u32 where "FRAMEBUFFER_CONSOLE_STATUS_HEIGHT \<equiv> 28"
abbreviation (input) FRAMEBUFFER_CONSOLE_STATUS_Y :: u32 where "FRAMEBUFFER_CONSOLE_STATUS_Y \<equiv> 480 - 28"
abbreviation (input) FRAMEBUFFER_CONSOLE_TEXT_BOTTOM :: u32 where "FRAMEBUFFER_CONSOLE_TEXT_BOTTOM \<equiv> 480 - 28 - 4"
abbreviation (input) FRAMEBUFFER_CONSOLE_MARGIN_Y :: u32 where "FRAMEBUFFER_CONSOLE_MARGIN_Y \<equiv> 30 + 8"
abbreviation (input) CONSOLE_FG :: u32 where "CONSOLE_FG \<equiv> 0x00f8f9fa"
abbreviation (input) CONSOLE_BG :: u32 where "CONSOLE_BG \<equiv> 0x00101820"
abbreviation (input) CONSOLE_HEADER_BG :: u32 where "CONSOLE_HEADER_BG \<equiv> 0x0016202c"
abbreviation (input) CONSOLE_DIM :: u32 where "CONSOLE_DIM \<equiv> 0x004ecdc4"
abbreviation (input) CONSOLE_BORDER :: u32 where "CONSOLE_BORDER \<equiv> 0x00304758"
abbreviation (input) CONSOLE_MUTED :: u32 where "CONSOLE_MUTED \<equiv> 0x009aa7b5"
abbreviation (input) CONSOLE_CURSOR :: u32 where "CONSOLE_CURSOR \<equiv> 0x00ffd166"
abbreviation (input) CURSOR_THICKNESS :: u32 where "CURSOR_THICKNESS \<equiv> 2"

type_synonym pixels = "nat \<Rightarrow> u32"

record framebuffer =
  fb_pixels :: pixels
  framebuffer_ready :: bool
  framebuffer_status_code :: int
  console_column :: u32
  console_row :: u32
  console_cursor_visible :: bool

section \<open>Finding the display\<close>

text \<open>Memory and registers as the driver and the device see them; \<open>fw_wait\<close> is time passing between two polls.\<close>

record 'f fwcfg_hw =
  fw_store32 :: "u64 \<Rightarrow> u32 \<Rightarrow> 'f \<Rightarrow> 'f"
  fw_store64 :: "u64 \<Rightarrow> u64 \<Rightarrow> 'f \<Rightarrow> 'f"
  fw_load8 :: "u64 \<Rightarrow> 'f \<Rightarrow> u8"
  fw_load16 :: "u64 \<Rightarrow> 'f \<Rightarrow> u16"
  fw_load32 :: "u64 \<Rightarrow> 'f \<Rightarrow> u32"
  fw_wait :: "'f \<Rightarrow> 'f"
  fw_directory :: u64

definition bswap16 :: "u16 \<Rightarrow> u16" where
  "bswap16 v = drop_bit 8 v OR push_bit 8 v"

definition bswap32 :: "u32 \<Rightarrow> u32" where
  "bswap32 v = push_bit 24 (v AND 0xff) OR push_bit 8 (v AND 0xff00) OR drop_bit 8 (v AND 0xff0000) OR
     drop_bit 24 (v AND 0xff000000)"

definition bswap64 :: "u64 \<Rightarrow> u64" where
  "bswap64 v = push_bit 32 (ucast (bswap32 (ucast v))) OR ucast (bswap32 (ucast (drop_bit 32 v)))"

text \<open>The polling loop; the result tells whether a poll was left when it stopped.\<close>

fun fw_cfg_poll :: "'f fwcfg_hw \<Rightarrow> nat \<Rightarrow> 'f \<Rightarrow> bool \<times> 'f" where
  "fw_cfg_poll hw 0 f = (False, f)"
| "fw_cfg_poll hw (Suc n) f =
     (if bswap32 (fw_load32 hw FW_CFG_DMA_ACCESS_BASE f) AND NOT 1 \<noteq> 0 then fw_cfg_poll hw n (fw_wait hw f)
      else (True, f))"

definition fw_cfg_dma_transfer ::
    "'f fwcfg_hw \<Rightarrow> u16 \<Rightarrow> u64 \<Rightarrow> u32 \<Rightarrow> u32 \<Rightarrow> framebuffer \<Rightarrow> 'f \<Rightarrow> bool \<times> framebuffer \<times> 'f" where
  "fw_cfg_dma_transfer hw selector buf sz operation fb f =
     (let acc = FW_CFG_DMA_ACCESS_BASE;
          f = fw_store32 hw acc (bswap32 (push_bit 16 (ucast selector) OR 8 OR operation)) f;
          f = fw_store32 hw (acc + 4) (bswap32 sz) f;
          f = fw_store64 hw (acc + 8) (bswap64 buf) f;
          f = fw_store32 hw (FW_CFG_BASE + 0x10) (bswap32 (ucast (drop_bit 32 acc))) f;
          f = fw_store32 hw (FW_CFG_BASE + 0x10 + 4) (bswap32 (ucast acc)) f
      in case fw_cfg_poll hw FW_CFG_DMA_POLL_LIMIT f of
           (False, f) \<Rightarrow> (False, fb\<lparr>framebuffer_status_code := 2\<rparr>, f)
         | (True, f) \<Rightarrow>
             if bswap32 (fw_load32 hw acc f) AND 1 \<noteq> 0 then (False, fb\<lparr>framebuffer_status_code := 3\<rparr>, f)
             else (True, fb, f))"

definition fw_cfg_dma_write ::
    "'f fwcfg_hw \<Rightarrow> u16 \<Rightarrow> u64 \<Rightarrow> u32 \<Rightarrow> framebuffer \<Rightarrow> 'f \<Rightarrow> bool \<times> framebuffer \<times> 'f" where
  "fw_cfg_dma_write hw selector buf sz fb f = fw_cfg_dma_transfer hw selector buf sz 0x10 fb f"

definition fw_cfg_dma_read ::
    "'f fwcfg_hw \<Rightarrow> u16 \<Rightarrow> u64 \<Rightarrow> u32 \<Rightarrow> framebuffer \<Rightarrow> 'f \<Rightarrow> bool \<times> framebuffer \<times> 'f" where
  "fw_cfg_dma_read hw selector buf sz fb f = fw_cfg_dma_transfer hw selector buf sz 0x02 fb f"

text \<open>\<open>string_equals\<close> on a name in memory.\<close>

fun name_equals :: "'f fwcfg_hw \<Rightarrow> u64 \<Rightarrow> cstring \<Rightarrow> 'f \<Rightarrow> bool" where
  "name_equals hw left [] f = (fw_load8 hw left f = 0)"
| "name_equals hw left (c # cs) f =
     (let l = fw_load8 hw left f in if l = 0 then False else if l \<noteq> c then False else name_equals hw (left + 1) cs f)"

fun find_file_from :: "'f fwcfg_hw \<Rightarrow> nat \<Rightarrow> nat \<Rightarrow> cstring \<Rightarrow> 'f \<Rightarrow> u16" where
  "find_file_from hw i 0 name f = 0"
| "find_file_from hw i (Suc n) name f =
     (let file_addr = fw_directory hw + 4 + of_nat i * 64
      in if name_equals hw (file_addr + 8) name f then bswap16 (fw_load16 hw (file_addr + 4) f)
         else find_file_from hw (Suc i) n name f)"

definition fw_cfg_find_file ::
    "'f fwcfg_hw \<Rightarrow> cstring \<Rightarrow> framebuffer \<Rightarrow> 'f \<Rightarrow> u16 \<times> framebuffer \<times> 'f" where
  "fw_cfg_find_file hw name fb f =
     (case fw_cfg_dma_read hw 0x0019 (fw_directory hw) 4 fb f of
        (False, fb, f) \<Rightarrow> (0, fb\<lparr>framebuffer_status_code := 4\<rparr>, f)
      | (True, fb, f) \<Rightarrow>
          let count = bswap32 (fw_load32 hw (fw_directory hw) f);
              count = (if count > 64 then 64 else count)
          in (case fw_cfg_dma_read hw 0x0019 (fw_directory hw) (4 + count * 64) fb f of
                (False, fb, f) \<Rightarrow> (0, fb\<lparr>framebuffer_status_code := 5\<rparr>, f)
              | (True, fb, f) \<Rightarrow> (find_file_from hw 0 (unat count) name f, fb, f)))"

definition framebuffer_init :: "'f fwcfg_hw \<Rightarrow> framebuffer \<Rightarrow> 'f \<Rightarrow> bool \<times> framebuffer \<times> 'f" where
  "framebuffer_init hw fb f =
     (case fw_cfg_find_file hw (bytes_of ''etc/ramfb'') fb f of
        (selector, fb, f) \<Rightarrow>
          if selector = 0
          then (False, fb\<lparr>framebuffer_ready := False, framebuffer_status_code := 1\<rparr>, f)
          else
            let f = fw_store64 hw RAMFB_CONFIG_BASE (bswap64 FRAMEBUFFER_BASE) f;
                f = fw_store32 hw (RAMFB_CONFIG_BASE + 8) (bswap32 0x34325258) f;
                f = fw_store32 hw (RAMFB_CONFIG_BASE + 12) 0 f;
                f = fw_store32 hw (RAMFB_CONFIG_BASE + 16) (bswap32 FRAMEBUFFER_WIDTH) f;
                f = fw_store32 hw (RAMFB_CONFIG_BASE + 20) (bswap32 FRAMEBUFFER_HEIGHT) f;
                f = fw_store32 hw (RAMFB_CONFIG_BASE + 24) (bswap32 (FRAMEBUFFER_WIDTH * 4)) f
            in (case fw_cfg_dma_write hw selector RAMFB_CONFIG_BASE 28 fb f of
                  (True, fb, f) \<Rightarrow> (True, fb\<lparr>framebuffer_ready := True, framebuffer_status_code := 0\<rparr>, f)
                | (False, fb, f) \<Rightarrow> (False, fb\<lparr>framebuffer_ready := False\<rparr>, f)))"

definition framebuffer_is_ready :: "framebuffer \<Rightarrow> bool" where
  "framebuffer_is_ready fb = framebuffer_ready fb"

definition framebuffer_status :: "framebuffer \<Rightarrow> int" where
  "framebuffer_status fb = framebuffer_status_code fb"

definition framebuffer_status_name :: "framebuffer \<Rightarrow> string" where
  "framebuffer_status_name fb =
     (let s = framebuffer_status_code fb
      in if s = 0 then ''ready''
         else if s = 1 then ''ramfb file missing''
         else if s = 2 then ''fw_cfg dma timeout''
         else if s = 3 then ''fw_cfg dma error''
         else if s = 4 then ''fw_cfg directory read failed''
         else if s = 5 then ''fw_cfg directory reread failed''
         else ''unknown'')"

section \<open>Drawing\<close>

definition framebuffer_put_pixel :: "u32 \<Rightarrow> u32 \<Rightarrow> u32 \<Rightarrow> pixels \<Rightarrow> pixels" where
  "framebuffer_put_pixel x y color px =
     (if x \<ge> FRAMEBUFFER_WIDTH \<or> y \<ge> FRAMEBUFFER_HEIGHT then px
      else px(unat (y * FRAMEBUFFER_WIDTH + x) := color))"

definition framebuffer_fill_rect :: "u32 \<Rightarrow> u32 \<Rightarrow> u32 \<Rightarrow> u32 \<Rightarrow> u32 \<Rightarrow> pixels \<Rightarrow> pixels" where
  "framebuffer_fill_rect x y width height color px =
     (let x_end = x + width; y_end = y + height
      in if x \<ge> FRAMEBUFFER_WIDTH \<or> y \<ge> FRAMEBUFFER_HEIGHT then px
         else
           let x_end = (if x_end > FRAMEBUFFER_WIDTH then FRAMEBUFFER_WIDTH else x_end);
               y_end = (if y_end > FRAMEBUFFER_HEIGHT then FRAMEBUFFER_HEIGHT else y_end)
           in fold (\<lambda>row. fold (\<lambda>col px. px(unat (of_nat row * FRAMEBUFFER_WIDTH + of_nat col) := color))
                                [unat x..<unat x_end])
                [unat y..<unat y_end] px)"

definition framebuffer_clear :: "u32 \<Rightarrow> pixels \<Rightarrow> pixels" where
  "framebuffer_clear color px = framebuffer_fill_rect 0 0 FRAMEBUFFER_WIDTH FRAMEBUFFER_HEIGHT color px"

definition glyph_blank :: "u8 list" where
  "glyph_blank = [0, 0, 0, 0, 0, 0, 0]"

definition glyph_table :: "(u8 \<times> u8 list) list" where
  "glyph_table =
    [(0x30, [0x0e, 0x11, 0x13, 0x15, 0x19, 0x11, 0x0e]),
     (0x31, [0x04, 0x0c, 0x04, 0x04, 0x04, 0x04, 0x0e]),
     (0x32, [0x0e, 0x11, 0x01, 0x02, 0x04, 0x08, 0x1f]),
     (0x33, [0x1e, 0x01, 0x01, 0x0e, 0x01, 0x01, 0x1e]),
     (0x34, [0x02, 0x06, 0x0a, 0x12, 0x1f, 0x02, 0x02]),
     (0x35, [0x1f, 0x10, 0x10, 0x1e, 0x01, 0x01, 0x1e]),
     (0x36, [0x0e, 0x10, 0x10, 0x1e, 0x11, 0x11, 0x0e]),
     (0x37, [0x1f, 0x01, 0x02, 0x04, 0x08, 0x08, 0x08]),
     (0x38, [0x0e, 0x11, 0x11, 0x0e, 0x11, 0x11, 0x0e]),
     (0x39, [0x0e, 0x11, 0x11, 0x0f, 0x01, 0x01, 0x0e]),
     (0x41, [0x0e, 0x11, 0x11, 0x1f, 0x11, 0x11, 0x11]),
     (0x42, [0x1e, 0x11, 0x11, 0x1e, 0x11, 0x11, 0x1e]),
     (0x43, [0x0f, 0x10, 0x10, 0x10, 0x10, 0x10, 0x0f]),
     (0x44, [0x1e, 0x11, 0x11, 0x11, 0x11, 0x11, 0x1e]),
     (0x45, [0x1f, 0x10, 0x10, 0x1e, 0x10, 0x10, 0x1f]),
     (0x46, [0x1f, 0x10, 0x10, 0x1e, 0x10, 0x10, 0x10]),
     (0x47, [0x0f, 0x10, 0x10, 0x13, 0x11, 0x11, 0x0f]),
     (0x48, [0x11, 0x11, 0x11, 0x1f, 0x11, 0x11, 0x11]),
     (0x49, [0x0e, 0x04, 0x04, 0x04, 0x04, 0x04, 0x0e]),
     (0x4a, [0x07, 0x02, 0x02, 0x02, 0x12, 0x12, 0x0c]),
     (0x4b, [0x11, 0x12, 0x14, 0x18, 0x14, 0x12, 0x11]),
     (0x4c, [0x10, 0x10, 0x10, 0x10, 0x10, 0x10, 0x1f]),
     (0x4d, [0x11, 0x1b, 0x15, 0x15, 0x11, 0x11, 0x11]),
     (0x4e, [0x11, 0x19, 0x15, 0x13, 0x11, 0x11, 0x11]),
     (0x4f, [0x0e, 0x11, 0x11, 0x11, 0x11, 0x11, 0x0e]),
     (0x50, [0x1e, 0x11, 0x11, 0x1e, 0x10, 0x10, 0x10]),
     (0x51, [0x0e, 0x11, 0x11, 0x11, 0x15, 0x12, 0x0d]),
     (0x52, [0x1e, 0x11, 0x11, 0x1e, 0x14, 0x12, 0x11]),
     (0x53, [0x0f, 0x10, 0x10, 0x0e, 0x01, 0x01, 0x1e]),
     (0x54, [0x1f, 0x04, 0x04, 0x04, 0x04, 0x04, 0x04]),
     (0x55, [0x11, 0x11, 0x11, 0x11, 0x11, 0x11, 0x0e]),
     (0x56, [0x11, 0x11, 0x11, 0x11, 0x0a, 0x0a, 0x04]),
     (0x57, [0x11, 0x11, 0x11, 0x15, 0x15, 0x1b, 0x11]),
     (0x58, [0x11, 0x11, 0x0a, 0x04, 0x0a, 0x11, 0x11]),
     (0x59, [0x11, 0x11, 0x0a, 0x04, 0x04, 0x04, 0x04]),
     (0x5a, [0x1f, 0x01, 0x02, 0x04, 0x08, 0x10, 0x1f]),
     (0x3a, [0x00, 0x04, 0x04, 0x00, 0x04, 0x04, 0x00]),
     (0x2d, [0x00, 0x00, 0x00, 0x1f, 0x00, 0x00, 0x00]),
     (0x2e, [0x00, 0x00, 0x00, 0x00, 0x00, 0x0c, 0x0c]),
     (0x3d, [0x00, 0x00, 0x1f, 0x00, 0x1f, 0x00, 0x00]),
     (0x28, [0x02, 0x04, 0x08, 0x08, 0x08, 0x04, 0x02]),
     (0x29, [0x08, 0x04, 0x02, 0x02, 0x02, 0x04, 0x08]),
     (0x2f, [0x01, 0x01, 0x02, 0x04, 0x08, 0x10, 0x10]),
     (0x5f, [0x00, 0x00, 0x00, 0x00, 0x00, 0x00, 0x1f]),
     (0x3e, [0x10, 0x08, 0x04, 0x02, 0x04, 0x08, 0x10]),
     (0x3c, [0x01, 0x02, 0x04, 0x08, 0x04, 0x02, 0x01]),
     (0x5b, [0x0e, 0x08, 0x08, 0x08, 0x08, 0x08, 0x0e]),
     (0x5d, [0x0e, 0x02, 0x02, 0x02, 0x02, 0x02, 0x0e]),
     (0x7b, [0x06, 0x08, 0x08, 0x10, 0x08, 0x08, 0x06]),
     (0x7d, [0x0c, 0x02, 0x02, 0x01, 0x02, 0x02, 0x0c]),
     (0x7c, [0x04, 0x04, 0x04, 0x04, 0x04, 0x04, 0x04]),
     (0x2b, [0x00, 0x04, 0x04, 0x1f, 0x04, 0x04, 0x00]),
     (0x2a, [0x00, 0x15, 0x0e, 0x1f, 0x0e, 0x15, 0x00]),
     (0x25, [0x18, 0x19, 0x02, 0x04, 0x08, 0x13, 0x03]),
     (0x21, [0x04, 0x04, 0x04, 0x04, 0x04, 0x00, 0x04]),
     (0x3f, [0x0e, 0x11, 0x01, 0x02, 0x04, 0x00, 0x04]),
     (0x22, [0x0a, 0x0a, 0x0a, 0x00, 0x00, 0x00, 0x00]),
     (0x27, [0x04, 0x04, 0x08, 0x00, 0x00, 0x00, 0x00]),
     (0x5c, [0x10, 0x10, 0x08, 0x04, 0x02, 0x01, 0x01]),
     (0x2c, [0x00, 0x00, 0x00, 0x00, 0x00, 0x04, 0x08]),
     (0x3b, [0x00, 0x04, 0x04, 0x00, 0x04, 0x04, 0x08])]"

definition framebuffer_glyph :: "u8 \<Rightarrow> u8 list" where
  "framebuffer_glyph c =
     (let c = (if c \<ge> 0x61 \<and> c \<le> 0x7a then c - (0x61 - 0x41) else c)
      in case map_of glyph_table c of Some g \<Rightarrow> g | None \<Rightarrow> glyph_blank)"

definition framebuffer_draw_char :: "u32 \<Rightarrow> u32 \<Rightarrow> u8 \<Rightarrow> u32 \<Rightarrow> u32 \<Rightarrow> u32 \<Rightarrow> pixels \<Rightarrow> pixels" where
  "framebuffer_draw_char x y c foreground background scale px =
     (let glyph = framebuffer_glyph c;
          scale = (if scale = 0 then 1 else scale);
          px = framebuffer_fill_rect x y (6 * scale) (8 * scale) background px
      in fold (\<lambda>row. fold (\<lambda>col px.
                 if bit (glyph ! row) (4 - col)
                 then framebuffer_fill_rect (x + of_nat col * scale) (y + of_nat row * scale) scale scale foreground px
                 else px) [0..<5])
           [0..<7] px)"

fun write_at_from :: "u32 \<Rightarrow> u32 \<Rightarrow> u32 \<Rightarrow> cstring \<Rightarrow> u32 \<Rightarrow> u32 \<Rightarrow> u32 \<Rightarrow> pixels \<Rightarrow> pixels" where
  "write_at_from x cursor_x cursor_y [] fg bg scale px = px"
| "write_at_from x cursor_x cursor_y (c # cs) fg bg scale px =
     (if c = 0x0a then write_at_from x x (cursor_y + 8 * scale) cs fg bg scale px
      else write_at_from x (cursor_x + 6 * scale) cursor_y cs fg bg scale
             (framebuffer_draw_char cursor_x cursor_y c fg bg scale px))"

definition framebuffer_write_at :: "u32 \<Rightarrow> u32 \<Rightarrow> cstring \<Rightarrow> u32 \<Rightarrow> u32 \<Rightarrow> u32 \<Rightarrow> pixels \<Rightarrow> pixels" where
  "framebuffer_write_at x y str foreground background scale px =
     (let scale = (if scale = 0 then 1 else scale) in write_at_from x x y str foreground background scale px)"

definition framebuffer_draw_test_pattern :: "pixels \<Rightarrow> pixels" where
  "framebuffer_draw_test_pattern px =
     (let px = framebuffer_clear 0x00101820 px;
          px = framebuffer_fill_rect 48 48 544 64 0x00205070 px;
          px = framebuffer_fill_rect 48 136 160 240 0x00ff4f5e px;
          px = framebuffer_fill_rect 240 136 160 240 0x004ecdc4 px;
          px = framebuffer_fill_rect 432 136 160 240 0x00ffd166 px;
          px = framebuffer_fill_rect 48 408 544 24 0x00f8f9fa px;
          px = framebuffer_write_at 72 66 (bytes_of ''SaturnOS'') 0x00f8f9fa 0x00205070 3 px;
          px = framebuffer_write_at 72 154 (bytes_of ''RAMFB'') 0x00101820 0x00ff4f5e 3 px;
          px = framebuffer_write_at 264 154 (bytes_of ''TEXT'') 0x00101820 0x004ecdc4 3 px;
          px = framebuffer_write_at 456 154 (bytes_of ''0.6.95'') 0x00101820 0x00ffd166 2 px
      in framebuffer_write_at 72 414 (bytes_of ''FRAMEBUFFER TEXT ONLINE'') 0x00101820 0x00f8f9fa 2 px)"

section \<open>The console\<close>

definition framebuffer_console_cell_width :: u32 where
  "framebuffer_console_cell_width = 6 * FRAMEBUFFER_CONSOLE_SCALE"

definition framebuffer_console_cell_height :: u32 where
  "framebuffer_console_cell_height = 8 * FRAMEBUFFER_CONSOLE_SCALE"

definition framebuffer_console_columns :: u32 where
  "framebuffer_console_columns = (FRAMEBUFFER_WIDTH - FRAMEBUFFER_CONSOLE_MARGIN_X * 2) div framebuffer_console_cell_width"

definition framebuffer_console_rows :: u32 where
  "framebuffer_console_rows = (FRAMEBUFFER_CONSOLE_TEXT_BOTTOM - FRAMEBUFFER_CONSOLE_MARGIN_Y) div framebuffer_console_cell_height"

definition framebuffer_console_text_width :: u32 where
  "framebuffer_console_text_width = framebuffer_console_columns * framebuffer_console_cell_width"

definition framebuffer_console_text_height :: u32 where
  "framebuffer_console_text_height = framebuffer_console_rows * framebuffer_console_cell_height"

definition framebuffer_console_x :: "framebuffer \<Rightarrow> u32" where
  "framebuffer_console_x fb = FRAMEBUFFER_CONSOLE_MARGIN_X + console_column fb * framebuffer_console_cell_width"

definition framebuffer_console_y :: "framebuffer \<Rightarrow> u32" where
  "framebuffer_console_y fb = FRAMEBUFFER_CONSOLE_MARGIN_Y + console_row fb * framebuffer_console_cell_height"

definition draw :: "(pixels \<Rightarrow> pixels) \<Rightarrow> framebuffer \<Rightarrow> framebuffer" where
  "draw g fb = fb\<lparr>fb_pixels := g (fb_pixels fb)\<rparr>"

definition framebuffer_console_set_status :: "cstring option \<Rightarrow> framebuffer \<Rightarrow> framebuffer" where
  "framebuffer_console_set_status str fb =
     (case str of
        None \<Rightarrow> fb
      | Some str \<Rightarrow>
          if \<not> framebuffer_ready fb then fb
          else
            let fb = draw (framebuffer_fill_rect 0 FRAMEBUFFER_CONSOLE_STATUS_Y FRAMEBUFFER_WIDTH FRAMEBUFFER_CONSOLE_STATUS_HEIGHT CONSOLE_HEADER_BG) fb;
                fb = draw (framebuffer_fill_rect 0 (FRAMEBUFFER_CONSOLE_STATUS_Y - 2) FRAMEBUFFER_WIDTH 2 CONSOLE_BORDER) fb;
                fb = draw (framebuffer_fill_rect 0 (FRAMEBUFFER_HEIGHT - 2) FRAMEBUFFER_WIDTH 2 CONSOLE_BORDER) fb
            in draw (framebuffer_write_at FRAMEBUFFER_CONSOLE_MARGIN_X (FRAMEBUFFER_CONSOLE_STATUS_Y + 7) str CONSOLE_MUTED CONSOLE_HEADER_BG 2) fb)"

definition framebuffer_console_draw_layout :: "framebuffer \<Rightarrow> framebuffer" where
  "framebuffer_console_draw_layout fb =
     (let fb = draw (framebuffer_clear CONSOLE_BG) fb;
          fb = draw (framebuffer_fill_rect 0 0 FRAMEBUFFER_WIDTH FRAMEBUFFER_CONSOLE_HEADER_HEIGHT CONSOLE_HEADER_BG) fb;
          fb = draw (framebuffer_fill_rect 0 FRAMEBUFFER_CONSOLE_HEADER_HEIGHT FRAMEBUFFER_WIDTH 2 CONSOLE_BORDER) fb;
          fb = draw (framebuffer_fill_rect 0 (FRAMEBUFFER_CONSOLE_STATUS_Y - 2) FRAMEBUFFER_WIDTH 2 CONSOLE_BORDER) fb;
          fb = draw (framebuffer_fill_rect 0 FRAMEBUFFER_CONSOLE_STATUS_Y FRAMEBUFFER_WIDTH FRAMEBUFFER_CONSOLE_STATUS_HEIGHT CONSOLE_HEADER_BG) fb;
          fb = draw (framebuffer_fill_rect 0 (FRAMEBUFFER_HEIGHT - 2) FRAMEBUFFER_WIDTH 2 CONSOLE_BORDER) fb;
          fb = draw (framebuffer_write_at FRAMEBUFFER_CONSOLE_MARGIN_X 7 (bytes_of ''SaturnOS'') CONSOLE_FG CONSOLE_HEADER_BG 2) fb;
          fb = draw (framebuffer_write_at (FRAMEBUFFER_CONSOLE_MARGIN_X + 120) 7 (bytes_of ''0.6.95'') CONSOLE_DIM CONSOLE_HEADER_BG 2) fb;
          fb = draw (framebuffer_write_at (FRAMEBUFFER_WIDTH - 160) 7 (bytes_of ''ARM64 QEMU'') CONSOLE_MUTED CONSOLE_HEADER_BG 2) fb
      in framebuffer_console_set_status (Some (bytes_of ''BOOTING | RAMFB ONLINE'')) fb)"

definition framebuffer_console_clamp_cursor :: "framebuffer \<Rightarrow> framebuffer" where
  "framebuffer_console_clamp_cursor fb =
     (let columns = framebuffer_console_columns; rows = framebuffer_console_rows;
          fb = (if console_column fb \<ge> columns then fb\<lparr>console_column := columns - 1\<rparr> else fb)
      in if console_row fb \<ge> rows then fb\<lparr>console_row := rows - 1\<rparr> else fb)"

definition framebuffer_console_draw_cursor :: "u32 \<Rightarrow> framebuffer \<Rightarrow> framebuffer" where
  "framebuffer_console_draw_cursor color fb =
     (let cell_width = framebuffer_console_cell_width; cell_height = framebuffer_console_cell_height;
          x = framebuffer_console_x fb; y = framebuffer_console_y fb;
          fb = draw (framebuffer_fill_rect x (y + cell_height - CURSOR_THICKNESS) cell_width CURSOR_THICKNESS color) fb
      in draw (framebuffer_fill_rect (x + cell_width - CURSOR_THICKNESS) y CURSOR_THICKNESS cell_height color) fb)"

definition framebuffer_console_hide_cursor :: "framebuffer \<Rightarrow> framebuffer" where
  "framebuffer_console_hide_cursor fb =
     (if \<not> framebuffer_ready fb \<or> \<not> console_cursor_visible fb then fb
      else (framebuffer_console_draw_cursor CONSOLE_BG (framebuffer_console_clamp_cursor fb))\<lparr>console_cursor_visible := False\<rparr>)"

definition framebuffer_console_show_cursor :: "framebuffer \<Rightarrow> framebuffer" where
  "framebuffer_console_show_cursor fb =
     (if \<not> framebuffer_ready fb then fb
      else (framebuffer_console_draw_cursor CONSOLE_CURSOR (framebuffer_console_clamp_cursor fb))\<lparr>console_cursor_visible := True\<rparr>)"

definition scroll_rows :: "pixels \<Rightarrow> pixels" where
  "scroll_rows px =
     fold (\<lambda>y. fold (\<lambda>x px. px(unat (of_nat y * FRAMEBUFFER_WIDTH + of_nat x) :=
                              px (unat ((of_nat y + framebuffer_console_cell_height) * FRAMEBUFFER_WIDTH + of_nat x))))
                 [unat FRAMEBUFFER_CONSOLE_MARGIN_X..<unat (FRAMEBUFFER_CONSOLE_MARGIN_X + framebuffer_console_text_width)])
       [unat FRAMEBUFFER_CONSOLE_MARGIN_Y..<
         unat (FRAMEBUFFER_CONSOLE_MARGIN_Y + framebuffer_console_text_height - framebuffer_console_cell_height)] px"

definition framebuffer_console_scroll :: "framebuffer \<Rightarrow> framebuffer" where
  "framebuffer_console_scroll fb =
     (let cell_height = framebuffer_console_cell_height;
          end_y = FRAMEBUFFER_CONSOLE_MARGIN_Y + framebuffer_console_text_height
      in draw (framebuffer_fill_rect FRAMEBUFFER_CONSOLE_MARGIN_X (end_y - cell_height) framebuffer_console_text_width cell_height CONSOLE_BG)
           (draw scroll_rows fb))"

definition framebuffer_console_newline :: "framebuffer \<Rightarrow> framebuffer" where
  "framebuffer_console_newline fb =
     (let fb = fb\<lparr>console_column := 0, console_row := console_row fb + 1\<rparr>
      in if console_row fb \<ge> framebuffer_console_rows
         then (framebuffer_console_scroll fb)\<lparr>console_row := framebuffer_console_rows - 1\<rparr>
         else fb)"

definition framebuffer_console_advance :: "framebuffer \<Rightarrow> framebuffer" where
  "framebuffer_console_advance fb =
     (let fb = fb\<lparr>console_column := console_column fb + 1\<rparr>
      in if console_column fb \<ge> framebuffer_console_columns then framebuffer_console_newline fb else fb)"

definition framebuffer_console_backspace :: "framebuffer \<Rightarrow> framebuffer" where
  "framebuffer_console_backspace fb =
     (if console_column fb = 0 then fb else fb\<lparr>console_column := console_column fb - 1\<rparr>)"

definition framebuffer_console_init :: "framebuffer \<Rightarrow> framebuffer" where
  "framebuffer_console_init fb =
     (if \<not> framebuffer_ready fb then fb
      else framebuffer_console_show_cursor
             ((framebuffer_console_draw_layout fb)\<lparr>console_column := 0, console_row := 0, console_cursor_visible := False\<rparr>))"

text \<open>The part of \<open>framebuffer_console_putc\<close> behind its early returns: a character that is drawn.\<close>

definition console_put_glyph :: "u8 \<Rightarrow> framebuffer \<Rightarrow> framebuffer" where
  "console_put_glyph c fb =
     (let fb = (if console_column fb \<ge> framebuffer_console_columns then framebuffer_console_newline fb else fb);
          x = FRAMEBUFFER_CONSOLE_MARGIN_X + console_column fb * framebuffer_console_cell_width;
          y = FRAMEBUFFER_CONSOLE_MARGIN_Y + console_row fb * framebuffer_console_cell_height;
          fb = draw (framebuffer_draw_char x y c CONSOLE_FG CONSOLE_BG FRAMEBUFFER_CONSOLE_SCALE) fb
      in framebuffer_console_show_cursor (framebuffer_console_advance fb))"

text \<open>A tab is four calls of the function itself with a blank.\<close>

definition framebuffer_console_putc :: "u8 \<Rightarrow> framebuffer \<Rightarrow> framebuffer" where
  "framebuffer_console_putc c fb =
     (if \<not> framebuffer_ready fb then fb
      else
        let fb = framebuffer_console_hide_cursor fb
        in if c = 0x0d then framebuffer_console_show_cursor (fb\<lparr>console_column := 0\<rparr>)
           else if c = 0x0a then framebuffer_console_show_cursor (framebuffer_console_newline fb)
           else if c = 0x08 \<or> c = 0x7f then framebuffer_console_show_cursor (framebuffer_console_backspace fb)
           else if c = 0x09
           then framebuffer_console_show_cursor
                  (((\<lambda>fb. console_put_glyph 0x20 (framebuffer_console_hide_cursor fb)) ^^ 4) fb)
           else console_put_glyph c fb)"

definition framebuffer_console_write :: "cstring \<Rightarrow> framebuffer \<Rightarrow> framebuffer" where
  "framebuffer_console_write str fb = fold framebuffer_console_putc str fb"

section \<open>The kernel's console\<close>

definition console_putc :: "'u uart_hw \<Rightarrow> u8 \<Rightarrow> framebuffer \<Rightarrow> 'u \<Rightarrow> (framebuffer \<times> 'u) option" where
  "console_putc uhw c fb u = map_option (\<lambda>u. (framebuffer_console_putc c fb, u)) (uart_putc uhw c u)"

fun console_write :: "'u uart_hw \<Rightarrow> cstring \<Rightarrow> framebuffer \<Rightarrow> 'u \<Rightarrow> (framebuffer \<times> 'u) option" where
  "console_write uhw [] fb u = Some (fb, u)"
| "console_write uhw (c # str) fb u =
     (case console_putc uhw c fb u of None \<Rightarrow> None | Some (fb, u) \<Rightarrow> console_write uhw str fb u)"

end
