(* ===== verification/FramebufferProps.thy ===== *)
theory FramebufferProps
  imports Framebuffer
begin

text \<open>
  What the drawing operations leave in the pixels, and the console as a grid of characters with a
  cursor that \<open>framebuffer_console_putc\<close> implements.
\<close>

section \<open>Pixels by coordinates\<close>

definition pix :: "pixels \<Rightarrow> nat \<Rightarrow> nat \<Rightarrow> u32" where
  "pix px X Y = px (Y * 640 + X)"

lemma unat_pixel_index: "row < 480 \<Longrightarrow> col < 640 \<Longrightarrow> unat (of_nat row * 640 + of_nat col :: u32) = row * 640 + col"
proof -
  assume b: "row < 480" "col < 640"
  have "(of_nat row * 640 + of_nat col :: u32) = of_nat (row * 640 + col)" by simp
  moreover have "row * 640 + col < 2 ^ 32" using b by simp
  ultimately show ?thesis by (simp add: unat_of_nat take_bit_nat_eq_self del: of_nat_add of_nat_mult)
qed

lemma index_eq_iff:
  assumes "X < 640" "col < 640"
  shows "Y * 640 + X = row * 640 + col \<longleftrightarrow> Y = row \<and> X = (col :: nat)"
proof
  assume eq: "Y * 640 + X = row * 640 + col"
  have "(Y * 640 + X) div 640 = Y" "(row * 640 + col) div 640 = row" using assms by simp_all
  then show "Y = row \<and> X = col" using eq by simp
qed simp

lemma pix_store:
  assumes "row < 480" "col < 640" "X < 640"
  shows "pix (px(unat (of_nat row * 640 + of_nat col :: u32) := v)) X Y = (if Y = row \<and> X = col then v else pix px X Y)"
  using index_eq_iff [of X col Y row] assms by (simp add: pix_def unat_pixel_index)

text \<open>Painting in a loop, in any order: a pixel has the colour when one of the rounds painted it.\<close>

lemma pix_paint:
  assumes "\<And>i px. i \<in> set is \<Longrightarrow> pix (g i px) X Y = (if Q i then color else pix px X Y)"
  shows "pix (fold g is px) X Y = (if \<exists>i\<in>set is. Q i then color else pix px X Y)"
  using assms by (induction "is" arbitrary: px) auto

lemma pix_rows:
  assumes "b \<le> 640" "d \<le> 480" "X < 640"
  shows "pix (fold (\<lambda>row. fold (\<lambda>col px. px(unat (of_nat row * 640 + of_nat col :: u32) := color)) [a..<b]) [c..<d] px) X Y =
    (if a \<le> X \<and> X < b \<and> c \<le> Y \<and> Y < d then color else pix px X Y)"
proof -
  have store: "pix (px(unat (of_nat row * 640 + of_nat col :: u32) := color)) X Y = (if Y = row \<and> X = col then color else pix px X Y)"
    if "row \<in> set [c..<d]" "col \<in> set [a..<b]" for row col and px :: pixels
    using that assms pix_store by simp
  have "pix (fold (\<lambda>col px. px(unat (of_nat row * 640 + of_nat col :: u32) := color)) [a..<b] px) X Y =
      (if \<exists>col\<in>set [a..<b]. Y = row \<and> X = col then color else pix px X Y)"
    if "row \<in> set [c..<d]" for row and px :: pixels
    by (rule pix_paint) (rule store [OF that])
  then have "pix (fold (\<lambda>row. fold (\<lambda>col px. px(unat (of_nat row * 640 + of_nat col :: u32) := color)) [a..<b]) [c..<d] px) X Y =
      (if \<exists>row\<in>set [c..<d]. \<exists>col\<in>set [a..<b]. Y = row \<and> X = col then color else pix px X Y)"
    by (rule pix_paint)
  then show ?thesis by simp
qed

text \<open>The rectangle that is really painted, with the wrap-around of the right and the lower edge.\<close>

definition in_rect :: "u32 \<Rightarrow> u32 \<Rightarrow> u32 \<Rightarrow> u32 \<Rightarrow> nat \<Rightarrow> nat \<Rightarrow> bool" where
  "in_rect x y w h X Y \<longleftrightarrow> unat x \<le> X \<and> X < min 640 (unat (x + w)) \<and> unat y \<le> Y \<and> Y < min 480 (unat (y + h))"

lemma unat_min_edge: "unat (if (e :: u32) > 640 then 640 else e) = min 640 (unat e)" "unat (if (e :: u32) > 480 then 480 else e) = min 480 (unat e)"
  by (auto simp: word_less_nat_alt)

lemma pix_fill_rect:
  assumes "X < 640"
  shows "pix (framebuffer_fill_rect x y w h color px) X Y = (if in_rect x y w h X Y then color else pix px X Y)"
proof (cases "x \<ge> 640 \<or> y \<ge> 480")
  case True
  then have "\<not> in_rect x y w h X Y" using assms by (auto simp: in_rect_def word_le_nat_alt)
  then show ?thesis using True by (auto simp: framebuffer_fill_rect_def)
next
  case False
  have "framebuffer_fill_rect x y w h color px =
    fold (\<lambda>row. fold (\<lambda>col px. px(unat (of_nat row * 640 + of_nat col :: u32) := color)) [unat x..<min 640 (unat (x + w))])
      [unat y..<min 480 (unat (y + h))] px"
    using False by (simp only: framebuffer_fill_rect_def Let_def unat_min_edge if_False)
  then show ?thesis using pix_rows [of "min 640 (unat (x + w))" "min 480 (unat (y + h))" X] assms by (simp add: in_rect_def)
qed

text \<open>Which pixels a drawing operation leaves alone.\<close>

definition keeps :: "(nat \<Rightarrow> nat \<Rightarrow> bool) \<Rightarrow> (pixels \<Rightarrow> pixels) \<Rightarrow> bool" where
  "keeps A g \<longleftrightarrow> (\<forall>px X Y. X < 640 \<longrightarrow> A X Y \<longrightarrow> pix (g px) X Y = pix px X Y)"

lemma keeps_id: "keeps A (\<lambda>px. px)"
  by (simp add: keeps_def)

lemma keeps_fold: "(\<And>i. i \<in> set is \<Longrightarrow> keeps A (g i)) \<Longrightarrow> keeps A (fold g is)"
  by (induction "is") (auto simp: keeps_def)

lemma keeps_comp: "keeps A f \<Longrightarrow> keeps A g \<Longrightarrow> keeps A (\<lambda>px. f (g px))"
  by (simp add: keeps_def)

lemma keeps_when: "keeps A g \<Longrightarrow> keeps A (\<lambda>px. if P then g px else px)"
  by (simp add: keeps_def)

lemma keeps_fill_rect: "(\<And>X Y. A X Y \<Longrightarrow> \<not> in_rect x y w h X Y) \<Longrightarrow> keeps A (framebuffer_fill_rect x y w h color)"
  by (simp add: keeps_def pix_fill_rect)

lemma keeps_draw_char:
  assumes "\<And>x y w h color. keeps A (framebuffer_fill_rect x y w h color)"
  shows "keeps A (framebuffer_draw_char x y c fg bg scale)"
  unfolding framebuffer_draw_char_def [abs_def] Let_def by (rule keeps_comp [OF keeps_fold [OF keeps_fold [OF keeps_when [OF assms]]] assms])

abbreviation off_screen :: "nat \<Rightarrow> nat \<Rightarrow> bool" where
  "off_screen X Y \<equiv> 480 \<le> Y"

lemma off_screen_keeps:
  "keeps off_screen (framebuffer_fill_rect x y w h color)"
  "keeps off_screen (framebuffer_draw_char x y c fg bg scale)"
  "keeps off_screen (write_at_from x cx cy str fg bg scale)"
proof -
  show fill: "keeps off_screen (framebuffer_fill_rect x y w h color)" for x y w h color
    by (rule keeps_fill_rect) (auto simp: in_rect_def)
  show glyph: "keeps off_screen (framebuffer_draw_char x y c fg bg scale)" for x y c fg bg scale
    by (rule keeps_draw_char) (rule fill)
  show "keeps off_screen (write_at_from x cx cy str fg bg scale)"
    by (induction str arbitrary: cx cy) (use glyph in \<open>auto simp: keeps_def\<close>)
qed

lemma keeps_off_screen:
  assumes "keeps off_screen g" "640 * 480 \<le> i"
  shows "g px i = px i"
proof -
  have "480 \<le> i div 640" using div_le_mono [OF assms(2), of 640] by simp
  then have "pix (g px) (i mod 640) (i div 640) = pix px (i mod 640) (i div 640)" using assms(1) by (simp add: keeps_def)
  then show ?thesis by (simp add: pix_def)
qed

section \<open>Cells\<close>

abbreviation in_cell :: "nat \<Rightarrow> nat \<Rightarrow> nat \<Rightarrow> nat \<Rightarrow> bool" where
  "in_cell x y X Y \<equiv> x \<le> X \<and> X < x + 12 \<and> y \<le> Y \<and> Y < y + 16"

definition glyph_pixel :: "u8 \<Rightarrow> nat \<Rightarrow> nat \<Rightarrow> bool" where
  "glyph_pixel c dx dy \<longleftrightarrow> dx < 10 \<and> dy < 14 \<and> bit (framebuffer_glyph c ! (dy div 2)) (4 - dx div 2)"

lemma unat_add_small: "unat x + n < 2 ^ 32 \<Longrightarrow> unat (x + of_nat n :: u32) = unat x + n"
  by (subst unat_add_no_wrap) (simp_all add: unat_of_nat take_bit_nat_eq_self)

lemma in_rect_small:
  assumes "unat x + w \<le> 640" "unat y + h \<le> 480"
  shows "in_rect x y (of_nat w) (of_nat h) X Y \<longleftrightarrow> unat x \<le> X \<and> X < unat x + w \<and> unat y \<le> Y \<and> Y < unat y + h"
  using assms by (simp add: in_rect_def unat_add_small)

lemma step_iff:
  assumes "0 < n"
  shows "x + c * n \<le> X \<and> X < x + c * n + n \<longleftrightarrow> x \<le> X \<and> (X - x) div n = (c :: nat)"
proof
  assume "x + c * n \<le> X \<and> X < x + c * n + n"
  then show "x \<le> X \<and> (X - x) div n = c" by (auto intro!: div_nat_eqI simp: mult.commute [of n])
next
  assume "x \<le> X \<and> (X - x) div n = c"
  then have "x \<le> X" "X - x = c * n + (X - x) mod n" "(X - x) mod n < n" using assms by auto
  then show "x + c * n \<le> X \<and> X < x + c * n + n" by linarith
qed

lemma glyph_square:
  assumes "row < 7" "col < 5" "unat x + 12 \<le> 640" "unat y + 16 \<le> 480"
  shows "in_rect (x + of_nat col * 2) (y + of_nat row * 2) 2 2 X Y \<longleftrightarrow>
    unat x \<le> X \<and> unat y \<le> Y \<and> (X - unat x) div 2 = col \<and> (Y - unat y) div 2 = row"
proof -
  have "unat (x + of_nat (col * 2)) = unat x + col * 2" "unat (y + of_nat (row * 2)) = unat y + row * 2"
    using assms by (intro unat_add_small; simp)+
  moreover from this have "in_rect (x + of_nat (col * 2)) (y + of_nat (row * 2)) (of_nat 2) (of_nat 2) X Y \<longleftrightarrow>
      unat x + col * 2 \<le> X \<and> X < unat x + col * 2 + 2 \<and> unat y + row * 2 \<le> Y \<and> Y < unat y + row * 2 + 2"
    using assms by (subst in_rect_small) simp_all
  ultimately show ?thesis
    using step_iff [of 2 "unat x" col X] step_iff [of 2 "unat y" row Y] by (simp; blast)
qed

lemma pix_draw_char:
  assumes "X < 640" "unat x + 12 \<le> 640" "unat y + 16 \<le> 480"
  shows "pix (framebuffer_draw_char x y c fg bg 2 px) X Y =
    (if in_cell (unat x) (unat y) X Y then if glyph_pixel c (X - unat x) (Y - unat y) then fg else bg else pix px X Y)"
proof -
  let ?q = "\<lambda>row col. bit (framebuffer_glyph c ! row) (4 - col) \<and> in_rect (x + of_nat col * 2) (y + of_nat row * 2) 2 2 X Y"
  let ?px = "framebuffer_fill_rect x y (6 * 2) (8 * 2) bg px"
  have square: "pix (if bit (framebuffer_glyph c ! row) (4 - col)
        then framebuffer_fill_rect (x + of_nat col * 2) (y + of_nat row * 2) 2 2 fg px else px) X Y =
      (if ?q row col then fg else pix px X Y)" for row col px
    using pix_fill_rect [OF assms(1)] by simp
  have row: "pix (fold (\<lambda>col px. if bit (framebuffer_glyph c ! row) (4 - col)
        then framebuffer_fill_rect (x + of_nat col * 2) (y + of_nat row * 2) 2 2 fg px else px) [0..<5] px) X Y =
      (if \<exists>col\<in>set [0..<5]. ?q row col then fg else pix px X Y)" for row px
    by (rule pix_paint) (rule square)
  have "framebuffer_draw_char x y c fg bg 2 px =
      fold (\<lambda>row. fold (\<lambda>col px. if bit (framebuffer_glyph c ! row) (4 - col)
        then framebuffer_fill_rect (x + of_nat col * 2) (y + of_nat row * 2) 2 2 fg px else px) [0..<5]) [0..<7] ?px"
    by (simp add: framebuffer_draw_char_def Let_def del: upt_rec_numeral)
  then have "pix (framebuffer_draw_char x y c fg bg 2 px) X Y =
      (if \<exists>row\<in>set [0..<7]. \<exists>col\<in>set [0..<5]. ?q row col then fg else pix ?px X Y)"
    by (simp only:) (rule pix_paint, rule row)
  moreover have "(\<exists>row\<in>set [0..<7]. \<exists>col\<in>set [0..<5]. ?q row col) \<longleftrightarrow>
      in_cell (unat x) (unat y) X Y \<and> glyph_pixel c (X - unat x) (Y - unat y)"
  proof -
    have "(\<exists>row\<in>set [0..<7]. \<exists>col\<in>set [0..<5]. ?q row col) \<longleftrightarrow>
      (\<exists>row<7. \<exists>col<5. bit (framebuffer_glyph c ! row) (4 - col) \<and>
         unat x \<le> X \<and> unat y \<le> Y \<and> (X - unat x) div 2 = col \<and> (Y - unat y) div 2 = row)"
      using glyph_square [OF _ _ assms(2,3)] by (auto simp del: upt_rec_numeral)
    then show ?thesis by (auto simp: glyph_pixel_def simp del: upt_rec_numeral)
  qed
  ultimately show ?thesis
    using pix_fill_rect [OF assms(1), of x y 12 16 bg px Y] in_rect_small [of x 12 y 16 X Y] assms by auto
qed

section \<open>A grid of characters\<close>

text \<open>
  The console as its users see it: 25 rows of 50 characters and a cursor. Characters wrap at the end of
  a row, a new row below the last one moves all rows up, and a backspace only moves the cursor.
\<close>

record text_screen =
  ts_cells :: "nat \<Rightarrow> nat \<Rightarrow> u8"
  ts_col :: nat
  ts_row :: nat

definition text_newline :: "text_screen \<Rightarrow> text_screen" where
  "text_newline t =
     (if ts_row t = 24 then t\<lparr>ts_col := 0, ts_cells := \<lambda>r. if r = 24 then \<lambda>_. 0 else ts_cells t (Suc r)\<rparr>
      else t\<lparr>ts_col := 0, ts_row := Suc (ts_row t)\<rparr>)"

definition text_glyph :: "u8 \<Rightarrow> text_screen \<Rightarrow> text_screen" where
  "text_glyph c t =
     (let t = t\<lparr>ts_cells := (ts_cells t)(ts_row t := (ts_cells t (ts_row t))(ts_col t := c))\<rparr>
      in if ts_col t = 49 then text_newline t else t\<lparr>ts_col := Suc (ts_col t)\<rparr>)"

definition text_putc :: "u8 \<Rightarrow> text_screen \<Rightarrow> text_screen" where
  "text_putc c t =
     (if c = 0x0d then t\<lparr>ts_col := 0\<rparr>
      else if c = 0x0a then text_newline t
      else if c = 0x08 \<or> c = 0x7f then t\<lparr>ts_col := ts_col t - 1\<rparr>
      else if c = 0x09 then (text_glyph 0x20 ^^ 4) t
      else text_glyph c t)"

definition text_blank :: text_screen where
  "text_blank = \<lparr>ts_cells = \<lambda>_ _. 0, ts_col = 0, ts_row = 0\<rparr>"

text \<open>How the screen shows the grid; what is outside the text area is as in \<open>px0\<close>.\<close>

definition in_text :: "nat \<Rightarrow> nat \<Rightarrow> bool" where
  "in_text X Y \<longleftrightarrow> 16 \<le> X \<and> X < 616 \<and> 38 \<le> Y \<and> Y < 438"

definition screen_pixel :: "bool \<Rightarrow> text_screen \<Rightarrow> nat \<Rightarrow> nat \<Rightarrow> u32" where
  "screen_pixel cursor t X Y =
     (let c = (X - 16) div 12; r = (Y - 38) div 16; dx = (X - 16) mod 12; dy = (Y - 38) mod 16
      in if cursor \<and> c = ts_col t \<and> r = ts_row t \<and> (dx \<ge> 10 \<or> dy \<ge> 14) then CONSOLE_CURSOR
         else if glyph_pixel (ts_cells t r c) dx dy then CONSOLE_FG else CONSOLE_BG)"

definition shows_text :: "pixels \<Rightarrow> bool \<Rightarrow> text_screen \<Rightarrow> framebuffer \<Rightarrow> bool" where
  "shows_text px0 cursor t fb \<longleftrightarrow>
     framebuffer_ready fb \<and> console_cursor_visible fb = cursor \<and>
     unat (console_column fb) = ts_col t \<and> ts_col t < 50 \<and> unat (console_row fb) = ts_row t \<and> ts_row t < 25 \<and>
     (\<forall>X Y. X < 640 \<longrightarrow> pix (fb_pixels fb) X Y = (if in_text X Y then screen_pixel cursor t X Y else pix px0 X Y))"

lemma console_size:
  "framebuffer_console_cell_width = 12" "framebuffer_console_cell_height = 16" "framebuffer_console_columns = 50"
  "framebuffer_console_rows = 25" "framebuffer_console_text_width = 600" "framebuffer_console_text_height = 400"
  by (simp_all add: framebuffer_console_cell_width_def framebuffer_console_cell_height_def framebuffer_console_columns_def
      framebuffer_console_rows_def framebuffer_console_text_width_def framebuffer_console_text_height_def)

text \<open>Positions of cells.\<close>

lemma unat_cell:
  "unat col < 50 \<Longrightarrow> unat (16 + col * 12 :: u32) = 16 + unat col * 12"
  "unat row < 25 \<Longrightarrow> unat (30 + 8 + row * 16 :: u32) = 38 + unat row * 16"
  by (simp_all add: unat_word_ariths unat_add_no_wrap)

lemma in_cell_iff:
  assumes "c < 50" "r < 25"
  shows "in_cell (16 + c * 12) (38 + r * 16) X Y \<longleftrightarrow> in_text X Y \<and> (X - 16) div 12 = c \<and> (Y - 38) div 16 = r"
  using step_iff [of 12 16 c X] step_iff [of 16 38 r Y] assms unfolding in_text_def by auto

lemma step_offset: "x \<le> X \<Longrightarrow> (X - x) div n = c \<Longrightarrow> X = x + c * n + (X - x) mod (n :: nat)"
  by auto

section \<open>Each step of the console\<close>

lemma shows_textI:
  assumes "framebuffer_ready fb" "console_cursor_visible fb = cursor" "unat (console_column fb) = ts_col t" "ts_col t < 50"
    "unat (console_row fb) = ts_row t" "ts_row t < 25"
    "\<And>X Y. X < 640 \<Longrightarrow> pix (fb_pixels fb) X Y = (if in_text X Y then screen_pixel cursor t X Y else pix px0 X Y)"
  shows "shows_text px0 cursor t fb"
  using assms by (simp add: shows_text_def)

lemma shows_textD:
  assumes "shows_text px0 cursor t fb"
  shows "framebuffer_ready fb" "console_cursor_visible fb = cursor" "unat (console_column fb) = ts_col t" "ts_col t < 50"
    "unat (console_row fb) = ts_row t" "ts_row t < 25"
    "X < 640 \<Longrightarrow> pix (fb_pixels fb) X Y = (if in_text X Y then screen_pixel cursor t X Y else pix px0 X Y)"
  using assms by (simp_all add: shows_text_def)

lemma clamp_cursor_id:
  assumes "shows_text px0 cursor t fb"
  shows "framebuffer_console_clamp_cursor fb = fb"
  using shows_textD(3-6) [OF assms]
  by (simp add: framebuffer_console_clamp_cursor_def console_size word_le_nat_alt)

lemma pix_draw_cursor:
  assumes "X < 640" "unat (console_column fb) < 50" "unat (console_row fb) < 25"
  shows "pix (fb_pixels (framebuffer_console_draw_cursor color fb)) X Y =
    (if in_text X Y \<and> (X - 16) div 12 = unat (console_column fb) \<and> (Y - 38) div 16 = unat (console_row fb) \<and>
        ((X - 16) mod 12 \<ge> 10 \<or> (Y - 38) mod 16 \<ge> 14) then color else pix (fb_pixels fb) X Y)"
proof -
  let ?c = "unat (console_column fb)" and ?r = "unat (console_row fb)"
  let ?x = "framebuffer_console_x fb" and ?y = "framebuffer_console_y fb"
  have xy: "unat ?x = 16 + ?c * 12" "unat ?y = 38 + ?r * 16"
    using unat_cell assms by (simp_all add: framebuffer_console_x_def framebuffer_console_y_def console_size)
  have "unat (?y + of_nat 14) = unat ?y + 14" "unat (?x + of_nat 10) = unat ?x + 10"
    using xy assms by (intro unat_add_small; simp)+
  moreover have "?y + 16 - 2 = ?y + of_nat 14" "?x + 12 - 2 = ?x + of_nat 10" by simp_all
  ultimately have "unat (?y + 16 - 2) = unat ?y + 14" "unat (?x + 12 - 2) = unat ?x + 10" by metis+
  then have edges: "unat (?y + 16 - 2) = 52 + ?r * 16" "unat (?x + 12 - 2) = 26 + ?c * 12" unfolding xy by linarith+
  have bottom: "in_rect ?x (?y + 16 - 2) 12 2 X Y \<longleftrightarrow> in_cell (16 + ?c * 12) (38 + ?r * 16) X Y \<and> 52 + ?r * 16 \<le> Y"
    using in_rect_small [of ?x 12 "?y + 16 - 2" 2 X Y] xy edges assms by auto
  have right: "in_rect (?x + 12 - 2) ?y 2 16 X Y \<longleftrightarrow> in_cell (16 + ?c * 12) (38 + ?r * 16) X Y \<and> 26 + ?c * 12 \<le> X"
    using in_rect_small [of "?x + 12 - 2" 2 ?y 16 X Y] xy edges assms by auto
  have pixel: "pix (fb_pixels (framebuffer_console_draw_cursor color fb)) X Y =
      (if in_rect (?x + 12 - 2) ?y 2 16 X Y \<or> in_rect ?x (?y + 16 - 2) 12 2 X Y then color else pix (fb_pixels fb) X Y)"
    using pix_fill_rect [OF assms(1)] by (simp add: framebuffer_console_draw_cursor_def draw_def Let_def console_size del: add_diff_eq diff_add_eq)
  have "(52 + ?r * 16 \<le> Y \<longleftrightarrow> 14 \<le> (Y - 38) mod 16) \<and> (26 + ?c * 12 \<le> X \<longleftrightarrow> 10 \<le> (X - 16) mod 12)"
    if "in_cell (16 + ?c * 12) (38 + ?r * 16) X Y"
  proof -
    have "X = 16 + ?c * 12 + (X - 16) mod 12" "Y = 38 + ?r * 16 + (Y - 38) mod 16"
      using that in_cell_iff [OF assms(2,3), of X Y] unfolding in_text_def by (intro step_offset; simp)+
    then show ?thesis by linarith
  qed
  then show ?thesis unfolding pixel bottom right using in_cell_iff [OF assms(2,3), of X Y] by auto
qed

lemma draw_cursor_fields [simp]:
  "framebuffer_ready (framebuffer_console_draw_cursor color fb) = framebuffer_ready fb"
  "console_column (framebuffer_console_draw_cursor color fb) = console_column fb"
  "console_row (framebuffer_console_draw_cursor color fb) = console_row fb"
  by (simp_all add: framebuffer_console_draw_cursor_def draw_def Let_def)

text \<open>The cursor is drawn where no glyph has a pixel, so removing it gives back what was there.\<close>

lemma hide_cursor_shows:
  assumes "shows_text px0 True t fb"
  shows "shows_text px0 False t (framebuffer_console_hide_cursor fb)"
proof -
  note d = shows_textD [OF assms]
  have eq: "framebuffer_console_hide_cursor fb = (framebuffer_console_draw_cursor CONSOLE_BG fb)\<lparr>console_cursor_visible := False\<rparr>"
    using d(1,2) clamp_cursor_id [OF assms] by (simp add: framebuffer_console_hide_cursor_def)
  show ?thesis
    by (rule shows_textI) (use d pix_draw_cursor [of _ fb CONSOLE_BG] in \<open>auto simp: eq screen_pixel_def Let_def glyph_pixel_def\<close>)
qed

lemma show_cursor_shows:
  assumes "shows_text px0 cursor t fb"
  shows "shows_text px0 True t (framebuffer_console_show_cursor fb)"
proof -
  note d = shows_textD [OF assms]
  have eq: "framebuffer_console_show_cursor fb = (framebuffer_console_draw_cursor CONSOLE_CURSOR fb)\<lparr>console_cursor_visible := True\<rparr>"
    using d(1) clamp_cursor_id [OF assms] by (simp add: framebuffer_console_show_cursor_def)
  show ?thesis
    by (rule shows_textI) (use d pix_draw_cursor [of _ fb CONSOLE_CURSOR] in \<open>auto simp: eq screen_pixel_def Let_def\<close>)
qed

text \<open>Scrolling copies each row of pixels from the one a cell below it, which it has not written yet.\<close>

definition copy_pixel :: "nat \<Rightarrow> nat \<Rightarrow> pixels \<Rightarrow> pixels" where
  "copy_pixel y x px = px(unat (of_nat y * 640 + of_nat x :: u32) := px (unat ((of_nat y + 16) * 640 + of_nat x :: u32)))"

lemma pix_copy_pixel:
  assumes "y + 16 < 480" "x < 640" "X < 640"
  shows "pix (copy_pixel y x px) X Y = (if Y = y \<and> X = x then pix px X (Y + 16) else pix px X Y)"
proof -
  have "(of_nat y + 16) * 640 + of_nat x = (of_nat (y + 16) * 640 + of_nat x :: u32)" by (simp add: algebra_simps)
  then have "px (unat ((of_nat y + 16) * 640 + of_nat x :: u32)) = pix px x (y + 16)"
    using unat_pixel_index [of "y + 16" x] assms by (simp add: pix_def)
  then show ?thesis unfolding copy_pixel_def using assms by (subst pix_store) simp_all
qed

definition copy_row :: "nat \<Rightarrow> nat \<Rightarrow> nat \<Rightarrow> pixels \<Rightarrow> pixels" where
  "copy_row a b y = fold (copy_pixel y) [a..<b]"

lemma pix_copy_row:
  assumes "y + 16 < 480" "b \<le> 640" "X < 640"
  shows "pix (copy_row a b y px) X Y = (if Y = y \<and> a \<le> X \<and> X < b then pix px X (Y + 16) else pix px X Y)"
  using assms(2,3) unfolding copy_row_def
proof (induction b arbitrary: X Y)
  case (Suc b)
  then show ?case using pix_copy_pixel [OF assms(1), of b] by (cases "a \<le> b") (auto simp: less_Suc_eq)
qed simp

lemma pix_copy_rows:
  assumes "d + 16 \<le> 480" "b \<le> 640" "X < 640"
  shows "pix (fold (copy_row a b) [c..<d] px) X Y = (if (a \<le> X \<and> X < b) \<and> c \<le> Y \<and> Y < d then pix px X (Y + 16) else pix px X Y)"
  using assms(1)
proof (induction d arbitrary: Y)
  case (Suc d)
  show ?case
  proof (cases "c \<le> d")
    case True
    have "pix (fold (copy_row a b) [c..<Suc d] px) X Y = pix (copy_row a b d (fold (copy_row a b) [c..<d] px)) X Y" using True by simp
    then show ?thesis using pix_copy_row [of d b X a] assms(2,3) Suc True by (simp add: less_Suc_eq)
  qed auto
qed simp

lemma pix_scroll:
  assumes "X < 640"
  shows "pix (fb_pixels (framebuffer_console_scroll fb)) X Y =
    (if in_text X Y then if Y < 422 then pix (fb_pixels fb) X (Y + 16) else CONSOLE_BG else pix (fb_pixels fb) X Y)"
proof -
  have rows: "scroll_rows px = fold (copy_row 16 616) [38..<422] px" for px
    by (simp add: scroll_rows_def copy_row_def [abs_def] copy_pixel_def [abs_def] console_size del: upt_rec_numeral)
  have "in_rect 16 422 600 16 X Y \<longleftrightarrow> 16 \<le> X \<and> X < 616 \<and> 422 \<le> Y \<and> Y < 438" by (auto simp: in_rect_def)
  then show ?thesis
    using pix_fill_rect [OF assms, of 16 422 600 16 CONSOLE_BG] pix_copy_rows [of 422 616 X 16 38 "fb_pixels fb" Y] assms
    by (auto simp: framebuffer_console_scroll_def draw_def Let_def console_size rows in_text_def simp del: upt_rec_numeral)
qed

lemma scroll_fields [simp]:
  "framebuffer_ready (framebuffer_console_scroll fb) = framebuffer_ready fb"
  "console_column (framebuffer_console_scroll fb) = console_column fb"
  "console_cursor_visible (framebuffer_console_scroll fb) = console_cursor_visible fb"
  by (simp_all add: framebuffer_console_scroll_def draw_def Let_def)

lemma glyph_blank_pixel: "\<not> glyph_pixel 0 dx dy"
proof -
  have "framebuffer_glyph 0 = glyph_blank" by (simp add: framebuffer_glyph_def glyph_table_def)
  moreover have "glyph_blank ! i = 0" if "i < 7" for i
    using nth_mem [of i glyph_blank] that by (simp add: glyph_blank_def)
  ultimately show ?thesis by (auto simp: glyph_pixel_def)
qed

lemma screen_pixel_scroll:
  assumes "in_text X Y"
  shows "screen_pixel False (t\<lparr>ts_col := 0, ts_cells := \<lambda>r. if r = 24 then \<lambda>_. 0 else ts_cells t (Suc r)\<rparr>) X Y =
    (if Y < 422 then screen_pixel False t X (Y + 16) else CONSOLE_BG)"
proof -
  have y: "Y + 16 - 38 = Y - 38 + 16" using assms by (simp add: in_text_def)
  have "(Y + 16 - 38) div 16 = Suc ((Y - 38) div 16)" "(Y + 16 - 38) mod 16 = (Y - 38) mod 16" unfolding y by simp_all
  moreover have "Y < 422 \<longleftrightarrow> (Y - 38) div 16 \<noteq> 24"
    using assms step_iff [of 16 38 24 Y] unfolding in_text_def by (simp add: not_le [symmetric] del: not_le)
  ultimately show ?thesis by (simp add: screen_pixel_def Let_def glyph_blank_pixel)
qed

lemma newline_shows:
  assumes "framebuffer_ready fb" "\<not> console_cursor_visible fb" "unat (console_row fb) = ts_row t" "ts_row t < 25"
    "\<And>X Y. X < 640 \<Longrightarrow> pix (fb_pixels fb) X Y = (if in_text X Y then screen_pixel False t X Y else pix px0 X Y)"
  shows "shows_text px0 False (text_newline t) (framebuffer_console_newline fb)"
proof -
  have next_row: "unat (console_row fb + 1) = Suc (ts_row t)" using unat_add_small [of "console_row fb" 1] assms(3,4) by simp
  show ?thesis
  proof (cases "ts_row t = 24")
    case True
    let ?fb = "fb\<lparr>console_column := 0, console_row := console_row fb + 1\<rparr>"
    have eq: "framebuffer_console_newline fb = (framebuffer_console_scroll ?fb)\<lparr>console_row := 25 - 1\<rparr>"
      using next_row True by (simp add: framebuffer_console_newline_def Let_def console_size word_le_nat_alt)
    show ?thesis
    proof (rule shows_textI)
      fix X Y :: nat
      assume X: "X < 640"
      have "in_text X (Y + 16)" if "in_text X Y" "Y < 422" using that by (simp add: in_text_def)
      then show "pix (fb_pixels (framebuffer_console_newline fb)) X Y =
          (if in_text X Y then screen_pixel False (text_newline t) X Y else pix px0 X Y)"
        using pix_scroll [OF X, of ?fb Y] assms(5) [OF X] screen_pixel_scroll [of X Y t] True by (auto simp: eq text_newline_def)
    qed (use assms(1,2) True in \<open>simp_all add: eq text_newline_def\<close>)
  next
    case False
    then have "\<not> console_row fb + 1 \<ge> 25" using next_row assms(4) by (simp add: word_le_nat_alt)
    then have eq: "framebuffer_console_newline fb = fb\<lparr>console_column := 0, console_row := console_row fb + 1\<rparr>"
      by (simp add: framebuffer_console_newline_def Let_def console_size)
    show ?thesis
      by (rule shows_textI) (use assms False next_row in \<open>auto simp: eq text_newline_def screen_pixel_def\<close>)
  qed
qed

lemma pix_cell_char:
  assumes "X < 640" "unat col < 50" "unat row < 25"
  shows "pix (framebuffer_draw_char (16 + col * 12) (30 + 8 + row * 16) c fg bg 2 px) X Y =
    (if in_text X Y \<and> (X - 16) div 12 = unat col \<and> (Y - 38) div 16 = unat row
     then if glyph_pixel c ((X - 16) mod 12) ((Y - 38) mod 16) then fg else bg else pix px X Y)"
proof -
  note xy = unat_cell(1) [OF assms(2)] unat_cell(2) [OF assms(3)]
  have cell: "pix (framebuffer_draw_char (16 + col * 12) (30 + 8 + row * 16) c fg bg 2 px) X Y =
      (if in_cell (16 + unat col * 12) (38 + unat row * 16) X Y
       then if glyph_pixel c (X - (16 + unat col * 12)) (Y - (38 + unat row * 16)) then fg else bg else pix px X Y)"
    using pix_draw_char [OF assms(1), of "16 + col * 12" "30 + 8 + row * 16" c fg bg px Y] assms(2,3) unfolding xy by simp
  show ?thesis
  proof (cases "in_text X Y \<and> (X - 16) div 12 = unat col \<and> (Y - 38) div 16 = unat row")
    case True
    then have "X = 16 + unat col * 12 + (X - 16) mod 12" "Y = 38 + unat row * 16 + (Y - 38) mod 16"
      unfolding in_text_def by (intro step_offset; simp)+
    then have "X - (16 + unat col * 12) = (X - 16) mod 12" "Y - (38 + unat row * 16) = (Y - 38) mod 16" by linarith+
    then show ?thesis using cell True in_cell_iff [OF assms(2,3)] by simp
  qed (use cell in_cell_iff [OF assms(2,3)] in auto)
qed

lemma put_glyph_shows:
  assumes "shows_text px0 False t fb"
  shows "shows_text px0 True (text_glyph c t) (console_put_glyph c fb)"
proof -
  note d = shows_textD [OF assms]
  let ?t = "t\<lparr>ts_cells := (ts_cells t)(ts_row t := (ts_cells t (ts_row t))(ts_col t := c))\<rparr>"
  let ?fb = "draw (framebuffer_draw_char (16 + console_column fb * 12) (30 + 8 + console_row fb * 16) c CONSOLE_FG CONSOLE_BG 2) fb"
  have "\<not> 50 \<le> console_column fb" using d(3,4) by (simp add: word_le_nat_alt)
  then have eq: "console_put_glyph c fb = framebuffer_console_show_cursor (framebuffer_console_advance ?fb)"
    by (simp add: console_put_glyph_def Let_def console_size)
  have pixel: "pix (fb_pixels ?fb) X Y = (if in_text X Y then screen_pixel False ?t X Y else pix px0 X Y)" if X: "X < 640" for X Y
    using pix_cell_char [OF X, of "console_column fb" "console_row fb" c] d X by (auto simp: draw_def screen_pixel_def Let_def)
  have next_col: "unat (console_column fb + 1) = Suc (ts_col t)" using unat_add_small [of "console_column fb" 1] d(3,4) by simp
  have "shows_text px0 False (text_glyph c t) (framebuffer_console_advance ?fb)"
  proof (cases "ts_col t = 49")
    case True
    then have "framebuffer_console_advance ?fb = framebuffer_console_newline (?fb\<lparr>console_column := console_column fb + 1\<rparr>)"
      using next_col by (simp add: framebuffer_console_advance_def draw_def Let_def console_size word_le_nat_alt)
    moreover have "text_glyph c t = text_newline ?t" using True by (simp add: text_glyph_def)
    moreover have "shows_text px0 False (text_newline ?t) (framebuffer_console_newline (?fb\<lparr>console_column := console_column fb + 1\<rparr>))"
      by (rule newline_shows) (use d pixel in \<open>simp_all add: draw_def\<close>)
    ultimately show ?thesis by simp
  next
    case False
    then have "framebuffer_console_advance ?fb = ?fb\<lparr>console_column := console_column fb + 1\<rparr>"
      using next_col d(4) by (simp add: framebuffer_console_advance_def draw_def Let_def console_size word_le_nat_alt)
    moreover have "text_glyph c t = ?t\<lparr>ts_col := Suc (ts_col t)\<rparr>" using False by (simp add: text_glyph_def)
    moreover have "shows_text px0 False (?t\<lparr>ts_col := Suc (ts_col t)\<rparr>) (?fb\<lparr>console_column := console_column fb + 1\<rparr>)"
    proof (rule shows_textI)
      fix X Y :: nat
      assume "X < 640"
      from pixel [OF this, of Y]
      show "pix (fb_pixels (?fb\<lparr>console_column := console_column fb + 1\<rparr>)) X Y =
          (if in_text X Y then screen_pixel False (?t\<lparr>ts_col := Suc (ts_col t)\<rparr>) X Y else pix px0 X Y)"
        by (simp add: screen_pixel_def)
    qed (use d False next_col in \<open>simp_all add: draw_def\<close>)
    ultimately show ?thesis by simp
  qed
  then show ?thesis unfolding eq by (rule show_cursor_shows)
qed

lemma tab_shows:
  assumes "shows_text px0 True t fb"
  shows "shows_text px0 True ((text_glyph 0x20 ^^ n) t) (((\<lambda>fb. console_put_glyph 0x20 (framebuffer_console_hide_cursor fb)) ^^ n) fb)"
  by (induction n) (simp_all add: assms hide_cursor_shows put_glyph_shows)

lemma putc_shows:
  assumes "shows_text px0 True t fb"
  shows "shows_text px0 True (text_putc c t) (framebuffer_console_putc c fb)"
proof -
  let ?h = "framebuffer_console_hide_cursor fb"
  note h = hide_cursor_shows [OF assms]
  note d = shows_textD [OF h]
  have cr: "shows_text px0 False (t\<lparr>ts_col := 0\<rparr>) (?h\<lparr>console_column := 0\<rparr>)"
    by (rule shows_textI) (use d in \<open>simp_all add: screen_pixel_def\<close>)
  have nl: "shows_text px0 False (text_newline t) (framebuffer_console_newline ?h)"
    by (rule newline_shows) (use d in simp_all)
  have bs: "shows_text px0 False (t\<lparr>ts_col := ts_col t - 1\<rparr>) (framebuffer_console_backspace ?h)"
  proof (cases "console_column ?h = 0")
    case True
    then have "t\<lparr>ts_col := ts_col t - 1\<rparr> = t" using d(3) by (cases t) simp
    then show ?thesis using True h by (simp add: framebuffer_console_backspace_def)
  next
    case False
    then have "unat (console_column ?h - 1) = ts_col t - 1" using d(3) by (simp add: unat_minus_one)
    then show ?thesis
      by (intro shows_textI) (use d False in \<open>simp_all add: framebuffer_console_backspace_def screen_pixel_def\<close>)
  qed
  have tab: "shows_text px0 True ((text_glyph 0x20 ^^ 4) t)
      (((\<lambda>fb. console_put_glyph 0x20 (framebuffer_console_hide_cursor fb)) ^^ 4) ?h)"
  proof -
    have "framebuffer_console_hide_cursor ?h = ?h" using d(2) by (subst framebuffer_console_hide_cursor_def) simp
    then have "shows_text px0 True (text_glyph 0x20 t) (console_put_glyph 0x20 (framebuffer_console_hide_cursor ?h))"
      using put_glyph_shows [OF h] by simp
    from tab_shows [OF this, of 3] show ?thesis by (simp add: numeral_eq_Suc funpow_swap1)
  qed
  have "framebuffer_ready fb" using shows_textD(1) [OF assms] .
  then show ?thesis
    using show_cursor_shows [OF cr] show_cursor_shows [OF nl] show_cursor_shows [OF bs] show_cursor_shows [OF tab] put_glyph_shows [OF h, of c]
    by (simp add: framebuffer_console_putc_def text_putc_def Let_def)
qed

lemma write_shows:
  assumes "shows_text px0 True t fb"
  shows "shows_text px0 True (fold text_putc str t) (framebuffer_console_write str fb)"
  using assms unfolding framebuffer_console_write_def by (induction str arbitrary: t fb) (simp_all add: putc_shows)

section \<open>The empty console\<close>

text \<open>A line of text is drawn within the rows of its cells.\<close>

lemma keeps_draw_char_rows:
  assumes "unat y + 16 \<le> 480" "\<And>X Y. A X Y \<Longrightarrow> Y < unat y \<or> unat y + 16 \<le> Y"
  shows "keeps A (framebuffer_draw_char x y c fg bg 2)"
proof -
  have cell: "keeps A (framebuffer_fill_rect x y w 16 color)" for w color
    by (rule keeps_fill_rect) (use assms unat_add_small [of y 16] in \<open>force simp: in_rect_def\<close>)
  have square: "keeps A (framebuffer_fill_rect a (y + of_nat row * 2) w 2 color)" if "row < 7" for a row w color
  proof (rule keeps_fill_rect)
    fix X Y
    assume A: "A X Y"
    have "unat (y + of_nat (row * 2)) = unat y + row * 2" "unat (y + of_nat (row * 2 + 2)) = unat y + (row * 2 + 2)"
      using assms(1) that by (intro unat_add_small; simp)+
    then show "\<not> in_rect a (y + of_nat row * 2) w 2 X Y"
      using assms(2) [OF A] that by (auto simp: in_rect_def algebra_simps)
  qed
  have "framebuffer_draw_char x y c fg bg 2 = (\<lambda>px. fold (\<lambda>row. fold (\<lambda>col px. if bit (framebuffer_glyph c ! row) (4 - col)
        then framebuffer_fill_rect (x + of_nat col * 2) (y + of_nat row * 2) 2 2 fg px else px) [0..<5]) [0..<7]
      (framebuffer_fill_rect x y 12 16 bg px))"
    by (simp add: framebuffer_draw_char_def [abs_def] Let_def del: upt_rec_numeral)
  then show ?thesis by (simp only:) (rule keeps_comp [OF keeps_fold [OF keeps_fold [OF keeps_when [OF square]]] cell], simp)
qed

lemma keeps_write_at_rows:
  assumes "unat y + 16 \<le> 480" "\<And>X Y. A X Y \<Longrightarrow> Y < unat y \<or> unat y + 16 \<le> Y" "0x0a \<notin> set str"
  shows "keeps A (framebuffer_write_at x y str fg bg 2)"
proof -
  have "keeps A (write_at_from x cx y str fg bg 2)" for cx
    using assms(3)
  proof (induction str arbitrary: cx)
    case (Cons c str)
    then show ?case using keeps_draw_char_rows [OF assms(1,2)] by (auto simp: keeps_def)
  qed (simp add: keeps_def)
  then show ?thesis by (simp add: framebuffer_write_at_def [abs_def])
qed

lemma fill_rect_off_text:
  assumes "in_text X Y" "unat (y + h) \<le> 38 \<or> 438 \<le> unat y"
  shows "pix (framebuffer_fill_rect x y w h color px) X Y = pix px X Y"
proof -
  have "\<not> in_rect x y w h X Y" using assms by (auto simp: in_rect_def in_text_def)
  then show ?thesis using pix_fill_rect [of X] assms(1) by (simp add: in_text_def)
qed

lemma write_at_off_text:
  assumes "in_text X Y" "unat y + 16 \<le> 38 \<or> 438 \<le> unat y \<and> unat y + 16 \<le> 480" "0x0a \<notin> set str"
  shows "pix (framebuffer_write_at x y str fg bg 2 px) X Y = pix px X Y"
proof -
  have "keeps in_text (framebuffer_write_at x y str fg bg 2)"
    by (rule keeps_write_at_rows) (use assms(2,3) in \<open>auto simp: in_text_def\<close>)
  then show ?thesis using assms(1) by (simp add: keeps_def in_text_def)
qed

lemmas off_text = fill_rect_off_text write_at_off_text

lemma set_status_keeps_text:
  assumes "in_text X Y" "0x0a \<notin> set str"
  shows "pix (fb_pixels (framebuffer_console_set_status (Some str) fb)) X Y = pix (fb_pixels fb) X Y"
  using assms by (simp add: framebuffer_console_set_status_def draw_def Let_def off_text)

lemma set_status_fields [simp]:
  "framebuffer_ready (framebuffer_console_set_status str fb) = framebuffer_ready fb"
  "console_column (framebuffer_console_set_status str fb) = console_column fb"
  "console_row (framebuffer_console_set_status str fb) = console_row fb"
  "console_cursor_visible (framebuffer_console_set_status str fb) = console_cursor_visible fb"
  by (simp_all add: framebuffer_console_set_status_def draw_def Let_def split: option.split)

lemma layout_blank:
  assumes "in_text X Y"
  shows "pix (fb_pixels (framebuffer_console_draw_layout fb)) X Y = CONSOLE_BG"
proof -
  have "in_rect 0 0 640 480 X Y" using assms by (simp add: in_rect_def in_text_def)
  then have clear: "pix (framebuffer_clear CONSOLE_BG px) X Y = CONSOLE_BG" for px
    using assms by (simp add: framebuffer_clear_def pix_fill_rect in_text_def)
  have "0x0a \<notin> set (bytes_of ''BOOTING | RAMFB ONLINE'')" "0x0a \<notin> set (bytes_of ''SaturnOS'')"
    "0x0a \<notin> set (bytes_of ''0.6.95'')" "0x0a \<notin> set (bytes_of ''ARM64 QEMU'')"
    by (simp_all add: bytes_of_def)
  then show ?thesis
    using assms by (simp add: framebuffer_console_draw_layout_def Let_def set_status_keeps_text) (simp add: draw_def off_text clear)
qed

lemma draw_fields [simp]:
  "framebuffer_ready (draw g fb) = framebuffer_ready fb" "console_column (draw g fb) = console_column fb"
  "console_row (draw g fb) = console_row fb" "console_cursor_visible (draw g fb) = console_cursor_visible fb"
  by (simp_all add: draw_def)

lemma console_init_shows:
  assumes "framebuffer_ready fb"
  shows "shows_text (fb_pixels (framebuffer_console_init fb)) True text_blank (framebuffer_console_init fb)"
proof -
  let ?l = "(framebuffer_console_draw_layout fb)\<lparr>console_column := 0, console_row := 0, console_cursor_visible := False\<rparr>"
  have "framebuffer_ready ?l" using assms by (simp add: framebuffer_console_draw_layout_def Let_def)
  then have "shows_text (fb_pixels ?l) False text_blank ?l"
    by (intro shows_textI) (simp_all add: text_blank_def layout_blank screen_pixel_def glyph_blank_pixel)
  from show_cursor_shows [OF this] have "shows_text (fb_pixels ?l) True text_blank (framebuffer_console_init fb)"
    using assms by (simp add: framebuffer_console_init_def)
  then show ?thesis by (simp add: shows_text_def)
qed

section \<open>Nothing is drawn outside the screen's memory\<close>

lemma draw_cursor_off_screen: "640 * 480 \<le> i \<Longrightarrow> fb_pixels (framebuffer_console_draw_cursor color fb) i = fb_pixels fb i"
  by (simp add: framebuffer_console_draw_cursor_def draw_def Let_def keeps_off_screen [OF off_screen_keeps(1)])

lemma clamp_cursor_pixels [simp]: "fb_pixels (framebuffer_console_clamp_cursor fb) = fb_pixels fb"
  by (simp add: framebuffer_console_clamp_cursor_def Let_def)

lemma cursor_off_screen:
  assumes "640 * 480 \<le> i"
  shows "fb_pixels (framebuffer_console_hide_cursor fb) i = fb_pixels fb i"
    "fb_pixels (framebuffer_console_show_cursor fb) i = fb_pixels fb i"
  using draw_cursor_off_screen [OF assms]
  by (simp_all add: framebuffer_console_hide_cursor_def framebuffer_console_show_cursor_def)

lemma newline_off_screen:
  assumes "640 * 480 \<le> i"
  shows "fb_pixels (framebuffer_console_newline fb) i = fb_pixels fb i"
proof -
  have "480 \<le> i div 640" using div_le_mono [OF assms, of 640] by simp
  then have "\<not> in_text (i mod 640) (i div 640)" by (simp add: in_text_def)
  then have "fb_pixels (framebuffer_console_scroll fb) i = fb_pixels fb i" for fb
    using pix_scroll [of "i mod 640" fb "i div 640"] by (simp add: pix_def)
  then show ?thesis by (simp add: framebuffer_console_newline_def Let_def)
qed

lemma put_glyph_off_screen:
  assumes "640 * 480 \<le> i"
  shows "fb_pixels (console_put_glyph c fb) i = fb_pixels fb i"
  using assms by (simp add: console_put_glyph_def framebuffer_console_advance_def Let_def cursor_off_screen newline_off_screen)
    (simp add: draw_def keeps_off_screen [OF off_screen_keeps(2)] newline_off_screen)

text \<open>
  C25: No drawing operation ever writes outside the 640 * 480 pixels of the display, whatever its
  arguments and whatever the column and row of the console are: the clipping of
  \<open>framebuffer_fill_rect\<close> is enough also where the sum of a position and a size wraps around.
\<close>
theorem drawing_stays_on_screen:
  assumes "640 * 480 \<le> i"
  shows "framebuffer_put_pixel x y color px i = px i \<and> framebuffer_fill_rect x y w h color px i = px i \<and>
    framebuffer_draw_char x y c fg bg scale px i = px i \<and> framebuffer_write_at x y str fg bg scale px i = px i \<and>
    fb_pixels (framebuffer_console_putc c fb) i = fb_pixels fb i"
proof (intro conjI)
  show "framebuffer_put_pixel x y color px i = px i"
  proof (cases "x \<ge> 640 \<or> y \<ge> 480")
    case False
    then have b: "unat y < 480" "unat x < 640" by (simp_all add: word_le_nat_alt)
    then have "unat (y * 640 + x) = unat y * 640 + unat x" using unat_pixel_index [of "unat y" "unat x"] by simp
    then show ?thesis using False assms b by (simp add: framebuffer_put_pixel_def)
  qed (auto simp: framebuffer_put_pixel_def)
  show "framebuffer_fill_rect x y w h color px i = px i" by (rule keeps_off_screen [OF off_screen_keeps(1) assms])
  show "framebuffer_draw_char x y c fg bg scale px i = px i" by (rule keeps_off_screen [OF off_screen_keeps(2) assms])
  show "framebuffer_write_at x y str fg bg scale px i = px i"
    by (simp add: framebuffer_write_at_def keeps_off_screen [OF off_screen_keeps(3) assms])
  have tab: "fb_pixels (((\<lambda>fb. console_put_glyph 0x20 (framebuffer_console_hide_cursor fb)) ^^ n) fb) i = fb_pixels fb i" for n fb
    by (induction n) (simp_all add: put_glyph_off_screen [OF assms] cursor_off_screen [OF assms])
  show "fb_pixels (framebuffer_console_putc c fb) i = fb_pixels fb i"
    by (simp add: framebuffer_console_putc_def framebuffer_console_backspace_def Let_def tab
        put_glyph_off_screen [OF assms] cursor_off_screen [OF assms] newline_off_screen [OF assms] del: funpow.simps)
qed

text \<open>
  C11: The kernel's console implements a 25 by 50 grid of characters with a cursor, and the serial line.
  After \<open>framebuffer_console_init\<close> on a display that is ready, \<open>console_write\<close> of any text returns when
  the serial port drains; the port has sent the text, and every pixel of the text area is as the grid
  says that has taken the same characters one by one - carriage return, new line with scrolling,
  backspace, tab, wrapping at the end of a row, the glyph of each cell and the cursor drawn on one cell
  only, without a trace on the cells it has left. Every pixel outside the text area, such as those of
  header and status line, is as it was.
\<close>
theorem console_refines_text_screen:
  assumes "framebuffer_ready fb" "uart_lawful uhw sent"
  shows "\<exists>fb' u'. console_write uhw str (framebuffer_console_init fb) u = Some (fb', u') \<and> sent u' = sent u @ str \<and>
    shows_text (fb_pixels (framebuffer_console_init fb)) True (fold text_putc str text_blank) fb'"
proof -
  have both: "\<exists>u'. console_write uhw str fb u = Some (framebuffer_console_write str fb, u') \<and> sent u' = sent u @ str" for fb
  proof (induction str arbitrary: fb u)
    case (Cons c str)
    obtain u1 where u1: "uart_putc uhw c u = Some u1" "sent u1 = sent u @ [c]" using uart_putc_sends [OF assms(2)] by blast
    with Cons.IH [of "framebuffer_console_putc c fb" u1] show ?case
      by (auto simp: console_putc_def framebuffer_console_write_def)
  qed (simp add: framebuffer_console_write_def)
  show ?thesis using both write_shows [OF console_init_shows [OF assms(1)]] by blast
qed

definition dark_display :: framebuffer where
  "dark_display = \<lparr>fb_pixels = \<lambda>_. 0, framebuffer_ready = True, framebuffer_status_code = 0, console_column = 0, console_row = 0, console_cursor_visible = False\<rparr>"

definition fast_uart :: "cstring uart_hw" where
  "fast_uart = \<lparr>uart_fr = \<lambda>_. 0x10, uart_dr_write = \<lambda>x u. u @ [ucast x], uart_dr_read = \<lambda>u. (0, u), uart_wait = \<lambda>u. u\<rparr>"

theorem console_refines_text_screen_witness:
  "\<exists>fb'. console_write fast_uart [0x48, 0x69] (framebuffer_console_init dark_display) [] = Some (fb', [0x48, 0x69]) \<and>
   pix (fb_pixels fb') 16 38 = CONSOLE_FG \<and> unat (console_column fb') = 2"
proof -
  have "framebuffer_ready dark_display" by (simp add: dark_display_def)
  moreover have "uart_lawful fast_uart (\<lambda>u. u)" by (simp add: uart_lawful_def fast_uart_def ucast_up_ucast_id is_up)
  ultimately show ?thesis
    using console_refines_text_screen [of dark_display fast_uart "\<lambda>u. u" "[0x48, 0x69]" "[]"]
    by (auto simp: shows_text_def text_putc_def text_glyph_def text_blank_def screen_pixel_def in_text_def glyph_pixel_def
        framebuffer_glyph_def glyph_table_def)
qed

theorem drawing_stays_on_screen_witness:
  "framebuffer_fill_rect 639 479 0xffffffff 100 7 (\<lambda>_. 0) 307200 = 0"
  using drawing_stays_on_screen [of 307200 639 479 7 "\<lambda>_. 0" "0xffffffff" 100] by simp

section \<open>The status of the display\<close>

text \<open>
  \<open>framebuffer_init\<close> reports success exactly when the display is ready, with status 0. Whenever the
  display's file is not found the status is 1, also when the directory could not be read and
  \<open>fw_cfg_find_file\<close> had set 4 or 5, so that these two are never the result.
\<close>

lemma dma_status:
  "fw_cfg_dma_transfer hw sel buf sz opn fb f = (r, fb', f') \<Longrightarrow> \<not> r \<Longrightarrow> framebuffer_status_code fb' \<in> {2, 3}"
  by (auto simp: fw_cfg_dma_transfer_def Let_def split: prod.splits bool.splits if_splits)

theorem framebuffer_init_status:
  "case framebuffer_init hw fb f of (r, fb', f') \<Rightarrow>
     framebuffer_ready fb' = r \<and> (framebuffer_status_code fb' = 0 \<longleftrightarrow> r) \<and> framebuffer_status_code fb' \<in> {0, 1, 2, 3} \<and>
     (framebuffer_status_code fb' = 1 \<longleftrightarrow> fst (fw_cfg_find_file hw (bytes_of ''etc/ramfb'') fb f) = 0)"
  by (auto simp: framebuffer_init_def fw_cfg_dma_write_def Let_def split: prod.splits bool.splits if_splits dest!: dma_status)

theorem directory_failure_is_lost:
  assumes "fst (fw_cfg_dma_read hw 0x0019 (fw_directory hw) 4 fb f) = False"
  shows "framebuffer_status_code (fst (snd (fw_cfg_find_file hw (bytes_of ''etc/ramfb'') fb f))) = 4 \<and>
    framebuffer_status_code (fst (snd (framebuffer_init hw fb f))) = 1"
  using assms by (auto simp: framebuffer_init_def fw_cfg_find_file_def split: prod.splits bool.splits)

end
