(* ===== verification/ShellLine.thy ===== *)
theory ShellLine
  imports Kprintf
begin

text \<open>
  The line editor of the shell, kernel/shell/shell.c: the command line with its cursor, the history,
  completion, escape sequences and what the editor prints. \<open>shell_out\<close> collects what has been printed.
  Lengths and indices are natural numbers: they are at most 64, and the invariant \<open>line_ok\<close> below shows
  that no subtraction goes below zero.
\<close>

section \<open>Tables\<close>

abbreviation (input) SHELL_BUFFER_SIZE :: nat where "SHELL_BUFFER_SIZE \<equiv> 64"
abbreviation (input) SHELL_HISTORY_SIZE :: nat where "SHELL_HISTORY_SIZE \<equiv> 8"

record shell_command =
  sc_name :: cstring
  sc_usage :: cstring
  sc_description :: cstring
  sc_example :: "cstring option"

record shell_alias =
  al_name :: cstring
  al_target :: cstring
  al_description :: cstring

definition shell_commands :: "shell_command list" where
  "shell_commands =
    [shell_command.make (bytes_of ''help'') (bytes_of ''help [command]'') (bytes_of ''show commands or detailed command help'') (Some (bytes_of ''help vmwalk'')),
     shell_command.make (bytes_of ''version'') (bytes_of ''version'') (bytes_of ''show kernel version'') None,
     shell_command.make (bytes_of ''task'') (bytes_of ''task [pid]'') (bytes_of ''show scheduler task summary or task details'') (Some (bytes_of ''task 2'')),
     shell_command.make (bytes_of ''tasks'') (bytes_of ''tasks'') (bytes_of ''show scheduler tasks'') None,
     shell_command.make (bytes_of ''mem'') (bytes_of ''mem'') (bytes_of ''show physical memory stats'') None,
     shell_command.make (bytes_of ''heap'') (bytes_of ''heap'') (bytes_of ''show kernel heap stats'') None,
     shell_command.make (bytes_of ''heaptest'') (bytes_of ''heaptest'') (bytes_of ''run heap allocation test'') None,
     shell_command.make (bytes_of ''vm'') (bytes_of ''vm'') (bytes_of ''show virtual memory plan'') None,
     shell_command.make (bytes_of ''vmwalk'') (bytes_of ''vmwalk [address]'') (bytes_of ''walk sample or given virtual address'') (Some (bytes_of ''vmwalk 0x40080000'')),
     shell_command.make (bytes_of ''ticks'') (bytes_of ''ticks'') (bytes_of ''show scheduler/timer ticks'') None,
     shell_command.make (bytes_of ''yield'') (bytes_of ''yield'') (bytes_of ''voluntarily yield the current scheduler task'') None,
     shell_command.make (bytes_of ''sleep'') (bytes_of ''sleep <ms>'') (bytes_of ''sleep the current shell task for milliseconds'') (Some (bytes_of ''sleep 100'')),
     shell_command.make (bytes_of ''block'') (bytes_of ''block <pid>'') (bytes_of ''block a safe kernel scheduler task'') (Some (bytes_of ''block 3'')),
     shell_command.make (bytes_of ''unblock'') (bytes_of ''unblock <pid>'') (bytes_of ''unblock a blocked kernel scheduler task'') (Some (bytes_of ''unblock 3'')),
     shell_command.make (bytes_of ''reap'') (bytes_of ''reap [pid]'') (bytes_of ''reap zombie task slots'') (Some (bytes_of ''reap 2'')),
     shell_command.make (bytes_of ''syscall'') (bytes_of ''syscall [number]'') (bytes_of ''show or test syscall dispatcher'') (Some (bytes_of ''syscall 3'')),
     shell_command.make (bytes_of ''ls'') (bytes_of ''ls'') (bytes_of ''list files in the RAM filesystem'') None,
     shell_command.make (bytes_of ''cat'') (bytes_of ''cat <path>'') (bytes_of ''print a RAM filesystem file'') (Some (bytes_of ''cat /share/user-demo.txt'')),
     shell_command.make (bytes_of ''run'') (bytes_of ''run [path] [argument]'') (bytes_of ''launch a Saturn executable with optional argument text'') (Some (bytes_of ''run /bin/user-args.sx hello'')),
     shell_command.make (bytes_of ''mkdir'') (bytes_of ''mkdir <path>'') (bytes_of ''create a RAM filesystem directory'') (Some (bytes_of ''mkdir /tmp'')),
     shell_command.make (bytes_of ''write'') (bytes_of ''write <path> <text>'') (bytes_of ''create or replace a RAMFS text file'') (Some (bytes_of ''write /tmp/note hello'')),
     shell_command.make (bytes_of ''disk'') (bytes_of ''disk [test]'') (bytes_of ''show or test the block device'') (Some (bytes_of ''disk test'')),
     shell_command.make (bytes_of ''pfs'') (bytes_of ''pfs [format]'') (bytes_of ''show or format the persistent filesystem'') None,
     shell_command.make (bytes_of ''pwrite'') (bytes_of ''pwrite <path> <text>'') (bytes_of ''write a persistent file'') (Some (bytes_of ''pwrite /note hello'')),
     shell_command.make (bytes_of ''pcat'') (bytes_of ''pcat <path>'') (bytes_of ''print a persistent file'') (Some (bytes_of ''pcat /note'')),
     shell_command.make (bytes_of ''fb'') (bytes_of ''fb'') (bytes_of ''show framebuffer runtime status'') None,
     shell_command.make (bytes_of ''user'') (bytes_of ''user'') (bytes_of ''show user/EL0 exception stats'') None,
     shell_command.make (bytes_of ''clear'') (bytes_of ''clear'') (bytes_of ''clear framebuffer console'') None,
     shell_command.make (bytes_of ''panic'') (bytes_of ''panic'') (bytes_of ''trigger test exception'') None,
     shell_command.make (bytes_of ''fault'') (bytes_of ''fault'') (bytes_of ''trigger test page fault'') None]"

definition shell_aliases :: "shell_alias list" where
  "shell_aliases =
    [shell_alias.make (bytes_of ''h'') (bytes_of ''help'') (bytes_of ''show commands''),
     shell_alias.make (bytes_of ''?'') (bytes_of ''help'') (bytes_of ''show commands''),
     shell_alias.make (bytes_of ''tl'') (bytes_of ''task'') (bytes_of ''show scheduler task summary''),
     shell_alias.make (bytes_of ''ps'') (bytes_of ''tasks'') (bytes_of ''show scheduler tasks''),
     shell_alias.make (bytes_of ''free'') (bytes_of ''mem'') (bytes_of ''show physical memory stats''),
     shell_alias.make (bytes_of ''top'') (bytes_of ''tasks'') (bytes_of ''show scheduler tasks''),
     shell_alias.make (bytes_of ''uptime'') (bytes_of ''ticks'') (bytes_of ''show scheduler/timer ticks''),
     shell_alias.make (bytes_of ''y'') (bytes_of ''yield'') (bytes_of ''voluntarily yield the current scheduler task''),
     shell_alias.make (bytes_of ''nap'') (bytes_of ''sleep'') (bytes_of ''sleep the current shell task''),
     shell_alias.make (bytes_of ''blk'') (bytes_of ''block'') (bytes_of ''block a safe kernel scheduler task''),
     shell_alias.make (bytes_of ''unblk'') (bytes_of ''unblock'') (bytes_of ''unblock a blocked kernel scheduler task''),
     shell_alias.make (bytes_of ''rz'') (bytes_of ''reap'') (bytes_of ''reap zombie task slots''),
     shell_alias.make (bytes_of ''sc'') (bytes_of ''syscall'') (bytes_of ''show or test syscall dispatcher''),
     shell_alias.make (bytes_of ''video'') (bytes_of ''fb'') (bytes_of ''show framebuffer runtime status''),
     shell_alias.make (bytes_of ''ustats'') (bytes_of ''user'') (bytes_of ''show user/EL0 exception stats''),
     shell_alias.make (bytes_of ''cls'') (bytes_of ''clear'') (bytes_of ''clear framebuffer console'')]"

definition SHELL_PROMPT :: cstring where
  "SHELL_PROMPT = bytes_of ''saturn> ''"

section \<open>State\<close>

record shell_line =
  command_buffer :: "u8 list"
  history_buffer :: "u8 list list"
  command_length :: nat
  command_cursor :: nat
  rendered_length :: nat
  escape_state :: nat
  history_count :: nat
  history_next :: nat
  history_view :: nat
  shell_out :: cstring

definition emit :: "cstring \<Rightarrow> shell_line \<Rightarrow> shell_line" where
  "emit s l = l\<lparr>shell_out := shell_out l @ s\<rparr>"

section \<open>Text\<close>

definition skip_spaces :: "cstring \<Rightarrow> cstring" where
  "skip_spaces s = dropWhile (\<lambda>c. c = 0x20) s"

fun command_equals :: "cstring \<Rightarrow> cstring \<Rightarrow> bool" where
  "command_equals command [] \<longleftrightarrow> (case command of [] \<Rightarrow> True | c # _ \<Rightarrow> c = 0x20)"
| "command_equals command (n # name) \<longleftrightarrow>
     (case command of [] \<Rightarrow> False | c # rest \<Rightarrow> c = n \<and> command_equals rest name)"

fun alias_target_from :: "shell_alias list \<Rightarrow> cstring \<Rightarrow> cstring" where
  "alias_target_from [] command = command"
| "alias_target_from (a # as) command =
     (if command_equals command (al_name a) then al_target a else alias_target_from as command)"

definition command_alias_target :: "cstring \<Rightarrow> cstring" where
  "command_alias_target command = alias_target_from shell_aliases command"

text \<open>Bytes of a string constant, with the null byte behind it.\<close>

definition str_at :: "cstring \<Rightarrow> nat \<Rightarrow> u8" where
  "str_at s i = (if i < length s then s ! i else 0)"

text \<open>The loop stops at the first byte that differs, so no byte behind the null byte is compared.\<close>

fun prefix_matches_from :: "cstring \<Rightarrow> u8 list \<Rightarrow> nat \<Rightarrow> nat \<Rightarrow> bool" where
  "prefix_matches_from command prefix i 0 = True"
| "prefix_matches_from command prefix i (Suc n) =
     (if str_at command i \<noteq> prefix ! i then False else prefix_matches_from command prefix (Suc i) n)"

definition command_prefix_matches :: "cstring \<Rightarrow> u8 list \<Rightarrow> nat \<Rightarrow> bool" where
  "command_prefix_matches command prefix prefix_length = prefix_matches_from command prefix 0 prefix_length"

definition command_arg :: "cstring \<Rightarrow> cstring" where
  "command_arg command = skip_spaces (dropWhile (\<lambda>c. c \<noteq> 0x20) command)"

definition find_shell_command :: "cstring \<Rightarrow> shell_command option" where
  "find_shell_command name = List.find (\<lambda>c. cstr_equals name (sc_name c)) shell_commands"

definition find_shell_command_token :: "cstring \<Rightarrow> shell_command option" where
  "find_shell_command_token str = List.find (\<lambda>c. command_equals str (sc_name c)) shell_commands"

definition find_shell_alias :: "cstring \<Rightarrow> shell_alias option" where
  "find_shell_alias name = List.find (\<lambda>a. cstr_equals name (al_name a)) shell_aliases"

definition hex_digit_value :: "u8 \<Rightarrow> u64 option" where
  "hex_digit_value c =
     (if c \<ge> 0x30 \<and> c \<le> 0x39 then Some (ucast (c - 0x30))
      else if c \<ge> 0x61 \<and> c \<le> 0x66 then Some (ucast (c - 0x61 + 10))
      else if c \<ge> 0x41 \<and> c \<le> 0x46 then Some (ucast (c - 0x41 + 10))
      else None)"

fun parse_digits :: "u64 \<Rightarrow> u64 \<Rightarrow> bool \<Rightarrow> cstring \<Rightarrow> u64 option" where
  "parse_digits base result found [] = (if found then Some result else None)"
| "parse_digits base result found (c # cs) =
     (if base = 16
      then (case hex_digit_value c of None \<Rightarrow> None | Some digit \<Rightarrow> parse_digits base (result * base + digit) True cs)
      else if c < 0x30 \<or> c > 0x39 then None
      else parse_digits base (result * base + ucast (c - 0x30)) True cs)"

definition parse_number :: "cstring \<Rightarrow> u64 option" where
  "parse_number str =
     (let str = skip_spaces str
      in if str_at str 0 = 0x30 \<and> (str_at str 1 = 0x78 \<or> str_at str 1 = 0x58)
         then parse_digits 16 0 False (drop 2 str) else parse_digits 10 0 False str)"

section \<open>Printing the line\<close>

definition shell_prompt :: "shell_line \<Rightarrow> shell_line" where
  "shell_prompt l = (emit SHELL_PROMPT l)\<lparr>rendered_length := 0\<rparr>"

definition copy_string :: "u8 list \<Rightarrow> cstring \<Rightarrow> u8 list" where
  "copy_string destination source = set_cstr destination (take (SHELL_BUFFER_SIZE - 1) source)"

definition command_line_is_completion_target :: "shell_line \<Rightarrow> bool" where
  "command_line_is_completion_target l \<longleftrightarrow>
     0x20 \<notin> set (take (command_length l) (command_buffer l)) \<and> command_cursor l = command_length l"

definition shell_redraw_current_line :: "shell_line \<Rightarrow> shell_line" where
  "shell_redraw_current_line l =
     (let l = shell_prompt l; l = emit (take (command_length l) (command_buffer l)) l
      in l\<lparr>command_cursor := command_length l, rendered_length := command_length l\<rparr>)"

definition history_index :: "shell_line \<Rightarrow> nat \<Rightarrow> nat" where
  "history_index l logical_index =
     (if history_count l < SHELL_HISTORY_SIZE then logical_index else (history_next l + logical_index) mod SHELL_HISTORY_SIZE)"

definition history_entry :: "shell_line \<Rightarrow> nat \<Rightarrow> cstring" where
  "history_entry l logical_index = cstr (history_buffer l ! history_index l logical_index)"

definition history_add :: "cstring \<Rightarrow> shell_line \<Rightarrow> shell_line" where
  "history_add command l =
     (if command = [] then l
      else if history_count l > 0 \<and> cstr_equals command (history_entry l (history_count l - 1))
      then l\<lparr>history_view := history_count l\<rparr>
      else
        let l = l\<lparr>history_buffer := (history_buffer l)[history_next l := copy_string (history_buffer l ! history_next l) command],
                  history_next := (history_next l + 1) mod SHELL_HISTORY_SIZE\<rparr>;
            l = (if history_count l < SHELL_HISTORY_SIZE then l\<lparr>history_count := history_count l + 1\<rparr> else l)
        in l\<lparr>history_view := history_count l\<rparr>)"

definition shell_move_left :: "nat \<Rightarrow> shell_line \<Rightarrow> shell_line" where
  "shell_move_left count l = emit (replicate count 0x08) l"

fun shell_move_right :: "nat \<Rightarrow> shell_line \<Rightarrow> shell_line" where
  "shell_move_right 0 l = l"
| "shell_move_right (Suc count) l =
     (if command_cursor l < command_length l
      then shell_move_right count ((emit [command_buffer l ! command_cursor l] l)\<lparr>command_cursor := command_cursor l + 1\<rparr>)
      else l)"

definition shell_redraw_from_cursor :: "nat \<Rightarrow> shell_line \<Rightarrow> shell_line" where
  "shell_redraw_from_cursor old_length l =
     (let rest = map (\<lambda>i. command_buffer l ! i) [command_cursor l..<command_length l];
          erase_count = (if old_length > command_length l then old_length - command_length l else 0);
          l = emit (rest @ replicate erase_count 0x20) l;
          l = shell_move_left (length rest + erase_count) l
      in l\<lparr>rendered_length := command_length l\<rparr>)"

definition shell_home :: "shell_line \<Rightarrow> shell_line" where
  "shell_home l = (shell_move_left (command_cursor l) l)\<lparr>command_cursor := 0\<rparr>"

definition shell_end :: "shell_line \<Rightarrow> shell_line" where
  "shell_end l = shell_move_right (command_length l - command_cursor l) l"

definition shell_replace_line :: "cstring \<Rightarrow> shell_line \<Rightarrow> shell_line" where
  "shell_replace_line str l =
     (let old_length = command_length l;
          l = shell_home l;
          l = l\<lparr>command_buffer := copy_string (command_buffer l) str\<rparr>;
          l = l\<lparr>command_length := length (cstr (command_buffer l)), command_cursor := 0\<rparr>
      in shell_end (shell_redraw_from_cursor old_length l))"

section \<open>Editing\<close>

definition shift_right :: "nat \<Rightarrow> nat \<Rightarrow> u8 list \<Rightarrow> u8 list" where
  "shift_right cursor len buf = fold (\<lambda>i buf. buf[i := buf ! (i - 1)]) (rev [Suc cursor..<Suc len]) buf"

definition shift_left :: "nat \<Rightarrow> nat \<Rightarrow> u8 list \<Rightarrow> u8 list" where
  "shift_left cursor len buf = fold (\<lambda>i buf. buf[i := buf ! (i + 1)]) [cursor..<len - 1] buf"

definition shell_insert_char :: "u8 \<Rightarrow> shell_line \<Rightarrow> shell_line" where
  "shell_insert_char c l =
     (if command_length l \<ge> SHELL_BUFFER_SIZE - 1
      then
        let l = emit ([0x0a] @ bytes_of ''Command too long'' @ [0x0a]) l;
            l = l\<lparr>command_length := 0, command_buffer := (command_buffer l)[0 := 0], command_cursor := 0, rendered_length := 0\<rparr>
        in shell_prompt l
      else
        let l = l\<lparr>command_buffer := (shift_right (command_cursor l) (command_length l) (command_buffer l))[command_cursor l := c]\<rparr>;
            l = l\<lparr>command_length := command_length l + 1\<rparr>;
            l = l\<lparr>command_buffer := (command_buffer l)[command_length l := 0]\<rparr>;
            l = emit [c] l;
            l = l\<lparr>command_cursor := command_cursor l + 1\<rparr>;
            l = (if command_cursor l < command_length l
                 then shell_move_left (command_length l - command_cursor l)
                        (emit (map (\<lambda>i. command_buffer l ! i) [command_cursor l..<command_length l]) l)
                 else l)
        in l\<lparr>rendered_length := command_length l\<rparr>)"

definition shell_insert_text :: "cstring \<Rightarrow> shell_line \<Rightarrow> shell_line" where
  "shell_insert_text str l = fold shell_insert_char str l"

definition remove_at_cursor :: "nat \<Rightarrow> shell_line \<Rightarrow> shell_line" where
  "remove_at_cursor old_length l =
     (let l = l\<lparr>command_buffer := shift_left (command_cursor l) (command_length l) (command_buffer l)\<rparr>;
          l = l\<lparr>command_length := command_length l - 1\<rparr>;
          l = l\<lparr>command_buffer := (command_buffer l)[command_length l := 0]\<rparr>
      in shell_redraw_from_cursor old_length l)"

definition shell_backspace :: "shell_line \<Rightarrow> shell_line" where
  "shell_backspace l =
     (let old_length = command_length l
      in if command_cursor l = 0 then l
         else remove_at_cursor old_length (emit [0x08] (l\<lparr>command_cursor := command_cursor l - 1\<rparr>)))"

definition shell_delete :: "shell_line \<Rightarrow> shell_line" where
  "shell_delete l =
     (let old_length = command_length l
      in if command_cursor l \<ge> command_length l then l else remove_at_cursor old_length l)"

definition shell_history_previous :: "shell_line \<Rightarrow> shell_line" where
  "shell_history_previous l =
     (if history_count l = 0 then l
      else if history_view l = 0 then l
      else let l = l\<lparr>history_view := history_view l - 1\<rparr> in shell_replace_line (history_entry l (history_view l)) l)"

definition shell_history_next :: "shell_line \<Rightarrow> shell_line" where
  "shell_history_next l =
     (if history_count l = 0 \<or> history_view l \<ge> history_count l then l
      else
        let l = l\<lparr>history_view := history_view l + 1\<rparr>
        in if history_view l = history_count l then shell_replace_line [] l
           else shell_replace_line (history_entry l (history_view l)) l)"

text \<open>The names that complete the line: commands first, then aliases, as the two loops visit them.\<close>

definition completions :: "shell_line \<Rightarrow> cstring list" where
  "completions l =
     filter (\<lambda>name. command_prefix_matches name (command_buffer l) (command_length l))
       (map sc_name shell_commands @ map al_name shell_aliases)"

definition shell_autocomplete :: "shell_line \<Rightarrow> shell_line" where
  "shell_autocomplete l =
     (if \<not> command_line_is_completion_target l then l
      else
        let matches = completions l
        in if length matches \<noteq> 1
           then if length matches > 1
                then shell_redraw_current_line
                       (emit ([0x0a] @ bytes_of ''Matches:'' @ concat (map (\<lambda>name. 0x20 # name) matches) @ [0x0a]) l)
                else l
           else shell_insert_text (drop (command_length l) (last matches)) l)"

definition shell_left :: "shell_line \<Rightarrow> shell_line" where
  "shell_left l = (if command_cursor l > 0 then emit [0x08] (l\<lparr>command_cursor := command_cursor l - 1\<rparr>) else l)"

definition shell_handle_escape_char :: "u8 \<Rightarrow> shell_line \<Rightarrow> bool \<times> shell_line" where
  "shell_handle_escape_char c l =
     (if escape_state l = 0 then (False, l)
      else if escape_state l = 1 then (True, l\<lparr>escape_state := (if c = 0x5b then 2 else 0)\<rparr>)
      else if escape_state l = 2
      then
        let l = l\<lparr>escape_state := 0\<rparr>
        in (True,
            if c = 0x44 then shell_left l
            else if c = 0x41 then shell_history_previous l
            else if c = 0x42 then shell_history_next l
            else if c = 0x43 then shell_move_right 1 l
            else if c = 0x48 then shell_home l
            else if c = 0x46 then shell_end l
            else if c = 0x33 then l\<lparr>escape_state := 3\<rparr>
            else l)
      else
        let l = l\<lparr>escape_state := 0\<rparr>
        in (True, if c = 0x7e then shell_delete l else l))"

definition shell_init :: "shell_line \<Rightarrow> shell_line" where
  "shell_init l =
     (let l = l\<lparr>command_length := 0, command_buffer := (command_buffer l)[0 := 0], command_cursor := 0, rendered_length := 0,
                escape_state := 0, history_view := history_count l\<rparr>
      in shell_prompt (emit (bytes_of ''SaturnOS shell ready'' @ [0x0a]) l))"

text \<open>
  Enter: \<open>exec\<close> stands for \<open>shell_execute\<close>, which gives the text it prints and the new state of the system;
  it returns nothing when it never comes back, as after a panic.
\<close>

definition shell_enter :: "(cstring \<Rightarrow> 's \<Rightarrow> (cstring \<times> 's) option) \<Rightarrow> shell_line \<times> 's \<Rightarrow> (shell_line \<times> 's) option" where
  "shell_enter exec ls =
     (case ls of (l, s) \<Rightarrow>
        let l = l\<lparr>command_buffer := (command_buffer l)[command_length l := 0]\<rparr>;
            l = emit [0x0a] l;
            l = history_add (cstr (command_buffer l)) l
        in case exec (cstr (command_buffer l)) s of
             None \<Rightarrow> None
           | Some (printed, s) \<Rightarrow>
               let l = emit printed l;
                   l = l\<lparr>command_length := 0, command_buffer := (command_buffer l)[0 := 0], command_cursor := 0,
                         rendered_length := 0, escape_state := 0, history_view := history_count l\<rparr>
               in Some (shell_prompt l, s))"

definition shell_handle_char ::
    "(cstring \<Rightarrow> 's \<Rightarrow> (cstring \<times> 's) option) \<Rightarrow> u8 \<Rightarrow> shell_line \<times> 's \<Rightarrow> (shell_line \<times> 's) option" where
  "shell_handle_char exec c ls =
     (case ls of (l, s) \<Rightarrow>
        let c = (if c = 0x0d then 0x0a else c)
        in case shell_handle_escape_char c l of
             (True, l) \<Rightarrow> Some (l, s)
           | (False, l) \<Rightarrow>
               if c = 0x1b then Some (l\<lparr>escape_state := 1\<rparr>, s)
               else if c = 0x01 then Some (shell_home l, s)
               else if c = 0x02 then Some (shell_left l, s)
               else if c = 0x03 then Some (shell_history_previous l, s)
               else if c = 0x04 then Some (shell_delete l, s)
               else if c = 0x05 then Some (shell_end l, s)
               else if c = 0x0e then Some (shell_history_next l, s)
               else if c = 0x06 then Some (shell_move_right 1 l, s)
               else if c = 0x0a then shell_enter exec (l, s)
               else if c = 0x09 then Some (shell_autocomplete l, s)
               else if c = 0x08 \<or> c = 0x7f then Some (shell_backspace l, s)
               else if c < 32 \<or> c > 126 then Some (l, s)
               else Some (shell_insert_char c (l\<lparr>history_view := history_count l\<rparr>), s))"

fun shell_handle_chars ::
    "(cstring \<Rightarrow> 's \<Rightarrow> (cstring \<times> 's) option) \<Rightarrow> cstring \<Rightarrow> shell_line \<times> 's \<Rightarrow> (shell_line \<times> 's) option" where
  "shell_handle_chars exec [] ls = Some ls"
| "shell_handle_chars exec (c # cs) ls =
     (case shell_handle_char exec c ls of None \<Rightarrow> None | Some ls \<Rightarrow> shell_handle_chars exec cs ls)"

end
