(* ===== verification/ShellLineProps.thy ===== *)
theory ShellLineProps
  imports ShellLine
begin

text \<open>
  The line editor against its specification: a line as two lists of characters before and behind the
  cursor, a history as a list, and a terminal row that shows the line.
\<close>

section \<open>A terminal\<close>

text \<open>The row of a terminal the cursor is in, and the column of the cursor.\<close>

fun term_put :: "u8 \<Rightarrow> cstring \<times> nat \<Rightarrow> cstring \<times> nat" where
  "term_put c (row, pos) =
     (if c = 0x0a then ([], 0)
      else if c = 0x08 then (row, pos - 1)
      else (take pos row @ c # drop (Suc pos) row, Suc pos))"

abbreviation term_row :: "cstring \<Rightarrow> cstring \<times> nat" where
  "term_row out \<equiv> fold term_put out ([], 0)"

definition printable :: "cstring \<Rightarrow> bool" where
  "printable s \<longleftrightarrow> (\<forall>c\<in>set s. 32 \<le> c \<and> c \<le> 126)"

lemma printable_simps [simp]:
  "printable []" "printable (c # s) \<longleftrightarrow> 32 \<le> c \<and> c \<le> 126 \<and> printable s" "printable (s @ t) \<longleftrightarrow> printable s \<and> printable t"
  "printable (replicate n 0x20)"
  by (auto simp: printable_def)

lemma printable_sub: "printable s \<Longrightarrow> printable (take n s)" "printable s \<Longrightarrow> printable (drop n s)"
  by (auto simp: printable_def dest: in_set_takeD in_set_dropD)

lemma printable_char: "32 \<le> (c :: u8) \<Longrightarrow> c \<noteq> 0x0a \<and> c \<noteq> 0x08 \<and> c \<noteq> 0"
  by auto

lemma term_print:
  assumes "printable s"
  shows "fold term_put s (pre @ rest, length pre) = (pre @ s @ drop (length s) rest, length pre + length s)"
  using assms
proof (induction s arbitrary: pre rest)
  case (Cons c s)
  have "term_put c (pre @ rest, length pre) = ((pre @ [c]) @ drop 1 rest, length (pre @ [c]))"
    using Cons.prems printable_char [of c] by simp
  then show ?case using Cons.IH [of "pre @ [c]" "drop 1 rest"] Cons.prems by simp
qed simp

lemma term_back: "n \<le> pos \<Longrightarrow> fold term_put (replicate n 0x08) (row, pos) = (row, pos - n)"
  by (induction n arbitrary: pos) auto

text \<open>Printing and going back again.\<close>

lemma term_print_back:
  assumes "printable s" "pos = length pre" "n = length s"
  shows "fold term_put (s @ replicate n 0x08) (pre @ rest, pos) = (pre @ s @ drop n rest, pos)"
  using term_print [OF assms(1), of pre rest] term_back [of n "pos + length s"] assms by simp

section \<open>Shifting in the buffer\<close>

lemma shift_right_nth:
  assumes "cursor \<le> len" "len < length buf" "j < length buf"
  shows "shift_right cursor len buf ! j = (if cursor < j \<and> j \<le> len then buf ! (j - 1) else buf ! j)"
  using assms
proof (induction len arbitrary: buf)
  case (Suc len)
  show ?case
  proof (cases "cursor \<le> len")
    case True
    have "shift_right cursor (Suc len) buf = shift_right cursor len (buf[Suc len := buf ! len])"
      using True by (simp add: shift_right_def)
    then show ?thesis using True Suc by (auto simp: nth_list_update le_Suc_eq)
  next
    case False
    then have "shift_right cursor (Suc len) buf = buf" using Suc.prems by (simp add: shift_right_def)
    then show ?thesis using False Suc.prems by auto
  qed
qed (simp add: shift_right_def)

lemma length_shift_right [simp]: "length (shift_right cursor len buf) = length buf"
proof -
  have "length (fold (\<lambda>i buf. buf[i := buf ! (i - 1)]) is buf) = length buf" for "is"
    by (induction "is" arbitrary: buf) simp_all
  then show ?thesis by (simp add: shift_right_def)
qed

lemma length_shift_left [simp]: "length (shift_left cursor len buf) = length buf"
proof -
  have "length (fold (\<lambda>i buf. buf[i := buf ! (i + 1)]) is buf) = length buf" for "is"
    by (induction "is" arbitrary: buf) simp_all
  then show ?thesis by (simp add: shift_left_def)
qed

lemma shift_left_nth:
  assumes "len \<le> length buf" "j < length buf"
  shows "shift_left cursor len buf ! j = (if cursor \<le> j \<and> j < len - 1 then buf ! (j + 1) else buf ! j)"
proof -
  let ?g = "\<lambda>i buf. buf[i := buf ! (i + 1)]"
  have len: "length (fold ?g is buf) = length buf" for "is" by (induction "is" arbitrary: buf) simp_all
  have "\<forall>j<length buf. fold ?g [cursor..<m] buf ! j = (if cursor \<le> j \<and> j < m then buf ! (j + 1) else buf ! j)" if "m < length buf \<or> m = 0" for m
    using that
  proof (induction m)
    case (Suc m)
    then show ?case using len by (cases "cursor \<le> m") (auto simp: nth_list_update less_Suc_eq)
  qed simp
  from this [of "len - 1"] show ?thesis using assms unfolding shift_left_def by force
qed

lemma insert_buffer:
  assumes "cursor \<le> len" "Suc len < length buf"
  shows "take (Suc len) ((shift_right cursor len buf)[cursor := c, Suc len := 0]) = take cursor (take len buf) @ c # drop cursor (take len buf)"
proof (rule nth_equalityI)
  fix j
  assume "j < length (take (Suc len) ((shift_right cursor len buf)[cursor := c, Suc len := 0]))"
  then have j: "j < Suc len" using assms by simp
  then show "take (Suc len) ((shift_right cursor len buf)[cursor := c, Suc len := 0]) ! j =
      (take cursor (take len buf) @ c # drop cursor (take len buf)) ! j"
    using assms by (auto simp: shift_right_nth nth_append nth_Cons' nth_list_update min_def)
qed (use assms in simp)

lemma remove_buffer:
  assumes "cursor < len" "len \<le> length buf"
  shows "take (len - 1) ((shift_left cursor len buf)[len - 1 := 0]) = take cursor (take len buf) @ drop (Suc cursor) (take len buf)"
proof (rule nth_equalityI)
  fix j
  assume "j < length (take (len - 1) ((shift_left cursor len buf)[len - 1 := 0]))"
  then have j: "j < len - 1" using assms by simp
  then show "take (len - 1) ((shift_left cursor len buf)[len - 1 := 0]) ! j =
      (take cursor (take len buf) @ drop (Suc cursor) (take len buf)) ! j"
    using assms by (auto simp: shift_left_nth nth_append nth_list_update min_def)
qed (use assms in simp)

section \<open>The row that shows the line\<close>

declare fold_replicate [simp del]

definition row_shows :: "cstring \<Rightarrow> cstring \<Rightarrow> cstring \<Rightarrow> bool" where
  "row_shows out b a \<longleftrightarrow> (\<exists>k. term_row out = (SHELL_PROMPT @ b @ a @ replicate k 0x20, 8 + length b))"

lemma length_prompt: "length SHELL_PROMPT = 8" and printable_prompt: "printable SHELL_PROMPT"
  by (simp_all add: SHELL_PROMPT_def bytes_of_def)

lemma row_prompt: "term_row out = ([], 0) \<Longrightarrow> row_shows (out @ SHELL_PROMPT) [] []"
  using term_print [OF printable_prompt, of "[]" "[]"] by (auto simp: row_shows_def length_prompt intro: exI [of _ 0])

lemma row_home: "row_shows out b a \<Longrightarrow> row_shows (out @ replicate (length b) 0x08) [] (b @ a)"
  by (auto simp: row_shows_def term_back)

lemma row_left: "row_shows out (b @ [x]) a \<Longrightarrow> row_shows (out @ [0x08]) b (x # a)"
  by (auto simp: row_shows_def)

lemma row_write:
  assumes "row_shows out b a" "printable s"
  shows "\<exists>k. term_row (out @ s) = (SHELL_PROMPT @ b @ s @ drop (length s) a @ replicate k 0x20, 8 + length b + length s)"
proof -
  obtain k where "term_row out = ((SHELL_PROMPT @ b) @ a @ replicate k 0x20, length (SHELL_PROMPT @ b))"
    using assms(1) by (auto simp: row_shows_def length_prompt)
  then show ?thesis using term_print [OF assms(2), of "SHELL_PROMPT @ b" "a @ replicate k 0x20"] by (auto simp: length_prompt)
qed

lemma row_right: "row_shows out b (x # a) \<Longrightarrow> printable [x] \<Longrightarrow> row_shows (out @ [x]) (b @ [x]) a"
  using row_write [of out b "x # a" "[x]"] by (auto simp: row_shows_def)

lemma row_insert:
  assumes "row_shows out b a" "printable (c # a)"
  shows "row_shows (out @ c # a @ replicate (length a) 0x08) (b @ [c]) a"
proof -
  obtain k where "term_row (out @ c # a) = (SHELL_PROMPT @ b @ (c # a) @ drop (length (c # a)) a @ replicate k 0x20, 8 + length b + length (c # a))"
    using row_write [OF assms] by blast
  then show ?thesis using term_back [of "length a" "8 + length b + length (c # a)"] by (auto simp: row_shows_def)
qed

text \<open>Printing the rest of the line anew, with blanks over what was longer before.\<close>

lemma row_redraw:
  assumes "row_shows out b x" "printable a" "length x \<le> length a + n"
  shows "row_shows (out @ a @ replicate n 0x20 @ replicate (length a + n) 0x08) b a"
proof -
  obtain k where "term_row (out @ a @ replicate n 0x20) =
      (SHELL_PROMPT @ b @ (a @ replicate n 0x20) @ replicate k 0x20, 8 + length b + (length a + n))"
    using row_write [OF assms(1), of "a @ replicate n 0x20"] assms(2,3) by auto
  then have "term_row ((out @ a @ replicate n 0x20) @ replicate (length a + n) 0x08) =
      (SHELL_PROMPT @ b @ a @ replicate (n + k) 0x20, 8 + length b)"
    using term_back [of "length a + n" "8 + length b + (length a + n)"] by (simp add: replicate_add)
  then show ?thesis unfolding row_shows_def by auto
qed

section \<open>The editor\<close>

record editor =
  ed_before :: cstring
  ed_after :: cstring
  ed_history :: "cstring list"
  ed_view :: nat
  ed_escape :: nat

definition ed_line :: "editor \<Rightarrow> cstring" where
  "ed_line e = ed_before e @ ed_after e"

definition ed_insert :: "u8 \<Rightarrow> editor \<Rightarrow> editor" where
  "ed_insert c e =
     (if length (ed_line e) \<ge> 63 then e\<lparr>ed_before := [], ed_after := []\<rparr> else e\<lparr>ed_before := ed_before e @ [c]\<rparr>)"

definition ed_backspace :: "editor \<Rightarrow> editor" where
  "ed_backspace e = e\<lparr>ed_before := butlast (ed_before e)\<rparr>"

definition ed_delete :: "editor \<Rightarrow> editor" where
  "ed_delete e = e\<lparr>ed_after := tl (ed_after e)\<rparr>"

definition ed_left :: "editor \<Rightarrow> editor" where
  "ed_left e =
     (if ed_before e = [] then e else e\<lparr>ed_before := butlast (ed_before e), ed_after := last (ed_before e) # ed_after e\<rparr>)"

definition ed_right :: "editor \<Rightarrow> editor" where
  "ed_right e = (case ed_after e of [] \<Rightarrow> e | c # cs \<Rightarrow> e\<lparr>ed_before := ed_before e @ [c], ed_after := cs\<rparr>)"

definition ed_home :: "editor \<Rightarrow> editor" where
  "ed_home e = e\<lparr>ed_before := [], ed_after := ed_line e\<rparr>"

definition ed_end :: "editor \<Rightarrow> editor" where
  "ed_end e = e\<lparr>ed_before := ed_line e, ed_after := []\<rparr>"

definition ed_replace :: "cstring \<Rightarrow> editor \<Rightarrow> editor" where
  "ed_replace str e = e\<lparr>ed_before := str, ed_after := []\<rparr>"

definition ed_previous :: "editor \<Rightarrow> editor" where
  "ed_previous e =
     (if ed_view e = 0 then e else ed_replace (ed_history e ! (ed_view e - 1)) (e\<lparr>ed_view := ed_view e - 1\<rparr>))"

definition ed_next :: "editor \<Rightarrow> editor" where
  "ed_next e =
     (let v = Suc (ed_view e); h = ed_history e
      in if ed_view e \<ge> length h then e
         else if v = length h then ed_replace [] (e\<lparr>ed_view := v\<rparr>)
         else ed_replace (h ! v) (e\<lparr>ed_view := v\<rparr>))"

definition ed_complete :: "editor \<Rightarrow> editor" where
  "ed_complete e =
     (let names = filter (\<lambda>name. take (length (ed_before e)) name = ed_before e) (map sc_name shell_commands @ map al_name shell_aliases)
      in if 0x20 \<in> set (ed_line e) \<or> ed_after e \<noteq> [] \<or> length names \<noteq> 1 then e
         else fold ed_insert (drop (length (ed_before e)) (hd names)) e)"

text \<open>The history holds the last eight lines; a line that repeats the last one is not added.\<close>

definition remember :: "cstring \<Rightarrow> cstring list \<Rightarrow> cstring list" where
  "remember cmd h =
     (if cmd = [] \<or> h \<noteq> [] \<and> last h = cmd then h else drop (Suc (length h) - 8) (h @ [cmd]))"

definition ed_enter :: "editor \<Rightarrow> editor" where
  "ed_enter e =
     (let h = remember (ed_line e) (ed_history e)
      in \<lparr>ed_before = [], ed_after = [], ed_history = h, ed_view = length h, ed_escape = 0\<rparr>)"

definition ed_escaped :: "u8 \<Rightarrow> editor \<Rightarrow> editor" where
  "ed_escaped c e0 =
     (let e = e0\<lparr>ed_escape := 0\<rparr>
      in if ed_escape e0 = 1 then e\<lparr>ed_escape := (if c = 0x5b then 2 else 0)\<rparr>
         else if ed_escape e0 = 2
         then if c = 0x44 then ed_left e
              else if c = 0x41 then ed_previous e
              else if c = 0x42 then ed_next e
              else if c = 0x43 then ed_right e
              else if c = 0x48 then ed_home e
              else if c = 0x46 then ed_end e
              else if c = 0x33 then e\<lparr>ed_escape := 3\<rparr>
              else e
         else if c = 0x7e then ed_delete e else e)"

text \<open>A key: the line to run when it is Enter, and the editor afterwards.\<close>

definition ed_key :: "u8 \<Rightarrow> editor \<Rightarrow> cstring option \<times> editor" where
  "ed_key c e =
     (let c = (if c = 0x0d then 0x0a else c)
      in if ed_escape e \<noteq> 0 then (None, ed_escaped c e)
         else if c = 0x1b then (None, e\<lparr>ed_escape := 1\<rparr>)
         else if c = 0x01 then (None, ed_home e)
         else if c = 0x02 then (None, ed_left e)
         else if c = 0x03 then (None, ed_previous e)
         else if c = 0x04 then (None, ed_delete e)
         else if c = 0x05 then (None, ed_end e)
         else if c = 0x0e then (None, ed_next e)
         else if c = 0x06 then (None, ed_right e)
         else if c = 0x0a then (Some (ed_line e), ed_enter e)
         else if c = 0x09 then (None, ed_complete e)
         else if c = 0x08 \<or> c = 0x7f then (None, ed_backspace e)
         else if c < 32 \<or> c > 126 then (None, e)
         else (None, ed_insert c (e\<lparr>ed_view := length (ed_history e)\<rparr>)))"

section \<open>How the program's state stands for the editor\<close>

definition text_rel :: "u8 list \<Rightarrow> nat \<Rightarrow> nat \<Rightarrow> cstring \<Rightarrow> cstring \<Rightarrow> bool" where
  "text_rel buf len cursor b a \<longleftrightarrow>
     length buf = 64 \<and> take len buf = b @ a \<and> len = length b + length a \<and> cursor = length b \<and> len \<le> 63 \<and> printable (b @ a)"

definition hist_rel :: "shell_line \<Rightarrow> cstring list \<Rightarrow> bool" where
  "hist_rel l h \<longleftrightarrow>
     length (history_buffer l) = 8 \<and> (\<forall>x\<in>set (history_buffer l). length x = 64) \<and>
     length h = history_count l \<and> history_count l \<le> 8 \<and> history_next l < 8 \<and> (history_count l < 8 \<longrightarrow> history_next l = history_count l) \<and>
     (\<forall>i<history_count l. history_entry l i = h ! i) \<and> (\<forall>x\<in>set h. printable x \<and> length x \<le> 63)"

definition line_rel :: "shell_line \<Rightarrow> editor \<Rightarrow> bool" where
  "line_rel l e \<longleftrightarrow>
     text_rel (command_buffer l) (command_length l) (command_cursor l) (ed_before e) (ed_after e) \<and>
     hist_rel l (ed_history e) \<and> history_view l = ed_view e \<and> ed_view e \<le> length (ed_history e) \<and>
     escape_state l = ed_escape e \<and> row_shows (shell_out l) (ed_before e) (ed_after e)"

lemma emit_fields [simp]:
  "command_buffer (emit s l) = command_buffer l" "history_buffer (emit s l) = history_buffer l"
  "command_length (emit s l) = command_length l" "command_cursor (emit s l) = command_cursor l"
  "escape_state (emit s l) = escape_state l" "history_count (emit s l) = history_count l"
  "history_next (emit s l) = history_next l" "history_view (emit s l) = history_view l"
  "shell_out (emit s l) = shell_out l @ s"
  by (simp_all add: emit_def)

text \<open>What an operation on the line keeps of the rest of the state.\<close>

definition keeps_history :: "shell_line \<Rightarrow> shell_line \<Rightarrow> bool" where
  "keeps_history l l' \<longleftrightarrow> history_buffer l' = history_buffer l \<and> history_count l' = history_count l \<and> history_next l' = history_next l"

lemma hist_rel_keeps: "keeps_history l l' \<Longrightarrow> hist_rel l' h = hist_rel l h"
  by (simp add: keeps_history_def hist_rel_def history_entry_def history_index_def)

lemma line_relI:
  assumes "keeps_history l l'" "hist_rel l (ed_history e)" "ed_view e \<le> length (ed_history e)"
    "history_view l' = ed_view e" "escape_state l' = ed_escape e"
    "text_rel (command_buffer l') (command_length l') (command_cursor l') (ed_before e) (ed_after e)"
    "row_shows (shell_out l') (ed_before e) (ed_after e)"
  shows "line_rel l' e"
  using assms by (simp add: line_rel_def hist_rel_keeps)

lemma line_relD:
  assumes "line_rel l e"
  shows "hist_rel l (ed_history e)" "ed_view e \<le> length (ed_history e)" "history_view l = ed_view e" "escape_state l = ed_escape e"
    "text_rel (command_buffer l) (command_length l) (command_cursor l) (ed_before e) (ed_after e)"
    "row_shows (shell_out l) (ed_before e) (ed_after e)"
  using assms by (simp_all add: line_rel_def)

lemma text_rel_move: "text_rel buf len cursor b a \<Longrightarrow> b @ a = b' @ a' \<Longrightarrow> text_rel buf len (length b') b' a'"
  by (auto simp: text_rel_def dest: arg_cong [of _ _ length])

lemma text_rel_nth:
  assumes "text_rel buf len cursor b (x # a)"
  shows "buf ! cursor = x"
proof -
  have t: "take len buf = b @ x # a" "cursor = length b" "cursor < len" using assms by (auto simp: text_rel_def)
  have "buf ! cursor = take len buf ! cursor" using t(3) by simp
  then show ?thesis unfolding t(1,2) by simp
qed

lemma text_rel_rest:
  assumes "text_rel buf len cursor b a"
  shows "map (\<lambda>i. buf ! i) [cursor..<len] = a"
proof -
  have t: "take len buf = b @ a" "cursor = length b" using assms by (auto simp: text_rel_def)
  have "map (\<lambda>i. buf ! i) [cursor..<len] = drop cursor (take len buf)"
    using assms by (intro nth_equalityI) (auto simp: text_rel_def)
  then show ?thesis unfolding t by simp
qed

lemma shell_home_rel: "line_rel l e \<Longrightarrow> line_rel (shell_home l) (ed_home e)"
proof -
  assume r: "line_rel l e"
  note d = line_relD [OF r]
  show ?thesis
  proof (rule line_relI [of l])
    show "text_rel (command_buffer (shell_home l)) (command_length (shell_home l)) (command_cursor (shell_home l)) (ed_before (ed_home e)) (ed_after (ed_home e))"
      using text_rel_move [OF d(5), of "[]" "ed_before e @ ed_after e"] by (simp add: shell_home_def shell_move_left_def ed_home_def ed_line_def)
    show "row_shows (shell_out (shell_home l)) (ed_before (ed_home e)) (ed_after (ed_home e))"
      using row_home [OF d(6)] d(5) by (simp add: shell_home_def shell_move_left_def ed_home_def ed_line_def text_rel_def)
  qed (use d in \<open>simp_all add: shell_home_def shell_move_left_def ed_home_def keeps_history_def\<close>)
qed

lemma shell_left_rel: "line_rel l e \<Longrightarrow> line_rel (shell_left l) (ed_left e)"
proof -
  assume r: "line_rel l e"
  note d = line_relD [OF r]
  show ?thesis
  proof (cases "ed_before e" rule: rev_cases)
    case Nil
    then have "command_cursor l = 0" using d(5) by (simp add: text_rel_def)
    then show ?thesis using Nil r by (simp add: shell_left_def ed_left_def)
  next
    case (snoc b x)
    then have c: "command_cursor l = Suc (length b)" using d(5) by (simp add: text_rel_def)
    have "text_rel (command_buffer l) (command_length l) (length b) b (x # ed_after e)"
      using text_rel_move [OF d(5), of b "x # ed_after e"] snoc by simp
    moreover have "row_shows (shell_out l @ [0x08]) b (x # ed_after e)" using row_left d(6) snoc by simp
    ultimately show ?thesis
      using d c snoc by (intro line_relI [of l]) (simp_all add: shell_left_def ed_left_def keeps_history_def)
  qed
qed

lemma shell_move_right_rel: "line_rel l e \<Longrightarrow> line_rel (shell_move_right 1 l) (ed_right e)"
proof -
  assume r: "line_rel l e"
  note d = line_relD [OF r]
  show ?thesis
  proof (cases "ed_after e")
    case Nil
    then have "\<not> command_cursor l < command_length l" using d(5) by (simp add: text_rel_def)
    then show ?thesis using Nil r by (simp add: ed_right_def)
  next
    case (Cons x a)
    then have c: "command_cursor l < command_length l" "command_cursor l = length (ed_before e)" "printable [x]"
      using d(5) by (auto simp: text_rel_def)
    have "text_rel (command_buffer l) (command_length l) (length (ed_before e @ [x])) (ed_before e @ [x]) a"
      using text_rel_move [OF d(5), of "ed_before e @ [x]" a] Cons by simp
    moreover have "row_shows (shell_out l @ [x]) (ed_before e @ [x]) a" using row_right d(6) Cons c(3) by simp
    moreover have "command_buffer l ! command_cursor l = x" using text_rel_nth d(5) Cons by simp
    ultimately show ?thesis
      using d c Cons by (intro line_relI [of l]) (simp_all add: ed_right_def keeps_history_def)
  qed
qed

lemma shell_end_rel: "line_rel l e \<Longrightarrow> line_rel (shell_end l) (ed_end e)"
proof -
  have "line_rel l e \<Longrightarrow> n = length (ed_after e) \<Longrightarrow> line_rel (shell_move_right n l) (ed_end e)" for n l e
  proof (induction n arbitrary: l e)
    case 0
    then show ?case by (cases e) (simp add: ed_end_def ed_line_def)
  next
    case (Suc n)
    then obtain x a where a: "ed_after e = x # a" "n = length a" by (cases "ed_after e") auto
    then have "command_cursor l < command_length l" using line_relD(5) [OF Suc.prems(1)] by (simp add: text_rel_def)
    then have "shell_move_right (Suc n) l = shell_move_right n (shell_move_right 1 l)" by simp
    moreover have "ed_end (ed_right e) = ed_end e" "ed_after (ed_right e) = a" using a by (simp_all add: ed_right_def ed_end_def ed_line_def)
    ultimately show ?case using Suc.IH [OF shell_move_right_rel [OF Suc.prems(1)]] a(2) by simp
  qed
  moreover assume "line_rel l e"
  ultimately show ?thesis using line_relD(5) [of l e] by (auto simp: shell_end_def text_rel_def)
qed

text \<open>Redrawing the rest of the line after it has changed.\<close>

lemma redraw_rel:
  assumes "keeps_history l0 l" "hist_rel l0 (ed_history e)" "ed_view e \<le> length (ed_history e)"
    "history_view l = ed_view e" "escape_state l = ed_escape e"
    "text_rel (command_buffer l) (command_length l) (command_cursor l) (ed_before e) (ed_after e)"
    "row_shows (shell_out l) (ed_before e) x" "old_length = length (ed_before e) + length x"
  shows "line_rel (shell_redraw_from_cursor old_length l) e"
proof -
  let ?n = "if old_length > command_length l then old_length - command_length l else 0"
  have "length x \<le> length (ed_after e) + ?n" "printable (ed_after e)" using assms(6,8) by (auto simp: text_rel_def)
  then have "row_shows (shell_out l @ ed_after e @ replicate ?n 0x20 @ replicate (length (ed_after e) + ?n) 0x08) (ed_before e) (ed_after e)"
    using row_redraw [OF assms(7), of "ed_after e" ?n] by simp
  moreover have "map (\<lambda>i. command_buffer l ! i) [command_cursor l..<command_length l] = ed_after e" by (rule text_rel_rest [OF assms(6)])
  ultimately show ?thesis
    using assms(1-6) by (intro line_relI [of l0]) (simp_all add: shell_redraw_from_cursor_def shell_move_left_def Let_def keeps_history_def)
qed

lemma remove_rel:
  assumes r: "hist_rel l (ed_history e)" "ed_view e \<le> length (ed_history e)" "history_view l = ed_view e" "escape_state l = ed_escape e"
    "text_rel (command_buffer l) (command_length l) (command_cursor l) (ed_before e) (x # a)"
    "row_shows (shell_out l) (ed_before e) (x # a)"
  shows "line_rel (remove_at_cursor (command_length l) l) (e\<lparr>ed_after := a\<rparr>)"
proof -
  let ?b = "ed_before e" and ?len = "command_length l"
  have t: "take ?len (command_buffer l) = ?b @ x # a" "command_cursor l = length ?b" "?len = length ?b + Suc (length a)"
    "length (command_buffer l) = 64" "?len \<le> 63" "printable (?b @ a)" using r(5) by (auto simp: text_rel_def)
  have "take (?len - 1) ((shift_left (command_cursor l) ?len (command_buffer l))[?len - 1 := 0]) =
      take (command_cursor l) (take ?len (command_buffer l)) @ drop (Suc (command_cursor l)) (take ?len (command_buffer l))"
    using t(2-5) by (intro remove_buffer) simp_all
  also have "\<dots> = ?b @ a" unfolding t(1,2) by simp
  finally have "text_rel ((shift_left (command_cursor l) ?len (command_buffer l))[?len - 1 := 0]) (?len - 1) (command_cursor l) ?b a"
    using t by (simp add: text_rel_def)
  then show ?thesis
    unfolding remove_at_cursor_def Let_def
    by (intro redraw_rel [of l, where x = "x # a"]) (use r t in \<open>simp_all add: keeps_history_def\<close>)
qed

lemma shell_delete_rel: "line_rel l e \<Longrightarrow> line_rel (shell_delete l) (ed_delete e)"
proof -
  assume r: "line_rel l e"
  note d = line_relD [OF r]
  show ?thesis
  proof (cases "ed_after e")
    case Nil
    then have "command_cursor l \<ge> command_length l" "ed_delete e = e" using d(5) by (cases e; simp add: text_rel_def ed_delete_def)+
    then show ?thesis using r by (simp add: shell_delete_def)
  next
    case (Cons x a)
    then have "\<not> command_cursor l \<ge> command_length l" "ed_delete e = e\<lparr>ed_after := a\<rparr>" using d(5) by (simp_all add: text_rel_def ed_delete_def)
    then show ?thesis using remove_rel [OF d(1-4)] d(5,6) Cons by (simp add: shell_delete_def)
  qed
qed

lemma shell_backspace_rel: "line_rel l e \<Longrightarrow> line_rel (shell_backspace l) (ed_backspace e)"
proof -
  assume r: "line_rel l e"
  note d = line_relD [OF r]
  show ?thesis
  proof (cases "ed_before e" rule: rev_cases)
    case Nil
    then have "command_cursor l = 0" "ed_backspace e = e" using d(5) by (cases e; simp add: text_rel_def ed_backspace_def)+
    then show ?thesis using r by (simp add: shell_backspace_def)
  next
    case (snoc b x)
    then have "line_rel (shell_left l) (e\<lparr>ed_before := b, ed_after := x # ed_after e\<rparr>)" "command_cursor l \<noteq> 0"
      using shell_left_rel [OF r] d(5) by (simp_all add: ed_left_def text_rel_def)
    note d' = line_relD [OF this(1)] and c = this(2)
    have "shell_backspace l = remove_at_cursor (command_length (shell_left l)) (shell_left l)"
      using c by (simp add: shell_backspace_def shell_left_def)
    moreover have "ed_backspace e = e\<lparr>ed_before := b, ed_after := ed_after e\<rparr>" using snoc by (simp add: ed_backspace_def)
    ultimately show ?thesis using remove_rel [OF d'(1-4), of x "ed_after e"] d'(5,6) by simp
  qed
qed

lemma term_fresh: "term_row (out @ s @ [0x0a]) = ([], 0)"
  by (cases "fold term_put s (term_row out)") simp

lemma shell_insert_rel:
  assumes r: "line_rel l e" and "32 \<le> c" "c \<le> 126"
  shows "line_rel (shell_insert_char c l) (ed_insert c e)"
proof -
  note d = line_relD [OF r]
  let ?b = "ed_before e" and ?a = "ed_after e" and ?len = "command_length l" and ?buf = "command_buffer l"
  have t: "take ?len ?buf = ?b @ ?a" "command_cursor l = length ?b" "?len = length ?b + length ?a"
    "length ?buf = 64" "?len \<le> 63" "printable (?b @ ?a)" using d(5) by (auto simp: text_rel_def)
  show ?thesis
  proof (cases "?len \<ge> 63")
    case True
    have "row_shows ((shell_out l @ ([0x0a] @ bytes_of ''Command too long'') @ [0x0a]) @ SHELL_PROMPT) [] []"
      by (rule row_prompt [OF term_fresh])
    then show ?thesis
      using True d t by (intro line_relI [of l])
        (simp_all add: shell_insert_char_def shell_prompt_def Let_def ed_insert_def ed_line_def keeps_history_def text_rel_def)
  next
    case False
    let ?buf' = "(shift_right (command_cursor l) ?len ?buf)[command_cursor l := c, Suc ?len := 0]"
    have "take (Suc ?len) ?buf' = take (command_cursor l) (take ?len ?buf) @ c # drop (command_cursor l) (take ?len ?buf)"
      using False t(2-4) by (intro insert_buffer) simp_all
    also have "\<dots> = (?b @ [c]) @ ?a" unfolding t(1,2) by simp
    finally have txt_rel: "text_rel ?buf' (Suc ?len) (Suc (command_cursor l)) (?b @ [c]) ?a"
      using False t assms(2,3) by (simp add: text_rel_def)
    have row: "row_shows (shell_out l @ c # ?a @ replicate (length ?a) 0x08) (?b @ [c]) ?a"
      using row_insert [OF d(6), of c] t(6) assms(2,3) by simp
    have row_end: "?a = [] \<Longrightarrow> row_shows (shell_out l @ [c]) (?b @ [c]) []" using row by auto
    have rest: "map (\<lambda>i. ?buf' ! i) [Suc (command_cursor l)..<Suc ?len] = ?a" by (rule text_rel_rest [OF txt_rel])
    have "\<not> ?len \<ge> 64 - 1" using False by simp
    then have eq: "shell_insert_char c l = (if ?a = [] then emit [c] l else emit (c # ?a @ replicate (length ?a) 0x08) l)
        \<lparr>command_buffer := ?buf', command_length := Suc ?len, command_cursor := Suc (command_cursor l), rendered_length := Suc ?len\<rparr>"
      using rest t(2,3) by (simp add: shell_insert_char_def shell_move_left_def Let_def emit_def)
    show ?thesis
      using False d t txt_rel row row_end by (intro line_relI [of l]) (simp_all add: eq ed_insert_def ed_line_def keeps_history_def)
  qed
qed

lemma shell_insert_text_rel: "line_rel l e \<Longrightarrow> printable str \<Longrightarrow> line_rel (shell_insert_text str l) (fold ed_insert str e)"
  unfolding shell_insert_text_def by (induction str arbitrary: l e) (simp_all add: shell_insert_rel)

lemma printable_cstr_ok: "printable s \<Longrightarrow> cstr_ok s"
  by (auto simp: printable_def cstr_ok_def)

lemma take_set_cstr: "length s < length buf \<Longrightarrow> take (length s) (set_cstr buf s) = s"
  by (simp add: set_cstr_def splice_def)

lemma shell_replace_rel:
  assumes r: "line_rel l e" and "printable str" "length str \<le> 63"
  shows "line_rel (shell_replace_line str l) (ed_replace str e)"
proof -
  let ?h = "shell_home l"
  note d = line_relD [OF shell_home_rel [OF r]]
  let ?buf = "copy_string (command_buffer ?h) str"
  let ?l = "?h\<lparr>command_buffer := ?buf, command_length := length str, command_cursor := 0\<rparr>"
  have len: "length (command_buffer ?h) = 64" "command_length l = length (ed_line e)"
    using d(5) line_relD(5) [OF r] by (simp_all add: text_rel_def ed_line_def)
  have buf: "?buf = set_cstr (command_buffer ?h) str" "cstr ?buf = str"
    using assms(2,3) by (simp_all add: copy_string_def cstr_set_cstr printable_cstr_ok)
  have txt_rel: "text_rel ?buf (length str) 0 [] str"
    using assms(2,3) len(1) buf(1) by (simp add: text_rel_def take_set_cstr length_set_cstr)
  have "line_rel (shell_redraw_from_cursor (command_length l) ?l) (e\<lparr>ed_before := [], ed_after := str\<rparr>)"
    by (rule redraw_rel [of l, where x = "ed_line e"])
      (use d txt_rel len line_relD [OF r] in \<open>simp_all add: ed_home_def keeps_history_def shell_home_def shell_move_left_def\<close>)
  from shell_end_rel [OF this] show ?thesis
    using buf by (simp add: shell_replace_line_def Let_def ed_end_def ed_line_def ed_replace_def)
qed

lemma history_entry_view [simp]: "history_entry (l\<lparr>history_view := v\<rparr>) i = history_entry l i"
  by (simp add: history_entry_def history_index_def)

lemma line_rel_view: "line_rel l e \<Longrightarrow> v \<le> length (ed_history e) \<Longrightarrow> line_rel (l\<lparr>history_view := v\<rparr>) (e\<lparr>ed_view := v\<rparr>)"
  by (rule line_relI [of l]) (simp_all add: line_rel_def keeps_history_def)

lemma shell_history_previous_rel: "line_rel l e \<Longrightarrow> line_rel (shell_history_previous l) (ed_previous e)"
proof -
  assume r: "line_rel l e"
  note d = line_relD [OF r]
  show ?thesis
  proof (cases "ed_view e = 0")
    case True
    then show ?thesis using r d(3) by (simp add: shell_history_previous_def ed_previous_def)
  next
    case False
    let ?v = "ed_view e - 1"
    have v: "?v < length (ed_history e)" "history_count l \<noteq> 0" "history_entry l ?v = ed_history e ! ?v"
      "printable (ed_history e ! ?v)" "length (ed_history e ! ?v) \<le> 63"
      using d(1,2) False nth_mem [of ?v "ed_history e"] by (auto simp: hist_rel_def)
    from shell_replace_rel [OF line_rel_view [OF r, of ?v] v(4,5)] v(1-3) d(3) False show ?thesis
      by (simp add: shell_history_previous_def ed_previous_def)
  qed
qed

lemma shell_history_next_rel: "line_rel l e \<Longrightarrow> line_rel (shell_history_next l) (ed_next e)"
proof -
  assume r: "line_rel l e"
  note d = line_relD [OF r]
  have count: "history_count l = length (ed_history e)" using d(1) by (simp add: hist_rel_def)
  show ?thesis
  proof (cases "ed_view e \<ge> length (ed_history e)")
    case True
    then show ?thesis using r d(3) count by (simp add: shell_history_next_def ed_next_def Let_def)
  next
    case False
    let ?v = "Suc (ed_view e)"
    note rep = shell_replace_rel [OF line_rel_view [OF r, of ?v]]
    have "history_entry l ?v = ed_history e ! ?v" "printable (ed_history e ! ?v)" "length (ed_history e ! ?v) \<le> 63" if "?v \<noteq> length (ed_history e)"
      using d(1) False that nth_mem [of ?v "ed_history e"] by (auto simp: hist_rel_def)
    then show ?thesis
      using rep [of "[]"] rep [of "ed_history e ! ?v"] False count d(3) by (auto simp: shell_history_next_def ed_next_def Let_def)
  qed
qed

section \<open>Completion\<close>

lemma prefix_matches_iff:
  "prefix_matches_from command prefix i n \<longleftrightarrow> (\<forall>j. i \<le> j \<and> j < i + n \<longrightarrow> str_at command j = prefix ! j)"
proof (induction n arbitrary: i)
  case (Suc n)
  have "(\<forall>j. i \<le> j \<and> j < i + Suc n \<longrightarrow> str_at command j = prefix ! j) \<longleftrightarrow>
      str_at command i = prefix ! i \<and> (\<forall>j. Suc i \<le> j \<and> j < Suc i + n \<longrightarrow> str_at command j = prefix ! j)"
    by (metis add_Suc add_Suc_right le_add1 le_antisym le_eq_less_or_eq less_Suc_eq_le not_less_eq_eq)
  then show ?case using Suc.IH [of "Suc i"] by simp
qed auto

lemma prefix_matches_take:
  assumes "take n prefix = b" "n \<le> length prefix" "printable b"
  shows "command_prefix_matches command prefix n \<longleftrightarrow> take (length b) command = b"
proof -
  have len: "length b = n" using assms(1,2) by auto
  have b: "prefix ! j = b ! j \<and> b ! j \<noteq> 0" if "j < n" for j
  proof -
    have "b ! j \<in> set b" using that len by simp
    then have "32 \<le> b ! j" using assms(3) by (simp add: printable_def)
    moreover have "prefix ! j = b ! j" using assms(1) that by auto
    ultimately show ?thesis by auto
  qed
  have "(\<forall>j<n. str_at command j = b ! j) \<longleftrightarrow> take n command = b"
  proof
    assume all: "\<forall>j<n. str_at command j = b ! j"
    have "n \<le> length command"
    proof (rule ccontr)
      assume "\<not> n \<le> length command"
      then have "str_at command (length command) = 0" "length command < n" by (simp_all add: str_at_def)
      then show False using all b by metis
    qed
    then show "take n command = b" using all len by (intro nth_equalityI) (auto simp: str_at_def)
  next
    assume "take n command = b"
    then show "\<forall>j<n. str_at command j = b ! j" using len by (auto simp: str_at_def)
  qed
  then show ?thesis using b len by (simp add: command_prefix_matches_def prefix_matches_iff)
qed

lemma names_printable: "\<forall>name\<in>set (map sc_name shell_commands @ map al_name shell_aliases). printable name"
  by (simp add: shell_commands_def shell_aliases_def shell_command.make_def shell_alias.make_def bytes_of_def)

lemma redraw_current_rel:
  assumes r: "line_rel l e" and "ed_after e = []"
  shows "line_rel (shell_redraw_current_line (emit (s @ [0x0a]) l)) e"
proof -
  note d = line_relD [OF r]
  have t: "take (command_length l) (command_buffer l) = ed_before e" "command_length l = command_cursor l" "printable (ed_before e)"
    using d(5) assms(2) by (auto simp: text_rel_def)
  have "row_shows ((shell_out l @ s @ [0x0a]) @ SHELL_PROMPT) [] []" by (rule row_prompt [OF term_fresh])
  from row_write [OF this t(3)] have "row_shows (((shell_out l @ s @ [0x0a]) @ SHELL_PROMPT) @ ed_before e) (ed_before e) []"
    by (simp add: row_shows_def)
  then show ?thesis
    using d t assms(2)
    by (intro line_relI [of l]) (simp_all add: shell_redraw_current_line_def shell_prompt_def Let_def keeps_history_def)
qed

lemma shell_autocomplete_rel:
  assumes r: "line_rel l e"
  shows "line_rel (shell_autocomplete l) (ed_complete e)"
proof -
  note d = line_relD [OF r]
  have t: "take (command_length l) (command_buffer l) = ed_line e" "command_length l \<le> length (command_buffer l)" "printable (ed_line e)"
    "command_cursor l = command_length l \<longleftrightarrow> ed_after e = []" "command_length l = length (ed_line e)"
    using d(5) by (auto simp: text_rel_def ed_line_def)
  have target: "command_line_is_completion_target l \<longleftrightarrow> 0x20 \<notin> set (ed_line e) \<and> ed_after e = []"
    using t by (simp add: command_line_is_completion_target_def)
  show ?thesis
  proof (cases "command_line_is_completion_target l")
    case False
    then show ?thesis using r target by (auto simp: shell_autocomplete_def ed_complete_def)
  next
    case True
    then have a: "ed_after e = []" "ed_line e = ed_before e" using target by (simp_all add: ed_line_def)
    have names: "completions l = filter (\<lambda>name. take (length (ed_before e)) name = ed_before e) (map sc_name shell_commands @ map al_name shell_aliases)"
      unfolding completions_def using prefix_matches_take [OF t(1-3)] a(2) by simp
    show ?thesis
    proof (cases "length (completions l) = 1")
      case one: True
      then obtain name where n: "completions l = [name]" by (cases "completions l") auto
      then have "name \<in> set (map sc_name shell_commands @ map al_name shell_aliases)" using names by (metis filter_is_subset list.set_intros(1) subset_iff)
      then have "printable (drop (command_length l) name)" using names_printable printable_sub(2) by blast
      from shell_insert_text_rel [OF r this] show ?thesis
        using True target n names t(5) a(2) by (simp add: shell_autocomplete_def ed_complete_def Let_def)
    next
      case more: False
      have "ed_complete e = e" using names more by (simp add: ed_complete_def Let_def)
      then show ?thesis
        using True more r redraw_current_rel [OF r a(1), of "[0x0a] @ bytes_of ''Matches:'' @ concat (map (\<lambda>name. 0x20 # name) (completions l))"]
        by (simp add: shell_autocomplete_def Let_def)
    qed
  qed
qed

section \<open>History\<close>

lemma history_add_rel:
  assumes h: "hist_rel l h" and "printable cmd" "length cmd \<le> 63"
  shows "hist_rel (history_add cmd l) (remember cmd h) \<and> (cmd \<noteq> [] \<longrightarrow> history_view (history_add cmd l) = length (remember cmd h))"
proof -
  have count: "length h = history_count l" "history_count l \<le> 8" "history_next l < 8" "length (history_buffer l) = 8"
    "history_count l < 8 \<Longrightarrow> history_next l = history_count l" "\<And>i. i < history_count l \<Longrightarrow> history_entry l i = h ! i"
    using h by (auto simp: hist_rel_def)
  have lst: "history_count l > 0 \<and> cstr_equals cmd (history_entry l (history_count l - 1)) \<longleftrightarrow> h \<noteq> [] \<and> last h = cmd"
  proof (cases "h = []")
    case True
    then show ?thesis using count(1) by simp
  next
    case False
    then have "history_count l > 0" unfolding count(1) [symmetric] by simp
    then show ?thesis using False count(1) count(6) [of "history_count l - 1"] by (auto simp: last_conv_nth)
  qed
  let ?n = "history_next l"
  let ?new = "copy_string (history_buffer l ! ?n) cmd"
  have new: "cstr ?new = cmd" "length ?new = 64"
    using assms h by (simp_all add: copy_string_def cstr_set_cstr printable_cstr_ok length_set_cstr hist_rel_def)
  show "hist_rel (history_add cmd l) (remember cmd h) \<and> (cmd \<noteq> [] \<longrightarrow> history_view (history_add cmd l) = length (remember cmd h))"
  proof (cases "cmd = [] \<or> h \<noteq> [] \<and> last h = cmd")
    case True
    then have "keeps_history l (history_add cmd l)" "remember cmd h = h"
      using lst by (auto simp: history_add_def keeps_history_def remember_def)
    then show ?thesis using h True lst count(1) by (auto simp: hist_rel_keeps history_add_def)
  next
    case False
    let ?buf = "(history_buffer l)[?n := ?new]"
    let ?c = "if history_count l < 8 then history_count l + 1 else history_count l"
    let ?l = "l\<lparr>history_buffer := ?buf, history_next := (?n + 1) mod 8, history_count := ?c, history_view := ?c\<rparr>"
    have eq: "history_add cmd l = ?l" using False lst by (auto simp: history_add_def Let_def)
    have rem: "remember cmd h = drop (Suc (length h) - 8) (h @ [cmd])" using False by (auto simp: remember_def)
    have entries: "history_entry ?l i = remember cmd h ! i" if i: "i < ?c" for i
    proof (cases "history_count l < 8")
      case True
      then have "Suc (history_count l) < 8 \<or> Suc (history_count l) = 8" by auto
      then have "history_index ?l i = i" "history_index l i = i" using True i count(5) by (auto simp: history_index_def)
      then show ?thesis
        using True i count new(1) count(6) [of i] by (auto simp: history_entry_def rem nth_append nth_list_update)
    next
      case False
      then have c: "history_count l = 8" using count(2) by simp
      have idx: "history_index ?l i = (?n + Suc i) mod 8" "history_index l (Suc i) = (?n + Suc i) mod 8"
        using c by (simp_all add: history_index_def mod_simps)
      show ?thesis
      proof (cases "i = 7")
        case True
        then show ?thesis using idx(1) c count new(1) by (simp add: history_entry_def rem nth_append)
      next
        case False
        then have "(?n + Suc i) mod 8 \<noteq> ?n" using i c count(3) by (auto simp: mod_if split: if_splits)
        then show ?thesis
          using idx c i False count(1,4) count(6) [of "Suc i"] by (auto simp: history_entry_def rem nth_append)
      qed
    qed
    moreover have "\<forall>x\<in>set ?buf. length x = 64" "\<forall>x\<in>set (remember cmd h). printable x \<and> length x \<le> 63"
      using h new(2) assms(2,3) unfolding rem hist_rel_def by (auto dest!: in_set_dropD set_update_subset_insert [THEN subsetD])
    ultimately show ?thesis using count by (auto simp: eq hist_rel_def rem)
  qed
qed

section \<open>Keys\<close>

lemma line_rel_escape: "line_rel l e \<Longrightarrow> line_rel (l\<lparr>escape_state := n\<rparr>) (e\<lparr>ed_escape := n\<rparr>)"
  by (rule line_relI [of l]) (simp_all add: line_rel_def keeps_history_def)

lemmas edit_rel = shell_left_rel shell_move_right_rel shell_home_rel shell_end_rel shell_delete_rel shell_backspace_rel
  shell_history_previous_rel shell_history_next_rel shell_autocomplete_rel

lemma shell_escape_rel:
  assumes "line_rel l e"
  shows "fst (shell_handle_escape_char c l) \<longleftrightarrow> ed_escape e \<noteq> 0"
    "ed_escape e \<noteq> 0 \<Longrightarrow> line_rel (snd (shell_handle_escape_char c l)) (ed_escaped c e)"
    "ed_escape e = 0 \<Longrightarrow> snd (shell_handle_escape_char c l) = l"
proof -
  note esc = line_relD(4) [OF assms]
  note r0 = line_rel_escape [OF assms, of 0]
  show "fst (shell_handle_escape_char c l) \<longleftrightarrow> ed_escape e \<noteq> 0" using esc by (simp add: shell_handle_escape_char_def Let_def)
  show "ed_escape e = 0 \<Longrightarrow> snd (shell_handle_escape_char c l) = l" using esc by (simp add: shell_handle_escape_char_def)
  assume "ed_escape e \<noteq> 0"
  then consider "ed_escape e = 1" | "ed_escape e = 2" | "ed_escape e \<noteq> 0" "ed_escape e \<noteq> 1" "ed_escape e \<noteq> 2" by blast
  then show "line_rel (snd (shell_handle_escape_char c l)) (ed_escaped c e)"
  proof cases
    case 1
    then show ?thesis
      using line_rel_escape [OF assms] esc by (simp add: shell_handle_escape_char_def ed_escaped_def Let_def)
  next
    case 2
    then show ?thesis
      using edit_rel [OF r0] r0 line_rel_escape [OF assms, of 3] esc
      by (simp add: shell_handle_escape_char_def ed_escaped_def Let_def)
  next
    case 3
    then show ?thesis
      using edit_rel [OF r0] r0 esc by (simp add: shell_handle_escape_char_def ed_escaped_def Let_def)
  qed
qed

text \<open>A command that prints whole lines leaves the terminal at the start of a row.\<close>

definition whole_lines :: "cstring \<Rightarrow> bool" where
  "whole_lines s \<longleftrightarrow> s = [] \<or> last s = 0x0a"

definition prints_lines :: "(cstring \<Rightarrow> 's \<Rightarrow> (cstring \<times> 's) option) \<Rightarrow> bool" where
  "prints_lines exec \<longleftrightarrow> (\<forall>cmd s out s'. exec cmd s = Some (out, s') \<longrightarrow> whole_lines out)"

lemma history_add_fields [simp]:
  "command_buffer (history_add cmd l) = command_buffer l" "command_length (history_add cmd l) = command_length l"
  "shell_out (history_add cmd l) = shell_out l"
  by (simp_all add: history_add_def Let_def)

lemma shell_enter_rel:
  assumes r: "line_rel l e" and "prints_lines exec"
  shows "case exec (ed_line e) s of
      None \<Rightarrow> shell_enter exec (l, s) = None
    | Some (printed, s') \<Rightarrow> \<exists>l'. shell_enter exec (l, s) = Some (l', s') \<and> line_rel l' (ed_enter e)"
proof -
  note d = line_relD [OF r]
  let ?buf = "(command_buffer l)[command_length l := 0]"
  let ?l = "emit [0x0a] (l\<lparr>command_buffer := ?buf\<rparr>)"
  have t: "length (command_buffer l) = 64" "command_length l \<le> 63" "take (command_length l) (command_buffer l) = ed_line e"
    "command_length l = length (ed_line e)" "printable (ed_line e)" using d(5) by (auto simp: text_rel_def ed_line_def)
  have "cstr ?buf = ed_line e"
  proof -
    have "?buf = ed_line e @ 0 # drop (Suc (command_length l)) (command_buffer l)"
      using t(1-3) by (simp add: upd_conv_take_nth_drop)
    moreover have "\<forall>c\<in>set (ed_line e). c \<noteq> 0" using printable_cstr_ok [OF t(5)] by (auto simp: cstr_ok_def)
    ultimately show ?thesis by (simp add: cstr_def takeWhile_append2)
  qed
  then have run: "shell_enter exec (l, s) =
      (case exec (ed_line e) s of None \<Rightarrow> None
       | Some (printed, s) \<Rightarrow>
          let l = emit printed (history_add (ed_line e) ?l);
              l = l\<lparr>command_length := 0, command_buffer := (command_buffer l)[0 := 0], command_cursor := 0,
                    rendered_length := 0, escape_state := 0, history_view := history_count l\<rparr>
          in Some (shell_prompt l, s))"
    by (auto simp: shell_enter_def Let_def split: option.split)
  show ?thesis
  proof (cases "exec (ed_line e) s")
    case None
    then show ?thesis using run by simp
  next
    case (Some ps)
    obtain printed s' where ps: "ps = (printed, s')" by (cases ps)
    let ?h = "history_add (ed_line e) ?l"
    have hl: "hist_rel ?l (ed_history e)" using d(1) hist_rel_keeps [of l ?l] by (simp add: keeps_history_def)
    have h: "hist_rel ?h (remember (ed_line e) (ed_history e))" using history_add_rel [OF hl t(5)] t(2,4) by simp
    have "whole_lines printed" using assms(2) Some ps unfolding prints_lines_def by blast
    then have "term_row (shell_out l @ 0x0a # printed) = ([], 0)"
      using term_fresh [of "shell_out l" "[]"] term_fresh [of "shell_out l" "0x0a # butlast printed"]
      by (cases printed rule: rev_cases) (auto simp: whole_lines_def)
    from row_prompt [OF this] have row: "row_shows (shell_out l @ 0x0a # printed @ SHELL_PROMPT) [] []" by simp
    let ?l' = "shell_prompt ((emit printed ?h)\<lparr>command_length := 0, command_buffer := ?buf[0 := 0], command_cursor := 0,
                    rendered_length := 0, escape_state := 0, history_view := history_count ?h\<rparr>)"
    have "line_rel ?l' (ed_enter e)"
      by (rule line_relI [of ?h])
        (use h row t(1) in \<open>simp_all add: shell_prompt_def ed_enter_def Let_def keeps_history_def text_rel_def, simp add: hist_rel_def\<close>)
    then show ?thesis using run Some ps by (simp add: Let_def)
  qed
qed

lemma shell_handle_char_rel:
  assumes r: "line_rel l e" and "prints_lines exec"
  shows "case ed_key c e of
      (None, e') \<Rightarrow> \<exists>l'. shell_handle_char exec c (l, s) = Some (l', s) \<and> line_rel l' e'
    | (Some cmd, e') \<Rightarrow>
        (case exec cmd s of
           None \<Rightarrow> shell_handle_char exec c (l, s) = None
         | Some (printed, s') \<Rightarrow> \<exists>l'. shell_handle_char exec c (l, s) = Some (l', s') \<and> line_rel l' e')"
proof (cases "ed_escape e = 0")
  case False
  let ?c = "if c = 0x0d then 0x0a else c"
  note esc = shell_escape_rel [OF r, of ?c]
  obtain l' where "shell_handle_escape_char ?c l = (True, l')" "line_rel l' (ed_escaped ?c e)"
    using esc(1,2) False by (cases "shell_handle_escape_char ?c l") auto
  then show ?thesis using False by (simp add: shell_handle_char_def ed_key_def Let_def)
next
  case True
  let ?c = "if c = 0x0d then 0x0a else c"
  note esc = shell_escape_rel [OF r, of ?c]
  have e: "shell_handle_escape_char ?c l = (False, l)"
    using esc(1,3) True by (cases "shell_handle_escape_char ?c l") auto
  have count: "history_count l = length (ed_history e)" using line_relD(1) [OF r] by (simp add: hist_rel_def)
  have ins: "32 \<le> ?c \<Longrightarrow> ?c \<le> 126 \<Longrightarrow>
      line_rel (shell_insert_char ?c (l\<lparr>history_view := history_count l\<rparr>)) (ed_insert ?c (e\<lparr>ed_view := length (ed_history e)\<rparr>))"
    using shell_insert_rel [OF line_rel_view [OF r]] count by simp
  define k where "k = ?c"
  have key: "ed_key c e =
     (if k = 0x1b then (None, e\<lparr>ed_escape := 1\<rparr>)
      else if k = 0x01 then (None, ed_home e)
      else if k = 0x02 then (None, ed_left e)
      else if k = 0x03 then (None, ed_previous e)
      else if k = 0x04 then (None, ed_delete e)
      else if k = 0x05 then (None, ed_end e)
      else if k = 0x0e then (None, ed_next e)
      else if k = 0x06 then (None, ed_right e)
      else if k = 0x0a then (Some (ed_line e), ed_enter e)
      else if k = 0x09 then (None, ed_complete e)
      else if k = 0x08 \<or> k = 0x7f then (None, ed_backspace e)
      else if k < 32 \<or> k > 126 then (None, e)
      else (None, ed_insert k (e\<lparr>ed_view := length (ed_history e)\<rparr>)))"
    using True by (simp only: ed_key_def Let_def k_def if_False simp_thms)
  have run: "shell_handle_char exec c (l, s) =
     (if k = 0x1b then Some (l\<lparr>escape_state := 1\<rparr>, s)
      else if k = 0x01 then Some (shell_home l, s)
      else if k = 0x02 then Some (shell_left l, s)
      else if k = 0x03 then Some (shell_history_previous l, s)
      else if k = 0x04 then Some (shell_delete l, s)
      else if k = 0x05 then Some (shell_end l, s)
      else if k = 0x0e then Some (shell_history_next l, s)
      else if k = 0x06 then Some (shell_move_right 1 l, s)
      else if k = 0x0a then shell_enter exec (l, s)
      else if k = 0x09 then Some (shell_autocomplete l, s)
      else if k = 0x08 \<or> k = 0x7f then Some (shell_backspace l, s)
      else if k < 32 \<or> k > 126 then Some (l, s)
      else Some (shell_insert_char k (l\<lparr>history_view := history_count l\<rparr>), s))"
    unfolding shell_handle_char_def Let_def prod.case e bool.case k_def by (rule refl)
  show ?thesis
  proof (cases "k = 0x0a")
    case True
    then show ?thesis unfolding key run using shell_enter_rel [OF r assms(2), of s] by simp
  next
    case False
    let ?l = "fst (the (shell_handle_char exec c (l, s)))"
    have "shell_handle_char exec c (l, s) = Some (?l, s) \<and> fst (ed_key c e) = None \<and> line_rel ?l (snd (ed_key c e))"
      unfolding run key using False r edit_rel [OF r] line_rel_escape [OF r, of 1] ins
      by (simp add: k_def [symmetric] not_less) (auto simp: not_le [symmetric])
    then show ?thesis by (cases "ed_key c e") auto
  qed
qed

text \<open>The editor as it starts, and a session of it.\<close>

definition ed_start :: editor where
  "ed_start = \<lparr>ed_before = [], ed_after = [], ed_history = [], ed_view = 0, ed_escape = 0\<rparr>"

fun ed_session :: "(cstring \<Rightarrow> 's \<Rightarrow> (cstring \<times> 's) option) \<Rightarrow> cstring \<Rightarrow> editor \<times> 's \<Rightarrow> (editor \<times> 's) option" where
  "ed_session exec [] es = Some es"
| "ed_session exec (c # cs) (e, s) =
     (case ed_key c e of
        (None, e') \<Rightarrow> ed_session exec cs (e', s)
      | (Some cmd, e') \<Rightarrow> (case exec cmd s of None \<Rightarrow> None | Some (printed, s') \<Rightarrow> ed_session exec cs (e', s')))"

definition shell_bss :: shell_line where
  "shell_bss = \<lparr>command_buffer = replicate 64 0, history_buffer = replicate 8 (replicate 64 0), command_length = 0, command_cursor = 0,
     rendered_length = 0, escape_state = 0, history_count = 0, history_next = 0, history_view = 0, shell_out = []\<rparr>"

lemma shell_init_rel: "line_rel (shell_init shell_bss) ed_start"
proof -
  have "row_shows (([] @ bytes_of ''SaturnOS shell ready'' @ [0x0a]) @ SHELL_PROMPT) [] []" by (rule row_prompt [OF term_fresh])
  then show ?thesis
    by (simp add: line_rel_def shell_init_def shell_prompt_def shell_bss_def ed_start_def Let_def text_rel_def hist_rel_def emit_def)
qed

lemma shell_handle_chars_rel:
  assumes "line_rel l e" "prints_lines exec"
  shows "case ed_session exec cs (e, s) of
      None \<Rightarrow> shell_handle_chars exec cs (l, s) = None
    | Some (e', s') \<Rightarrow> \<exists>l'. shell_handle_chars exec cs (l, s) = Some (l', s') \<and> line_rel l' e'"
  using assms(1)
proof (induction cs arbitrary: l e s)
  case (Cons c cs)
  obtain cmd e' where k: "ed_key c e = (cmd, e')" by (cases "ed_key c e")
  note step = shell_handle_char_rel [OF Cons.prems assms(2), of c s]
  show ?case
  proof (cases cmd)
    case None
    then obtain l' where "shell_handle_char exec c (l, s) = Some (l', s)" "line_rel l' e'" using step k by auto
    moreover from this have "shell_handle_chars exec (c # cs) (l, s) = shell_handle_chars exec cs (l', s)" by simp
    ultimately show ?thesis using Cons.IH [of l' e' s] None k by (simp only: ed_session.simps prod.case option.case)
  next
    case (Some line)
    show ?thesis
    proof (cases "exec line s")
      case None
      then show ?thesis using step k Some by simp
    next
      case ps: (Some ps)
      obtain printed s' where "ps = (printed, s')" by (cases ps)
      moreover from this obtain l' where "shell_handle_char exec c (l, s) = Some (l', s')" "line_rel l' e'" using step k Some ps by auto
      moreover from this have "shell_handle_chars exec (c # cs) (l, s) = shell_handle_chars exec cs (l', s')" by simp
      ultimately show ?thesis using Cons.IH [of l' e' s'] k Some ps by (simp only: ed_session.simps prod.case option.case)
    qed
  qed
qed simp

end
