(* ===== verification/Reports.thy ===== *)
theory Reports
  imports Syscall Vm Kprintf
begin

text \<open>
  What the kernel prints about itself: the dump functions of the components, and the messages of the
  scheduler's operations. A report is the list of its lines, computed from the state it reads; where
  printing depends on a loop that may not end, it is an option. The one report that changes
  the state, \<open>scheduler_dump_tasks\<close>, returns the new state as well.
\<close>

section \<open>Lines\<close>

text \<open>
  A call of \<open>kprintf\<close> whose format ends in a new line, which is left out of the format here. A call whose
  output C leaves undefined - %d of the smallest int - stands for no line.
\<close>

definition say :: "string \<Rightarrow> kprintf_arg list \<Rightarrow> cstring" where
  "say fmt args = (case kprintf (bytes_of fmt) args of Some s \<Rightarrow> s @ [0x0a] | None \<Rightarrow> [])"

abbreviation str_arg :: "cstring \<Rightarrow> kprintf_arg" where
  "str_arg s \<equiv> arg_string (Some s)"

abbreviation txt_arg :: "string \<Rightarrow> kprintf_arg" where
  "txt_arg s \<equiv> arg_string (Some (bytes_of s))"

text \<open>The casts of an unsigned long, and of an int.\<close>

abbreviation num_arg :: "u64 \<Rightarrow> kprintf_arg" where
  "num_arg x \<equiv> arg_int (ucast x)"

abbreviation pid_arg :: "int \<Rightarrow> kprintf_arg" where
  "pid_arg x \<equiv> arg_int (word_of_int x)"

definition yes_no :: "bool \<Rightarrow> kprintf_arg" where
  "yes_no b = txt_arg (if b then ''yes'' else ''no'')"

section \<open>Memory\<close>

definition pmm_dump_stats :: "vm_env \<Rightarrow> pmm \<Rightarrow> cstring list" where
  "pmm_dump_stats env p =
     [say ''PMM RAM  : 0x%x - 0x%x'' [num_arg PMM_RAM_BASE, num_arg PMM_RAM_END],
      say ''PMM page : %d bytes'' [num_arg PMM_PAGE_SIZE],
      say ''PMM pages: total=%d used=%d free=%d'' [num_arg pmm_total_pages, num_arg (pmm_used_pages p), num_arg (pmm_free_pages p)],
      say ''PMM kern : 0x%x - 0x%x'' [num_arg (kernel_start env), num_arg (kernel_end env)],
      say ''PMM ramfb: 0x%x - 0x%x'' [num_arg 0x46ffe000, num_arg 0x47200000]]"

definition heap_dump_stats :: "heap \<Rightarrow> cstring list option" where
  "heap_dump_stats h =
     (case heap_free_bytes h of
        None \<Rightarrow> None
      | Some free \<Rightarrow>
          (case heap_overhead_bytes h of
             None \<Rightarrow> None
           | Some overhead \<Rightarrow>
               Some [say ''Heap pages: %d'' [num_arg (heap_pages h)],
                     say ''Heap range: 0x%x - 0x%x'' [num_arg (heap_start h), num_arg (heap_end h)],
                     say ''Heap bytes: total=%d used=%d free=%d overhead=%d''
                       [num_arg (heap_total_bytes h), num_arg (heap_used_bytes h), num_arg free, num_arg overhead]]))"

definition heap_self_test :: "heap \<Rightarrow> pmm \<Rightarrow> (cstring list \<times> heap \<times> pmm) option" where
  "heap_self_test h p =
     (case heap_dump_stats h of
        None \<Rightarrow> None
      | Some before \<Rightarrow>
          (case kmalloc 64 h p of
             None \<Rightarrow> None
           | Some (small, h, p) \<Rightarrow>
               (case kzalloc 128 h p of
                  None \<Rightarrow> None
                | Some (medium, h, p) \<Rightarrow>
                    (case heap_dump_stats h of
                       None \<Rightarrow> None
                     | Some between \<Rightarrow>
                         (case kfree small h of
                            None \<Rightarrow> None
                          | Some h \<Rightarrow>
                              (case kfree medium h of
                                 None \<Rightarrow> None
                               | Some h \<Rightarrow>
                                   (case heap_dump_stats h of
                                      None \<Rightarrow> None
                                    | Some after \<Rightarrow>
                                        Some ([say ''Heap self-test start'' []] @ before @
                                              [say ''kmalloc(64)  = 0x%x'' [num_arg small], say ''kzalloc(128) = 0x%x'' [num_arg medium]] @
                                              between @ [say ''Heap self-test freed allocations'' []] @ after, h, p))))))))"

section \<open>Files and disk\<close>

definition block_dump_stats :: "'d block_layer \<Rightarrow> cstring list" where
  "block_dump_stats b =
     [say ''Block device: %s sectors=%d sector_size=%d capacity=%d KB''
        [txt_arg (if use_virtio b then ''virtio-blk'' else ''ramdisk''), num_arg (block_sector_count b), num_arg (of_nat BLOCK_SECTOR_SIZE),
         num_arg (block_sector_count b * of_nat BLOCK_SECTOR_SIZE div 1024)],
      say ''  reads=%d sectors=%d writes=%d sectors=%d rejected=%d''
        [num_arg (reads (stats b)), num_arg (read_sectors (stats b)), num_arg (writes (stats b)), num_arg (written_sectors (stats b)),
         num_arg (rejected (stats b))],
      say ''  self_test=%s'' [txt_arg (if self_test_passed (stats b) then ''passed'' else ''pending'')]]"

text \<open>
  The path of a directory entry is printed up to its null byte; without one, printing runs on into the
  fields and entries behind it.
\<close>

definition entry_text :: "sfs_directory \<Rightarrow> nat \<Rightarrow> cstring" where
  "entry_text d i = takeWhile (\<lambda>b. b \<noteq> 0) (concat (map encode_entry (drop i (sd_entries d))) @ sd_reserved d)"

definition sfs_dump :: "'d sfs \<Rightarrow> cstring list" where
  "sfs_dump f =
     say ''SaturnFS: state=%s files=%d max_file=%d''
       [txt_arg (if mounted f then ''mounted'' else ''unavailable''), num_arg (of_nat SFS_MAX_FILES), num_arg SFS_MAX_FILE_SIZE] #
     (if \<not> mounted f then []
      else concat (map (\<lambda>i. let e = sd_entries (directory f) ! i in
             if se_flags e AND 1 \<noteq> 0
             then [say ''  %s size=%d sector=%d checksum=0x%x''
                     [str_arg (entry_text (directory f) i), arg_int (se_size e), arg_int (se_start_sector e), arg_int (se_checksum e)]]
             else []) [0..<SFS_MAX_FILES]))"

definition vfs_dump_files :: "'d vfs \<Rightarrow> cstring list" where
  "vfs_dump_files v =
     say ''RAM filesystem: dirs=%d files=%d capacity=%d'' [num_arg (dir_count v), num_arg (file_count v), num_arg (of_nat VFS_MAX_NODES)] #
     concat (map (\<lambda>i. let n = nodes v ! i in
       if rn_used n
       then [say ''  %s%s size=%d''
               [str_arg (rn_path n), txt_arg (if rn_kind n = RAMFS_DIRECTORY then [CHR 0x2f] else []), num_arg (rn_size n)]]
       else []) [0..<VFS_MAX_NODES]) @
     say ''Mount: /disk -> SaturnFS'' [] # sfs_dump (vfs_sfs v)"

section \<open>System calls\<close>

definition syscall_line :: "u64 \<Rightarrow> string \<Rightarrow> cstring" where
  "syscall_line number args = say (''  %d %s args: '' @ args) [num_arg number, txt_arg (syscall_name number)]"

definition syscall_dump_stats :: "syscall_stats \<Rightarrow> cstring list" where
  "syscall_dump_stats s =
     [say ''Syscalls:'' [],
      syscall_line SYSCALL_WRITE ''fd, buffer, length'', syscall_line SYSCALL_EXIT ''code'', syscall_line SYSCALL_YIELD ''none'',
      syscall_line SYSCALL_OPEN ''path, length'', syscall_line SYSCALL_READ ''fd, buffer, length'', syscall_line SYSCALL_CLOSE ''fd'',
      syscall_line SYSCALL_CREATE ''path, length'', syscall_line SYSCALL_SEEK ''fd, offset'', syscall_line SYSCALL_WAIT ''pid, status, options'',
      syscall_line SYSCALL_SPAWN ''path, length, arguments, length'', syscall_line SYSCALL_TERMINATE ''pid, code'',
      syscall_line SYSCALL_SLEEP ''milliseconds'', syscall_line SYSCALL_MONOTONIC_MS ''none'', syscall_line SYSCALL_GETPID ''none'',
      syscall_line SYSCALL_GETPPID ''none'', syscall_line SYSCALL_SYSTEM_INFO ''info buffer'', syscall_line SYSCALL_RANDOM ''none'',
      syscall_line SYSCALL_PROCESS_STATUS ''pid, status buffer'', syscall_line SYSCALL_DIRECTORY_LIST ''index, entry buffer'',
      syscall_line SYSCALL_MKDIR ''path, length'', syscall_line SYSCALL_REMOVE ''path, length'',
      syscall_line SYSCALL_RENAME ''old path, length, new path, length'', syscall_line SYSCALL_PATH_STAT ''path, length, status buffer'',
      syscall_line SYSCALL_TRUNCATE ''path, length, size'', syscall_line SYSCALL_DUP ''fd'',
      say ''Stats:'' [],
      say ''  total=%d handled=%d rejected=%d'' [num_arg (st_total s), num_arg (st_handled s), num_arg (st_rejected s)],
      say ''  write=%d exit=%d yield=%d'' [num_arg (st_write_calls s), num_arg (st_exit_calls s), num_arg (st_yield_calls s)],
      say ''  open=%d read=%d close=%d create=%d seek=%d wait=%d spawn=%d terminate=%d sleep=%d time=%d''
        [num_arg (st_open_calls s), num_arg (st_read_calls s), num_arg (st_close_calls s), num_arg (st_create_calls s),
         num_arg (st_seek_calls s), num_arg (st_wait_calls s), num_arg (st_spawn_calls s), num_arg (st_terminate_calls s),
         num_arg (st_sleep_calls s), num_arg (st_monotonic_calls s)],
      say ''  write_bytes=%d faults=%d last_exit=%d'' [num_arg (st_write_bytes s), num_arg (st_faults s), num_arg (st_last_exit_code s)],
      say ''  file_write_bytes=%d'' [num_arg (st_file_write_bytes s)],
      say ''  monotonic_ms=%d'' [num_arg (st_last_monotonic_ms s)],
      say ''  identity getpid=%d getppid=%d'' [num_arg (st_getpid_calls s), num_arg (st_getppid_calls s)],
      say ''  system_info=%d'' [num_arg (st_system_info_calls s)],
      say ''  random=%d last_random=%d'' [num_arg (st_random_calls s), num_arg (st_last_random s)],
      say ''  process_status=%d'' [num_arg (st_process_status_calls s)],
      say ''  directory_list=%d'' [num_arg (st_directory_list_calls s)],
      say ''  mkdir=%d'' [num_arg (st_mkdir_calls s)],
      say ''  remove=%d'' [num_arg (st_remove_calls s)],
      say ''  rename=%d'' [num_arg (st_rename_calls s)],
      say ''  path_stat=%d'' [num_arg (st_path_stat_calls s)],
      say ''  truncate=%d'' [num_arg (st_truncate_calls s)],
      say ''  dup=%d'' [num_arg (st_dup_calls s)],
      say ''  last=%d (%s) arg0=0x%x arg1=0x%x arg2=0x%x result=%d''
        [num_arg (st_last_number s), txt_arg (syscall_name (st_last_number s)), num_arg (st_last_arg0 s), num_arg (st_last_arg1 s),
         num_arg (st_last_arg2 s), pid_arg (st_last_result s)]]"

section \<open>Tasks\<close>

definition program_line :: "string \<Rightarrow> task_user_status \<Rightarrow> cstring" where
  "program_line fmt u =
     say fmt [txt_arg (if us_program_completed u then ''completed'' else ''pending''),
       txt_arg (if us_program_completed u then (if us_program_succeeded u then ''passed'' else ''failed'') else ''none'')]"

definition stack_lines :: "string \<Rightarrow> task \<Rightarrow> cstring list" where
  "stack_lines indent t =
     (let m = t_memory t
      in [say (indent @ ''stack=0x%x-0x%x'') [num_arg (tm_stack_start m), num_arg (tm_stack_end m)],
          say (indent @ ''guards=0x%x-0x%x 0x%x-0x%x'')
            [num_arg (tm_guard_low_start m), num_arg (tm_guard_low_end m), num_arg (tm_guard_high_start m), num_arg (tm_guard_high_end m)]])"

definition entry_lines :: "string \<Rightarrow> kernel \<Rightarrow> task \<Rightarrow> cstring list" where
  "entry_lines indent k t =
     (let e = t_el0 t
      in [say (indent @ ''el0=%s pc=0x%x sp=0x%x spsr=0x%x'') [yes_no (el_ready e), num_arg (el_pc e), num_arg (el_sp e), num_arg (el_spsr e)],
          say (indent @ ''user_entry=%s status=%s'')
            [txt_arg (user_mode_entry_state k (Some t)), txt_arg (user_mode_status_name (user_mode_prepare k (Some t)))]])"

definition account_line :: "string \<Rightarrow> task \<Rightarrow> cstring" where
  "account_line indent t =
     (let a = t_accounting t
      in say (indent @ ''account switches=%d run_ticks=%d yields=%d preempt=%d wakeups=%d'')
           [num_arg (ac_switches a), num_arg (ac_run_ticks a), num_arg (ac_yields a), num_arg (ac_preemptions a), num_arg (ac_sleep_wakeups a)])"

definition sleep_lines :: "string \<Rightarrow> kernel \<Rightarrow> task \<Rightarrow> cstring list" where
  "sleep_lines indent k t =
     (if t_state t = TASK_SLEEPING
      then [say (indent @ ''sleep requested=%dms until_tick=%d now=%d'')
              [num_arg (t_sleep_requested_ms t), num_arg (t_sleep_until_tick t), num_arg (scheduler_ticks k)]]
      else [])"

text \<open>The lines about the space of a task, up to the switch check, and the line after it.\<close>

definition space_lines :: "task \<Rightarrow> address_space \<Rightarrow> cstring list" where
  "space_lines t s =
     [say ''    aspace=%s kind=%s root=0x%x shared=%s split=%s k_el0=%s u_el0=%s''
        [txt_arg (as_name s), txt_arg (address_space_kind_name (as_kind s)), num_arg (as_root_table s), yes_no (as_shared_kernel_map s),
         yes_no (as_permission_split_ready s), yes_no (as_kernel_el0_access s), yes_no (as_user_el0_access s)],
      say ''    user_tables=%s user_desc=%s user_map=%s''
        [yes_no (as_user_tables_ready s), yes_no (as_user_descriptors_ready s), yes_no (as_user_mappings_ready s)]] @
     (if as_kind s = ADDRESS_SPACE_USER
      then let u = t_user_status t in
           [say ''    user_image=%s entry=0x%x size=%d checksum=0x%x''
              [txt_arg (if as_user_image_ready s then ''ready'' else ''missing''), num_arg (as_user_image_entry s),
               num_arg (as_user_image_size s), num_arg (as_user_image_checksum s)],
            program_line ''    user_program=%s result=%s'' u,
            say ''    user_counts admit=%d enter=%d trap=%d recover=%d reject=%d exit=%d code=%d complete=%d fail=%d''
              [num_arg (us_admissions u), num_arg (us_el0_entries u), num_arg (us_traps u), num_arg (us_recoveries u), num_arg (us_rejects u),
               num_arg (us_exits u), num_arg (us_last_exit_code u), num_arg (us_completions u), num_arg (us_failures u)]]
      else []) @
     (if as_user_descriptor_count s \<noteq> 0
      then [say ''    user_desc_count=%d installed=%d''
              [num_arg (of_nat (as_user_descriptor_count s)), num_arg (of_nat (as_user_installed_descriptor_count s))]]
      else []) @
     [say ''    aspace_check=%s errors=%d'' [txt_arg (address_space_validation_state (Some s)), num_arg (of_nat (as_validation_errors s))],
      say ''    switch=%s active=0x%x target=0x%x ready=%s''
        [txt_arg (address_space_switch_state (Some s)), num_arg (as_active_root_table s), num_arg (as_target_root_table s),
         yes_no (as_switch_ready s)]]"

definition no_space_lines :: "cstring list" where
  "no_space_lines =
     [say ''    aspace=none kind=none root=0x0 shared=no split=no k_el0=no u_el0=no'' [],
      say ''    user_tables=no user_desc=no user_map=no'' [],
      say ''    aspace_check=errors errors=1'' [],
      say ''    switch=blocked active=0x0 target=0x0 ready=no'' [],
      say ''    ttbr0_stub=blocked'' []]"

definition dump_task :: "nat \<Rightarrow> cstring list \<times> kernel \<Rightarrow> cstring list \<times> kernel" where
  "dump_task i st =
     (case st of (out, k) \<Rightarrow>
        let t = tasks k ! i; k' = refresh_stub i k; t' = tasks k' ! i
        in (out @
            [say ''  task %d: %s state=%s'' [pid_arg (t_pid t), txt_arg (t_name t), txt_arg (scheduler_state_name (t_state t))],
             say ''    parent=%d'' [pid_arg (t_parent_pid t)],
             say ''    policy=%s runnable=%s'' [txt_arg (scheduler_policy_name (Some t)), yes_no (scheduler_task_is_runnable t)],
             account_line ''    '' t] @
            sleep_lines ''    '' k t @
            (case task_space k t of
               None \<Rightarrow> no_space_lines
             | Some s \<Rightarrow> space_lines t s @ [say ''    ttbr0_stub=%s'' [txt_arg (address_space_switch_stub_state (task_space k' t'))]]) @
            entry_lines ''    '' k' t' @ stack_lines ''    '' t', k'))"

definition scheduler_dump_tasks :: "kernel \<Rightarrow> cstring list \<times> kernel" where
  "scheduler_dump_tasks k =
     fold dump_task [0..<task_count k]
       ([say ''Scheduler state: ticks=%d tasks=%d current=%d''
           [num_arg (scheduler_ticks k), pid_arg (int (task_count k)), pid_arg (int (current_task k))]], k)"

definition scheduler_dump_task_summary :: "kernel \<Rightarrow> cstring list" where
  "scheduler_dump_task_summary k =
     say ''Task summary: ticks=%d tasks=%d current=%d''
       [num_arg (scheduler_ticks k), pid_arg (int (task_count k)), pid_arg (int (current_task k))] #
     map (\<lambda>i. let t = tasks k ! i in
       say ''  pid=%d name=%s state=%s run=%s kind=%s sw=%d ticks=%d''
         [pid_arg (t_pid t), txt_arg (t_name t), txt_arg (scheduler_state_name (t_state t)), yes_no (scheduler_task_is_runnable t),
          txt_arg (case task_space k t of Some s \<Rightarrow> address_space_kind_name (as_kind s) | None \<Rightarrow> ''none''),
          num_arg (ac_switches (t_accounting t)), num_arg (ac_run_ticks (t_accounting t))]) [0..<task_count k]"

definition scheduler_dump_task_status :: "int \<Rightarrow> kernel \<Rightarrow> cstring list" where
  "scheduler_dump_task_status pid k =
     (if \<not> valid_pid k pid then [say ''Task %d not found'' [pid_arg pid]]
      else
        let t = tasks k ! nat pid; u = t_user_status t
        in [say ''Task %d:'' [pid_arg (t_pid t)],
            say ''  name=%s state=%s policy=%s runnable=%s current=%s''
              [txt_arg (t_name t), txt_arg (scheduler_state_name (t_state t)), txt_arg (scheduler_policy_name (Some t)),
               yes_no (scheduler_task_is_runnable t), yes_no (pid = int (current_task k))]] @
           sleep_lines ''  '' k t @ [account_line ''  '' t] @
           (case task_space k t of
              Some s \<Rightarrow>
                [say ''  aspace=%s kind=%s root=0x%x target=0x%x''
                   [txt_arg (as_name s), txt_arg (address_space_kind_name (as_kind s)), num_arg (as_root_table s), num_arg (as_target_root_table s)],
                 say ''  switch=%s check=%s errors=%d''
                   [txt_arg (address_space_switch_state (Some s)), txt_arg (address_space_validation_state (Some s)),
                    num_arg (of_nat (as_validation_errors s))]]
            | None \<Rightarrow> [say ''  aspace=none kind=none root=0x0 target=0x0'' [], say ''  switch=blocked check=errors errors=1'' []]) @
           stack_lines ''  '' t @ entry_lines ''  '' k t @
           (if (case task_space k t of Some s \<Rightarrow> as_kind s = ADDRESS_SPACE_USER | None \<Rightarrow> False)
            then [program_line ''  user_program=%s result=%s'' u,
                  say ''  user_counts admit=%d enter=%d trap=%d recover=%d''
                    [num_arg (us_admissions u), num_arg (us_el0_entries u), num_arg (us_traps u), num_arg (us_recoveries u)],
                  say ''  user_counts reject=%d exit=%d code=%d complete=%d fail=%d''
                    [num_arg (us_rejects u), num_arg (us_exits u), num_arg (us_last_exit_code u), num_arg (us_completions u),
                     num_arg (us_failures u)]]
            else []))"

definition user_stat_lines :: "kernel \<Rightarrow> nat \<Rightarrow> cstring list" where
  "user_stat_lines k i =
     (let t = tasks k ! i; u = t_user_status t
      in if (case task_space k t of None \<Rightarrow> True | Some s \<Rightarrow> as_kind s \<noteq> ADDRESS_SPACE_USER) then []
         else [say ''  task %d: %s state=%s'' [pid_arg (t_pid t), txt_arg (t_name t), txt_arg (scheduler_state_name (t_state t))],
               program_line ''    program=%s result=%s'' u,
               say ''    admit=%d enter=%d trap=%d recover=%d''
                 [num_arg (us_admissions u), num_arg (us_el0_entries u), num_arg (us_traps u), num_arg (us_recoveries u)],
               say ''    reject=%d exit=%d code=%d complete=%d fail=%d''
                 [num_arg (us_rejects u), num_arg (us_exits u), num_arg (us_last_exit_code u), num_arg (us_completions u), num_arg (us_failures u)],
               say ''    entry=%s status=%s''
                 [txt_arg (user_mode_entry_state k (Some t)), txt_arg (user_mode_status_name (user_mode_prepare k (Some t)))]])"

definition scheduler_dump_user_stats :: "kernel \<Rightarrow> cstring list" where
  "scheduler_dump_user_stats k =
     (let lines = concat (map (user_stat_lines k) [0..<task_count k])
      in say ''User exception stats:'' [] # (if lines = [] then [say ''  no user tasks'' []] else lines))"

section \<open>Messages of the scheduler\<close>

definition create_thread_says :: "string \<Rightarrow> nat option \<Rightarrow> cstring list" where
  "create_thread_says name pid =
     (case pid of None \<Rightarrow> [say ''Failed to create task: %s'' [txt_arg name]]
      | Some p \<Rightarrow> [say ''Created kernel thread %d: %s'' [pid_arg (int p), txt_arg name]])"

text \<open>Whether the image is refused by the new address space of a user task.\<close>

definition image_refused :: "kernel_env \<Rightarrow> string \<Rightarrow> u8 list \<Rightarrow> saturn_exec_image \<Rightarrow> kernel \<Rightarrow> bool" where
  "image_refused env task_name bytes img k \<longleftrightarrow>
     (case address_space_init_user (arrays env) (Some task_name) (as_root_table (kernel_address_space k)) (user_tables_of k) of
        (space, tables) \<Rightarrow>
          \<not> fst (address_space_load_user_image (drop (ei_code img) bytes) (ei_code_size img) (drop (ei_data img) bytes)
                   (ei_data_size img) (ei_entry_offset img) space tables))"

definition create_user_task_says ::
    "kernel_env \<Rightarrow> string option \<Rightarrow> (u8 list \<times> u64) option \<Rightarrow> cstring option \<Rightarrow> kernel \<Rightarrow> cstring list" where
  "create_user_task_says env name file argument k =
     (case file of
        None \<Rightarrow> [say ''Failed to create user task: image file missing'' []]
      | Some (bytes, file_size) \<Rightarrow>
          (case saturn_exec_parse bytes file_size of
             None \<Rightarrow> [say ''Failed to create user task: invalid executable'' []]
           | Some img \<Rightarrow>
               let arg = (case argument of None \<Rightarrow> [] | Some a \<Rightarrow> a) in
               if length arg > TASK_USER_ARGUMENT_MAX then [say ''Failed to create user task: argument too long'' []]
               else if length (arg_words arg) > TASK_USER_ARG_MAX then [say ''Failed to create user task: too many arguments'' []]
               else if plan_user_task file argument = None then [say ''Failed to create user task: argument exceeds data page'' []]
               else if pick_slot k = None
               then [say ''Failed to create blocked user task: %s'' [arg_string (map_option bytes_of name)]]
               else if image_refused env (case name of Some n \<Rightarrow> n | None \<Rightarrow> ''user-demo'') bytes img k
               then [say ''Failed to create user task: invalid image'' []]
               else (case create_user_task_from_file env name file argument k of
                       (None, _) \<Rightarrow> []
                     | (Some pid, k) \<Rightarrow>
                         [say ''Created blocked user task %d: %s'' [pid_arg (int pid), txt_arg (t_name (tasks k ! pid))]])))"

definition unblock_user_task_says :: "int \<Rightarrow> kernel \<Rightarrow> cstring list" where
  "unblock_user_task_says pid k =
     (let t = tasks k ! nat pid; status = user_mode_prepare k (Some t) in
      if \<not> valid_pid k pid then [say ''Failed to unblock user task %d: bad pid'' [pid_arg pid]]
      else if t_state t \<noteq> TASK_BLOCKED
      then [say ''Failed to unblock user task %d: state=%s'' [pid_arg pid, txt_arg (scheduler_state_name (t_state t))]]
      else if status \<noteq> USER_MODE_READY
      then [say ''Failed to unblock user task %d: user_entry=%s'' [pid_arg pid, txt_arg (user_mode_status_name status)]]
      else
        (case map_option address_space_switch_stub (task_space k t) of
           Some (ADDRESS_SPACE_SWITCH_STUB_READY, _) \<Rightarrow>
             [say ''User task %d (%s) is ready; runnable=yes'' [pid_arg pid, txt_arg (t_name t)]]
         | stub \<Rightarrow>
             [say ''Failed to unblock user task %d: ttbr0_stub=%s''
                [pid_arg pid, txt_arg (address_space_switch_stub_state (map_option snd stub))]]))"

definition block_task_says :: "int \<Rightarrow> kernel \<Rightarrow> cstring list" where
  "block_task_says pid k =
     (let t = tasks k ! nat pid in
      [if \<not> valid_pid k pid then say ''Failed to block task %d: bad pid'' [pid_arg pid]
       else if pid = 0 then say ''Failed to block task %d: idle task is protected'' [pid_arg pid]
       else if pid = int (current_task k) then say ''Failed to block task %d: current task is protected'' [pid_arg pid]
       else if \<not> scheduler_task_is_kernel_task k t then say ''Failed to block task %d: only kernel tasks are supported'' [pid_arg pid]
       else if t_state t \<noteq> TASK_READY
       then say ''Failed to block task %d: state=%s'' [pid_arg pid, txt_arg (scheduler_state_name (t_state t))]
       else say ''Blocked task %d (%s)'' [pid_arg pid, txt_arg (t_name t)]])"

definition unblock_task_says :: "int \<Rightarrow> kernel \<Rightarrow> cstring list" where
  "unblock_task_says pid k =
     (let t = tasks k ! nat pid in
      [if \<not> valid_pid k pid then say ''Failed to unblock task %d: bad pid'' [pid_arg pid]
       else if pid = 0 then say ''Failed to unblock task %d: idle task is protected'' [pid_arg pid]
       else if \<not> scheduler_task_is_kernel_task k t then say ''Failed to unblock task %d: only kernel tasks are supported'' [pid_arg pid]
       else if t_state t \<noteq> TASK_BLOCKED
       then say ''Failed to unblock task %d: state=%s'' [pid_arg pid, txt_arg (scheduler_state_name (t_state t))]
       else say ''Unblocked task %d (%s)'' [pid_arg pid, txt_arg (t_name t)]])"

definition reap_task_says :: "int \<Rightarrow> kernel \<Rightarrow> cstring list" where
  "reap_task_says pid k =
     (let t = tasks k ! nat pid in
      [if \<not> valid_pid k pid then say ''Failed to reap task %d: bad pid'' [pid_arg pid]
       else if pid = 0 then say ''Failed to reap task %d: idle task is protected'' [pid_arg pid]
       else if pid = int (current_task k) then say ''Failed to reap task %d: current task is protected'' [pid_arg pid]
       else if t_state t \<noteq> TASK_ZOMBIE
       then say ''Failed to reap task %d: state=%s'' [pid_arg pid, txt_arg (scheduler_state_name (t_state t))]
       else say ''Reaped task %d (%s)'' [pid_arg pid, txt_arg (t_name t)]])"

text \<open>The loop prints a line for every task it reaps; reaping one leaves the others as they are.\<close>

definition reap_zombies_says :: "kernel \<Rightarrow> cstring list" where
  "reap_zombies_says k =
     (case filter (\<lambda>i. i \<noteq> current_task k \<and> t_state (tasks k ! i) = TASK_ZOMBIE) [1..<task_count k] of
        [] \<Rightarrow> [say ''No zombie tasks to reap'' []]
      | is \<Rightarrow> map (\<lambda>i. say ''Reaped task %d (%s)'' [pid_arg (int i), txt_arg (t_name (tasks k ! i))]) is)"

section \<open>Virtual memory\<close>

definition vm_dump_walk_address :: "vm_env \<Rightarrow> vm \<Rightarrow> heap \<Rightarrow> string \<Rightarrow> u64 \<Rightarrow> cstring list" where
  "vm_dump_walk_address env s h label address =
     (let l1 = arm64_mmu_l1_index address; l2 = arm64_mmu_l2_index address; l3 = arm64_mmu_l3_index address;
          l1_descriptor = vm_l1_table s ! unat l1
      in [say ''VM walk %s: va=0x%x region=%s l1=%d l2=%d l3=%d off=0x%x''
            [txt_arg label, num_arg address, txt_arg (vm_region_name_for_address env h address), num_arg l1, num_arg l2, num_arg l3,
             num_arg (address AND (ARM64_L2_BLOCK_SIZE - 1))],
          say ''  l1 desc=0x%x %s''
            [num_arg l1_descriptor, txt_arg (if arm64_mmu_desc_is_table l1_descriptor then ''table'' else ''invalid'')]] @
         (case find_l2_table l1 s of
            None \<Rightarrow> []
          | Some table \<Rightarrow>
              let l2_descriptor = vm_l2_tables s ! table ! unat l2
              in [say ''  l2 desc=0x%x %s''
                    [num_arg l2_descriptor,
                     txt_arg (if arm64_mmu_desc_is_l2_block l2_descriptor then ''block''
                              else if arm64_mmu_desc_is_table l2_descriptor then ''table'' else ''invalid'')]]) @
         (case translation_for_address env s address of
            None \<Rightarrow> [say ''  not mapped'' []]
          | Some (physical, descriptor, level) \<Rightarrow>
              [say (if level = 3 then ''  l3 desc=0x%x page perm=%s/%s'' else ''  final desc=0x%x block perm=%s/%s'')
                 [num_arg descriptor, txt_arg (arm64_mmu_desc_execute_state descriptor), txt_arg (arm64_mmu_desc_write_state descriptor)],
               say ''  pa=0x%x'' [num_arg physical]]))"

definition vm_dump_section_walk :: "vm_env \<Rightarrow> vm \<Rightarrow> heap \<Rightarrow> string \<Rightarrow> u64 \<Rightarrow> u64 \<Rightarrow> cstring list" where
  "vm_dump_section_walk env s h label start end' =
     (if start \<ge> end' then [say ''VM walk %s: empty section'' [txt_arg label]] else vm_dump_walk_address env s h label start)"

definition vm_dump_walk_examples :: "vm_env \<Rightarrow> vm \<Rightarrow> heap \<Rightarrow> cstring list" where
  "vm_dump_walk_examples env s h =
     vm_dump_walk_address env s h ''uart'' 0x09000000 @
     vm_dump_section_walk env s h ''text'' (text_start env) (text_end env) @
     vm_dump_section_walk env s h ''rodata'' (rodata_start env) (rodata_end env) @
     vm_dump_section_walk env s h ''data'' (data_start env) (data_end env) @
     vm_dump_section_walk env s h ''bss'' (bss_start env) (bss_end env) @
     (if heap_start h \<noteq> heap_end h then vm_dump_walk_address env s h ''heap'' (heap_start h) else []) @
     vm_dump_walk_address env s h ''stack-guard'' (scheduler_stack_guard_start (vm_kernel env) 0) @
     vm_dump_walk_address env s h ''stacks'' (scheduler_stack_start (vm_kernel env) 0) @
     vm_dump_walk_address env s h ''gap'' 0x20000000"

definition vm_dump_kernel_sections :: "vm_env \<Rightarrow> cstring list" where
  "vm_dump_kernel_sections env =
     [say ''VM kernel sections:'' [],
      say ''  text   0x%x-0x%x'' [num_arg (text_start env), num_arg (text_end env)],
      say ''  rodata 0x%x-0x%x'' [num_arg (rodata_start env), num_arg (rodata_end env)],
      say ''  data   0x%x-0x%x'' [num_arg (data_start env), num_arg (data_end env)],
      say ''  bss    0x%x-0x%x'' [num_arg (bss_start env), num_arg (bss_end env)]]"

definition vm_dump_range :: "string \<Rightarrow> u64 \<Rightarrow> u64 \<Rightarrow> cstring" where
  "vm_dump_range name start end' =
     (if start \<ge> end' then say ''  %s empty'' [txt_arg name] else say ''  %s 0x%x-0x%x'' [txt_arg name, num_arg start, num_arg end'])"

definition vm_dump_named_ranges :: "vm_env \<Rightarrow> heap \<Rightarrow> cstring list" where
  "vm_dump_named_ranges env h =
     (let guard_start = scheduler_stack_guard_start (vm_kernel env); guard_end = scheduler_stack_guard_end (vm_kernel env)
      in [say ''VM ranges:'' [],
          vm_dump_range ''kernel.text '' (text_start env) (text_end env),
          vm_dump_range ''kernel.ro   '' (rodata_start env) (rodata_end env),
          vm_dump_range ''kernel.bss  '' (bss_start env) (bss_end env),
          vm_dump_range ''heap        '' (heap_start h) (heap_end h),
          vm_dump_range ''stack0      '' (scheduler_stack_start (vm_kernel env) 0) (scheduler_stack_end (vm_kernel env) 0),
          vm_dump_range ''stack.area  '' (guard_start 0) (guard_end scheduler_stack_count),
          vm_dump_range ''guard.first '' (guard_start 0) (guard_end 0),
          vm_dump_range ''guard.last  '' (guard_start scheduler_stack_count) (guard_end scheduler_stack_count),
          vm_dump_range ''framebuffer '' 0x47000000 0x4712c000,
          vm_dump_range ''gic         '' 0x08000000 0x08020000,
          vm_dump_range ''uart        '' 0x09000000 0x09001000,
          vm_dump_range ''fw_cfg      '' 0x09020000 0x09021000,
          vm_dump_range ''virtio-mmio '' 0x0a000000 0x0a004000])"

definition vm_desired_permission :: "bool \<Rightarrow> string" where
  "vm_desired_permission want_xn = (if want_xn then ''xn'' else ''exec'')"

definition vm_desired_write_permission :: "bool \<Rightarrow> string" where
  "vm_desired_write_permission want_ro = (if want_ro then ''ro'' else ''rw'')"

definition vm_dump_permission_goal :: "vm_env \<Rightarrow> vm \<Rightarrow> vm_permission_goal \<Rightarrow> cstring option" where
  "vm_dump_permission_goal env s goal =
     (case vm_actual_execute_permission_for_range env s (goal_start goal) (goal_end goal) of
        None \<Rightarrow> None
      | Some actual \<Rightarrow>
          (case vm_actual_write_permission_for_range env s (goal_start goal) (goal_end goal) of
             None \<Rightarrow> None
           | Some actual_write \<Rightarrow>
               Some (say ''  %s exec=%s/%s %s write=%s/%s %s''
                 [txt_arg (goal_name goal), txt_arg (vm_desired_permission (goal_want_xn goal)), txt_arg actual,
                  txt_arg (execute_status (goal_want_xn goal) actual), txt_arg (vm_desired_write_permission (goal_want_ro goal)),
                  txt_arg actual_write, txt_arg (write_status (goal_want_ro goal) actual_write)])))"

definition vm_dump_stack_guard_state :: "vm_env \<Rightarrow> vm \<Rightarrow> cstring" where
  "vm_dump_stack_guard_state env s =
     (let state = vm_stack_guard_state env s
      in say ''  guards pages=%d actual=%s status=%s''
           [num_arg (vm_guard_pages s), txt_arg state, txt_arg (if state ! 0 = CHR ''u'' then ''enforced'' else ''broken'')])"

definition dumped_goals :: "vm_env \<Rightarrow> heap \<Rightarrow> vm_permission_goal list" where
  "dumped_goals env h =
     vm_permission_goals env @
     [\<lparr>goal_name = ''heap'', goal_start = heap_start h, goal_end = heap_end h, goal_want_xn = True, goal_want_ro = False\<rparr>,
      \<lparr>goal_name = ''stacks'', goal_start = scheduler_stack_region_start (vm_kernel env),
       goal_end = scheduler_stack_region_end (vm_kernel env), goal_want_xn = True, goal_want_ro = False\<rparr>]"

definition vm_dump_permission_goals :: "vm_env \<Rightarrow> vm \<Rightarrow> heap \<Rightarrow> cstring list option" where
  "vm_dump_permission_goals env s h =
     (let lines = map (vm_dump_permission_goal env s) (dumped_goals env h)
      in if None \<in> set lines then None
         else Some (say ''VM protect: granularity=4 KiB kernel pages'' [] # map the lines @ [vm_dump_stack_guard_state env s]))"

definition vm_dump_security_summary :: "cstring list" where
  "vm_dump_security_summary =
     [say ''VM security:'' [], say ''  code     exec/ro'' [], say ''  rodata   xn/ro'' [], say ''  data     xn/rw'' [],
      say ''  heap     xn/rw'' [], say ''  stacks   xn/rw'' [], say ''  guards   unmapped'' [], say ''  mmio     xn/rw'' []]"

definition vm_dump_region :: "vm \<Rightarrow> vm_region \<Rightarrow> cstring" where
  "vm_dump_region s r =
     (let end' = vmr_virtual_start r + vmr_size r;
          permission = arm64_mmu_desc_execute_state (arm64_mmu_l2_block_desc (vmr_physical_start r) (vmr_attributes r))
      in say ''  %s: va=0x%x-0x%x pa=0x%x type=%s perm=%s l1=%d l2=%d''
           [txt_arg (vmr_name r), num_arg (vmr_virtual_start r), num_arg end', num_arg (vmr_physical_start r), txt_arg (vmr_type r),
            txt_arg (if range_overlaps_kernel_l3_block s (vmr_virtual_start r) end' then ''mixed'' else permission),
            num_arg (arm64_mmu_l1_index (vmr_virtual_start r)), num_arg (arm64_mmu_l2_index (vmr_virtual_start r))])"

definition vm_dump_plan :: "vm_env \<Rightarrow> vm \<Rightarrow> mmu_regs \<Rightarrow> heap \<Rightarrow> cstring list option" where
  "vm_dump_plan env s regs h =
     (case vm_dump_permission_goals env s h of
        None \<Rightarrow> None
      | Some goals \<Rightarrow>
          Some ([say ''VM state : %s'' [txt_arg (vm_state s regs)],
                 say (if vm_mmu_enabled regs then ''VM mode  : identity map active''
                      else if vm_enable_attempted s then ''VM mode  : enable attempted, MMU still disabled''
                      else ''VM mode  : identity tables built, MMU not enabled'') [],
                 say ''VM table : %s root=0x%x count=%d''
                   [txt_arg (vm_table_state s), num_arg (vm_root_table env), num_arg (vm_table_count s)],
                 say ''VM check : %s blocks=%d pages=%d guards=%d errors=%d''
                   [txt_arg (vm_validation_state s), num_arg (vm_blocks_validated s), num_arg (vm_pages_validated s),
                    num_arg (vm_guard_pages_validated s), num_arg (vm_validation_error_count s)],
                 say ''VM map   : blocks=%d pages=%d guards=%d bytes=%d''
                   [num_arg (vm_blocks_mapped s), num_arg (vm_pages_mapped s), num_arg (vm_guard_pages s), num_arg (vm_bytes_mapped s)],
                 say ''VM perms : exec_blocks=%d exec_pages=%d xn_blocks=%d xn_pages=%d''
                   [num_arg (vm_exec_blocks s), num_arg (vm_exec_pages s), num_arg (vm_xn_blocks s), num_arg (vm_xn_pages s)],
                 say ''VM gran  : 4 KiB kernel pages, 2 MiB blocks elsewhere'' [],
                 say ''VM attrs : normal index=%d device index=%d'' [num_arg 0, num_arg 1],
                 say ''VM regs  : mair=0x%x tcr=0x%x ttbr0=0x%x'' [num_arg (mair_el1 regs), num_arg (tcr_el1 regs), num_arg (ttbr0_el1 regs)],
                 say ''VM sctlr : 0x%x'' [num_arg (sctlr_el1 regs)]] @
                vm_dump_security_summary @ vm_dump_named_ranges env h @ vm_dump_kernel_sections env @ goals @
                say ''VM regions: %d'' [num_arg (of_nat vm_region_count)] # map (vm_dump_region s) vm_regions))"

end
