(* ===== verification/Shell.thy ===== *)
theory Shell
  imports ShellLineProps Reports FramebufferProps Programs Traps
begin

text \<open>
  The commands of the shell: \<open>shell_execute\<close> of kernel/shell/shell.c over the components it calls. A
  command returns the texts it prints, those of the reports it asks for included, and the new state.
\<close>

section \<open>State and output\<close>

record 'd shell_state =
  sh_sys :: "'d system"
  sh_heap :: heap
  sh_fb :: framebuffer
  sh_vm :: vm
  sh_timer :: timer

text \<open>The environment of the system calls, with the addresses that the reports on memory print.\<close>

record 'd shell_env = "'d system_env" +
  sv_vm :: vm_env

abbreviation upd_vfs :: "'d vfs \<Rightarrow> 'd shell_state \<Rightarrow> 'd shell_state" where
  "upd_vfs v st \<equiv> st\<lparr>sh_sys := (sh_sys st)\<lparr>sy_vfs := v\<rparr>\<rparr>"

abbreviation upd_kernel :: "kernel \<Rightarrow> 'd shell_state \<Rightarrow> 'd shell_state" where
  "upd_kernel k st \<equiv> st\<lparr>sh_sys := (sh_sys st)\<lparr>sy_kernel := k\<rparr>\<rparr>"

abbreviation upd_sfs :: "'d sfs \<Rightarrow> 'd shell_state \<Rightarrow> 'd shell_state" where
  "upd_sfs f st \<equiv> upd_vfs ((sy_vfs (sh_sys st))\<lparr>vfs_sfs := f\<rparr>) st"

type_synonym 'd shell_result = "(cstring list \<times> 'd shell_state) option"

section \<open>Help\<close>

definition help_hint :: cstring where
  "help_hint = (bytes_of ''Type '' @ [0x27] @ bytes_of ''help'' @ [0x27] @ bytes_of '' for commands'' @ [0x0a])"

definition pad_name :: "cstring \<Rightarrow> cstring" where
  "pad_name name = name @ replicate (8 - length name) 0x20"

definition shell_help :: "cstring list" where
  "shell_help =
     say ''Commands:'' [] #
     map (\<lambda>c. (bytes_of ''  '' @ pad_name (sc_name c) @ [0x20] @ sc_description c @ [0x0a])) shell_commands @
     say ''Aliases:'' [] #
     map (\<lambda>a. (bytes_of ''  '' @ pad_name (al_name a) @ [0x20] @ al_description a @ bytes_of '' -> '' @ al_target a @ [0x0a])) shell_aliases"

definition shell_command_help :: "cstring \<Rightarrow> cstring list" where
  "shell_command_help name =
     (let found = find_shell_alias name;
          name = (case found of Some a \<Rightarrow> al_target a | None \<Rightarrow> name);
          alias_line = (case found of Some a \<Rightarrow> [say ''Alias: %s -> %s'' [str_arg (al_name a), str_arg (al_target a)]] | None \<Rightarrow> [])
      in alias_line @
         (case find_shell_command name of
            None \<Rightarrow> [say ''No help for: %s'' [str_arg name], help_hint]
          | Some c \<Rightarrow>
              [say ''Command: %s'' [str_arg (sc_name c)], say ''Usage: %s'' [str_arg (sc_usage c)], say ''About: %s'' [str_arg (sc_description c)]] @
              (case sc_example c of Some ex \<Rightarrow> [say ''Example: %s'' [str_arg ex]] | None \<Rightarrow> [])))"

definition shell_usage :: "cstring \<Rightarrow> cstring list" where
  "shell_usage name = (case find_shell_command name of Some c \<Rightarrow> [say ''Usage: %s'' [str_arg (sc_usage c)]] | None \<Rightarrow> [])"

definition shell_framebuffer_status :: "framebuffer \<Rightarrow> cstring list" where
  "shell_framebuffer_status fb =
     [say ''Framebuffer:'' [],
      say ''  state   : %s'' [str_arg (bytes_of (if framebuffer_is_ready fb then ''ready'' else ''offline''))],
      say ''  status  : %d (%s)'' [arg_int (word_of_int (framebuffer_status fb)), str_arg (bytes_of (framebuffer_status_name fb))],
      say ''  base    : 0x%x'' [arg_int (ucast FRAMEBUFFER_BASE)],
      say ''  mode    : %dx%d %s'' [arg_int FRAMEBUFFER_WIDTH, arg_int FRAMEBUFFER_HEIGHT, str_arg (bytes_of ''XRGB8888'')],
      say ''  pitch   : %d bytes'' [arg_int (FRAMEBUFFER_WIDTH * 4)],
      say ''  console : %d cols x %d rows'' [arg_int framebuffer_console_columns, arg_int framebuffer_console_rows]]"

section \<open>Commands with an argument\<close>

text \<open>A command that takes a number, and prints its help when there is none.\<close>

definition with_number :: "cstring \<Rightarrow> cstring \<Rightarrow> 'd shell_state \<Rightarrow> (u64 \<Rightarrow> 'd shell_result) \<Rightarrow> 'd shell_result" where
  "with_number name arg st f =
     (if arg = [] then Some (shell_command_help name, st)
      else case parse_number arg of None \<Rightarrow> Some (shell_command_help name, st) | Some n \<Rightarrow> f n)"

definition shell_sleep :: "('d system \<Rightarrow> 'd system) \<Rightarrow> cstring \<Rightarrow> 'd shell_state \<Rightarrow> 'd shell_result" where
  "shell_sleep resume arg st =
     with_number (bytes_of ''sleep'') arg st (\<lambda>ms.
       if ms > 10000
       then Some ([say ''Sleep too long: %d ms'' [arg_int (ucast ms)], say ''Max sleep: %d ms'' [arg_int 10000]], st)
       else case switched resume (scheduler_sleep_ms (sy_interval (sh_sys st)) ms) (sh_sys st) of
              None \<Rightarrow> None
            | Some s \<Rightarrow> Some ([say ''Sleeping %d ms (blocked)'' [arg_int (ucast ms)], say ''Sleep done'' []], st\<lparr>sh_sys := s\<rparr>))"

definition shell_yield :: "('d system \<Rightarrow> 'd system) \<Rightarrow> 'd shell_state \<Rightarrow> 'd shell_result" where
  "shell_yield resume st =
     (case switched resume scheduler_yield (sh_sys st) of
        None \<Rightarrow> None
      | Some s \<Rightarrow> Some ([say ''Yielding scheduler task'' [], say ''Scheduler task resumed'' []], st\<lparr>sh_sys := s\<rparr>))"

definition shell_block :: "cstring \<Rightarrow> 'd shell_state \<Rightarrow> 'd shell_result" where
  "shell_block arg st =
     with_number (bytes_of ''block'') arg st (\<lambda>pid.
       Some (block_task_says (c_int pid) (sy_kernel (sh_sys st)), upd_kernel (snd (scheduler_block_task (c_int pid) (sy_kernel (sh_sys st)))) st))"

definition shell_unblock :: "cstring \<Rightarrow> 'd shell_state \<Rightarrow> 'd shell_result" where
  "shell_unblock arg st =
     with_number (bytes_of ''unblock'') arg st (\<lambda>pid.
       Some (unblock_task_says (c_int pid) (sy_kernel (sh_sys st)), upd_kernel (snd (scheduler_unblock_task (c_int pid) (sy_kernel (sh_sys st)))) st))"

definition shell_reap :: "cstring \<Rightarrow> 'd shell_state \<Rightarrow> 'd shell_result" where
  "shell_reap arg st =
     (if arg = []
      then Some (reap_zombies_says (sy_kernel (sh_sys st)), upd_kernel (snd (scheduler_reap_zombies (sy_kernel (sh_sys st)))) st)
      else case parse_number arg of
             Some pid \<Rightarrow>
               Some (reap_task_says (c_int pid) (sy_kernel (sh_sys st)), upd_kernel (snd (scheduler_reap_zombie_task (c_int pid) (sy_kernel (sh_sys st)))) st)
           | None \<Rightarrow> Some (shell_command_help (bytes_of ''reap''), st))"

definition shell_syscall :: "'d system_env \<Rightarrow> ('d system \<Rightarrow> 'd system) \<Rightarrow> cstring \<Rightarrow> 'd shell_state \<Rightarrow> 'd shell_result" where
  "shell_syscall env resume arg st =
     (if arg = [] then Some (syscall_dump_stats (sy_stats (sh_sys st)), st)
      else case parse_number arg of
             Some number \<Rightarrow>
               (case syscall_dispatch env resume number 0 0 0 0 (sh_sys st) of
                  None \<Rightarrow> None
                | Some (result, s) \<Rightarrow>
                    Some ([say ''syscall %d (%s) -> %d''
                             [arg_int (ucast number), str_arg (bytes_of (syscall_name number)), arg_int (word_of_int result)]],
                          st\<lparr>sh_sys := s\<rparr>))
           | None \<Rightarrow> Some (shell_command_help (bytes_of ''syscall''), st))"

text \<open>
  The loop of cat: chunks of 64 bytes until one is short. The result is what was printed, and whether the
  last read succeeded; a read that fails prints a message and ends the loop.
\<close>

partial_function (option) cat_loop ::
    "'d virtio_hw \<Rightarrow> cstring \<Rightarrow> u64 \<Rightarrow> u8 list \<Rightarrow> 'd vfs \<Rightarrow> (bool \<times> u8 list \<times> 'd vfs) option" where
  "cat_loop hw path offset printed v =
     (case vfs_read hw path offset 64 v of
        (None, v) \<Rightarrow> Some (False, printed, v)
      | (Some bytes, v) \<Rightarrow>
          if length bytes = 64 then cat_loop hw path (offset + 64) (printed @ bytes) v
          else Some (True, printed @ bytes, v))"

text \<open>
  Behind the loop, \<open>bytes[(count - 1) & 63]\<close> is the last byte printed: of the last chunk, or of the full
  chunk before it when the last one is empty.
\<close>

definition shell_cat :: "'d virtio_hw \<Rightarrow> cstring \<Rightarrow> 'd shell_state \<Rightarrow> 'd shell_result" where
  "shell_cat hw arg st =
     (if arg = [] then Some (shell_command_help (bytes_of ''cat''), st)
      else case cat_loop hw arg 0 [] (sy_vfs (sh_sys st)) of
             None \<Rightarrow> None
           | Some (ok, printed, v) \<Rightarrow>
               Some ([printed] @
                     (if \<not> ok then [say ''File not found: %s'' [str_arg arg]]
                      else if printed = [] \<or> last printed \<noteq> 0x0a then [[0x0a]] else []),
                     upd_vfs v st))"

definition launch_program :: "'d system_env \<Rightarrow> cstring \<Rightarrow> cstring option \<Rightarrow> 'd shell_state \<Rightarrow> 'd shell_result" where
  "launch_program env path argument st =
     (let k = sy_kernel (sh_sys st);
          says = create_user_task_says (se_kernel env) (Some ''user-program'') (fst (vfs_file_data (se_disk env) path (sy_vfs (sh_sys st)))) argument k
      in case scheduler_create_user_task_from_image (se_disk env) (se_kernel env) (Some ''user-program'') path argument
                (sy_vfs (sh_sys st)) k of
           (pid, v, k) \<Rightarrow>
             let st = upd_kernel k (upd_vfs v st)
             in case pid of
                  None \<Rightarrow> Some (says, st)
                | Some pid \<Rightarrow>
                    (case scheduler_unblock_user_task (se_kernel env) (int pid) k of
                       (ok, k') \<Rightarrow>
                         Some (says @ unblock_user_task_says (int pid) k @
                               (if ok then [say ''Launched user program as task %d'' [arg_int (of_nat pid)]] else []),
                               upd_kernel k' st)))"

definition shell_run :: "'d system_env \<Rightarrow> cstring \<Rightarrow> 'd shell_state \<Rightarrow> 'd shell_result" where
  "shell_run env arg st =
     (let arg = (if arg = [] then bytes_of ''/bin/user-demo.sx'' else arg);
          path = take (VFS_MAX_PATH - 1) (takeWhile (\<lambda>c. c \<noteq> 0x20) arg);
          rest = drop (length path) arg
      in if rest \<noteq> [] \<and> hd rest \<noteq> 0x20 then Some ([say ''Program path is too long'' []], st)
         else launch_program env path (if rest = [] then None else Some (skip_spaces (tl rest))) st)"

definition shell_mkdir :: "cstring \<Rightarrow> 'd shell_state \<Rightarrow> 'd shell_result" where
  "shell_mkdir arg st =
     (if arg = [] then Some (shell_command_help (bytes_of ''mkdir''), st)
      else case vfs_mkdir arg (sy_vfs (sh_sys st)) of
             (ok, v) \<Rightarrow>
               Some ([if ok then say ''Created directory: %s'' [str_arg arg] else say ''Failed to create directory: %s'' [str_arg arg]],
                     upd_vfs v st))"

text \<open>Path and text of write and pwrite. The path is cut at the size of the buffer, and the rest is text.\<close>

definition path_and_text :: "nat \<Rightarrow> cstring \<Rightarrow> cstring \<times> cstring" where
  "path_and_text max_path arg =
     (let path = take (max_path - 1) (takeWhile (\<lambda>c. c \<noteq> 0x20) arg)
      in (path, skip_spaces (drop (length path) arg)))"

definition shell_write :: "'d virtio_hw \<Rightarrow> cstring \<Rightarrow> 'd shell_state \<Rightarrow> 'd shell_result" where
  "shell_write hw arg st =
     (case path_and_text VFS_MAX_PATH arg of
        (path, str) \<Rightarrow>
          if path = [] \<or> str = [] then Some (shell_command_help (bytes_of ''write''), st)
          else
            let v = snd (vfs_create hw path [] 0 (sy_vfs (sh_sys st)))
            in case vfs_write hw path 0 str (of_nat (length str)) v of
                 (written, v) \<Rightarrow>
                   if written < 0 then Some ([say ''Failed to write file: %s'' [str_arg path]], upd_vfs v st)
                   else
                     let v = snd (vfs_truncate hw path (word_of_int written) v)
                     in Some ([say ''Wrote %d bytes: %s'' [arg_int (word_of_int written), str_arg path]], upd_vfs v st))"

definition shell_disk :: "'d virtio_hw \<Rightarrow> cstring \<Rightarrow> 'd shell_state \<Rightarrow> 'd shell_result" where
  "shell_disk hw arg st =
     (if arg = [] then Some (block_dump_stats (sfs_disk (vfs_sfs (sy_vfs (sh_sys st)))), st)
      else if cstr_equals arg (bytes_of ''test'')
      then (let f = vfs_sfs (sy_vfs (sh_sys st))
            in case block_self_test hw (sfs_disk f) of
                 (ok, b) \<Rightarrow>
                   Some (say ''Block self-test: %s'' [str_arg (bytes_of (if ok then ''passed'' else ''failed''))] # block_dump_stats b,
                         upd_sfs (f\<lparr>sfs_disk := b\<rparr>) st))
      else Some (shell_command_help (bytes_of ''disk''), st))"

definition shell_pfs :: "'d virtio_hw \<Rightarrow> cstring \<Rightarrow> 'd shell_state \<Rightarrow> 'd shell_result" where
  "shell_pfs hw arg st =
     (if arg = [] then Some (sfs_dump (vfs_sfs (sy_vfs (sh_sys st))), st)
      else if cstr_equals arg (bytes_of ''format'')
      then (case sfs_format hw (vfs_sfs (sy_vfs (sh_sys st))) of
              (ok, f) \<Rightarrow>
                Some ([say ''SaturnFS format: %s'' [str_arg (bytes_of (if ok then ''complete'' else ''failed''))]], upd_sfs f st))
      else Some (shell_command_help (bytes_of ''pfs''), st))"

definition shell_pwrite :: "'d virtio_hw \<Rightarrow> cstring \<Rightarrow> 'd shell_state \<Rightarrow> 'd shell_result" where
  "shell_pwrite hw arg st =
     (case path_and_text SFS_MAX_PATH arg of
        (path, str) \<Rightarrow>
          if path = [] \<or> str = [] then Some (shell_command_help (bytes_of ''pwrite''), st)
          else case sfs_write_file hw path str (of_nat (length str)) (vfs_sfs (sy_vfs (sh_sys st))) of
                 (ok, f) \<Rightarrow>
                   Some ([say ''Persistent write: %s'' [str_arg (bytes_of (if ok then ''complete'' else ''failed''))]], upd_sfs f st))"

definition shell_pcat :: "'d virtio_hw \<Rightarrow> cstring \<Rightarrow> 'd shell_state \<Rightarrow> 'd shell_result" where
  "shell_pcat hw arg st =
     (if arg = [] then Some (shell_command_help (bytes_of ''pcat''), st)
      else case sfs_read_file hw arg SFS_MAX_FILE_SIZE (vfs_sfs (sy_vfs (sh_sys st))) of
             (None, f) \<Rightarrow> Some ([say ''Persistent file not found or corrupt: %s'' [str_arg arg]], upd_sfs f st)
           | (Some bytes, f) \<Rightarrow> Some ([bytes, [0x0a]], upd_sfs f st))"

section \<open>Dispatch\<close>

definition takes_argument :: "cstring \<Rightarrow> bool" where
  "takes_argument name \<longleftrightarrow>
     name \<in> set (map bytes_of [''help'', ''task'', ''sleep'', ''block'', ''unblock'', ''reap'', ''syscall'', ''cat'', ''run'', ''mkdir'',
       ''write'', ''disk'', ''pfs'', ''pwrite'', ''pcat'', ''vmwalk''])"

definition selected_command :: "cstring \<Rightarrow> shell_command option" where
  "selected_command effective =
     (case find_shell_command effective of Some c \<Rightarrow> Some c | None \<Rightarrow> find_shell_command_token effective)"

definition shell_execute ::
    "'d shell_env \<Rightarrow> ('d system \<Rightarrow> 'd system) \<Rightarrow> cstring \<Rightarrow> 'd shell_state \<Rightarrow> 'd shell_result" where
  "shell_execute env resume command st =
     (let effective = command_alias_target command;
          arg = command_arg command;
          selected = selected_command effective;
          is_cmd = (\<lambda>name. command_equals effective (bytes_of name));
          is_word = (\<lambda>name. cstr_equals effective (bytes_of name));
          hw = se_disk env; sys_env = system_env.truncate env; k = sy_kernel (sh_sys st)
      in if command = [] then Some ([], st)
         else if arg \<noteq> [] \<and> (case selected of None \<Rightarrow> False | Some c \<Rightarrow> \<not> takes_argument (sc_name c))
         then Some (say ''Unexpected argument: %s'' [str_arg arg] # shell_usage (sc_name (the selected)), st)
         else if is_cmd ''help'' then Some (if arg = [] then shell_help else shell_command_help arg, st)
         else if is_word ''version'' then Some ([say ''SaturnOS 0.6.95 (Memory)'' []], st)
         else if is_cmd ''task''
         then Some (if arg = [] then scheduler_dump_task_summary k
                    else case parse_number arg of
                           Some pid \<Rightarrow> scheduler_dump_task_status (c_int pid) k
                         | None \<Rightarrow> shell_command_help (bytes_of ''task''), st)
         else if is_word ''tasks'' then (case scheduler_dump_tasks k of (out, k) \<Rightarrow> Some (out, upd_kernel k st))
         else if is_word ''mem'' then Some (pmm_dump_stats (sv_vm env) (sy_pmm (sh_sys st)), st)
         else if is_word ''heap'' then map_option (\<lambda>out. (out, st)) (heap_dump_stats (sh_heap st))
         else if is_word ''heaptest''
         then (case heap_self_test (sh_heap st) (sy_pmm (sh_sys st)) of
                 None \<Rightarrow> None
               | Some (out, h, p) \<Rightarrow> Some (out, st\<lparr>sh_heap := h, sh_sys := (sh_sys st)\<lparr>sy_pmm := p\<rparr>\<rparr>))
         else if is_word ''vm'' then map_option (\<lambda>out. (out, st)) (vm_dump_plan (sv_vm env) (sh_vm st) (mmu k) (sh_heap st))
         else if is_cmd ''vmwalk''
         then Some (if arg = [] then vm_dump_walk_examples (sv_vm env) (sh_vm st) (sh_heap st)
                    else case parse_number arg of
                           Some address \<Rightarrow> vm_dump_walk_address (sv_vm env) (sh_vm st) (sh_heap st) ''arg'' address
                         | None \<Rightarrow> shell_command_help (bytes_of ''vmwalk''), st)
         else if is_word ''ticks'' then Some ([say ''scheduler ticks=%d timer irqs=%d'' [num_arg (scheduler_get_ticks k), num_arg (timer_get_irq_ticks (sh_timer st))]], st)
         else if is_word ''yield'' then shell_yield resume st
         else if is_cmd ''sleep'' then shell_sleep resume arg st
         else if is_cmd ''block'' then shell_block arg st
         else if is_cmd ''unblock'' then shell_unblock arg st
         else if is_cmd ''reap'' then shell_reap arg st
         else if is_cmd ''syscall'' then shell_syscall sys_env resume arg st
         else if is_word ''ls'' then Some (vfs_dump_files (sy_vfs (sh_sys st)), st)
         else if is_cmd ''cat'' then shell_cat hw arg st
         else if is_cmd ''run'' then shell_run sys_env arg st
         else if is_cmd ''mkdir'' then shell_mkdir arg st
         else if is_cmd ''write'' then shell_write hw arg st
         else if is_cmd ''disk'' then shell_disk hw arg st
         else if is_cmd ''pfs'' then shell_pfs hw arg st
         else if is_cmd ''pwrite'' then shell_pwrite hw arg st
         else if is_cmd ''pcat'' then shell_pcat hw arg st
         else if is_word ''fb'' then Some (shell_framebuffer_status (sh_fb st), st)
         else if is_word ''user'' then Some (scheduler_dump_user_stats k, st)
         else if is_word ''clear'' then Some ([], st\<lparr>sh_fb := framebuffer_console_init (sh_fb st)\<rparr>)
         else if is_word ''panic'' then None
         else if is_word ''fault'' then None
         else if arg \<noteq> [] \<and> selected \<noteq> None
         then Some (say ''Unexpected argument: %s'' [str_arg arg] # shell_usage effective, st)
         else Some ([say ''Unknown command: %s'' [str_arg command],
                     help_hint], st))"

end
