(* ===== verification/ShellProps.thy ===== *)
theory ShellProps
  imports Shell SyscallProps VmProps
begin

text \<open>
  The shell's commands over the components they call: what is written with write is what cat prints, and
  the commands keep the invariants of the scheduler and of the file system.
\<close>

section \<open>Choosing a command\<close>

lemma bytes_simps: "bytes_of [] = []" "bytes_of (c # s) = of_char c # bytes_of s"
  by (simp_all add: bytes_of_def)

lemmas shell_tables = shell_commands_def shell_aliases_def shell_command.make_def shell_alias.make_def

lemma execute_write:
  assumes "rest \<noteq> []" "hd rest \<noteq> 0x20"
  shows "shell_execute env resume (bytes_of ''write '' @ rest) st = shell_write (se_disk env) rest st"
proof -
  obtain c cs where r: "rest = c # cs" "c \<noteq> 0x20" using assms by (cases rest) auto
  have t: "command_alias_target (bytes_of ''write '' @ rest) = bytes_of ''write '' @ rest"
    by (simp add: command_alias_target_def shell_tables bytes_simps r)
  have a: "command_arg (bytes_of ''write '' @ rest) = rest"
    using r by (simp add: command_arg_def skip_spaces_def bytes_simps)
  have s: "selected_command (bytes_of ''write '' @ rest) \<noteq> None \<and> sc_name (the (selected_command (bytes_of ''write '' @ rest))) = bytes_of ''write''"
    by (simp add: selected_command_def find_shell_command_def find_shell_command_token_def shell_tables bytes_simps r)
  show ?thesis
    unfolding shell_execute_def Let_def t a using s r
    by (auto simp: takes_argument_def bytes_simps)
qed

lemma execute_cat:
  assumes "rest \<noteq> []" "hd rest \<noteq> 0x20"
  shows "shell_execute env resume (bytes_of ''cat '' @ rest) st = shell_cat (se_disk env) rest st"
proof -
  obtain c cs where r: "rest = c # cs" "c \<noteq> 0x20" using assms by (cases rest) auto
  have t: "command_alias_target (bytes_of ''cat '' @ rest) = bytes_of ''cat '' @ rest"
    by (simp add: command_alias_target_def shell_tables bytes_simps r)
  have a: "command_arg (bytes_of ''cat '' @ rest) = rest"
    using r by (simp add: command_arg_def skip_spaces_def bytes_simps)
  have s: "selected_command (bytes_of ''cat '' @ rest) \<noteq> None \<and> sc_name (the (selected_command (bytes_of ''cat '' @ rest))) = bytes_of ''cat''"
    by (simp add: selected_command_def find_shell_command_def find_shell_command_token_def shell_tables bytes_simps r)
  show ?thesis
    unfolding shell_execute_def Let_def t a using s r
    by (auto simp: takes_argument_def bytes_simps)
qed

section \<open>Files of the RAM file system\<close>

lemma ram_truncate_to:
  assumes inv: "vfs_inv v" and path: "vfs_disk_path path = None" "ram_files v path = Some c" and "n \<le> length c"
    and t: "vfs_truncate hw path (of_nat n) v = (r, v')"
  shows "r \<and> vfs_inv v' \<and> ram_files v' = (ram_files v)(path \<mapsto> take n c)"
proof -
  from path(2) obtain i where f: "vfs_find path v = Some i" "rn_kind (nodes v ! i) = RAMFS_FILE"
    and c: "c = take (unat (rn_size (nodes v ! i))) (rn_data (nodes v ! i))"
    by (auto simp: ram_files_def split: option.splits if_splits)
  have size: "length (rn_data (nodes v ! i)) = 4096" "unat (rn_size (nodes v ! i)) \<le> 4096"
    using vfs_found_ok [OF inv f(1)] by (auto simp: node_ok_def)
  then have n: "unat (of_nat n :: u64) = n" "n \<le> unat (rn_size (nodes v ! i))" using assms(4) c by (auto simp: unat_of_nat take_bit_nat_eq_self)
  then have "\<not> (of_nat n :: u64) > rn_size (nodes v ! i)" "\<not> (of_nat n :: u64) > 4096" using size by (simp_all add: word_less_nat_alt)
  then have "vfs_truncate hw path (of_nat n) v = (True, v\<lparr>nodes := (nodes v)[i := (nodes v ! i)\<lparr>rn_data := rn_data (nodes v ! i), rn_size := of_nat n\<rparr>]\<rparr>)"
    using f path(1) by (simp add: vfs_truncate_def Let_def)
  moreover from this have "vfs_inv v'" using vfs_truncate_inv [OF inv, of hw path "of_nat n"] t by simp
  ultimately show ?thesis
    using ram_update_files(2) [OF inv f refl, where data = "rn_data (nodes v ! i)" and sz = "of_nat n"] t c n by (auto simp: min_def)
qed

lemma ram_read_chunk:
  assumes inv: "vfs_inv v" and path: "vfs_disk_path path = None" "ram_files v path = Some c" and off: "off \<le> length c"
  shows "vfs_read hw path (of_nat off) 64 v = (Some (take 64 (drop off c)), v)"
proof -
  from path(2) obtain i where f: "vfs_find path v = Some i" "rn_kind (nodes v ! i) = RAMFS_FILE"
    and c: "c = take (unat (rn_size (nodes v ! i))) (rn_data (nodes v ! i))"
    by (auto simp: ram_files_def split: option.splits if_splits)
  let ?sz = "rn_size (nodes v ! i)"
  have size: "length (rn_data (nodes v ! i)) = 4096" "unat ?sz \<le> 4096"
    using vfs_found_ok [OF inv f(1)] by (auto simp: node_ok_def)
  then have o: "unat (of_nat off :: u64) = off" "off \<le> unat ?sz" using off c by (auto simp: unat_of_nat take_bit_nat_eq_self)
  then have le: "(of_nat off :: u64) \<le> ?sz" by (simp add: word_le_nat_alt)
  then have d: "unat (?sz - of_nat off) = unat ?sz - off" using o by (simp add: unat_diff_le)
  then have n: "unat (if 64 > ?sz - of_nat off then ?sz - of_nat off else 64) = min 64 (unat ?sz - off)"
    by (simp add: word_less_nat_alt)
  have "slice off (min 64 (unat ?sz - off)) (rn_data (nodes v ! i)) = take 64 (drop off c)"
    using c by (simp add: slice_def drop_take)
  then show ?thesis using f path(1) le n o(1) by (simp add: vfs_read_def Let_def not_less)
qed

text \<open>cat goes through a file in chunks and comes to its end.\<close>

lemma cat_loop_ram:
  assumes inv: "vfs_inv v" and path: "vfs_disk_path path = None" "ram_files v path = Some c" and "off \<le> length c"
  shows "cat_loop hw path (of_nat off) printed v = Some (True, printed @ drop off c, v)"
  using assms(4)
proof (induction "length c - off" arbitrary: off printed rule: less_induct)
  case less
  note read = ram_read_chunk [OF inv path less.prems, of hw]
  show ?case
  proof (cases "off + 64 \<le> length c")
    case True
    have "cat_loop hw path (of_nat off) printed v = cat_loop hw path (of_nat (off + 64)) (printed @ take 64 (drop off c)) v"
      using True by (subst cat_loop.simps) (simp add: read)
    also have "\<dots> = Some (True, (printed @ take 64 (drop off c)) @ drop (off + 64) c, v)"
      using True by (intro less.hyps) simp_all
    also have "(printed @ take 64 (drop off c)) @ drop (off + 64) c = printed @ drop off c"
      by (simp add: add.commute [of off] drop_drop [symmetric] del: drop_drop)
    finally show ?thesis .
  next
    case False
    then have "length (take 64 (drop off c)) \<noteq> 64" "take 64 (drop off c) = drop off c" using less.prems by simp_all
    then show ?thesis by (subst cat_loop.simps) (simp add: read)
  qed
qed

definition writable_path :: "cstring \<Rightarrow> 'd vfs \<Rightarrow> bool" where
  "writable_path path v \<longleftrightarrow>
     cstr_ok path \<and> 0x20 \<notin> set path \<and> vfs_path_valid path \<and> vfs_disk_path path = None \<and>
     (ram_files v path \<noteq> None \<or> ram_accepts path [] v)"

lemma shell_write_ram:
  assumes inv: "vfs_inv (sy_vfs (sh_sys st))" and path: "writable_path path (sy_vfs (sh_sys st))"
    and str: "str \<noteq> []" "hd str \<noteq> 0x20" "length str \<le> 4096"
  shows "\<exists>v. shell_write hw (path @ 0x20 # str) st =
      Some ([say ''Wrote %d bytes: %s'' [arg_int (of_nat (length str)), str_arg path]], upd_vfs v st) \<and>
    vfs_inv v \<and> ram_files v = (ram_files (sy_vfs (sh_sys st)))(path \<mapsto> str)"
proof -
  let ?v = "sy_vfs (sh_sys st)" and ?n = "of_nat (length str) :: u64"
  have p: "cstr_ok path" "0x20 \<notin> set path" "vfs_path_valid path" "vfs_disk_path path = None" using path by (simp_all add: writable_path_def)
  have split: "path_and_text 48 (path @ 0x20 # str) = (path, str)"
  proof -
    have "takeWhile (\<lambda>c. c \<noteq> 0x20) (path @ 0x20 # str) = path" using p(2) by (induction path) auto
    moreover have "length path < 48" using p(3) by (simp add: vfs_path_valid_def)
    moreover have "skip_spaces (0x20 # str) = str" using str by (cases str) (simp_all add: skip_spaces_def)
    ultimately show ?thesis by (simp add: path_and_text_def)
  qed
  obtain old where v0: "vfs_inv (snd (vfs_create hw path [] 0 ?v))" "ram_files (snd (vfs_create hw path [] 0 ?v)) path = Some old"
    "\<And>q. q \<noteq> path \<Longrightarrow> ram_files (snd (vfs_create hw path [] 0 ?v)) q = ram_files ?v q"
  proof (cases "ram_accepts path [] ?v")
    case True
    have "ram_named path []" using p by (simp add: ram_named_def)
    from ram_create_ok [OF inv this True, of hw] that [of "[]"] show ?thesis by auto
  next
    case False
    have "ram_named path []" using p by (simp add: ram_named_def)
    from ram_create_refused [OF this False, of hw] that inv path False show ?thesis by (auto simp: writable_path_def)
  qed
  let ?created = "snd (vfs_create hw path [] 0 ?v)"
  have n: "unat ?n = length str" using str(3) by (simp add: unat_of_nat take_bit_nat_eq_self)
  obtain r v1 where w: "vfs_write hw path 0 str ?n ?created = (r, v1)" by (cases "vfs_write hw path 0 str ?n ?created")
  have w1: "r = uint ?n" "vfs_inv v1" "ram_files v1 = (ram_files ?created)(path \<mapsto> str @ drop (length str) old)"
    using ram_write_read [OF v0(1) p(4) v0(2), of str ?n 0 hw r v1] n str(3) w by simp_all
  obtain ok v2 where t: "vfs_truncate hw path (of_nat (length str)) v1 = (ok, v2)" by (cases "vfs_truncate hw path (of_nat (length str)) v1")
  have c1: "ram_files v1 path = Some (str @ drop (length str) old)" using w1(3) by simp
  have t1: "vfs_inv v2" "ram_files v2 = (ram_files v1)(path \<mapsto> str)"
    using ram_truncate_to [OF w1(2) p(4) c1, of "length str" hw ok v2] t by simp_all
  have "ram_files v2 q = ((ram_files ?v)(path \<mapsto> str)) q" for q using t1(2) w1(3) v0(3) [of q] by simp
  then have "ram_files v2 = (ram_files ?v)(path \<mapsto> str)" by (rule ext)
  moreover have "r = int (length str)" using w1(1) n by (simp add: uint_nat)
  ultimately show ?thesis
    using split str(1) p(3) w t t1(1) by (intro exI [of _ v2]) (simp add: shell_write_def Let_def vfs_path_valid_def)
qed

section \<open>Commands keep the invariants\<close>

definition sys_inv :: "'d system \<Rightarrow> bool" where
  "sys_inv s \<longleftrightarrow> sched_inv (sy_kernel s) \<and> vfs_inv (sy_vfs s)"

text \<open>The invariants after a command that returns.\<close>

definition keeps_inv :: "'d shell_result \<Rightarrow> bool" where
  "keeps_inv r \<longleftrightarrow> (case r of None \<Rightarrow> True | Some (items, st) \<Rightarrow> sys_inv (sh_sys st))"

lemma keeps_inv_simps [simp]: "keeps_inv None" "keeps_inv (Some (items, st)) = sys_inv (sh_sys st)"
  by (simp_all add: keeps_inv_def)

lemma keeps_inv_if: "(b \<Longrightarrow> keeps_inv x) \<Longrightarrow> keeps_inv y \<Longrightarrow> keeps_inv (if b then x else y)"
  by simp

lemma sys_inv_upd [simp]:
  "sys_inv (s\<lparr>sy_vfs := v\<rparr>) \<longleftrightarrow> sched_inv (sy_kernel s) \<and> vfs_inv v"
  "sys_inv (s\<lparr>sy_kernel := k\<rparr>) \<longleftrightarrow> sched_inv k \<and> vfs_inv (sy_vfs s)"
  "sys_inv (s\<lparr>sy_pmm := p\<rparr>) = sys_inv s"
  by (simp_all add: sys_inv_def)

lemma keeps_inv_map: "sys_inv (sh_sys st) \<Longrightarrow> keeps_inv (map_option (\<lambda>out. (out, st)) r)"
  by (cases r) simp_all

lemma dump_tasks_state: "snd (scheduler_dump_tasks k) = refresh_stubs k"
proof -
  have "snd (fold dump_task is (out, k)) = fold refresh_stub is k" for out "is"
    by (induction "is" arbitrary: out k) (simp_all add: dump_task_def Let_def)
  then show ?thesis by (simp add: scheduler_dump_tasks_def refresh_stubs_def)
qed

lemma with_number_inv:
  assumes "sys_inv (sh_sys st)" "\<And>n. keeps_inv (f n)"
  shows "keeps_inv (with_number name arg st f)"
  using assms by (simp add: with_number_def split: option.split)

lemma switched_inv:
  assumes "switched resume f s = Some s'" "\<And>k. f (sy_kernel s) = Some k \<Longrightarrow> sched_inv k" "sys_inv s"
    "\<And>s. sys_inv s \<Longrightarrow> sys_inv (resume s)"
  shows "sys_inv s'"
  using assms by (auto simp: switched_def Syscall.with_kernel_def sys_inv_def split: if_splits)

lemma scheduler_commands_inv:
  assumes "sys_inv (sh_sys st)" "threads_started (sy_kernel (sh_sys st))" "\<And>s. sys_inv s \<Longrightarrow> sys_inv (resume s)"
  shows "keeps_inv (shell_sleep resume arg st)" "keeps_inv (shell_yield resume st)" "keeps_inv (shell_block arg st)"
    "keeps_inv (shell_unblock arg st)" "keeps_inv (shell_reap arg st)"
proof -
  have k: "sched_inv (sy_kernel (sh_sys st))" "vfs_inv (sy_vfs (sh_sys st))" using assms(1) by (simp_all add: sys_inv_def)
  have "keeps_inv (case switched resume (scheduler_sleep_ms (sy_interval (sh_sys st)) ms) (sh_sys st) of
      None \<Rightarrow> None | Some s \<Rightarrow> Some (items, st\<lparr>sh_sys := s\<rparr>))" for ms items
    using switched_inv [OF _ _ assms(1,3)] sleep_inv [OF k(1)] by (auto split: option.split)
  then show "keeps_inv (shell_sleep resume arg st)"
    unfolding shell_sleep_def by (intro with_number_inv) (use assms(1) in simp_all)
  show "keeps_inv (shell_yield resume st)"
    using switched_inv [OF _ _ assms(1,3)] yield_inv [OF k(1) assms(2)] by (auto simp: shell_yield_def split: option.split)
  show "keeps_inv (shell_block arg st)" "keeps_inv (shell_unblock arg st)"
    unfolding shell_block_def shell_unblock_def by (intro with_number_inv; use assms(1) k in \<open>simp add: block_inv unblock_inv\<close>)+
  show "keeps_inv (shell_reap arg st)"
    using k assms(1) by (simp add: shell_reap_def reap_inv reap_all_inv split: option.split)
qed

lemma cat_loop_inv:
  assumes "cat_loop hw path offset printed v = Some y"
  shows "vfs_inv v \<longrightarrow> vfs_inv (snd (snd y))"
proof (rule cat_loop.raw_induct [of "\<lambda>hw path offset printed v y. vfs_inv v \<longrightarrow> vfs_inv (snd (snd y))", OF _ assms], rule impI)
  fix loop :: "'a virtio_hw \<Rightarrow> cstring \<Rightarrow> u64 \<Rightarrow> u8 list \<Rightarrow> 'a vfs \<Rightarrow> (bool \<times> u8 list \<times> 'a vfs) option"
    and hw :: "'a virtio_hw" and path offset printed v and y :: "bool \<times> u8 list \<times> 'a vfs"
  assume ih: "\<And>hw path offset printed v y. loop hw path offset printed v = Some y \<Longrightarrow> vfs_inv v \<longrightarrow> vfs_inv (snd (snd y))"
    and step: "(case vfs_read hw path offset 64 v of (None, v) \<Rightarrow> Some (False, printed, v)
       | (Some bytes, v) \<Rightarrow> if length bytes = 64 then loop hw path (offset + 64) (printed @ bytes) v
           else Some (True, printed @ bytes, v)) = Some y"
    and inv: "vfs_inv v"
  obtain r v1 where r: "vfs_read hw path offset 64 v = (r, v1)" by (cases "vfs_read hw path offset 64 v")
  then have "vfs_inv v1" using vfs_read_inv(1) [OF inv, of hw path offset 64] by simp
  then show "vfs_inv (snd (snd y))" using ih step r by (auto split: option.splits if_splits)
qed

lemma path_and_text_ok: "cstr_ok arg \<Longrightarrow> path_and_text n arg = (path, str) \<Longrightarrow> cstr_ok path"
  by (auto simp: path_and_text_def Let_def cstr_ok_def dest: in_set_takeD set_takeWhileD)

lemma launch_program_inv:
  assumes "sys_inv (sh_sys st)"
  shows "keeps_inv (launch_program env path argument st)"
proof -
  have k: "sched_inv (sy_kernel (sh_sys st))" "vfs_inv (sy_vfs (sh_sys st))" using assms by (simp_all add: sys_inv_def)
  obtain f v where v: "vfs_file_data (se_disk env) path (sy_vfs (sh_sys st)) = (f, v)" by (cases "vfs_file_data (se_disk env) path (sy_vfs (sh_sys st))")
  obtain pid k1 where c: "create_user_task_from_file (se_kernel env) (Some ''user-program'') f argument (sy_kernel (sh_sys st)) = (pid, k1)"
    by (cases "create_user_task_from_file (se_kernel env) (Some ''user-program'') f argument (sy_kernel (sh_sys st))")
  have i: "vfs_inv v" "sched_inv k1"
    using vfs_read_inv(2) [OF k(2), of "se_disk env" path] create_user_inv [OF k(1), of "se_kernel env" "Some ''user-program''" f argument] v c
    by simp_all
  show ?thesis
  proof (cases pid)
    case None
    then show ?thesis using v c i by (simp add: launch_program_def scheduler_create_user_task_from_image_def)
  next
    case (Some p)
    obtain ok k2 where u: "scheduler_unblock_user_task (se_kernel env) (int p) k1 = (ok, k2)"
      by (cases "scheduler_unblock_user_task (se_kernel env) (int p) k1")
    then have "sched_inv k2" using unblock_user_inv [OF i(2), of "se_kernel env" "int p"] by simp
    then show ?thesis using Some v c i u by (simp add: launch_program_def scheduler_create_user_task_from_image_def)
  qed
qed

lemma file_commands_inv:
  assumes "sys_inv (sh_sys st)" "cstr_ok arg"
  shows "keeps_inv (shell_cat hw arg st)" "keeps_inv (shell_mkdir arg st)" "keeps_inv (shell_write hw arg st)"
    "keeps_inv (shell_disk hw arg st)" "keeps_inv (shell_pfs hw arg st)" "keeps_inv (shell_pwrite hw arg st)"
    "keeps_inv (shell_pcat hw arg st)" "keeps_inv (shell_run env arg st)"
proof -
  have k: "sched_inv (sy_kernel (sh_sys st))" "vfs_inv (sy_vfs (sh_sys st))" using assms(1) by (simp_all add: sys_inv_def)
  show "keeps_inv (shell_cat hw arg st)"
    using k assms(1) cat_loop_inv [of hw arg 0 "[]" "sy_vfs (sh_sys st)"]
    by (cases "cat_loop hw arg 0 [] (sy_vfs (sh_sys st))") (auto simp: shell_cat_def)
  show "keeps_inv (shell_mkdir arg st)"
    using k assms vfs_mkdir_inv [OF k(2) assms(2)] by (auto simp: shell_mkdir_def split: prod.split)
  have n: "unat (of_nat (length str) :: u64) \<le> length str" for str :: "u8 list" by (simp add: unat_of_nat)
  show "keeps_inv (shell_write hw arg st)"
  proof -
    obtain path str where p: "path_and_text 48 arg = (path, str)" by (cases "path_and_text 48 arg")
    have c: "vfs_inv (snd (vfs_create hw path [] 0 (sy_vfs (sh_sys st))))"
      by (rule vfs_create_inv [OF k(2) path_and_text_ok [OF assms(2) p]]) simp
    obtain r v1 where w: "vfs_write hw path 0 str (of_nat (length str)) (snd (vfs_create hw path [] 0 (sy_vfs (sh_sys st)))) = (r, v1)"
      by (cases "vfs_write hw path 0 str (of_nat (length str)) (snd (vfs_create hw path [] 0 (sy_vfs (sh_sys st))))")
    have "vfs_inv v1" using vfs_write_inv [OF c n [of str], of hw path 0] w by simp
    then show ?thesis
      using p w k assms(1) vfs_truncate_inv [of v1 hw path] by (simp add: shell_write_def Let_def)
  qed
  show "keeps_inv (shell_disk hw arg st)" "keeps_inv (shell_pfs hw arg st)" "keeps_inv (shell_pwrite hw arg st)"
    "keeps_inv (shell_pcat hw arg st)"
    using k assms(1)
    by (auto simp: shell_disk_def shell_pfs_def shell_pwrite_def shell_pcat_def Let_def split: prod.split option.split)
  show "keeps_inv (shell_run env arg st)" by (simp add: shell_run_def Let_def launch_program_inv [OF assms(1)] assms(1))
qed

text \<open>
  C23: The shell's commands keep the system's invariants. Whatever line is entered - apart from the test
  command for system calls - when \<open>shell_execute\<close> comes back, the scheduler's task table and the tree of
  the file system are well formed if they were before and the other tasks keep them so while the shell
  waits. This covers blocking, unblocking and reaping with any number as the task, starting programs from
  any path, and writing files under any path.
\<close>
theorem shell_keeps_invariants:
  assumes "sched_inv (sy_kernel (sh_sys st))" "vfs_inv (sy_vfs (sh_sys st))" "threads_started (sy_kernel (sh_sys st))" "cstr_ok command"
    "\<And>s. sched_inv (sy_kernel s) \<and> vfs_inv (sy_vfs s) \<Longrightarrow> sched_inv (sy_kernel (resume s)) \<and> vfs_inv (sy_vfs (resume s))"
    "\<not> command_equals (command_alias_target command) (bytes_of ''syscall'')" "shell_execute env resume command st = Some (items, st')"
  shows "sched_inv (sy_kernel (sh_sys st')) \<and> vfs_inv (sy_vfs (sh_sys st'))"
proof -
  have inv: "sys_inv (sh_sys st)" using assms(1,2) by (simp add: sys_inv_def)
  have arg: "cstr_ok (command_arg command)"
    using assms(4) by (auto simp: command_arg_def skip_spaces_def cstr_ok_def dest: set_dropWhileD)
  have resume: "\<And>s. sys_inv s \<Longrightarrow> sys_inv (resume s)" using assms(5) by (simp add: sys_inv_def)
  note cmds = scheduler_commands_inv [OF inv assms(3) resume] file_commands_inv [OF inv arg]
  have dump: "keeps_inv (case scheduler_dump_tasks (sy_kernel (sh_sys st)) of (out, k) \<Rightarrow> Some (out, upd_kernel k st))"
    using assms(1,2) dump_tasks_state [of "sy_kernel (sh_sys st)"] by (cases "scheduler_dump_tasks (sy_kernel (sh_sys st))") (simp add: refresh_inv)
  have "keeps_inv (shell_execute env resume command st)"
    unfolding shell_execute_def Let_def using assms(6)
    by (intro keeps_inv_if keeps_inv_map) (simp_all add: cmds inv dump split: option.split)
  then show ?thesis using assms(7) by (simp add: sys_inv_def)
qed

definition sample_shell_env :: "instant_dev shell_env" where
  "sample_shell_env = system_env.extend sample_senv (shell_env.fields sample_vm_env)"

definition demo_shell :: "instant_dev shell_state" where
  "demo_shell = \<lparr>sh_sys = sample_system\<lparr>sy_kernel := sample_threads\<rparr>, sh_heap = heap_bss, sh_fb = dark_display, sh_vm = vm_bss,
     sh_timer = \<lparr>timer_frequency = 0, timer_interval_ms = 0, timer_interval_ticks = 0, timer_irq_ticks = 0, cntp_tval = 0, cntp_ctl = 0\<rparr>\<rparr>"

lemma demo_shell_inv:
  "sched_inv (sy_kernel (sh_sys demo_shell))" "vfs_inv (sy_vfs (sh_sys demo_shell))" "threads_started (sy_kernel (sh_sys demo_shell))"
proof -
  show "vfs_inv (sy_vfs (sh_sys demo_shell))" using vfs_demo_facts(1) by (simp add: demo_shell_def sample_system_def)
  show "sched_inv (sy_kernel (sh_sys demo_shell))" "threads_started (sy_kernel (sh_sys demo_shell))"
    using reachable_inv [OF sample_threads_state(5) sched_start_inv] sample_threads_state(1) by (simp_all add: demo_shell_def)
qed

theorem shell_keeps_invariants_witness:
  "\<exists>items st'. shell_execute sample_shell_env (\<lambda>s. s) (bytes_of ''block 1'') demo_shell = Some (items, st') \<and>
     sched_inv (sy_kernel (sh_sys st')) \<and> vfs_inv (sy_vfs (sh_sys st'))"
proof -
  have run: "shell_execute sample_shell_env (\<lambda>s. s) (bytes_of ''block 1'') demo_shell =
      Some (block_task_says 1 (sy_kernel (sh_sys demo_shell)), upd_kernel (snd (scheduler_block_task 1 (sy_kernel (sh_sys demo_shell)))) demo_shell)"
    by (simp add: shell_execute_def Let_def command_alias_target_def shell_tables bytes_simps command_arg_def skip_spaces_def
        selected_command_def find_shell_command_def find_shell_command_token_def takes_argument_def shell_block_def with_number_def
        parse_number_def str_at_def c_int_def)
  have "cstr_ok (bytes_of ''block 1'')" "\<not> command_equals (command_alias_target (bytes_of ''block 1'')) (bytes_of ''syscall'')"
    by (simp_all add: cstr_ok_def bytes_simps command_alias_target_def shell_tables)
  from shell_keeps_invariants [OF demo_shell_inv this(1) _ this(2) run] run show ?thesis by blast
qed

section \<open>A session at the keyboard\<close>

definition shell_exec ::
    "'d shell_env \<Rightarrow> ('d system \<Rightarrow> 'd system) \<Rightarrow> cstring \<Rightarrow> 'd shell_state \<Rightarrow> (cstring \<times> 'd shell_state) option" where
  "shell_exec env resume command st = map_option (\<lambda>(items, st). (concat items, st)) (shell_execute env resume command st)"

text \<open>Texts that are whole lines each.\<close>

definition all_lines :: "cstring list \<Rightarrow> bool" where
  "all_lines ls \<longleftrightarrow> (\<forall>l\<in>set ls. whole_lines l)"

lemma all_lines_simps [simp]:
  "all_lines []" "all_lines (l # ls) \<longleftrightarrow> whole_lines l \<and> all_lines ls" "all_lines (ls @ ms) \<longleftrightarrow> all_lines ls \<and> all_lines ms"
  "all_lines (concat lss) \<longleftrightarrow> (\<forall>ls\<in>set lss. all_lines ls)" "all_lines (map f xs) \<longleftrightarrow> (\<forall>x\<in>set xs. whole_lines (f x))"
  by (auto simp: all_lines_def)

lemma whole_simps [simp]: "whole_lines (say fmt args)" "whole_lines []" "whole_lines (s @ [0x0a])" "whole_lines [0x0a]" "whole_lines help_hint"
  by (simp_all add: say_def help_hint_def whole_lines_def split: option.split)

lemma say_cong: "say fmt args = say fmt args"
  by (rule refl)

lemma whole_lines_append: "whole_lines s \<Longrightarrow> whole_lines t \<Longrightarrow> whole_lines (s @ t)"
  by (cases t rule: rev_cases) (auto simp: whole_lines_def)

lemma whole_lines_concat: "all_lines ls \<Longrightarrow> whole_lines (concat ls)"
  by (induction ls) (simp_all add: whole_lines_append)

text \<open>The lines of the reports.\<close>

lemma lines_intros:
  "(b \<Longrightarrow> all_lines x) \<Longrightarrow> (\<not> b \<Longrightarrow> all_lines y) \<Longrightarrow> all_lines (if b then x else y)"
  "all_lines x \<Longrightarrow> (\<And>a. v = Some a \<Longrightarrow> all_lines (f a)) \<Longrightarrow> all_lines (case v of None \<Rightarrow> x | Some a \<Rightarrow> f a)"
  "(\<And>a c. all_lines (g a c)) \<Longrightarrow> all_lines (case p of (a, c) \<Rightarrow> g a c)"
  "whole_lines l \<Longrightarrow> whole_lines m \<Longrightarrow> whole_lines (if b then l else m)"
  by (simp_all split: option.split prod.split)

lemma memory_reports [simp]:
  "all_lines (pmm_dump_stats env p)" "heap_dump_stats h = Some ls \<Longrightarrow> all_lines ls" "heap_self_test h p = Some (ls, h', p') \<Longrightarrow> all_lines ls"
proof -
  show heap: "all_lines ls" if "heap_dump_stats h = Some ls" for h ls
    using that by (auto simp: heap_dump_stats_def split: option.splits)
  show "all_lines ls" if "heap_self_test h p = Some (ls, h', p')"
    using that by (auto simp: heap_self_test_def heap split: option.splits)
qed (simp add: pmm_dump_stats_def)

lemma file_reports [simp]: "all_lines (block_dump_stats b)" "all_lines (sfs_dump f)" "all_lines (vfs_dump_files v)" "all_lines (syscall_dump_stats s)"
proof -
  have sfs: "all_lines (sfs_dump f)" for f :: "'x sfs" by (auto simp: sfs_dump_def Let_def cong: say_cong)
  then show "all_lines (sfs_dump f)" .
  show "all_lines (vfs_dump_files v)" by (auto simp: vfs_dump_files_def Let_def sfs cong: say_cong)
qed (simp_all add: block_dump_stats_def syscall_dump_stats_def syscall_line_def)

lemma space_lines_lines [simp]: "all_lines (space_lines t s)" "all_lines no_space_lines"
  by (auto simp: space_lines_def no_space_lines_def program_line_def Let_def cong: say_cong)

lemma task_line_lines [simp]:
  "whole_lines (account_line indent t)" "whole_lines (program_line fmt u)" "all_lines (sleep_lines indent k t)"
  "all_lines (entry_lines indent k t)" "all_lines (stack_lines indent t)" "all_lines (user_stat_lines k i)"
  by (auto simp: account_line_def program_line_def sleep_lines_def entry_lines_def stack_lines_def user_stat_lines_def Let_def cong: say_cong)

lemma dump_tasks_lines: "all_lines out \<Longrightarrow> all_lines (fst (fold dump_task is (out, k)))"
proof (induction "is" arbitrary: out k)
  case (Cons i "is")
  have "all_lines (fst (dump_task i (out, k)))" using Cons.prems by (simp add: dump_task_def Let_def cong: say_cong split: option.split)
  then show ?case using Cons.IH [of "fst (dump_task i (out, k))" "snd (dump_task i (out, k))"] by simp
qed simp

lemma task_reports [simp]:
  "all_lines (fst (scheduler_dump_tasks k))" "all_lines (scheduler_dump_task_summary k)" "all_lines (scheduler_dump_task_status pid k)"
  "all_lines (scheduler_dump_user_stats k)"
  by (auto simp: scheduler_dump_tasks_def dump_tasks_lines scheduler_dump_task_summary_def scheduler_dump_task_status_def
      scheduler_dump_user_stats_def Let_def cong: say_cong split: option.split)

lemma create_messages [simp]: "all_lines (create_user_task_says env name image_file argument k)"
  unfolding create_user_task_says_def Let_def by (intro lines_intros) (simp_all cong: say_cong)

lemma unblock_user_messages [simp]: "all_lines (unblock_user_task_says pid k)"
  unfolding unblock_user_task_says_def Let_def
  by (intro lines_intros) (simp_all cong: say_cong split: address_space_switch_stub_status.split)

lemma scheduler_messages [simp]:
  "all_lines (block_task_says pid k)" "all_lines (unblock_task_says pid k)" "all_lines (reap_task_says pid k)" "all_lines (reap_zombies_says k)"
proof -
  show "all_lines (block_task_says pid k)" "all_lines (unblock_task_says pid k)" "all_lines (reap_task_says pid k)"
    unfolding block_task_says_def unblock_task_says_def reap_task_says_def Let_def by (simp_all add: lines_intros(4) cong: say_cong)
  show "all_lines (reap_zombies_says k)"
    by (cases "filter (\<lambda>i. i \<noteq> current_task k \<and> t_state (tasks k ! i) = TASK_ZOMBIE) [1..<task_count k]")
      (simp_all add: reap_zombies_says_def cong: say_cong)
qed

lemma vm_reports [simp]:
  "all_lines (vm_dump_walk_address env s h label a)" "all_lines (vm_dump_walk_examples env s h)" "vm_dump_plan env s regs h = Some ls \<Longrightarrow> all_lines ls"
proof -
  show walk: "all_lines (vm_dump_walk_address env s h label a)" for label a
    by (auto simp: vm_dump_walk_address_def Let_def cong: say_cong split: option.split prod.split)
  show "all_lines (vm_dump_walk_examples env s h)"
    by (simp add: vm_dump_walk_examples_def vm_dump_section_walk_def walk)
  have goal: "whole_lines l" if "vm_dump_permission_goal env s g = Some l" for g l
    using that by (auto simp: vm_dump_permission_goal_def split: option.splits)
  have guards: "whole_lines (vm_dump_stack_guard_state env s)" by (simp add: vm_dump_stack_guard_state_def Let_def cong: say_cong)
  have "all_lines ls" if "vm_dump_permission_goals env s h = Some ls" for ls
  proof -
    have "None \<notin> vm_dump_permission_goal env s ` set (dumped_goals env h)"
      "ls = say ''VM protect: granularity=4 KiB kernel pages'' [] # map (the \<circ> vm_dump_permission_goal env s) (dumped_goals env h) @ [vm_dump_stack_guard_state env s]"
      using that by (simp_all add: vm_dump_permission_goals_def Let_def cong: say_cong split: if_splits)
    moreover from this(1) have "whole_lines (the (vm_dump_permission_goal env s g))" if "g \<in> set (dumped_goals env h)" for g
      using that goal [of g] by (cases "vm_dump_permission_goal env s g") (force, simp)
    ultimately show ?thesis using guards by (simp cong: say_cong)
  qed
  moreover have "all_lines vm_dump_security_summary" "all_lines (vm_dump_named_ranges env h)" "all_lines (vm_dump_kernel_sections env)"
    by (simp_all add: vm_dump_security_summary_def vm_dump_named_ranges_def vm_dump_range_def vm_dump_kernel_sections_def Let_def cong: say_cong)
  moreover have "whole_lines (vm_dump_region s r)" for r by (simp add: vm_dump_region_def Let_def cong: say_cong)
  ultimately show "all_lines ls" if "vm_dump_plan env s regs h = Some ls"
    using that by (cases "vm_dump_permission_goals env s h") (auto simp: vm_dump_plan_def cong: say_cong)
qed

text \<open>A result whose text is whole lines.\<close>

definition lines_result :: "'d shell_result \<Rightarrow> bool" where
  "lines_result r \<longleftrightarrow> (case r of None \<Rightarrow> True | Some (items, st) \<Rightarrow> whole_lines (concat items))"

lemma lines_result_simps [simp]: "lines_result None" "lines_result (Some (items, st)) = whole_lines (concat items)"
  by (simp_all add: lines_result_def)

lemma lines_result_if: "(b \<Longrightarrow> lines_result x) \<Longrightarrow> lines_result y \<Longrightarrow> lines_result (if b then x else y)"
  by simp

lemma lines_result_map: "(\<And>ls. r = Some ls \<Longrightarrow> all_lines ls) \<Longrightarrow> lines_result (map_option (\<lambda>ls. (ls, st)) r)"
  by (cases r) (simp_all add: whole_lines_concat)

lemma help_lines [simp]: "all_lines shell_help" "all_lines (shell_command_help name)" "all_lines (shell_usage name)" "all_lines (shell_framebuffer_status fb)"
proof -
  have end_line: "whole_lines (s @ t) = whole_lines t" if "t \<noteq> []" for s t using that by (simp add: whole_lines_def)
  then have "whole_lines (c # s @ [0x0a])" "whole_lines (c # s @ t @ u @ [0x0a])" for c s t u by (simp_all add: whole_lines_def)
  then show "all_lines shell_help" by (simp add: shell_help_def end_line cong: say_cong)
  show "all_lines (shell_command_help name)" "all_lines (shell_usage name)" "all_lines (shell_framebuffer_status fb)"
    by (simp_all add: shell_command_help_def shell_usage_def shell_framebuffer_status_def Let_def cong: say_cong split: option.split)
qed

lemma command_lines:
  "lines_result (shell_sleep resume arg st)" "lines_result (shell_yield resume st)"
  "lines_result (shell_block arg st)" "lines_result (shell_unblock arg st)" "lines_result (shell_reap arg st)"
  "lines_result (shell_syscall sys_env resume arg st)" "lines_result (shell_mkdir arg st)"
  "lines_result (shell_write hw arg st)" "lines_result (shell_disk hw arg st)" "lines_result (shell_pfs hw arg st)"
  "lines_result (shell_pwrite hw arg st)" "lines_result (launch_program sys_env path argument st)"
  by (auto intro!: whole_lines_concat whole_lines_append simp: with_number_def shell_sleep_def shell_yield_def shell_block_def shell_unblock_def
      shell_reap_def shell_syscall_def shell_mkdir_def shell_write_def shell_disk_def shell_pfs_def shell_pwrite_def launch_program_def Let_def
      cong: say_cong split: option.split prod.split)

lemma cat_lines: "lines_result (shell_cat hw arg st)" "lines_result (shell_pcat hw arg st)" "lines_result (shell_run sys_env arg st)"
proof -
  have nonempty: "say ''File not found: %s'' [str_arg arg] \<noteq> []" by (simp add: say_def bytes_simps)
  show "lines_result (shell_cat hw arg st)"
  proof (cases "arg = [] \<or> cat_loop hw arg 0 [] (sy_vfs (sh_sys st)) = None")
    case True
    then show ?thesis using whole_lines_concat [OF help_lines(2)] by (auto simp: shell_cat_def)
  next
    case False
    then obtain ok printed v where "cat_loop hw arg 0 [] (sy_vfs (sh_sys st)) = Some (ok, printed, v)" by auto
    moreover have "whole_lines (say ''File not found: %s'' [str_arg arg])" by simp
    ultimately show ?thesis using False nonempty by (auto simp: shell_cat_def whole_lines_def)
  qed
  show "lines_result (shell_pcat hw arg st)"
    using whole_lines_concat [OF help_lines(2)] by (auto simp: shell_pcat_def split: option.split prod.split)
  show "lines_result (shell_run sys_env arg st)" by (simp add: shell_run_def Let_def command_lines(12))
qed

lemma shell_execute_lines: "prints_lines (shell_exec env resume)"
proof -
  have tasks: "all_lines out" if "scheduler_dump_tasks k = (out, k')" for k k' out using task_reports(1) [of k] that by simp
  have "lines_result (shell_execute env resume command st)" for command st
    unfolding shell_execute_def Let_def
    by (intro lines_result_if lines_result_map)
      (auto simp: command_lines cat_lines cong: say_cong split: option.split prod.split intro!: whole_lines_concat whole_lines_append dest: tasks)
  then show ?thesis
    unfolding prints_lines_def shell_exec_def lines_result_def by (fastforce split: option.splits)
qed

section \<open>Properties of sessions\<close>

text \<open>
  C7: The shell's line editor does what an editor of a line with a cursor does, and the terminal shows it.
  From \<open>shell_init\<close> on, for every sequence of bytes from the keyboard - printable characters, Enter,
  Tab, Backspace, the cursor keys as single bytes or as escape sequences, anything else - the shell runs
  exactly the lines the specification \<open>ed_session\<close> says, in order, and keeps its buffers (64 bytes for a
  line, a ring of eight lines for the history) so that they stand for the specification's line, cursor and
  history of the last eight lines. The row of the terminal always reads the prompt, the line and blanks,
  with the terminal's cursor on the shell's cursor, since everything a command prints ends with a new line.
\<close>
theorem shell_session_refines_editor:
  "case ed_session (shell_exec env resume) cs (ed_start, st) of
      None \<Rightarrow> shell_handle_chars (shell_exec env resume) cs (shell_init shell_bss, st) = None
    | Some (e', st') \<Rightarrow>
        \<exists>l'. shell_handle_chars (shell_exec env resume) cs (shell_init shell_bss, st) = Some (l', st') \<and> line_rel l' e'"
  by (rule shell_handle_chars_rel [OF shell_init_rel shell_execute_lines])

text \<open>
  C24: What write stores, cat prints. For a path without blanks that names a file of the RAM file system,
  or a new one for which there is room, and any text that does not start with a blank, the command
  \<open>write path text\<close> reports the number of bytes, replaces the file by the text and changes no other file; the
  command \<open>cat path\<close> then comes to an end and prints the text, and a new line unless the text ends with one.
\<close>
theorem shell_write_then_cat:
  assumes "vfs_inv (sy_vfs (sh_sys st))" "writable_path path (sy_vfs (sh_sys st))" "str \<noteq> []" "hd str \<noteq> 0x20" "length str \<le> 4096"
  shows "\<exists>st'. shell_execute env resume (bytes_of ''write '' @ path @ 0x20 # str) st =
      Some ([say ''Wrote %d bytes: %s'' [arg_int (of_nat (length str)), str_arg path]], st') \<and>
    ram_files (sy_vfs (sh_sys st')) = (ram_files (sy_vfs (sh_sys st)))(path \<mapsto> str) \<and>
    shell_execute env resume (bytes_of ''cat '' @ path) st' = Some ([str] @ (if last str = 0x0a then [] else [[0x0a]]), st')"
proof -
  have p: "path \<noteq> []" "hd path \<noteq> 0x20" "vfs_disk_path path = None" using assms(2) by (auto simp: writable_path_def vfs_path_valid_def)
  obtain v where w: "shell_write (se_disk env) (path @ 0x20 # str) st =
      Some ([say ''Wrote %d bytes: %s'' [arg_int (of_nat (length str)), str_arg path]], upd_vfs v st)"
    "vfs_inv v" "ram_files v = (ram_files (sy_vfs (sh_sys st)))(path \<mapsto> str)"
    using shell_write_ram [OF assms, of "se_disk env"] by blast
  let ?st = "upd_vfs v st"
  have "ram_files v path = Some str" using w(3) by simp
  from cat_loop_ram [OF w(2) p(3) this, of 0 "se_disk env" "[]"]
  have "cat_loop (se_disk env) path 0 [] (sy_vfs (sh_sys ?st)) = Some (True, str, v)" by simp
  then have cat: "shell_cat (se_disk env) path ?st = Some ([str] @ (if last str = 0x0a then [] else [[0x0a]]), ?st)"
    using p(1) assms(3) by (simp add: shell_cat_def)
  show ?thesis
    using w(1,3) cat execute_write [of "path @ 0x20 # str" env resume st] execute_cat [OF p(1,2), of env resume ?st] p(1,2)
    by (intro exI [of _ ?st]) simp
qed

theorem shell_write_then_cat_witness:
  "\<exists>st'. shell_execute sample_shell_env (\<lambda>s. s) (bytes_of ''write '' @ [slash, 0x61] @ 0x20 # [0x68, 0x69]) demo_shell =
      Some ([say ''Wrote %d bytes: %s'' [arg_int (of_nat (length [0x68 :: u8, 0x69])), str_arg [slash, 0x61]]], st') \<and>
    ram_files (sy_vfs (sh_sys st')) [slash, 0x61] = Some [0x68, 0x69] \<and>
    shell_execute sample_shell_env (\<lambda>s. s) (bytes_of ''cat '' @ [slash, 0x61]) st' = Some ([[0x68, 0x69], [0x0a]], st')"
proof -
  have "writable_path [slash, 0x61] (sy_vfs (sh_sys demo_shell))"
    using vfs_demo_facts(2) by (simp add: writable_path_def demo_shell_def sample_system_def cstr_ok_def vfs_path_valid_def vfs_disk_path_def)
  from shell_write_then_cat [OF demo_shell_inv(2) this, of "[0x68, 0x69]" sample_shell_env "\<lambda>s. s"] show ?thesis by auto
qed

section \<open>Where the commands do not do what was meant\<close>

text \<open>
  A blank behind the name of a command that takes no argument makes it unknown: the tests that select such
  a command compare the whole line.
\<close>
theorem trailing_blank_is_unknown:
  "shell_execute env resume (bytes_of ''tasks '') st =
     Some ([say ''Unknown command: %s'' [str_arg (bytes_of ''tasks '')],
            help_hint], st)"
  by (simp add: shell_execute_def Let_def command_alias_target_def shell_tables bytes_simps command_arg_def skip_spaces_def
      selected_command_def find_shell_command_def find_shell_command_token_def)

text \<open>
  A path that is too long for write is cut, and the rest of it becomes the text: the command acts as if a
  blank had been typed behind the 47th character.
\<close>
theorem long_path_is_cut:
  assumes "0x20 \<notin> set path" "48 \<le> length path"
  shows "shell_write hw (path @ 0x20 # str) st = shell_write hw (take 47 path @ 0x20 # drop 47 path @ 0x20 # str) st"
proof -
  have words: "takeWhile (\<lambda>c. c \<noteq> 0x20) (p @ 0x20 # s) = p" if "0x20 \<notin> set p" for p s :: cstring using that by (induction p) auto
  obtain c cs where c: "drop 47 path = c # cs" using assms(2) by (cases "drop 47 path") auto
  have ns: "0x20 \<notin> set (take 47 path)" "c \<noteq> 0x20"
    using assms(1) c by (auto dest: in_set_takeD) (metis c in_set_dropD list.set_intros(1))
  have "path_and_text 48 (path @ 0x20 # str) = (take 47 path, skip_spaces (drop 47 path @ 0x20 # str))"
    using words [OF assms(1)] assms(2) by (simp add: path_and_text_def min_def)
  moreover have "path_and_text 48 (take 47 path @ 0x20 # drop 47 path @ 0x20 # str) = (take 47 path, skip_spaces (drop 47 path @ 0x20 # str))"
    using words [OF ns(1)] assms(2) by (simp add: path_and_text_def min_def skip_spaces_def)
  ultimately show ?thesis by (simp add: shell_write_def)
qed

end
