(* ===== verification/Launch.thy ===== *)
theory Launch
  imports SchedulerProps
begin

text \<open>
  Starting a program: what \<open>scheduler_create_user_task_from_image\<close> and \<open>scheduler_unblock_user_task\<close> of
  kernel/sched/scheduler.c do together for an executable that is accepted, down to the bytes of the pages
  the program finds its code, its data and its arguments in, and what is left as it was when they fail.
\<close>

section \<open>Copying in pieces\<close>

lemma splice_append:
  "off + length a + length b \<le> length buf \<Longrightarrow> splice (splice buf off a) (off + length a) b = splice buf off (a @ b)"
  by (cases "off = length buf") (simp_all add: splice_def min_def ac_simps)

lemma splice_before:
  assumes "off + length a + length b \<le> length buf"
  shows "splice (splice buf (off + length a) b) off a = splice buf off (a @ b)"
  using assms by (simp add: splice_def min_def ac_simps)

section \<open>Arguments\<close>

text \<open>Where the words of the argument string start: each is followed by a null byte.\<close>

fun word_offsets :: "nat \<Rightarrow> cstring list \<Rightarrow> nat list" where
  "word_offsets off [] = []"
| "word_offsets off (w # ws) = off # word_offsets (off + length w + 1) ws"

definition word_bytes :: "cstring list \<Rightarrow> u8 list" where
  "word_bytes ws = concat (map (\<lambda>w. w @ [0]) ws)"

lemma word_bytes_simps [simp]: "word_bytes [] = []" "word_bytes (w # ws) = w @ 0 # word_bytes ws"
  by (simp_all add: word_bytes_def)

text \<open>The words and their terminators take no more room than the argument string and one terminator.\<close>

declare arg_words.simps [simp del]

lemma arg_words_blank: "arg_words (0x20 # s) = arg_words s"
  by (subst (1 2) arg_words.simps) simp

lemma arg_words_length: "length (word_bytes (arg_words s)) \<le> length s + 1"
proof (induction s rule: length_induct)
  case (1 s)
  let ?s = "dropWhile (\<lambda>b. b = 0x20) s"
  let ?w = "takeWhile (\<lambda>b. b \<noteq> 0x20) ?s" and ?r = "dropWhile (\<lambda>b. b \<noteq> 0x20) ?s"
  have none: "arg_words [] = []" by (subst arg_words.simps) simp
  show ?case
  proof (cases "?s = []")
    case True
    then have "arg_words s = []" by (subst arg_words.simps) simp
    then show ?thesis by simp
  next
    case False
    have len: "length ?w + length ?r = length ?s" by (metis length_append takeWhile_dropWhile_id)
    have le: "length ?s \<le> length s" by (rule length_dropWhile_le)
    have e: "arg_words s = ?w # arg_words ?r" using False by (subst arg_words.simps) (simp only: Let_def if_False)
    obtain w r where wr: "w = ?w" "r = ?r" by simp
    have "length (word_bytes (arg_words r)) \<le> length r"
    proof (cases r)
      case Nil
      then show ?thesis by (simp add: none)
    next
      case (Cons c cs)
      then have "c = 0x20" using wr(2) hd_dropWhile [of "\<lambda>b. b \<noteq> 0x20" ?s] by (metis list.distinct(1) list.sel(1))
      then have "arg_words r = arg_words cs" using Cons arg_words_blank by simp
      moreover have "length cs < length s" using Cons len le unfolding wr [symmetric] by simp
      ultimately show ?thesis using 1 Cons by simp
    qed
    then show ?thesis using e len le unfolding wr [symmetric] by simp
  qed
qed

text \<open>Writing into the data page of a space, for ranges that fit.\<close>

definition data_page :: "nat \<Rightarrow> user_tables \<Rightarrow> u8 list" where
  "data_page s t = ut_pages t ! (3 * s + 1)"

definition with_data_page :: "nat \<Rightarrow> u8 list \<Rightarrow> user_tables \<Rightarrow> user_tables" where
  "with_data_page s page t = t\<lparr>ut_pages := (ut_pages t)[3 * s + 1 := page]\<rparr>"

lemma with_data_page_twice [simp]: "with_data_page s p (with_data_page s q t) = with_data_page s p t"
  by (simp add: with_data_page_def)

lemma data_page_with [simp]: "s < 4 \<Longrightarrow> length (ut_pages t) = 12 \<Longrightarrow> data_page s (with_data_page s p t) = p"
  by (simp add: data_page_def with_data_page_def)

lemma length_pages_with [simp]: "length (ut_pages (with_data_page s p t)) = length (ut_pages t)"
  by (simp add: with_data_page_def)

lemma write_data_eq:
  assumes "as_kind space = ADDRESS_SPACE_USER" "as_user_table_slot space = s" "s < 4" "off + length xs \<le> 4096"
  shows "address_space_write_user_data (of_nat off) xs (of_nat (length xs)) space t =
    (True, with_data_page s (splice (data_page s t) off xs) t)"
proof -
  have u: "unat (of_nat off :: u64) = off" "unat (of_nat (length xs) :: u64) = length xs"
    using assms(4) by (simp_all add: unat_of_nat take_bit_nat_eq_self)
  then have le: "(of_nat off :: u64) \<le> ARM64_PAGE_SIZE" using assms(4) by (simp add: word_le_nat_alt)
  then have "unat (ARM64_PAGE_SIZE - of_nat off) = 4096 - off" using u by (simp add: unat_diff_le)
  then have "\<not> (of_nat (length xs) :: u64) > ARM64_PAGE_SIZE - of_nat off" using u assms(4) by (simp add: word_less_nat_alt)
  then show ?thesis
    using assms(1-3) le u by (simp add: address_space_write_user_data_def data_page_def with_data_page_def Let_def)
qed

lemma write_arguments_eq:
  assumes "as_kind space = ADDRESS_SPACE_USER" "as_user_table_slot space = s" "s < 4"
    and "length (ut_pages t) = 12" "length (data_page s t) = 4096" "off + length (word_bytes words) \<le> 4096"
  shows "write_arguments space words (of_nat off) t =
    (True, zip (map (\<lambda>o'. as_user_data_start space + of_nat o') (word_offsets off words)) (map (\<lambda>w. of_nat (length w)) words),
     with_data_page s (splice (data_page s t) off (word_bytes words)) t)"
  using assms(4-6)
proof (induction words arbitrary: off t)
  case Nil
  then show ?case using assms(3) by (simp add: with_data_page_def data_page_def)
next
  case (Cons w ws)
  have fits: "off + length w \<le> 4096" "off + length w + 1 \<le> 4096" "off + length w + 1 + length (word_bytes ws) \<le> 4096"
    using Cons.prems(3) by simp_all
  let ?p = "data_page s t"
  let ?p1 = "splice ?p off w" and ?p2 = "splice ?p off (w @ [0])"
  have w1: "address_space_write_user_data (of_nat off) w (of_nat (length w)) space t = (True, with_data_page s ?p1 t)"
    by (rule write_data_eq [OF assms(1-3) fits(1)])
  have "splice ?p1 (off + length w) [0] = ?p2" by (rule splice_append) (use Cons.prems(2) fits in simp)
  then have w2: "address_space_write_user_data (of_nat off + of_nat (length w)) [0] 1 space (with_data_page s ?p1 t) = (True, with_data_page s ?p2 t)"
    using write_data_eq [OF assms(1-3), of "off + length w" "[0]" "with_data_page s ?p1 t"] fits assms(3) Cons.prems by simp
  have len: "length ?p2 = 4096" using Cons.prems(2) fits by (subst length_splice) simp_all
  have step: "(of_nat off :: u64) + of_nat (length w) + 1 = of_nat (off + length w + 1)" by simp
  have join: "splice ?p2 (off + length w + 1) (word_bytes ws) = splice ?p off (word_bytes (w # ws))"
    using splice_append [of off "w @ [0]" "word_bytes ws" ?p] Cons.prems(2) fits by simp
  have ih: "write_arguments space ws (of_nat (off + length w + 1)) (with_data_page s ?p2 t) =
    (True, zip (map (\<lambda>o'. as_user_data_start space + of_nat o') (word_offsets (off + length w + 1) ws)) (map (\<lambda>w. of_nat (length w)) ws),
     with_data_page s (splice ?p off (word_bytes (w # ws))) t)"
    using Cons.IH [of "with_data_page s ?p2 t" "off + length w + 1"] Cons.prems len fits assms(3) join by simp
  show ?case
    by (simp only: write_arguments.simps w1 prod.case bool.case Let_def w2 step ih word_offsets.simps list.map zip_Cons_Cons)
qed

text \<open>
  What a program finds behind its data: the addresses of its arguments, their lengths, and the arguments,
  each with a null byte.
\<close>

definition argument_block :: "nat \<Rightarrow> cstring list \<Rightarrow> u8 list" where
  "argument_block base words =
     pad_words (map (\<lambda>o'. ADDRESS_SPACE_USER_DATA_START + of_nat o') (word_offsets (base + 128) words)) @
     pad_words (map (\<lambda>w. of_nat (length w)) words) @ word_bytes words"

lemma length_word_offsets [simp]: "length (word_offsets off words) = length words"
  by (induction words arbitrary: off) simp_all

lemma length_pad_words [simp]: "length xs \<le> 8 \<Longrightarrow> length (pad_words xs) = 64"
proof -
  assume "length xs \<le> 8"
  moreover have "length (concat (map le64 ys)) = 8 * length ys" for ys by (induction ys) (simp_all add: le64_def)
  ultimately show ?thesis by (simp add: pad_words_def del: map_append)
qed

definition arguments_placed :: "nat \<Rightarrow> nat \<Rightarrow> nat \<Rightarrow> cstring list \<Rightarrow> kernel \<Rightarrow> kernel" where
  "arguments_placed pid s base words k =
     (upd_task pid (set_user_arguments (length words) (ADDRESS_SPACE_USER_DATA_START + of_nat base)) k)
       \<lparr>user_tables_of := with_data_page s (splice (data_page s (user_tables_of k)) base (argument_block base words)) (user_tables_of k)\<rparr>"

lemma place_arguments_eq:
  assumes "as_kind space = ADDRESS_SPACE_USER" "as_user_table_slot space = s" "s < 4"
    "as_user_data_start space = ADDRESS_SPACE_USER_DATA_START"
    and "length (ut_pages (user_tables_of k)) = 12" "length (data_page s (user_tables_of k)) = 4096"
    and "length words \<le> 8" "base + 128 + length (word_bytes words) \<le> 4096"
  shows "place_arguments space words (of_nat base) (of_nat (base + 128)) pid k =
    (let k = arguments_placed pid s base words k in (Some pid, upd_task pid (scheduler_init_task_el0 k) k))"
proof -
  let ?t = "user_tables_of k" and ?ws = "word_bytes words"
  let ?as = "map (\<lambda>o'. ADDRESS_SPACE_USER_DATA_START + of_nat o') (word_offsets (base + 128) words)"
  let ?ls = "map (\<lambda>w. of_nat (length w)) words :: u64 list"
  let ?p = "data_page s ?t"
  let ?p1 = "splice ?p (base + 128) ?ws"
  let ?p2 = "splice ?p1 base (pad_words ?as)"
  have w1: "write_arguments space words (of_nat (base + 128)) ?t = (True, zip ?as ?ls, with_data_page s ?p1 ?t)"
    using write_arguments_eq [OF assms(1-3,5,6), of "base + 128" words] assms(4,8) by simp
  have l: "length (pad_words ?as) = 64" "length (pad_words ?ls) = 64" using assms(7) by simp_all
  have l1: "length ?p1 = 4096" using assms(6,8) by (subst length_splice) simp_all
  have w2: "address_space_write_user_data (of_nat base) (pad_words ?as) 64 space (with_data_page s ?p1 ?t) = (True, with_data_page s ?p2 ?t)"
    using write_data_eq [OF assms(1-3), of base "pad_words ?as" "with_data_page s ?p1 ?t"] l(1) assms(3,5,8) by simp
  have w3: "address_space_write_user_data (of_nat base + 64) (pad_words ?ls) 64 space (with_data_page s ?p2 ?t) =
      (True, with_data_page s (splice ?p2 (base + 64) (pad_words ?ls)) ?t)"
    using write_data_eq [OF assms(1-3), of "base + 64" "pad_words ?ls" "with_data_page s ?p2 ?t"] l(2) assms(3,5,8) by simp
  have "splice ?p2 (base + 64) (pad_words ?ls) = splice ?p1 base (pad_words ?as @ pad_words ?ls)"
    using splice_append [of base "pad_words ?as" "pad_words ?ls" ?p1] l l1 assms(8) by simp
  also have "\<dots> = splice ?p base (argument_block base words)"
    using splice_before [of base "pad_words ?as @ pad_words ?ls" ?ws ?p] l assms(6,8) by (simp add: argument_block_def)
  finally have p: "splice ?p2 (base + 64) (pad_words ?ls) = splice ?p base (argument_block base words)" .
  have z: "map fst (zip ?as ?ls) = ?as" "map snd (zip ?as ?ls) = ?ls" by simp_all
  show ?thesis
    unfolding place_arguments_def w1 prod.case bool.case assms(4) z Let_def w2 w3 p
    by (simp add: arguments_placed_def)
qed

section \<open>The executable\<close>

lemma parse_facts:
  assumes "saturn_exec_parse file n = Some img"
  shows "ei_code img = 24" "ei_data img = 24 + unat (ei_code_size img)" "0 < unat (ei_code_size img)" "unat (ei_code_size img) \<le> 4096"
    "unat (ei_data_size img) \<le> 4096" "ei_entry_offset img < ei_code_size img" "ei_entry_offset img AND 3 = 0"
    "24 + unat (ei_code_size img) + unat (ei_data_size img) = unat n"
proof -
  let ?h = "exec_header_of file"
  let ?c = "ucast (eh_code_size ?h) :: u64" and ?d = "ucast (eh_data_size ?h) :: u64" and ?e = "ucast (eh_entry_offset ?h) :: u64"
  have c: "n \<ge> 24" "eh_header_size ?h = 24" "eh_code_size ?h \<noteq> 0" "?c \<le> ARM64_PAGE_SIZE" "?d \<le> ARM64_PAGE_SIZE"
    "eh_entry_offset ?h < eh_code_size ?h" "eh_entry_offset ?h AND 3 = 0" "24 + (?c + ?d) = n"
    "img = \<lparr>ei_code = 24, ei_data = 24 + unat (eh_code_size ?h), ei_code_size = ?c, ei_data_size = ?d, ei_entry_offset = ?e\<rparr>"
    using assms by (auto simp: saturn_exec_parse_def Let_def not_less not_le split: if_splits)
  have cd: "unat ?c \<le> 4096" "unat ?d \<le> 4096" using c(4,5) by (simp_all add: word_le_nat_alt)
  then have "unat (24 + (?c + ?d)) = 24 + (unat ?c + unat ?d)" by (simp add: unat_word_ariths)
  moreover have "unat (eh_code_size ?h) \<noteq> 0" using c(3) by (simp add: unat_eq_zero)
  moreover have "?e AND 3 = ucast (eh_entry_offset ?h AND 3)" by (simp add: unsigned_and_eq)
  moreover have "?e < ?c" using c(6) by (simp add: word_less_nat_alt)
  ultimately show "ei_code img = 24" "ei_data img = 24 + unat (ei_code_size img)" "0 < unat (ei_code_size img)" "unat (ei_code_size img) \<le> 4096"
    "unat (ei_data_size img) \<le> 4096" "ei_entry_offset img < ei_code_size img" "ei_entry_offset img AND 3 = 0"
    "24 + unat (ei_code_size img) + unat (ei_data_size img) = unat n"
    using c cd by simp_all
qed

text \<open>The parser looks only at the bytes the size covers.\<close>

lemma header_prefix: "24 \<le> n \<Longrightarrow> exec_header_of (take n file) = exec_header_of file"
  by (simp add: exec_header_of_def slice_def drop_take)

lemma parse_prefix:
  assumes "saturn_exec_parse (take (unat n) file) n = Some img"
  shows "saturn_exec_parse file n = Some img"
proof -
  let ?f = "take (unat n) file" and ?h = "exec_header_of file"
  have n: "n \<ge> 24" using assms by (simp add: saturn_exec_parse_def not_less split: if_splits)
  then have h: "exec_header_of ?f = ?h" by (intro header_prefix) (simp add: word_le_nat_alt)
  let ?ps = "ucast (eh_code_size ?h) + ucast (eh_data_size ?h) :: u64"
  have c: "eh_header_size ?h = 24" "ucast (eh_header_size ?h) + ?ps = n" "img = \<lparr>ei_code = 24, ei_data = 24 + unat (eh_code_size ?h), ei_code_size = ucast (eh_code_size ?h),
      ei_data_size = ucast (eh_data_size ?h), ei_entry_offset = ucast (eh_entry_offset ?h)\<rparr>"
    using assms h by (auto simp: saturn_exec_parse_def Let_def split: if_splits)
  then have "unat ?ps \<le> unat n - 24" using parse_facts(4,5,8) [OF assms] by (simp add: unat_word_ariths)
  then have "take (unat ?ps) (drop 24 ?f) = take (unat ?ps) (drop 24 file)" by (simp add: drop_take)
  then have "saturn_exec_checksum (drop 24 ?f) (unat ?ps) = saturn_exec_checksum (drop 24 file) (unat ?ps)"
    by (simp add: saturn_exec_checksum_def)
  then have "saturn_exec_parse ?f n = saturn_exec_parse file n"
    unfolding saturn_exec_parse_def h Let_def c(1) by simp
  then show ?thesis using assms by simp
qed

section \<open>The address space\<close>

lemma init_user_constants:
  assumes "address_space_init_user env name root t = (space, t')"
  shows "as_user_data_start space = ADDRESS_SPACE_USER_DATA_START" "as_user_stack_end space = ADDRESS_SPACE_USER_STACK_END"
    "as_switch_ready space \<Longrightarrow> as_switch_status space = ADDRESS_SPACE_SWITCH_READY"
proof -
  obtain a t1 n sp t2 where e: "address_space_alloc_user_table_slot t = (a, t1)"
    "address_space_install_user_descriptors env (user_space_base env name root a) t1 = (n, sp, t2)" "space = user_space_finish n sp"
    using assms by (auto simp: address_space_init_user_def Let_def split: prod.splits)
  have "as_user_data_start sp = as_user_data_start (user_space_base env name root a) \<and>
      as_user_stack_end sp = as_user_stack_end (user_space_base env name root a)"
    using e(2) by (auto simp: address_space_install_user_descriptors_def Let_def split: if_splits prod.splits)
  then show "as_user_data_start space = ADDRESS_SPACE_USER_DATA_START" "as_user_stack_end space = ADDRESS_SPACE_USER_STACK_END"
    "as_switch_ready space \<Longrightarrow> as_switch_status space = ADDRESS_SPACE_SWITCH_READY"
    unfolding e(3) by (simp_all add: user_space_finish_def Let_def user_space_base_def address_space_set_user_region_def
        address_space_clear_user_regions_def split: if_splits)
qed

text \<open>A space with a program in it that can be entered.\<close>

definition space_runnable :: "as_env \<Rightarrow> nat \<Rightarrow> u64 \<Rightarrow> u64 \<Rightarrow> address_space \<Rightarrow> bool" where
  "space_runnable env s root entry space \<longleftrightarrow>
     user_space_fields env s root space \<and> as_user_data_start space = ADDRESS_SPACE_USER_DATA_START \<and>
     as_user_stack_end space = ADDRESS_SPACE_USER_STACK_END \<and> as_validation_ready space \<and> as_validation_errors space = 0 \<and>
     as_user_mappings_ready space \<and> as_user_execute_ready space \<and> as_switch_ready space \<and>
     as_switch_status space = ADDRESS_SPACE_SWITCH_READY \<and> as_target_root_table space = l1_addr env s \<and>
     as_user_image_ready space \<and> as_user_image_entry space = ADDRESS_SPACE_USER_CODE_START + entry"

lemma load_program:
  assumes "env_ok env" "user_tables_ok t" "find_slot (\<lambda>used. \<not> used) (ut_used t) = Some s" "kernel_map_ok env root"
    and parse: "saturn_exec_parse bytes n = Some img" "unat n \<le> length bytes"
    and init: "address_space_init_user env name root t = (space, t1)"
  obtains space' where "address_space_load_user_image (drop (ei_code img) bytes) (ei_code_size img) (drop (ei_data img) bytes)
      (ei_data_size img) (ei_entry_offset img) space t1 =
      (True, space', t1\<lparr>ut_pages := (ut_pages t1)[3 * s := slice 24 (unat (ei_code_size img)) bytes @ replicate (4096 - unat (ei_code_size img)) 0,
         3 * s + 1 := slice (ei_data img) (unat (ei_data_size img)) bytes @ replicate (4096 - unat (ei_data_size img)) 0]\<rparr>)"
    "space_runnable env s root (ei_entry_offset img) space'" "s < 4" "user_tables_ok t1" "slot_mapped env s root t1"
proof -
  note f = parse_facts [OF parse(1)] and m = init_user_mapped [OF assms(1-4) init]
  obtain sp u where i: "address_space_init_user env name root t = (sp, u)"
    "user_space_fields env s root sp" "as_validation_errors sp = 0" "as_validation_ready sp"
    "as_switch_ready sp" "as_user_mappings_ready sp" "as_target_root_table sp = l1_addr env s" "as_user_execute_ready sp"
    by (rule init_user_eq [OF assms(3) m(1) assms(4,1)]) blast
  have sp: "space = sp" using i(1) init by simp
  note const = init_user_constants [OF init]
  have guard: "as_kind space = ADDRESS_SPACE_USER" "as_user_table_slot space = s" "as_user_code_start space = ADDRESS_SPACE_USER_CODE_START"
    using m(3) by (simp_all add: user_space_fields_def)
  have ok: "\<not> (ei_code_size img = 0)" "\<not> ei_code_size img > ARM64_PAGE_SIZE" "\<not> ei_data_size img > ARM64_PAGE_SIZE"
    "ei_entry_offset img AND (4 - 1) = 0"
    using f by (auto simp: word_less_nat_alt unat_gt_0)
  have entry: "\<not> ei_entry_offset img \<ge> ei_code_size img" using f(6) by (simp only: not_le)
  define sp' where "sp' = space\<lparr>as_user_image_entry := ADDRESS_SPACE_USER_CODE_START + ei_entry_offset img, as_user_image_size := ei_code_size img,
      as_user_image_checksum := address_space_checksum_bytes (splice address_space_clear_page 0 (take (unat (ei_code_size img)) (drop (ei_code img) bytes))) (unat (ei_code_size img)),
      as_user_image_ready := True\<rparr>"
  have pages: "splice address_space_clear_page 0 (take (unat (ei_code_size img)) (drop (ei_code img) bytes)) =
      slice 24 (unat (ei_code_size img)) bytes @ replicate (4096 - unat (ei_code_size img)) 0"
    "splice address_space_clear_page 0 (take (unat (ei_data_size img)) (drop (ei_data img) bytes)) =
      slice (ei_data img) (unat (ei_data_size img)) bytes @ replicate (4096 - unat (ei_data_size img)) 0"
    using f parse(2) by (subst load_page, simp, simp add: slice_def)+
  show thesis
  proof (rule that)
    show "address_space_load_user_image (drop (ei_code img) bytes) (ei_code_size img) (drop (ei_data img) bytes)
      (ei_data_size img) (ei_entry_offset img) space t1 =
      (True, sp', t1\<lparr>ut_pages := (ut_pages t1)[3 * s := slice 24 (unat (ei_code_size img)) bytes @ replicate (4096 - unat (ei_code_size img)) 0,
         3 * s + 1 := slice (ei_data img) (unat (ei_data_size img)) bytes @ replicate (4096 - unat (ei_data_size img)) 0]\<rparr>)"
      unfolding address_space_load_user_image_def Let_def pages sp'_def
      using guard ok entry m(1) i(6) by (simp add: sp pages)
    show "space_runnable env s root (ei_entry_offset img) sp'"
      using m(3) const i(3-8) unfolding sp [symmetric] sp'_def space_runnable_def by (simp add: user_space_fields_def)
  qed (use m in simp_all)
qed

section \<open>The task\<close>

abbreviation argument_string :: "cstring option \<Rightarrow> cstring" where
  "argument_string argument \<equiv> case argument of None \<Rightarrow> [] | Some a \<Rightarrow> a"

definition argument_offset :: "saturn_exec_image \<Rightarrow> nat" where
  "argument_offset img = (unat (ei_data_size img) + 7) div 8 * 8"

text \<open>The limits of the source: 128 characters, eight words, and the room behind the program's data.\<close>

definition arguments_fit :: "saturn_exec_image \<Rightarrow> cstring \<Rightarrow> bool" where
  "arguments_fit img arg \<longleftrightarrow>
     length arg \<le> TASK_USER_ARGUMENT_MAX \<and> length (arg_words arg) \<le> TASK_USER_ARG_MAX \<and>
     argument_offset img + 128 + length arg + 1 \<le> 4096"

lemma plan_eq:
  assumes "saturn_exec_parse bytes n = Some img"
  shows "plan_user_task (Some (bytes, n)) argument =
    (if arguments_fit img (argument_string argument)
     then Some (img, arg_words (argument_string argument), of_nat (argument_offset img), of_nat (argument_offset img + 128)) else None)"
proof -
  let ?arg = "argument_string argument" and ?o = "argument_offset img"
  have d: "unat (ei_data_size img) \<le> 4096" by (rule parse_facts(5) [OF assms])
  have seven: "(7 :: u64) = mask 3" by (simp add: mask_eq_exp_minus_1)
  have "unat (ei_data_size img + 7) = unat (ei_data_size img) + 7" using d by (simp add: unat_word_ariths)
  then have "unat ((ei_data_size img + 7) AND NOT 7) = ?o"
    unfolding argument_offset_def seven by (simp only: unat_and_not_mask) simp
  then have base: "(ei_data_size img + 7) AND NOT 7 = of_nat ?o" by (metis of_nat_unat ucast_id)
  have le: "?o \<le> 4103" using d by (simp add: argument_offset_def)
  have fit: "(of_nat ?o + 128 + of_nat (length ?arg) + 1 > (4096 :: u64)) = (?o + 128 + length ?arg + 1 > 4096)" if "length ?arg \<le> 128"
  proof -
    have "unat (of_nat (?o + 128 + length ?arg + 1) :: u64) = ?o + 128 + length ?arg + 1"
      using le that by (simp only: unat_of_nat) (simp add: take_bit_nat_eq_self)
    then show ?thesis by (simp add: word_less_nat_alt)
  qed
  show ?thesis
    unfolding plan_user_task_def assms option.case prod.case Let_def base arguments_fit_def using fit by auto
qed

text \<open>A task whose program is loaded, with its entry state and its arguments.\<close>

definition program_loaded :: "as_env \<Rightarrow> nat \<Rightarrow> u64 \<Rightarrow> u8 list \<Rightarrow> saturn_exec_image \<Rightarrow> cstring list \<Rightarrow> task \<Rightarrow> user_tables \<Rightarrow> bool" where
  "program_loaded env s root bytes img words t tables \<longleftrightarrow>
     tm_space (t_memory t) = OwnSpace \<and> space_runnable env s root (ei_entry_offset img) (t_user_address_space t) \<and>
     t_el0 t = \<lparr>el_pc = ADDRESS_SPACE_USER_CODE_START + ei_entry_offset img, el_sp = ADDRESS_SPACE_USER_STACK_END,
       el_spsr = ARM64_SPSR_EL0T, el_ready = True\<rparr> \<and>
     t_user_argc t = of_nat (length words) \<and>
     t_user_argv_address t = ADDRESS_SPACE_USER_DATA_START + of_nat (argument_offset img) \<and>
     t_user_arg_lengths_address t = t_user_argv_address t + 64 \<and>
     slot_mapped env s root tables \<and>
     ut_pages tables ! (3 * s) = slice 24 (unat (ei_code_size img)) bytes @ replicate (4096 - unat (ei_code_size img)) 0 \<and>
     ut_pages tables ! (3 * s + 1) =
       splice (slice (ei_data img) (unat (ei_data_size img)) bytes @ replicate (4096 - unat (ei_data_size img)) 0)
         (argument_offset img) (argument_block (argument_offset img) words)"

lemma program_loaded_prefix:
  assumes "saturn_exec_parse bytes n = Some img"
  shows "program_loaded env s root (take (unat n) bytes) img words t tables = program_loaded env s root bytes img words t tables"
proof -
  note f = parse_facts [OF assms]
  have "slice 24 (unat (ei_code_size img)) (take (unat n) bytes) = slice 24 (unat (ei_code_size img)) bytes"
    "slice (ei_data img) (unat (ei_data_size img)) (take (unat n) bytes) = slice (ei_data img) (unat (ei_data_size img)) bytes"
    using f by (simp_all add: slice_def drop_take min_def)
  then show ?thesis by (simp add: program_loaded_def)
qed

lemma place_user_task_eq:
  assumes "env_ok (arrays env)" "user_tables_ok (user_tables_of k)" "find_slot (\<lambda>used. \<not> used) (ut_used (user_tables_of k)) = Some s"
    and "kernel_map_ok (arrays env) root" "root = as_root_table (kernel_address_space k)"
    and parse: "saturn_exec_parse bytes n = Some img" "unat n \<le> length bytes"
    and fit: "arguments_fit img arg" and pid: "pid < length (tasks k)"
  obtains k' where "place_user_task env name bytes img (arg_words arg) (of_nat (argument_offset img)) (of_nat (argument_offset img + 128)) pid k = (Some pid, k')"
    "task_count k' = task_count k" "length (tasks k') = length (tasks k)" "\<forall>q. q \<noteq> pid \<longrightarrow> tasks k' ! q = tasks k ! q"
    "t_state (tasks k' ! pid) = TASK_BLOCKED" "t_name (tasks k' ! pid) = name"
    "k' = k\<lparr>tasks := tasks k', user_tables_of := user_tables_of k'\<rparr>"
    "program_loaded (arrays env) s root bytes img (arg_words arg) (tasks k' ! pid) (user_tables_of k')" "s < 4"
proof -
  let ?base = "argument_offset img" and ?words = "arg_words arg"
  obtain space t1 where i: "address_space_init_user (arrays env) (Some name) root (user_tables_of k) = (space, t1)" by (rule prod.exhaust)
  obtain space' where l: "address_space_load_user_image (drop (ei_code img) bytes) (ei_code_size img) (drop (ei_data img) bytes)
      (ei_data_size img) (ei_entry_offset img) space t1 =
      (True, space', t1\<lparr>ut_pages := (ut_pages t1)[3 * s := slice 24 (unat (ei_code_size img)) bytes @ replicate (4096 - unat (ei_code_size img)) 0,
         3 * s + 1 := slice (ei_data img) (unat (ei_data_size img)) bytes @ replicate (4096 - unat (ei_data_size img)) 0]\<rparr>)"
    and r: "space_runnable (arrays env) s root (ei_entry_offset img) space'" "s < 4" "user_tables_ok t1" "slot_mapped (arrays env) s root t1"
    by (rule load_program [OF assms(1-4) parse i])
  define t2 where "t2 = t1\<lparr>ut_pages := (ut_pages t1)[3 * s := slice 24 (unat (ei_code_size img)) bytes @ replicate (4096 - unat (ei_code_size img)) 0,
         3 * s + 1 := slice (ei_data img) (unat (ei_data_size img)) bytes @ replicate (4096 - unat (ei_data_size img)) 0]\<rparr>"
  define k1 where "k1 = upd_task pid (new_user_task env pid name space') (k\<lparr>user_tables_of := t2\<rparr>)"
  define k2 where "k2 = arguments_placed pid s ?base ?words k1"
  note f = parse_facts [OF parse(1)]
  have len: "length (ut_pages t1) = 12" using r(3) by (simp add: user_tables_ok_def)
  have tabs: "user_tables_of k1 = t2" by (simp add: k1_def upd_task_def)
  have page: "data_page s t2 = slice (ei_data img) (unat (ei_data_size img)) bytes @ replicate (4096 - unat (ei_data_size img)) 0"
    "ut_pages t2 ! (3 * s) = slice 24 (unat (ei_code_size img)) bytes @ replicate (4096 - unat (ei_code_size img)) 0"
    using r(2) len by (simp_all add: data_page_def t2_def)
  have plen: "length (data_page s t2) = 4096" unfolding page using f parse(2) by (simp add: slice_def)
  have plen2: "length (ut_pages t2) = 12" using len by (simp add: t2_def)
  have sp: "as_kind space' = ADDRESS_SPACE_USER" "as_user_table_slot space' = s" "as_user_data_start space' = ADDRESS_SPACE_USER_DATA_START"
    using r(1) by (simp_all add: space_runnable_def user_space_fields_def)
  have room: "length ?words \<le> 8" "?base + 128 + length (word_bytes ?words) \<le> 4096"
    using fit arg_words_length [of arg] by (simp_all add: arguments_fit_def)
  have "place_user_task env name bytes img ?words (of_nat ?base) (of_nat (?base + 128)) pid k =
      place_arguments space' ?words (of_nat ?base) (of_nat (?base + 128)) pid k1"
    unfolding place_user_task_def assms(5) [symmetric] i prod.case l bool.case t2_def [symmetric] k1_def [symmetric] ..
  also have "\<dots> = (Some pid, upd_task pid (scheduler_init_task_el0 k2) k2)"
    using place_arguments_eq [OF sp(1,2) r(2) sp(3), of k1 ?words ?base pid] plen plen2 tabs room by (simp add: k2_def Let_def)
  finally have e: "place_user_task env name bytes img ?words (of_nat ?base) (of_nat (?base + 128)) pid k =
      (Some pid, upd_task pid (scheduler_init_task_el0 k2) k2)" .
  have t: "tasks k2 = (tasks k)[pid := set_user_arguments (length ?words) (ADDRESS_SPACE_USER_DATA_START + of_nat ?base) (new_user_task env pid name space' (tasks k ! pid))]"
    using pid by (simp add: k2_def k1_def arguments_placed_def upd_task_def)
  have ut: "user_tables_of k2 = with_data_page s (splice (data_page s t2) ?base (argument_block ?base ?words)) t2"
    by (simp add: k2_def arguments_placed_def tabs)
  have sm: "slot_mapped (arrays env) s root (user_tables_of k2)"
    using r(4) by (simp add: ut with_data_page_def t2_def slot_mapped_def)
  have pages: "ut_pages (user_tables_of k2) ! (3 * s) = ut_pages t2 ! (3 * s)"
    "ut_pages (user_tables_of k2) ! (3 * s + 1) = splice (data_page s t2) ?base (argument_block ?base ?words)"
    using r(2) plen2 by (simp_all add: ut with_data_page_def)
  have "program_loaded (arrays env) s root bytes img ?words (scheduler_init_task_el0 k2 (tasks k2 ! pid)) (user_tables_of k2)"
    unfolding program_loaded_def pages page using sm r(1) pid sp
    by (simp add: t scheduler_init_task_el0_def task_space_def new_user_task_def set_user_arguments_def Let_def space_runnable_def)
  then show thesis
    using that [OF e] pid r(2) t
    by (simp add: upd_task_def k2_def k1_def arguments_placed_def scheduler_init_task_el0_def new_user_task_def set_user_arguments_def
        reset_task_def scheduler_init_task_memory_def scheduler_clear_files_def Let_def split: option.split)
qed

lemma unblock_loaded:
  assumes "env_ok (arrays env)" "s < 4" "program_loaded (arrays env) s root bytes img words (tasks k ! p) (user_tables_of k)"
    and "t_state (tasks k ! p) = TASK_BLOCKED" "p < task_count k" "p < length (tasks k)" "unat (ei_entry_offset img) < 4096"
  obtains k' where "scheduler_unblock_user_task env (int p) k = (True, k')" "t_state (tasks k' ! p) = TASK_READY"
    "t_name (tasks k' ! p) = t_name (tasks k ! p)" "k' = k\<lparr>tasks := tasks k'\<rparr>"
    "program_loaded (arrays env) s root bytes img words (tasks k' ! p) (user_tables_of k')"
    "t_entry (tasks k' ! p) = Some scheduler_user_task_entry"
    "t_context (tasks k' ! p) = (t_context (tasks k ! p))\<lparr>cx_sp := scheduler_stack_end env (of_nat p) AND NOT 0xf, cx_lr := code_address env thread_trampoline\<rparr>"
    "\<forall>q. q \<noteq> p \<longrightarrow> tasks k' ! q = tasks k ! q"
proof -
  let ?t = "tasks k ! p"
  let ?sp = "t_user_address_space ?t"
  have own: "task_space k ?t = Some ?sp" "tm_space (t_memory ?t) = OwnSpace" and sp: "space_runnable (arrays env) s root (ei_entry_offset img) ?sp"
    using assms(3) by (simp_all add: program_loaded_def task_space_def)
  have "unat (ADDRESS_SPACE_USER_CODE_START + ei_entry_offset img) \<noteq> 0" using assms(7) by (simp add: unat_word_ariths)
  then have "ADDRESS_SPACE_USER_CODE_START + ei_entry_offset img \<noteq> 0" by (simp only: unat_eq_zero) simp
  then have ready: "user_mode_prepare k (Some ?t) = USER_MODE_READY"
    using own(1) sp assms(3)
    by (simp add: user_mode_prepare_def user_mode_can_enter_def program_loaded_def space_runnable_def user_space_fields_def)
  have "l1_addr (arrays env) s \<noteq> 0" by (rule table_frames(2) [OF assms(1,2)])
  then have stub: "address_space_switch_stub ?sp = (ADDRESS_SPACE_SWITCH_STUB_READY, ?sp\<lparr>as_switch_stub_status := ADDRESS_SPACE_SWITCH_STUB_READY\<rparr>)"
    using sp by (simp add: address_space_switch_stub_def space_runnable_def)
  have runs: "space_runnable (arrays env) s root (ei_entry_offset img) (?sp\<lparr>as_switch_stub_status := ADDRESS_SPACE_SWITCH_STUB_READY\<rparr>)"
    using sp by (simp add: space_runnable_def user_space_fields_def)
  define t' where "t' = upd_user_status (\<lambda>u. u\<lparr>us_admissions := us_admissions u + 1\<rparr>)
      (?t\<lparr>t_user_address_space := ?sp\<lparr>as_switch_stub_status := ADDRESS_SPACE_SWITCH_STUB_READY\<rparr>, t_entry := Some scheduler_user_task_entry,
         t_context := (t_context ?t)\<lparr>cx_sp := scheduler_stack_end env (of_nat p) AND NOT 0xf, cx_lr := code_address env thread_trampoline\<rparr>,
         t_state := TASK_READY\<rparr>)"
  have e: "scheduler_unblock_user_task env (int p) k = (True, k\<lparr>tasks := (tasks k)[p := t']\<rparr>)"
    using assms(4,5,6) own ready stub
    by (simp add: scheduler_unblock_user_task_def valid_pid_def Let_def set_task_space_def upd_task_def t'_def upd_user_status_def)
  have "program_loaded (arrays env) s root bytes img words t' (user_tables_of k)"
    using assms(3) runs by (simp add: program_loaded_def t'_def upd_user_status_def)
  then show thesis by (intro that [OF e]) (use assms(6) in \<open>simp_all add: t'_def upd_user_status_def\<close>)
qed

text \<open>Creating and admitting the task, with everything else that changes in the kernel's state.\<close>

lemma launch_program_file:
  assumes "sched_inv k" "pick_slot k = Some (p, k0)" "env_ok (arrays env)" "user_tables_ok (user_tables_of k)"
    and "find_slot (\<lambda>used. \<not> used) (ut_used (user_tables_of k)) = Some s"
    and "kernel_map_ok (arrays env) (as_root_table (kernel_address_space k))"
    and "saturn_exec_parse bytes n = Some img" "unat n \<le> length bytes" "arguments_fit img (argument_string argument)"
  obtains k1 k2 where "create_user_task_from_file env name (Some (bytes, n)) argument k = (Some p, k1)"
    "scheduler_unblock_user_task env (int p) k1 = (True, k2)" "sched_inv k2" "t_state (tasks k2 ! p) = TASK_READY"
    "t_name (tasks k2 ! p) = (case name of Some n \<Rightarrow> n | None \<Rightarrow> ''user-demo'')"
    "program_loaded (arrays env) s (as_root_table (kernel_address_space k)) bytes img (arg_words (argument_string argument))
       (tasks k2 ! p) (user_tables_of k2)"
    "\<forall>q. q \<noteq> p \<longrightarrow> tasks k2 ! q = tasks k ! q"
    "k2 = k\<lparr>tasks := tasks k2, task_count := task_count k2, user_tables_of := user_tables_of k2\<rparr>" "task_count k2 = task_count k0"
proof -
  let ?root = "as_root_table (kernel_address_space k)" and ?words = "arg_words (argument_string argument)"
  note pick = pick_slot_SomeD [OF assms(1,2)]
  have k0: "user_tables_of k0 = user_tables_of k" "kernel_address_space k0 = kernel_address_space k" "tasks k0 = tasks k" by (subst pick(6), simp)+
  have len: "length (tasks k) = 8" using sched_invD(1) [OF assms(1)] by simp
  have room0: "user_tables_ok (user_tables_of k0)" "find_slot (\<lambda>used. \<not> used) (ut_used (user_tables_of k0)) = Some s"
    and root0: "?root = as_root_table (kernel_address_space k0)" using assms(4,5) k0 by simp_all
  have pid0: "p < length (tasks k0)" using pick(2) len k0(3) by simp
  obtain k1 where k1: "place_user_task env (case name of Some n \<Rightarrow> n | None \<Rightarrow> ''user-demo'') bytes img ?words
      (of_nat (argument_offset img)) (of_nat (argument_offset img + 128)) p k0 = (Some p, k1)"
    "task_count k1 = task_count k0" "length (tasks k1) = length (tasks k0)" "\<forall>q. q \<noteq> p \<longrightarrow> tasks k1 ! q = tasks k0 ! q"
    "t_state (tasks k1 ! p) = TASK_BLOCKED" "t_name (tasks k1 ! p) = (case name of Some n \<Rightarrow> n | None \<Rightarrow> ''user-demo'')"
    "k1 = k0\<lparr>tasks := tasks k1, user_tables_of := user_tables_of k1\<rparr>"
    "program_loaded (arrays env) s ?root bytes img ?words (tasks k1 ! p) (user_tables_of k1)" "s < 4"
    by (rule place_user_task_eq [OF assms(3) room0 assms(6) root0 assms(7,8,9) pid0, of "case name of Some n \<Rightarrow> n | None \<Rightarrow> ''user-demo''"])
  have create: "create_user_task_from_file env name (Some (bytes, n)) argument k = (Some p, k1)"
    using plan_eq [OF assms(7), of argument] assms(2,9) k1(1) by (simp add: create_user_task_from_file_def)
  have entry: "unat (ei_entry_offset img) < 4096" using parse_facts(4,6) [OF assms(7)] by (simp add: word_less_nat_alt)
  have bounds: "p < task_count k1" "p < length (tasks k1)" using k1(2,3) pick(2,5) len k0(3) by simp_all
  obtain k2 where k2: "scheduler_unblock_user_task env (int p) k1 = (True, k2)" "t_state (tasks k2 ! p) = TASK_READY"
    "t_name (tasks k2 ! p) = t_name (tasks k1 ! p)" "k2 = k1\<lparr>tasks := tasks k2\<rparr>"
    "program_loaded (arrays env) s ?root bytes img ?words (tasks k2 ! p) (user_tables_of k2)" "t_entry (tasks k2 ! p) = Some scheduler_user_task_entry"
    "t_context (tasks k2 ! p) = (t_context (tasks k1 ! p))\<lparr>cx_sp := scheduler_stack_end env (of_nat p) AND NOT 0xf, cx_lr := code_address env thread_trampoline\<rparr>"
    "\<forall>q. q \<noteq> p \<longrightarrow> tasks k2 ! q = tasks k1 ! q"
    by (rule unblock_loaded [OF assms(3) k1(9,8,5) bounds entry])
  have inv: "sched_inv k2"
    using unblock_user_inv [OF create_user_inv [OF assms(1)], of env "int p" env name "Some (bytes, n)" argument] create k2(1) by simp
  have others: "\<forall>q. q \<noteq> p \<longrightarrow> tasks k2 ! q = tasks k ! q" using k2(8) k1(4) k0(3) by simp
  have frame: "k2 = k\<lparr>tasks := tasks k2, task_count := task_count k2, user_tables_of := user_tables_of k2\<rparr>"
    by (subst k2(4), subst k1(7), subst pick(6)) (simp add: k2(4) [THEN arg_cong, of task_count] k2(4) [THEN arg_cong, of user_tables_of] k1(2))
  have name: "t_name (tasks k2 ! p) = (case name of Some n \<Rightarrow> n | None \<Rightarrow> ''user-demo'')" using k2(3) k1(6) by simp
  have "task_count k2 = task_count k0" using arg_cong [OF k2(4), of task_count] k1(2) by simp
  then show thesis by (rule that [OF create k2(1) inv k2(2) name k2(5) others frame])
qed

section \<open>Properties\<close>

text \<open>Without a free slot of the tables the image is refused, and everything but the unused task is as before.\<close>

lemma launch_without_slot:
  assumes "sched_inv k" "pick_slot k = Some (p, k0)" "find_slot (\<lambda>used. \<not> used) (ut_used (user_tables_of k)) = None"
    and "saturn_exec_parse bytes n = Some img" "arguments_fit img (argument_string argument)"
  obtains k1 where "create_user_task_from_file env name (Some (bytes, n)) argument k = (None, k1)" "user_tables_of k1 = user_tables_of k"
    "\<forall>q. t_state (tasks k ! q) \<noteq> TASK_UNUSED \<longrightarrow> tasks k1 ! q = tasks k ! q"
proof -
  note pick = pick_slot_SomeD [OF assms(1,2)]
  have k0: "user_tables_of k0 = user_tables_of k" "tasks k0 = tasks k" by (subst pick(6), simp)+
  let ?name = "case name of Some n \<Rightarrow> n | None \<Rightarrow> ''user-demo''"
  obtain sp where sp: "address_space_init_user (arrays env) (Some ?name) (as_root_table (kernel_address_space k0)) (user_tables_of k0) =
      (sp, user_tables_of k0)" "as_user_table_slot sp = 4"
    using assms(3) by (auto simp: k0(1) elim: init_user_full)
  have "create_user_task_from_file env name (Some (bytes, n)) argument k = (None, drop_new_task p sp k0)"
    using plan_eq [OF assms(4), of argument] assms(2,5) sp
    by (simp add: create_user_task_from_file_def place_user_task_def address_space_load_user_image_def)
  moreover have "user_tables_of (drop_new_task p sp k0) = user_tables_of k"
    "tasks (drop_new_task p sp k0) = (tasks k)[p := (tasks k ! p)\<lparr>t_user_address_space := sp\<rparr>]"
    using sp(2) k0 by (simp_all add: drop_new_task_def address_space_destroy_user_def upd_task_def Let_def)
  moreover have "\<forall>q. t_state (tasks k ! q) \<noteq> TASK_UNUSED \<longrightarrow> q \<noteq> p" using pick(4) by blast
  ultimately show thesis by (intro that [of "drop_new_task p sp k0"]) (simp_all, metis nth_list_update_neq)
qed

text \<open>
  C6: creating a user task from an executable the parser accepts succeeds exactly when its arguments are within
  the limits of the source, the task table has a free entry and the user tables have a free slot. Then
  the task can be admitted: it is ready, its space passes validation, its entry state is the program's entry
  point and the top of the user stack, its pages hold the code and the data of the file followed by zeros,
  and behind the data the addresses and lengths of the arguments and the arguments themselves, where the
  task's argument registers point to; no other task changes. Otherwise no table and no task in use changes,
  and the task table stays well formed.
\<close>

theorem user_task_launches:
  assumes "sched_inv k" "env_ok (arrays env)" "user_tables_ok (user_tables_of k)"
    and "kernel_map_ok (arrays env) (as_root_table (kernel_address_space k))"
    and "saturn_exec_parse bytes n = Some img" "unat n \<le> length bytes"
  shows "if arguments_fit img (argument_string argument) \<and> pick_slot k \<noteq> None \<and>
      find_slot (\<lambda>used. \<not> used) (ut_used (user_tables_of k)) \<noteq> None
    then \<exists>p k0 s k1 k2. pick_slot k = Some (p, k0) \<and> find_slot (\<lambda>used. \<not> used) (ut_used (user_tables_of k)) = Some s \<and>
      create_user_task_from_file env name (Some (bytes, n)) argument k = (Some p, k1) \<and>
      scheduler_unblock_user_task env (int p) k1 = (True, k2) \<and> sched_inv k2 \<and> t_state (tasks k2 ! p) = TASK_READY \<and>
      program_loaded (arrays env) s (as_root_table (kernel_address_space k)) bytes img (arg_words (argument_string argument))
        (tasks k2 ! p) (user_tables_of k2) \<and>
      (\<forall>q. q \<noteq> p \<longrightarrow> tasks k2 ! q = tasks k ! q)
    else \<exists>k1. create_user_task_from_file env name (Some (bytes, n)) argument k = (None, k1) \<and> sched_inv k1 \<and>
      user_tables_of k1 = user_tables_of k \<and> (\<forall>q. t_state (tasks k ! q) \<noteq> TASK_UNUSED \<longrightarrow> tasks k1 ! q = tasks k ! q)"
proof (cases "arguments_fit img (argument_string argument) \<and> pick_slot k \<noteq> None")
  case False
  then have "create_user_task_from_file env name (Some (bytes, n)) argument k = (None, k)"
    using plan_eq [OF assms(5), of argument] by (auto simp: create_user_task_from_file_def split: option.split)
  then show ?thesis using False assms(1) by auto
next
  case True
  then obtain p k0 where fit: "arguments_fit img (argument_string argument)" and p: "pick_slot k = Some (p, k0)" by auto
  show ?thesis
  proof (cases "find_slot (\<lambda>used. \<not> used) (ut_used (user_tables_of k))")
    case None
    obtain k1 where k1: "create_user_task_from_file env name (Some (bytes, n)) argument k = (None, k1)" "user_tables_of k1 = user_tables_of k"
      "\<forall>q. t_state (tasks k ! q) \<noteq> TASK_UNUSED \<longrightarrow> tasks k1 ! q = tasks k ! q"
      by (rule launch_without_slot [OF assms(1) p None assms(5) fit])
    moreover have "sched_inv k1" using create_user_inv [OF assms(1), of env name "Some (bytes, n)" argument] k1(1) by simp
    ultimately show ?thesis using None by simp
  next
    case (Some s)
    obtain k1 k2 where "create_user_task_from_file env name (Some (bytes, n)) argument k = (Some p, k1)"
      "scheduler_unblock_user_task env (int p) k1 = (True, k2)" "sched_inv k2" "t_state (tasks k2 ! p) = TASK_READY"
      "program_loaded (arrays env) s (as_root_table (kernel_address_space k)) bytes img (arg_words (argument_string argument))
        (tasks k2 ! p) (user_tables_of k2)" "\<forall>q. q \<noteq> p \<longrightarrow> tasks k2 ! q = tasks k ! q"
      by (rule launch_program_file [OF assms(1) p assms(2,3) Some assms(4-6) fit, of name])
    then show ?thesis using fit p Some by auto
  qed
qed

lemma sched_start_fields:
  "kernel_address_space (sched_start env root regs mregs) = fst (address_space_init root user_tables_boot)"
  "user_tables_of (sched_start env root regs mregs) = snd (address_space_init root user_tables_boot)"
  "mmu (sched_start env root regs mregs) = mregs"
  unfolding sched_start_eq by (simp_all add: scheduler_add_task_def pick_slot_def kernel_boot_def upd_task_def Let_def)

lemma address_space_init_boot:
  "as_root_table (fst (address_space_init root user_tables_boot)) = root" "snd (address_space_init root user_tables_boot) = user_tables_boot"
  by (simp_all add: address_space_init_def user_tables_boot_def)

text \<open>A program of one instruction and two bytes of data, started with the arguments a and bc.\<close>

theorem user_task_launches_witness:
  "\<exists>k1 k2. create_user_task_from_file sample_kenv None (Some (exec_encode [0, 0, 0x20, 0xd4] [1, 2] 0, 30)) (Some [0x61, 0x20, 0x62, 0x63]) sample_start = (Some 1, k1) \<and>
     scheduler_unblock_user_task sample_kenv 1 k1 = (True, k2) \<and> t_user_argc (tasks k2 ! 1) = 2 \<and>
     ut_pages (user_tables_of k2) ! 1 =
       [1, 2] @ replicate 6 0 @ pad_words [0x200088, 0x20008a] @ pad_words [1, 2] @ [0x61, 0, 0x62, 0x63, 0] @ replicate 3955 0"
proof -
  let ?f = "exec_encode [0, 0, 0x20, 0xd4] [1, 2] 0"
  let ?img = "\<lparr>ei_code = 24, ei_data = 28, ei_code_size = 4, ei_data_size = 2, ei_entry_offset = 0\<rparr>"
  have "exec_fits [0, 0, 0x20, 0xd4] [1, 2] 0" by (simp add: exec_fits_def)
  from exec_parse_encode [OF this] have parse: "saturn_exec_parse ?f 30 = Some ?img" by simp
  have pick: "pick_slot sample_start = Some (1, sample_start\<lparr>task_count := 2\<rparr>)"
    using sched_start_views(2) by (simp add: pick_slot_def)
  have words: "arg_words [0x61, 0x20, 0x62, 0x63] = [[0x61], [0x62, 0x63]]"
    by (simp add: arg_words.simps Let_def)
  have fit: "arguments_fit ?img [0x61, 0x20, 0x62, 0x63]" by (simp add: arguments_fit_def argument_offset_def words)
  have sl: "slice 28 2 ?f = [1, 2]" by (simp add: slice_def exec_encode_def)
  have env: "env_ok (arrays sample_kenv)" "kernel_map_ok (arrays sample_kenv) (as_root_table (kernel_address_space sample_start))"
    using sample_env_ok(1,2) by (simp_all add: sample_kenv_def sched_start_fields address_space_init_boot)
  have room: "user_tables_ok (user_tables_of sample_start)" "find_slot (\<lambda>used. \<not> used) (ut_used (user_tables_of sample_start)) = Some 0"
    using sample_env_ok(4,5) by (simp_all add: sched_start_fields address_space_init_boot)
  have len: "unat (30 :: u64) \<le> length ?f" by simp
  obtain k1 k2 where k: "create_user_task_from_file sample_kenv None (Some (?f, 30)) (Some [0x61, 0x20, 0x62, 0x63]) sample_start = (Some 1, k1)"
    "scheduler_unblock_user_task sample_kenv (int 1) k1 = (True, k2)"
    "program_loaded (arrays sample_kenv) 0 (as_root_table (kernel_address_space sample_start)) ?f ?img [[0x61], [0x62, 0x63]] (tasks k2 ! 1) (user_tables_of k2)"
    using user_task_launches [OF sched_start_inv env(1) room(1) env(2) parse len, of "Some [0x61, 0x20, 0x62, 0x63]" None] fit pick room(2)
    by (auto simp: words)
  have "ut_pages (user_tables_of k2) ! 1 = splice ([1, 2] @ replicate 4094 0) 8 (argument_block 8 [[0x61], [0x62, 0x63]])"
    using k(3) sl by (simp add: program_loaded_def argument_offset_def)
  also have "\<dots> = [1, 2] @ replicate 6 0 @ pad_words [0x200088, 0x20008a] @ pad_words [1, 2] @ [0x61, 0, 0x62, 0x63, 0] @ replicate 3955 0"
    by (simp add: splice_def argument_block_def)
  finally show ?thesis using k by (intro exI [of _ k1] exI [of _ k2]) (simp add: program_loaded_def)
qed

end
