(* ===== verification/SpaceSlots.thy ===== *)
theory SpaceSlots
  imports SchedulerProps
begin

text \<open>
  The slots of kernel/memory/address_space.c under the scheduler of kernel/sched/scheduler.c. A slot is in use
  exactly when one task owns it: no two tasks share one, and none is lost. The lists that stand for the
  arrays of tables and page frames keep the lengths of the source on the way.
\<close>

section \<open>Operations of the address spaces\<close>

definition all_length :: "nat \<Rightarrow> 'a list list \<Rightarrow> bool" where
  "all_length n xss \<longleftrightarrow> (\<forall>xs\<in>set xss. length xs = n)"

lemma all_length_update: "all_length n xss \<Longrightarrow> length xs = n \<Longrightarrow> all_length n (xss[i := xs])"
  using set_update_subset_insert [of xss i xs] by (auto simp: all_length_def)

lemma all_length_nth: "all_length n xss \<Longrightarrow> i < length xss \<Longrightarrow> length (xss ! i) = n"
  by (simp add: all_length_def)

lemma user_tables_ok_iff:
  "user_tables_ok t \<longleftrightarrow>
     length (ut_l1 t) = 4 \<and> length (ut_l2 t) = 4 \<and> length (ut_l3 t) = 12 \<and> length (ut_pages t) = 12 \<and> length (ut_used t) = 4 \<and>
     all_length 512 (ut_l1 t) \<and> all_length 512 (ut_l2 t) \<and> all_length 512 (ut_l3 t) \<and> all_length 4096 (ut_pages t)"
  by (simp add: user_tables_ok_def all_length_def)

lemma clear_lengths [simp]: "length address_space_clear_table = 512" "length address_space_clear_page = 4096"
  by (simp_all add: address_space_clear_table_def address_space_clear_page_def)

lemma clear_slot_ok: "user_tables_ok t \<Longrightarrow> user_tables_ok (clear_slot s t)"
  by (simp add: clear_slot_eq user_tables_ok_iff all_length_update)

lemma used_ok [simp]: "length u = length (ut_used t) \<Longrightarrow> user_tables_ok (t\<lparr>ut_used := u\<rparr>) = user_tables_ok t"
  by (simp add: user_tables_ok_iff)

definition regions_typed :: "nat \<times> u64 list \<times> u64 list list \<Rightarrow> bool" where
  "regions_typed st \<longleftrightarrow> length (fst (snd st)) = 512 \<and> length (snd (snd st)) = 12 \<and> all_length 512 (snd (snd st))"

lemma install_region_typed: "regions_typed st \<Longrightarrow> regions_typed (install_region env slot space i st)"
  by (auto simp: regions_typed_def install_region_def Let_def all_length_update split: prod.split)

lemma install_regions_typed: "regions_typed st \<Longrightarrow> regions_typed (fold (install_region env slot space) is st)"
  by (induction "is" arbitrary: st) (simp_all add: install_region_typed)

lemma install_user_descriptors_ok:
  assumes "user_tables_ok t"
  shows "user_tables_ok (snd (snd (address_space_install_user_descriptors env space t)))"
proof (cases "as_user_table_slot space \<ge> ADDRESS_SPACE_USER_TABLE_SLOTS")
  case True
  then show ?thesis using assms by (simp add: address_space_install_user_descriptors_def)
next
  case False
  let ?slot = "as_user_table_slot space"
  obtain shared l1 l2 where m: "address_space_install_shared_kernel_map env space (l2_addr env ?slot) (address_space_clear_table, address_space_clear_table) = (shared, l1, l2)"
    by (rule prod_cases3)
  then have l: "length l1 = 512" "length l2 = 512"
    by (auto simp: address_space_install_shared_kernel_map_def Let_def split: if_splits)
  let ?space = "space\<lparr>as_shared_kernel_map := shared\<rparr>"
  obtain n l2' l3s where f: "fold (install_region env ?slot ?space) [0..<as_user_descriptor_count space] (0, l2, ut_l3 t) = (n, l2', l3s)"
    by (rule prod_cases3)
  have "regions_typed (n, l2', l3s)"
    unfolding f [symmetric] by (rule install_regions_typed) (use assms l in \<open>simp add: regions_typed_def user_tables_ok_iff\<close>)
  then show ?thesis
    using False assms l m f by (simp add: address_space_install_user_descriptors_def Let_def user_tables_ok_iff regions_typed_def all_length_update)
qed

lemma init_user_ok:
  assumes "user_tables_ok t"
  shows "user_tables_ok (snd (address_space_init_user env name root t))"
proof -
  have "user_tables_ok (snd (address_space_alloc_user_table_slot t))"
    using assms by (simp add: address_space_alloc_user_table_slot_def clear_slot_ok split: option.split)
  from install_user_descriptors_ok [OF this] show ?thesis
    by (simp add: address_space_init_user_def Let_def split: prod.split) (metis snd_conv)
qed

lemma destroy_user_ok: "user_tables_ok t \<Longrightarrow> user_tables_ok (snd (address_space_destroy_user space t))"
  by (simp add: address_space_destroy_user_def Let_def clear_slot_eq user_tables_ok_iff all_length_update)

lemma load_user_image_ok:
  assumes "user_tables_ok t"
  shows "user_tables_ok (snd (snd (address_space_load_user_image code code_size data data_size entry space t)))"
proof -
  have "length (splice address_space_clear_page 0 (take (unat n) xs)) = 4096" if "\<not> n > ARM64_PAGE_SIZE" for n xs
    using that by (subst length_splice) (auto simp: word_less_nat_alt)
  then show ?thesis
    using assms by (simp add: address_space_load_user_image_def Let_def user_tables_ok_iff all_length_update)
qed

lemma write_user_data_ok:
  assumes "user_tables_ok t"
  shows "user_tables_ok (snd (address_space_write_user_data off xs n space t))"
proof (cases "as_kind space \<noteq> ADDRESS_SPACE_USER \<or> as_user_table_slot space \<ge> ADDRESS_SPACE_USER_TABLE_SLOTS \<or> off > ARM64_PAGE_SIZE \<or> n > ARM64_PAGE_SIZE - off")
  case True
  then show ?thesis unfolding address_space_write_user_data_def if_P [OF True] using assms by simp
next
  case False
  let ?k = "3 * as_user_table_slot space + 1"
  have "unat (ARM64_PAGE_SIZE - off) = 4096 - unat off" using False by (subst unat_diff_le) (auto simp: word_less_nat_alt word_le_nat_alt)
  then have "unat off + unat n \<le> 4096" using False by (auto simp: word_less_nat_alt)
  moreover have "length (ut_pages t ! ?k) = 4096" using assms False by (intro all_length_nth) (auto simp: user_tables_ok_iff)
  ultimately have "length (splice (ut_pages t ! ?k) (unat off) (take (unat n) xs)) = 4096" by (subst length_splice) auto
  then show ?thesis
    unfolding address_space_write_user_data_def if_not_P [OF False] Let_def using assms by (simp add: user_tables_ok_iff all_length_update)
qed

lemmas space_ops_ok = init_user_ok destroy_user_ok load_user_image_ok write_user_data_ok

lemma init_user_slot:
  assumes "address_space_init_user env name root t = (space, t')"
  shows "as_kind space = ADDRESS_SPACE_USER"
    "as_user_table_slot space = (case find_slot (\<lambda>used. \<not> used) (ut_used t) of Some s \<Rightarrow> s | None \<Rightarrow> ADDRESS_SPACE_USER_TABLE_SLOTS)"
    "ut_used t' = (case find_slot (\<lambda>used. \<not> used) (ut_used t) of Some s \<Rightarrow> (ut_used t)[s := True] | None \<Rightarrow> ut_used t)"
proof -
  obtain a t1 n sp t2 where e: "address_space_alloc_user_table_slot t = (a, t1)"
    "address_space_install_user_descriptors env (user_space_base env name root a) t1 = (n, sp, t2)" "space = user_space_finish n sp" "t' = t2"
    using assms by (auto simp: address_space_init_user_def Let_def split: prod.splits)
  have sp: "as_kind sp = as_kind (user_space_base env name root a) \<and> as_user_table_slot sp = as_user_table_slot (user_space_base env name root a) \<and> ut_used t2 = ut_used t1"
    using e(2) by (auto simp: address_space_install_user_descriptors_def Let_def split: if_splits prod.splits)
  have a: "a = find_slot (\<lambda>used. \<not> used) (ut_used t)"
    "ut_used t1 = (case find_slot (\<lambda>used. \<not> used) (ut_used t) of Some s \<Rightarrow> (ut_used t)[s := True] | None \<Rightarrow> ut_used t)"
    using e(1) by (auto simp: address_space_alloc_user_table_slot_def clear_slot_def split: option.splits)
  show "as_kind space = ADDRESS_SPACE_USER"
    "as_user_table_slot space = (case find_slot (\<lambda>used. \<not> used) (ut_used t) of Some s \<Rightarrow> s | None \<Rightarrow> ADDRESS_SPACE_USER_TABLE_SLOTS)"
    using sp unfolding e(3) a(1) [symmetric]
    by (simp_all add: user_space_finish_def Let_def user_space_base_def address_space_set_user_region_def address_space_clear_user_regions_def)
  show "ut_used t' = (case find_slot (\<lambda>used. \<not> used) (ut_used t) of Some s \<Rightarrow> (ut_used t)[s := True] | None \<Rightarrow> ut_used t)"
    using sp a(2) e(4) by simp
qed

lemma load_user_image_slot:
  assumes "address_space_load_user_image code code_size data data_size entry space t = (ok, space', t')"
  shows "as_kind space' = as_kind space" "as_user_table_slot space' = as_user_table_slot space" "ut_used t' = ut_used t"
    "ok \<Longrightarrow> as_user_table_slot space < 4"
  using assms by (auto simp: address_space_load_user_image_def Let_def split: if_splits)

lemma write_user_data_used: "ut_used (snd (address_space_write_user_data off xs n space t)) = ut_used t"
  by (simp add: address_space_write_user_data_def Let_def)

lemma write_arguments_tables:
  assumes "write_arguments space words cursor t = (ok, args, t')" "user_tables_ok t"
  shows "user_tables_ok t' \<and> ut_used t' = ut_used t"
  using assms
proof (induction words arbitrary: cursor t ok args t')
  case (Cons w ws)
  obtain ok1 t1 where w1: "address_space_write_user_data cursor w (of_nat (length w)) space t = (ok1, t1)" by (rule prod.exhaust)
  obtain ok2 t2 where w2: "address_space_write_user_data (cursor + of_nat (length w)) [0] 1 space t1 = (ok2, t2)" by (rule prod.exhaust)
  obtain ok3 a3 t3 where w3: "write_arguments space ws (cursor + of_nat (length w) + 1) t2 = (ok3, a3, t3)" by (rule prod_cases3)
  have t1: "user_tables_ok t1" "ut_used t1 = ut_used t"
    using write_user_data_ok [of t cursor w "of_nat (length w)" space] write_user_data_used [of cursor w "of_nat (length w)" space t] w1 by (simp_all add: Cons.prems)
  then have t2: "user_tables_ok t2" "ut_used t2 = ut_used t"
    using write_user_data_ok [of t1 "cursor + of_nat (length w)" "[0]" 1 space] write_user_data_used [of "cursor + of_nat (length w)" "[0]" 1 space t1] w2 by simp_all
  note ih = Cons.IH [OF w3 t2(1)]
  have "t' = (if ok1 then t3 else t1)" using Cons.prems(1) w1 w2 w3 by (cases ok1) (auto simp: Let_def)
  then show ?case using t1 t2 ih by simp
qed simp

section \<open>Owners of slots\<close>

text \<open>What matters of a task: the space its pointer leads to, with its slot and kind.\<close>

definition sview :: "task \<Rightarrow> space_ref \<times> nat \<times> address_space_kind" where
  "sview t = (tm_space (t_memory t), as_user_table_slot (t_user_address_space t), as_kind (t_user_address_space t))"

definition owns_slot :: "task \<Rightarrow> nat \<Rightarrow> bool" where
  "owns_slot t s \<longleftrightarrow> tm_space (t_memory t) = OwnSpace \<and> as_user_table_slot (t_user_address_space t) = s \<and> s < 4"

definition owner :: "kernel \<Rightarrow> nat \<Rightarrow> nat \<Rightarrow> bool" where
  "owner k i s \<longleftrightarrow> i < length (tasks k) \<and> owns_slot (tasks k ! i) s"

definition kview :: "address_space \<Rightarrow> address_space_kind \<times> u64" where
  "kview space = (as_kind space, as_root_table space)"

definition slots_inv :: "u64 \<Rightarrow> kernel \<Rightarrow> bool" where
  "slots_inv root k \<longleftrightarrow>
     user_tables_ok (user_tables_of k) \<and> kview (kernel_address_space k) = (ADDRESS_SPACE_KERNEL, root) \<and>
     (\<forall>s<4. ut_used (user_tables_of k) ! s \<longleftrightarrow> (\<exists>i. owner k i s)) \<and>
     (\<forall>i j s. owner k i s \<longrightarrow> owner k j s \<longrightarrow> i = j) \<and>
     (\<forall>i s. owner k i s \<longrightarrow> t_state (tasks k ! i) \<noteq> TASK_UNUSED \<and> as_kind (t_user_address_space (tasks k ! i)) = ADDRESS_SPACE_USER)"

lemmas slots_invD = slots_inv_def [THEN iffD1]

section \<open>Operations that leave the spaces alone\<close>

definition spaces_kept :: "kernel \<Rightarrow> kernel \<Rightarrow> bool" where
  "spaces_kept k k' \<longleftrightarrow>
     length (tasks k') = length (tasks k) \<and> user_tables_of k' = user_tables_of k \<and>
     kview (kernel_address_space k') = kview (kernel_address_space k) \<and>
     (\<forall>i<length (tasks k). sview (tasks k' ! i) = sview (tasks k ! i) \<and>
        (t_state (tasks k' ! i) = TASK_UNUSED \<longrightarrow> t_state (tasks k ! i) = TASK_UNUSED))"

lemma spaces_kept_refl [simp]: "spaces_kept k k"
  by (simp add: spaces_kept_def)

lemma spaces_kept_trans [trans]: "spaces_kept k k' \<Longrightarrow> spaces_kept k' k'' \<Longrightarrow> spaces_kept k k''"
  by (simp add: spaces_kept_def)

lemma owns_slot_sview: "owns_slot t s \<longleftrightarrow> fst (sview t) = OwnSpace \<and> fst (snd (sview t)) = s \<and> s < 4"
  by (simp add: owns_slot_def sview_def)

lemma slots_inv_kept:
  assumes "spaces_kept k k'" "slots_inv root k"
  shows "slots_inv root k'"
proof -
  have o: "owner k' i s = owner k i s" for i s
    using assms(1) by (auto simp: owner_def owns_slot_sview spaces_kept_def)
  have "as_kind (t_user_address_space (tasks k' ! i)) = as_kind (t_user_address_space (tasks k ! i)) \<and>
      (t_state (tasks k' ! i) = TASK_UNUSED \<longrightarrow> t_state (tasks k ! i) = TASK_UNUSED)" if "owner k i s" for i s
    using assms(1) that by (auto simp: owner_def spaces_kept_def sview_def)
  then show ?thesis using assms unfolding slots_inv_def o spaces_kept_def by metis
qed

lemma upd_task_kept:
  assumes "sview (f (tasks k ! i)) = sview (tasks k ! i)" "t_state (f (tasks k ! i)) = TASK_UNUSED \<Longrightarrow> t_state (tasks k ! i) = TASK_UNUSED"
  shows "spaces_kept k (upd_task i f k)"
  using assms by (cases "i < length (tasks k)") (auto simp: spaces_kept_def upd_task_def nth_list_update list_update_beyond not_less)

lemma sview_upds [simp]:
  "sview (upd_accounting g t) = sview t" "sview (upd_user_status h t) = sview t" "sview (set_state st t) = sview t"
  "sview (t\<lparr>t_state := st\<rparr>) = sview t" "sview (t\<lparr>t_context := c\<rparr>) = sview t" "sview (t\<lparr>t_entry := e\<rparr>) = sview t"
  "sview (t\<lparr>t_sleep_until_tick := a\<rparr>) = sview t" "sview (t\<lparr>t_sleep_requested_ms := b\<rparr>) = sview t" "sview (t\<lparr>t_parent_pid := p\<rparr>) = sview t"
  by (simp_all add: sview_def upd_accounting_def upd_user_status_def set_state_def)

lemma state_upds [simp]:
  "t_state (upd_accounting g t) = t_state t" "t_state (upd_user_status h t) = t_state t" "t_state (set_state st t) = st"
  by (simp_all add: upd_accounting_def upd_user_status_def set_state_def)

lemma same_tasks_kept:
  "tasks k' = tasks k \<Longrightarrow> user_tables_of k' = user_tables_of k \<Longrightarrow> kernel_address_space k' = kernel_address_space k \<Longrightarrow> spaces_kept k k'"
  by (simp add: spaces_kept_def)

lemma stub_kept:
  assumes "task_space k (tasks k ! i) = Some space" "address_space_switch_stub space = (status, space')"
  shows "spaces_kept k (set_task_space i space' k)"
proof -
  have s: "as_kind space' = as_kind space" "as_user_table_slot space' = as_user_table_slot space" "as_root_table space' = as_root_table space"
    using assms(2) by (auto simp: address_space_switch_stub_def Let_def)
  show ?thesis
  proof (cases "tm_space (t_memory (tasks k ! i))")
    case NoSpace
    then show ?thesis using assms(1) by (simp add: task_space_def)
  next
    case KernelSpace
    then show ?thesis using assms(1) s by (simp add: set_task_space_def task_space_def spaces_kept_def kview_def)
  next
    case OwnSpace
    then show ?thesis using assms(1) s
      by (auto simp: set_task_space_def task_space_def sview_def intro!: upd_task_kept)
  qed
qed

text \<open>Each rule extends a state whose spaces are those of the first one by one more operation.\<close>

named_theorems kept_intros \<open>operations that leave the address spaces and their owners alone\<close>

lemma kept_upd [kept_intros]:
  assumes "spaces_kept k k1" "\<And>t. sview (f t) = sview t" "\<And>t. t_state (f t) = TASK_UNUSED \<Longrightarrow> t_state t = TASK_UNUSED"
  shows "spaces_kept k (upd_task i f k1)"
  using spaces_kept_trans [OF assms(1) upd_task_kept] assms(2,3) by simp

lemma kept_fields [kept_intros]:
  "spaces_kept k k1 \<Longrightarrow> spaces_kept k (k1\<lparr>current_task := n\<rparr>)" "spaces_kept k k1 \<Longrightarrow> spaces_kept k (k1\<lparr>task_count := n\<rparr>)"
  "spaces_kept k k1 \<Longrightarrow> spaces_kept k (k1\<lparr>scheduler_ticks := u\<rparr>)" "spaces_kept k k1 \<Longrightarrow> spaces_kept k (k1\<lparr>threads_started := b\<rparr>)"
  "spaces_kept k k1 \<Longrightarrow> spaces_kept k (k1\<lparr>cpu := c\<rparr>)" "spaces_kept k k1 \<Longrightarrow> spaces_kept k (k1\<lparr>bootstrap_context := c\<rparr>)"
  "spaces_kept k k1 \<Longrightarrow> spaces_kept k (k1\<lparr>elr_el1 := u\<rparr>)" "spaces_kept k k1 \<Longrightarrow> spaces_kept k (k1\<lparr>spsr_el1 := u\<rparr>)"
  "spaces_kept k k1 \<Longrightarrow> spaces_kept k (switch_root u k1)" "spaces_kept k k1 \<Longrightarrow> spaces_kept k (upd_session g k1)"
  "spaces_kept k k1 \<Longrightarrow> spaces_kept k (switch_resume_root i k1)" "spaces_kept k k1 \<Longrightarrow> spaces_kept k (scheduler_trim_unused_tail k1)"
  by (simp_all add: spaces_kept_def switch_root_def upd_session_def switch_resume_root_def scheduler_trim_unused_tail_def Let_def)

lemma kept_wake [kept_intros]:
  assumes "spaces_kept k k1"
  shows "spaces_kept k (scheduler_wake_sleeping_tasks k1)"
proof -
  have "sview (wake_task u t) = sview t \<and> (t_state (wake_task u t) = TASK_UNUSED \<longrightarrow> t_state t = TASK_UNUSED)" for u t
    by (simp add: wake_task_def sview_def upd_accounting_def)
  then have "spaces_kept k1 (scheduler_wake_sleeping_tasks k1)"
    by (simp add: spaces_kept_def wake_fields wake_nth)
  with assms show ?thesis by (rule spaces_kept_trans)
qed

lemma kept_task_ops [kept_intros]:
  "spaces_kept k k1 \<Longrightarrow> spaces_kept k (scheduler_set_running_task i k1)"
  "spaces_kept k k1 \<Longrightarrow> spaces_kept k (upd_task i demote k1)"
  "spaces_kept k k1 \<Longrightarrow> spaces_kept k (cpu_switch_to a b k1)"
  "spaces_kept k k1 \<Longrightarrow> spaces_kept k (upd_session_task h k1)"
  by (auto simp: scheduler_set_running_task_def cpu_switch_to_def Let_def demote_def upd_session_task_def split: if_splits option.split
      intro!: kept_intros)

lemma kept_orphan [kept_intros]:
  assumes "spaces_kept k k1"
  shows "spaces_kept k (orphan_children i k1)"
proof -
  have "spaces_kept k1 (orphan_children i k1)" by (auto simp: spaces_kept_def orphan_children_def)
  with assms show ?thesis by (rule spaces_kept_trans)
qed

lemma kept_yield: "scheduler_yield k1 = Some k' \<Longrightarrow> spaces_kept k k1 \<Longrightarrow> spaces_kept k k'"
  unfolding scheduler_yield_def Let_def
  by (auto split: if_splits intro!: kept_intros)

lemma kept_sleep: "scheduler_sleep_ms interval ms k = Some k' \<Longrightarrow> spaces_kept k k'"
  unfolding scheduler_sleep_ms_def Let_def
  by (auto split: if_splits elim!: kept_yield intro!: kept_intros)

lemma kept_exit: "scheduler_exit k = Some k' \<Longrightarrow> spaces_kept k k'"
  unfolding scheduler_exit_def scheduler_exit_task_def
  by (auto split: option.splits if_splits elim!: kept_yield intro!: kept_intros)

lemma kept_tick: "spaces_kept k (scheduler_tick k)"
  unfolding scheduler_tick_def Let_def by (auto intro!: kept_intros)

lemma kept_preempt: "spaces_kept k (scheduler_preempt k)"
  unfolding scheduler_preempt_def Let_def by (auto simp: demote_def intro!: kept_intros split: if_splits)

lemma kept_start: "spaces_kept k (scheduler_start_threads k)"
  unfolding scheduler_start_threads_def Let_def by (auto intro!: kept_intros)

lemma kept_control:
  "spaces_kept k (snd (scheduler_block_task pid k))" "spaces_kept k (snd (scheduler_unblock_task pid k))"
  "spaces_kept k (snd (scheduler_set_task_parent pid parent k))" "spaces_kept k (snd (scheduler_terminate_child pid code k))"
  "spaces_kept k (snd (finish_user_task i status k))"
  by (auto simp: scheduler_block_task_def scheduler_unblock_task_def scheduler_set_task_parent_def scheduler_terminate_child_def
      finish_user_task_def Let_def intro!: kept_intros)

lemma kept_sessions:
  "spaces_kept k (snd (user_mode_finish i k))" "spaces_kept k (snd (user_mode_handle_exception esr elr far spsr k))"
  "spaces_kept k (snd (user_mode_handle_exit_syscall code k))"
  by (auto simp: user_mode_finish_def user_mode_handle_exception_def user_session_reject_def user_mode_handle_exit_syscall_def Let_def
      intro!: kept_intros)

lemma kept_admit: "spaces_kept k (snd (scheduler_unblock_user_task env pid k))"
  unfolding scheduler_unblock_user_task_def Let_def
  by (auto split: option.split prod.split intro!: kept_intros intro: stub_kept)

lemma kept_begin: "spaces_kept k (snd (user_mode_begin env i k))"
  unfolding user_mode_begin_def Let_def
  by (auto split: option.split prod.split intro!: kept_intros intro: stub_kept)

lemma kept_refresh: "spaces_kept k (refresh_stubs k)"
proof -
  have one: "spaces_kept k (refresh_stub i k1)" if "spaces_kept k k1" for i k1
    using that by (auto simp: refresh_stub_def split: option.split intro: spaces_kept_trans [OF _ stub_kept] prod.collapse [symmetric])
  have "spaces_kept k (fold refresh_stub is k1)" if "spaces_kept k k1" for k1 "is"
    using that by (induction "is" arbitrary: k1) (simp_all add: one)
  then show ?thesis by (simp add: refresh_stubs_def)
qed

lemmas kept_steps = kept_refresh kept_yield [OF _ spaces_kept_refl] kept_sleep kept_exit kept_tick kept_preempt kept_start kept_control kept_sessions kept_admit kept_begin

section \<open>Operations that give or take a slot\<close>

text \<open>Replacing one task and the tables: the slots of the old task become free, those of the new one are taken.\<close>

lemma slots_inv_replace:
  assumes inv: "slots_inv root k" and i: "i < length (tasks k)" and t: "tasks k' = (tasks k)[i := t]"
    and ok: "user_tables_ok (user_tables_of k')" and kv: "kview (kernel_address_space k') = kview (kernel_address_space k)"
    and used: "\<And>s. s < 4 \<Longrightarrow> ut_used (user_tables_of k') ! s \<longleftrightarrow> owns_slot t s \<or> ut_used (user_tables_of k) ! s \<and> \<not> owns_slot (tasks k ! i) s"
    and fresh: "\<And>s. owns_slot t s \<Longrightarrow> \<not> ut_used (user_tables_of k) ! s \<or> owns_slot (tasks k ! i) s"
    and good: "\<And>s. owns_slot t s \<Longrightarrow> t_state t \<noteq> TASK_UNUSED \<and> as_kind (t_user_address_space t) = ADDRESS_SPACE_USER"
  shows "slots_inv root k'"
proof -
  have d: "\<And>s. s < 4 \<Longrightarrow> ut_used (user_tables_of k) ! s \<longleftrightarrow> (\<exists>i. owner k i s)" "\<And>i j s. owner k i s \<Longrightarrow> owner k j s \<Longrightarrow> i = j"
    "\<And>i s. owner k i s \<Longrightarrow> t_state (tasks k ! i) \<noteq> TASK_UNUSED \<and> as_kind (t_user_address_space (tasks k ! i)) = ADDRESS_SPACE_USER"
    using inv unfolding slots_inv_def by blast+
  have o: "owner k' j s \<longleftrightarrow> (if j = i then owns_slot t s else owner k j s)" for j s
    using i by (auto simp: owner_def t nth_list_update)
  have oi: "owner k i s \<longleftrightarrow> owns_slot (tasks k ! i) s" for s using i by (simp add: owner_def)
  have lt: "s < 4" if "owns_slot u s" for u s using that by (simp add: owns_slot_def)
  have lt': "s < 4" if "owner k j s" for j s using that lt by (auto simp: owner_def)
  have excl: "\<not> owns_slot t s" if "owner k j s" "j \<noteq> i" for j s
    using fresh [of s] d(1) [OF lt' [OF that(1)]] d(2) [OF that(1), of i] that oi by blast
  have u: "ut_used (user_tables_of k') ! s \<longleftrightarrow> (\<exists>j. owner k' j s)" if "s < 4" for s
    unfolding used [OF that] o d(1) [OF that] by (metis d(2) oi)
  have un: "j = l" if "owner k' j s" "owner k' l s" for j l s
    using that excl d(2) unfolding o by (metis (full_types))
  have g: "t_state (tasks k' ! j) \<noteq> TASK_UNUSED \<and> as_kind (t_user_address_space (tasks k' ! j)) = ADDRESS_SPACE_USER" if "owner k' j s" for j s
    using that d(3) good i unfolding o by (cases "j = i") (auto simp: t)
  show ?thesis using ok kv inv u un g unfolding slots_inv_def by metis
qed

lemma slots_inv_tables:
  assumes "slots_inv root k" "user_tables_ok t" "ut_used t = ut_used (user_tables_of k)"
  shows "slots_inv root (k\<lparr>user_tables_of := t\<rparr>)"
proof -
  have "owner (k\<lparr>user_tables_of := t\<rparr>) i s = owner k i s" for i s by (simp add: owner_def)
  then show ?thesis using assms unfolding slots_inv_def by simp
qed

lemma slots_inv_length: "slots_inv root k \<Longrightarrow> length (ut_used (user_tables_of k)) = 4"
  by (simp add: slots_inv_def user_tables_ok_iff)

lemma unused_owns_nothing:
  assumes "slots_inv root k" "i < length (tasks k)" "t_state (tasks k ! i) = TASK_UNUSED"
  shows "\<not> owns_slot (tasks k ! i) s"
  using assms unfolding slots_inv_def owner_def by blast

lemma destroy_user_slot:
  assumes "address_space_destroy_user space t = (space', t')" "as_kind space = ADDRESS_SPACE_USER" "length (ut_used t) = 4"
  shows "4 \<le> as_user_table_slot space'" "ut_used t' = (ut_used t)[as_user_table_slot space := False]"
  using assms by (auto simp: address_space_destroy_user_def Let_def list_update_beyond split: if_splits)

lemma kernel_space_kept:
  assumes "as_kind space \<noteq> ADDRESS_SPACE_USER"
  shows "address_space_destroy_user space t = (space, t)"
  using assms by (simp add: address_space_destroy_user_def)

lemma destroy_task_space_slots:
  assumes inv: "slots_inv root k" and i: "i < length (tasks k)"
  defines "d \<equiv> destroy_task_space i k"
  shows "(\<exists>u. tasks d = (tasks k)[i := u]) \<and> user_tables_ok (user_tables_of d) \<and> kernel_address_space d = kernel_address_space k \<and>
    (\<forall>s<4. ut_used (user_tables_of d) ! s \<longleftrightarrow> ut_used (user_tables_of k) ! s \<and> \<not> owns_slot (tasks k ! i) s)"
proof -
  have ok: "user_tables_ok (user_tables_of k)" and kind: "as_kind (kernel_address_space k) = ADDRESS_SPACE_KERNEL" using inv by (simp_all add: slots_inv_def kview_def)
  show ?thesis
  proof (cases "tm_space (t_memory (tasks k ! i))")
    case NoSpace
    then have "d = k" by (simp add: d_def destroy_task_space_def task_space_def)
    then show ?thesis using NoSpace ok by (metis list_update_id owns_slot_def space_ref.distinct(3))
  next
    case KernelSpace
    then have "d = k" using kind by (simp add: d_def destroy_task_space_def task_space_def kernel_space_kept set_task_space_def)
    then show ?thesis using KernelSpace ok by (metis list_update_id owns_slot_def space_ref.distinct(5))
  next
    case OwnSpace
    let ?sp = "t_user_address_space (tasks k ! i)"
    obtain sp' t' where e: "address_space_destroy_user ?sp (user_tables_of k) = (sp', t')" by (rule prod.exhaust)
    have ok': "user_tables_ok t'" using destroy_user_ok [OF ok, of ?sp] e by simp
    have "ut_used t' ! s \<longleftrightarrow> ut_used (user_tables_of k) ! s \<and> \<not> owns_slot (tasks k ! i) s" if "s < 4" for s
    proof (cases "owns_slot (tasks k ! i) s")
      case True
      then have "as_kind ?sp = ADDRESS_SPACE_USER" using inv i unfolding slots_inv_def owner_def by blast
      from destroy_user_slot(2) [OF e this slots_inv_length [OF inv]] show ?thesis
        using True that slots_inv_length [OF inv] by (simp add: owns_slot_def)
    next
      case False
      then have "as_user_table_slot ?sp \<noteq> s" using OwnSpace that by (simp add: owns_slot_def)
      then show ?thesis using e False by (auto simp: address_space_destroy_user_def Let_def split: if_splits)
    qed
    then show ?thesis using e OwnSpace ok' by (auto simp: d_def destroy_task_space_def task_space_def set_task_space_def upd_task_fields)
  qed
qed

lemma clear_task_slot_slots:
  assumes inv: "slots_inv root k" and i: "i < length (tasks k)"
  shows "slots_inv root (scheduler_clear_task_slot i k)"
proof (rule slots_inv_replace [OF inv i])
  let ?k = "scheduler_clear_task_slot i k" and ?d = "destroy_task_space i k"
  let ?t = "tasks ?k ! i"
  have len: "length (tasks ?d) = length (tasks k)" using destroy_task_space_fields(1) [of i k, THEN arg_cong, of length] by simp
  have n: "\<not> owns_slot ?t s" "t_state ?t = TASK_UNUSED" for s
    using i len by (simp_all add: scheduler_clear_task_slot_def upd_task_fields owns_slot_def scheduler_clear_files_def scheduler_clear_memory_def)
  then show "\<And>s. owns_slot ?t s \<Longrightarrow> \<not> ut_used (user_tables_of k) ! s \<or> owns_slot (tasks k ! i) s"
    "\<And>s. owns_slot ?t s \<Longrightarrow> t_state ?t \<noteq> TASK_UNUSED \<and> as_kind (t_user_address_space ?t) = ADDRESS_SPACE_USER" by blast+
  have c: "user_tables_of ?k = user_tables_of ?d" "kernel_address_space ?k = kernel_address_space ?d"
    by (simp_all add: scheduler_clear_task_slot_def upd_task_fields)
  obtain u where u: "tasks ?d = (tasks k)[i := u]" "user_tables_ok (user_tables_of ?d)" "kernel_address_space ?d = kernel_address_space k"
    "\<forall>s<4. ut_used (user_tables_of ?d) ! s \<longleftrightarrow> ut_used (user_tables_of k) ! s \<and> \<not> owns_slot (tasks k ! i) s"
    using destroy_task_space_slots [OF inv i] by blast
  show "tasks ?k = (tasks k)[i := ?t]" using i len u(1) by (simp add: scheduler_clear_task_slot_def upd_task_fields)
  show "user_tables_ok (user_tables_of ?k)" "kview (kernel_address_space ?k) = kview (kernel_address_space k)"
    unfolding c using u by simp_all
  show "ut_used (user_tables_of ?k) ! s \<longleftrightarrow> owns_slot ?t s \<or> ut_used (user_tables_of k) ! s \<and> \<not> owns_slot (tasks k ! i) s" if "s < 4" for s
    unfolding c using u(4) n(1) that by blast
qed

lemma clear_task_slot_length: "length (tasks (scheduler_clear_task_slot i k)) = length (tasks k)"
  using destroy_task_space_fields(1) [of i k, THEN arg_cong, of length] by (simp add: scheduler_clear_task_slot_def upd_task_fields)

lemma trim_slots: "slots_inv root k \<Longrightarrow> slots_inv root (scheduler_trim_unused_tail k)"
  by (rule slots_inv_kept [OF kept_fields(12) [OF spaces_kept_refl]])

lemma reap_all_slots:
  assumes "\<forall>i\<in>set is. i < length (tasks k)" "slots_inv root k"
  shows "slots_inv root (snd (fold reap_one is (n, k)))"
  using assms
proof (induction "is" arbitrary: n k)
  case (Cons i "is")
  let ?k = "snd (reap_one i (n, k))"
  have "slots_inv root ?k \<and> length (tasks ?k) = length (tasks k)"
    using Cons.prems clear_task_slot_slots clear_task_slot_length by (simp add: reap_one_def)
  then show ?case using Cons.IH [of ?k "fst (reap_one i (n, k))"] Cons.prems by simp
qed simp

lemma reaping_slots:
  assumes "sched_inv k" "slots_inv root k"
  shows "slots_inv root (snd (scheduler_reap_zombie_task pid k))" "slots_inv root (snd (scheduler_reap_zombies k))"
    "slots_inv root (snd (snd (scheduler_wait_task_status pid k)))"
proof -
  note d = sched_invD [OF assms(1)]
  have c': "slots_inv root (scheduler_trim_unused_tail (scheduler_clear_task_slot i k))" if "i < task_count k" for i
    by (rule trim_slots [OF clear_task_slot_slots [OF assms(2)]]) (use that d(1,3) in auto)
  have c: "slots_inv root (scheduler_trim_unused_tail (scheduler_clear_task_slot (nat p) k))" if "\<not> (p < 0 \<or> p \<ge> int (task_count k))" for p
    using c' [of "nat p"] that by (simp add: nat_less_iff)
  show "slots_inv root (snd (scheduler_reap_zombie_task pid k))"
    using c [of pid] assms(2) by (simp add: scheduler_reap_zombie_task_def valid_pid_def Let_def)
  have "slots_inv root (snd (fold reap_one [1..<task_count k] (0, k)))" by (rule reap_all_slots) (use d(1,3) assms(2) in auto)
  then show "slots_inv root (snd (scheduler_reap_zombies k))" by (auto simp: scheduler_reap_zombies_def trim_slots split: prod.split)
  have f: "i < task_count k" if "find P [Suc 0..<task_count k] = Some i" for P i using that by (auto simp: find_Some_iff)
  show "slots_inv root (snd (snd (scheduler_wait_task_status pid k)))"
    using assms(2) by (auto simp: scheduler_wait_task_status_def valid_pid_def Let_def split: option.split intro!: c' dest!: f)
qed

section \<open>Creation\<close>

lemma add_task_slots:
  assumes "sched_inv k" "slots_inv root k"
  shows "slots_inv root (snd (scheduler_add_task env name entry k))"
proof (cases "pick_slot k")
  case None
  then show ?thesis using assms(2) by (simp add: scheduler_add_task_def)
next
  case (Some x)
  obtain p k1 where x: "x = (p, k1)" by (rule prod.exhaust)
  note pk = pick_slot_SomeD [OF assms(1) Some [unfolded x]]
  have k1: "spaces_kept k k1" using kept_fields(2) [OF spaces_kept_refl] pk(6) by metis
  then have inv: "slots_inv root k1" by (rule slots_inv_kept [OF _ assms(2)])
  have "tasks k1 = tasks k" by (subst pk(6)) simp
  then have i: "p < length (tasks k1)" "t_state (tasks k1 ! p) = TASK_UNUSED" using pk(2,4) sched_invD(1) [OF assms(1)] by simp_all
  let ?k = "snd (scheduler_add_task env name entry k)"
  let ?t = "tasks ?k ! p"
  have t: "tm_space (t_memory ?t) = KernelSpace" "tasks ?k = (tasks k1)[p := ?t]"
    "user_tables_of ?k = user_tables_of k1" "kernel_address_space ?k = kernel_address_space k1"
    using i(1) Some x by (simp_all add: scheduler_add_task_def upd_task_fields Let_def scheduler_init_task_el0_def
        scheduler_init_task_memory_def task_space_def split: option.split)
  then have n: "\<not> owns_slot ?t s" "\<not> owns_slot (tasks k1 ! p) s" for s
    using unused_owns_nothing [OF inv i] by (simp_all add: owns_slot_def)
  show ?thesis
    by (rule slots_inv_replace [OF inv i(1) t(2)]) (use n t(3,4) inv in \<open>simp_all add: slots_inv_def\<close>)
qed

text \<open>A task that owns its slot gives it back.\<close>

lemma drop_new_task_slots:
  assumes inv: "slots_inv root k" and p: "p < length (tasks k)" "\<And>s. owns_slot (tasks k ! p) s \<longleftrightarrow> s = as_user_table_slot space \<and> s < 4 \<and> own"
    and free: "\<not> own \<Longrightarrow> as_user_table_slot space < 4 \<Longrightarrow> \<not> ut_used (user_tables_of k) ! as_user_table_slot space"
    and kind: "as_kind space = ADDRESS_SPACE_USER" and ok: "user_tables_ok t"
    and used: "ut_used t = (ut_used (user_tables_of k))[as_user_table_slot space := True] \<or> ut_used t = ut_used (user_tables_of k) \<and> own"
    and k': "tasks k' = (tasks k)[p := u]" "kernel_address_space k' = kernel_address_space k" "user_tables_of k' = t"
  shows "slots_inv root (drop_new_task p space k')"
proof -
  let ?k = "drop_new_task p space k'" and ?s = "as_user_table_slot space"
  obtain sp t' where e: "address_space_destroy_user space t = (sp, t')" by (rule prod.exhaust)
  have ok': "user_tables_ok t'" using destroy_user_ok [OF ok, of space] e by simp
  have len: "length (ut_used (user_tables_of k)) = 4" by (rule slots_inv_length [OF inv])
  then have "length (ut_used t) = 4" using used by auto
  note d = destroy_user_slot [OF e kind this]
  have f: "tasks ?k = (tasks k)[p := u\<lparr>t_user_address_space := sp\<rparr>]" "user_tables_of ?k = t'" "kernel_address_space ?k = kernel_address_space k"
    using e k' p(1) by (simp_all add: drop_new_task_def upd_task_fields Let_def)
  have n: "\<not> owns_slot (u\<lparr>t_user_address_space := sp\<rparr>) s" for s using d(1) by (simp add: owns_slot_def)
  show ?thesis
  proof (rule slots_inv_replace [OF inv p(1) f(1)])
    fix s :: nat assume "s < 4"
    then show "ut_used (user_tables_of ?k) ! s \<longleftrightarrow>
        owns_slot (u\<lparr>t_user_address_space := sp\<rparr>) s \<or> ut_used (user_tables_of k) ! s \<and> \<not> owns_slot (tasks k ! p) s"
      unfolding f(2) d(2) p(2) using n used free len by (cases "s = ?s") auto
  qed (use n f ok' in simp_all)
qed

lemma place_arguments_slots:
  assumes inv: "slots_inv root k" and p: "p < length (tasks k)" "tm_space (t_memory (tasks k ! p)) = OwnSpace" "t_user_address_space (tasks k ! p) = space"
    and space: "as_kind space = ADDRESS_SPACE_USER" "as_user_table_slot space < 4"
  shows "slots_inv root (snd (place_arguments space words base off p k))"
proof -
  have own: "owns_slot (tasks k ! p) s \<longleftrightarrow> s = as_user_table_slot space \<and> s < 4 \<and> True" for s using p(2,3) by (auto simp: owns_slot_def)
  have drop: "slots_inv root (snd (abandon_user_task p space t k'))"
    if "user_tables_ok t" "ut_used t = ut_used (user_tables_of k)" "tasks k' = (tasks k)[p := u]" "kernel_address_space k' = kernel_address_space k" for t k' u
    unfolding abandon_user_task_def snd_conv
    by (rule drop_new_task_slots [OF inv p(1) own _ space(1) that(1), where u = "set_state TASK_UNUSED u"])
      (use that p(1) in \<open>simp_all add: upd_task_fields\<close>)
  have ok: "user_tables_ok (user_tables_of k)" using inv by (simp add: slots_inv_def)
  obtain ok1 args t1 where w: "write_arguments space words off (user_tables_of k) = (ok1, args, t1)" by (rule prod_cases3)
  note t1 = write_arguments_tables [OF w ok]
  obtain ok2 t2 where w2: "address_space_write_user_data base (pad_words (map fst args)) 64 space t1 = (ok2, t2)" by (rule prod.exhaust)
  have t2: "user_tables_ok t2" "ut_used t2 = ut_used (user_tables_of k)"
    using t1 write_user_data_ok [of t1] write_user_data_used [of _ _ _ _ t1] w2 by (metis snd_conv)+
  obtain ok3 t3 where w3: "address_space_write_user_data (base + 64) (pad_words (map snd args)) 64 space t2 = (ok3, t3)" by (rule prod.exhaust)
  have t3: "user_tables_ok t3" "ut_used t3 = ut_used (user_tables_of k)"
    using t2 write_user_data_ok [of t2] write_user_data_used [of _ _ _ _ t2] w3 by (metis snd_conv)+
  let ?a = "set_user_arguments (length words) (as_user_data_start space + base)"
  have a: "sview (?a t) = sview t" "t_state (?a t) = t_state t" for t by (simp_all add: set_user_arguments_def sview_def)
  have el0: "sview (scheduler_init_task_el0 k' t) = sview t" "t_state (scheduler_init_task_el0 k' t) = t_state t" for k' t
    by (simp_all add: scheduler_init_task_el0_def Let_def sview_def split: option.split)
  have "slots_inv root ((upd_task p ?a k)\<lparr>user_tables_of := t3\<rparr>)"
    by (rule slots_inv_tables [OF slots_inv_kept [OF upd_task_kept inv]]) (use a t3 in \<open>simp_all add: upd_task_fields\<close>)
  then have fin: "slots_inv root (upd_task p (scheduler_init_task_el0 k') ((upd_task p ?a k)\<lparr>user_tables_of := t3\<rparr>))" for k'
    by (rule slots_inv_kept [OF upd_task_kept, rotated -1]) (simp_all add: el0)
  have d1: "slots_inv root (snd (abandon_user_task p space t1 k))" using t1 by (intro drop [where u = "tasks k ! p"]) simp_all
  have d2: "slots_inv root (snd (abandon_user_task p space t (upd_task p ?a k)))"
    if "user_tables_ok t" "ut_used t = ut_used (user_tables_of k)" for t
    by (rule drop [OF that, where u = "?a (tasks k ! p)"]) (simp_all add: upd_task_fields)
  show ?thesis
    using d1 d2 [OF t2] d2 [OF t3] fin w w2 w3 by (cases ok1; cases ok2; cases ok3) (simp_all add: place_arguments_def Let_def)
qed

lemma place_user_task_slots:
  assumes inv: "slots_inv root k" and p: "p < length (tasks k)" "t_state (tasks k ! p) = TASK_UNUSED"
  shows "slots_inv root (snd (place_user_task env name bytes img words base off p k))"
proof -
  let ?root = "as_root_table (kernel_address_space k)" and ?free = "find_slot (\<lambda>used. \<not> used) (ut_used (user_tables_of k))"
  obtain sp1 t1 where i: "address_space_init_user (arrays env) (Some name) ?root (user_tables_of k) = (sp1, t1)" by (rule prod.exhaust)
  obtain ok sp t where l: "address_space_load_user_image (drop (ei_code img) bytes) (ei_code_size img) (drop (ei_data img) bytes)
    (ei_data_size img) (ei_entry_offset img) sp1 t1 = (ok, sp, t)" by (rule prod_cases3)
  have "user_tables_ok (user_tables_of k)" using inv by (simp add: slots_inv_def)
  then have t: "user_tables_ok t" using init_user_ok [of "user_tables_of k" "arrays env" "Some name" ?root] load_user_image_ok [of t1] i l by (metis snd_conv)
  note ui = init_user_slot [OF i] and ls = load_user_image_slot [OF l]
  have len: "length (ut_used (user_tables_of k)) = 4" by (rule slots_inv_length [OF inv])
  have free: "\<not> ut_used (user_tables_of k) ! as_user_table_slot sp" if "as_user_table_slot sp < 4"
    using that ui(2) ls(2) find_slot_SomeD(2) [of "\<lambda>used. \<not> used" "ut_used (user_tables_of k)"] by (cases ?free) simp_all
  have used: "ut_used t = (ut_used (user_tables_of k))[as_user_table_slot sp := True]"
    using ui(2,3) ls(2,3) len by (auto simp: list_update_beyond split: option.splits)
  have kind: "as_kind sp = ADDRESS_SPACE_USER" using ui(1) ls(1) by simp
  note none = unused_owns_nothing [OF inv p]
  show ?thesis
  proof (cases ok)
    case False
    have "slots_inv root (drop_new_task p sp (k\<lparr>user_tables_of := t\<rparr>))"
      by (rule drop_new_task_slots [OF inv p(1), where u = "tasks k ! p" and own = False]) (use none free kind t used in simp_all)
    then show ?thesis using False i l by (simp add: place_user_task_def)
  next
    case True
    have s4: "as_user_table_slot sp < 4" using ls(2,4) True by simp
    let ?n = "new_user_task env p name sp (tasks k ! p)"
    let ?k = "upd_task p (new_user_task env p name sp) (k\<lparr>user_tables_of := t\<rparr>)"
    have n: "tm_space (t_memory ?n) = OwnSpace" "t_user_address_space ?n = sp" "t_state ?n = TASK_BLOCKED"
      by (simp_all add: new_user_task_def Let_def reset_task_def scheduler_init_task_memory_def scheduler_clear_files_def)
    have n': "owns_slot ?n s \<longleftrightarrow> s = as_user_table_slot sp" if "s < 4" for s using n(1,2) that by (auto simp: owns_slot_def)
    have "slots_inv root ?k"
    proof (rule slots_inv_replace [OF inv p(1)])
      show "tasks ?k = (tasks k)[p := ?n]" by (simp add: upd_task_fields)
      fix s :: nat assume "s < 4"
      then show "ut_used (user_tables_of ?k) ! s \<longleftrightarrow> owns_slot ?n s \<or> ut_used (user_tables_of k) ! s \<and> \<not> owns_slot (tasks k ! p) s"
        using used len none [of s] n' [of s] by (cases "s = as_user_table_slot sp") (simp_all add: upd_task_fields)
    qed (use n t free kind in \<open>auto simp: upd_task_fields owns_slot_def\<close>)
    then have "slots_inv root (snd (place_arguments sp words base off p ?k))"
      by (rule place_arguments_slots) (use p(1) n kind s4 in \<open>simp_all add: upd_task_fields\<close>)
    then show ?thesis using True i l by (simp add: place_user_task_def)
  qed
qed

lemma create_user_slots:
  assumes "sched_inv k" "slots_inv root k"
  shows "slots_inv root (snd (create_user_task_from_file env name image_file argument k))"
proof (cases "plan_user_task image_file argument = None \<or> pick_slot k = None")
  case True
  then show ?thesis using assms(2) by (auto simp: create_user_task_from_file_def split: option.split)
next
  case False
  then obtain img words base off p k1 where e: "plan_user_task image_file argument = Some (img, words, base, off)" "pick_slot k = Some (p, k1)" by auto
  note pk = pick_slot_SomeD [OF assms(1) e(2)]
  have "tasks k1 = tasks k" by (subst pk(6)) simp
  then have i: "p < length (tasks k1)" "t_state (tasks k1 ! p) = TASK_UNUSED" using pk(2,4) sched_invD(1) [OF assms(1)] by simp_all
  have "spaces_kept k k1" using kept_fields(2) [OF spaces_kept_refl] pk(6) by metis
  then have "slots_inv root k1" by (rule slots_inv_kept [OF _ assms(2)])
  from place_user_task_slots [OF this i] show ?thesis using e by (simp add: create_user_task_from_file_def)
qed

section \<open>Reachable states\<close>

lemma sched_step_slots: "sched_step env k k' \<Longrightarrow> sched_inv k \<Longrightarrow> slots_inv root k \<Longrightarrow> slots_inv root k'"
  by (induction rule: sched_step.induct)
    (auto intro: add_task_slots create_user_slots reaping_slots slots_inv_kept kept_steps simp: scheduler_create_kernel_thread_def)

lemma boot_tables_ok: "user_tables_ok (snd (address_space_init root user_tables_boot))"
  by (simp add: address_space_init_def user_tables_boot_def user_tables_ok_iff all_length_def)

lemma sched_start_slots: "slots_inv root (sched_start env root regs mregs)"
proof -
  let ?k = "sched_start env root regs mregs"
  have n: "\<not> owns_slot (tasks ?k ! i) s" if "i < 8" for i s
    unfolding sched_start_eq using that by (cases i) (simp_all add: scheduler_add_task_def pick_slot_def kernel_boot_def Let_def upd_task_fields
        scheduler_init_task_el0_def scheduler_init_task_memory_def task_space_def owns_slot_def task_bss_def scheduler_clear_memory_def split: option.split)
  have len: "length (tasks ?k) = 8" using sched_invD(1) [OF sched_start_inv] .
  have f: "kernel_address_space ?k = fst (address_space_init root user_tables_boot)" "user_tables_of ?k = snd (address_space_init root user_tables_boot)"
    unfolding sched_start_eq by (simp_all add: scheduler_add_task_def pick_slot_def kernel_boot_def Let_def upd_task_fields)
  show ?thesis
    unfolding slots_inv_def f owner_def len using n boot_tables_ok by (auto simp: address_space_init_def kview_def user_tables_boot_def nth_replicate)
qed

lemma reachable_slots:
  assumes "(sched_step env)\<^sup>*\<^sup>* (sched_start env root regs mregs) k"
  shows "sched_inv k \<and> slots_inv root k"
  using assms by (induction rule: rtranclp_induct) (auto simp: sched_start_inv sched_start_slots dest: sched_step_inv sched_step_slots)

text \<open>
  C10: slots are owned. In every reached state a slot of the user tables is marked as used exactly when one task in use,
  and no other, has it as its address space, which is then of the user kind: two tasks never share tables, a failed
  creation and a reaped task give their slot back, and the kernel's own address space keeps its root and its kind.
\<close>

theorem slots_have_one_owner:
  assumes "(sched_step env)\<^sup>*\<^sup>* (sched_start env root regs mregs) k" "s < ADDRESS_SPACE_USER_TABLE_SLOTS"
  shows "(ut_used (user_tables_of k) ! s \<longleftrightarrow>
      (\<exists>!i. i < SCHED_MAX_TASKS \<and> t_state (tasks k ! i) \<noteq> TASK_UNUSED \<and>
         (\<exists>space. tm_space (t_memory (tasks k ! i)) = OwnSpace \<and> task_space k (tasks k ! i) = Some space \<and>
           as_kind space = ADDRESS_SPACE_USER \<and> as_user_table_slot space = s))) \<and>
    as_kind (kernel_address_space k) = ADDRESS_SPACE_KERNEL \<and> as_root_table (kernel_address_space k) = root"
proof -
  have inv: "slots_inv root k" and len: "length (tasks k) = 8" using reachable_slots [OF assms(1)] sched_invD(1) by blast+
  have o: "owner k i s \<longleftrightarrow> i < SCHED_MAX_TASKS \<and> t_state (tasks k ! i) \<noteq> TASK_UNUSED \<and>
      (\<exists>space. tm_space (t_memory (tasks k ! i)) = OwnSpace \<and> task_space k (tasks k ! i) = Some space \<and>
        as_kind space = ADDRESS_SPACE_USER \<and> as_user_table_slot space = s)" for i
    using inv assms(2) len unfolding slots_inv_def by (auto simp: owner_def owns_slot_def task_space_def)
  have "ut_used (user_tables_of k) ! s \<longleftrightarrow> (\<exists>!i. owner k i s)" using inv assms(2) unfolding slots_inv_def by blast
  then show ?thesis unfolding o using inv by (simp add: slots_inv_def kview_def)
qed

theorem slots_have_one_owner_witness: "as_root_table (kernel_address_space sample_threads) = 0x40000000"
  using slots_have_one_owner [OF sample_threads_state(5), of 0] by simp

end
