(* ===== verification/Boot.thy ===== *)
theory Boot
  imports ShellProps Keyboard VmProps Traps Launch
begin

text \<open>
  Starting the system: \<open>kernel_main\<close> of kernel/src/kernel.c over all the components, the interrupt
  controller's set-up of arch/arm64/irq.c, and the task that reads the keyboard, of
  kernel/input/keyboard_input.c. The theorem says that the machine comes up: what every component has
  become when the scheduler takes over.
\<close>

section \<open>The machine\<close>

text \<open>
  The state of the components, with the registers the kernel sets at boot: the vector base, the writes to
  the interrupt controller in order, and the interrupt mask.
\<close>

datatype mmio_store = mmio_write u64 u32 | mmio_write8 u64 u8

record ('d, 'k, 'f) machine =
  ma_shell :: "'d shell_state"
  ma_keyboard :: "'k keyboard"
  ma_fw :: 'f
  ma_vbar :: u64
  ma_gic :: "mmio_store list"
  ma_irq_masked :: bool

record ('d, 'k, 'f) machine_env =
  me_vm :: vm_env
  me_disk :: "'d virtio_hw"
  me_input :: "'k input_hw"
  me_fwcfg :: "'f fwcfg_hw"
  me_vector :: u64
  me_cntfrq :: u64
  me_counter :: "nat \<Rightarrow> u64"

abbreviation ma_system :: "('d, 'k, 'f) machine \<Rightarrow> 'd system" where
  "ma_system m \<equiv> sh_sys (ma_shell m)"

abbreviation ma_kernel :: "('d, 'k, 'f) machine \<Rightarrow> kernel" where
  "ma_kernel m \<equiv> sy_kernel (ma_system m)"

abbreviation ma_vfs :: "('d, 'k, 'f) machine \<Rightarrow> 'd vfs" where
  "ma_vfs m \<equiv> sy_vfs (ma_system m)"

abbreviation ma_vm :: "('d, 'k, 'f) machine \<Rightarrow> vm" where
  "ma_vm m \<equiv> sh_vm (ma_shell m)"

abbreviation ma_timer :: "('d, 'k, 'f) machine \<Rightarrow> timer" where
  "ma_timer m \<equiv> sh_timer (ma_shell m)"

abbreviation with_fb :: "framebuffer \<Rightarrow> ('d, 'k, 'f) machine \<Rightarrow> ('d, 'k, 'f) machine" where
  "with_fb fb m \<equiv> m\<lparr>ma_shell := (ma_shell m)\<lparr>sh_fb := fb\<rparr>\<rparr>"

abbreviation with_sys :: "'d system \<Rightarrow> ('d, 'k, 'f) machine \<Rightarrow> ('d, 'k, 'f) machine" where
  "with_sys s m \<equiv> m\<lparr>ma_shell := (ma_shell m)\<lparr>sh_sys := s\<rparr>\<rparr>"

abbreviation with_vm :: "vm \<Rightarrow> ('d, 'k, 'f) machine \<Rightarrow> ('d, 'k, 'f) machine" where
  "with_vm v m \<equiv> m\<lparr>ma_shell := (ma_shell m)\<lparr>sh_vm := v\<rparr>\<rparr>"

abbreviation with_timer :: "timer \<Rightarrow> ('d, 'k, 'f) machine \<Rightarrow> ('d, 'k, 'f) machine" where
  "with_timer t m \<equiv> m\<lparr>ma_shell := (ma_shell m)\<lparr>sh_timer := t\<rparr>\<rparr>"

text \<open>
  The kernel's addresses once the translation tables stand: what the address space code reads outside its
  own arrays are the tables of \<open>vm_init\<close>.
\<close>

definition running_env :: "('d, 'k, 'f) machine_env \<Rightarrow> vm \<Rightarrow> kernel_env" where
  "running_env env v =
     (vm_kernel (me_vm env))\<lparr>arrays := (arrays (vm_kernel (me_vm env)))\<lparr>kernel_read := vm_read (me_vm env) v\<rparr>\<rparr>"

section \<open>Interrupts\<close>

abbreviation (input) GICD_BASE :: u64 where "GICD_BASE \<equiv> 0x08000000"
abbreviation (input) GICC_BASE :: u64 where "GICC_BASE \<equiv> 0x08010000"
abbreviation (input) TIMER_IRQ :: nat where "TIMER_IRQ \<equiv> 30"

definition irq_init :: "mmio_store list \<Rightarrow> mmio_store list" where
  "irq_init gic = gic @
     [mmio_write GICD_BASE 0, mmio_write8 (GICD_BASE + 0x400 + of_nat TIMER_IRQ) 0x80,
      mmio_write (GICD_BASE + 0x100) (push_bit TIMER_IRQ 1), mmio_write GICD_BASE 1,
      mmio_write (GICC_BASE + 0x004) 0xff, mmio_write GICC_BASE 1]"

text \<open>The value last stored at an address.\<close>

definition last_store :: "u64 \<Rightarrow> mmio_store list \<Rightarrow> nat option" where
  "last_store a stores =
     fold (\<lambda>s v. case s of mmio_write b x \<Rightarrow> if a = b then Some (unat x) else v | mmio_write8 b x \<Rightarrow> if a = b then Some (unat x) else v) stores None"

text \<open>
  What the set-up leaves in the controller: the distributor and the processor interface are on, the timer's
  interrupt is enabled with priority 0x80, and every priority passes.
\<close>

definition timer_irq_passes :: "mmio_store list \<Rightarrow> bool" where
  "timer_irq_passes gic \<longleftrightarrow>
     last_store 0x08000000 gic = Some 1 \<and> last_store 0x08010000 gic = Some 1 \<and> last_store 0x08000100 gic = Some (2 ^ 30) \<and>
     last_store 0x0800041e gic = Some 0x80 \<and> last_store 0x08010004 gic = Some 0xff"

lemma irq_init_passes: "timer_irq_passes (irq_init gic)"
  by (simp add: timer_irq_passes_def last_store_def irq_init_def push_bit_eq_mult)

definition irq_enable :: "('d, 'k, 'f) machine \<Rightarrow> ('d, 'k, 'f) machine" where
  "irq_enable m = m\<lparr>ma_irq_masked := False\<rparr>"

definition irq_disable :: "('d, 'k, 'f) machine \<Rightarrow> ('d, 'k, 'f) machine" where
  "irq_disable m = m\<lparr>ma_irq_masked := True\<rparr>"

section \<open>The keyboard task\<close>

text \<open>
  One round of the loop of \<open>keyboard_input_task\<close>: a character goes to the shell, without one the processor
  goes to another task, which \<open>switch\<close> stands for.
\<close>

definition keyboard_input_round ::
    "'k input_hw \<Rightarrow> 'u uart_hw \<Rightarrow> (cstring \<Rightarrow> 's \<Rightarrow> (cstring \<times> 's) option) \<Rightarrow> ('s \<Rightarrow> 's option) \<Rightarrow>
     shell_line \<times> 's \<times> 'k keyboard \<times> 'u \<Rightarrow> (shell_line \<times> 's \<times> 'k keyboard \<times> 'u) option" where
  "keyboard_input_round hw uhw exec switch st =
     (case st of (l, s, k, u) \<Rightarrow>
       (case keyboard_read_char hw uhw k u of
          None \<Rightarrow> None
        | Some (Some c, k, u) \<Rightarrow> (case shell_handle_char exec c (l, s) of None \<Rightarrow> None | Some (l, s) \<Rightarrow> Some (l, s, k, u))
        | Some (None, k, u) \<Rightarrow> (case switch s of None \<Rightarrow> None | Some s \<Rightarrow> Some (l, s, k, u))))"

text \<open>A number of rounds.\<close>

fun keyboard_input_rounds ::
    "'k input_hw \<Rightarrow> 'u uart_hw \<Rightarrow> (cstring \<Rightarrow> 's \<Rightarrow> (cstring \<times> 's) option) \<Rightarrow> ('s \<Rightarrow> 's option) \<Rightarrow> nat \<Rightarrow>
     shell_line \<times> 's \<times> 'k keyboard \<times> 'u \<Rightarrow> (shell_line \<times> 's \<times> 'k keyboard \<times> 'u) option" where
  "keyboard_input_rounds hw uhw exec switch 0 st = Some st"
| "keyboard_input_rounds hw uhw exec switch (Suc n) st =
     (case keyboard_input_round hw uhw exec switch st of None \<Rightarrow> None | Some st \<Rightarrow> keyboard_input_rounds hw uhw exec switch n st)"

definition keyboard_input_init ::
    "('d, 'k, 'f) machine_env \<Rightarrow> ('d, 'k, 'f) machine \<Rightarrow> cstring list \<times> ('d, 'k, 'f) machine" where
  "keyboard_input_init env m =
     (let m = m\<lparr>ma_keyboard := keyboard_init (me_input env) (ma_keyboard m)\<rparr>
      in case scheduler_create_kernel_thread (running_env env (ma_vm m)) ''keyboard'' (Some (thread_entry 0)) (ma_kernel m) of
           (pid, k) \<Rightarrow> (create_thread_says ''keyboard'' pid, with_sys ((ma_system m)\<lparr>sy_kernel := k\<rparr>) m))"

section \<open>Booting\<close>

text \<open>The display and the memory, disk and file system.\<close>

definition boot_devices :: "('d, 'k, 'f) machine_env \<Rightarrow> ('d, 'k, 'f) machine \<Rightarrow> ('d, 'k, 'f) machine" where
  "boot_devices env m =
     (let m = (case framebuffer_init (me_fwcfg env) (sh_fb (ma_shell m)) (ma_fw m) of
                 (found, fb, fw) \<Rightarrow> with_fb (if found then framebuffer_console_init fb else fb) (m\<lparr>ma_fw := fw\<rparr>));
          s = (ma_system m)\<lparr>sy_pmm := pmm_init (kernel_end (me_vm env))\<rparr>;
          m = m\<lparr>ma_shell := (ma_shell m)\<lparr>sh_sys := s, sh_heap := heap_init (sh_heap (ma_shell m))\<rparr>\<rparr>;
          f = vfs_sfs (ma_vfs m);
          f = f\<lparr>sfs_disk := block_init (me_disk env) (sfs_disk f)\<rparr>;
          f = sfs_init (me_disk env) f
      in with_sys ((ma_system m)\<lparr>sy_vfs := (ma_vfs m)\<lparr>vfs_sfs := f\<rparr>\<rparr>) m)"

text \<open>The vectors, the translation tables, and the kernel's address space.\<close>

definition boot_memory :: "('d, 'k, 'f) machine_env \<Rightarrow> ('d, 'k, 'f) machine \<Rightarrow> ('d, 'k, 'f) machine option" where
  "boot_memory env m =
     (let m = m\<lparr>ma_vbar := me_vector env\<rparr>
      in case vm_init (me_vm env) (ma_vm m) (mmu (ma_kernel m)) of
           None \<Rightarrow> None
         | Some (v, regs) \<Rightarrow>
             let (space, tables) = address_space_init (vm_root_table (me_vm env)) (user_tables_of (ma_kernel m));
                 k = (ma_kernel m)\<lparr>mmu := regs, kernel_address_space := space, user_tables_of := tables\<rparr>
             in Some (with_vm v (with_sys ((ma_system m)\<lparr>sy_kernel := k\<rparr>) m)))"

text \<open>The built-in programs, the timer, the scheduler and the keyboard.\<close>

definition boot_services :: "('d, 'k, 'f) machine_env \<Rightarrow> ('d, 'k, 'f) machine \<Rightarrow> cstring list \<times> ('d, 'k, 'f) machine" where
  "boot_services env m =
     (case user_programs_init (me_disk env) (vfs_init (ma_vfs m)) of
        (ok, v) \<Rightarrow>
          let m = with_timer (timer_init (me_cntfrq env) (ma_timer m)) (m\<lparr>ma_gic := irq_init (ma_gic m)\<rparr>);
              kenv = running_env env (ma_vm m);
              idle = init_idle kenv (ma_kernel m);
              k = scheduler_init kenv (ma_kernel m);
              m = with_sys ((ma_system m)\<lparr>sy_vfs := v, sy_kernel := k\<rparr>) m;
              m = m\<lparr>ma_keyboard := keyboard_init (me_input env) (ma_keyboard m)\<rparr>
          in ((if ok then [] else [say ''Failed to initialize built-in user programs'' []]) @
              say ''Scheduler initialized with %d tasks'' [pid_arg (int (task_count idle))] # fst (scheduler_dump_tasks idle), m))"

definition status_line :: "string \<Rightarrow> ('d, 'k, 'f) machine \<Rightarrow> ('d, 'k, 'f) machine" where
  "status_line what m =
     (if framebuffer_is_ready (sh_fb (ma_shell m))
      then with_fb (framebuffer_console_set_status
             (Some (bytes_of ((if keyboard_graphical_ready (ma_keyboard m) then ''READY | UART+KBD | MMU ON | '' else ''READY | UART | MMU ON | '') @ what)))
             (sh_fb (ma_shell m))) m
      else m)"

definition boot_banner :: "('d, 'k, 'f) machine \<Rightarrow> cstring list" where
  "boot_banner m =
     (let rule = say ''================================'' [];
          b = sfs_disk (vfs_sfs (ma_vfs m)); fb = sh_fb (ma_shell m)
      in [rule,
          say ''%s %s (%s)'' [str_arg (bytes_of ''SaturnOS''), str_arg (bytes_of ''0.6.95''), str_arg (bytes_of ''Memory'')],
          say ''Target : ARM64 QEMU virt'' [],
          say ''UART   : initialized at 0x%x'' [arg_int 0x09000000],
          say ''IRQ    : GICv2 initialized'' [],
          say ''Timer  : %d Hz'' [arg_int (ucast (timer_get_frequency (ma_timer m)))],
          say ''Sched  : preemptive kernel threads'' [],
          say ''Memory : %d KB free'' [arg_int (ucast (pmm_free_pages (sy_pmm (ma_system m)) * PMM_PAGE_SIZE div 1024))],
          say ''Heap   : initialized'' [],
          say ''Block  : %s, %d sectors'' [str_arg (bytes_of (block_device_name b)), arg_int (ucast (block_sector_count b))],
          say ''FS     : ramfs, %d dirs, %d files'' [arg_int (ucast (vfs_dir_count (ma_vfs m))), arg_int (ucast (vfs_file_count (ma_vfs m)))],
          say ''DiskFS : %s'' [str_arg (bytes_of (if sfs_ready (vfs_sfs (ma_vfs m)) then ''mounted'' else ''unavailable''))],
          say ''Input  : %s'' [str_arg (bytes_of (keyboard_source (ma_keyboard m)))],
          say ''VM     : %s, tables %s, check %s''
            [str_arg (bytes_of (vm_state (ma_vm m) (mmu (ma_kernel m)))), str_arg (bytes_of (vm_table_state (ma_vm m))),
             str_arg (bytes_of (vm_validation_state (ma_vm m)))],
          if framebuffer_is_ready fb then say ''Video  : ramfb 640x480'' []
          else say ''Video  : UART only (fb status=%d)'' [arg_int (word_of_int (framebuffer_status fb))],
          rule])"

text \<open>The first tasks. The demonstration threads are switched off in config.h.\<close>

definition boot_tasks :: "('d, 'k, 'f) machine_env \<Rightarrow> ('d, 'k, 'f) machine \<Rightarrow> cstring list \<times> ('d, 'k, 'f) machine" where
  "boot_tasks env m =
     (case keyboard_input_init env m of
        (out, m) \<Rightarrow>
          let kenv = running_env env (ma_vm m);
              file = fst (vfs_file_data (me_disk env) (bytes_of ''/bin/user-demo.sx'') (ma_vfs m));
              out = out @ create_user_task_says kenv (Some ''user-demo'') file None (ma_kernel m)
          in case scheduler_create_blocked_user_task (me_disk env) kenv (Some ''user-demo'') (ma_vfs m) (ma_kernel m) of
               (user_demo_pid, v, k) \<Rightarrow>
                 let pid = (case user_demo_pid of Some p \<Rightarrow> int p | None \<Rightarrow> -1);
                     out = out @ unblock_user_task_says pid k;
                     k = snd (scheduler_unblock_user_task kenv pid k)
                 in case scheduler_dump_tasks k of
                      (report, k) \<Rightarrow> (out @ report, with_sys ((ma_system m)\<lparr>sy_vfs := v, sy_kernel := k\<rparr>) m))"

definition boot_start :: "('d, 'k, 'f) machine \<Rightarrow> ('d, 'k, 'f) machine" where
  "boot_start m =
     (let m = status_line ''EL0 TASK'' m;
          m = with_timer (timer_start_periodic 100 (ma_timer m)) m;
          m = irq_enable (with_sys ((ma_system m)\<lparr>sy_interval := timer_get_interval_ms (ma_timer m)\<rparr>) m)
      in with_sys ((ma_system m)\<lparr>sy_kernel := scheduler_start_threads (ma_kernel m)\<rparr>) m)"

definition kernel_main :: "('d, 'k, 'f) machine_env \<Rightarrow> ('d, 'k, 'f) machine \<Rightarrow> (cstring list \<times> ('d, 'k, 'f) machine) option" where
  "kernel_main env m =
     (case boot_memory env (boot_devices env m) of
        None \<Rightarrow> None
      | Some m \<Rightarrow>
          (case boot_services env m of
             (messages, m) \<Rightarrow>
               let m = status_line ''VM OK'' m;
                   start = me_counter env 0
               in (case timer_sleep_ms (\<lambda>i. me_counter env (Suc i)) 100 (ma_timer m) of
                     None \<Rightarrow> None
                   | Some n \<Rightarrow>
                       (case boot_tasks env m of
                          (created, m') \<Rightarrow>
                            Some (messages @ boot_banner m @
                                  [say ''Timer sanity: start=0x%x'' [num_arg start],
                                   say ''Timer sanity: end=0x%x'' [num_arg (me_counter env (n + 2))]] @
                                  created @ [say ''Starting preemptive kernel threads...'' []],
                                  boot_start m')))))"

section \<open>The state at power-on\<close>

text \<open>The kernel's static variables are zero; the registers hold anything.\<close>

definition kernel_bss :: "address_space \<Rightarrow> cpu_context \<Rightarrow> mmu_regs \<Rightarrow> kernel" where
  "kernel_bss space regs mregs = (kernel_boot 0 regs mregs)\<lparr>kernel_address_space := space, user_tables_of := user_tables_boot\<rparr>"

lemma kernel_bss_init:
  "(kernel_bss space regs mregs)\<lparr>mmu := mregs', kernel_address_space := fst (address_space_init root user_tables_boot),
     user_tables_of := snd (address_space_init root user_tables_boot)\<rparr> = kernel_boot root regs mregs'"
  "user_tables_of (kernel_bss space regs mregs) = user_tables_boot" "mmu (kernel_bss space regs mregs) = mregs"
  by (simp_all add: kernel_bss_def kernel_boot_def)

definition powered_on :: "('d, 'k, 'f) machine \<Rightarrow> bool" where
  "powered_on m \<longleftrightarrow>
     (\<exists>space. ma_kernel m = kernel_bss space (cpu (ma_kernel m)) (mmu (ma_kernel m))) \<and>
     ma_vfs m = vfs_bss (vfs_sfs (ma_vfs m)) \<and> \<not> arm64_mmu_is_enabled (mmu (ma_kernel m))"

text \<open>The addresses the linker gives, and a counter that goes on.\<close>

definition linker_ok :: "('d, 'k, 'f) machine_env \<Rightarrow> bool" where
  "linker_ok env \<longleftrightarrow>
     vm_env_ok (me_vm env) \<and> env_ok (arrays (vm_kernel (me_vm env))) \<and> arrays_disjoint (me_vm env) (arrays (vm_kernel (me_vm env))) \<and>
     PMM_RAM_BASE \<le> kernel_end (me_vm env)"

definition counter_runs :: "('d, 'k, 'f) machine_env \<Rightarrow> bool" where
  "counter_runs env \<longleftrightarrow> (\<exists>n. me_cntfrq env div 1000 * 100 \<le> me_counter env (n + 2) - me_counter env 1)"

section \<open>The rounds of the keyboard task\<close>

text \<open>As many rounds as characters wait give all of them to the shell; then none is left.\<close>

lemma rounds_feed_shell:
  assumes "read_all hw k = Some (cs, k')"
  shows "\<exists>k1. virtio_keyboard_read_char hw k1 = Some (None, k') \<and>
    keyboard_input_rounds hw uhw exec switch (length cs) (l, s, k, u) =
      map_option (\<lambda>(l, s). (l, s, k1, u)) (shell_handle_chars exec cs (l, s))"
  using assms
proof (induction cs arbitrary: k l s)
  case Nil
  then have "virtio_keyboard_read_char hw k = Some (None, k')"
    by (auto simp: read_all.simps [of hw k] split: option.splits prod.splits bind_splits)
  then show ?case by auto
next
  case (Cons c cs)
  then obtain k2 where k2: "virtio_keyboard_read_char hw k = Some (Some c, k2)" "read_all hw k2 = Some (cs, k')"
    by (auto simp: read_all.simps [of hw k] split: option.splits prod.splits bind_splits)
  show ?case
  proof (cases "shell_handle_char exec c (l, s)")
    case None
    then show ?thesis using k2 Cons.IH [OF k2(2)] by (auto simp: keyboard_input_round_def keyboard_read_char_def)
  next
    case (Some ls)
    obtain l1 s1 where "ls = (l1, s1)" by (rule prod.exhaust)
    then show ?thesis using k2(1) Some Cons.IH [OF k2(2), of l1 s1] by (auto simp: keyboard_input_round_def keyboard_read_char_def)
  qed
qed

section \<open>The stages\<close>

lemma wait_ticks_returns:
  assumes "n \<le> m" "\<not> counter m - start < delay"
  shows "\<exists>r. wait_ticks counter start delay n = Some r"
  using assms(1)
proof (induction "m - n" arbitrary: n)
  case 0
  then show ?case using assms(2) by (subst wait_ticks.simps) simp
next
  case (Suc d)
  then show ?case using Suc.hyps(1) [of "Suc n"] by (subst wait_ticks.simps) simp
qed

lemma timer_sleep_returns:
  assumes "counter_runs env"
  shows "\<exists>n. timer_sleep_ms (\<lambda>i. me_counter env (Suc i)) 100 (timer_init (me_cntfrq env) t) = Some n"
proof -
  obtain n where "me_cntfrq env div 1000 * 100 \<le> me_counter env (n + 2) - me_counter env 1"
    using assms by (auto simp: counter_runs_def)
  then show ?thesis
    using wait_ticks_returns [of 1 "n + 1" "\<lambda>i. me_counter env (Suc i)" "me_counter env 1" "me_cntfrq env div 1000 * 100"]
    by (simp add: timer_sleep_ms_def timer_init_def not_less)
qed

lemma boot_devices_state:
  "ma_kernel (boot_devices env m) = ma_kernel m"
  "ma_vfs m = vfs_bss s \<Longrightarrow> \<exists>f. ma_vfs (boot_devices env m) = vfs_bss f"
  "sy_pmm (ma_system (boot_devices env m)) = pmm_init (kernel_end (me_vm env))"
  "\<exists>h. sh_heap (ma_shell (boot_devices env m)) = heap_init h"
  by (auto simp: boot_devices_def Let_def vfs_bss_def split: prod.split)

lemma boot_memory_state:
  assumes "vm_env_ok (me_vm env)" "ma_kernel m = kernel_bss space regs mregs"
  obtains m' where "boot_memory env m = Some m'"
    "ma_kernel m' = kernel_boot (vm_root_table (me_vm env)) regs (arm64_mmu_enable (vm_root_table (me_vm env)) mregs)"
    "ma_vm m' = vm_booted (me_vm env) (ma_vm m)" "ma_vfs m' = ma_vfs m" "sy_pmm (ma_system m') = sy_pmm (ma_system m)"
    "sh_heap (ma_shell m') = sh_heap (ma_shell m)" "ma_vbar m' = me_vector env"
proof -
  obtain space' tables where sp: "address_space_init (vm_root_table (me_vm env)) user_tables_boot = (space', tables)" by (rule prod.exhaust)
  then have k: "(kernel_bss space regs mregs)\<lparr>mmu := r, kernel_address_space := space', user_tables_of := tables\<rparr> = kernel_boot (vm_root_table (me_vm env)) regs r" for r
    using kernel_bss_init(1) [where mregs' = r and root = "vm_root_table (me_vm env)"] by simp
  let ?k = "kernel_boot (vm_root_table (me_vm env)) regs (arm64_mmu_enable (vm_root_table (me_vm env)) mregs)"
  have "boot_memory env m = Some (with_vm (vm_booted (me_vm env) (ma_vm m)) (with_sys ((ma_system m)\<lparr>sy_kernel := ?k\<rparr>) (m\<lparr>ma_vbar := me_vector env\<rparr>)))"
    by (simp add: boot_memory_def vm_init_eq [OF assms(1)] assms(2) kernel_bss_init(2,3) sp k Let_def)
  then show thesis by (rule that) simp_all
qed

lemma boot_services_state:
  assumes "ma_kernel m = kernel_boot root regs mregs" "ma_vfs m = vfs_bss f"
  obtains out m' where "boot_services env m = (out, m')"
    "ma_kernel m' = sched_start (running_env env (ma_vm m)) root regs mregs" "vfs_inv (ma_vfs m')" "ram_files (ma_vfs m') = map_of program_files"
    "ma_timer m' = timer_init (me_cntfrq env) (ma_timer m)" "ma_vm m' = ma_vm m" "sy_pmm (ma_system m') = sy_pmm (ma_system m)"
    "sh_heap (ma_shell m') = sh_heap (ma_shell m)" "ma_vbar m' = ma_vbar m" "ma_gic m' = irq_init (ma_gic m)"
proof -
  obtain v where v: "user_programs_init (me_disk env) (vfs_init (vfs_bss f)) = (True, v)" "vfs_inv v" "ram_files v = map_of program_files"
    using programs_init_state [of "me_disk env" f] by blast
  obtain items m' where e: "boot_services env m = (items, m')" by (rule prod.exhaust)
  then have "ma_kernel m' = sched_start (running_env env (ma_vm m)) root regs mregs" "ma_vfs m' = v"
    "ma_timer m' = timer_init (me_cntfrq env) (ma_timer m)" "ma_vm m' = ma_vm m" "sy_pmm (ma_system m') = sy_pmm (ma_system m)"
    "sh_heap (ma_shell m') = sh_heap (ma_shell m)" "ma_vbar m' = ma_vbar m" "ma_gic m' = irq_init (ma_gic m)"
    using assms v(1) by (auto simp: boot_services_def Let_def)
  with e v(2,3) show thesis by (intro that [of items m']) simp_all
qed

lemma status_line_state [simp]:
  "ma_system (status_line what m) = ma_system m" "sh_heap (ma_shell (status_line what m)) = sh_heap (ma_shell m)"
  "ma_vm (status_line what m) = ma_vm m" "ma_timer (status_line what m) = ma_timer m" "ma_vbar (status_line what m) = ma_vbar m"
  "ma_gic (status_line what m) = ma_gic m" "ma_keyboard (status_line what m) = ma_keyboard m"
  by (simp_all add: status_line_def)

text \<open>The thread that reads the keyboard gets the first free slot.\<close>

lemma keyboard_thread:
  fixes env root regs mregs
  defines "k \<equiv> sched_start env root regs mregs"
  obtains k' where "snd (scheduler_create_kernel_thread env ''keyboard'' (Some (thread_entry 0)) k) = k'"
    "sched_inv k'" "task_count k' = 2" "t_state (tasks k' ! 1) = TASK_READY" "t_name (tasks k' ! 1) = ''keyboard''" "t_entry (tasks k' ! 1) = Some (thread_entry 0)"
    "kernel_address_space k' = kernel_address_space k" "user_tables_of k' = user_tables_of k" "mmu k' = mmu k"
    "\<not> threads_started k'" "tasks k' ! 0 = tasks k ! 0" "t_state (tasks k ! 0) = TASK_READY"
proof -
  have pick: "pick_slot k = Some (1, k\<lparr>task_count := 2\<rparr>)" using sched_start_views(2) by (simp add: pick_slot_def k_def)
  have inv: "sched_inv k" by (simp only: k_def sched_start_inv)
  have len: "length (tasks k) = 8" using sched_invD(1) [OF inv] by simp
  let ?k' = "snd (scheduler_create_kernel_thread env ''keyboard'' (Some (thread_entry 0)) k)"
  have "task_count ?k' = 2 \<and> t_state (tasks ?k' ! 1) = TASK_READY \<and> t_name (tasks ?k' ! 1) = ''keyboard'' \<and> t_entry (tasks ?k' ! 1) = Some (thread_entry 0) \<and>
    kernel_address_space ?k' = kernel_address_space k \<and> user_tables_of ?k' = user_tables_of k \<and> mmu ?k' = mmu k \<and>
    threads_started ?k' = threads_started k \<and> tasks ?k' ! 0 = tasks k ! 0"
    using len by (simp add: scheduler_create_kernel_thread_def scheduler_add_task_def pick Let_def upd_task_def scheduler_init_task_el0_def
        reset_task_def scheduler_clear_files_def scheduler_init_task_memory_def split: option.split)
  moreover have "sched_inv ?k'" unfolding scheduler_create_kernel_thread_def by (rule add_task_inv [OF inv])
  moreover have "t_state (tasks k ! 0) = TASK_READY"
    using sched_start_views(1) [of env root regs mregs] len by (simp add: k_def [symmetric] tview_def map_eq_Cons_conv) auto
  moreover have "\<not> threads_started k" using sched_start_views(4) by (simp add: k_def)
  ultimately show thesis by (intro that [of ?k']) simp_all
qed

lemma installed_file_data:
  assumes "vfs_inv v" "vfs_disk_path path = None" "ram_files v path = Some c"
  obtains bytes n where "vfs_file_data hw path v = (Some (bytes, n), v)" "take (unat n) bytes = c" "unat n \<le> length bytes"
proof -
  from assms(3) obtain i where i: "vfs_find path v = Some i" "rn_kind (nodes v ! i) = RAMFS_FILE"
    "c = take (unat (rn_size (nodes v ! i))) (rn_data (nodes v ! i))"
    by (auto simp: ram_files_def split: option.splits if_splits)
  have "unat (rn_size (nodes v ! i)) \<le> length (rn_data (nodes v ! i))"
    using vfs_found_ok(1) [OF assms(1) i(1)] by (simp add: node_ok_def)
  with i assms(2) show thesis by (intro that [of "rn_data (nodes v ! i)" "rn_size (nodes v ! i)"]) (simp_all add: vfs_file_data_def)
qed

definition demo_exec :: saturn_exec_image where
  "demo_exec = \<lparr>ei_code = 24, ei_data = 24 + 4 * length user_demo_code, ei_code_size = of_nat (4 * length user_demo_code),
     ei_data_size = of_nat (length user_demo_message), ei_entry_offset = 0\<rparr>"

lemma demo_program:
  "saturn_exec_parse user_demo_image (of_nat (length user_demo_image)) = Some demo_exec"
  "arguments_fit demo_exec []" "ram_files v = map_of program_files \<Longrightarrow> ram_files v (bytes_of ''/bin/user-demo.sx'') = Some user_demo_image"
  "vfs_disk_path (bytes_of ''/bin/user-demo.sx'') = None"
proof -
  have "0 < length user_demo_code" "length user_demo_code \<le> 1024" "length user_demo_message \<le> 4096"
    by (simp_all add: user_demo_code_def user_demo_message_def)
  from program_parsed [OF this] show "saturn_exec_parse user_demo_image (of_nat (length user_demo_image)) = Some demo_exec"
    by (simp add: user_demo_image_def demo_exec_def)
  have "length user_demo_message = 23" by (simp add: user_demo_message_def)
  then show "arguments_fit demo_exec []" by (simp add: arguments_fit_def argument_offset_def demo_exec_def arg_words.simps)
  show "ram_files v = map_of program_files \<Longrightarrow> ram_files v (bytes_of ''/bin/user-demo.sx'') = Some user_demo_image"
    by (simp add: program_files_def program_images_def)
  show "vfs_disk_path (bytes_of ''/bin/user-demo.sx'') = None" by (simp add: vfs_disk_path_def bytes_of_def)
qed

lemma running_env_ok:
  assumes "linker_ok env"
  shows "env_ok (arrays (running_env env (vm_booted (me_vm env) v)))"
    "kernel_map_ok (arrays (running_env env (vm_booted (me_vm env) v))) (vm_root_table (me_vm env))"
proof -
  let ?a = "arrays (running_env env (vm_booted (me_vm env) v))"
  have l: "vm_env_ok (me_vm env)" "env_ok (arrays (vm_kernel (me_vm env)))" "arrays_disjoint (me_vm env) (arrays (vm_kernel (me_vm env)))"
    using assms by (simp_all add: linker_ok_def)
  show "env_ok ?a" using l(2) by (simp add: running_env_def env_ok_def)
  have "arrays_disjoint (me_vm env) ?a" using l(3) by (simp add: running_env_def arrays_disjoint_def)
  then show "kernel_map_ok ?a (vm_root_table (me_vm env))"
    by (rule kernel_shared(1) [OF l(1) booted_installed]) (simp add: running_env_def)
qed

text \<open>What the first tasks are when all of them have been created.\<close>

definition first_tasks :: "kernel_env \<Rightarrow> u64 \<Rightarrow> kernel \<Rightarrow> bool" where
  "first_tasks kenv root k \<longleftrightarrow>
     task_count k = 3 \<and>
     t_name (tasks k ! 1) = ''keyboard'' \<and> t_state (tasks k ! 1) = TASK_READY \<and> t_entry (tasks k ! 1) = Some (thread_entry 0) \<and>
     t_name (tasks k ! 2) = ''user-demo'' \<and> t_state (tasks k ! 2) = TASK_READY \<and>
     program_loaded (arrays kenv) 0 root user_demo_image demo_exec [] (tasks k ! 2) (user_tables_of k)"

lemma program_loaded_stub:
  "program_loaded env s root bytes img words (t\<lparr>t_user_address_space := (t_user_address_space t)\<lparr>as_switch_stub_status := x\<rparr>\<rparr>) tables =
     program_loaded env s root bytes img words t tables"
  by (simp add: program_loaded_def space_runnable_def user_space_fields_def)

lemma refresh_stub_cases:
  obtains "refresh_stub i k = k" | x where "refresh_stub i k = k\<lparr>kernel_address_space := x\<rparr>"
  | x where "refresh_stub i k = upd_task i (\<lambda>t. t\<lparr>t_user_address_space := (t_user_address_space t)\<lparr>as_switch_stub_status := x\<rparr>\<rparr>) k"
proof (cases "tm_space (t_memory (tasks k ! i))")
  case NoSpace
  then show thesis using that(1) by (simp add: refresh_stub_def task_space_def)
next
  case KernelSpace
  then show thesis using that(2) by (simp add: refresh_stub_def task_space_def set_task_space_def)
next
  case OwnSpace
  then show thesis using that(3) by (simp add: refresh_stub_def task_space_def set_task_space_def upd_task_def address_space_switch_stub_def Let_def)
qed

lemma first_tasks_refresh:
  assumes "first_tasks kenv root k" "length (tasks k) = 8"
  shows "first_tasks kenv root (refresh_stubs k)" "mmu (refresh_stubs k) = mmu k"
proof -
  let ?ok = "\<lambda>k'. first_tasks kenv root k' \<and> mmu k' = mmu k \<and> length (tasks k') = 8"
  have one: "?ok (refresh_stub i k')" if "?ok k'" for i k'
    using that by (cases "i < 8"; cases rule: refresh_stub_cases [of i k'])
      (simp_all add: first_tasks_def upd_task_def nth_list_update list_update_beyond program_loaded_stub split: if_splits)
  have "?ok (fold refresh_stub is k')" if "?ok k'" for "is" k'
    using that by (induction "is" arbitrary: k') (simp_all add: one)
  with assms show "first_tasks kenv root (refresh_stubs k)" "mmu (refresh_stubs k) = mmu k" by (simp_all add: refresh_stubs_def)
qed

lemma boot_tasks_state:
  fixes env m
  defines "kenv \<equiv> running_env env (ma_vm m)"
  assumes k: "ma_kernel m = sched_start kenv root regs mregs" and v: "vfs_inv (ma_vfs m)" "ram_files (ma_vfs m) = map_of program_files"
    and e: "env_ok (arrays kenv)" "kernel_map_ok (arrays kenv) root"
  obtains out m' where "boot_tasks env m = (out, m')" "first_tasks kenv root (ma_kernel m')" "sched_inv (ma_kernel m')" "\<not> threads_started (ma_kernel m')"
    "mmu (ma_kernel m') = mregs" "ma_vfs m' = ma_vfs m" "sy_pmm (ma_system m') = sy_pmm (ma_system m)" "sh_heap (ma_shell m') = sh_heap (ma_shell m)"
    "ma_vm m' = ma_vm m" "ma_timer m' = ma_timer m" "ma_vbar m' = ma_vbar m" "ma_gic m' = ma_gic m"
proof -
  obtain k1 where k1: "snd (scheduler_create_kernel_thread kenv ''keyboard'' (Some (thread_entry 0)) (ma_kernel m)) = k1"
    "sched_inv k1" "task_count k1 = 2" "t_state (tasks k1 ! 1) = TASK_READY" "t_name (tasks k1 ! 1) = ''keyboard''" "t_entry (tasks k1 ! 1) = Some (thread_entry 0)"
    "kernel_address_space k1 = kernel_address_space (ma_kernel m)" "user_tables_of k1 = user_tables_of (ma_kernel m)" "mmu k1 = mmu (ma_kernel m)"
    "\<not> threads_started k1"
    unfolding k by (rule keyboard_thread [of kenv root regs mregs]) blast
  have "[1..<task_count k1] = [1]" unfolding k1(3) by (simp add: upt_rec)
  then have pick: "pick_slot k1 = Some (2, k1\<lparr>task_count := 3\<rparr>)" using k1(3,4) by (simp add: pick_slot_def)
  have boot: "user_tables_of k1 = user_tables_boot" "as_root_table (kernel_address_space k1) = root"
    unfolding k1(7,8) k by (simp_all add: sched_start_fields address_space_init_boot)
  have room: "user_tables_ok (user_tables_of k1)" "find_slot (\<lambda>used. \<not> used) (ut_used (user_tables_of k1)) = Some 0"
    unfolding boot(1) by (rule sample_env_ok)+
  note d = demo_program
  obtain bytes n where f: "vfs_file_data (me_disk env) (bytes_of ''/bin/user-demo.sx'') (ma_vfs m) = (Some (bytes, n), ma_vfs m)"
    "take (unat n) bytes = user_demo_image" "unat n \<le> length bytes"
    by (rule installed_file_data [OF v(1) d(4) d(3) [OF v(2)]])
  have "length user_demo_image = unat n" using f(3) by (simp add: f(2) [symmetric])
  then have n: "n = of_nat (length user_demo_image)" by simp
  have parse: "saturn_exec_parse bytes n = Some demo_exec"
    by (rule parse_prefix) (use d(1) f(2) n in simp)
  have none: "arg_words (argument_string None) = []" by (simp add: arg_words.simps)
  obtain k2 k3 where c: "create_user_task_from_file kenv (Some ''user-demo'') (Some (bytes, n)) None k1 = (Some 2, k2)"
    "scheduler_unblock_user_task kenv (int 2) k2 = (True, k3)" "sched_inv k3" "t_state (tasks k3 ! 2) = TASK_READY" "t_name (tasks k3 ! 2) = ''user-demo''"
    "program_loaded (arrays kenv) 0 root bytes demo_exec [] (tasks k3 ! 2) (user_tables_of k3)"
    "\<forall>q. q \<noteq> 2 \<longrightarrow> tasks k3 ! q = tasks k1 ! q" "k3 = k1\<lparr>tasks := tasks k3, task_count := task_count k3, user_tables_of := user_tables_of k3\<rparr>" "task_count k3 = 3"
    using launch_program_file [OF k1(2) pick e(1) room e(2) [folded boot(2)] parse f(3), of None "Some ''user-demo''"] d(2) boot(2) none by auto
  have loaded: "program_loaded (arrays kenv) 0 root user_demo_image demo_exec [] (tasks k3 ! 2) (user_tables_of k3)"
    using c(6) program_loaded_prefix [OF parse] f(2) by simp
  have keep: "threads_started k3 = threads_started k1" "mmu k3 = mmu k1" by (subst c(8), simp)+
  have first: "first_tasks kenv root k3" using c(4,5,7,9) k1(4-6) loaded by (simp add: first_tasks_def)
  note refreshed = first_tasks_refresh [OF first sched_invD(1) [OF c(3)]]
  obtain pid out where thread: "scheduler_create_kernel_thread kenv ''keyboard'' (Some (thread_entry 0)) (ma_kernel m) = (pid, k1)"
    using k1(1) by (metis prod.collapse)
  obtain report where dump: "scheduler_dump_tasks k3 = (report, refresh_stubs k3)" using dump_tasks_state by (metis prod.collapse)
  obtain out where m: "boot_tasks env m =
      (out, with_sys ((ma_system m)\<lparr>sy_kernel := refresh_stubs k3\<rparr>) (m\<lparr>ma_keyboard := keyboard_init (me_input env) (ma_keyboard m)\<rparr>))"
    using thread f(1) c(1,2) dump
    by (simp add: boot_tasks_def keyboard_input_init_def Let_def kenv_def scheduler_create_blocked_user_task_def scheduler_create_user_task_from_image_def)
  have mm: "mmu k3 = mregs" using keep(2) k1(9) unfolding k by (simp add: sched_start_fields)
  show thesis by (rule that [OF m]) (use refreshed mm keep k1(10) c(3) in \<open>simp_all add: refresh_inv refresh_fields\<close>)
qed

lemma boot_start_state:
  assumes "sched_inv (ma_kernel m)" "\<not> threads_started (ma_kernel m)" "first_tasks kenv root (ma_kernel m)"
  shows "first_tasks kenv root (ma_kernel (boot_start m))" "sched_inv (ma_kernel (boot_start m))" "threads_started (ma_kernel (boot_start m))"
    "current_task (ma_kernel (boot_start m)) = 0" "t_state (tasks (ma_kernel (boot_start m)) ! 0) = TASK_RUNNING"
    "mmu (ma_kernel (boot_start m)) = mmu (ma_kernel m)" "ma_vfs (boot_start m) = ma_vfs m" "sy_pmm (ma_system (boot_start m)) = sy_pmm (ma_system m)"
    "sh_heap (ma_shell (boot_start m)) = sh_heap (ma_shell m)" "ma_vm (boot_start m) = ma_vm m" "ma_vbar (boot_start m) = ma_vbar m"
    "\<not> ma_irq_masked (boot_start m)" "sy_interval (ma_system (boot_start m)) = 100"
    "cntp_ctl (ma_timer (boot_start m)) = 1" "cntp_tval (ma_timer (boot_start m)) = timer_frequency (ma_timer m) div 1000 * 100"
    "ma_gic (boot_start m) = ma_gic m"
proof -
  have k: "ma_kernel (boot_start m) = scheduler_start_threads (ma_kernel m)" by (simp add: boot_start_def Let_def irq_enable_def)
  have len: "0 < length (tasks (ma_kernel m))" using sched_invD(1) [OF assms(1)] by simp
  show "sched_inv (ma_kernel (boot_start m))" unfolding k by (rule start_inv [OF assms(1,2)])
  show "first_tasks kenv root (ma_kernel (boot_start m))" "threads_started (ma_kernel (boot_start m))"
    "current_task (ma_kernel (boot_start m)) = 0" "t_state (tasks (ma_kernel (boot_start m)) ! 0) = TASK_RUNNING"
    "mmu (ma_kernel (boot_start m)) = mmu (ma_kernel m)"
    unfolding k using assms(3) len
    by (simp_all add: scheduler_start_threads_def scheduler_set_running_task_def first_tasks_def upd_task_def upd_accounting_def set_state_def Let_def)
qed (simp_all add: boot_start_def Let_def irq_enable_def timer_start_periodic_def timer_get_interval_ms_def)

section \<open>Properties\<close>

text \<open>
  C4: the machine comes up. From power-on, for every disk, display and keyboard, when the linker places
  the image as the linker script says and the counter runs, \<open>kernel_main\<close> reaches
  \<open>scheduler_start_threads\<close>. Then only the pages of the kernel image and the display are taken and the heap
  is empty and well formed; the translation tables are built, validated and in use; the RAM file system
  holds exactly the built-in programs; the task table is well formed, with the idle task running, the
  keyboard task ready, and the demonstration program loaded from its file into its own address space and
  ready to be entered; the interrupt controller passes the timer's interrupt, interrupts are enabled, and
  the timer is on and fires every 100 ms.
\<close>

theorem kernel_main_boots:
  assumes "linker_ok env" "counter_runs env" "powered_on m"
  shows "\<exists>out m'. kernel_main env m = Some (out, m') \<and>
    heap_inv (sh_heap (ma_shell m')) (sy_pmm (ma_system m')) \<and>
    pmm_live (sy_pmm (ma_system m')) = reserved_pages (kernel_end (me_vm env)) \<and>
    vm_ready (ma_vm m') \<and> map_installed (me_vm env) (ma_vm m') \<and>
    arm64_mmu_is_enabled (mmu (ma_kernel m')) \<and> ttbr0_el1 (mmu (ma_kernel m')) = vm_root_table (me_vm env) \<and>
    ma_vbar m' = me_vector env \<and>
    vfs_inv (ma_vfs m') \<and> ram_files (ma_vfs m') = map_of program_files \<and>
    sched_inv (ma_kernel m') \<and> threads_started (ma_kernel m') \<and> current_task (ma_kernel m') = 0 \<and>
    t_state (tasks (ma_kernel m') ! 0) = TASK_RUNNING \<and>
    first_tasks (running_env env (ma_vm m')) (vm_root_table (me_vm env)) (ma_kernel m') \<and>
    \<not> ma_irq_masked m' \<and> timer_irq_passes (ma_gic m') \<and> sy_interval (ma_system m') = 100 \<and> cntp_ctl (ma_timer m') = 1 \<and>
    cntp_tval (ma_timer m') = me_cntfrq env div 1000 * 100"
proof -
  let ?root = "vm_root_table (me_vm env)" and ?d = "boot_devices env m"
  have vm: "vm_env_ok (me_vm env)" "PMM_RAM_BASE \<le> kernel_end (me_vm env)" using assms(1) by (simp_all add: linker_ok_def)
  obtain space regs mregs where k: "ma_kernel ?d = kernel_bss space regs mregs" "\<not> arm64_mmu_is_enabled mregs"
    using assms(3) boot_devices_state(1) [of env m] unfolding powered_on_def by metis
  obtain f where vfs: "ma_vfs ?d = vfs_bss f"
    using assms(3) boot_devices_state(2) [of m "vfs_sfs (ma_vfs m)" env] unfolding powered_on_def by metis
  obtain h where heap: "sh_heap (ma_shell ?d) = heap_init h" using boot_devices_state(4) [of env m] by blast
  obtain m1 where m1: "boot_memory env ?d = Some m1" "ma_kernel m1 = kernel_boot ?root regs (arm64_mmu_enable ?root mregs)"
    "ma_vm m1 = vm_booted (me_vm env) (ma_vm ?d)" "ma_vfs m1 = ma_vfs ?d" "sy_pmm (ma_system m1) = sy_pmm (ma_system ?d)"
    "sh_heap (ma_shell m1) = sh_heap (ma_shell ?d)" "ma_vbar m1 = me_vector env"
    by (rule boot_memory_state [OF vm(1) k(1)])
  obtain out2 m2 where m2: "boot_services env m1 = (out2, m2)"
    "ma_kernel m2 = sched_start (running_env env (ma_vm m1)) ?root regs (arm64_mmu_enable ?root mregs)" "vfs_inv (ma_vfs m2)" "ram_files (ma_vfs m2) = map_of program_files"
    "ma_timer m2 = timer_init (me_cntfrq env) (ma_timer m1)" "ma_vm m2 = ma_vm m1" "sy_pmm (ma_system m2) = sy_pmm (ma_system m1)"
    "sh_heap (ma_shell m2) = sh_heap (ma_shell m1)" "ma_vbar m2 = ma_vbar m1" "ma_gic m2 = irq_init (ma_gic m1)"
    by (rule boot_services_state [OF m1(2) trans [OF m1(4) vfs]])
  define s where "s = status_line ''VM OK'' m2"
  have s: "ma_system s = ma_system m2" "ma_vm s = ma_vm m1" "ma_timer s = timer_init (me_cntfrq env) (ma_timer m1)" "ma_vbar s = ma_vbar m1"
    "sh_heap (ma_shell s) = sh_heap (ma_shell m1)"
    by (simp_all add: s_def m2(5,6,8,9))
  obtain n where n: "timer_sleep_ms (\<lambda>i. me_counter env (Suc i)) 100 (ma_timer s) = Some n"
    unfolding s(3) using timer_sleep_returns [OF assms(2)] by blast
  have kenv: "ma_kernel s = sched_start (running_env env (ma_vm s)) ?root regs (arm64_mmu_enable ?root mregs)" "vfs_inv (ma_vfs s)" "ram_files (ma_vfs s) = map_of program_files"
    unfolding s(1,2) by (rule m2(2-4))+
  obtain out3 m3 where m3: "boot_tasks env s = (out3, m3)" "first_tasks (running_env env (ma_vm s)) ?root (ma_kernel m3)" "sched_inv (ma_kernel m3)" "\<not> threads_started (ma_kernel m3)"
    "mmu (ma_kernel m3) = arm64_mmu_enable ?root mregs" "ma_vfs m3 = ma_vfs s" "sy_pmm (ma_system m3) = sy_pmm (ma_system s)" "sh_heap (ma_shell m3) = sh_heap (ma_shell s)"
    "ma_vm m3 = ma_vm s" "ma_timer m3 = ma_timer s" "ma_vbar m3 = ma_vbar s" "ma_gic m3 = ma_gic s"
    by (rule boot_tasks_state [OF kenv]) (use running_env_ok [OF assms(1)] s(2) m1(3) in simp_all)
  note b = boot_start_state [OF m3(3,4,2)]
  have run: "\<exists>out. kernel_main env m = Some (out, boot_start m3)"
    unfolding kernel_main_def m1(1) m2(1) option.case prod.case Let_def s_def [symmetric] n m3(1) by blast
  have pmm: "sy_pmm (ma_system (boot_start m3)) = pmm_init (kernel_end (me_vm env))" "sh_heap (ma_shell (boot_start m3)) = heap_init h"
    using boot_devices_state(3) [of env m] by (simp_all add: b(8,9) m3(7,8) s(1,5) m2(7) m1(5,6) heap)
  have "heap_inv (sh_heap (ma_shell (boot_start m3))) (sy_pmm (ma_system (boot_start m3)))"
    unfolding pmm heap_inv_def using pmm_init_spec(1) [OF vm(2)] heap_init_repr [of h] by blast
  moreover have "pmm_live (sy_pmm (ma_system (boot_start m3))) = reserved_pages (kernel_end (me_vm env))"
    unfolding pmm by (rule pmm_init_spec(2) [OF vm(2)])
  moreover have "vm_ready (ma_vm (boot_start m3))" "map_installed (me_vm env) (ma_vm (boot_start m3))"
    using booted_installed [of "me_vm env" "ma_vm ?d"] by (simp_all add: b(10) m3(9) s(2) m1(3) vm_booted_def)
  moreover have "arm64_mmu_is_enabled (arm64_mmu_enable ?root mregs)" "ttbr0_el1 (arm64_mmu_enable ?root mregs) = ?root"
    using k(2) by (simp_all add: arm64_mmu_enable_def arm64_mmu_is_enabled_def bit_simps)
  moreover have "ma_vbar (boot_start m3) = me_vector env" by (simp add: b(11) m3(11) s(4) m1(7))
  moreover have "timer_irq_passes (ma_gic (boot_start m3))" by (simp add: b(16) m3(12) s_def m2(10) irq_init_passes)
  ultimately show ?thesis
    using run b m3 kenv s by (auto simp: timer_init_def)
qed

text \<open>A machine without a display and with the built-in disk, whose counter counts up.\<close>

definition no_display :: "unit fwcfg_hw" where
  "no_display = \<lparr>fw_store32 = \<lambda>_ _ f. f, fw_store64 = \<lambda>_ _ f. f, fw_load8 = \<lambda>_ _. 0, fw_load16 = \<lambda>_ _. 0, fw_load32 = \<lambda>_ _. 0,
     fw_wait = \<lambda>f. f, fw_directory = 0x40110000\<rparr>"

definition plain_env :: "(instant_dev, bool, unit) machine_env" where
  "plain_env = \<lparr>me_vm = sample_vm_env, me_disk = instant_hw, me_input = typing_input, me_fwcfg = no_display, me_vector = 0x40080800,
     me_cntfrq = 1000, me_counter = of_nat\<rparr>"

definition plain_machine :: "(instant_dev, bool, unit) machine" where
  "plain_machine = \<lparr>ma_shell = \<lparr>sh_sys = sample_system\<lparr>sy_kernel := kernel_bss (kernel_address_space sample_start) scheduler_clear_context mmu_off,
       sy_vfs := vfs_bss (sfs_boot ramdisk_boot)\<rparr>, sh_heap = heap_bss, sh_fb = dark_display,
       sh_vm = vm_bss, sh_timer = \<lparr>timer_frequency = 0, timer_interval_ms = 0, timer_interval_ticks = 0, timer_irq_ticks = 0, cntp_tval = 0, cntp_ctl = 0\<rparr>\<rparr>,
     ma_keyboard = idle_keyboard, ma_fw = (), ma_vbar = 0, ma_gic = [], ma_irq_masked = True\<rparr>"

theorem kernel_main_boots_witness:
  "\<exists>out m'. kernel_main plain_env plain_machine = Some (out, m') \<and> t_name (tasks (ma_kernel m') ! 2) = ''user-demo'' \<and>
     t_state (tasks (ma_kernel m') ! 2) = TASK_READY \<and> cntp_tval (ma_timer m') = 100"
proof -
  have "arrays_disjoint sample_vm_env sample_env"
    using sample_shared_ok(2) by (simp add: arrays_disjoint_def sample_shared_env_def)
  moreover have "vm_kernel sample_vm_env = \<lparr>arrays = sample_env, stack_region = 0x400c0000, code_address = (\<lambda>_. 0)\<rparr>" "kernel_end sample_vm_env = 0x40190000"
    by (simp_all add: sample_vm_env_def)
  ultimately have "linker_ok plain_env" using sample_vm_ok(1) sample_env_ok(1) by (simp add: linker_ok_def plain_env_def)
  moreover have "counter_runs plain_env"
    unfolding counter_runs_def by (rule exI [of _ 99]) (simp add: plain_env_def)
  moreover have "powered_on plain_machine"
    by (auto simp: powered_on_def plain_machine_def kernel_bss_def kernel_boot_def mmu_off_def arm64_mmu_is_enabled_def vfs_bss_def)
  ultimately obtain out m' where "kernel_main plain_env plain_machine = Some (out, m')"
    "first_tasks (running_env plain_env (ma_vm m')) (vm_root_table (me_vm plain_env)) (ma_kernel m')"
    "cntp_tval (ma_timer m') = me_cntfrq plain_env div 1000 * 100"
    using kernel_main_boots [of plain_env plain_machine] by blast
  then show ?thesis by (auto simp: first_tasks_def plain_env_def)
qed

end
