(* ===== verification/Spec2Isabelle.thy ===== *)
theory Spec2Isabelle
  imports Heap Traps Kprintf VmProps Programs Keyboard FramebufferProps ShellProps Launch SpaceSlots Boot
begin

text \<open>
  A model of the SaturnOS kernel (arm64, QEMU virt) and the theorems that make its parts correct.

  The program. SaturnOS boots one core, sets up physical memory, a heap, translation tables, a disk with
  a small file system and a RAM file system in front of it, and then runs kernel threads and user
  programs under a round-robin scheduler with timer preemption. A user program is an executable file;
  the kernel copies it into a private address space, enters it at EL0, and serves its system calls until
  it exits or faults.

  The theories, in the order in which they build on each other, with the sources they model:

  \<^item> \<open>Prelude\<close>: machine words, C strings, little-endian words, first-free-slot loops, copying into buffers.
  \<^item> \<open>Pmm\<close> (kernel/memory/pmm.c): the page bitmap. Allocation gives out the lowest free page, never one
    that is reserved or already given out; freeing undoes it. The locale \<open>page_allocator\<close> states the
    contract the heap relies on; it is interpreted for the bitmap.
  \<^item> \<open>Heap\<close> (kernel/memory/heap.c): block headers in an explicit store, splitting, merging, growing by
    pages of the allocator. kmalloc and kfree return (their list walks are partial functions), live blocks
    never overlap, and all bytes are accounted for; the rounding of the 15 largest sizes wraps.
  \<^item> \<open>Virtio\<close> (drivers/storage/virtio_blk.c), \<open>Block\<close> (kernel/storage/block.c): the request queue of the
    virtio disk, whose device is a parameter with its documented behaviour as hypotheses, and the block
    layer over it or over the built-in RAM disk. The locale \<open>block_store\<close> states that sectors written
    read back; it is interpreted for the block layer.
  \<^item> \<open>FileStore\<close>, \<open>Sfs\<close> (kernel/fs/sfs.c): the contract of a flat file store as a locale, and SaturnFS with
    its on-disk structures as bytes. The interpretation gives reading back, and remounting keeps files.
  \<^item> \<open>Vfs\<close> (kernel/fs/vfs.c): the RAM file system tree with SaturnFS mounted under /disk. The tree stays well
    formed under every sequence of calls; creating, writing, truncating, removing and renaming act on the
    abstract tree as specified. RAM files are a second interpretation of \<open>file_store\<close>.
  \<^item> \<open>Mmu\<close> (arch/arm64/mmu.c, mmu.h): descriptors, registers, and the three-level walk of the hardware.
  \<^item> \<open>AddressSpace\<close> (kernel/memory/address_space.c): four slots of static tables and pages. The walk through
    a new space is computed completely: three pages of its own and the shared kernel map; spaces do not interfere.
  \<^item> \<open>Executable\<close> (kernel/user/executable.c): the parser accepts exactly the encodings of programs that fit.
  \<^item> \<open>Task\<close> (kernel/sched/scheduler.h, context.S, parts of scheduler.c and user.c): tasks, sessions, stacks
    with guard pages, and the record \<open>kernel\<close> of everything the scheduler and the sessions share.
  \<^item> \<open>UserMode\<close> (arch/arm64/user.c): entering EL0, and the handlers that end an excursion.
  \<^item> \<open>Scheduler\<close> (kernel/sched/scheduler.c): creation of threads and user tasks with their arguments,
    blocking, sleeping, yielding, preemption, exit, waiting and reaping. \<open>SchedulerInv\<close> proves that every
    operation keeps the task table well formed, as an inductive step relation; \<open>SchedulerProps\<close> proves
    fairness, what a switch does to registers and translation, sleeping, and the end of excursions.
  \<^item> \<open>Syscall\<close> (kernel/syscall/syscall.c): the twenty-five calls and the dispatcher over all of the above,
    with user memory read and written through the translation in force. \<open>SyscallMem\<close> proves the frame
    of every call, \<open>SyscallProps\<close> that calls are confined to the caller, that written bytes read back,
    that waiting returns the child's result, and that calls are counted once.
  \<^item> \<open>Traps\<close> (arch/arm64/exception.c, exception.s, irq.c, timer.c, kernel/exception/decoder.c): the handlers a
    trap from EL0 or an interrupt reaches, the decoder and the timer.
  \<^item> \<open>Kprintf\<close> (kernel/console/kprintf.c): the bytes each format produces, None where C defines none.
  \<^item> \<open>SpaceSlots\<close>: the static tables under the scheduler. In every state the step relation reaches, a slot is in
    use exactly when one task owns it.
  \<^item> \<open>Vm\<close>, \<open>VmProps\<close> (kernel/memory/vm.c): building, validating and auditing the kernel's translation tables
    and switching the MMU on. \<open>vm_init\<close> returns without an error, the hardware walk is the identity map
    with the permissions of the sections, and nothing that EL1 can write can be executed at EL1 or EL0. From boot
    on EL0 has data access to its own three pages only; besides its own code page it can execute the pages of the
    kernel's code, whose descriptors have UXN clear, and nothing else. The hypotheses about the kernel map that \<open>AddressSpace\<close> makes are discharged.
  \<^item> \<open>Programs\<close> (kernel/user/programs.c): the seven program images byte for byte, and their installation.
  \<^item> \<open>Launch\<close>: the whole way of a program from its file to a task ready at EL0, with its pages, its arguments
    and its entry state; creation fails exactly when the arguments do not fit or no task entry or no table slot is
    free, and then changes nothing in use.
  \<^item> \<open>Uart\<close> (drivers/uart/uart.c, kernel/console/console.c), \<open>Framebuffer\<close>, \<open>FramebufferProps\<close>
    (drivers/video/framebuffer.c): the serial line, the display's set-up through the firmware
    configuration device, drawing, and the text console. The console implements an abstract grid of characters
    pixel by pixel, and drawing stays on the screen.
  \<^item> \<open>Keyboard\<close> (drivers/keyboard/keyboard.c): probing, the event queue and key translation. Of all events the device
    sends none is lost, repeated or reordered, and they give the characters of a US keyboard.
  \<^item> \<open>Reports\<close> (the dump functions of pmm.c, heap.c, vm.c, block.c, sfs.c, vfs.c, syscall.c and scheduler.c, and the
    messages of the scheduler's operations): the lines each of them prints, from the state it reads.
  \<^item> \<open>ShellLine\<close>, \<open>ShellLineProps\<close> (the line editor of kernel/shell/shell.c): editing, history, completion. The
    buffers and the terminal row refine an editor of two halves of a line. \<open>Shell\<close>, \<open>ShellProps\<close>: every command
    over the components it calls; whole sessions refine the editor, commands keep the invariants of
    scheduler and file system, and what write stores, cat prints.
  \<^item> \<open>Boot\<close> (kernel/src/kernel.c, kernel/input/keyboard_input.c, the set-up in irq.c): \<open>kernel_main\<close> over all of
    the above. From power-on it reaches the first thread, and the state then satisfies the invariants the
    other theories start from, with the timer on and its interrupt passing the controller.
  \<^item> This theory: the way from key presses through the keyboard task and the line editor to commands.

  Conventions. unsigned long is \<open>64 word\<close>, char is \<open>8 word\<close>, int is an \<open>int\<close> or \<open>32 word\<close> where its width
  matters. A function of the source takes the state it uses and returns its result with the new state; a
  null or negative return is None or False where it carries nothing else. Arrays are lists of the length the
  source gives them. Loops over fixed arrays are list functions; loops that could fail to end (free-list
  walks, the virtio completion poll, waiting for a child, the busy wait of the timer) are partial functions
  into option or carry the bound of the source, and the theorems about them say that they return. No fuel is
  chosen in the model. The result None of a system call or of a shell command covers a call that never returns
  and one that ends in a data abort of the kernel; a value Some says that neither happened.

  Parameters. The devices (\<open>virtio_hw\<close>, \<open>input_hw\<close>, \<open>uart_hw\<close>, \<open>fwcfg_hw\<close>), the readings of the counter
  (\<open>me_counter\<close>), the addresses the linker gives to arrays, sections and functions (\<open>as_env\<close>, \<open>kernel_env\<close>, \<open>vm_env\<close>),
  the program running at EL0 (its return to the kernel is a function return), and what other tasks do between a context switch and the switch back
  (\<open>resume\<close>) are arguments. What is assumed of them is named: \<open>env_ok\<close> and \<open>vm_env_ok\<close> for the linker, the laws of
  each device (that of the keyboard names the record of the events it has sent; that of the disk is stated of
  the descriptor chain the driver builds), \<open>counter_runs\<close>, and \<open>powered_on\<close> for zeroed static data. \<open>kernel_map_ok\<close> and
  \<open>kernel_tables_outside\<close>, which the theories on user spaces assume of the memory outside their arrays,
  hold of the tables of \<open>vm_init\<close>; in \<open>Boot\<close> the memory is those tables (\<open>running_env\<close>).

  Output. The shell and \<open>kernel_main\<close> give the list of what they print, with the lines of the reports they
  call. \<open>scheduler_dump_tasks\<close> is the one report that changes the state: it stores the result of the switch check in
  every space, which is a step of the scheduler's step relation. The state of \<open>Boot\<close> keeps the display as the
  drawing and status line calls leave it; what the list of lines does to it is \<open>console_write\<close>. The bytes of the
  write system call are kept. Printing itself does not fail or wait in these lists: \<open>uart_putc\<close> waits until the
  serial port is ready, which it is taken to become (\<open>Uart\<close> models the wait and a port that never gets ready). A
  line with %d of the smallest int, which C leaves undefined, is left out.

  Not modelled. The messages of entering and leaving user tasks, of the system call handlers and of the
  panic, and the tracing of switches; barriers, TLB and cache maintenance; tests of pointer arguments for null where no caller passes null; boot.S, which sets the
  stack pointer and calls \<open>kernel_main\<close>; the register saving of exception.s and user_entry.S beyond the frame
  record; the demonstration threads of kernel/demo, which config.h switches off.
\<close>

text \<open>
  C17: From key presses to commands. The keyboard task starts the shell and feeds it. With a device that
  keeps the rules of the shared queue and stops sending at some time, there are as many rounds of the
  task's loop as characters, after which no key is waiting. The characters are exactly those that the key
  events stand for on a US keyboard: those waiting at first, followed by all events the device has sent
  since, none lost, repeated or reordered, with releases and unknown keys giving none and the shift key
  changing the later ones. And the shell has run exactly the command lines an editor of a line with a
  cursor makes of these characters, in their order, the screen showing the editor's line.
\<close>
theorem keys_edit_and_run:
  assumes "input_lawful hw good sent budget" "kbd_good good k"
  shows "\<exists>cs k' new. sent (kdev k') = sent (kdev k) @ new \<and> key_chars (keyboard_shift k) (kbd_pending k @ new) = (cs, keyboard_shift k') \<and>
    kbd_pending k' = [] \<and> budget (kdev k') + length new \<le> budget (kdev k) \<and>
    (case ed_session (shell_exec env resume) cs (ed_start, st) of
       None \<Rightarrow> keyboard_input_rounds hw uhw (shell_exec env resume) switch (length cs) (shell_init shell_bss, st, k, u) = None
     | Some (e', st') \<Rightarrow>
         \<exists>l' k1. keyboard_input_rounds hw uhw (shell_exec env resume) switch (length cs) (shell_init shell_bss, st, k, u) = Some (l', st', k1, u) \<and>
           line_rel l' e' \<and> virtio_keyboard_read_char hw k1 = Some (None, k'))"
proof -
  let ?exec = "shell_exec env resume"
  obtain cs k' new where r: "read_all hw k = Some (cs, k')" "kbd_pending k' = []"
    "key_chars (keyboard_shift k) (kbd_pending k @ new) = (cs, keyboard_shift k')" "sent (kdev k') = sent (kdev k) @ new"
    "budget (kdev k') + length new \<le> budget (kdev k)"
    using keyboard_reads_every_key [OF assms] by blast
  obtain k1 where k1: "virtio_keyboard_read_char hw k1 = Some (None, k')"
    "keyboard_input_rounds hw uhw ?exec switch (length cs) (shell_init shell_bss, st, k, u) =
      map_option (\<lambda>(l, s). (l, s, k1, u)) (shell_handle_chars ?exec cs (shell_init shell_bss, st))"
    using rounds_feed_shell [OF r(1), of uhw ?exec switch "shell_init shell_bss" st u] by blast
  have "case ed_session ?exec cs (ed_start, st) of
      None \<Rightarrow> shell_handle_chars ?exec cs (shell_init shell_bss, st) = None
    | Some (e', st') \<Rightarrow> \<exists>l'. shell_handle_chars ?exec cs (shell_init shell_bss, st) = Some (l', st') \<and> line_rel l' e'"
    by (rule shell_handle_chars_rel [OF shell_init_rel shell_execute_lines])
  then have "case ed_session ?exec cs (ed_start, st) of
      None \<Rightarrow> keyboard_input_rounds hw uhw ?exec switch (length cs) (shell_init shell_bss, st, k, u) = None
    | Some (e', st') \<Rightarrow>
        \<exists>l' k1. keyboard_input_rounds hw uhw ?exec switch (length cs) (shell_init shell_bss, st, k, u) = Some (l', st', k1, u) \<and>
          line_rel l' e' \<and> virtio_keyboard_read_char hw k1 = Some (None, k')"
    using k1 by (auto split: option.splits)
  with r(2-5) show ?thesis by blast
qed

text \<open>Shift and the key a are pressed while the task waits: one round puts the letter A into the line.\<close>

theorem keys_edit_and_run_witness:
  "\<exists>l' k1. keyboard_input_rounds typing_input fast_uart (shell_exec sample_shell_env id) Some 1 (shell_init shell_bss, demo_shell, idle_keyboard, []) =
      Some (l', demo_shell, k1, []) \<and> line_rel l' (snd (ed_key 0x41 ed_start))"
proof -
  let ?rounds = "\<lambda>n. keyboard_input_rounds typing_input fast_uart (shell_exec sample_shell_env id) Some n (shell_init shell_bss, demo_shell, idle_keyboard, [])"
  obtain cs k' new where r: "(if kdev k' then typed_keys else []) = new" "key_chars False new = (cs, keyboard_shift k')"
    "case ed_session (shell_exec sample_shell_env id) cs (ed_start, demo_shell) of None \<Rightarrow> ?rounds (length cs) = None
     | Some (e', st') \<Rightarrow> \<exists>l' k1. ?rounds (length cs) = Some (l', st', k1, []) \<and> line_rel l' e' \<and> virtio_keyboard_read_char typing_input k1 = Some (None, k')"
    using keys_edit_and_run [OF typing_lawful idle_keyboard_facts(1), where env = sample_shell_env and resume = id and st = demo_shell and uhw = fast_uart and switch = Some and u = "[]"]
    by (auto simp: idle_keyboard_facts(2,4,5))
  have "kdev k'"
  proof (rule ccontr)
    assume "\<not> kdev k'"
    then show False using r idle_keyboard_facts(6) by auto
  qed
  then have "cs = [0x41]" using r(1,2) idle_keyboard_facts(3) by simp
  moreover have "ed_key 0x41 ed_start = (None, snd (ed_key 0x41 ed_start))"
    by (simp add: ed_key_def ed_start_def)
  ultimately show ?thesis using r(3) by (auto split: option.splits prod.splits)
qed

end
